(* ===== verification/Prelude.thy ===== *)
theory Prelude
  imports Main "HOL-Library.AList" "HOL-Library.Char_ord" "HOL-Library.List_Lexorder"
begin

text \<open>
  Shared ground of the development: how the JavaScript values, strings, timestamps,
  maps and exceptions of the brain server are represented, and the generic lemmas the
  component theories use.

  \<^item> A string is a list of characters, each standing for one UTF-16 code unit below
    256; \<open>length\<close> is JavaScript's \<open>length\<close> on such strings, and \<open><\<close> on strings is the
    code-unit order of JavaScript's comparison and default \<open>sort\<close>.
  \<^item> A thrown exception is \<open>Inl\<close> of a value of type \<open>throws\<close>: a coded domain
    error, or the \<open>ZodError\<close> of an unguarded \<open>Schema.parse\<close>, or another native error.
  \<^item> A value of TypeScript type \<open>unknown\<close> at a trust boundary is \<open>Malformed\<close> when it does
    not have the declared strict shape (wrong types, unknown keys, a string field that is
    not an ISO timestamp), and \<open>Shaped\<close> otherwise; the value-level constraints of the
    schema are then checked on the shaped value.
  \<^item> A \<open>Map\<close> is an association list with distinct keys in insertion order.
\<close>

section \<open>Results and untrusted inputs\<close>

datatype 'c throws = Throws 'c | ZodError | NativeError

datatype 'a raw = Malformed | Shaped 'a

definition guarded :: "bool \<Rightarrow> 'c \<Rightarrow> 'c throws + unit" where
  "guarded ok c = (if ok then Inr () else Inl (Throws c))"

fun ebind :: "'e + 'a \<Rightarrow> ('a \<Rightarrow> 'e + 'b) \<Rightarrow> 'e + 'b" where
  "ebind (Inl e) f = Inl e"
| "ebind (Inr a) f = f a"

lemma ebind_InrE [elim!]:
  assumes "ebind m f = Inr b" obtains a where "m = Inr a" "f a = Inr b"
  using assms by (cases m) auto

lemma ebind_Inr_iff: "ebind m f = Inr b \<longleftrightarrow> (\<exists>a. m = Inr a \<and> f a = Inr b)"
  by (cases m) auto

lemma guarded_Inr [simp]: "guarded ok c = Inr u \<longleftrightarrow> ok"
  by (simp add: guarded_def)

lemma guarded_Inl [simp]: "guarded ok c = Inl e \<longleftrightarrow> \<not> ok \<and> e = Throws c"
  by (auto simp: guarded_def)

lemma guarded_True [simp]: "guarded True c = Inr ()"
  by (simp add: guarded_def)

lemma guarded_False [simp]: "guarded False c = Inl (Throws c)"
  by (simp add: guarded_def)

definition require :: "'a option \<Rightarrow> 'c \<Rightarrow> 'c throws + 'a" where
  "require x c = (case x of None \<Rightarrow> Inl (Throws c) | Some v \<Rightarrow> Inr v)"

lemma require_Inr [simp]: "require x c = Inr v \<longleftrightarrow> x = Some v"
  by (auto simp: require_def split: option.splits)

lemma require_Inl [simp]: "require x c = Inl e \<longleftrightarrow> x = None \<and> e = Throws c"
  by (auto simp: require_def split: option.splits)

lemma require_Some [simp]: "require (Some v) c = Inr v"
  by (simp add: require_def)

lemma require_None [simp]: "require None c = Inl (Throws c)"
  by (simp add: require_def)

section \<open>Timestamps\<close>

text \<open>
  An ISO-8601 timestamp string accepted by the schemas. \<open>Iso ms\<close> is the text that
  \<open>Date.prototype.toISOString\<close> renders for the instant \<open>ms\<close> (milliseconds since the
  epoch); \<open>Wire s p\<close> is any other accepted text \<open>s\<close>, with \<open>p\<close> what \<open>Date.parse\<close> makes of
  it (\<open>None\<close> for \<open>NaN\<close>). Equality is equality of the texts, as \<open>===\<close> on strings.
\<close>

datatype timestamp = Iso int | Wire string "int option"

fun date_parse :: "timestamp \<Rightarrow> int option" where
  "date_parse (Iso ms) = Some ms"
| "date_parse (Wire s p) = p"

text \<open>Comparisons of two \<open>Date.parse\<close> results: a comparison with \<open>NaN\<close> is false.\<close>

fun num_less :: "int option \<Rightarrow> int option \<Rightarrow> bool" where
  "num_less (Some a) (Some b) = (a < b)"
| "num_less _ _ = False"

fun num_le :: "int option \<Rightarrow> int option \<Rightarrow> bool" where
  "num_le (Some a) (Some b) = (a \<le> b)"
| "num_le _ _ = False"

definition ts_less :: "timestamp \<Rightarrow> timestamp \<Rightarrow> bool" where
  "ts_less a b = num_less (date_parse a) (date_parse b)"

definition ts_le :: "timestamp \<Rightarrow> timestamp \<Rightarrow> bool" where
  "ts_le a b = num_le (date_parse a) (date_parse b)"

lemma ts_less_Iso [simp]: "ts_less (Iso a) (Iso b) \<longleftrightarrow> a < b"
  by (simp add: ts_less_def)

lemma ts_le_Iso [simp]: "ts_le (Iso a) (Iso b) \<longleftrightarrow> a \<le> b"
  by (simp add: ts_le_def)

lemma num_less_iff: "num_less x y \<longleftrightarrow> (\<exists>a b. x = Some a \<and> y = Some b \<and> a < b)"
  by (cases x; cases y) auto

lemma num_le_iff: "num_le x y \<longleftrightarrow> (\<exists>a b. x = Some a \<and> y = Some b \<and> a \<le> b)"
  by (cases x; cases y) auto

section \<open>Strings and the identifier patterns\<close>

definition code :: "char \<Rightarrow> nat" where
  "code c = of_char c"

definition is_digit :: "char \<Rightarrow> bool" where
  "is_digit c \<longleftrightarrow> 48 \<le> code c \<and> code c \<le> 57"

definition is_lower :: "char \<Rightarrow> bool" where
  "is_lower c \<longleftrightarrow> 97 \<le> code c \<and> code c \<le> 122"

definition is_upper :: "char \<Rightarrow> bool" where
  "is_upper c \<longleftrightarrow> 65 \<le> code c \<and> code c \<le> 90"

definition is_alnum :: "char \<Rightarrow> bool" where
  "is_alnum c \<longleftrightarrow> is_digit c \<or> is_lower c \<or> is_upper c"

definition is_space :: "char \<Rightarrow> bool" where
  "is_space c \<longleftrightarrow> code c \<in> set [9, 10, 11, 12, 13, 32, 160]"

text \<open>\<open>String.prototype.trim\<close>.\<close>

definition js_trim :: "string \<Rightarrow> string" where
  "js_trim s = rev (dropWhile is_space (rev (dropWhile is_space s)))"

text \<open>
  \<open>z.string().trim().min(1).max(n)\<close> replaces the text by its trimmed form and then bounds
  its length. A schema is modelled by the function that trims the fields of its record
  (\<open>norm_...\<close>), the predicate its result has to satisfy (\<open>..._ok\<close>) and the parse that
  composes the two.
\<close>

definition len_ok :: "nat \<Rightarrow> string \<Rightarrow> bool" where
  "len_ok n s \<longleftrightarrow> 1 \<le> length s \<and> length s \<le> n"

text \<open>Bounds on lengths are evaluated over the binary integers.\<close>

lemma length_bound_code [code_unfold]:
  "length xs \<le> nat_of_num k \<longleftrightarrow> int (length xs) \<le> numeral k"
  "nat_of_num k < length xs \<longleftrightarrow> numeral k < int (length xs)"
  by (simp_all add: nat_of_num_numeral)

lemma len_ok_code [code]: "len_ok n s \<longleftrightarrow> s \<noteq> [] \<and> int (length s) \<le> int n"
  by (cases s) (auto simp: len_ok_def)

definition parse_with :: "('a \<Rightarrow> 'a) \<Rightarrow> ('a \<Rightarrow> bool) \<Rightarrow> 'a \<Rightarrow> 'a option" where
  "parse_with norm ok x = (let y = norm x in if ok y then Some y else None)"

definition zod :: "'a option \<Rightarrow> 'c throws + 'a" where
  "zod p = (case p of None \<Rightarrow> Inl ZodError | Some y \<Rightarrow> Inr y)"

definition safe_parse :: "'c \<Rightarrow> ('a \<Rightarrow> 'a option) \<Rightarrow> 'a raw \<Rightarrow> 'c throws + 'a" where
  "safe_parse c parse r = (case r of Malformed \<Rightarrow> Inl (Throws c)
     | Shaped x \<Rightarrow> (case parse x of None \<Rightarrow> Inl (Throws c) | Some y \<Rightarrow> Inr y))"

fun opt_ok :: "('a \<Rightarrow> bool) \<Rightarrow> 'a option \<Rightarrow> bool" where
  "opt_ok P None = True"
| "opt_ok P (Some x) = P x"

fun split_on :: "(char \<Rightarrow> bool) \<Rightarrow> string \<Rightarrow> string list" where
  "split_on P [] = [[]]"
| "split_on P (x # xs) =
     (if P x then [] # split_on P xs
      else (case split_on P xs of [] \<Rightarrow> [[x]] | y # ys \<Rightarrow> (x # y) # ys))"

lemma dropWhile_idem: "dropWhile P (dropWhile P xs) = dropWhile P xs"
  by (induction xs) auto

lemma dropWhile_all_rev:
  assumes "dropWhile P s = s" shows "dropWhile P (rev (dropWhile P (rev s))) = rev (dropWhile P (rev s))"
proof (cases s)
  case Nil then show ?thesis by simp
next
  case (Cons a t)
  then have a: "\<not> P a" using assms by (auto split: if_splits) (metis length_dropWhile_le impossible_Cons)
  have "rev (dropWhile P (rev s)) = a # rev (dropWhile P (rev t))"
    using Cons a by (simp add: dropWhile_append)
  then show ?thesis using a by simp
qed

lemma js_trim_idem [simp]: "js_trim (js_trim s) = js_trim s"
proof -
  let ?u = "dropWhile is_space s"
  have "dropWhile is_space (rev (dropWhile is_space (rev ?u))) = rev (dropWhile is_space (rev ?u))"
    by (rule dropWhile_all_rev) (simp add: dropWhile_idem)
  then show ?thesis unfolding js_trim_def by (simp add: dropWhile_idem)
qed

lemma map_option_trim [simp]: "map_option js_trim (map_option js_trim x) = map_option js_trim x"
  by (cases x) auto

lemma parse_with_Some: "parse_with norm ok x = Some y \<longleftrightarrow> y = norm x \<and> ok y"
  by (auto simp: parse_with_def Let_def)

lemma zod_Inr [simp]: "zod p = Inr y \<longleftrightarrow> p = Some y"
  by (auto simp: zod_def split: option.splits)

lemma zod_Some [simp]: "zod (Some y) = Inr y"
  by (simp add: zod_def)

lemma zod_Inl [simp]: "zod p = Inl e \<longleftrightarrow> p = None \<and> e = ZodError"
  by (auto simp: zod_def split: option.splits)

lemma safe_parse_Inr: "safe_parse c parse r = Inr y \<longleftrightarrow> (\<exists>x. r = Shaped x \<and> parse x = Some y)"
  by (auto simp: safe_parse_def split: raw.splits option.splits)

lemma safe_parse_Inl: "safe_parse c parse r = Inl e \<Longrightarrow> e = Throws c"
  by (auto simp: safe_parse_def split: raw.splits option.splits)

section \<open>Sets and sorted lists of strings\<close>

text \<open>\<open>[...new Set(xs)]\<close>: the first occurrences, in order.\<close>

definition uniq :: "'a list \<Rightarrow> 'a list" where
  "uniq xs = rev (remdups (rev xs))"

lemma set_uniq [simp]: "set (uniq xs) = set xs"
  by (simp add: uniq_def)

lemma distinct_uniq [simp]: "distinct (uniq xs)"
  by (simp add: uniq_def)

lemma uniq_Nil [simp]: "uniq [] = []"
  by (simp add: uniq_def)

text \<open>\<open>[...new Set(xs)].sort()\<close>.\<close>

definition sorted_unique :: "string list \<Rightarrow> string list" where
  "sorted_unique xs = sort (uniq xs)"

lemma set_sorted_unique [simp]: "set (sorted_unique xs) = set xs"
  by (simp add: sorted_unique_def)

lemma sorted_sorted_unique [simp]: "sorted (sorted_unique xs)"
  by (simp add: sorted_unique_def)

lemma distinct_sorted_unique [simp]: "distinct (sorted_unique xs)"
  by (simp add: sorted_unique_def)

lemma sorted_unique_cong: "set xs = set ys \<Longrightarrow> sorted_unique xs = sorted_unique ys"
  by (rule sorted_distinct_set_unique) simp_all

text \<open>
  \<open>xs.sort(cmp)\<close> for a comparison given as "not after"; \<open>localeCompare\<close>, whose collation is the
  engine's, is such a parameter. A sort is stable and permutes its list whatever the comparison is.
\<close>

fun insert_by :: "('a \<Rightarrow> 'a \<Rightarrow> bool) \<Rightarrow> 'a \<Rightarrow> 'a list \<Rightarrow> 'a list" where
  "insert_by le x [] = [x]"
| "insert_by le x (y # ys) = (if le x y then x # y # ys else y # insert_by le x ys)"

definition sort_by :: "('a \<Rightarrow> 'a \<Rightarrow> bool) \<Rightarrow> 'a list \<Rightarrow> 'a list" where
  "sort_by le xs = foldr (insert_by le) xs []"

lemma set_insert_by [simp]: "set (insert_by le x xs) = insert x (set xs)"
  by (induction xs) auto

lemma set_sort_by [simp]: "set (sort_by le xs) = set xs"
  by (induction xs) (simp_all add: sort_by_def)

lemma length_sort_by [simp]: "length (sort_by le xs) = length xs"
proof -
  have "length (insert_by le x ys) = Suc (length ys)" for x ys by (induction ys) auto
  then show ?thesis by (induction xs) (simp_all add: sort_by_def)
qed

lemma distinct_sort_by [simp]: "distinct (map f (sort_by le xs)) = distinct (map f xs)"
proof -
  have "distinct (map f (insert_by le x ys)) = (f x \<notin> f ` set ys \<and> distinct (map f ys))" for x ys
    by (induction ys) auto
  moreover have "set (foldr (insert_by le) ys []) = set ys" for ys by (induction ys) auto
  ultimately show ?thesis by (induction xs) (simp_all add: sort_by_def)
qed

section \<open>Insertion-ordered maps\<close>

type_synonym ('k, 'v) jsmap = "('k \<times> 'v) list"

abbreviation map_get :: "('k, 'v) jsmap \<Rightarrow> 'k \<Rightarrow> 'v option" where
  "map_get m k \<equiv> map_of m k"

abbreviation map_set :: "'k \<Rightarrow> 'v \<Rightarrow> ('k, 'v) jsmap \<Rightarrow> ('k, 'v) jsmap" where
  "map_set k v m \<equiv> AList.update k v m"

abbreviation map_delete :: "'k \<Rightarrow> ('k, 'v) jsmap \<Rightarrow> ('k, 'v) jsmap" where
  "map_delete k m \<equiv> AList.delete k m"

definition map_has :: "('k, 'v) jsmap \<Rightarrow> 'k \<Rightarrow> bool" where
  "map_has m k \<longleftrightarrow> map_of m k \<noteq> None"

abbreviation map_values :: "('k, 'v) jsmap \<Rightarrow> 'v list" where
  "map_values m \<equiv> map snd m"

definition keys_distinct :: "('k, 'v) jsmap \<Rightarrow> bool" where
  "keys_distinct m \<longleftrightarrow> distinct (map fst m)"

lemma keys_distinct_Nil [simp]: "keys_distinct []"
  by (simp add: keys_distinct_def)

lemma keys_distinct_set [simp, intro]: "keys_distinct m \<Longrightarrow> keys_distinct (map_set k v m)"
  by (simp add: keys_distinct_def distinct_update)

lemma keys_distinct_delete [simp, intro]: "keys_distinct m \<Longrightarrow> keys_distinct (map_delete k m)"
  by (simp add: keys_distinct_def distinct_delete)

lemma map_get_set: "map_get (map_set k v m) = (map_get m)(k \<mapsto> v)"
  by (rule update_conv')

lemma map_get_delete: "map_get (map_delete k m) = (map_get m)(k := None)"
  by (rule delete_conv')

lemma map_set_fresh: "map_of m k = None \<Longrightarrow> map_set k v m = m @ [(k, v)]"
  by (induction m) (auto split: if_splits)

lemma length_map_set:
  "length (map_set k v m) = (if map_has m k then length m else Suc (length m))"
  by (induction m) (auto simp: map_has_def)

lemma length_map_delete_le: "length (map_delete k m) \<le> length m"
  by (rule length_delete_le)

lemma length_map_delete: "keys_distinct m \<Longrightarrow> map_has m k \<Longrightarrow> Suc (length (map_delete k m)) = length m"
proof (induction m)
  case (Cons p m)
  then show ?case
    by (cases p) (auto simp: keys_distinct_def map_has_def split: if_splits)
qed (simp add: map_has_def)

lemma map_has_iff: "map_has m k \<longleftrightarrow> k \<in> fst ` set m"
  by (simp add: map_has_def map_of_eq_None_iff)

lemma map_values_get: "keys_distinct m \<Longrightarrow> v \<in> set (map_values m) \<longleftrightarrow> (\<exists>k. map_get m k = Some v)"
  by (force simp: keys_distinct_def dest: map_of_SomeD intro: map_of_is_SomeI)

section \<open>Bounded stores\<close>

text \<open>
  The contract every bounded in-memory store of the server keeps: an operation that
  succeeds maintains the store's invariant, and the invariant bounds the number of
  entries. Client lemmas: any sequence of operations, failed ones skipped, stays within
  the bound.
\<close>

locale bounded_store =
  fixes entries :: "'s \<Rightarrow> nat"
    and capacity :: "'s \<Rightarrow> nat"
    and invar :: "'s \<Rightarrow> bool"
    and step :: "'op \<Rightarrow> 's \<Rightarrow> 'e + 's"
  assumes invar_bound: "invar s \<Longrightarrow> entries s \<le> capacity s"
    and step_invar: "invar s \<Longrightarrow> step op s = Inr s' \<Longrightarrow> invar s'"
    and step_capacity: "step op s = Inr s' \<Longrightarrow> capacity s' = capacity s"
begin

definition apply_op :: "'op \<Rightarrow> 's \<Rightarrow> 's" where
  "apply_op op s = (case step op s of Inl e \<Rightarrow> s | Inr s' \<Rightarrow> s')"

lemma apply_op_invar: "invar s \<Longrightarrow> invar (apply_op op s)"
  by (auto simp: apply_op_def step_invar split: sum.splits)

lemma apply_op_capacity: "capacity (apply_op op s) = capacity s"
  by (auto simp: apply_op_def step_capacity split: sum.splits)

lemma run_invar: "invar s \<Longrightarrow> invar (fold apply_op ops s)"
  by (induction ops arbitrary: s) (auto simp: apply_op_invar)

lemma run_capacity: "capacity (fold apply_op ops s) = capacity s"
  by (induction ops arbitrary: s) (auto simp: apply_op_capacity)

lemma run_bound: "invar s \<Longrightarrow> entries (fold apply_op ops s) \<le> capacity s"
  using invar_bound [OF run_invar [of s ops]] by (simp add: run_capacity)

end

end
