(* ===== verification/Json.thy ===== *)
theory Json
  imports Prelude
begin

text \<open>
  JSON-safe values and their canonical serialisation
  (\<open>src/brain-server/src/contracts/json-safe.ts\<close>, \<open>evidence/model.ts\<close>,
  \<open>evidence/errors.ts\<close>). Every digest of the trust boundary is SHA-256 over
  \<open>canonicalJson\<close>; SHA-256 itself (\<open>node:crypto\<close>) is a parameter, a function from texts
  to texts. The theory proves that the canonical text determines the value up to the order
  of object members, so two different payloads can share a digest only through a collision
  of the hash function.

  A JavaScript value is a finite tree (cyclic object graphs, which the code rejects, are
  not represented). \<open>JOther\<close> stands for \<open>undefined\<close>, functions, dates, class instances
  and the other values that are not JSON-safe. A finite number is given by its sign and the
  shortest decimal digits and exponent that ECMAScript's \<open>Number::toString\<close> selects.
\<close>

datatype evidence_error_code =
    EVIDENCE_INPUT_INVALID | EVIDENCE_CLAIM_INVALID | EVIDENCE_PROVIDER_ERROR
  | EVIDENCE_PROVIDER_DUPLICATE | EVIDENCE_PROVIDER_CLASS_MISMATCH
  | EVIDENCE_PROVIDER_VERIFICATION_ESCALATION | EVIDENCE_TIMESTAMP_INVALID
  | EVIDENCE_COLLECTION_LIMIT_EXCEEDED | EVIDENCE_COLLECTION_ABORTED
  | EVIDENCE_CAPABILITY_NOT_FOUND | EVIDENCE_CAPABILITY_VERSION_MISMATCH
  | EVIDENCE_SUBJECT_RESOLVER_NOT_FOUND | EVIDENCE_SUBJECT_RESOLVER_DUPLICATE
  | EVIDENCE_SUBJECT_KEY_INVALID | EVIDENCE_SUBJECT_MISMATCH
  | EVIDENCE_GUARD_RUN_NOT_FOUND | EVIDENCE_GUARD_RUN_NOT_PROCEED
  | EVIDENCE_REQUIREMENTS_CHANGED | EVIDENCE_INPUT_BINDING_MISMATCH
  | EVIDENCE_COVERAGE_INTEGRITY_FAILURE | EVIDENCE_COVERAGE_ASSESSMENT_FAILED
  | EVIDENCE_LINEAGE_MISSING | EVIDENCE_LINEAGE_CONFLICT | EVIDENCE_LINEAGE_INVALIDATED
  | EVIDENCE_RUNTIME_INTERNAL

section \<open>Values\<close>

datatype jsnum = NaN | Infinite bool | Fin bool nat int

datatype jsval =
    JNull | JBool bool | JNum jsnum | JStr string
  | JArr "jsval list" | JObj "(string \<times> jsval) list" | JOther

type_synonym json_object = "(string \<times> jsval) list"

fun js_is_finite :: "jsnum \<Rightarrow> bool" where
  "js_is_finite (Fin neg s n) = True"
| "js_is_finite _ = False"

fun is_json_safe :: "jsval \<Rightarrow> bool" and all_json_safe :: "jsval list \<Rightarrow> bool"
  and members_json_safe :: "json_object \<Rightarrow> bool" where
  "is_json_safe JNull = True"
| "is_json_safe (JBool b) = True"
| "is_json_safe (JStr s) = True"
| "is_json_safe (JNum x) = js_is_finite x"
| "is_json_safe (JArr xs) = all_json_safe xs"
| "is_json_safe (JObj ms) = members_json_safe ms"
| "is_json_safe JOther = False"
| "all_json_safe [] = True"
| "all_json_safe (x # xs) = (is_json_safe x \<and> all_json_safe xs)"
| "members_json_safe [] = True"
| "members_json_safe ((k, x) # ms) = (is_json_safe x \<and> members_json_safe ms)"

text \<open>\<open>JsonObjectSchema\<close>; the members of an object have distinct keys.\<close>

definition json_object_ok :: "json_object \<Rightarrow> bool" where
  "json_object_ok ms \<longleftrightarrow> distinct (map fst ms) \<and> members_json_safe ms"

section \<open>Numbers and strings as text\<close>

fun nat_str :: "nat \<Rightarrow> string" where
  "nat_str n = (if n < 10 then [char_of (48 + n)] else nat_str (n div 10) @ [char_of (48 + n mod 10)])"

declare nat_str.simps [simp del]

definition int_str :: "int \<Rightarrow> string" where
  "int_str i = (if i < 0 then ''-'' else []) @ nat_str (nat \<bar>i\<bar>)"

text \<open>ECMAScript \<open>Number::toString\<close> for radix 10: value \<open>s * 10^(n - k)\<close>, \<open>k\<close> the number of digits of \<open>s\<close>.\<close>

fun num_str :: "jsnum \<Rightarrow> string" where
  "num_str NaN = ''NaN''"
| "num_str (Infinite neg) = (if neg then ''-Infinity'' else ''Infinity'')"
| "num_str (Fin neg s n) =
     (if s = 0 then ''0''
      else (if neg then ''-'' else []) @
        (let d = nat_str s; k = int (length d) in
         if k \<le> n \<and> n \<le> 21 then d @ replicate (nat (n - k)) CHR ''0''
         else if 0 < n \<and> n \<le> 21 then take (nat n) d @ ''.'' @ drop (nat n) d
         else if -6 < n \<and> n \<le> 0 then ''0.'' @ replicate (nat (- n)) CHR ''0'' @ d
         else (if k = 1 then d else take 1 d @ ''.'' @ drop 1 d)
              @ ''e'' @ (if n - 1 < 0 then ''-'' else ''+'') @ nat_str (nat \<bar>n - 1\<bar>)))"

definition hexd :: "nat \<Rightarrow> char" where
  "hexd n = (if n < 10 then char_of (48 + n) else char_of (87 + n))"

text \<open>\<open>JSON.stringify\<close> of a string, code unit by code unit.\<close>

definition esc :: "char \<Rightarrow> string" where
  "esc c =
     (if c = CHR 0x22 then [CHR 0x5C, CHR 0x22]
      else if c = CHR 0x5C then [CHR 0x5C, CHR 0x5C]
      else if c = CHR 0x08 then CHR 0x5C # ''b''
      else if c = CHR 0x09 then CHR 0x5C # ''t''
      else if c = CHR 0x0A then CHR 0x5C # ''n''
      else if c = CHR 0x0C then CHR 0x5C # ''f''
      else if c = CHR 0x0D then CHR 0x5C # ''r''
      else if code c < 32 then CHR 0x5C # ''u00'' @ [hexd (code c div 16), hexd (code c mod 16)]
      else [c])"

definition quote :: "string \<Rightarrow> string" where
  "quote s = CHR 0x22 # concat (map esc s) @ [CHR 0x22]"

fun js_join :: "string \<Rightarrow> string list \<Rightarrow> string" where
  "js_join sep [] = []"
| "js_join sep (x # xs) = x @ concat (map (\<lambda>y. sep @ y) xs)"

section \<open>Canonical serialisation\<close>

fun canonical_json :: "jsval \<Rightarrow> evidence_error_code throws + string"
  and canonical_items :: "jsval list \<Rightarrow> evidence_error_code throws + string list"
  and canonical_members :: "json_object \<Rightarrow> evidence_error_code throws + (string \<times> string) list" where
  "canonical_json JNull = Inr ''null''"
| "canonical_json (JBool b) = Inr (if b then ''true'' else ''false'')"
| "canonical_json (JStr s) = Inr (quote s)"
| "canonical_json (JNum x) =
     (if js_is_finite x then Inr (num_str x) else Inl (Throws EVIDENCE_CLAIM_INVALID))"
| "canonical_json (JArr xs) =
     ebind (canonical_items xs) (\<lambda>ts. Inr (''['' @ js_join '','' ts @ '']''))"
| "canonical_json (JObj ms) =
     ebind (canonical_members ms) (\<lambda>ps.
       Inr (''{'' @ js_join '','' (map (\<lambda>(k, t). quote k @ '':'' @ t) (sort_key fst ps)) @ ''}''))"
| "canonical_json JOther = Inl (Throws EVIDENCE_CLAIM_INVALID)"
| "canonical_items [] = Inr []"
| "canonical_items (x # xs) =
     ebind (canonical_json x) (\<lambda>t. ebind (canonical_items xs) (\<lambda>ts. Inr (t # ts)))"
| "canonical_members [] = Inr []"
| "canonical_members ((k, x) # ms) =
     ebind (canonical_json x) (\<lambda>t. ebind (canonical_members ms) (\<lambda>ps. Inr ((k, t) # ps)))"

lemma canonical_json_safe:
  "is_json_safe v \<Longrightarrow> \<exists>t. canonical_json v = Inr t"
  "all_json_safe xs \<Longrightarrow> \<exists>ts. canonical_items xs = Inr ts"
  "members_json_safe ms \<Longrightarrow> \<exists>ps. canonical_members ms = Inr ps"
  by (induction v and xs and ms rule: canonical_json_canonical_items_canonical_members.induct)
    (auto simp: ebind_Inr_iff)

lemma canonical_json_unsafe:
  "\<not> is_json_safe v \<Longrightarrow> canonical_json v = Inl (Throws EVIDENCE_CLAIM_INVALID)"
  "\<not> all_json_safe xs \<Longrightarrow> canonical_items xs = Inl (Throws EVIDENCE_CLAIM_INVALID)"
  "\<not> members_json_safe ms \<Longrightarrow> canonical_members ms = Inl (Throws EVIDENCE_CLAIM_INVALID)"
proof (induction v and xs and ms rule: canonical_json_canonical_items_canonical_members.induct)
  case (9 x xs)
  then show ?case using canonical_json_safe(1) [of x] by (cases "is_json_safe x") auto
next
  case (11 k x ms)
  then show ?case using canonical_json_safe(1) [of x] by (cases "is_json_safe x") auto
qed auto


section \<open>Numbers, timestamps and optional members\<close>

text \<open>
  A JavaScript number that is an integer of at most 21 digits; \<open>Number::toString\<close> writes its
  decimal digits.
\<close>

definition int_num :: "int \<Rightarrow> jsnum" where
  "int_num i = Fin (i < 0) (nat \<bar>i\<bar>) (int (length (nat_str (nat \<bar>i\<bar>))))"

definition max_safe_integer :: int where
  "max_safe_integer = 9007199254740991"

fun read_nat :: "string \<Rightarrow> nat \<Rightarrow> nat" where
  "read_nat [] a = a"
| "read_nat (c # cs) a = read_nat cs (10 * a + (code c - 48))"

lemma read_nat_append: "read_nat (xs @ ys) a = read_nat ys (read_nat xs a)"
  by (induction xs arbitrary: a) auto

lemma read_nat_str: "read_nat (nat_str n) 0 = n"
proof (induction n rule: nat_str.induct)
  case (1 n)
  then show ?case by (subst nat_str.simps) (auto simp: read_nat_append code_def)
qed

lemma nat_str_inj: "nat_str m = nat_str n \<Longrightarrow> m = n"
  by (metis read_nat_str)

lemma nat_str_hd: "code (hd (nat_str n)) \<ge> 48 \<and> nat_str n \<noteq> []"
proof (induction n rule: nat_str.induct)
  case (1 n)
  then show ?case by (subst (1 2) nat_str.simps) (auto simp: code_def)
qed

lemma int_str_inj: "int_str i = int_str j \<Longrightarrow> i = j"
proof -
  assume eq: "int_str i = int_str j"
  have "hd (nat_str n) \<noteq> CHR ''-''" for n using nat_str_hd [of n] by (auto simp: code_def)
  then have ne: "CHR ''-'' # x \<noteq> nat_str n" for x n by (metis list.sel(1))
  show "i = j" using eq ne ne [symmetric]
    by (auto simp: int_str_def split: if_splits dest!: nat_str_inj)
qed

lemma length_nat_str: "n < 10 ^ Suc k \<Longrightarrow> length (nat_str n) \<le> Suc k"
proof (induction k arbitrary: n)
  case 0
  then show ?case by (subst nat_str.simps) simp
next
  case (Suc k)
  then have "n div 10 < 10 ^ Suc k" by simp
  with Suc.IH have "length (nat_str (n div 10)) \<le> Suc k" .
  then show ?case by (subst nat_str.simps) simp
qed

lemma nat_str_zero: "nat_str 0 = ''0''"
  by code_simp

lemma js_is_finite_int [simp]: "js_is_finite (int_num i)"
  by (simp add: int_num_def)

text \<open>
  \<open>Date.prototype.toISOString\<close>: the proleptic Gregorian date of the day number (day 0 is
  1970-01-01) and the time of day.
\<close>

definition civil :: "int \<Rightarrow> int \<times> int \<times> int" where
  "civil day = (let z = day + 719468; era = z div 146097; doe = z mod 146097;
      yoe = (doe - doe div 1460 + doe div 36524 - doe div 146096) div 365;
      doy = doe - (365 * yoe + yoe div 4 - yoe div 100);
      mp = (5 * doy + 2) div 153; m = (if mp < 10 then mp + 3 else mp - 9)
    in (yoe + era * 400 + (if m \<le> 2 then 1 else 0), m, doy - (153 * mp + 2) div 5 + 1))"

definition pad :: "nat \<Rightarrow> int \<Rightarrow> string" where
  "pad k i = (let d = nat_str (nat i) in replicate (k - length d) CHR ''0'' @ d)"

definition iso_text :: "int \<Rightarrow> string" where
  "iso_text ms = (case civil (ms div 86400000) of (y, m, d) \<Rightarrow>
     let t = ms mod 86400000 in
     (if 0 \<le> y \<and> y \<le> 9999 then pad 4 y else (if y < 0 then ''-'' else ''+'') @ pad 6 \<bar>y\<bar>)
     @ ''-'' @ pad 2 m @ ''-'' @ pad 2 d @ ''T'' @ pad 2 (t div 3600000) @ '':'' @ pad 2 (t div 60000 mod 60)
     @ '':'' @ pad 2 (t div 1000 mod 60) @ ''.'' @ pad 3 (t mod 1000) @ ''Z'')"

fun ts_text :: "timestamp \<Rightarrow> string" where
  "ts_text (Iso ms) = iso_text ms"
| "ts_text (Wire s p) = s"

lemma iso_text_epoch: "iso_text 0 = ''1970-01-01T00:00:00.000Z''"
  by code_simp

text \<open>An object literal whose optional members are present only when they are defined.\<close>

definition opt_member :: "string \<Rightarrow> ('a \<Rightarrow> jsval) \<Rightarrow> 'a option \<Rightarrow> json_object" where
  "opt_member k f x = (case x of None \<Rightarrow> [] | Some v \<Rightarrow> [(k, f v)])"

definition nullable :: "('a \<Rightarrow> jsval) \<Rightarrow> 'a option \<Rightarrow> jsval" where
  "nullable f x = (case x of None \<Rightarrow> JNull | Some v \<Rightarrow> f v)"

definition JTime :: "timestamp \<Rightarrow> jsval" where
  "JTime t = JStr (ts_text t)"

definition JInt :: "int \<Rightarrow> jsval" where
  "JInt i = JNum (int_num i)"

lemma safe_literals [simp]:
  "is_json_safe (JTime t)" "is_json_safe (JInt i)"
  by (simp_all add: JTime_def JInt_def int_num_def)

lemma all_json_safe_iff: "all_json_safe xs \<longleftrightarrow> (\<forall>x \<in> set xs. is_json_safe x)"
  by (induction xs) auto

lemma members_json_safe_iff: "members_json_safe ms \<longleftrightarrow> (\<forall>m \<in> set ms. is_json_safe (snd m))"
  by (induction ms) auto

lemma members_json_safe_append [simp]:
  "members_json_safe (xs @ ys) \<longleftrightarrow> members_json_safe xs \<and> members_json_safe ys"
  by (auto simp: members_json_safe_iff)

lemma opt_member_safe [simp]: "(\<And>v. is_json_safe (f v)) \<Longrightarrow> members_json_safe (opt_member k f x)"
  by (cases x) (auto simp: opt_member_def)

lemma nullable_safe [simp]: "(\<And>v. is_json_safe (f v)) \<Longrightarrow> is_json_safe (nullable f x)"
  by (cases x) (auto simp: nullable_def)


section \<open>UTF-8\<close>

text \<open>\<open>Buffer.from(text, 'utf8')\<close> for code units below 256; a byte is a character.\<close>

definition utf8_char :: "char \<Rightarrow> string" where
  "utf8_char c = (if code c < 128 then [c]
     else [char_of (192 + code c div 64), char_of (128 + code c mod 64)])"

definition utf8 :: "string \<Rightarrow> string" where
  "utf8 s = concat (map utf8_char s)"

lemma code_less: "code c < 256"
  by (simp add: code_def)

lemma code_inj: "code c = code d \<Longrightarrow> c = d"
  by (simp add: code_def)

lemma utf8_char_inj: "utf8_char c @ r = utf8_char d @ r' \<Longrightarrow> c = d \<and> r = r'"
proof -
  assume eq: "utf8_char c @ r = utf8_char d @ r'"
  have c: "code (char_of n) = n" if "n < 256" for n :: nat using that by (simp add: code_def)
  have b: "192 + code c div 64 < 256" "192 + code d div 64 < 256" "128 + code c mod 64 < 256" "128 + code d mod 64 < 256"
    using code_less [of c] code_less [of d] by auto
  from eq have h: "code (hd (utf8_char c @ r)) = code (hd (utf8_char d @ r'))" by simp
  show ?thesis
  proof (cases "code c < 128"; cases "code d < 128")
    assume "code c < 128" "code d < 128" then show ?thesis using eq by (simp add: utf8_char_def)
  next
    assume "code c < 128" "\<not> code d < 128" then show ?thesis using h b by (simp add: utf8_char_def c)
  next
    assume "\<not> code c < 128" "code d < 128" then show ?thesis using h b by (simp add: utf8_char_def c)
  next
    assume "\<not> code c < 128" "\<not> code d < 128"
    then have "code c div 64 = code d div 64" "code c mod 64 = code d mod 64" "r = r'"
      using eq b c by (auto simp: utf8_char_def dest!: arg_cong [of _ _ code])
    then show ?thesis using code_inj by (metis div_mult_mod_eq)
  qed
qed

lemma utf8_char_nonempty: "utf8_char c \<noteq> []"
  by (simp add: utf8_char_def)

lemma utf8_inj: "utf8 s = utf8 t \<Longrightarrow> s = t"
proof (induction s arbitrary: t)
  case Nil
  then show ?case using utf8_char_nonempty by (cases t) (auto simp: utf8_def)
next
  case (Cons c s)
  then show ?case
    using utf8_char_nonempty [of c] utf8_char_inj by (cases t) (fastforce simp: utf8_def)+
qed

lemma length_utf8: "length (utf8 s) \<le> 2 * length s"
  by (induction s) (auto simp: utf8_def utf8_char_def)

end
