(* ===== verification/Canonical.thy ===== *)
theory Canonical
  imports Json
begin

text \<open>
  The canonical text of a JSON-safe value determines the value. The content of a value is
  a tree \<open>ctree\<close> in which the members of an object are sorted by key and a number is its
  decimal text; \<open>canonical_json\<close> renders that tree, and rendering is injective.
\<close>

section \<open>Content trees\<close>

datatype ctree =
    CNull | CBool bool | CNum string | CStr string
  | CArr "ctree list" | CObj "(string \<times> ctree) list"

fun content :: "jsval \<Rightarrow> ctree option" and content_items :: "jsval list \<Rightarrow> ctree list option"
  and content_members :: "json_object \<Rightarrow> (string \<times> ctree) list option" where
  "content JNull = Some CNull"
| "content (JBool b) = Some (CBool b)"
| "content (JStr s) = Some (CStr s)"
| "content (JNum x) = (if js_is_finite x then Some (CNum (num_str x)) else None)"
| "content (JArr xs) = map_option CArr (content_items xs)"
| "content (JObj ms) = map_option (\<lambda>cs. CObj (sort_key fst cs)) (content_members ms)"
| "content JOther = None"
| "content_items [] = Some []"
| "content_items (x # xs) =
     Option.bind (content x) (\<lambda>c. Option.bind (content_items xs) (\<lambda>cs. Some (c # cs)))"
| "content_members [] = Some []"
| "content_members ((k, x) # ms) =
     Option.bind (content x) (\<lambda>c. Option.bind (content_members ms) (\<lambda>cs. Some ((k, c) # cs)))"

fun render :: "ctree \<Rightarrow> string" and render_items :: "ctree list \<Rightarrow> string list"
  and render_members :: "(string \<times> ctree) list \<Rightarrow> string list" where
  "render CNull = ''null''"
| "render (CBool b) = (if b then ''true'' else ''false'')"
| "render (CNum t) = t"
| "render (CStr s) = quote s"
| "render (CArr cs) = ''['' @ js_join '','' (render_items cs) @ '']''"
| "render (CObj ms) = ''{'' @ js_join '','' (render_members ms) @ ''}''"
| "render_items [] = []"
| "render_items (c # cs) = render c # render_items cs"
| "render_members [] = []"
| "render_members ((k, c) # ms) = (quote k @ '':'' @ render c) # render_members ms"

lemma render_items_map: "render_items cs = map render cs"
  by (induction cs) auto

lemma render_members_map: "render_members ms = map (\<lambda>(k, c). quote k @ '':'' @ render c) ms"
  by (induction ms) auto

lemma insort_key_map: "insort_key fst (k, g c) (map (\<lambda>(k, c). (k, g c)) l) =
    map (\<lambda>(k, c). (k, g c)) (insort_key fst (k, c) l)"
  by (induction l) auto

lemma sort_key_map: "sort_key fst (map (\<lambda>(k, c). (k, g c)) l) = map (\<lambda>(k, c). (k, g c)) (sort_key fst l)"
  by (induction l) (auto simp: insort_key_map)

lemma object_text:
  "map (\<lambda>(k, t). quote k @ '':'' @ t) (sort_key fst (map (\<lambda>(k, c). (k, render c)) cs)) =
   render_members (sort_key fst cs)"
  unfolding sort_key_map render_members_map by (simp add: comp_def split_def)

lemma canonical_json_content:
  "canonical_json v = Inr t \<longleftrightarrow> (\<exists>c. content v = Some c \<and> t = render c)"
  "canonical_items xs = Inr ts \<longleftrightarrow> (\<exists>cs. content_items xs = Some cs \<and> ts = render_items cs)"
  "canonical_members ms = Inr ps \<longleftrightarrow> (\<exists>cs. content_members ms = Some cs \<and> ps = map (\<lambda>(k, c). (k, render c)) cs)"
proof (induction v and xs and ms arbitrary: t and ts and ps
    rule: canonical_json_canonical_items_canonical_members.induct)
  case (6 ms)
  show ?case
    using object_text by (auto simp: ebind_Inr_iff 6 simp del: append.simps)
next
  case (9 x xs)
  then show ?case by (auto simp: ebind_Inr_iff bind_eq_Some_conv)
next
  case (11 k x ms)
  then show ?case by (auto simp: ebind_Inr_iff bind_eq_Some_conv)
qed (auto simp: ebind_Inr_iff)

section \<open>Escaped strings\<close>

definition unhex :: "char \<Rightarrow> nat" where
  "unhex c = (if code c < 87 then code c - 48 else code c - 87)"

definition unesc :: "string \<Rightarrow> (char \<times> string) option" where
  "unesc s = (case s of [] \<Rightarrow> None
    | a # r \<Rightarrow> if a \<noteq> CHR 0x5C then Some (a, r)
        else (case r of [] \<Rightarrow> None
          | b # r' \<Rightarrow>
              if b = CHR ''b'' then Some (CHR 0x08, r')
              else if b = CHR ''t'' then Some (CHR 0x09, r')
              else if b = CHR ''n'' then Some (CHR 0x0A, r')
              else if b = CHR ''f'' then Some (CHR 0x0C, r')
              else if b = CHR ''r'' then Some (CHR 0x0D, r')
              else if b = CHR ''u'' then Some (char_of (16 * unhex (r' ! 2) + unhex (r' ! 3)), drop 4 r')
              else Some (b, r')))"

lemma unhex_hexd:
  assumes "n < 16" shows "unhex (hexd n) = n"
  using assms by (auto simp: unhex_def hexd_def code_def)

lemma char_of_code [simp]: "char_of (code c) = c"
  by (simp add: code_def)

lemma unesc_esc: "unesc (esc c @ r) = Some (c, r)"
proof -
  consider (q) "c = CHR 0x22" | (b) "c = CHR 0x5C"
    | (s) "c \<in> {CHR 0x08, CHR 0x09, CHR 0x0A, CHR 0x0C, CHR 0x0D}"
    | (u) "c \<noteq> CHR 0x22" "c \<noteq> CHR 0x5C" "c \<notin> {CHR 0x08, CHR 0x09, CHR 0x0A, CHR 0x0C, CHR 0x0D}" "code c < 32"
    | (l) "c \<noteq> CHR 0x22" "c \<noteq> CHR 0x5C" "code c \<ge> 32" by fastforce
  then show ?thesis
  proof cases
    case u
    have "16 * (code c div 16) + code c mod 16 = code c" by simp
    with u show ?thesis by (simp add: esc_def unesc_def unhex_hexd)
  qed (auto simp: esc_def unesc_def code_def)
qed

lemma esc_inj: "esc c @ r = esc d @ r' \<Longrightarrow> c = d \<and> r = r'"
  by (metis unesc_esc option.inject prod.inject)

lemma esc_nonempty [simp]: "esc c \<noteq> []"
  by (auto simp: esc_def)

lemma esc_head: "hd (esc c) \<noteq> CHR 0x22"
  by (auto simp: esc_def)

lemma escs_inj:
  "concat (map esc s) @ CHR 0x22 # r = concat (map esc t) @ CHR 0x22 # r' \<Longrightarrow> s = t \<and> r = r'"
proof (induction s arbitrary: t)
  case Nil
  then show ?case
  proof (cases t)
    case (Cons d t')
    with Nil have "hd (esc d) = CHR 0x22" by (cases "esc d") auto
    then show ?thesis using esc_head by blast
  qed simp
next
  case (Cons c s)
  show ?case
  proof (cases t)
    case Nil
    with Cons.prems have "hd (esc c) = CHR 0x22" by (cases "esc c") auto
    then show ?thesis using esc_head by blast
  next
    case (Cons d t')
    then show ?thesis using Cons.prems esc_inj [of c _ d] Cons.IH [of t'] by fastforce
  qed
qed

lemma quote_inj: "quote s @ r = quote t @ r' \<Longrightarrow> s = t \<and> r = r'"
  using escs_inj [of s r t r'] by (simp add: quote_def)

section \<open>Number texts\<close>

definition num_char :: "char \<Rightarrow> bool" where
  "num_char c \<longleftrightarrow> is_digit c \<or> c \<in> set ''.-+e''"

definition num_text :: "string \<Rightarrow> bool" where
  "num_text t \<longleftrightarrow> t \<noteq> [] \<and> list_all num_char t \<and> (is_digit (hd t) \<or> hd t = CHR ''-'')"

definition delim :: "string \<Rightarrow> bool" where
  "delim r \<longleftrightarrow> r = [] \<or> hd r \<in> set '',]}''"

lemma num_char_delim: "num_char c \<Longrightarrow> c \<notin> set '',]}''"
  by (auto simp: num_char_def is_digit_def code_def)

lemma num_text_inj:
  assumes "num_text t" "num_text u" "delim r" "delim r'" "t @ r = u @ r'"
  shows "t = u \<and> r = r'"
proof -
  have stop: "takeWhile num_char (x @ y) = x" if "list_all num_char x" "delim y" for x y
    using that num_char_delim by (induction x) (cases y, auto simp: delim_def)
  have "t = u" using stop [of t r] stop [of u r'] assms by (simp add: num_text_def)
  then show ?thesis using assms(5) by simp
qed

lemma digit_char: "n < (10::nat) \<Longrightarrow> is_digit (char_of (48 + n))"
  by (simp add: is_digit_def code_def)

lemma nat_str_digits: "list_all is_digit (nat_str n) \<and> nat_str n \<noteq> []"
proof (induction n rule: nat_str.induct)
  case (1 n)
  then show ?case by (subst (1 2) nat_str.simps) (simp add: digit_char)
qed

lemma digits_num_chars: "list_all is_digit xs \<Longrightarrow> list_all num_char xs"
  by (auto simp: list_all_iff num_char_def)

lemma nat_str_num_chars [simp]: "list_all num_char (nat_str n)"
  using nat_str_digits digits_num_chars by blast

lemma num_char_lits [simp]:
  "num_char CHR ''0''" "num_char CHR ''.''" "num_char CHR ''-''" "num_char CHR ''+''" "num_char CHR ''e''"
  by (simp_all add: num_char_def is_digit_def code_def)

lemma list_all_take_drop: "list_all P xs \<Longrightarrow> list_all P (take k xs) \<and> list_all P (drop k xs)"
  by (auto simp: list_all_iff dest: in_set_takeD in_set_dropD)

lemma hd_take_digits: "0 < k \<Longrightarrow> hd (take k (nat_str n) @ r) = hd (nat_str n)"
  using nat_str_digits [of n] by (cases "nat_str n"; cases k) auto

lemma is_digit_hd: "is_digit (hd (nat_str n))"
  using nat_str_digits [of n] by (cases "nat_str n") auto

lemma is_digit_0 [simp]: "is_digit CHR ''0''"
  by (simp add: is_digit_def code_def)

lemma num_str_text: "js_is_finite x \<Longrightarrow> num_text (num_str x)"
proof (cases x)
  case (Fin neg s n)
  show ?thesis
    using nat_str_digits [of s] is_digit_hd [of s]
    by (auto simp: Fin num_text_def Let_def list_all_take_drop list_all_iff [of num_char "replicate _ _"]
        hd_append hd_take_digits)
qed auto

section \<open>Rendering is injective\<close>

fun ctree_ok :: "ctree \<Rightarrow> bool" and ctrees_ok :: "ctree list \<Rightarrow> bool"
  and members_ok :: "(string \<times> ctree) list \<Rightarrow> bool" where
  "ctree_ok CNull = True"
| "ctree_ok (CBool b) = True"
| "ctree_ok (CNum t) = num_text t"
| "ctree_ok (CStr s) = True"
| "ctree_ok (CArr cs) = ctrees_ok cs"
| "ctree_ok (CObj ms) = members_ok ms"
| "ctrees_ok [] = True"
| "ctrees_ok (c # cs) = (ctree_ok c \<and> ctrees_ok cs)"
| "members_ok [] = True"
| "members_ok ((k, c) # ms) = (ctree_ok c \<and> members_ok ms)"

lemma members_ok_iff: "members_ok ms \<longleftrightarrow> (\<forall>(k, c) \<in> set ms. ctree_ok c)"
  by (induction ms) auto

lemma ctrees_ok_iff: "ctrees_ok cs \<longleftrightarrow> (\<forall>c \<in> set cs. ctree_ok c)"
  by (induction cs) auto

lemma content_ok:
  "content v = Some c \<Longrightarrow> ctree_ok c"
  "content_items xs = Some cs \<Longrightarrow> ctrees_ok cs"
  "content_members ms = Some ps \<Longrightarrow> members_ok ps"
proof (induction v and xs and ms arbitrary: c and cs and ps
    rule: content_content_items_content_members.induct)
  case (6 ms)
  then show ?case by (auto simp: members_ok_iff)
qed (auto simp: num_str_text bind_eq_Some_conv split: if_splits)

text \<open>
  A comma-separated list followed by its closing bracket is read back item by item, if each
  item can be read back in front of a delimiter.
\<close>

lemma sep_list_inj:
  assumes "\<And>x y r r'. x \<in> set xs \<Longrightarrow> y \<in> set ys \<Longrightarrow> delim r \<Longrightarrow> delim r' \<Longrightarrow>
      f x @ r = f y @ r' \<Longrightarrow> x = y \<and> r = r'"
    and "close \<in> set '']}''"
    and "concat (map (\<lambda>x. '','' @ f x) xs) @ close # r = concat (map (\<lambda>x. '','' @ f x) ys) @ close # r'"
  shows "xs = ys \<and> r = r'"
  using assms
proof (induction xs arbitrary: ys)
  case Nil
  then show ?case by (cases ys) auto
next
  case (Cons x xs)
  show ?case
  proof (cases ys)
    case Nil
    with Cons.prems show ?thesis by auto
  next
    case (Cons y ys')
    have d: "delim (concat (map (\<lambda>x. '','' @ f x) zs) @ close # q)" for zs q
      using Cons.prems(2) by (cases zs) (auto simp: delim_def)
    have "x = y \<and> concat (map (\<lambda>x. '','' @ f x) xs) @ close # r =
        concat (map (\<lambda>x. '','' @ f x) ys') @ close # r'"
      using Cons.prems(1) [of x y, OF _ _ d d] Cons.prems(3) \<open>ys = y # ys'\<close> by simp
    moreover from this have "xs = ys' \<and> r = r'"
      using Cons.prems(1,2) \<open>ys = y # ys'\<close> by (intro Cons.IH) auto
    ultimately show ?thesis using \<open>ys = y # ys'\<close> by simp
  qed
qed

lemma join_inj:
  assumes "\<And>x y r r'. x \<in> set xs \<Longrightarrow> y \<in> set ys \<Longrightarrow> delim r \<Longrightarrow> delim r' \<Longrightarrow>
      f x @ r = f y @ r' \<Longrightarrow> x = y \<and> r = r'"
    and close: "close \<in> set '']}''"
    and head: "\<And>x. x \<in> set xs \<union> set ys \<Longrightarrow> f x \<noteq> [] \<and> hd (f x) \<notin> set '']}''"
    and eq: "js_join '','' (map f xs) @ close # r = js_join '','' (map f ys) @ close # r'"
  shows "xs = ys \<and> r = r'"
proof -
  have ne: "f x @ q \<noteq> close # q'" if "x \<in> set xs \<union> set ys" for x q q'
    using head [OF that] close by (cases "f x") auto
  show ?thesis
  proof (cases xs; cases ys)
    fix x xs' y ys'
    assume "xs = x # xs'" "ys = y # ys'"
    with eq have "concat (map (\<lambda>x. '','' @ f x) xs) @ close # r = concat (map (\<lambda>x. '','' @ f x) ys) @ close # r'"
      by (simp add: comp_def)
    then show ?thesis using sep_list_inj [where f = f and xs = xs and ys = ys] assms(1) close by metis
  qed (use eq ne in \<open>auto dest: sym\<close>)
qed


lemma render_head:
  assumes "ctree_ok c"
  shows "render c \<noteq> [] \<and> hd (render c) \<notin> set '',]}''"
proof (cases c)
  case (CNum t)
  then show ?thesis using assms by (auto simp: num_text_def is_digit_def code_def)
qed (auto simp: quote_def)

fun same_kind :: "ctree \<Rightarrow> ctree \<Rightarrow> bool" where
  "same_kind CNull CNull = True"
| "same_kind (CBool a) (CBool b) = (a = b)"
| "same_kind (CNum a) (CNum b) = True"
| "same_kind (CStr a) (CStr b) = True"
| "same_kind (CArr a) (CArr b) = True"
| "same_kind (CObj a) (CObj b) = True"
| "same_kind _ _ = False"

definition tag :: "char \<Rightarrow> char" where
  "tag h = (if is_digit h then CHR ''-'' else h)"

lemma render_tag:
  assumes "ctree_ok c"
  shows "tag (hd (render c @ r)) = (case c of CNull \<Rightarrow> CHR ''n'' | CBool b \<Rightarrow> if b then CHR ''t'' else CHR ''f''
    | CNum t \<Rightarrow> CHR ''-'' | CStr s \<Rightarrow> CHR 0x22 | CArr cs \<Rightarrow> CHR ''['' | CObj ms \<Rightarrow> CHR ''{'')"
  using assms by (cases c) (auto simp: num_text_def tag_def quote_def is_digit_def code_def)

lemma render_same_kind:
  assumes "ctree_ok c" "ctree_ok d" "render c @ r = render d @ r'"
  shows "same_kind c d"
proof -
  have "tag (hd (render c @ r)) = tag (hd (render d @ r'))" using assms(3) by simp
  then show ?thesis unfolding render_tag [OF assms(1)] render_tag [OF assms(2)]
    by (cases c; cases d) (auto split: if_splits)
qed

lemma same_kindE:
  assumes "same_kind c d"
  obtains "c = CNull" "d = CNull" | b where "c = CBool b" "d = CBool b"
  | s t where "c = CNum s" "d = CNum t" | s t where "c = CStr s" "d = CStr t"
  | xs ys where "c = CArr xs" "d = CArr ys" | ms ns where "c = CObj ms" "d = CObj ns"
  using assms by (cases c; cases d) auto

lemma size_item: "c \<in> set cs \<Longrightarrow> size c < size (CArr cs)"
  by (induction cs) auto

lemma size_member: "m \<in> set ms \<Longrightarrow> size (snd m) < size (CObj ms)"
  by (induction ms) auto

lemma member_inj:
  assumes "\<And>d r r'. ctree_ok d \<Longrightarrow> delim r \<Longrightarrow> delim r' \<Longrightarrow> render (snd m) @ r = render d @ r' \<Longrightarrow> snd m = d \<and> r = r'"
    and "ctree_ok (snd n)" "delim r" "delim r'"
    and "(case m of (k, c) \<Rightarrow> quote k @ '':'' @ render c) @ r = (case n of (k, c) \<Rightarrow> quote k @ '':'' @ render c) @ r'"
  shows "m = n \<and> r = r'"
proof -
  obtain k c k' c' where [simp]: "m = (k, c)" "n = (k', c')" by (cases m; cases n)
  have "k = k' \<and> '':'' @ render c @ r = '':'' @ render c' @ r'"
    by (rule quote_inj) (use assms(5) in simp)
  then show ?thesis using assms(1) [of c' r r'] assms(2-4) by simp
qed

lemma render_inj:
  assumes "ctree_ok c" "ctree_ok d" "delim r" "delim r'" "render c @ r = render d @ r'"
  shows "c = d \<and> r = r'"
  using assms
proof (induction c arbitrary: d r r' rule: measure_induct_rule [where f = size])
  case (less c)
  from render_same_kind [OF less.prems(1,2,5)] show ?case
  proof (cases rule: same_kindE)
    case (3 s t)
    then show ?thesis using less.prems num_text_inj [of s t r r'] by simp
  next
    case (4 s t)
    then show ?thesis using less.prems quote_inj [of s r t r'] by simp
  next
    case (5 xs ys)
    have "xs = ys \<and> r = r'"
    proof (rule join_inj [where f = render and close = "CHR '']''"])
      fix x y q q' assume "x \<in> set xs" "y \<in> set ys" "delim q" "delim q'" "render x @ q = render y @ q'"
      moreover from this have "size x < size c" using 5 size_item by blast
      ultimately show "x = y \<and> q = q'" using less.IH less.prems(1,2) 5 by (auto simp: ctrees_ok_iff)
    next
      fix x assume "x \<in> set xs \<union> set ys"
      then show "render x \<noteq> [] \<and> hd (render x) \<notin> set '']}''"
        using less.prems(1,2) 5 render_head [of x] by (auto simp: ctrees_ok_iff)
    qed (use less.prems(5) 5 in \<open>auto simp: render_items_map\<close>)
    then show ?thesis using 5 by simp
  next
    case (6 ms ns)
    have "ms = ns \<and> r = r'"
    proof (rule join_inj [where f = "\<lambda>(k, c). quote k @ '':'' @ render c" and close = "CHR ''}''"])
      fix x y q q' assume a: "x \<in> set ms" "y \<in> set ns" "delim q" "delim q'"
        "(case x of (k, c) \<Rightarrow> quote k @ '':'' @ render c) @ q = (case y of (k, c) \<Rightarrow> quote k @ '':'' @ render c) @ q'"
      from a have "size (snd x) < size c" using 6 size_member by blast
      with a show "x = y \<and> q = q'" using less.IH less.prems(1,2) 6
        by (intro member_inj) (auto simp: members_ok_iff)
    next
      fix x assume "x \<in> set ms \<union> set ns"
      then show "(case x of (k, c) \<Rightarrow> quote k @ '':'' @ render c) \<noteq> [] \<and>
          hd (case x of (k, c) \<Rightarrow> quote k @ '':'' @ render c) \<notin> set '']}''"
        by (cases x) (auto simp: quote_def)
    qed (use less.prems(5) 6 in \<open>auto simp: render_members_map\<close>)
    then show ?thesis using 6 by simp
  qed (use less.prems in auto)
qed

lemma canonical_content_eq:
  assumes "canonical_json v = Inr t" "canonical_json w = Inr t"
  shows "content v = content w"
proof -
  obtain c d where c: "content v = Some c" "t = render c" and d: "content w = Some d" "t = render d"
    using assms by (auto simp: canonical_json_content)
  then have "c = d \<and> [] = ([] :: string)"
    by (intro render_inj) (auto simp: content_ok delim_def)
  then show ?thesis using c d by simp
qed

section \<open>Member order\<close>

lemma sort_key_perm:
  assumes "distinct (map fst xs)" "distinct (map fst ys)" "set xs = set ys"
  shows "sort_key fst xs = sort_key fst (ys :: ('k::linorder \<times> 'v) list)"
proof (rule map_sorted_distinct_set_unique [where f = fst])
  have k: "distinct (map fst (sort_key fst zs))" if "distinct (map fst zs)" for zs :: "('k \<times> 'v) list"
    using that by (simp add: distinct_map)
  show "distinct (map fst (sort_key fst xs))" "distinct (map fst (sort_key fst ys))"
    using assms k by blast+
qed (use assms in \<open>auto simp: distinct_map\<close>)

lemma content_members_set:
  assumes "content_members ms = Some cs"
  shows "map fst cs = map fst ms" "set cs = {(k, c). \<exists>x. (k, x) \<in> set ms \<and> content x = Some c}"
  using assms by (induction ms arbitrary: cs) (auto simp: bind_eq_Some_conv, blast+)

lemma content_members_total:
  "(\<exists>cs. content_members ms = Some cs) \<longleftrightarrow> (\<forall>(k, x) \<in> set ms. content x \<noteq> None)"
  by (induction ms) (auto simp: bind_eq_Some_conv)

lemma content_member_order:
  assumes "distinct (map fst ms)" "distinct (map fst ns)" "set ms = set ns"
  shows "content (JObj ms) = content (JObj ns)"
proof (cases "content_members ms")
  case None
  then have "content_members ns = None"
    using content_members_total [of ms] content_members_total [of ns] assms(3) by (metis not_None_eq)
  then show ?thesis using None by simp
next
  case (Some cs)
  then obtain ds where ds: "content_members ns = Some ds"
    using content_members_total [of ms] content_members_total [of ns] assms(3) by metis
  have "sort_key fst cs = sort_key fst ds"
  proof (rule sort_key_perm)
    show "distinct (map fst cs)" "distinct (map fst ds)"
      using content_members_set [OF Some] content_members_set [OF ds] assms(1,2) by metis+
    show "set cs = set ds"
      using content_members_set [OF Some] content_members_set [OF ds] assms(3) by metis
  qed
  then show ?thesis using Some ds by simp
qed

text \<open>The same content gives the same outcome of \<open>canonical_json\<close>, an exception included.\<close>

lemma canonical_content_iff:
  "canonical_json v = (case content v of None \<Rightarrow> Inl (Throws EVIDENCE_CLAIM_INVALID) | Some c \<Rightarrow> Inr (render c))"
proof (cases "content v")
  case None
  then have "\<not> (\<exists>t. canonical_json v = Inr t)" by (simp add: canonical_json_content)
  then have "\<not> is_json_safe v" using canonical_json_safe(1) by blast
  then show ?thesis using None canonical_json_unsafe(1) by simp
next
  case (Some c)
  then show ?thesis using canonical_json_content(1) by auto
qed

lemma canonical_json_ok_iff: "(\<exists>t. canonical_json v = Inr t) \<longleftrightarrow> is_json_safe v"
  using canonical_json_safe(1) canonical_json_unsafe(1) by (cases "is_json_safe v") force+

section \<open>Digests\<close>

text \<open>
  A digest is the SHA-256 of the UTF-8 bytes of a canonical text. The hash function is a
  parameter \<open>sha\<close>, from byte strings to texts; two values with one digest have one content,
  or their canonical texts are themselves a collision of the hash function.
\<close>

definition collision :: "(string \<Rightarrow> string) \<Rightarrow> string \<Rightarrow> string \<Rightarrow> bool" where
  "collision sha a b \<longleftrightarrow> a \<noteq> b \<and> sha a = sha b"

definition canonical_text :: "jsval \<Rightarrow> string" where
  "canonical_text v = (case canonical_json v of Inl e \<Rightarrow> [] | Inr t \<Rightarrow> t)"

definition sha256_hex :: "(string \<Rightarrow> string) \<Rightarrow> string \<Rightarrow> string" where
  "sha256_hex sha payload = sha (utf8 payload)"

definition json_digest :: "(string \<Rightarrow> string) \<Rightarrow> jsval \<Rightarrow> evidence_error_code throws + string" where
  "json_digest sha v = ebind (canonical_json v) (\<lambda>t. Inr (sha256_hex sha t))"

definition digest_collision :: "(string \<Rightarrow> string) \<Rightarrow> jsval \<Rightarrow> jsval \<Rightarrow> bool" where
  "digest_collision sha v w = collision sha (utf8 (canonical_text v)) (utf8 (canonical_text w))"

lemma json_digest_Inr: "json_digest sha v = Inr d \<longleftrightarrow> is_json_safe v \<and> d = sha256_hex sha (canonical_text v)"
proof (cases "is_json_safe v")
  case True
  then obtain t where "canonical_json v = Inr t" using canonical_json_safe(1) by blast
  then show ?thesis using True by (auto simp: json_digest_def canonical_text_def)
next
  case False
  then show ?thesis by (simp add: json_digest_def canonical_json_unsafe(1))
qed

lemma json_digest_Inl: "json_digest sha v = Inl e \<longleftrightarrow> \<not> is_json_safe v \<and> e = Throws EVIDENCE_CLAIM_INVALID"
proof (cases "is_json_safe v")
  case True
  then obtain t where "canonical_json v = Inr t" using canonical_json_safe(1) by blast
  then show ?thesis using True by (auto simp: json_digest_def)
next
  case False
  then show ?thesis by (auto simp: json_digest_def canonical_json_unsafe(1))
qed

lemma canonical_text_content:
  assumes "is_json_safe v" "is_json_safe w" "canonical_text v = canonical_text w"
  shows "content v = content w"
proof -
  obtain t u where "canonical_json v = Inr t" "canonical_json w = Inr u"
    using assms(1,2) canonical_json_safe(1) by blast
  then show ?thesis using assms(3) canonical_content_eq [of v t w] by (simp add: canonical_text_def)
qed

lemma json_digest_binds:
  assumes "json_digest sha v = Inr d" "json_digest sha w = Inr d"
  shows "content v = content w \<or> digest_collision sha v w"
  using assms canonical_text_content [of v w] utf8_inj
  by (auto simp: json_digest_Inr digest_collision_def collision_def sha256_hex_def)


section \<open>Properties\<close>

text \<open>C35: The canonical serialisation determines the value: two values with the same canonical text have
  the same content, that is they are equal up to the order of object members and the decimal text
  of their numbers.\<close>
theorem canonical_json_injective:
  assumes "canonical_json v = Inr t" "canonical_json w = Inr t"
  shows "content v = content w"
  using assms by (rule canonical_content_eq)

lemma canonical_json_injective_witness:
  "content (JObj [(''b'', JBool True), (''a'', JNull)]) = content (JObj [(''a'', JNull), (''b'', JBool True)])"
  by (rule canonical_json_injective [of _ "''{'' @ quote ''a'' @ '':null,'' @ quote ''b'' @ '':true}''"])
    code_simp+

text \<open>The order in which the members of an object were inserted never changes its canonical text.\<close>
lemma canonical_json_member_order:
  assumes "distinct (map fst ms)" "distinct (map fst ns)" "set ms = set ns"
  shows "canonical_json (JObj ms) = canonical_json (JObj ns)"
  using content_member_order [OF assms] by (simp add: canonical_content_iff)

lemma canonical_json_member_order_witness:
  "canonical_json (JObj [(''b'', JBool True), (''a'', JNull)]) =
   canonical_json (JObj [(''a'', JNull), (''b'', JBool True)])"
  by (rule canonical_json_member_order) auto

text \<open>Serialisation is total exactly on the JSON-safe values; every other value (a non-finite number,
  an undefined, a date) is refused with the claim error and never serialised.\<close>

lemma canonical_json_rejects_unsafe:
  "canonical_json v = (if is_json_safe v then Inr (canonical_text v) else Inl (Throws EVIDENCE_CLAIM_INVALID))"
  using canonical_json_safe(1) [of v] canonical_json_unsafe(1) [of v]
  by (auto simp: canonical_text_def)

end
