(* ===== verification/Rate_Window.thy ===== *)
theory Rate_Window
  imports Prelude
begin

text \<open>
  The contract of a fixed-window limiter, as the pairing endpoint and the control sessions have it: a bucket
  holds a count and the time at which it is reset; a request after that time opens a new window, a request
  before it is counted, and is admitted while the count is within the limit. The events of a run are the
  requests of the client the bucket is for, with their times, and whatever else happens to the state; what
  the bucket guards may go for good.
\<close>

text \<open>What each event of a run answers.\<close>

fun outcomes :: "('e \<Rightarrow> 's \<Rightarrow> bool \<times> 's) \<Rightarrow> 'e list \<Rightarrow> 's \<Rightarrow> ('e \<times> bool) list" where
  "outcomes step [] s = []"
| "outcomes step (e # es) s = (e, fst (step e s)) # outcomes step es (snd (step e s))"

locale fixed_window =
  fixes step :: "'e \<Rightarrow> 's \<Rightarrow> bool \<times> 's"
    and time :: "'e \<Rightarrow> int option"
    and fair :: "'e \<Rightarrow> bool"
    and good :: "'s \<Rightarrow> bool"
    and view :: "'s \<Rightarrow> (nat \<times> int) option"
    and dead :: "'s \<Rightarrow> bool"
    and limit :: nat
    and window :: int
  assumes good_stays: "good s \<Longrightarrow> fair e \<Longrightarrow> good (snd (step e s))"
    and admitted_new: "good s \<Longrightarrow> time e = Some t \<Longrightarrow> fst (step e s) \<Longrightarrow>
      (case view s of None \<Rightarrow> True | Some (c, r) \<Rightarrow> r \<le> t) \<Longrightarrow> view (snd (step e s)) = Some (1, t + window)"
    and admitted_counted: "good s \<Longrightarrow> time e = Some t \<Longrightarrow> fst (step e s) \<Longrightarrow> view s = Some (c, r) \<Longrightarrow> t < r \<Longrightarrow>
      Suc c \<le> limit \<and> view (snd (step e s)) = Some (Suc c, r)"
    and rejected: "good s \<Longrightarrow> time e = Some t \<Longrightarrow> \<not> fst (step e s) \<Longrightarrow> dead (snd (step e s)) \<or>
      (\<exists>c r c'. view s = Some (c, r) \<and> t < r \<and> c \<le> c' \<and> view (snd (step e s)) = Some (c', r))"
    and others: "good s \<Longrightarrow> time e = None \<Longrightarrow> fair e \<Longrightarrow> dead (snd (step e s)) \<or> view (snd (step e s)) = view s"
    and dead_rejects: "good s \<Longrightarrow> time e = Some t \<Longrightarrow> dead s \<Longrightarrow> \<not> fst (step e s)"
    and dead_stays: "good s \<Longrightarrow> fair e \<Longrightarrow> dead s \<Longrightarrow> dead (snd (step e s))"
    and limit_positive: "1 \<le> limit"
begin

text \<open>How many of the client's requests are admitted.\<close>

fun admitted :: "'e list \<Rightarrow> 's \<Rightarrow> nat" where
  "admitted [] s = 0"
| "admitted (e # es) s = (if time e \<noteq> None \<and> fst (step e s) then 1 else 0) + admitted es (snd (step e s))"

definition in_period :: "int \<Rightarrow> int \<Rightarrow> 'e list \<Rightarrow> bool" where
  "in_period a b es \<longleftrightarrow> (\<forall>e \<in> set es. fair e \<and> (case time e of None \<Rightarrow> True | Some t \<Rightarrow> a \<le> t \<and> t < b))"

lemma in_period_Cons: "in_period a b (e # es) \<longleftrightarrow>
    fair e \<and> (case time e of None \<Rightarrow> True | Some t \<Rightarrow> a \<le> t \<and> t < b) \<and> in_period a b es"
  by (simp add: in_period_def)

lemma in_period_mono: "in_period a b es \<Longrightarrow> a' \<le> a \<Longrightarrow> b \<le> b' \<Longrightarrow> in_period a' b' es"
  by (fastforce simp: in_period_def split: option.splits)

lemma admitted_outcomes: "admitted es s = length (filter (\<lambda>(e, ok). time e \<noteq> None \<and> ok) (outcomes step es s))"
  by (induction es arbitrary: s) simp_all

lemma admitted_dead: "good s \<Longrightarrow> dead s \<Longrightarrow> in_period a b es \<Longrightarrow> admitted es s = 0"
  by (induction es arbitrary: s) (auto simp: dead_rejects dead_stays good_stays in_period_Cons)

lemma admitted_in_window: "good s \<Longrightarrow> view s = Some (c, r) \<Longrightarrow> in_period a r es \<Longrightarrow> admitted es s \<le> limit - c"
proof (induction es arbitrary: s c)
  case (Cons e es)
  let ?s = "snd (step e s)"
  have p: "in_period a r es" "fair e" using Cons.prems(3) by (simp_all add: in_period_Cons)
  have g: "good ?s" using good_stays Cons.prems(1) p(2) by blast
  note dead = admitted_dead [OF g _ p(1)] and IH = Cons.IH [OF g _ p(1)]
  show ?case
  proof (cases "time e")
    case None
    then consider "dead ?s" | "view ?s = Some (c, r)" using others [OF Cons.prems(1) None p(2)] Cons.prems(2) by force
    then show ?thesis by cases (use None dead IH in simp_all)
  next
    case t: (Some t)
    then have tr: "t < r" using Cons.prems(3) by (simp add: in_period_Cons)
    show ?thesis
    proof (cases "fst (step e s)")
      case True
      then have a: "Suc c \<le> limit" "view ?s = Some (Suc c, r)"
        using admitted_counted [OF Cons.prems(1) t True Cons.prems(2) tr] by auto
      show ?thesis using IH [OF a(2)] t True a(1) by simp
    next
      case False
      then consider "dead ?s" | c' where "c \<le> c'" "view ?s = Some (c', r)"
        using rejected [OF Cons.prems(1) t False] Cons.prems(2) by auto
      then show ?thesis by cases (use False dead IH in fastforce)+
    qed
  qed
qed simp

text \<open>A new window admits the rest of a period that is no longer than the window.\<close>

lemma admitted_from_new_window:
  assumes "good s" "fair e" "time e = Some t" "case view s of None \<Rightarrow> True | Some (c, r) \<Rightarrow> r \<le> t" "in_period a (t + window) es"
  shows "admitted (e # es) s \<le> limit"
proof (cases "fst (step e s)")
  case True
  then have "admitted es (snd (step e s)) \<le> limit - 1"
    using admitted_in_window good_stays [OF assms(1,2)] admitted_new [OF assms(1,3) _ assms(4)] assms(5) by blast
  then show ?thesis using True assms(3) limit_positive by simp
next
  case False
  then have "dead (snd (step e s))" using rejected [OF assms(1,3) False] assms(4) by auto
  then show ?thesis using False assms(5) good_stays [OF assms(1,2)] by (simp add: admitted_dead)
qed

lemma admitted_across_reset:
  assumes "good s" "in_period a (a + window) es"
  shows "admitted es s \<le> (case view s of None \<Rightarrow> limit | Some (c, r) \<Rightarrow> (limit - c) + limit)"
  using assms
proof (induction es arbitrary: s)
  case (Cons e es)
  let ?s = "snd (step e s)"
  have p: "in_period a (a + window) es" "fair e" using Cons.prems(2) by (simp_all add: in_period_Cons)
  have g: "good ?s" using good_stays Cons.prems(1) p(2) by blast
  note dead = admitted_dead [OF g _ p(1)] and IH = Cons.IH [OF g p(1)]
  show ?case
  proof (cases "time e")
    case None
    then consider "dead ?s" | "view ?s = view s" using others [OF Cons.prems(1) None p(2)] by blast
    then show ?thesis by cases (use None dead IH in \<open>simp_all split: option.splits prod.splits\<close>)
  next
    case t: (Some t)
    then have at: "a \<le> t" using Cons.prems(2) by (simp add: in_period_Cons)
    show ?thesis
    proof (cases "case view s of None \<Rightarrow> True | Some (c, r) \<Rightarrow> r \<le> t")
      case True
      have "in_period a (t + window) es" using in_period_mono [OF p(1), of a "t + window"] at by simp
      then show ?thesis using admitted_from_new_window [OF Cons.prems(1) p(2) t True] by (force split: option.splits)
    next
      case False
      then obtain c r where v: "view s = Some (c, r)" "t < r" by (auto split: option.splits)
      show ?thesis
      proof (cases "fst (step e s)")
        case True
        then have "Suc c \<le> limit" "view ?s = Some (Suc c, r)"
          using admitted_counted [OF Cons.prems(1) t True v(1) v(2)] by auto
        then show ?thesis using IH t True v by simp
      next
        case False
        then consider "dead ?s" | c' where "c \<le> c'" "view ?s = Some (c', r)"
          using rejected [OF Cons.prems(1) t False] v by auto
        then show ?thesis by cases (use False dead v IH in simp_all)
      qed
    qed
  qed
qed (simp split: option.splits)

text \<open>The bound does not improve to the limit: a period may hold the end of one window and the start of the next.\<close>

lemma admitted_in_period: "good s \<Longrightarrow> in_period a (a + window) es \<Longrightarrow> admitted es s \<le> 2 * limit"
  using admitted_across_reset [of s a es] by (auto split: option.splits)

end

end
