(* ===== verification/Auth.thy ===== *)
theory Auth
  imports Canonical Rate_Window "HOL-Library.Sublist"
begin

text \<open>
  Authentication, scopes and device pairing of the HTTP surface (\<open>src/brain-server/src/security/auth.ts\<close>).
  A request is its method, the path name of its parsed URL, its authorization header and its peer
  address. The token table of the database is the list of its rows, with the token hash as primary key.
  Clock readings and generated tokens are arguments; \<open>decodeURIComponent\<close> is a function of the
  configuration. The modification time of a pairing file is a whole number of milliseconds. Pairing awaits
  the body of the request, so it is modelled as the part before that await and the part after it.
\<close>

section \<open>Scopes and principals\<close>

datatype auth_scope =
    Memory_read | Memory_write | Decision_read | Decision_write
  | Agent_ask | Agent_inspect | Agent_history | Agent_outcome_read
  | Admin_export | Admin_import | Admin_delete

definition all_scopes :: "auth_scope list" where
  "all_scopes = [Memory_read, Memory_write, Decision_read, Decision_write, Agent_ask, Agent_inspect, Agent_history,
     Agent_outcome_read, Admin_export, Admin_import, Admin_delete]"

fun scope_text :: "auth_scope \<Rightarrow> string" where
  "scope_text Memory_read = ''memory:read''"
| "scope_text Memory_write = ''memory:write''"
| "scope_text Decision_read = ''decision:read''"
| "scope_text Decision_write = ''decision:write''"
| "scope_text Agent_ask = ''agent:ask''"
| "scope_text Agent_inspect = ''agent:inspect''"
| "scope_text Agent_history = ''agent:history''"
| "scope_text Agent_outcome_read = ''agent:outcome:read''"
| "scope_text Admin_export = ''admin:export''"
| "scope_text Admin_import = ''admin:import''"
| "scope_text Admin_delete = ''admin:delete''"

datatype device_type = Mobile | Browser_extension | Esp32 | Agent_pilot_device

fun device_scope_policy :: "device_type \<Rightarrow> auth_scope list" where
  "device_scope_policy Mobile = [Memory_read, Decision_read]"
| "device_scope_policy Browser_extension = [Memory_read, Memory_write, Decision_read]"
| "device_scope_policy Esp32 = [Memory_write, Decision_write]"
| "device_scope_policy Agent_pilot_device = [Agent_ask, Agent_inspect, Agent_history, Agent_outcome_read]"

datatype principal_kind = Local_desktop | Device | Agent_pilot

record principal =
  ap_kind :: principal_kind
  ap_device_id :: string
  ap_scopes :: "auth_scope set"

definition local_principal :: principal where
  "local_principal = \<lparr>ap_kind = Local_desktop, ap_device_id = ''local-desktop'', ap_scopes = set all_scopes\<rparr>"

definition is_agent_pilot_principal :: "principal \<Rightarrow> bool" where
  "is_agent_pilot_principal p \<longleftrightarrow> ap_kind p = Agent_pilot \<or> prefix ''agent-pilot:'' (ap_device_id p)"

section \<open>Bearer tokens\<close>

definition to_lower :: "char \<Rightarrow> char" where
  "to_lower c = (if is_upper c then char_of (code c + 32) else c)"

definition line_terminator :: "char \<Rightarrow> bool" where
  "line_terminator c \<longleftrightarrow> c = CHR 0x0A \<or> c = CHR 0x0D"

text \<open>
  The group of \<open>/^Bearer\s+(.+)$/i\<close>. When nothing follows the white space, the expression backtracks and
  the group is its last character, if the dot matches it.
\<close>

definition bearer_match :: "string \<Rightarrow> string option" where
  "bearer_match h =
     (if map to_lower (take 6 h) \<noteq> ''bearer'' then None
      else (let w = takeWhile is_space (drop 6 h); t = dropWhile is_space (drop 6 h) in
        if w = [] then None
        else if t \<noteq> [] then (if list_ex line_terminator t then None else Some t)
        else if 2 \<le> length w \<and> \<not> line_terminator (last w) then Some [last w] else None))"

definition read_bearer_token :: "string option \<Rightarrow> string" where
  "read_bearer_token h = (case bearer_match (case h of None \<Rightarrow> [] | Some x \<Rightarrow> x) of None \<Rightarrow> [] | Some t \<Rightarrow> js_trim t)"

definition constant_time_equal :: "string \<Rightarrow> string \<Rightarrow> bool" where
  "constant_time_equal l r \<longleftrightarrow> utf8 l = utf8 r"

definition hash_token :: "(string \<Rightarrow> string) \<Rightarrow> string \<Rightarrow> string" where
  "hash_token sha token = sha256_hex sha token"

section \<open>The scope a request needs\<close>

text \<open>
  The tool table is an object literal: a name that it inherits from \<open>Object.prototype\<close> gives a value that is
  not a scope and that no principal has.
\<close>

datatype needed_scope = No_scope | Needs auth_scope | Needs_inherited

definition mcp_tool_scope_map :: "(string \<times> auth_scope) list" where
  "mcp_tool_scope_map =
     [(''record_capture'', Memory_write), (''get_core_context'', Memory_read), (''search_entities'', Memory_read),
      (''add_entity'', Memory_write), (''get_entity'', Memory_read), (''add_relationship'', Memory_write),
      (''get_graph_neighborhood'', Memory_read), (''extract_from_capture'', Memory_write),
      (''update_entity'', Memory_write), (''vector_search'', Memory_read), (''unified_memory_search'', Memory_read),
      (''save_conclusion'', Memory_write), (''ask_memory'', Memory_read), (''graph_answer'', Memory_read),
      (''set_core_principle'', Memory_write), (''delete_entity'', Admin_delete), (''list_entities'', Memory_read),
      (''get_stats'', Memory_read), (''merge_entities'', Admin_delete), (''get_decay_report'', Memory_read),
      (''get_decision_context'', Decision_read), (''save_decision'', Decision_write), (''analyze_decision'', Decision_read),
      (''discuss_decision'', Decision_read), (''get_decision_lineage'', Decision_read),
      (''record_decision_outcome'', Decision_write), (''agent_ask'', Agent_ask), (''agent_inspect'', Agent_inspect),
      (''agent_history'', Agent_history), (''agent_outcome'', Agent_outcome_read)]"

definition object_prototype_names :: "string list" where
  "object_prototype_names = [''constructor'', ''__defineGetter__'', ''__defineSetter__'', ''hasOwnProperty'',
     ''__lookupGetter__'', ''__lookupSetter__'', ''isPrototypeOf'', ''propertyIsEnumerable'', ''toString'', ''valueOf'',
     ''__proto__'', ''toLocaleString'']"

definition agent_pilot_mcp_allowlist :: "string list" where
  "agent_pilot_mcp_allowlist = [''agent_ask'', ''agent_inspect'', ''agent_history'', ''agent_outcome'']"

definition scope_for_mcp_tool :: "string \<Rightarrow> needed_scope" where
  "scope_for_mcp_tool tool = (case map_of mcp_tool_scope_map tool of Some s \<Rightarrow> Needs s
     | None \<Rightarrow> if tool \<in> set object_prototype_names then Needs_inherited else No_scope)"

definition path_tail :: "string \<Rightarrow> string" where
  "path_tail path = last (split_on (\<lambda>c. c = CHR ''/'') path)"

definition required_scope :: "string \<Rightarrow> string \<Rightarrow> needed_scope" where
  "required_scope path method =
     (if path = ''/api/admin/export'' then Needs Admin_export
      else if path = ''/api/admin/import'' then Needs Admin_import
      else if path = ''/mcp'' then No_scope
      else if path = ''/api/agent/ask'' then Needs Agent_ask
      else if prefix ''/api/agent/inspect'' path then Needs Agent_inspect
      else if prefix ''/api/agent/history'' path then Needs Agent_history
      else if prefix ''/api/agent/outcome'' path then Needs Agent_outcome_read
      else if prefix ''/api/control/revisions/'' path then Needs Decision_read
      else if prefix ''/api/mcp/'' path then (case scope_for_mcp_tool (js_trim (path_tail path)) of No_scope \<Rightarrow> Needs Admin_delete | s \<Rightarrow> s)
      else if prefix ''/api/settings'' path then Needs Admin_import
      else if prefix ''/api/admin/'' path \<or> prefix ''/api/auth/devices'' path then Needs Admin_delete
      else if method = ''DELETE'' then Needs Admin_delete
      else if sublist ''/decision'' path \<or> sublist ''/discussions'' path
        then Needs (if method = ''GET'' then Decision_read else Decision_write)
      else Needs (if method = ''GET'' then Memory_read else Memory_write))"

definition holds_scope :: "principal \<Rightarrow> needed_scope \<Rightarrow> bool" where
  "holds_scope p n = (case n of No_scope \<Rightarrow> True | Needs s \<Rightarrow> s \<in> ap_scopes p | Needs_inherited \<Rightarrow> False)"

definition authorize :: "string \<Rightarrow> string \<Rightarrow> principal \<Rightarrow> bool" where
  "authorize path method p = holds_scope p (required_scope path method)"

section \<open>State\<close>

text \<open>The stored scopes are a JSON text: \<open>None\<close> is a text that does not parse.\<close>

record device_token =
  dt_hash :: string
  dt_device_id :: string
  dt_type :: device_type
  dt_scopes :: "jsval option"
  dt_issued_at :: timestamp
  dt_expires_at :: timestamp
  dt_revoked_at :: "timestamp option"
  dt_last_used_at :: "timestamp option"

record attempt_bucket =
  bk_count :: nat
  bk_reset_at :: int

record auth_state =
  au_tokens :: "device_token list"
  au_consumed :: "string option"
  au_pairing :: bool
  au_attempts :: "(string, attempt_bucket) jsmap"

definition new_auth_state :: auth_state where
  "new_auth_state = \<lparr>au_tokens = [], au_consumed = None, au_pairing = False, au_attempts = []\<rparr>"

record auth_config =
  ag_sha :: "string \<Rightarrow> string"
  ag_decode :: "string \<Rightarrow> string option"
  ag_local_token :: string
  ag_pair_code :: "string option"
  ag_code_ttl_ms :: int
  ag_token_ttl_ms :: int
  ag_fallback_issued :: int

definition default_device_token_ttl_ms :: int where
  "default_device_token_ttl_ms = 90 * 24 * 60 * 60 * 1000"

definition default_pair_code_ttl_ms :: int where
  "default_pair_code_ttl_ms = 10 * 60 * 1000"

definition last_used_write_interval_ms :: int where
  "last_used_write_interval_ms = 60 * 1000"

text \<open>\<open>new Date(ms).toISOString()\<close> throws outside the range of a date.\<close>

definition to_iso :: "int \<Rightarrow> timestamp option" where
  "to_iso ms = (if \<bar>ms\<bar> \<le> 8640000000000000 then Some (Iso ms) else None)"

section \<open>Authentication\<close>

definition scope_of_text :: "string \<Rightarrow> auth_scope option" where
  "scope_of_text t = find (\<lambda>s. scope_text s = t) all_scopes"

definition parse_scopes :: "jsval option \<Rightarrow> auth_scope list" where
  "parse_scopes j = (case j of
     Some (JArr xs) \<Rightarrow> List.map_filter (\<lambda>x. case x of JStr t \<Rightarrow> scope_of_text t | _ \<Rightarrow> None) xs | _ \<Rightarrow> [])"

definition find_token :: "string \<Rightarrow> auth_state \<Rightarrow> device_token option" where
  "find_token h s = find (\<lambda>r. dt_hash r = h) (au_tokens s)"

definition live_token :: "device_token \<Rightarrow> int \<Rightarrow> bool" where
  "live_token r now \<longleftrightarrow> dt_revoked_at r = None \<and> (case date_parse (dt_expires_at r) of None \<Rightarrow> False | Some e \<Rightarrow> now < e)"

definition principal_of :: "device_token \<Rightarrow> principal" where
  "principal_of r = \<lparr>ap_kind = (if dt_type r = Agent_pilot_device then Agent_pilot else Device),
     ap_device_id = dt_device_id r, ap_scopes = set (parse_scopes (dt_scopes r))\<rparr>"

definition touch :: "int \<Rightarrow> int \<Rightarrow> device_token \<Rightarrow> device_token" where
  "touch now stamp r = (let used = (case dt_last_used_at r of None \<Rightarrow> Some 0 | Some t \<Rightarrow> date_parse t) in
     if (case used of None \<Rightarrow> True | Some u \<Rightarrow> u = 0 \<or> now - u \<ge> last_used_write_interval_ms)
     then r\<lparr>dt_last_used_at := Some (Iso stamp)\<rparr> else r)"

text \<open>The three clock readings are those for the expiry, for the interval and for the time written.\<close>

definition authenticate ::
  "auth_config \<Rightarrow> string option \<Rightarrow> int \<Rightarrow> int \<Rightarrow> int \<Rightarrow> auth_state \<Rightarrow> principal option \<times> auth_state" where
  "authenticate cfg header t1 t2 t3 s = (let token = read_bearer_token header in
     if token = [] then (None, s)
     else if ag_local_token cfg \<noteq> [] \<and> constant_time_equal token (ag_local_token cfg) then (Some local_principal, s)
     else (case find_token (hash_token (ag_sha cfg) token) s of
         None \<Rightarrow> (None, s)
       | Some r \<Rightarrow>
           if \<not> live_token r t1 then (None, s)
           else (Some (principal_of r),
             s\<lparr>au_tokens := map (\<lambda>x. if dt_hash x = dt_hash r then touch t2 t3 x else x) (au_tokens s)\<rparr>)))"

section \<open>Pairing\<close>

record pairing_snapshot =
  ps_code :: string
  ps_issued_at :: int
  ps_fingerprint :: string

text \<open>What the configured file holds: its text and its modification time.\<close>

datatype pair_file = No_file | Unreadable | Read string int

definition pair_code_ok :: "string \<Rightarrow> bool" where
  "pair_code_ok c \<longleftrightarrow> length c = 6 \<and> list_all is_digit c"

definition pairing_snapshot_of :: "auth_config \<Rightarrow> string \<Rightarrow> int \<Rightarrow> pairing_snapshot option" where
  "pairing_snapshot_of cfg text issued = (let c = js_trim text in
     if pair_code_ok c then Some \<lparr>ps_code = c, ps_issued_at = issued,
       ps_fingerprint = hash_token (ag_sha cfg) (c @ CHR '':'' # int_str issued)\<rparr> else None)"

definition read_pairing_code :: "auth_config \<Rightarrow> pair_file \<Rightarrow> pairing_snapshot option" where
  "read_pairing_code cfg f = (case f of Unreadable \<Rightarrow> None | Read text mtime \<Rightarrow> pairing_snapshot_of cfg text mtime
     | No_file \<Rightarrow> pairing_snapshot_of cfg (case ag_pair_code cfg of None \<Rightarrow> [] | Some c \<Rightarrow> c) (ag_fallback_issued cfg))"

definition allow_pair_attempt :: "string \<Rightarrow> int \<Rightarrow> auth_state \<Rightarrow> bool \<times> auth_state" where
  "allow_pair_attempt address now s = (case map_get (au_attempts s) address of
     Some b \<Rightarrow> if bk_reset_at b \<le> now
        then (True, s\<lparr>au_attempts := map_set address \<lparr>bk_count = 1, bk_reset_at = now + 60000\<rparr> (au_attempts s)\<rparr>)
        else (Suc (bk_count b) \<le> 10, s\<lparr>au_attempts := map_set address (b\<lparr>bk_count := Suc (bk_count b)\<rparr>) (au_attempts s)\<rparr>)
   | None \<Rightarrow> (True, s\<lparr>au_attempts := map_set address \<lparr>bk_count = 1, bk_reset_at = now + 60000\<rparr> (au_attempts s)\<rparr>))"

record pairing_request =
  pq_device_id :: string
  pq_type :: device_type
  pq_scopes :: "auth_scope list option"

definition device_id_char :: "char \<Rightarrow> bool" where
  "device_id_char c \<longleftrightarrow> is_alnum c \<or> c \<in> set ''._:-''"

definition pairing_request_ok :: "pairing_request \<Rightarrow> bool" where
  "pairing_request_ok q \<longleftrightarrow> 8 \<le> length (pq_device_id q) \<and> length (pq_device_id q) \<le> 128 \<and>
     list_all device_id_char (pq_device_id q) \<and> opt_ok (\<lambda>ss. length ss \<le> length all_scopes) (pq_scopes q)"

definition parse_pairing :: "pairing_request \<Rightarrow> pairing_request option" where
  "parse_pairing = parse_with (\<lambda>q. q\<lparr>pq_device_id := js_trim (pq_device_id q)\<rparr>) pairing_request_ok"

record issued_token =
  it_token :: string
  it_device_id :: string
  it_scopes :: "auth_scope list"
  it_issued_at :: timestamp
  it_expires_at :: timestamp

datatype pair_reply =
    Too_many_attempts | Pairing_busy | Code_rejected | Request_rejected | No_permitted_scopes | Pairing_failed
  | Paired issued_token

definition code_accepted :: "auth_config \<Rightarrow> pairing_snapshot \<Rightarrow> string \<Rightarrow> int \<Rightarrow> auth_state \<Rightarrow> bool" where
  "code_accepted cfg p supplied now s \<longleftrightarrow> 0 \<le> now - ps_issued_at p \<and> now - ps_issued_at p \<le> ag_code_ttl_ms cfg \<and>
     au_consumed s \<noteq> Some (ps_fingerprint p) \<and> constant_time_equal supplied (ps_code p)"

text \<open>Up to the await of the body: an answer, or the snapshot whose code was accepted.\<close>

definition pair_begin ::
  "auth_config \<Rightarrow> string \<Rightarrow> pair_file \<Rightarrow> string option \<Rightarrow> int \<Rightarrow> int \<Rightarrow> auth_state \<Rightarrow> (pair_reply + pairing_snapshot) \<times> auth_state" where
  "pair_begin cfg address f header t1 t2 s = (case allow_pair_attempt address t1 s of (allowed, s1) \<Rightarrow>
     if \<not> allowed then (Inl Too_many_attempts, s1)
     else if au_pairing s1 then (Inl Pairing_busy, s1)
     else (case read_pairing_code cfg f of
         None \<Rightarrow> (Inl Code_rejected, s1)
       | Some p \<Rightarrow> if code_accepted cfg p (read_bearer_token header) t2 s1 then (Inr p, s1\<lparr>au_pairing := True\<rparr>)
           else (Inl Code_rejected, s1)))"

definition granted_scopes :: "pairing_request \<Rightarrow> auth_scope list" where
  "granted_scopes q = (let policy = device_scope_policy (pq_type q) in
     filter (\<lambda>s. s \<in> set policy) (case pq_scopes q of None \<Rightarrow> policy | Some ss \<Rightarrow> ss))"

definition revoke_device :: "string \<Rightarrow> timestamp \<Rightarrow> device_token list \<Rightarrow> device_token list" where
  "revoke_device d t rows =
     map (\<lambda>r. if dt_device_id r = d \<and> dt_revoked_at r = None then r\<lparr>dt_revoked_at := Some t\<rparr> else r) rows"

text \<open>The transaction: the device's tokens are revoked and the new one is inserted, or nothing is.\<close>

definition issue_token :: "auth_config \<Rightarrow> pairing_request \<Rightarrow> auth_scope list \<Rightarrow> string \<Rightarrow> timestamp \<Rightarrow> timestamp \<Rightarrow> auth_state \<Rightarrow> auth_state option" where
  "issue_token cfg q ss token issued expires s = (let h = hash_token (ag_sha cfg) token in
     if list_ex (\<lambda>r. dt_hash r = h) (au_tokens s) then None
     else Some (s\<lparr>au_tokens := revoke_device (pq_device_id q) issued (au_tokens s) @
       [\<lparr>dt_hash = h, dt_device_id = pq_device_id q, dt_type = pq_type q,
         dt_scopes = Some (JArr (map (JStr \<circ> scope_text) ss)), dt_issued_at = issued, dt_expires_at = expires,
         dt_revoked_at = None, dt_last_used_at = None\<rparr>]\<rparr>))"

text \<open>
  After the await. \<open>None\<close> is a body that was too large or did not parse; \<open>committed\<close> says whether the
  database carried the transaction out. The \<open>finally\<close> block releases the lock on every path.
\<close>

definition pair_finish ::
  "auth_config \<Rightarrow> pairing_snapshot \<Rightarrow> pairing_request raw option \<Rightarrow> int \<Rightarrow> int \<Rightarrow> string \<Rightarrow> bool \<Rightarrow> auth_state \<Rightarrow> pair_reply \<times> auth_state" where
  "pair_finish cfg p body t1 t2 token committed s = (let released = s\<lparr>au_pairing := False\<rparr> in
     case body of None \<Rightarrow> (Pairing_failed, released)
     | Some raw \<Rightarrow>
       (case Option.bind (case raw of Malformed \<Rightarrow> None | Shaped x \<Rightarrow> Some x) parse_pairing of
          None \<Rightarrow> (Request_rejected, released)
        | Some q \<Rightarrow> (let ss = granted_scopes q in
            if ss = [] then (No_permitted_scopes, released)
            else (case (to_iso t1, to_iso (t2 + ag_token_ttl_ms cfg)) of
                (Some issued, Some expires) \<Rightarrow>
                  (case (if committed then issue_token cfg q ss token issued expires s else None) of
                     None \<Rightarrow> (Pairing_failed, released)
                   | Some s1 \<Rightarrow> (Paired \<lparr>it_token = token, it_device_id = pq_device_id q, it_scopes = ss, it_issued_at = issued,
                         it_expires_at = expires\<rparr>,
                       s1\<lparr>au_consumed := Some (ps_fingerprint p), au_pairing := False\<rparr>))
              | _ \<Rightarrow> (Pairing_failed, released)))))"

section \<open>Device administration\<close>

datatype admin_reply = Not_administration | Devices "(device_token \<times> auth_scope list) list" | Revoked string timestamp
  | No_active_device | Uri_error | Date_error

text \<open>\<open>/^\/api\/auth\/devices\/([^/]+)\/revoke$/\<close>\<close>

definition revoke_match :: "string \<Rightarrow> string option" where
  "revoke_match path = (if prefix ''/api/auth/devices/'' path \<and> suffix ''/revoke'' path
      then (let d = take (length path - 26) (drop 18 path) in
        if 26 \<le> length path \<and> d \<noteq> [] \<and> CHR ''/'' \<notin> set d then Some d else None) else None)"

text \<open>The rows come newest first; the text of the issue time sorts like the time. Rows issued at one time keep an order of the database.\<close>

definition device_list :: "auth_state \<Rightarrow> (device_token \<times> auth_scope list) list" where
  "device_list s = map (\<lambda>r. (r, parse_scopes (dt_scopes r)))
     (rev (sort_key (\<lambda>r. case date_parse (dt_issued_at r) of None \<Rightarrow> 0 | Some t \<Rightarrow> t) (au_tokens s)))"

definition handle_device_administration ::
  "auth_config \<Rightarrow> string \<Rightarrow> string \<Rightarrow> int \<Rightarrow> auth_state \<Rightarrow> admin_reply \<times> auth_state" where
  "handle_device_administration cfg path method now s =
     (if method = ''GET'' \<and> path = ''/api/auth/devices'' then (Devices (device_list s), s)
      else (case revoke_match path of
          Some d \<Rightarrow> if method \<noteq> ''POST'' then (Not_administration, s)
            else (case ag_decode cfg d of None \<Rightarrow> (Uri_error, s)
              | Some device \<Rightarrow> (case to_iso now of None \<Rightarrow> (Date_error, s)
                | Some t \<Rightarrow> if list_ex (\<lambda>r. dt_device_id r = device \<and> dt_revoked_at r = None) (au_tokens s)
                    then (Revoked device t, s\<lparr>au_tokens := revoke_device device t (au_tokens s)\<rparr>) else (No_active_device, s)))
        | None \<Rightarrow> (Not_administration, s)))"

section \<open>Lemmas\<close>

lemma scope_text_inj: "scope_text s = scope_text t \<Longrightarrow> s = t"
  by (cases s; cases t) simp_all

lemma all_scopes_all [simp]: "s \<in> set all_scopes"
  by (cases s) (simp_all add: all_scopes_def)

lemma scope_round_trip: "scope_of_text (scope_text s) = Some s"
  by (cases s) (simp_all add: scope_of_text_def all_scopes_def)

text \<open>What is stored is what was granted.\<close>

lemma parse_stored_scopes [simp]: "parse_scopes (Some (JArr (map (JStr \<circ> scope_text) ss))) = ss"
proof -
  have "List.map_filter (\<lambda>x. case x of JStr t \<Rightarrow> scope_of_text t | _ \<Rightarrow> None) (map (JStr \<circ> scope_text) ss) = ss"
    by (induction ss) (simp_all add: map_filter_simps scope_round_trip)
  then show ?thesis by (simp add: parse_scopes_def)
qed

lemma touch_keeps [simp]: "dt_hash (touch a b r) = dt_hash r" "dt_device_id (touch a b r) = dt_device_id r"
  "dt_type (touch a b r) = dt_type r" "dt_scopes (touch a b r) = dt_scopes r" "dt_revoked_at (touch a b r) = dt_revoked_at r"
  "dt_expires_at (touch a b r) = dt_expires_at r"
  by (simp_all add: touch_def Let_def)

lemma utf8_equal: "constant_time_equal l r \<longleftrightarrow> l = r"
  by (auto simp: constant_time_equal_def dest: utf8_inj)

section \<open>The token table\<close>

definition active :: "string \<Rightarrow> device_token list \<Rightarrow> device_token list" where
  "active d rows = filter (\<lambda>r. dt_device_id r = d \<and> dt_revoked_at r = None) rows"

definition token_ok :: "device_token \<Rightarrow> bool" where
  "token_ok r \<longleftrightarrow> (\<exists>ss. ss \<noteq> [] \<and> set ss \<subseteq> set (device_scope_policy (dt_type r)) \<and>
     dt_scopes r = Some (JArr (map (JStr \<circ> scope_text) ss)))"

definition tokens_inv :: "device_token list \<Rightarrow> bool" where
  "tokens_inv rows \<longleftrightarrow> distinct (map dt_hash rows) \<and> list_all token_ok rows \<and> (\<forall>d. length (active d rows) \<le> 1)"

lemma active_touch [simp]:
  "active d (map (\<lambda>x. if P x then touch a b x else x) rows) = map (\<lambda>x. if P x then touch a b x else x) (active d rows)"
  by (simp add: active_def filter_map comp_def if_distrib [where f = dt_device_id] if_distrib [where f = dt_revoked_at] cong: if_cong)

lemma tokens_touch: "tokens_inv rows \<Longrightarrow> tokens_inv (map (\<lambda>x. if P x then touch a b x else x) rows)"
  by (auto simp: tokens_inv_def list_all_iff token_ok_def comp_def if_distrib [where f = dt_hash] cong: if_cong)

lemma active_revoke: "active e (revoke_device d t rows) = (if e = d then [] else active e rows)"
  by (induction rows) (auto simp: active_def revoke_device_def)

lemma map_hash_revoke [simp]: "map dt_hash (revoke_device d t rows) = map dt_hash rows"
  by (simp add: revoke_device_def comp_def if_distrib [where f = dt_hash] cong: if_cong)

lemma tokens_revoke: "tokens_inv rows \<Longrightarrow> tokens_inv (revoke_device d t rows)"
proof -
  assume "tokens_inv rows"
  moreover have "list_all token_ok rows \<Longrightarrow> list_all token_ok (revoke_device d t rows)"
    by (auto simp: list_all_iff token_ok_def revoke_device_def)
  ultimately show ?thesis unfolding tokens_inv_def map_hash_revoke active_revoke by simp
qed

lemma granted_policy: "set (granted_scopes q) \<subseteq> set (device_scope_policy (pq_type q))"
  by (auto simp: granted_scopes_def Let_def)

lemma tokens_issue:
  assumes "tokens_inv (au_tokens s)" "issue_token cfg q (granted_scopes q) token i e s = Some s'" "granted_scopes q \<noteq> []"
  shows "tokens_inv (au_tokens s')"
proof -
  let ?rows = "revoke_device (pq_device_id q) i (au_tokens s)"
  have r: "tokens_inv ?rows" by (rule tokens_revoke [OF assms(1)])
  obtain x where x: "au_tokens s' = ?rows @ [x]" "dt_hash x \<notin> set (map dt_hash ?rows)" "dt_device_id x = pq_device_id q"
    "dt_type x = pq_type q" "dt_scopes x = Some (JArr (map (JStr \<circ> scope_text) (granted_scopes q)))"
  proof -
    have "hash_token (ag_sha cfg) token \<notin> set (map dt_hash ?rows)"
      using assms(2) by (auto simp: issue_token_def Let_def list_ex_iff split: if_splits)
    then show ?thesis using assms(2) that by (auto simp: issue_token_def Let_def simp del: map_hash_revoke split: if_splits)
  qed
  have app: "active d (?rows @ [x]) = active d ?rows @ active d [x]" for d by (simp add: active_def)
  have "length (active d (?rows @ [x])) \<le> 1" for d
  proof (cases "d = pq_device_id q")
    case True
    then have "active d ?rows = []" by (simp add: active_revoke)
    then show ?thesis using app by (simp add: active_def)
  next
    case False
    then have "active d [x] = []" using x(3) by (simp add: active_def)
    then show ?thesis using app r by (simp add: tokens_inv_def)
  qed
  moreover have "token_ok x" using x(4,5) granted_policy assms(3) unfolding token_ok_def by auto
  ultimately show ?thesis using r x(1,2) by (auto simp: tokens_inv_def)
qed

section \<open>Runs\<close>

text \<open>The second component is the pairing whose body is awaited. The awaited parts of other requests come in between.\<close>

inductive auth_step :: "auth_config \<Rightarrow> auth_state \<times> pairing_snapshot list \<Rightarrow> auth_state \<times> pairing_snapshot list \<Rightarrow> bool"
  for cfg where
  authenticated: "authenticate cfg h t1 t2 t3 s = (p, s') \<Longrightarrow> auth_step cfg (s, ps) (s', ps)"
| begun: "pair_begin cfg address f h t1 t2 s = (Inr p, s') \<Longrightarrow> auth_step cfg (s, ps) (s', p # ps)"
| refused: "pair_begin cfg address f h t1 t2 s = (Inl reply, s') \<Longrightarrow> auth_step cfg (s, ps) (s', ps)"
| finished: "p \<in> set ps \<Longrightarrow> pair_finish cfg p body t1 t2 token committed s = (reply, s') \<Longrightarrow> auth_step cfg (s, ps) (s', remove1 p ps)"
| administered: "handle_device_administration cfg path method now s = (reply, s') \<Longrightarrow> auth_step cfg (s, ps) (s', ps)"

inductive auth_reachable :: "auth_config \<Rightarrow> auth_state \<times> pairing_snapshot list \<Rightarrow> bool" for cfg where
  start: "auth_reachable cfg (new_auth_state, [])"
| step: "auth_reachable cfg w \<Longrightarrow> auth_step cfg w w' \<Longrightarrow> auth_reachable cfg w'"

definition auth_inv :: "auth_state \<times> pairing_snapshot list \<Rightarrow> bool" where
  "auth_inv w \<longleftrightarrow> tokens_inv (au_tokens (fst w)) \<and> length (snd w) = (if au_pairing (fst w) then 1 else 0)"

lemma authenticate_state:
  "authenticate cfg h t1 t2 t3 s = (p, s') \<Longrightarrow>
     s' = s \<or> (\<exists>r :: device_token. s' = s\<lparr>au_tokens := map (\<lambda>x. if dt_hash x = dt_hash r then touch t2 t3 x else x) (au_tokens s)\<rparr>)"
  by (auto simp: authenticate_def Let_def split: if_splits option.splits)

lemma authenticate_frame:
  assumes "authenticate cfg h t1 t2 t3 s = (p, s')" "tokens_inv (au_tokens s)"
  shows "tokens_inv (au_tokens s')" "au_pairing s' = au_pairing s" "au_consumed s' = au_consumed s"
proof -
  consider "s' = s" | r :: device_token where "s' = s\<lparr>au_tokens := map (\<lambda>x. if dt_hash x = dt_hash r then touch t2 t3 x else x) (au_tokens s)\<rparr>"
    using authenticate_state [OF assms(1)] by blast
  then have "tokens_inv (au_tokens s') \<and> au_pairing s' = au_pairing s \<and> au_consumed s' = au_consumed s"
    by cases (simp_all add: assms(2) tokens_touch)
  then show "tokens_inv (au_tokens s')" "au_pairing s' = au_pairing s" "au_consumed s' = au_consumed s" by simp_all
qed

lemma administration_frame:
  assumes "handle_device_administration cfg path method now s = (reply, s')" "tokens_inv (au_tokens s)"
  shows "tokens_inv (au_tokens s')" "au_pairing s' = au_pairing s" "au_consumed s' = au_consumed s"
proof -
  have "s' = s \<or> (\<exists>d t. s' = s\<lparr>au_tokens := revoke_device d t (au_tokens s)\<rparr>)"
    using assms(1) by (auto simp: handle_device_administration_def split: if_splits option.splits)
  then consider "s' = s" | d t where "s' = s\<lparr>au_tokens := revoke_device d t (au_tokens s)\<rparr>" by blast
  then have "tokens_inv (au_tokens s') \<and> au_pairing s' = au_pairing s \<and> au_consumed s' = au_consumed s"
    by cases (simp_all add: assms(2) tokens_revoke)
  then show "tokens_inv (au_tokens s')" "au_pairing s' = au_pairing s" "au_consumed s' = au_consumed s" by simp_all
qed

lemma allow_pair_frame:
  "allow_pair_attempt address now s = (b, s') \<Longrightarrow> au_tokens s' = au_tokens s \<and> au_consumed s' = au_consumed s \<and> au_pairing s' = au_pairing s"
  by (auto simp: allow_pair_attempt_def split: option.splits if_splits)

lemma pair_begin_cases:
  assumes "pair_begin cfg address f h t1 t2 s = (res, s')"
  obtains (refused) reply where "res = Inl reply" "au_tokens s' = au_tokens s" "au_consumed s' = au_consumed s" "au_pairing s' = au_pairing s"
  | (begun) p where "res = Inr p" "\<not> au_pairing s" "au_pairing s'" "au_tokens s' = au_tokens s" "au_consumed s' = au_consumed s"
      "read_pairing_code cfg f = Some p" "code_accepted cfg p (read_bearer_token h) t2 s" "fst (allow_pair_attempt address t1 s)"
proof -
  obtain b s1 where a: "allow_pair_attempt address t1 s = (b, s1)" by (cases "allow_pair_attempt address t1 s")
  note F = allow_pair_frame [OF a]
  have c: "code_accepted cfg p u t2 s1 = code_accepted cfg p u t2 s" for p u using F by (simp add: code_accepted_def)
  show ?thesis using assms a F c refused begun
    by (auto simp: pair_begin_def split: if_splits option.splits)
qed

lemma pair_finish_cases:
  assumes "pair_finish cfg p body t1 t2 token committed s = (reply, s')"
  obtains (failed) "s' = s\<lparr>au_pairing := False\<rparr>" "\<nexists>x. reply = Paired x"
  | (paired) q x s1 issued expires where "body = Some (Shaped x)" "parse_pairing x = Some q" "granted_scopes q \<noteq> []"
      "to_iso t1 = Some issued" "to_iso (t2 + ag_token_ttl_ms cfg) = Some expires"
      "issue_token cfg q (granted_scopes q) token issued expires s = Some s1"
      "s' = s1\<lparr>au_consumed := Some (ps_fingerprint p), au_pairing := False\<rparr>" "committed"
      "reply = Paired \<lparr>it_token = token, it_device_id = pq_device_id q, it_scopes = granted_scopes q, it_issued_at = issued,
         it_expires_at = expires\<rparr>"
  using assms by (auto simp: pair_finish_def Let_def split: option.splits raw.splits if_splits)

lemma auth_step_inv: "auth_step cfg w w' \<Longrightarrow> auth_inv w \<Longrightarrow> auth_inv w'"
proof (induction rule: auth_step.induct)
  case (authenticated h t1 t2 t3 s p s' ps)
  then show ?case using authenticate_frame [OF authenticated(1)] by (simp add: auth_inv_def)
next
  case (begun address f h t1 t2 s p s' ps)
  from begun(1) show ?case by (cases rule: pair_begin_cases) (use begun(2) in \<open>auto simp: auth_inv_def\<close>)
next
  case (refused address f h t1 t2 s reply s' ps)
  from refused(1) show ?case by (cases rule: pair_begin_cases) (use refused(2) in \<open>auto simp: auth_inv_def\<close>)
next
  case (finished p ps body t1 t2 token committed s reply s')
  have "length (remove1 p ps) = 0" using finished(1,3) by (auto simp: auth_inv_def length_remove1 split: if_splits)
  from finished(2) show ?case
  proof (cases rule: pair_finish_cases)
    case failed
    then show ?thesis using finished(3) \<open>length (remove1 p ps) = 0\<close> by (simp add: auth_inv_def)
  next
    case (paired q x s1 issued expires)
    then show ?thesis using tokens_issue [OF _ paired(6,3)] finished(3) \<open>length (remove1 p ps) = 0\<close> by (simp add: auth_inv_def)
  qed
next
  case (administered path verb now s reply s' ps)
  then show ?case using administration_frame [OF administered(1)] by (simp add: auth_inv_def)
qed

lemma auth_reachable_inv: "auth_reachable cfg w \<Longrightarrow> auth_inv w"
proof (induction rule: auth_reachable.induct)
  case start
  show ?case by (simp add: auth_inv_def new_auth_state_def tokens_inv_def active_def)
qed (rule auth_step_inv)

section \<open>What a device token can do\<close>

lemma find_token_props: "find_token h s = Some r \<Longrightarrow> r \<in> set (au_tokens s) \<and> dt_hash r = h"
  by (auto simp: find_token_def find_Some_iff)

lemma find_token_unique:
  assumes "tokens_inv (au_tokens s)" "r \<in> set (au_tokens s)"
  shows "find_token (dt_hash r) s = Some r"
proof -
  have "find_token (dt_hash r) s \<noteq> None" using assms(2) by (auto simp: find_token_def find_None_iff)
  then obtain r' :: device_token where r': "find_token (dt_hash r) s = Some r'" by blast
  then have "r' = r" using find_token_props [OF r'] assms by (auto simp: tokens_inv_def distinct_map inj_on_def)
  then show ?thesis using r' by simp
qed

lemma authenticate_cases:
  assumes "authenticate cfg h t1 t2 t3 s = (Some p, s')"
  obtains (local) "read_bearer_token h = ag_local_token cfg" "p = local_principal" "s' = s" "ag_local_token cfg \<noteq> []"
  | (device) r :: device_token where "find_token (hash_token (ag_sha cfg) (read_bearer_token h)) s = Some r" "live_token r t1" "p = principal_of r"
  using assms by (auto simp: authenticate_def Let_def utf8_equal split: if_splits option.splits)

lemma token_ok_scopes: "token_ok r \<Longrightarrow> ap_scopes (principal_of r) \<noteq> {} \<and> ap_scopes (principal_of r) \<subseteq> set (device_scope_policy (dt_type r))"
  by (auto simp: token_ok_def principal_of_def)

lemma policy_not_admin: "set (device_scope_policy t) \<inter> {Admin_export, Admin_import, Admin_delete} = {}"
  by (cases t) simp_all

lemma active_singleton: "tokens_inv rows \<Longrightarrow> r \<in> set rows \<Longrightarrow> dt_revoked_at r = None \<Longrightarrow> active (dt_device_id r) rows = [r]"
proof -
  assume a: "tokens_inv rows" "r \<in> set rows" "dt_revoked_at r = None"
  then have "r \<in> set (active (dt_device_id r) rows)" "length (active (dt_device_id r) rows) \<le> 1"
    by (simp_all add: active_def tokens_inv_def)
  then show ?thesis by (cases "active (dt_device_id r) rows") auto
qed

lemma device_principal:
  assumes "auth_reachable cfg (s, ps)" "authenticate cfg h t1 t2 t3 s = (Some p, s')"
  obtains (local) "ag_local_token cfg \<noteq> []" "read_bearer_token h = ag_local_token cfg" "p = local_principal"
  | (device) r :: device_token where "dt_hash r = hash_token (ag_sha cfg) (read_bearer_token h)" "active (dt_device_id r) (au_tokens s) = [r]"
      "p = principal_of r" "\<exists>e. date_parse (dt_expires_at r) = Some e \<and> t1 < e" "ap_scopes p \<subseteq> set (device_scope_policy (dt_type r))"
      "\<And>path method. required_scope path method \<in> {Needs Admin_export, Needs Admin_import, Needs Admin_delete} \<Longrightarrow> \<not> authorize path method p"
  using assms(2)
proof (cases rule: authenticate_cases)
  case (device r)
  have i: "tokens_inv (au_tokens s)" using auth_reachable_inv [OF assms(1)] by (simp add: auth_inv_def)
  note r = find_token_props [OF device(1)]
  have live: "dt_revoked_at r = None" "\<exists>e. date_parse (dt_expires_at r) = Some e \<and> t1 < e"
    using device(2) by (auto simp: live_token_def split: option.splits)
  have "token_ok r" using i r by (auto simp: tokens_inv_def list_all_iff)
  then have scopes: "ap_scopes p \<subseteq> set (device_scope_policy (dt_type r))" using token_ok_scopes device(3) by blast
  have "\<not> authorize path verb p" if "required_scope path verb \<in> {Needs Admin_export, Needs Admin_import, Needs Admin_delete}" for path verb
    using that scopes policy_not_admin [of "dt_type r"] by (auto simp: authorize_def holds_scope_def)
  then show ?thesis using that(2) r live scopes device(3) active_singleton [OF i _ live(1)] by blast
qed (use that(1) in blast)

text \<open>C6: In every state the server reaches, a bearer token that authenticates is the local token of the desktop, or
  it is the one token of its device that is not revoked, it has not expired, its scopes are within those its
  kind of device may have, and with it no request is authorized that needs an administration scope.
\<close>

theorem device_tokens_least_privilege:
  assumes "auth_reachable cfg (s, ps)" "authenticate cfg h t1 t2 t3 s = (Some p, s')"
  shows "(ag_local_token cfg \<noteq> [] \<and> read_bearer_token h = ag_local_token cfg \<and> p = local_principal) \<or>
    (\<exists>r :: device_token. dt_hash r = hash_token (ag_sha cfg) (read_bearer_token h) \<and> active (dt_device_id r) (au_tokens s) = [r] \<and>
       ap_device_id p = dt_device_id r \<and> (\<exists>e. date_parse (dt_expires_at r) = Some e \<and> t1 < e) \<and>
       ap_scopes p \<subseteq> set (device_scope_policy (dt_type r)) \<and>
       (\<forall>path method. required_scope path method \<in> {Needs Admin_export, Needs Admin_import, Needs Admin_delete} \<longrightarrow>
          \<not> authorize path method p))"
  using assms
proof (cases rule: device_principal)
  case (device r)
  have "ap_device_id p = dt_device_id r" using device(3) by (simp add: principal_of_def)
  then show ?thesis using device by blast
qed simp

section \<open>What a pairing leaves\<close>

lemma pair_finish_lock: "pair_finish cfg p body t1 t2 token committed s = (reply, s') \<Longrightarrow> \<not> au_pairing s'"
  by (erule pair_finish_cases) simp_all

lemma issue_token_rows:
  assumes "issue_token cfg q ss token i e s = Some s'"
  obtains r :: device_token where "au_tokens s' = revoke_device (pq_device_id q) i (au_tokens s) @ [r]"
    "dt_hash r = hash_token (ag_sha cfg) token" "dt_device_id r = pq_device_id q" "dt_type r = pq_type q"
    "parse_scopes (dt_scopes r) = ss" "dt_revoked_at r = None" "dt_expires_at r = e" "au_attempts s' = au_attempts s"
  using assms by (auto simp: issue_token_def Let_def split: if_splits)

text \<open>C20: Whatever comes of a pairing, its lock is released. A failed pairing changes no token and leaves the code as
  usable as it was. A pairing that succeeds leaves the device with the new token as its only one, with the
  scopes the answer names, all of them within the policy, and spends the code: no later attempt is accepted
  with it while no other code has been used.
\<close>

theorem pairing_spends_the_code:
  assumes "auth_reachable cfg (s, ps)" "p \<in> set ps"
    and "pair_finish cfg p body t1 t2 token committed s = (reply, s')"
  shows "\<not> au_pairing s' \<and>
    (case reply of Paired i \<Rightarrow>
        (\<exists>r :: device_token. active (it_device_id i) (au_tokens s') = [r] \<and> dt_hash r = hash_token (ag_sha cfg) (it_token i) \<and>
           ap_scopes (principal_of r) = set (it_scopes i) \<and> it_scopes i \<noteq> [] \<and>
           set (it_scopes i) \<subseteq> set (device_scope_policy (dt_type r))) \<and>
        (\<forall>s'' supplied now. au_consumed s'' = au_consumed s' \<longrightarrow> \<not> code_accepted cfg p supplied now s'')
      | _ \<Rightarrow> au_tokens s' = au_tokens s \<and> (\<forall>supplied now. code_accepted cfg p supplied now s' = code_accepted cfg p supplied now s))"
  using assms(3)
proof (cases rule: pair_finish_cases)
  case failed
  then have "\<not> au_pairing s'" "au_tokens s' = au_tokens s" "\<And>supplied now. code_accepted cfg p supplied now s' = code_accepted cfg p supplied now s"
    by (simp_all add: code_accepted_def)
  then show ?thesis using failed(2) by (simp split: pair_reply.splits)
next
  case (paired q x s1 issued expires)
  have inv: "tokens_inv (au_tokens s)" using auth_reachable_inv [OF assms(1)] by (simp add: auth_inv_def)
  note inv1 = tokens_issue [OF inv paired(6) paired(3)]
  from paired(6) obtain r :: device_token where r: "au_tokens s1 = revoke_device (pq_device_id q) issued (au_tokens s) @ [r]"
    "dt_hash r = hash_token (ag_sha cfg) token" "dt_device_id r = pq_device_id q" "dt_type r = pq_type q"
    "parse_scopes (dt_scopes r) = granted_scopes q" "dt_revoked_at r = None" by (rule issue_token_rows)
  have "active (pq_device_id q) (au_tokens s1) = [r]" using active_singleton [OF inv1, of r] r by simp
  moreover have "\<not> code_accepted cfg p supplied now s''" if "au_consumed s'' = au_consumed s'" for s'' supplied now
    using that paired(7) by (simp add: code_accepted_def)
  ultimately show ?thesis using paired(3,7,9) r granted_policy [of q] by (simp add: principal_of_def)
qed

lemma map_to_lower_bearer: "map to_lower ''Bearer'' = ''bearer''"
  by code_simp

lemma space_terminators: "is_space CHR 0x0A" "is_space CHR 0x0D"
  by code_simp+

lemma read_issued_token:
  assumes "token \<noteq> []" "list_all (\<lambda>c. \<not> is_space c) token"
  shows "read_bearer_token (Some (''Bearer '' @ token)) = token"
proof -
  have nl: "\<not> list_ex line_terminator token"
    using assms(2) space_terminators by (auto simp: list_ex_iff list_all_iff line_terminator_def)
  obtain c cs where t: "token = c # cs" using assms(1) by (cases token) auto
  have sp: "is_space CHR '' ''" by code_simp
  have w: "takeWhile is_space (CHR '' '' # token) = '' ''" "dropWhile is_space (CHR '' '' # token) = token"
    using assms(2) sp t by simp_all
  have "bearer_match (''Bearer '' @ token) = Some token"
    using nl assms(1) map_to_lower_bearer w by (simp add: bearer_match_def Let_def)
  moreover have "js_trim token = token"
  proof -
    have d: "dropWhile is_space xs = xs" if "list_all (\<lambda>c. \<not> is_space c) xs" for xs
      using that by (cases xs) simp_all
    have "list_all (\<lambda>c. \<not> is_space c) (rev token)" using assms(2) by (simp add: list_all_iff)
    then show ?thesis using d assms(2) by (simp add: js_trim_def)
  qed
  ultimately show ?thesis by (simp add: read_bearer_token_def)
qed

text \<open>A token that a pairing answers with comes back as the device: presented as a bearer token in the state the
  pairing left and before its expiry, it authenticates the device under the identifier and exactly the scopes of
  the answer. The token is non-empty, has no white space and is not the local token, as a generated one.
\<close>

lemma issued_token_round_trip:
  assumes "auth_reachable cfg (s, ps)" "p \<in> set ps"
    and "pair_finish cfg p body t1 t2 token committed s = (Paired i, s')"
    and "token \<noteq> []" "list_all (\<lambda>c. \<not> is_space c) token" "token \<noteq> ag_local_token cfg"
    and "\<exists>e. date_parse (it_expires_at i) = Some e \<and> u1 < e"
  shows "\<exists>k s''. authenticate cfg (Some (''Bearer '' @ it_token i)) u1 u2 u3 s' =
    (Some \<lparr>ap_kind = k, ap_device_id = it_device_id i, ap_scopes = set (it_scopes i)\<rparr>, s'')"
  using assms(3)
proof (cases rule: pair_finish_cases)
  case (paired q x s1 issued expires)
  have inv: "tokens_inv (au_tokens s)" using auth_reachable_inv [OF assms(1)] by (simp add: auth_inv_def)
  note inv1 = tokens_issue [OF inv paired(6) paired(3)]
  from paired(6) obtain r :: device_token where r: "au_tokens s1 = revoke_device (pq_device_id q) issued (au_tokens s) @ [r]"
    "dt_hash r = hash_token (ag_sha cfg) token" "dt_device_id r = pq_device_id q"
    "parse_scopes (dt_scopes r) = granted_scopes q" "dt_revoked_at r = None" "dt_expires_at r = expires" by (rule issue_token_rows)
  have "find_token (hash_token (ag_sha cfg) token) s' = Some r"
    using find_token_unique [OF inv1, of r] r paired(7) by (simp add: find_token_def)
  moreover have "live_token r u1" using r paired(9) assms(7) by (auto simp: live_token_def)
  ultimately show ?thesis using read_issued_token [OF assms(4,5)] assms(4,6) paired(9) r
    by (simp add: authenticate_def Let_def utf8_equal principal_of_def)
qed simp

section \<open>Pairing attempts\<close>

datatype auth_event =
    Authenticates "string option" int int int
  | Begins string pair_file "string option" int int
  | Finishes pairing_snapshot "pairing_request raw option" int int string bool
  | Administers string string int

text \<open>An event answers whether it is a pairing attempt that the limiter lets through; the others answer \<open>True\<close>.\<close>

fun auth_event_step :: "auth_config \<Rightarrow> auth_event \<Rightarrow> auth_state \<Rightarrow> bool \<times> auth_state" where
  "auth_event_step cfg (Authenticates h t1 t2 t3) s = (True, snd (authenticate cfg h t1 t2 t3 s))"
| "auth_event_step cfg (Begins a f h t1 t2) s = (case pair_begin cfg a f h t1 t2 s of (r, s') \<Rightarrow> (r \<noteq> Inl Too_many_attempts, s'))"
| "auth_event_step cfg (Finishes p b t1 t2 k c) s = (True, snd (pair_finish cfg p b t1 t2 k c s))"
| "auth_event_step cfg (Administers path method now) s = (True, snd (handle_device_administration cfg path method now s))"

fun attempt_time :: "string \<Rightarrow> auth_event \<Rightarrow> int option" where
  "attempt_time address (Begins a f h t1 t2) = (if a = address then Some t1 else None)"
| "attempt_time address _ = None"

definition attempt_view :: "string \<Rightarrow> auth_state \<Rightarrow> (nat \<times> int) option" where
  "attempt_view address s = map_option (\<lambda>b. (bk_count b, bk_reset_at b)) (map_get (au_attempts s) address)"

lemma pair_begin_attempt:
  "pair_begin cfg a f h t1 t2 s = (r, s') \<Longrightarrow>
     (r \<noteq> Inl Too_many_attempts) = fst (allow_pair_attempt a t1 s) \<and> au_attempts s' = au_attempts (snd (allow_pair_attempt a t1 s))"
  by (auto simp: pair_begin_def split: prod.splits if_splits option.splits)

lemma begins_step:
  "fst (auth_event_step cfg (Begins a f h t1 t2) s) = fst (allow_pair_attempt a t1 s)"
  "attempt_view address (snd (auth_event_step cfg (Begins a f h t1 t2) s)) = attempt_view address (snd (allow_pair_attempt a t1 s))"
  using pair_begin_attempt [of cfg a f h t1 t2 s] by (auto simp: attempt_view_def split: prod.splits)

lemmas allow_pair_simps = attempt_view_def allow_pair_attempt_def map_get_set

lemma attempts_untouched: "attempt_time address e = None \<Longrightarrow> attempt_view address (snd (auth_event_step cfg e s)) = attempt_view address s"
proof (cases e)
  case (Authenticates h t1 t2 t3)
  obtain p s' where "authenticate cfg h t1 t2 t3 s = (p, s')" by (cases "authenticate cfg h t1 t2 t3 s")
  then show ?thesis using authenticate_state Authenticates by (force simp: attempt_view_def)
next
  case (Begins a f h t1 t2)
  then show "attempt_time address e = None \<Longrightarrow> ?thesis"
    by (simp only: begins_step) (auto simp: allow_pair_simps split: option.splits if_splits)
next
  case (Finishes p b t1 t2 k c)
  obtain r s' where f: "pair_finish cfg p b t1 t2 k c s = (r, s')" by (cases "pair_finish cfg p b t1 t2 k c s")
  from f have "au_attempts s' = au_attempts s"
    by (cases rule: pair_finish_cases) (auto elim: issue_token_rows)
  then show ?thesis using Finishes f by (simp add: attempt_view_def)
next
  case (Administers path verb now)
  then show ?thesis by (auto simp: attempt_view_def handle_device_administration_def split: option.splits)
qed

interpretation pairing: fixed_window "auth_event_step cfg" "attempt_time address" "\<lambda>_. True" "\<lambda>_. True" "attempt_view address" "\<lambda>_. False" 10 60000
  for cfg address
proof (unfold_locales, goal_cases)
  case (2 s e t)
  then obtain f h t2 where "e = Begins address f h t t2" by (cases e) (auto split: if_splits)
  with 2 show ?case by (simp only: begins_step) (auto simp: allow_pair_simps split: option.splits if_splits)
next
  case (3 s e t c r)
  then obtain f h t2 where "e = Begins address f h t t2" by (cases e) (auto split: if_splits)
  with 3 show ?case by (simp only: begins_step) (auto simp: allow_pair_simps split: option.splits if_splits)
next
  case (4 s e t)
  then obtain f h t2 where "e = Begins address f h t t2" by (cases e) (auto split: if_splits)
  with 4 show ?case by (simp only: begins_step) (auto simp: allow_pair_simps split: option.splits if_splits)
qed (simp_all add: attempts_untouched)

text \<open>However the requests of the server are interleaved, at most twenty pairing attempts of one address get past
  the limiter in any minute: ten in a window of the limiter, and a minute meets two windows at most.
\<close>

lemma pairing_attempts_bounded:
  assumes "\<forall>e \<in> set es. case attempt_time address e of None \<Rightarrow> True | Some t \<Rightarrow> a \<le> t \<and> t < a + 60000"
  shows "length (filter (\<lambda>(e, ok). attempt_time address e \<noteq> None \<and> ok) (outcomes (auth_event_step cfg) es s)) \<le> 20"
  using pairing.admitted_in_period [where s = s and address = address and a = a and es = es and cfg = cfg] assms
  by (simp add: pairing.in_period_def pairing.admitted_outcomes)

section \<open>A concrete pairing\<close>

definition sample_auth_config :: auth_config where
  "sample_auth_config = \<lparr>ag_sha = (\<lambda>x. x), ag_decode = Some, ag_local_token = ''local-token'', ag_pair_code = None,
     ag_code_ttl_ms = default_pair_code_ttl_ms, ag_token_ttl_ms = default_device_token_ttl_ms, ag_fallback_issued = 0\<rparr>"

definition sample_pair_file :: pair_file where
  "sample_pair_file = Read ''123456'' 1000"

definition sample_pairing :: pairing_snapshot where
  "sample_pairing = \<lparr>ps_code = ''123456'', ps_issued_at = 1000, ps_fingerprint = ''123456:1000''\<rparr>"

definition pairing_state :: auth_state where
  "pairing_state = \<lparr>au_tokens = [], au_consumed = None, au_pairing = True,
     au_attempts = [(''10.0.0.2'', \<lparr>bk_count = 1, bk_reset_at = 62000\<rparr>)]\<rparr>"

definition sample_pairing_request :: pairing_request where
  "sample_pairing_request = \<lparr>pq_device_id = '' phone-0001 '', pq_type = Mobile, pq_scopes = Some [Memory_read, Admin_export]\<rparr>"

definition sample_issued :: issued_token where
  "sample_issued = \<lparr>it_token = ''ocd_1'', it_device_id = ''phone-0001'', it_scopes = [Memory_read], it_issued_at = Iso 3000,
     it_expires_at = Iso 7776003000\<rparr>"

definition sample_device :: device_token where
  "sample_device = \<lparr>dt_hash = ''ocd_1'', dt_device_id = ''phone-0001'', dt_type = Mobile, dt_scopes = Some (JArr [JStr ''memory:read'']),
     dt_issued_at = Iso 3000, dt_expires_at = Iso 7776003000, dt_revoked_at = None, dt_last_used_at = None\<rparr>"

definition paired_state :: auth_state where
  "paired_state = pairing_state\<lparr>au_tokens := [sample_device], au_consumed := Some ''123456:1000'', au_pairing := False\<rparr>"

lemma sample_begins:
  "pair_begin sample_auth_config ''10.0.0.2'' sample_pair_file (Some ''Bearer 123456'') 2000 2000 new_auth_state = (Inr sample_pairing, pairing_state)"
  by code_simp

lemma sample_finishes:
  "pair_finish sample_auth_config sample_pairing (Some (Shaped sample_pairing_request)) 3000 3000 ''ocd_1'' True pairing_state =
     (Paired sample_issued, paired_state)"
  by code_simp

lemma pairing_reachable: "auth_reachable sample_auth_config (pairing_state, [sample_pairing])"
  by (rule auth_reachable.step [OF auth_reachable.start]) (rule auth_step.begun [OF sample_begins])

lemma paired_reachable: "auth_reachable sample_auth_config (paired_state, [])"
proof -
  have "auth_step sample_auth_config (pairing_state, [sample_pairing]) (paired_state, remove1 sample_pairing [sample_pairing])"
    by (rule auth_step.finished [OF _ sample_finishes]) simp
  then show ?thesis using auth_reachable.step [OF pairing_reachable] by simp
qed

lemma sample_authenticates:
  "authenticate sample_auth_config (Some ''bearer  ocd_1'') 4000 4000 4000 paired_state =
     (Some \<lparr>ap_kind = Device, ap_device_id = ''phone-0001'', ap_scopes = {Memory_read}\<rparr>,
      paired_state\<lparr>au_tokens := [sample_device\<lparr>dt_last_used_at := Some (Iso 4000)\<rparr>]\<rparr>)"
  by code_simp

lemma device_tokens_least_privilege_witness:
  "\<exists>r :: device_token. active (dt_device_id r) (au_tokens paired_state) = [r] \<and> dt_device_id r = ''phone-0001''"
  using device_tokens_least_privilege [OF paired_reachable sample_authenticates] by (auto simp: local_principal_def)

lemma pairing_spends_the_code_witness:
  "\<not> code_accepted sample_auth_config sample_pairing ''123456'' 4000 paired_state"
proof -
  have "\<forall>s'' supplied now. au_consumed s'' = au_consumed paired_state \<longrightarrow> \<not> code_accepted sample_auth_config sample_pairing supplied now s''"
    using pairing_spends_the_code [OF pairing_reachable _ sample_finishes] by simp
  then show ?thesis by blast
qed

end
