(* ===== verification/Api_Router.thy ===== *)
theory Api_Router
  imports Auth
begin

text \<open>
  The route table of the REST interface with the matching of paths (\<open>src/brain-server/src/api/routes.ts\<close>, tables
  in \<open>api/handlers/\<close>), and the authorization of tool calls over MCP (\<open>api/handlers/mcp.ts\<close>). A route
  stands for its handler; what the handlers do is not part of this theory.
\<close>

section \<open>Matching\<close>

type_synonym route = "string \<times> string"

definition slash :: "char \<Rightarrow> bool" where
  "slash c \<longleftrightarrow> c = CHR ''/''"

text \<open>\<open>split('/').filter(Boolean)\<close>.\<close>

definition path_segments :: "string \<Rightarrow> string list" where
  "path_segments path = filter (\<lambda>s. s \<noteq> []) (split_on slash path)"

definition is_parameter :: "string \<Rightarrow> bool" where
  "is_parameter s \<longleftrightarrow> prefix '':'' s"

datatype match_result = No_match | Uri_malformed | Matched "(string, string) jsmap"

fun match_parts :: "(string \<Rightarrow> string option) \<Rightarrow> string list \<Rightarrow> string list \<Rightarrow> (string, string) jsmap \<Rightarrow> match_result" where
  "match_parts decode (p # ps) (q # qs) m =
     (if is_parameter p then (case decode q of None \<Rightarrow> Uri_malformed | Some v \<Rightarrow> match_parts decode ps qs (map_set (drop 1 p) v m))
      else if p \<noteq> q then No_match else match_parts decode ps qs m)"
| "match_parts decode _ _ m = Matched m"

definition match_path :: "(string \<Rightarrow> string option) \<Rightarrow> string \<Rightarrow> string \<Rightarrow> match_result" where
  "match_path decode pattern path = (let ps = path_segments pattern; qs = path_segments path in
     if length ps \<noteq> length qs then No_match else match_parts decode ps qs [])"

datatype routed = Handled route "(string, string) jsmap" | Not_found | Internal_error

text \<open>The first route that fits; an error of the decoding is caught and answered.\<close>

fun find_route :: "(string \<Rightarrow> string option) \<Rightarrow> route list \<Rightarrow> string \<Rightarrow> string \<Rightarrow> routed" where
  "find_route decode [] method path = Not_found"
| "find_route decode (r # rs) method path =
     (if fst r \<noteq> method then find_route decode rs method path
      else (case match_path decode (snd r) path of No_match \<Rightarrow> find_route decode rs method path
        | Uri_malformed \<Rightarrow> Internal_error | Matched m \<Rightarrow> Handled r m))"

section \<open>The table\<close>

text \<open>The method and the path of each entry.\<close>

definition memory_routes :: "route list" where
  "memory_routes =
    [(''GET'', ''/api/memory/core''), (''GET'', ''/api/memory/core/stats''), (''POST'', ''/api/memory/core/search''),
     (''POST'', ''/api/memory/core/compress''), (''GET'', ''/api/memory/core/category/:category''),
     (''GET'', ''/api/memory/core/:key''), (''POST'', ''/api/memory/core''), (''DELETE'', ''/api/memory/core/:key''),
     (''GET'', ''/api/memory/archival''), (''GET'', ''/api/memory/archival/summary''),
     (''POST'', ''/api/memory/archival/search''), (''POST'', ''/api/memory/archival/compress''),
     (''GET'', ''/api/memory/archival/:id''), (''POST'', ''/api/memory/archival''),
     (''PUT'', ''/api/memory/archival/:id''), (''DELETE'', ''/api/memory/archival/:id'')]"

definition entity_routes :: "route list" where
  "entity_routes =
    [(''GET'', ''/api/review/tasks''), (''POST'', ''/api/review/core-principles/demote-excess''),
     (''GET'', ''/api/entities/review''), (''GET'', ''/api/entities/sources''), (''GET'', ''/api/entities''),
     (''GET'', ''/api/entities/:id/neighborhood''), (''GET'', ''/api/entities/:id''), (''POST'', ''/api/entities''),
     (''PUT'', ''/api/entities/:id''), (''DELETE'', ''/api/entities/:id''), (''POST'', ''/api/entities/:id/merge''),
     (''GET'', ''/api/entities/merge/candidates''), (''POST'', ''/api/entities/merge/:mergeId/confirm''),
     (''POST'', ''/api/entities/merge/:mergeId/reject''), (''POST'', ''/api/entities/merge/:mergeId/revert''),
     (''GET'', ''/api/entities/type/:type''), (''POST'', ''/api/entities/search''),
     (''POST'', ''/api/relationships''), (''GET'', ''/api/relationships''), (''DELETE'', ''/api/relationships/:id'')]"

definition principle_routes :: "route list" where
  "principle_routes =
    [(''GET'', ''/api/principles''), (''POST'', ''/api/principles''), (''GET'', ''/api/principles/core''),
     (''GET'', ''/api/principles/type/:type''), (''GET'', ''/api/principles/:id''),
     (''DELETE'', ''/api/principles/:id''), (''POST'', ''/api/principles/:id/evidence'')]"

definition graph_routes :: "route list" where
  "graph_routes =
    [(''POST'', ''/api/graph/extract''), (''GET'', ''/api/graph/context''), (''POST'', ''/api/graph/context'')]"

definition stats_routes :: "route list" where
  "stats_routes =
    [(''GET'', ''/api/stats''), (''POST'', ''/api/export''), (''POST'', ''/api/import'')]"

definition notification_routes :: "route list" where
  "notification_routes =
    [(''GET'', ''/api/notifications''), (''POST'', ''/api/notifications/:id/read''),
     (''POST'', ''/api/notifications/:id/promote''), (''POST'', ''/api/notifications/:id/feedback'')]"

definition discussion_routes :: "route list" where
  "discussion_routes =
    [(''GET'', ''/api/discussions''), (''POST'', ''/api/discussions''), (''GET'', ''/api/discussions/:id''),
     (''DELETE'', ''/api/discussions/:id'')]"

definition admin_routes :: "route list" where
  "admin_routes =
    [(''GET'', ''/api/admin/embedding/manifests''), (''GET'', ''/api/admin/embedding/integrity''),
     (''POST'', ''/api/admin/embedding/rebuild''), (''GET'', ''/api/admin/embedding/status''),
     (''GET'', ''/api/admin/export''), (''POST'', ''/api/admin/import''),
     (''POST'', ''/api/admin/embedding/reload''), (''POST'', ''/api/admin/seed-demo'')]"

definition ingest_routes :: "route list" where
  "ingest_routes =
    [(''POST'', ''/api/ingest/file''), (''POST'', ''/api/ingest/job/:jobId/cancel''),
     (''GET'', ''/api/ingest/job/:jobId''), (''POST'', ''/api/ingest/document/:documentId/retry''),
     (''POST'', ''/api/import/chat''), (''GET'', ''/api/import/chat/failed''),
     (''POST'', ''/api/import/chat/failed/:batchId/retry'')]"

definition settings_routes :: "route list" where
  "settings_routes =
    [(''GET'', ''/api/settings/llm''), (''POST'', ''/api/settings/llm''), (''GET'', ''/api/status'')]"

definition mcp_routes :: "route list" where
  "mcp_routes =
    [(''POST'', ''/mcp''), (''GET'', ''/mcp''), (''POST'', ''/api/mcp/tool/:name''), (''GET'', ''/api/mcp/usage''),
     (''GET'', ''/api/mcp/resources''), (''POST'', ''/api/mcp/resources/read'')]"

definition decision_history_routes :: "route list" where
  "decision_history_routes =
    [(''GET'', ''/api/decisions'')]"

definition agent_routes :: "route list" where
  "agent_routes =
    [(''GET'', ''/api/control/plans''), (''POST'', ''/api/agent/ask''), (''GET'', ''/api/agent/inspect/:planId''),
     (''GET'', ''/api/agent/history''), (''GET'', ''/api/agent/outcome/:planId''),
     (''GET'', ''/api/control/revisions/:decisionId'')]"

definition api_routes :: "route list" where
  "api_routes = memory_routes @ entity_routes @ principle_routes @ graph_routes @
      stats_routes @ notification_routes @ discussion_routes @ admin_routes @
      ingest_routes @ settings_routes @ mcp_routes @ decision_history_routes @ agent_routes"

section \<open>Tool calls\<close>

definition mcp_tools :: "string list" where
  "mcp_tools =
     [''record_capture'', ''get_core_context'', ''search_entities'', ''add_entity'', ''get_entity'',
      ''add_relationship'', ''get_graph_neighborhood'', ''extract_from_capture'', ''list_entities'',
      ''update_entity'', ''get_stats'', ''vector_search'', ''unified_memory_search'', ''get_decision_context'',
      ''save_conclusion'', ''save_decision'', ''analyze_decision'', ''discuss_decision'', ''get_decision_lineage'',
      ''record_decision_outcome'', ''get_decay_report'', ''ask_memory'', ''graph_answer'', ''merge_entities'',
      ''set_core_principle'', ''delete_entity'']"

definition agent_pilot_tools :: "string list" where
  "agent_pilot_tools = [''agent_ask'', ''agent_inspect'', ''agent_history'', ''agent_outcome'']"

datatype tool_target = Agent_pilot_adapter | Business_dispatcher

text \<open>What a JSON-RPC message comes to; a call is handed to the target, whose answer is the answer.\<close>

datatype rpc_reply =
    Rpc_none | Rpc_initialized | Rpc_pong | Rpc_tools "string list"
  | Rpc_unknown_tool | Rpc_not_allowlisted | Rpc_missing_scope
  | Rpc_call tool_target string
  | Rpc_unknown_method

text \<open>A property of a value: a value that is not an object of fields has none of those that are read here.\<close>

definition js_property :: "string \<Rightarrow> jsval \<Rightarrow> jsval option" where
  "js_property k v = (case v of JObj fs \<Rightarrow> map_of fs k | _ \<Rightarrow> None)"

definition tool_target_of :: "string \<Rightarrow> tool_target" where
  "tool_target_of name = (if name \<in> set agent_pilot_mcp_allowlist then Agent_pilot_adapter else Business_dispatcher)"

definition rpc_call_tool :: "principal \<Rightarrow> jsval option \<Rightarrow> rpc_reply" where
  "rpc_call_tool p name = (case name of
     Some (JStr n) \<Rightarrow>
       if n \<notin> set mcp_tools \<and> n \<notin> set agent_pilot_tools then Rpc_unknown_tool
       else if is_agent_pilot_principal p \<and> n \<notin> set agent_pilot_mcp_allowlist then Rpc_not_allowlisted
       else if \<not> holds_scope p (scope_for_mcp_tool n) then Rpc_missing_scope
       else Rpc_call (tool_target_of n) n
   | _ \<Rightarrow> Rpc_unknown_tool)"

definition handle_rpc_message :: "principal \<Rightarrow> jsval \<Rightarrow> rpc_reply" where
  "handle_rpc_message p msg = (case js_property ''method'' msg of
     Some (JStr m) \<Rightarrow>
       if prefix ''notifications/'' m then Rpc_none
       else if m = ''initialize'' then Rpc_initialized
       else if m = ''ping'' then Rpc_pong
       else if m = ''tools/list'' then Rpc_tools (if is_agent_pilot_principal p then agent_pilot_tools else mcp_tools)
       else if m = ''tools/call'' then
         rpc_call_tool p (case js_property ''params'' msg of None \<Rightarrow> None | Some params \<Rightarrow> js_property ''name'' params)
       else Rpc_unknown_method
   | _ \<Rightarrow> Rpc_none)"

text \<open>A batch is answered message by message; no answer at all is status 202.\<close>

definition handle_rpc :: "principal \<Rightarrow> jsval \<Rightarrow> rpc_reply list" where
  "handle_rpc p body = (case body of JArr ms \<Rightarrow> filter (\<lambda>r. r \<noteq> Rpc_none) (map (handle_rpc_message p) ms)
     | m \<Rightarrow> filter (\<lambda>r. r \<noteq> Rpc_none) [handle_rpc_message p m])"

text \<open>The REST entry for a tool call: the scope of the tool was left to the check of the path.\<close>

definition rest_tool_call :: "principal \<Rightarrow> string \<Rightarrow> tool_target option" where
  "rest_tool_call p name = (if is_agent_pilot_principal p \<and> name \<notin> set agent_pilot_mcp_allowlist then None
     else Some (tool_target_of name))"

section \<open>Segments\<close>

lemma split_on_ne [simp]: "split_on P s \<noteq> []"
  by (induction s) (auto split: list.splits)

text \<open>A path without empty segments, as a client that follows the interface sends it.\<close>

definition canonical_path :: "string \<Rightarrow> bool" where
  "canonical_path path \<longleftrightarrow> (\<exists>s ss. split_on slash path = [] # s # ss \<and> [] \<notin> set (s # ss))"

fun join_path :: "string list \<Rightarrow> string" where
  "join_path [] = []"
| "join_path (s # ss) = CHR ''/'' # s @ join_path ss"

lemma join_split: "concat (map (\<lambda>s. CHR ''/'' # s) (split_on slash s)) = CHR ''/'' # s"
proof (induction s)
  case (Cons c s)
  then show ?case by (cases "slash c"; cases "split_on slash s") (auto simp: slash_def [of c])
qed simp

lemma join_path_concat: "join_path ss = concat (map (\<lambda>s. CHR ''/'' # s) ss)"
  by (induction ss) simp_all

lemma canonical_join: "canonical_path path \<Longrightarrow> path = join_path (path_segments path)"
proof -
  assume "canonical_path path"
  then obtain s ss where s: "split_on slash path = [] # s # ss" "[] \<notin> set (s # ss)" unfolding canonical_path_def by blast
  then have "path_segments path = s # ss" by (auto simp: path_segments_def filter_id_conv)
  moreover have "CHR ''/'' # join_path (s # ss) = CHR ''/'' # path"
    using join_split [of path] s(1) by (simp add: join_path_concat)
  ultimately show ?thesis by simp
qed

lemma match_parts_static:
  "match_parts decode ps qs m = Matched m' \<Longrightarrow> length ps = length qs \<Longrightarrow> i < length ps \<Longrightarrow> \<not> is_parameter (ps ! i) \<Longrightarrow> qs ! i = ps ! i"
proof (induction decode ps qs m arbitrary: i rule: match_parts.induct)
  case (1 decode p ps q qs m)
  then show ?case by (cases i) (auto split: if_splits option.splits)
qed simp_all

lemma match_path_static:
  assumes "match_path decode pattern path = Matched m" "i < length (path_segments pattern)" "\<not> is_parameter (path_segments pattern ! i)"
  shows "path_segments path ! i = path_segments pattern ! i" "length (path_segments path) = length (path_segments pattern)"
  using assms match_parts_static [of decode "path_segments pattern" "path_segments path" "[]" m i]
  by (auto simp: match_path_def Let_def split: if_splits)

lemma find_route_Handled:
  "find_route decode rs method path = Handled r m \<Longrightarrow> r \<in> set rs \<and> fst r = method \<and> match_path decode (snd r) path = Matched m"
  by (induction rs) (auto split: if_splits match_result.splits)

section \<open>Properties\<close>

definition admin_scopes :: "needed_scope set" where
  "admin_scopes = {Needs Admin_export, Needs Admin_import, Needs Admin_delete}"

definition administrative :: "route \<Rightarrow> bool" where
  "administrative r \<longleftrightarrow> fst r = ''DELETE'' \<or> prefix ''/api/admin/'' (snd r) \<or> prefix ''/api/settings/'' (snd r)"

definition administrative_shape :: "route \<Rightarrow> bool" where
  "administrative_shape r \<longleftrightarrow> (case path_segments (snd r) of
     a # b # c # cs \<Rightarrow> a = ''api'' \<and> (b = ''admin'' \<or> b = ''settings'' \<or> fst r = ''DELETE'' \<and>
       b \<in> set [''memory'', ''entities'', ''relationships'', ''principles'', ''discussions''])
   | _ \<Rightarrow> False)"

lemma administrative_routes: "list_all (\<lambda>r. \<not> administrative r \<or> administrative_shape r) api_routes"
  by code_simp

lemma admin_path_scope:
  assumes "path = ''/api/'' @ b @ CHR ''/'' # rest"
    "b = ''admin'' \<or> b = ''settings'' \<or> method = ''DELETE'' \<and> b \<in> set [''memory'', ''entities'', ''relationships'', ''principles'', ''discussions'']"
  shows "required_scope path method \<in> admin_scopes"
proof -
  have d: "required_scope (''/api/'' @ x @ CHR ''/'' # rest) ''DELETE'' = Needs Admin_delete"
    if "x \<in> set [''memory'', ''entities'', ''relationships'', ''principles'', ''discussions'']" for x
    using that unfolding list.set insert_iff empty_iff by (elim disjE) (simp_all add: required_scope_def)
  have "required_scope (''/api/'' @ ''admin'' @ CHR ''/'' # rest) method \<in> admin_scopes"
    "required_scope (''/api/'' @ ''settings'' @ CHR ''/'' # rest) method \<in> admin_scopes"
    by (simp_all add: required_scope_def admin_scopes_def)
  note a = this
  from assms(2) show ?thesis
  proof (elim disjE conjE)
    assume "method = ''DELETE''" "b \<in> set [''memory'', ''entities'', ''relationships'', ''principles'', ''discussions'']"
    then show ?thesis using d [of b] unfolding assms(1) admin_scopes_def by simp
  qed (simp_all only: assms(1) a)
qed

text \<open>
  When a path without empty segments is routed to a handler under the administration or settings prefix, or to
  any deletion, the scope the server requires of the request is an administration scope.
\<close>

lemma administrative_routes_need_admin_scope:
  assumes "canonical_path path" "find_route decode api_routes method path = Handled r m" "administrative r"
  shows "required_scope path method \<in> {Needs Admin_export, Needs Admin_import, Needs Admin_delete}"
proof -
  note r = find_route_Handled [OF assms(2)]
  then have "administrative_shape r" using administrative_routes assms(3) by (auto simp: list_all_iff)
  then obtain b c cs where seg: "path_segments (snd r) = ''api'' # b # c # cs"
    "b = ''admin'' \<or> b = ''settings'' \<or> method = ''DELETE'' \<and> b \<in> set [''memory'', ''entities'', ''relationships'', ''principles'', ''discussions'']"
    using r by (auto simp: administrative_shape_def split: list.splits)
  have m: "match_path decode (snd r) path = Matched m" using r by blast
  have s: "\<not> is_parameter ''api''" "\<not> is_parameter b" using seg(2) by (auto simp: is_parameter_def)
  have "path_segments path ! 0 = ''api''" "path_segments path ! 1 = b" "length (path_segments path) = length (path_segments (snd r))"
    using match_path_static [OF m, of 0] match_path_static [OF m, of 1] seg(1) s by simp_all
  then obtain d ds where "path_segments path = ''api'' # b # d # ds"
    using seg(1) by (cases "path_segments path"; cases "tl (path_segments path)"; cases "tl (tl (path_segments path))") auto
  then have "path = ''/api/'' @ b @ CHR ''/'' # d @ join_path ds" using canonical_join [OF assms(1)] by simp
  from admin_path_scope [OF this seg(2)] show ?thesis by (simp add: admin_scopes_def)
qed

text \<open>
  The scope is checked on the path as sent, but the router drops empty segments. With a doubled slash the token
  of a mobile device, which may read memory and decisions, is authorized for the whole export of the
  administration, and one that may write memory, as a browser extension has, for the tool that deletes
  entities, on the entry that does not check the scope of the tool again.
\<close>

lemma empty_segment_bypasses_scope:
  "find_route Some api_routes ''GET'' ''/api//admin/export'' = Handled (''GET'', ''/api/admin/export'') [] \<and>
   authorize ''/api//admin/export'' ''GET'' \<lparr>ap_kind = Device, ap_device_id = d, ap_scopes = set (device_scope_policy Mobile)\<rparr> \<and>
   \<not> authorize ''/api/admin/export'' ''GET'' \<lparr>ap_kind = Device, ap_device_id = d, ap_scopes = set (device_scope_policy Mobile)\<rparr> \<and>
   find_route Some api_routes ''POST'' ''/api//mcp/tool/delete_entity'' =
     Handled (''POST'', ''/api/mcp/tool/:name'') [(''name'', ''delete_entity'')] \<and>
   authorize ''/api//mcp/tool/delete_entity'' ''POST''
     \<lparr>ap_kind = Device, ap_device_id = ''laptop-0001'', ap_scopes = set (device_scope_policy Browser_extension)\<rparr> \<and>
   rest_tool_call \<lparr>ap_kind = Device, ap_device_id = ''laptop-0001'', ap_scopes = set (device_scope_policy Browser_extension)\<rparr>
     ''delete_entity'' = Some Business_dispatcher"
proof -
  have f: "find_route Some api_routes ''GET'' ''/api//admin/export'' = Handled (''GET'', ''/api/admin/export'') []"
    "find_route Some api_routes ''POST'' ''/api//mcp/tool/delete_entity'' = Handled (''POST'', ''/api/mcp/tool/:name'') [(''name'', ''delete_entity'')]"
    by code_simp+
  have s: "required_scope ''/api//admin/export'' ''GET'' = Needs Memory_read" "required_scope ''/api/admin/export'' ''GET'' = Needs Admin_export"
    "required_scope ''/api//mcp/tool/delete_entity'' ''POST'' = Needs Memory_write"
    by code_simp+
  have t: "rest_tool_call \<lparr>ap_kind = Device, ap_device_id = ''laptop-0001'', ap_scopes = set (device_scope_policy Browser_extension)\<rparr>
     ''delete_entity'' = Some Business_dispatcher" by code_simp
  show ?thesis using f s t by (simp add: authorize_def holds_scope_def)
qed

text \<open>A device that may only write gets the memories exported by a route that is a write by its method.\<close>

lemma export_needs_only_write:
  "find_route Some api_routes ''POST'' ''/api/export'' = Handled (''POST'', ''/api/export'') [] \<and>
   authorize ''/api/export'' ''POST'' \<lparr>ap_kind = Device, ap_device_id = d, ap_scopes = set (device_scope_policy Esp32)\<rparr> \<and>
   \<not> authorize ''/api/memory/core'' ''GET'' \<lparr>ap_kind = Device, ap_device_id = d, ap_scopes = set (device_scope_policy Esp32)\<rparr>"
proof -
  have f: "find_route Some api_routes ''POST'' ''/api/export'' = Handled (''POST'', ''/api/export'') []" by code_simp
  have s: "required_scope ''/api/export'' ''POST'' = Needs Memory_write" "required_scope ''/api/memory/core'' ''GET'' = Needs Memory_read"
    by code_simp+
  show ?thesis using f s by (simp add: authorize_def holds_scope_def)
qed

lemma tools_have_scopes: "list_all (\<lambda>n. \<exists>s. scope_for_mcp_tool n = Needs s) (mcp_tools @ agent_pilot_tools)"
  by (simp add: mcp_tools_def agent_pilot_tools_def scope_for_mcp_tool_def mcp_tool_scope_map_def)

text \<open>C15: Over JSON-RPC, whatever the message, a tool is called only if it has a scope and the caller holds it; a caller
  that is an agent pilot reaches nothing but the pilot's tools, and the other callers' tools are never handed
  to the pilot's adapter.
\<close>

theorem rpc_calls_are_scoped:
  assumes "Rpc_call target n \<in> set (handle_rpc p body)"
  shows "(\<exists>s. scope_for_mcp_tool n = Needs s \<and> s \<in> ap_scopes p) \<and> n \<in> set (mcp_tools @ agent_pilot_tools) \<and>
    (is_agent_pilot_principal p \<longrightarrow> n \<in> set agent_pilot_tools) \<and>
    (target = Agent_pilot_adapter \<longleftrightarrow> n \<in> set agent_pilot_tools)"
proof -
  have "\<exists>msg. handle_rpc_message p msg = Rpc_call target n" using assms by (auto simp: handle_rpc_def split: jsval.splits if_splits)
  then obtain msg where "handle_rpc_message p msg = Rpc_call target n" by blast
  then obtain v where "rpc_call_tool p v = Rpc_call target n" by (auto simp: handle_rpc_message_def split: option.splits jsval.splits if_splits)
  then have c: "n \<in> set (mcp_tools @ agent_pilot_tools)" "is_agent_pilot_principal p \<longrightarrow> n \<in> set agent_pilot_mcp_allowlist"
    "holds_scope p (scope_for_mcp_tool n)" "target = tool_target_of n"
    by (auto simp: rpc_call_tool_def split: option.splits jsval.splits if_splits)
  obtain s where s: "scope_for_mcp_tool n = Needs s" using tools_have_scopes c(1) unfolding list_all_iff by blast
  have "agent_pilot_mcp_allowlist = agent_pilot_tools" by (simp add: agent_pilot_mcp_allowlist_def agent_pilot_tools_def)
  then show ?thesis using c s by (auto simp: holds_scope_def tool_target_of_def)
qed

lemma rpc_calls_are_scoped_witness:
  "\<exists>s. scope_for_mcp_tool ''agent_history'' = Needs s \<and> s \<in> set (device_scope_policy Agent_pilot_device)"
proof -
  let ?p = "\<lparr>ap_kind = Agent_pilot, ap_device_id = ''pilot-0001'', ap_scopes = set (device_scope_policy Agent_pilot_device)\<rparr>"
  let ?body = "JObj [(''method'', JStr ''tools/call''), (''params'', JObj [(''name'', JStr ''agent_history'')])]"
  have "handle_rpc ?p ?body = [Rpc_call Agent_pilot_adapter ''agent_history'']" by code_simp
  then have "Rpc_call Agent_pilot_adapter ''agent_history'' \<in> set (handle_rpc ?p ?body)" by simp
  from rpc_calls_are_scoped [OF this] show ?thesis by auto
qed

end
