(* ===== verification/Control_Session.thy ===== *)
theory Control_Session
  imports Auth
begin

text \<open>
  The control sessions of the local owner (\<open>src/brain-server/src/control/session.ts\<close>): short-lived tokens, each
  for one control operation, kept in a map by session identifier. The clock readings, the random bytes of
  a token and of an identifier are arguments.
\<close>

datatype control_scope = Control_approve | Control_verify | Control_reopen

definition control_session_ttl_ms :: int where
  "control_session_ttl_ms = 5 * 60 * 1000"

definition control_session_burst_max :: nat where
  "control_session_burst_max = 10"

definition control_session_burst_window_ms :: int where
  "control_session_burst_window_ms = 60000"

record control_session =
  cs_id :: string
  cs_scope :: control_scope
  cs_actor_id :: string
  cs_actor_kind :: string
  cs_authority :: string
  cs_issued_at :: timestamp
  cs_expires_at :: timestamp

record stored_session =
  ss_public :: control_session
  ss_token_digest :: string
  ss_request_count :: nat
  ss_reset_at_ms :: int

type_synonym control_sessions = "(string, stored_session) jsmap"

text \<open>The first argument of \<open>mint\<close>: nothing, a scope, or, in the older call shape, the time.\<close>

datatype mint_argument = Default_scope | Scope_argument control_scope | Time_argument int

definition mint_scope :: "mint_argument \<Rightarrow> control_scope" where
  "mint_scope a = (case a of Scope_argument sc \<Rightarrow> sc | _ \<Rightarrow> Control_approve)"

definition mint_now :: "mint_argument \<Rightarrow> int \<Rightarrow> int" where
  "mint_now a now = (case a of Time_argument t \<Rightarrow> t | _ \<Rightarrow> now)"

text \<open>\<open>None\<close> is the range error of a date that cannot be written.\<close>

definition mint ::
  "(string \<Rightarrow> string) \<Rightarrow> mint_argument \<Rightarrow> int \<Rightarrow> string \<Rightarrow> string \<Rightarrow> control_sessions \<Rightarrow>
   ((string \<times> control_session) \<times> control_sessions) option" where
  "mint sha arg now token_random id_random m =
     (let t = mint_now arg now; token = ''ocs_'' @ token_random; i = ''cs_'' @ id_random in
      Option.bind (to_iso t) (\<lambda>issued. Option.bind (to_iso (t + control_session_ttl_ms)) (\<lambda>expires.
        let public = \<lparr>cs_id = i, cs_scope = mint_scope arg, cs_actor_id = ''local-owner'', cs_actor_kind = ''owner'',
              cs_authority = ''L3'', cs_issued_at = issued, cs_expires_at = expires\<rparr> in
        Some ((token, public), map_set i \<lparr>ss_public = public, ss_token_digest = hash_token sha token, ss_request_count = 0,
            ss_reset_at_ms = t + control_session_burst_window_ms\<rparr> m))))"

text \<open>\<open>Date.parse\<close> of a text that is no date is \<open>NaN\<close>, which is not before anything.\<close>

definition session_expired :: "stored_session \<Rightarrow> int \<Rightarrow> bool" where
  "session_expired x now \<longleftrightarrow> num_le (date_parse (cs_expires_at (ss_public x))) (Some now)"

fun session_scan :: "string \<Rightarrow> int \<Rightarrow> control_sessions \<Rightarrow> control_session option \<times> control_sessions" where
  "session_scan digest now [] = (None, [])"
| "session_scan digest now ((i, x) # m) =
     (if session_expired x now then session_scan digest now m
      else if constant_time_equal (ss_token_digest x) digest then (Some (ss_public x), (i, x) # m)
      else (case session_scan digest now m of (r, m') \<Rightarrow> (r, (i, x) # m')))"

definition session_authenticate ::
  "(string \<Rightarrow> string) \<Rightarrow> string \<Rightarrow> int \<Rightarrow> control_sessions \<Rightarrow> control_session option \<times> control_sessions" where
  "session_authenticate sha token now m = (if token = [] then (None, m) else session_scan (hash_token sha token) now m)"

definition consume_burst :: "string \<Rightarrow> int \<Rightarrow> control_sessions \<Rightarrow> bool \<times> control_sessions" where
  "consume_burst i now m = (case map_get m i of None \<Rightarrow> (False, m)
     | Some x \<Rightarrow> if session_expired x now then (False, map_delete i m)
         else (let y = (if ss_reset_at_ms x \<le> now
                 then x\<lparr>ss_reset_at_ms := now + control_session_burst_window_ms, ss_request_count := 0\<rparr> else x);
               z = y\<lparr>ss_request_count := Suc (ss_request_count y)\<rparr> in
           (ss_request_count z \<le> control_session_burst_max, map_set i z m)))"

definition session_revoke :: "string \<Rightarrow> control_sessions \<Rightarrow> bool \<times> control_sessions" where
  "session_revoke i m = (map_has m i, map_delete i m)"

definition session_revoke_all :: "control_sessions \<Rightarrow> control_sessions" where
  "session_revoke_all m = []"

datatype header_value = Header_absent | Header_one string | Header_many "string list"

definition read_control_bearer :: "header_value \<Rightarrow> string" where
  "read_control_bearer h = read_bearer_token (case h of Header_absent \<Rightarrow> None | Header_one s \<Rightarrow> Some s
     | Header_many [] \<Rightarrow> None | Header_many (s # _) \<Rightarrow> Some s)"

section \<open>Runs\<close>

datatype session_event =
    Mints mint_argument int string string
  | Presents string int
  | Consumes string int
  | Revokes string
  | Revokes_all

text \<open>An event answers whether it is a request that is let through.\<close>

fun session_step :: "(string \<Rightarrow> string) \<Rightarrow> session_event \<Rightarrow> control_sessions \<Rightarrow> bool \<times> control_sessions" where
  "session_step sha (Mints a now tr ir) m = (case mint sha a now tr ir m of None \<Rightarrow> (False, m) | Some (_, m') \<Rightarrow> (True, m'))"
| "session_step sha (Presents token now) m = (case session_authenticate sha token now m of (r, m') \<Rightarrow> (r \<noteq> None, m'))"
| "session_step sha (Consumes i now) m = consume_burst i now m"
| "session_step sha (Revokes i) m = session_revoke i m"
| "session_step sha Revokes_all m = (True, session_revoke_all m)"

fun session_run :: "(string \<Rightarrow> string) \<Rightarrow> session_event list \<Rightarrow> control_sessions \<Rightarrow> control_sessions" where
  "session_run sha [] m = m"
| "session_run sha (e # es) m = session_run sha es (snd (session_step sha e m))"

lemma session_run_append: "session_run sha (es @ fs) m = session_run sha fs (session_run sha es m)"
  by (induction es arbitrary: m) simp_all

section \<open>Lookups\<close>

lemma scan_sublist: "set (snd (session_scan d now m)) \<subseteq> set m"
proof (induction d now m rule: session_scan.induct)
  case (2 digest now i x m)
  then show ?case by (cases "session_expired x now") (auto split: prod.splits)
qed simp

lemma keys_scan: "keys_distinct m \<Longrightarrow> keys_distinct (snd (session_scan d now m))"
proof (induction d now m rule: session_scan.induct)
  case (2 digest now i x m)
  obtain r m' where m': "session_scan digest now m = (r, m')" by (cases "session_scan digest now m")
  have "fst ` set m' \<subseteq> fst ` set m" using scan_sublist [of digest now m] m' by (intro image_mono) simp
  moreover have "i \<notin> fst ` set m" "keys_distinct m" using "2.prems" by (simp_all add: keys_distinct_def)
  ultimately show ?case using "2.IH" m' "2.prems" by (cases "session_expired x now") (auto simp: keys_distinct_def)
qed simp

lemma map_get_mem: "keys_distinct m \<Longrightarrow> map_get m i = Some x \<longleftrightarrow> (i, x) \<in> set m"
  by (simp add: keys_distinct_def)

text \<open>Presenting a token only removes sessions.\<close>

lemma scan_get: "keys_distinct m \<Longrightarrow> map_get (snd (session_scan d now m)) i \<in> {None, map_get m i}"
proof -
  assume a: "keys_distinct m"
  have "map_get m i = Some x" if "map_get (snd (session_scan d now m)) i = Some x" for x
    using that scan_sublist [of d now m] a keys_scan [OF a, of d now] by (auto simp: map_get_mem)
  then show ?thesis by (cases "map_get (snd (session_scan d now m)) i") auto
qed

lemma scan_found:
  "fst (session_scan d now m) = Some c \<Longrightarrow>
     \<exists>i x. (i, x) \<in> set (snd (session_scan d now m)) \<and> ss_public x = c \<and> ss_token_digest x = d \<and> \<not> session_expired x now"
  by (induction d now m rule: session_scan.induct) (auto simp: utf8_equal split: if_splits prod.splits)

lemma authenticate_get: "keys_distinct m \<Longrightarrow> map_get (snd (session_authenticate sha token now m)) i \<in> {None, map_get m i}"
  using scan_get [of m] by (simp add: session_authenticate_def)

lemma keys_authenticate: "keys_distinct m \<Longrightarrow> keys_distinct (snd (session_authenticate sha token now m))"
  by (simp add: session_authenticate_def keys_scan)

lemma presents_state [simp]: "snd (session_step sha (Presents token now) m) = snd (session_authenticate sha token now m)"
  by (simp split: prod.split)

text \<open>The map keeps a session under its own identifier, with the expiry five minutes after the issue.\<close>

definition session_ok :: "string \<Rightarrow> stored_session \<Rightarrow> bool" where
  "session_ok i x \<longleftrightarrow> cs_id (ss_public x) = i \<and>
     (\<exists>t. cs_issued_at (ss_public x) = Iso t \<and> cs_expires_at (ss_public x) = Iso (t + control_session_ttl_ms))"

definition sessions_inv :: "control_sessions \<Rightarrow> bool" where
  "sessions_inv m \<longleftrightarrow> keys_distinct m \<and> (\<forall>i x. map_get m i = Some x \<longrightarrow> session_ok i x)"

lemma mint_cases:
  assumes "mint sha a now tr ir m = Some ((token, c), m')"
  obtains x where "m' = map_set (''cs_'' @ ir) x m" "ss_public x = c" "token = ''ocs_'' @ tr" "ss_token_digest x = hash_token sha token"
    "session_ok (''cs_'' @ ir) x" "cs_scope c = mint_scope a" "ss_request_count x = 0" "cs_issued_at c = Iso (mint_now a now)"
  using assms by (auto simp: mint_def Let_def to_iso_def session_ok_def bind_eq_Some_conv split: if_splits)

lemma consume_cases:
  assumes "consume_burst i now m = (b, m')"
  obtains (gone) "m' = m" "map_get m i = None" "\<not> b"
  | (expired) x where "m' = map_delete i m" "map_get m i = Some x" "session_expired x now" "\<not> b"
  | (counted) x z where "m' = map_set i z m" "map_get m i = Some x" "\<not> session_expired x now" "ss_public z = ss_public x"
      "ss_token_digest z = ss_token_digest x" "b \<longleftrightarrow> ss_request_count z \<le> control_session_burst_max"
      "if ss_reset_at_ms x \<le> now then ss_request_count z = 1 \<and> ss_reset_at_ms z = now + control_session_burst_window_ms
       else ss_request_count z = Suc (ss_request_count x) \<and> ss_reset_at_ms z = ss_reset_at_ms x"
  using assms by (auto simp: consume_burst_def Let_def split: option.splits if_splits)

lemma session_ok_public: "ss_public y = ss_public x \<Longrightarrow> session_ok i y = session_ok i x"
  by (simp add: session_ok_def)

text \<open>Where a session of the map after an event comes from.\<close>

lemma session_step_origin:
  assumes "keys_distinct m" "map_get (snd (session_step sha e m)) i = Some x"
  obtains (minted) a t tr ir where "e = Mints a t tr ir" "i = ''cs_'' @ ir" "ss_token_digest x = hash_token sha (''ocs_'' @ tr)"
      "cs_scope (ss_public x) = mint_scope a" "cs_issued_at (ss_public x) = Iso (mint_now a t)" "session_ok i x"
  | (kept) x0 where "map_get m i = Some x0" "ss_public x = ss_public x0" "ss_token_digest x = ss_token_digest x0"
      "e \<noteq> Revokes i" "e \<noteq> Revokes_all"
proof (cases e)
  case (Mints a t tr ir)
  show ?thesis
  proof (cases "mint sha a t tr ir m")
    case None
    then show ?thesis using kept assms Mints by simp
  next
    case (Some z)
    then obtain token c m' where z: "mint sha a t tr ir m = Some ((token, c), m')" by (cases z) auto
    then obtain y where y: "m' = map_set (''cs_'' @ ir) y m" "ss_public y = c" "token = ''ocs_'' @ tr"
      "ss_token_digest y = hash_token sha token" "session_ok (''cs_'' @ ir) y" "cs_scope c = mint_scope a"
      "cs_issued_at c = Iso (mint_now a t)" by (rule mint_cases)
    have g: "map_get (map_set (''cs_'' @ ir) y m) i = Some x" using assms(2) Mints z y(1) by simp
    show ?thesis
    proof (cases "i = ''cs_'' @ ir")
      case True
      then have "x = y" using g by (simp add: map_get_set)
      then show ?thesis using minted [OF Mints True] y True by simp
    next
      case False
      then have "map_get m i = Some x" using g by (simp add: map_get_set)
      then show ?thesis using kept Mints by simp
    qed
  qed
next
  case (Presents token now)
  then have "map_get (snd (session_authenticate sha token now m)) i = Some x" using assms(2) by (simp only: presents_state)
  then have "map_get m i = Some x" using authenticate_get [OF assms(1), of sha token now i] by auto
  then show ?thesis using kept Presents by simp
next
  case (Consumes j now)
  obtain b m' where c: "consume_burst j now m = (b, m')" by (cases "consume_burst j now m")
  have g: "map_get m' i = Some x" using assms(2) Consumes c by simp
  from c show ?thesis
  proof (cases rule: consume_cases)
    case (counted y z)
    then show ?thesis using kept g Consumes by (cases "i = j") (simp_all add: map_get_set)
  qed (use kept g Consumes in \<open>auto simp: map_get_delete split: if_splits\<close>)
next
  case (Revokes j)
  then show ?thesis using kept assms(2) by (auto simp: session_revoke_def map_get_delete split: if_splits)
next
  case Revokes_all
  then show ?thesis using assms(2) by (simp add: session_revoke_all_def)
qed

lemma session_step_keys: "keys_distinct m \<Longrightarrow> keys_distinct (snd (session_step sha e m))"
proof (cases e)
  case (Mints a t tr ir)
  then show "keys_distinct m \<Longrightarrow> ?thesis" by (auto split: option.splits elim!: mint_cases)
next
  case (Consumes j now)
  obtain b m' where c: "consume_burst j now m = (b, m')" by (cases "consume_burst j now m")
  from c show "keys_distinct m \<Longrightarrow> ?thesis" by (cases rule: consume_cases) (simp_all add: Consumes c)
next
  case (Presents token now)
  then show "keys_distinct m \<Longrightarrow> ?thesis" by (simp only: presents_state keys_authenticate)
qed (simp_all add: session_revoke_def session_revoke_all_def)

lemma session_step_inv: "sessions_inv m \<Longrightarrow> sessions_inv (snd (session_step sha e m))"
proof -
  assume a: "sessions_inv m"
  then have k: "keys_distinct m" by (simp add: sessions_inv_def)
  have "session_ok i x" if "map_get (snd (session_step sha e m)) i = Some x" for i x
    using k that
  proof (cases rule: session_step_origin)
    case (kept x0)
    then show ?thesis using a session_ok_public [OF kept(2)] by (simp add: sessions_inv_def)
  qed simp
  then show ?thesis using session_step_keys [OF k] by (simp add: sessions_inv_def)
qed

lemma session_run_inv: "sessions_inv m \<Longrightarrow> sessions_inv (session_run sha es m)"
  by (induction es arbitrary: m) (simp_all add: session_step_inv)

definition minted_in :: "(string \<Rightarrow> string) \<Rightarrow> session_event list \<Rightarrow> string \<Rightarrow> string \<Rightarrow> control_session \<Rightarrow> bool" where
  "minted_in sha es i digest c \<longleftrightarrow> (\<exists>es1 a t tr ir es2. es = es1 @ Mints a t tr ir # es2 \<and> i = ''cs_'' @ ir \<and>
     digest = hash_token sha (''ocs_'' @ tr) \<and> cs_scope c = mint_scope a \<and> cs_issued_at c = Iso (mint_now a t) \<and>
     Revokes i \<notin> set es2 \<and> Revokes_all \<notin> set es2)"

lemma minted_in_later: "minted_in sha es i d c \<Longrightarrow> e \<noteq> Revokes i \<Longrightarrow> e \<noteq> Revokes_all \<Longrightarrow> minted_in sha (es @ [e]) i d c"
  unfolding minted_in_def by (elim exE conjE, intro exI conjI) (assumption | simp)+

lemma stored_minted:
  "map_get (session_run sha es []) i = Some x \<Longrightarrow> minted_in sha es i (ss_token_digest x) (ss_public x)"
proof (induction es arbitrary: x rule: rev_induct)
  case (snoc e es)
  have k: "keys_distinct (session_run sha es [])" using session_run_inv [of "[]" sha es] by (simp add: sessions_inv_def)
  have g: "map_get (snd (session_step sha e (session_run sha es []))) i = Some x" using snoc.prems by (simp add: session_run_append)
  from k g show ?case
  proof (cases rule: session_step_origin)
    case (minted a t tr ir)
    then show ?thesis unfolding minted_in_def
      by (intro exI [of _ es] exI [of _ a] exI [of _ t] exI [of _ tr] exI [of _ ir] exI [of _ "[]"]) simp
  next
    case (kept x0)
    then show ?thesis using minted_in_later [OF snoc.IH [OF kept(1)]] by simp
  qed
qed simp

text \<open>C16: A token that authenticates a control session is one that was minted: the session has the scope it was minted
  for, the token has the digest of the minted one, it is less than five minutes after the issue, and neither
  the session nor all sessions were revoked since.
\<close>

theorem control_session_authentic:
  assumes "fst (session_authenticate sha token now (session_run sha es [])) = Some c"
  shows "\<exists>es1 a t tr ir es2. es = es1 @ Mints a t tr ir # es2 \<and> cs_id c = ''cs_'' @ ir \<and> cs_scope c = mint_scope a \<and>
    hash_token sha token = hash_token sha (''ocs_'' @ tr) \<and> now < mint_now a t + 5 * 60 * 1000 \<and>
    Revokes (cs_id c) \<notin> set es2 \<and> Revokes_all \<notin> set es2"
proof -
  let ?m = "session_run sha es []"
  have inv: "sessions_inv ?m" using session_run_inv [of "[]" sha es] by (simp add: sessions_inv_def)
  have "fst (session_scan (hash_token sha token) now ?m) = Some c" using assms by (simp add: session_authenticate_def split: if_splits)
  then obtain i x where x: "(i, x) \<in> set (snd (session_scan (hash_token sha token) now ?m))" "ss_public x = c"
    "ss_token_digest x = hash_token sha token" "\<not> session_expired x now" using scan_found by blast
  have g: "map_get ?m i = Some x" using x(1) scan_sublist inv map_get_mem by (fastforce simp: sessions_inv_def)
  then have "session_ok i x" using inv by (simp add: sessions_inv_def)
  then obtain t where t: "cs_id c = i" "cs_issued_at c = Iso t" "now < t + 5 * 60 * 1000"
    using x(2,4) by (auto simp: session_ok_def session_expired_def control_session_ttl_ms_def)
  from stored_minted [OF g] x(2,3) t show ?thesis unfolding minted_in_def by fastforce
qed

section \<open>The burst limit\<close>

definition burst_time :: "string \<Rightarrow> session_event \<Rightarrow> int option" where
  "burst_time i e = (case e of Consumes j now \<Rightarrow> if j = i then Some now else None | _ \<Rightarrow> None)"

definition burst_view :: "string \<Rightarrow> control_sessions \<Rightarrow> (nat \<times> int) option" where
  "burst_view i m = map_option (\<lambda>x. (ss_request_count x, ss_reset_at_ms x)) (map_get m i)"

text \<open>The random identifier of another session is another one.\<close>

definition mints_other :: "string \<Rightarrow> session_event \<Rightarrow> bool" where
  "mints_other i e \<longleftrightarrow> (case e of Mints a t tr ir \<Rightarrow> ''cs_'' @ ir \<noteq> i | _ \<Rightarrow> True)"

lemma burst_gone: "burst_view i m = None \<longleftrightarrow> map_get m i = None"
  by (simp add: burst_view_def)

lemma burst_untouched:
  assumes "keys_distinct m" "burst_time i e = None" "mints_other i e"
  shows "map_get (snd (session_step sha e m)) i \<in> {None, map_get m i}"
proof (cases e)
  case (Mints a t tr ir)
  then show ?thesis using assms(3) by (auto simp: mints_other_def map_get_set split: option.splits elim!: mint_cases)
next
  case (Presents token now)
  then show ?thesis using authenticate_get [OF assms(1), of sha token now i] by (simp only: presents_state)
next
  case (Consumes j now)
  obtain b m' where c: "consume_burst j now m = (b, m')" by (cases "consume_burst j now m")
  have "j \<noteq> i" using assms(2) Consumes by (auto simp: burst_time_def)
  moreover have "snd (session_step sha e m) = m'" by (simp add: Consumes c)
  ultimately show ?thesis using c by (auto simp: map_get_set map_get_delete elim!: consume_cases)
qed (simp_all add: session_revoke_def session_revoke_all_def map_get_delete)

interpretation burst: fixed_window "session_step sha" "burst_time i" "mints_other i" keys_distinct "burst_view i"
    "\<lambda>m. map_get m i = None" 10 60000
  for sha i
proof (unfold_locales, goal_cases)
  case (1 s e)
  then show ?case by (rule_tac session_step_keys)
next
  case (2 m e t)
  then have e: "e = Consumes i t" by (auto simp: burst_time_def split: session_event.splits if_splits)
  obtain b m' where c: "consume_burst i t m = (b, m')" by (cases "consume_burst i t m")
  from c show ?case by (cases rule: consume_cases)
    (use 2 e c in \<open>auto simp: burst_view_def map_get_set control_session_burst_window_ms_def\<close>)
next
  case (3 m e t c r)
  then have e: "e = Consumes i t" by (auto simp: burst_time_def split: session_event.splits if_splits)
  obtain b m' where c: "consume_burst i t m = (b, m')" by (cases "consume_burst i t m")
  from c show ?case by (cases rule: consume_cases)
    (use 3 e c in \<open>auto simp: burst_view_def map_get_set control_session_burst_max_def\<close>)
next
  case (4 m e t)
  then have e: "e = Consumes i t" by (auto simp: burst_time_def split: session_event.splits if_splits)
  obtain b m' where c: "consume_burst i t m = (b, m')" by (cases "consume_burst i t m")
  from c show ?case by (cases rule: consume_cases)
    (use 4 e c in \<open>auto simp: burst_view_def map_get_set map_get_delete control_session_burst_max_def split: if_splits\<close>)
next
  case (5 m e)
  then show ?case using burst_untouched [of m i e sha] by (auto simp: burst_view_def)
next
  case (6 m e t)
  then show ?case by (auto simp: burst_time_def consume_burst_def split: session_event.splits if_splits)
next
  case (7 m e)
  then show ?case by (cases "burst_time i e")
    (use burst_untouched [of m i e sha] in \<open>auto simp: burst_time_def consume_burst_def split: session_event.splits if_splits\<close>)
qed simp_all

text \<open>
  Whatever else happens to the sessions, at most twenty requests of one control session get past its burst
  limit in any minute.
\<close>

lemma control_session_burst_bounded:
  assumes "\<forall>e \<in> set es. mints_other i e \<and> (case burst_time i e of None \<Rightarrow> True | Some t \<Rightarrow> a \<le> t \<and> t < a + 60000)"
  shows "length (filter (\<lambda>(e, ok). burst_time i e \<noteq> None \<and> ok) (outcomes (session_step sha) es (session_run sha es0 []))) \<le> 20"
  using burst.admitted_in_period [of "session_run sha es0 []" i a es sha] assms session_run_inv [of "[]" sha es0]
  by (simp add: burst.in_period_def burst.admitted_outcomes sessions_inv_def)

section \<open>A concrete session\<close>

lemma sample_session_authenticates:
  "fst (session_authenticate (\<lambda>x. x) ''ocs_t'' 200000
     (session_run (\<lambda>x. x) [Mints (Scope_argument Control_verify) 1000 ''t'' ''1'', Consumes ''cs_1'' 2000] [])) =
   Some \<lparr>cs_id = ''cs_1'', cs_scope = Control_verify, cs_actor_id = ''local-owner'', cs_actor_kind = ''owner'', cs_authority = ''L3'',
     cs_issued_at = Iso 1000, cs_expires_at = Iso 301000\<rparr>"
  by code_simp

lemma control_session_authentic_witness:
  "\<exists>es1 a t tr ir es2. [Mints (Scope_argument Control_verify) 1000 ''t'' ''1'', Consumes ''cs_1'' 2000] = es1 @ Mints a t tr ir # es2 \<and>
     200000 < mint_now a t + 5 * 60 * 1000"
  using control_session_authentic [OF sample_session_authenticates] by blast

end
