(* ===== verification/Capability.thy ===== *)
theory Capability
  imports Canonical
begin

text \<open>
  Capability contracts (\<open>src/brain-server/src/capabilities/contracts.ts\<close>): identifier
  patterns, enums, evidence requirements and the schema of a capability definition. The
  lemmas give the shape of a definition the schema accepts.
\<close>

section \<open>Identifiers\<close>

definition dot :: "char \<Rightarrow> bool" where
  "dot c \<longleftrightarrow> c = CHR ''.''"

definition lower_ident :: "(char \<Rightarrow> bool) \<Rightarrow> string \<Rightarrow> bool" where
  "lower_ident P s = (case s of [] \<Rightarrow> False | c # cs \<Rightarrow> is_lower c \<and> list_all P cs)"

definition lower_or_digit :: "char \<Rightarrow> bool" where
  "lower_or_digit c \<longleftrightarrow> is_lower c \<or> is_digit c"

definition capability_id_ok :: "string \<Rightarrow> bool" where
  "capability_id_ok s = (let segs = split_on dot s in
     list_all (lower_ident lower_or_digit) segs \<and> 3 \<le> length segs \<and> length segs \<le> 5)"

definition numeric_ok :: "string \<Rightarrow> bool" where
  "numeric_ok s \<longleftrightarrow> s = ''0'' \<or> (s \<noteq> [] \<and> list_all is_digit s \<and> hd s \<noteq> CHR ''0'')"

definition semver_ok :: "string \<Rightarrow> bool" where
  "semver_ok s = (let segs = split_on dot s in length segs = 3 \<and> list_all numeric_ok segs)"

definition reserved_transport_prefixes :: "string list" where
  "reserved_transport_prefixes =
     [''cli'', ''mcp'', ''api'', ''http'', ''transport'', ''shell'', ''exec'', ''cmd'']"

definition evidence_class_ok :: "string \<Rightarrow> bool" where
  "evidence_class_ok s = (let segs = split_on dot s in
     list_all (lower_ident (\<lambda>c. lower_or_digit c \<or> c = CHR ''_'' \<or> c = CHR ''-'')) segs \<and>
     2 \<le> length segs \<and> length segs \<le> 4)"

section \<open>Enums\<close>

datatype authority_level = L0 | L1 | L2 | L3
datatype risk_level = Low | Medium | High
datatype side_effect_class = Read_only | Reversible_write | Destructive_write | External_effect
datatype conflict_policy = Reject | Warn | Allow
datatype verification_requirement = NoVerification | Asserted | Verified

fun authority_text :: "authority_level \<Rightarrow> string" where
  "authority_text L0 = ''L0''" | "authority_text L1 = ''L1''"
| "authority_text L2 = ''L2''" | "authority_text L3 = ''L3''"

fun risk_text :: "risk_level \<Rightarrow> string" where
  "risk_text Low = ''low''" | "risk_text Medium = ''medium''" | "risk_text High = ''high''"

fun side_effect_text :: "side_effect_class \<Rightarrow> string" where
  "side_effect_text Read_only = ''read_only''"
| "side_effect_text Reversible_write = ''reversible_write''"
| "side_effect_text Destructive_write = ''destructive_write''"
| "side_effect_text External_effect = ''external_effect''"

fun conflict_policy_text :: "conflict_policy \<Rightarrow> string" where
  "conflict_policy_text Reject = ''reject''" | "conflict_policy_text Warn = ''warn''"
| "conflict_policy_text Allow = ''allow''"

fun verification_text :: "verification_requirement \<Rightarrow> string" where
  "verification_text NoVerification = ''none''" | "verification_text Asserted = ''asserted''"
| "verification_text Verified = ''verified''"

text \<open>The canonical order of verification levels, \<open>none < asserted < verified\<close>.\<close>

fun verification_rank :: "verification_requirement \<Rightarrow> nat" where
  "verification_rank NoVerification = 0"
| "verification_rank Asserted = 1"
| "verification_rank Verified = 2"

lemma verification_rank_inj: "verification_rank a = verification_rank b \<Longrightarrow> a = b"
  by (cases a; cases b) auto

instantiation verification_requirement :: linorder
begin
definition less_eq_verification_requirement :: "verification_requirement \<Rightarrow> verification_requirement \<Rightarrow> bool" where
  "less_eq_verification_requirement a b \<longleftrightarrow> verification_rank a \<le> verification_rank b"
definition less_verification_requirement :: "verification_requirement \<Rightarrow> verification_requirement \<Rightarrow> bool" where
  "less_verification_requirement a b \<longleftrightarrow> verification_rank a < verification_rank b"
instance
  by standard (auto simp: less_eq_verification_requirement_def less_verification_requirement_def
      verification_rank_inj)
end

section \<open>Evidence requirements\<close>

record evidence_requirement =
  req_class :: string
  req_mandatory :: bool
  req_max_age :: "int option"
  req_conflict_policy :: "conflict_policy option"
  req_verification :: "verification_requirement option"

definition evidence_requirement_ok :: "evidence_requirement \<Rightarrow> bool" where
  "evidence_requirement_ok r \<longleftrightarrow> evidence_class_ok (req_class r) \<and>
     opt_ok (\<lambda>a. 0 < a \<and> a \<le> max_safe_integer) (req_max_age r)"

definition effective_conflict_policy :: "evidence_requirement \<Rightarrow> conflict_policy" where
  "effective_conflict_policy r = (case req_conflict_policy r of None \<Rightarrow> Reject | Some p \<Rightarrow> p)"

definition requirement_json :: "evidence_requirement \<Rightarrow> jsval" where
  "requirement_json r = JObj (
     [(''class_id'', JStr (req_class r)), (''mandatory'', JBool (req_mandatory r))]
     @ opt_member ''freshness_policy'' (\<lambda>a. JObj [(''max_age_ms'', JInt a)]) (req_max_age r)
     @ opt_member ''conflict_policy'' (\<lambda>p. JStr (conflict_policy_text p)) (req_conflict_policy r)
     @ opt_member ''verification_requirement'' (\<lambda>v. JStr (verification_text v)) (req_verification r))"

lemma requirement_json_safe [simp]: "is_json_safe (requirement_json r)"
  by (simp add: requirement_json_def)

section \<open>Capability definitions\<close>

record capability_definition =
  cap_id :: string
  cap_version :: string
  cap_description :: string
  cap_input_schema :: json_object
  cap_required_authority :: authority_level
  cap_risk_level :: risk_level
  cap_reversible :: bool
  cap_side_effect_class :: side_effect_class
  cap_required_evidence :: "evidence_requirement list"
  cap_verification_capability :: "string option"
  cap_rollback_capability :: "string option"

definition norm_capability :: "capability_definition \<Rightarrow> capability_definition" where
  "norm_capability c = c\<lparr>cap_description := js_trim (cap_description c)\<rparr>"

definition capability_definition_ok :: "capability_definition \<Rightarrow> bool" where
  "capability_definition_ok c \<longleftrightarrow>
     capability_id_ok (cap_id c) \<and> semver_ok (cap_version c) \<and> len_ok 2000 (cap_description c) \<and>
     json_object_ok (cap_input_schema c) \<and>
     list_all evidence_requirement_ok (cap_required_evidence c) \<and> length (cap_required_evidence c) \<le> 100 \<and>
     opt_ok capability_id_ok (cap_verification_capability c) \<and>
     opt_ok capability_id_ok (cap_rollback_capability c) \<and>
     hd (split_on dot (cap_id c)) \<notin> set reserved_transport_prefixes \<and>
     distinct (map req_class (cap_required_evidence c)) \<and>
     (cap_rollback_capability c \<noteq> None \<longrightarrow> cap_reversible c) \<and>
     cap_rollback_capability c \<noteq> Some (cap_id c) \<and>
     cap_verification_capability c \<noteq> Some (cap_id c) \<and>
     (if cap_side_effect_class c = Read_only
      then cap_risk_level c = Low \<and> \<not> cap_reversible c \<and> cap_rollback_capability c = None
      else cap_verification_capability c \<noteq> None \<and>
        (cap_side_effect_class c = Reversible_write \<longrightarrow> cap_reversible c) \<and>
        (cap_side_effect_class c = Destructive_write \<longrightarrow> \<not> cap_reversible c))"

definition parse_capability :: "capability_definition \<Rightarrow> capability_definition option" where
  "parse_capability = parse_with norm_capability capability_definition_ok"

lemma parse_capability_idem: "parse_capability c = Some d \<Longrightarrow> parse_capability d = Some d"
  by (auto simp: parse_capability_def parse_with_Some norm_capability_def)

text \<open>A capability the schema accepts: what its side-effect class says about the rest.\<close>

lemma capability_write_verified:
  "capability_definition_ok c \<Longrightarrow> cap_side_effect_class c \<noteq> Read_only \<Longrightarrow>
   cap_verification_capability c \<noteq> None"
  by (simp add: capability_definition_ok_def)

lemma capability_read_only:
  "capability_definition_ok c \<Longrightarrow> cap_side_effect_class c = Read_only \<Longrightarrow>
   cap_risk_level c = Low \<and> \<not> cap_reversible c \<and> cap_rollback_capability c = None"
  by (simp add: capability_definition_ok_def)

end
