(* ===== verification/Execution.thy ===== *)
theory Execution
  imports Capability
begin

text \<open>
  Execution plans and evidence coverage (\<open>src/brain-server/src/execution/contracts.ts\<close>):
  the schemas of risk snapshots, coverage snapshots, approval references and plans, the
  fail-closed coverage assessment, plan expiry and the validation of a plan against the
  capability it references. An error message is represented by its kind and the values it
  interpolates; a validation issue by its path.
\<close>

section \<open>Enums and bounds\<close>

datatype execution_plan_state =
    Draft | Awaiting_approval | Ready | Executing | Succeeded | Failed | Blocked | Cancelled

definition executable_plan_states :: "execution_plan_state list" where
  "executable_plan_states = [Ready, Executing]"

definition approval_required_states :: "execution_plan_state list" where
  "approval_required_states = [Ready, Executing, Succeeded, Failed]"

definition pre_approval_states :: "execution_plan_state list" where
  "pre_approval_states = [Draft, Awaiting_approval, Blocked, Cancelled]"

datatype evidence_status = Present | Missing | Stale | Conflicted | Unverified

fun evidence_status_text :: "evidence_status \<Rightarrow> string" where
  "evidence_status_text Present = ''present''" | "evidence_status_text Missing = ''missing''"
| "evidence_status_text Stale = ''stale''" | "evidence_status_text Conflicted = ''conflicted''"
| "evidence_status_text Unverified = ''unverified''"

definition plan_id_ok :: "string \<Rightarrow> bool" where
  "plan_id_ok s = (case s of [] \<Rightarrow> False
     | c # cs \<Rightarrow> is_alnum c \<and> list_all (\<lambda>x. is_alnum x \<or> x = CHR ''_'' \<or> x = CHR ''-'') cs \<and>
         7 \<le> length cs \<and> length cs \<le> 199)"

definition adapter_id_ok :: "string \<Rightarrow> bool" where
  "adapter_id_ok s = (case split_on (\<lambda>c. c = CHR ''.'' \<or> c = CHR ''-'') s of [] \<Rightarrow> False
     | x # xs \<Rightarrow> lower_ident lower_or_digit x \<and> list_all (\<lambda>y. y \<noteq> [] \<and> list_all lower_or_digit y) xs)"

definition timeout_ok :: "int \<Rightarrow> bool" where
  "timeout_ok ms \<longleftrightarrow> 100 \<le> ms \<and> ms \<le> 86400000"

definition forbidden_input_keys :: "string list" where
  "forbidden_input_keys =
     [''shell'', ''command'', ''exec'', ''bash'', ''powershell'', ''cmd'', ''cmdline'', ''script'']"

definition no_forbidden_key :: "json_object \<Rightarrow> bool" where
  "no_forbidden_key inputs = list_all (\<lambda>k. k \<notin> fst ` set inputs) forbidden_input_keys"

section \<open>Risk snapshot\<close>

record risk_snapshot =
  risk_level :: risk_level
  risk_reversible :: bool
  risk_side_effect_class :: side_effect_class
  risk_required_authority :: authority_level
  risk_capability_version :: string

definition risk_snapshot_ok :: "risk_snapshot \<Rightarrow> bool" where
  "risk_snapshot_ok r \<longleftrightarrow> semver_ok (risk_capability_version r) \<and>
     \<not> (risk_side_effect_class r = Read_only \<and> risk_reversible r) \<and>
     \<not> (risk_side_effect_class r = Reversible_write \<and> \<not> risk_reversible r) \<and>
     \<not> (risk_side_effect_class r = Destructive_write \<and> risk_reversible r)"

definition risk_json :: "risk_snapshot \<Rightarrow> jsval" where
  "risk_json r = JObj
     [(''risk_level'', JStr (risk_text (risk_level r))), (''reversible'', JBool (risk_reversible r)),
      (''side_effect_class'', JStr (side_effect_text (risk_side_effect_class r))),
      (''required_authority'', JStr (authority_text (risk_required_authority r))),
      (''capability_version'', JStr (risk_capability_version r))]"

section \<open>Evidence coverage\<close>

record coverage_entry =
  cov_class :: string
  cov_status :: evidence_status
  cov_level :: verification_requirement
  cov_evidence_ids :: "string list"
  cov_checked_at :: timestamp
  cov_stale_since :: "timestamp option"
  cov_conflict_ids :: "string list option"
  cov_note :: "string option"

definition norm_entry :: "coverage_entry \<Rightarrow> coverage_entry" where
  "norm_entry e = e\<lparr>cov_evidence_ids := map js_trim (cov_evidence_ids e),
     cov_conflict_ids := map_option (map js_trim) (cov_conflict_ids e)\<rparr>"

text \<open>The constraints that depend on the status of the entry.\<close>

definition entry_status_ok :: "coverage_entry \<Rightarrow> bool" where
  "entry_status_ok e = (case cov_status e of
     Present \<Rightarrow> cov_evidence_ids e \<noteq> [] \<and> cov_conflict_ids e = None \<and> cov_stale_since e = None
   | Missing \<Rightarrow> cov_evidence_ids e = [] \<and> cov_conflict_ids e = None \<and> cov_stale_since e = None
   | Stale \<Rightarrow> cov_evidence_ids e \<noteq> [] \<and> cov_stale_since e \<noteq> None
   | Conflicted \<Rightarrow> cov_evidence_ids e \<noteq> [] \<and> (case cov_conflict_ids e of None \<Rightarrow> False
       | Some cs \<Rightarrow> cs \<noteq> [] \<and> list_all (\<lambda>i. i \<notin> set (cov_evidence_ids e)) cs)
   | Unverified \<Rightarrow> cov_evidence_ids e \<noteq> [])"

definition coverage_entry_ok :: "coverage_entry \<Rightarrow> bool" where
  "coverage_entry_ok e \<longleftrightarrow> evidence_class_ok (cov_class e) \<and>
     list_all (len_ok 500) (cov_evidence_ids e) \<and> length (cov_evidence_ids e) \<le> 1000 \<and>
     opt_ok (\<lambda>cs. list_all (len_ok 500) cs \<and> length cs \<le> 1000 \<and> distinct cs) (cov_conflict_ids e) \<and>
     opt_ok (\<lambda>n. length n \<le> 2000) (cov_note e) \<and>
     distinct (cov_evidence_ids e) \<and> entry_status_ok e"

type_synonym coverage_snapshot = "coverage_entry list"

definition coverage_snapshot_ok :: "coverage_snapshot \<Rightarrow> bool" where
  "coverage_snapshot_ok es \<longleftrightarrow> list_all coverage_entry_ok es \<and> length es \<le> 1000 \<and> distinct (map cov_class es)"

definition parse_coverage :: "coverage_snapshot \<Rightarrow> coverage_snapshot option" where
  "parse_coverage = parse_with (map norm_entry) coverage_snapshot_ok"

definition entry_json :: "coverage_entry \<Rightarrow> jsval" where
  "entry_json e = JObj (
     [(''evidence_class'', JStr (cov_class e)), (''status'', JStr (evidence_status_text (cov_status e))),
      (''verification_level'', JStr (verification_text (cov_level e))),
      (''evidence_ids'', JArr (map JStr (cov_evidence_ids e))), (''checked_at'', JTime (cov_checked_at e))]
     @ opt_member ''stale_since'' JTime (cov_stale_since e)
     @ opt_member ''conflict_evidence_ids'' (\<lambda>cs. JArr (map JStr cs)) (cov_conflict_ids e)
     @ opt_member ''note'' JStr (cov_note e))"

definition coverage_json :: "coverage_snapshot \<Rightarrow> jsval" where
  "coverage_json es = JObj [(''entries'', JArr (map entry_json es))]"

section \<open>Approval reference, verification plan, rollback plan\<close>

record approval_reference =
  ref_approval_id :: string
  ref_plan_id :: string
  ref_granted_by :: string
  ref_granted_at :: timestamp
  ref_policy_version :: string
  ref_token_reference :: string
  ref_token_digest :: string

definition norm_reference :: "approval_reference \<Rightarrow> approval_reference" where
  "norm_reference r = r\<lparr>ref_approval_id := js_trim (ref_approval_id r),
     ref_granted_by := js_trim (ref_granted_by r), ref_policy_version := js_trim (ref_policy_version r),
     ref_token_reference := js_trim (ref_token_reference r), ref_token_digest := js_trim (ref_token_digest r)\<rparr>"

definition approval_reference_ok :: "approval_reference \<Rightarrow> bool" where
  "approval_reference_ok r \<longleftrightarrow> len_ok 200 (ref_approval_id r) \<and> plan_id_ok (ref_plan_id r) \<and>
     len_ok 200 (ref_granted_by r) \<and> len_ok 50 (ref_policy_version r) \<and>
     len_ok 500 (ref_token_reference r) \<and> len_ok 500 (ref_token_digest r)"

definition parse_reference :: "approval_reference \<Rightarrow> approval_reference option" where
  "parse_reference = parse_with norm_reference approval_reference_ok"

text \<open>\<open>VerificationPlanSchema\<close> and \<open>RollbackPlanSchema\<close> have the same shape: a capability, its inputs, a description.\<close>

record follow_up_plan =
  fup_capability_id :: string
  fup_inputs :: json_object
  fup_description :: "string option"

definition follow_up_plan_ok :: "follow_up_plan \<Rightarrow> bool" where
  "follow_up_plan_ok p \<longleftrightarrow> capability_id_ok (fup_capability_id p) \<and> json_object_ok (fup_inputs p) \<and>
     opt_ok (\<lambda>d. length d \<le> 2000) (fup_description p)"

definition verification_plan_json :: "follow_up_plan \<Rightarrow> jsval" where
  "verification_plan_json p = JObj (
     [(''verification_capability_id'', JStr (fup_capability_id p)), (''verification_inputs'', JObj (fup_inputs p))]
     @ opt_member ''description'' JStr (fup_description p))"

definition rollback_plan_json :: "follow_up_plan \<Rightarrow> jsval" where
  "rollback_plan_json p = JObj (
     [(''rollback_capability_id'', JStr (fup_capability_id p)), (''rollback_inputs'', JObj (fup_inputs p))]
     @ opt_member ''description'' JStr (fup_description p))"

section \<open>Execution plan\<close>

record execution_plan =
  plan_id :: string
  plan_decision_id :: string
  plan_capability_id :: string
  plan_capability_version :: string
  plan_adapter_id :: string
  plan_normalized_inputs :: json_object
  plan_required_approval :: bool
  plan_approval :: "approval_reference option"
  plan_risk :: risk_snapshot
  plan_coverage :: coverage_snapshot
  plan_timeout_ms :: int
  plan_verification_plan :: "follow_up_plan option"
  plan_rollback_plan :: "follow_up_plan option"
  plan_state :: execution_plan_state
  plan_created_at :: timestamp
  plan_expires_at :: "timestamp option"
  plan_correlation_id :: "string option"
  plan_requested_by :: "string option"

definition norm_plan :: "execution_plan \<Rightarrow> execution_plan" where
  "norm_plan p = p\<lparr>plan_decision_id := js_trim (plan_decision_id p),
     plan_approval := map_option norm_reference (plan_approval p),
     plan_coverage := map norm_entry (plan_coverage p),
     plan_correlation_id := map_option js_trim (plan_correlation_id p),
     plan_requested_by := map_option js_trim (plan_requested_by p)\<rparr>"

definition plan_fields_ok :: "execution_plan \<Rightarrow> bool" where
  "plan_fields_ok p \<longleftrightarrow> plan_id_ok (plan_id p) \<and> len_ok 200 (plan_decision_id p) \<and>
     capability_id_ok (plan_capability_id p) \<and> semver_ok (plan_capability_version p) \<and>
     adapter_id_ok (plan_adapter_id p) \<and> json_object_ok (plan_normalized_inputs p) \<and>
     opt_ok approval_reference_ok (plan_approval p) \<and> risk_snapshot_ok (plan_risk p) \<and>
     coverage_snapshot_ok (plan_coverage p) \<and> timeout_ok (plan_timeout_ms p) \<and>
     opt_ok follow_up_plan_ok (plan_verification_plan p) \<and> opt_ok follow_up_plan_ok (plan_rollback_plan p) \<and>
     opt_ok (len_ok 200) (plan_correlation_id p) \<and> opt_ok (len_ok 200) (plan_requested_by p)"

definition plan_refinements_ok :: "execution_plan \<Rightarrow> bool" where
  "plan_refinements_ok p \<longleftrightarrow> no_forbidden_key (plan_normalized_inputs p) \<and>
     \<not> (case plan_expires_at p of None \<Rightarrow> False | Some e \<Rightarrow> ts_le e (plan_created_at p)) \<and>
     \<not> (plan_state p = Awaiting_approval \<and> \<not> plan_required_approval p) \<and>
     opt_ok (\<lambda>a. ref_plan_id a = plan_id p \<and> plan_required_approval p) (plan_approval p) \<and>
     \<not> (plan_required_approval p \<and> plan_state p \<in> set approval_required_states \<and> plan_approval p = None) \<and>
     \<not> (plan_state p \<in> set pre_approval_states \<and> plan_approval p \<noteq> None) \<and>
     \<not> (risk_side_effect_class (plan_risk p) = Read_only \<and> plan_rollback_plan p \<noteq> None) \<and>
     \<not> (risk_side_effect_class (plan_risk p) \<noteq> Read_only \<and> plan_verification_plan p = None) \<and>
     \<not> (plan_rollback_plan p \<noteq> None \<and> \<not> risk_reversible (plan_risk p))"

definition execution_plan_ok :: "execution_plan \<Rightarrow> bool" where
  "execution_plan_ok p \<longleftrightarrow> plan_fields_ok p \<and> plan_refinements_ok p"

definition parse_plan :: "execution_plan \<Rightarrow> execution_plan option" where
  "parse_plan = parse_with norm_plan execution_plan_ok"

section \<open>Coverage assessment\<close>

datatype finding =
    Not_checked string
  | Level_not_met string evidence_status verification_requirement verification_requirement
  | Stale_evidence string
  | Conflict_rejected string bool
  | Conflict_tolerated string
  | Unverified_evidence string verification_requirement
  | Missing_evidence string

record assessment_entry =
  ae_class :: string
  ae_status :: "evidence_status option"
  ae_level :: verification_requirement
  ae_satisfied :: bool

record assessment =
  as_entries :: "assessment_entry list"
  as_mandatory_satisfied :: bool
  as_missing_mandatory :: "string list"
  as_blocking_reasons :: "finding list"
  as_warnings :: "finding list"
  as_non_blocking :: "finding list"

text \<open>The \<open>Map\<close> by class: of several entries of a class the last one counts.\<close>

definition entry_by_class :: "coverage_snapshot \<Rightarrow> string \<Rightarrow> coverage_entry option" where
  "entry_by_class es = map_of (rev (map (\<lambda>e. (cov_class e, e)) es))"

definition level_ok :: "evidence_requirement \<Rightarrow> coverage_entry \<Rightarrow> bool" where
  "level_ok r e \<longleftrightarrow> verification_rank (case req_verification r of None \<Rightarrow> NoVerification | Some v \<Rightarrow> v)
     \<le> verification_rank (cov_level e)"

text \<open>One iteration: the assessed entry, the reason \<open>fail\<close> was called with, and the warning.\<close>

definition assess_status :: "evidence_requirement \<Rightarrow> coverage_entry \<Rightarrow> bool \<times> finding option \<times> finding option" where
  "assess_status r e = (let need = (case req_verification r of None \<Rightarrow> NoVerification | Some v \<Rightarrow> v);
       ok = level_ok r e; low = Level_not_met (req_class r) (cov_status e) need (cov_level e) in
     case cov_status e of
       Present \<Rightarrow> (ok, if ok then None else Some low, None)
     | Stale \<Rightarrow> (False, Some (Stale_evidence (req_class r)), None)
     | Conflicted \<Rightarrow>
         (case effective_conflict_policy r of
            Reject \<Rightarrow> (False, Some (Conflict_rejected (req_class r) (req_conflict_policy r = None)), None)
          | Warn \<Rightarrow> (ok, if ok then None else Some low, if ok then Some (Conflict_tolerated (req_class r)) else None)
          | Allow \<Rightarrow> (ok, if ok then None else Some low, None))
     | Unverified \<Rightarrow> (False, Some (Unverified_evidence (req_class r) need), None)
     | Missing \<Rightarrow> (False, Some (Missing_evidence (req_class r)), None))"

definition assess_one :: "coverage_snapshot \<Rightarrow> evidence_requirement \<Rightarrow> assessment_entry \<times> finding option \<times> finding option" where
  "assess_one es r = (case entry_by_class es (req_class r) of
     None \<Rightarrow> (\<lparr>ae_class = req_class r, ae_status = None, ae_level = NoVerification, ae_satisfied = False\<rparr>,
       Some (Not_checked (req_class r)), None)
   | Some e \<Rightarrow> (case assess_status r e of (sat, reason, warning) \<Rightarrow>
       (\<lparr>ae_class = req_class r, ae_status = Some (cov_status e), ae_level = cov_level e, ae_satisfied = sat\<rparr>,
        reason, warning)))"

definition assess_step :: "coverage_snapshot \<Rightarrow> evidence_requirement \<Rightarrow> assessment \<Rightarrow> assessment" where
  "assess_step es r a = (case assess_one es r of (entry, reason, warning) \<Rightarrow>
     a\<lparr>as_entries := as_entries a @ [entry],
       as_missing_mandatory := as_missing_mandatory a @
         (if req_mandatory r \<and> \<not> ae_satisfied entry then [req_class r] else []),
       as_blocking_reasons := as_blocking_reasons a @
         (case reason of None \<Rightarrow> [] | Some f \<Rightarrow> if req_mandatory r then [f] else []),
       as_warnings := as_warnings a @ (case warning of None \<Rightarrow> [] | Some f \<Rightarrow> [f]),
       as_non_blocking := as_non_blocking a @
         (case reason of None \<Rightarrow> [] | Some f \<Rightarrow> if req_mandatory r then [] else [f])\<rparr>)"

definition assess_evidence_coverage :: "evidence_requirement list \<Rightarrow> coverage_snapshot \<Rightarrow> assessment" where
  "assess_evidence_coverage reqs es = (let a = fold (assess_step es) reqs
       \<lparr>as_entries = [], as_mandatory_satisfied = False, as_missing_mandatory = [],
        as_blocking_reasons = [], as_warnings = [], as_non_blocking = []\<rparr> in
     a\<lparr>as_mandatory_satisfied := (as_missing_mandatory a = [])\<rparr>)"

section \<open>Expiry and validation against the registry\<close>

text \<open>\<open>now\<close> is the millisecond reading of the injected clock or timestamp, \<open>None\<close> for \<open>NaN\<close>.\<close>

definition is_execution_plan_expired :: "execution_plan \<Rightarrow> int option \<Rightarrow> bool" where
  "is_execution_plan_expired p now =
     (case plan_expires_at p of None \<Rightarrow> False | Some e \<Rightarrow> num_le (date_parse e) now)"

type_synonym lookup = "string \<Rightarrow> capability_definition option"

definition when_issue :: "bool \<Rightarrow> string \<Rightarrow> string list" where
  "when_issue b path = (if b then [path] else [])"

definition follow_up_issues ::
  "lookup \<Rightarrow> string option \<Rightarrow> follow_up_plan option \<Rightarrow> string \<Rightarrow> string \<Rightarrow> string list" where
  "follow_up_issues lookup declared fup path path_id = (case fup of None \<Rightarrow> [] | Some p \<Rightarrow>
     (case declared of None \<Rightarrow> [path] | Some d \<Rightarrow>
        if fup_capability_id p \<noteq> d then [path_id]
        else if lookup (fup_capability_id p) = None then [path_id] else []))"

definition validate_execution_plan :: "execution_plan \<Rightarrow> lookup \<Rightarrow> string list" where
  "validate_execution_plan p lookup = (case lookup (plan_capability_id p) of
     None \<Rightarrow> [''capability_id'']
   | Some c \<Rightarrow> (let r = plan_risk p in
       when_issue (plan_capability_version p \<noteq> cap_version c) ''capability_version''
       @ when_issue (risk_capability_version r \<noteq> plan_capability_version p) ''risk_snapshot.capability_version''
       @ when_issue (risk_capability_version r \<noteq> cap_version c) ''risk_snapshot.capability_version''
       @ when_issue (cap_risk_level c \<noteq> risk_level r) ''risk_snapshot.risk_level''
       @ when_issue (cap_reversible c \<noteq> risk_reversible r) ''risk_snapshot.reversible''
       @ when_issue (cap_side_effect_class c \<noteq> risk_side_effect_class r) ''risk_snapshot.side_effect_class''
       @ when_issue (cap_required_authority c \<noteq> risk_required_authority r) ''risk_snapshot.required_authority''
       @ follow_up_issues lookup (cap_verification_capability c) (plan_verification_plan p)
           ''verification_plan'' ''verification_plan.verification_capability_id''
       @ follow_up_issues lookup (cap_rollback_capability c) (plan_rollback_plan p)
           ''rollback_plan'' ''rollback_plan.rollback_capability_id''
       @ when_issue (plan_state p \<in> set executable_plan_states \<and>
           \<not> as_mandatory_satisfied (assess_evidence_coverage (cap_required_evidence c) (plan_coverage p)))
           ''evidence_coverage_snapshot''))"


section \<open>Correctness of the assessment\<close>

text \<open>The declarative reading of satisfaction, per requirement.\<close>

definition satisfied_by :: "coverage_snapshot \<Rightarrow> evidence_requirement \<Rightarrow> bool" where
  "satisfied_by es r = (case entry_by_class es (req_class r) of None \<Rightarrow> False
     | Some e \<Rightarrow> level_ok r e \<and>
         (cov_status e = Present \<or> (cov_status e = Conflicted \<and> effective_conflict_policy r \<noteq> Reject)))"

lemma assess_one_satisfied: "ae_satisfied (fst (assess_one es r)) \<longleftrightarrow> satisfied_by es r"
  by (auto simp: assess_one_def satisfied_by_def assess_status_def Let_def
      split: option.splits evidence_status.splits conflict_policy.splits)

lemma assess_one_class: "ae_class (fst (assess_one es r)) = req_class r"
  by (auto simp: assess_one_def split: option.splits prod.splits)

lemma assess_one_reason: "fst (snd (assess_one es r)) = None \<longleftrightarrow> satisfied_by es r"
  by (auto simp: assess_one_def satisfied_by_def assess_status_def Let_def
      split: option.splits evidence_status.splits conflict_policy.splits)

lemma assess_step_effect:
  "as_entries (assess_step es r a) = as_entries a @ [fst (assess_one es r)]"
  "as_missing_mandatory (assess_step es r a) = as_missing_mandatory a @
     (if req_mandatory r \<and> \<not> satisfied_by es r then [req_class r] else [])"
  "as_blocking_reasons (assess_step es r a) = as_blocking_reasons a @
     (if req_mandatory r \<and> \<not> satisfied_by es r then [the (fst (snd (assess_one es r)))] else [])"
  "as_non_blocking (assess_step es r a) = as_non_blocking a @
     (if \<not> req_mandatory r \<and> \<not> satisfied_by es r then [the (fst (snd (assess_one es r)))] else [])"
  using assess_one_satisfied [of es r] assess_one_reason [of es r]
  by (cases "assess_one es r"; cases "fst (snd (assess_one es r))"; simp add: assess_step_def)+

lemma assess_fold:
  fixes a :: assessment
  shows "as_entries (fold (assess_step es) rs a) = as_entries a @ map (\<lambda>r. fst (assess_one es r)) rs"
    and "as_missing_mandatory (fold (assess_step es) rs a) =
      as_missing_mandatory a @ map req_class (filter (\<lambda>r. req_mandatory r \<and> \<not> satisfied_by es r) rs)"
    and "as_blocking_reasons (fold (assess_step es) rs a) = as_blocking_reasons a @
      map (\<lambda>r. the (fst (snd (assess_one es r)))) (filter (\<lambda>r. req_mandatory r \<and> \<not> satisfied_by es r) rs)"
    and "as_non_blocking (fold (assess_step es) rs a) = as_non_blocking a @
      map (\<lambda>r. the (fst (snd (assess_one es r)))) (filter (\<lambda>r. \<not> req_mandatory r \<and> \<not> satisfied_by es r) rs)"
  by (induction rs arbitrary: a) (simp_all add: assess_step_effect)

lemma assess_entries:
  "as_entries (assess_evidence_coverage rs es) = map (\<lambda>r. fst (assess_one es r)) rs"
  by (simp add: assess_evidence_coverage_def Let_def assess_fold)

lemma assess_missing:
  "as_missing_mandatory (assess_evidence_coverage rs es) =
   map req_class (filter (\<lambda>r. req_mandatory r \<and> \<not> satisfied_by es r) rs)"
  by (simp add: assess_evidence_coverage_def Let_def assess_fold)

lemma assess_blocking:
  "as_blocking_reasons (assess_evidence_coverage rs es) =
   map (\<lambda>r. the (fst (snd (assess_one es r)))) (filter (\<lambda>r. req_mandatory r \<and> \<not> satisfied_by es r) rs)"
  by (simp add: assess_evidence_coverage_def Let_def assess_fold)

lemma assess_mandatory:
  "as_mandatory_satisfied (assess_evidence_coverage rs es) \<longleftrightarrow>
   list_all (satisfied_by es) (filter req_mandatory rs)"
  by (auto simp: assess_evidence_coverage_def Let_def assess_fold list_all_iff filter_empty_conv)

text \<open>C31: The coverage assessment is fail-closed. The mandatory gate is cleared exactly when every
  mandatory requirement has a coverage entry of its class that reaches the required verification
  level and is present, or is conflicted under a declared policy other than reject; a class that
  was not checked, or is missing, stale or unverified, never satisfies. The missing classes are
  exactly the mandatory requirements that fail, and there is a blocking reason exactly when the
  gate is not cleared.\<close>
theorem assessment_fail_closed:
  "(as_mandatory_satisfied (assess_evidence_coverage rs es) \<longleftrightarrow>
     list_all (satisfied_by es) (filter req_mandatory rs)) \<and>
   as_missing_mandatory (assess_evidence_coverage rs es) =
     map req_class (filter (\<lambda>r. req_mandatory r \<and> \<not> satisfied_by es r) rs) \<and>
   (as_blocking_reasons (assess_evidence_coverage rs es) = [] \<longleftrightarrow>
     as_mandatory_satisfied (assess_evidence_coverage rs es))"
  by (auto simp: assess_missing assess_mandatory assess_blocking list_all_iff filter_empty_conv)

text \<open>Optional requirements never gate. Removing every optional requirement changes neither the
  verdict nor the missing classes nor the blocking reasons, and the gaps of optional requirements
  are reported, one finding each, as non-blocking.\<close>
lemma optional_requirements_never_gate:
  "as_mandatory_satisfied (assess_evidence_coverage (filter req_mandatory rs) es) =
     as_mandatory_satisfied (assess_evidence_coverage rs es) \<and>
   as_missing_mandatory (assess_evidence_coverage (filter req_mandatory rs) es) =
     as_missing_mandatory (assess_evidence_coverage rs es) \<and>
   as_blocking_reasons (assess_evidence_coverage (filter req_mandatory rs) es) =
     as_blocking_reasons (assess_evidence_coverage rs es) \<and>
   length (as_non_blocking (assess_evidence_coverage rs es)) =
     length (filter (\<lambda>r. \<not> req_mandatory r \<and> \<not> satisfied_by es r) rs)"
proof -
  have f: "filter (\<lambda>r. req_mandatory r \<and> \<not> satisfied_by es r) (filter req_mandatory rs) =
      filter (\<lambda>r. req_mandatory r \<and> \<not> satisfied_by es r) rs"
    by (simp add: conj_commute conj_left_commute)
  have n: "length (as_non_blocking (assess_evidence_coverage rs es)) =
      length (filter (\<lambda>r. \<not> req_mandatory r \<and> \<not> satisfied_by es r) rs)"
    by (simp add: assess_evidence_coverage_def Let_def assess_fold)
  show ?thesis using f n by (simp add: assess_missing assess_blocking assess_mandatory)
qed

section \<open>What a valid plan guarantees\<close>

lemma when_issue_Nil [simp]: "when_issue b p = [] \<longleftrightarrow> \<not> b"
  by (simp add: when_issue_def)

text \<open>The snapshot of risk of a plan equals the declaration of its capability.\<close>

definition risk_matches :: "risk_snapshot \<Rightarrow> capability_definition \<Rightarrow> bool" where
  "risk_matches r c \<longleftrightarrow> risk_level r = cap_risk_level c \<and> risk_reversible r = cap_reversible c \<and>
     risk_side_effect_class r = cap_side_effect_class c \<and>
     risk_required_authority r = cap_required_authority c \<and> risk_capability_version r = cap_version c"

lemma validated_capability:
  assumes "validate_execution_plan p lookup = []"
  obtains c where "lookup (plan_capability_id p) = Some c" "plan_capability_version p = cap_version c"
    "risk_matches (plan_risk p) c"
  using assms by (auto simp: validate_execution_plan_def risk_matches_def Let_def split: option.splits)

lemma validated_evidence:
  assumes "validate_execution_plan p lookup = []" "lookup (plan_capability_id p) = Some c"
    "plan_state p \<in> set executable_plan_states"
  shows "list_all (satisfied_by (plan_coverage p)) (filter req_mandatory (cap_required_evidence c))"
  using assms by (auto simp: validate_execution_plan_def Let_def assess_mandatory)

lemma validated_follow_up:
  "follow_up_issues lookup declared fup a b = [] \<longleftrightarrow>
   (case fup of None \<Rightarrow> True | Some p \<Rightarrow> declared = Some (fup_capability_id p) \<and> lookup (fup_capability_id p) \<noteq> None)"
  by (auto simp: follow_up_issues_def split: option.splits if_splits)

text \<open>A plan in an executable state that passes the schema and the registry validation is backed
  by its capability: the capability exists at the plan's version, the risk snapshot equals its
  declaration, every mandatory evidence requirement is satisfied, the verification and rollback
  plans use the declared capabilities, a write carries a verification plan, and a plan that requires
  approval carries an approval reference for this very plan.\<close>
lemma executable_plan_backed:
  assumes "execution_plan_ok p" "validate_execution_plan p lookup = []"
    "plan_state p \<in> set executable_plan_states"
  shows "\<exists>c. lookup (plan_capability_id p) = Some c \<and> plan_capability_version p = cap_version c \<and>
    risk_matches (plan_risk p) c \<and>
    list_all (satisfied_by (plan_coverage p)) (filter req_mandatory (cap_required_evidence c)) \<and>
    opt_ok (\<lambda>v. cap_verification_capability c = Some (fup_capability_id v)) (plan_verification_plan p) \<and>
    opt_ok (\<lambda>v. cap_rollback_capability c = Some (fup_capability_id v)) (plan_rollback_plan p) \<and>
    (cap_side_effect_class c = Read_only \<or> plan_verification_plan p \<noteq> None) \<and>
    (if plan_required_approval p then map_option ref_plan_id (plan_approval p) = Some (plan_id p)
     else plan_approval p = None)"
proof -
  obtain c where c: "lookup (plan_capability_id p) = Some c" "plan_capability_version p = cap_version c"
      "risk_matches (plan_risk p) c"
    using validated_capability [OF assms(2)] .
  have fups: "opt_ok (\<lambda>v. cap_verification_capability c = Some (fup_capability_id v)) (plan_verification_plan p)"
    "opt_ok (\<lambda>v. cap_rollback_capability c = Some (fup_capability_id v)) (plan_rollback_plan p)"
    using assms(2) c(1) by (auto simp: validate_execution_plan_def Let_def validated_follow_up split: option.splits)
  have "plan_state p \<in> set approval_required_states"
    using assms(3) by (auto simp: executable_plan_states_def approval_required_states_def)
  then have appr: "if plan_required_approval p then map_option ref_plan_id (plan_approval p) = Some (plan_id p)
     else plan_approval p = None"
    using assms(1) by (cases "plan_approval p") (auto simp: execution_plan_ok_def plan_refinements_ok_def)
  have "cap_side_effect_class c = Read_only \<or> plan_verification_plan p \<noteq> None"
    using assms(1) c(3) by (auto simp: execution_plan_ok_def plan_refinements_ok_def risk_matches_def)
  then show ?thesis using c fups appr validated_evidence [OF assms(2) c(1) assms(3)] by blast
qed

lemma norm_reference_idem [simp]: "norm_reference (norm_reference r) = norm_reference r"
  by (simp add: norm_reference_def)

lemma norm_entry_idem [simp]: "norm_entry (norm_entry e) = norm_entry e"
  by (cases "cov_conflict_ids e") (simp_all add: norm_entry_def comp_def)

lemma entry_by_class_norm: "entry_by_class (map norm_entry es) c = map_option norm_entry (entry_by_class es c)"
proof -
  have "rev (map (\<lambda>e. (cov_class e, e)) (map norm_entry es)) =
      map (\<lambda>(k, e). (k, norm_entry e)) (rev (map (\<lambda>e. (cov_class e, e)) es))"
    by (simp add: rev_map norm_entry_def comp_def)
  then show ?thesis unfolding entry_by_class_def by (simp only: map_of_map comp_apply)
qed

lemma satisfied_by_norm: "satisfied_by (map norm_entry es) = satisfied_by es"
  by (rule ext) (simp add: satisfied_by_def entry_by_class_norm level_ok_def norm_entry_def split: option.splits)

lemma norm_plan_idem [simp]: "norm_plan (norm_plan p) = norm_plan p"
  by (cases "plan_approval p") (simp_all add: norm_plan_def comp_def)

lemma parse_plan_idem: "parse_plan p = Some q \<Longrightarrow> parse_plan q = Some q"
  by (auto simp: parse_plan_def parse_with_Some)

lemma parse_plan_ok: "parse_plan p = Some q \<Longrightarrow> execution_plan_ok q"
  by (auto simp: parse_plan_def parse_with_Some)

lemma parse_plan_norm: "parse_plan p = Some q \<Longrightarrow> q = norm_plan p"
  by (auto simp: parse_plan_def parse_with_Some)

lemma parse_coverage_idem: "parse_coverage es = Some fs \<Longrightarrow> parse_coverage fs = Some fs"
  by (auto simp: parse_coverage_def parse_with_Some comp_def)

lemma coverage_json_safe [simp]: "is_json_safe (coverage_json es)"
  by (simp add: coverage_json_def entry_json_def all_json_safe_iff)

lemma risk_json_safe [simp]: "is_json_safe (risk_json r)"
  by (simp add: risk_json_def)

lemma follow_up_json_safe:
  "is_json_safe (verification_plan_json p) = members_json_safe (fup_inputs p)"
  "is_json_safe (rollback_plan_json p) = members_json_safe (fup_inputs p)"
  by (simp_all add: verification_plan_json_def rollback_plan_json_def)

section \<open>A concrete plan\<close>

definition sample_requirement :: evidence_requirement where
  "sample_requirement = \<lparr>req_class = ''repo.state'', req_mandatory = True, req_max_age = Some 60000,
     req_conflict_policy = None, req_verification = Some Verified\<rparr>"

definition sample_read_capability :: capability_definition where
  "sample_read_capability = \<lparr>cap_id = ''git.branch.read'', cap_version = ''1.0.0'', cap_description = ''read'',
     cap_input_schema = [], cap_required_authority = L0, cap_risk_level = Low, cap_reversible = False,
     cap_side_effect_class = Read_only, cap_required_evidence = [], cap_verification_capability = None,
     cap_rollback_capability = None\<rparr>"

definition sample_capability :: capability_definition where
  "sample_capability = \<lparr>cap_id = ''git.branch.create'', cap_version = ''1.0.0'', cap_description = ''create'',
     cap_input_schema = [], cap_required_authority = L2, cap_risk_level = Medium, cap_reversible = True,
     cap_side_effect_class = Reversible_write, cap_required_evidence = [sample_requirement],
     cap_verification_capability = Some ''git.branch.read'', cap_rollback_capability = None\<rparr>"

definition sample_lookup :: lookup where
  "sample_lookup i = (if i = ''git.branch.create'' then Some sample_capability
     else if i = ''git.branch.read'' then Some sample_read_capability else None)"

definition sample_entry :: coverage_entry where
  "sample_entry = \<lparr>cov_class = ''repo.state'', cov_status = Present, cov_level = Verified,
     cov_evidence_ids = [''e1''], cov_checked_at = Iso 900, cov_stale_since = None,
     cov_conflict_ids = None, cov_note = None\<rparr>"

definition sample_reference :: approval_reference where
  "sample_reference = \<lparr>ref_approval_id = ''n1'', ref_plan_id = ''plan-0001'', ref_granted_by = ''owner'',
     ref_granted_at = Iso 1500, ref_policy_version = ''v1'', ref_token_reference = ''t'', ref_token_digest = ''d''\<rparr>"

definition sample_plan :: execution_plan where
  "sample_plan = \<lparr>plan_id = ''plan-0001'', plan_decision_id = ''dec-1'', plan_capability_id = ''git.branch.create'',
     plan_capability_version = ''1.0.0'', plan_adapter_id = ''git-cli'',
     plan_normalized_inputs = [(''branch'', JStr ''main'')], plan_required_approval = True,
     plan_approval = Some sample_reference,
     plan_risk = \<lparr>risk_level = Medium, risk_reversible = True, risk_side_effect_class = Reversible_write,
       risk_required_authority = L2, risk_capability_version = ''1.0.0''\<rparr>,
     plan_coverage = [sample_entry], plan_timeout_ms = 1000,
     plan_verification_plan = Some \<lparr>fup_capability_id = ''git.branch.read'', fup_inputs = [], fup_description = None\<rparr>,
     plan_rollback_plan = None, plan_state = Ready, plan_created_at = Iso 1000, plan_expires_at = Some (Iso 2000),
     plan_correlation_id = None, plan_requested_by = None\<rparr>"

lemma sample_plan_ok: "execution_plan_ok sample_plan" "validate_execution_plan sample_plan sample_lookup = []"
  "plan_state sample_plan \<in> set executable_plan_states"
  by code_simp+

end
