(* ===== verification/Evidence.thy ===== *)
theory Evidence
  imports Execution
begin

text \<open>
  Evidence candidates, providers and qualification
  (\<open>src/brain-server/src/evidence/model.ts\<close>, \<open>digests.ts\<close>, \<open>provider.ts\<close>,
  \<open>qualification.ts\<close>). The clock of qualification is the injected \<open>now\<close> in milliseconds.
  The theory proves what a qualified candidate guarantees, and that the core-generated
  evidence id binds its five components.
\<close>

section \<open>Digests\<close>

definition hex_char :: "char \<Rightarrow> bool" where
  "hex_char c \<longleftrightarrow> is_digit c \<or> (97 \<le> code c \<and> code c \<le> 102)"

definition sha256_hex_ok :: "string \<Rightarrow> bool" where
  "sha256_hex_ok s \<longleftrightarrow> length s = 64 \<and> list_all hex_char s"

definition claim_digest :: "(string \<Rightarrow> string) \<Rightarrow> jsval \<Rightarrow> evidence_error_code throws + string" where
  "claim_digest sha v = (if is_json_safe v then json_digest sha v else Inl (Throws EVIDENCE_CLAIM_INVALID))"

definition requirements_digest ::
  "(string \<Rightarrow> string) \<Rightarrow> evidence_requirement list \<Rightarrow> evidence_error_code throws + string" where
  "requirements_digest sha rs = (if list_all evidence_requirement_ok rs \<and> length rs \<le> 100
     then json_digest sha (JArr (map requirement_json rs)) else Inl (Throws EVIDENCE_INPUT_INVALID))"

definition normalized_inputs_digest ::
  "(string \<Rightarrow> string) \<Rightarrow> json_object \<Rightarrow> evidence_error_code throws + string" where
  "normalized_inputs_digest sha inputs = (if json_object_ok inputs then json_digest sha (JObj inputs)
     else Inl (Throws EVIDENCE_INPUT_INVALID))"

definition coverage_digest ::
  "(string \<Rightarrow> string) \<Rightarrow> coverage_snapshot \<Rightarrow> evidence_error_code throws + string" where
  "coverage_digest sha es = (case parse_coverage es of None \<Rightarrow> Inl (Throws EVIDENCE_INPUT_INVALID)
     | Some es' \<Rightarrow> json_digest sha (coverage_json es'))"

section \<open>Evidence identifiers\<close>

definition control_char :: "char \<Rightarrow> bool" where
  "control_char c \<longleftrightarrow> code c < 32 \<or> code c = 127"

definition assert_valid_id_component :: "string \<Rightarrow> evidence_error_code throws + unit" where
  "assert_valid_id_component s =
     (if s = [] then Inl (Throws EVIDENCE_INPUT_INVALID)
      else if 10000 < length s then Inl (Throws EVIDENCE_INPUT_INVALID)
      else if list_ex control_char s then Inl (Throws EVIDENCE_INPUT_INVALID)
      else Inr ())"

text \<open>A byte length as four bytes, most significant first; the code writes an unsigned 32-bit integer.\<close>

definition be32 :: "nat \<Rightarrow> string" where
  "be32 n = [char_of (n div 16777216 mod 256), char_of (n div 65536 mod 256),
     char_of (n div 256 mod 256), char_of (n mod 256)]"

definition encode_bytes :: "string list \<Rightarrow> string" where
  "encode_bytes parts = concat (map (\<lambda>f. be32 (length f) @ f) parts)"

definition encode_evidence_id_tuple :: "string list \<Rightarrow> string" where
  "encode_evidence_id_tuple parts = encode_bytes (map utf8 parts)"

fun assert_components :: "string list \<Rightarrow> evidence_error_code throws + unit" where
  "assert_components [] = Inr ()"
| "assert_components (f # fs) = ebind (assert_valid_id_component f) (\<lambda>_. assert_components fs)"

definition build_evidence_id ::
  "(string \<Rightarrow> string) \<Rightarrow> string \<Rightarrow> string \<Rightarrow> string \<Rightarrow> string \<Rightarrow> string \<Rightarrow> evidence_error_code throws + string" where
  "build_evidence_id sha provider cls subject item digest =
     (let parts = [provider, cls, subject, item, digest] in
      ebind (assert_components parts) (\<lambda>_. Inr (sha (encode_evidence_id_tuple parts))))"

section \<open>Candidates and qualified evidence\<close>

record evidence_candidate =
  ec_class :: string
  ec_subject :: string
  ec_claim_key :: string
  ec_claim_value :: jsval
  ec_source_item :: string
  ec_source_reference :: string
  ec_observed_at :: timestamp
  ec_level :: verification_requirement
  ec_source_updated_at :: "timestamp option"
  ec_note :: "string option"
  ec_metadata :: "json_object option"

definition norm_candidate :: "evidence_candidate \<Rightarrow> evidence_candidate" where
  "norm_candidate c = c\<lparr>ec_subject := js_trim (ec_subject c), ec_claim_key := js_trim (ec_claim_key c),
     ec_source_item := js_trim (ec_source_item c), ec_source_reference := js_trim (ec_source_reference c)\<rparr>"

definition candidate_ok :: "evidence_candidate \<Rightarrow> bool" where
  "candidate_ok c \<longleftrightarrow> evidence_class_ok (ec_class c) \<and> len_ok 200 (ec_subject c) \<and> len_ok 200 (ec_claim_key c) \<and>
     is_json_safe (ec_claim_value c) \<and> len_ok 300 (ec_source_item c) \<and> len_ok 1000 (ec_source_reference c) \<and>
     opt_ok (\<lambda>n. length n \<le> 2000) (ec_note c) \<and> opt_ok json_object_ok (ec_metadata c)"

definition parse_candidate :: "evidence_candidate \<Rightarrow> evidence_candidate option" where
  "parse_candidate = parse_with norm_candidate candidate_ok"

record qualified_evidence =
  qe_id :: string
  qe_provider :: string
  qe_class :: string
  qe_subject :: string
  qe_claim_key :: string
  qe_claim_value :: jsval
  qe_claim_digest :: string
  qe_source_item :: string
  qe_source_reference :: string
  qe_observed_at :: timestamp
  qe_source_updated_at :: "timestamp option"
  qe_level :: verification_requirement
  qe_qualified_at :: timestamp
  qe_note :: "string option"

definition parse_evidence_timestamp :: "timestamp \<Rightarrow> evidence_error_code throws + int" where
  "parse_evidence_timestamp t = (case date_parse t of None \<Rightarrow> Inl (Throws EVIDENCE_TIMESTAMP_INVALID)
     | Some ms \<Rightarrow> Inr ms)"

text \<open>
  What a provider hands over is untrusted: a value of another shape, of which the
  diagnostic reference only reads four string fields, or a value with the candidate's shape.
\<close>

record loose_fields =
  lf_class :: string
  lf_subject :: string
  lf_claim_key :: string
  lf_source_item :: string

datatype raw_candidate = Unshaped loose_fields | Candidate evidence_candidate

fun loose :: "raw_candidate \<Rightarrow> loose_fields" where
  "loose (Unshaped f) = f"
| "loose (Candidate c) = \<lparr>lf_class = ec_class c, lf_subject = ec_subject c,
     lf_claim_key = ec_claim_key c, lf_source_item = ec_source_item c\<rparr>"

fun parse_raw_candidate :: "raw_candidate \<Rightarrow> evidence_candidate option" where
  "parse_raw_candidate (Unshaped f) = None"
| "parse_raw_candidate (Candidate c) = parse_candidate c"

section \<open>Providers\<close>

definition provider_id_ok :: "string \<Rightarrow> bool" where
  "provider_id_ok s = (case split_on (\<lambda>c. c = CHR ''-'') s of [] \<Rightarrow> False
     | x # xs \<Rightarrow> lower_ident lower_or_digit x \<and> list_all (\<lambda>y. y \<noteq> [] \<and> list_all lower_or_digit y) xs)"

datatype provider_outcome_v1 =
  Collected | Not_found | Temporary_unavailable | Permanent_unavailable | User_context_required

record provider_metadata =
  pm_id :: string
  pm_version :: string
  pm_classes :: "string list"
  pm_priority :: int
  pm_max_level :: verification_requirement
  pm_description :: "string option"

definition provider_metadata_ok :: "provider_metadata \<Rightarrow> bool" where
  "provider_metadata_ok m \<longleftrightarrow> provider_id_ok (pm_id m) \<and> semver_ok (pm_version m) \<and>
     list_all evidence_class_ok (pm_classes m) \<and> 1 \<le> length (pm_classes m) \<and> length (pm_classes m) \<le> 100 \<and>
     0 \<le> pm_priority m \<and> pm_priority m \<le> 10000 \<and> opt_ok (\<lambda>d. length d \<le> 1000) (pm_description m) \<and>
     distinct (pm_classes m)"

section \<open>Qualification\<close>

datatype qualification_issue =
    Invalid_candidate_schema | Class_mismatch | Subject_mismatch | Verification_escalation
  | Invalid_observed_at | Future_observed_at | Claim_invalid | Invalid_identity_component | Stale_issue

fun issue_text :: "qualification_issue \<Rightarrow> string" where
  "issue_text Invalid_candidate_schema = ''invalid_candidate_schema''"
| "issue_text Class_mismatch = ''class_mismatch''"
| "issue_text Subject_mismatch = ''subject_mismatch''"
| "issue_text Verification_escalation = ''verification_escalation''"
| "issue_text Invalid_observed_at = ''invalid_observed_at''"
| "issue_text Future_observed_at = ''future_observed_at''"
| "issue_text Claim_invalid = ''claim_invalid''"
| "issue_text Invalid_identity_component = ''invalid_identity_component''"
| "issue_text Stale_issue = ''stale''"

datatype candidate_qualification =
    Qualified qualified_evidence bool "qualification_issue list"
  | Rejected "qualification_issue list" string

text \<open>A control character is replaced by U+FFFD, whose UTF-8 form has three bytes.\<close>

definition utf8_replaced :: "string \<Rightarrow> string" where
  "utf8_replaced s = concat (map (\<lambda>c. if control_char c then [char_of (239::nat), char_of (191::nat), char_of (189::nat)]
     else utf8_char c) s)"

definition diagnostic_evidence_reference ::
  "(string \<Rightarrow> string) \<Rightarrow> string \<Rightarrow> string \<Rightarrow> string \<Rightarrow> raw_candidate \<Rightarrow> string" where
  "diagnostic_evidence_reference sha provider cls subject raw =
     (let f = loose raw in
      ''ref:'' @ sha (encode_bytes (map utf8_replaced [provider, cls, subject, take 300 (lf_class f),
        take 300 (lf_subject f), take 300 (lf_claim_key f), take 300 (lf_source_item f), ''schema-invalid''])))"

record qualification_context =
  qc_provider :: provider_metadata
  qc_class :: string
  qc_subject :: string
  qc_requirement :: "evidence_requirement option"
  qc_now :: int

definition build_rejected_reference ::
  "(string \<Rightarrow> string) \<Rightarrow> evidence_candidate \<Rightarrow> qualification_context \<Rightarrow> string" where
  "build_rejected_reference sha c ctx =
     (case ebind (claim_digest sha (ec_claim_value c)) (\<lambda>d.
        build_evidence_id sha (pm_id (qc_provider ctx)) (ec_class c) (ec_subject c) (ec_source_item c) d) of
      Inr i \<Rightarrow> i
    | Inl e \<Rightarrow> diagnostic_evidence_reference sha (pm_id (qc_provider ctx)) (qc_class ctx) (qc_subject ctx) (Candidate c))"

definition too_old :: "evidence_requirement option \<Rightarrow> int \<Rightarrow> bool" where
  "too_old r age = (case Option.bind r req_max_age of None \<Rightarrow> False | Some m \<Rightarrow> age > m)"

definition qualify_candidate ::
  "(string \<Rightarrow> string) \<Rightarrow> raw_candidate \<Rightarrow> qualification_context \<Rightarrow> candidate_qualification" where
  "qualify_candidate sha raw ctx = (case parse_raw_candidate raw of
     None \<Rightarrow> Rejected [Invalid_candidate_schema]
       (diagnostic_evidence_reference sha (pm_id (qc_provider ctx)) (qc_class ctx) (qc_subject ctx) raw)
   | Some c \<Rightarrow> (let reject = (\<lambda>i. Rejected [i] (build_rejected_reference sha c ctx)) in
       if ec_class c \<noteq> qc_class ctx then reject Class_mismatch
       else if ec_class c \<notin> set (pm_classes (qc_provider ctx)) then reject Class_mismatch
       else if ec_subject c \<noteq> qc_subject ctx then reject Subject_mismatch
       else if verification_rank (ec_level c) > verification_rank (pm_max_level (qc_provider ctx))
         then reject Verification_escalation
       else (case parse_evidence_timestamp (ec_observed_at c) of
         Inl e \<Rightarrow> reject Invalid_observed_at
       | Inr observed \<Rightarrow>
         if observed > qc_now ctx then reject Future_observed_at
         else (case claim_digest sha (ec_claim_value c) of
           Inl e \<Rightarrow> reject Claim_invalid
         | Inr digest \<Rightarrow>
           (let stale = too_old (qc_requirement ctx) (qc_now ctx - observed);
                issues = (if stale then [Stale_issue] else []) in
            case build_evidence_id sha (pm_id (qc_provider ctx)) (ec_class c) (ec_subject c) (ec_source_item c) digest of
              Inl e \<Rightarrow> Rejected (issues @ [Invalid_identity_component])
                (diagnostic_evidence_reference sha (pm_id (qc_provider ctx)) (qc_class ctx) (qc_subject ctx) (Candidate c))
            | Inr i \<Rightarrow> Qualified
                \<lparr>qe_id = i, qe_provider = pm_id (qc_provider ctx), qe_class = ec_class c, qe_subject = ec_subject c,
                 qe_claim_key = ec_claim_key c, qe_claim_value = ec_claim_value c, qe_claim_digest = digest,
                 qe_source_item = ec_source_item c, qe_source_reference = ec_source_reference c,
                 qe_observed_at = ec_observed_at c, qe_source_updated_at = ec_source_updated_at c,
                 qe_level = ec_level c, qe_qualified_at = Iso (qc_now ctx), qe_note = ec_note c\<rparr>
                stale issues)))))"


section \<open>The identifier encoding is unambiguous\<close>

lemma char_of_inj: "m < 256 \<Longrightarrow> n < 256 \<Longrightarrow> char_of m = (char_of n :: char) \<Longrightarrow> m = (n :: nat)"
  by (metis of_char_of mod_less)

lemma be32_inj:
  assumes "m < 4294967296" "n < 4294967296" "be32 m = be32 n" shows "m = n"
proof -
  have r: "x = 16777216 * (x div 16777216 mod 256) + 65536 * (x div 65536 mod 256) + 256 * (x div 256 mod 256) + x mod 256"
    if "x < 4294967296" for x :: nat
  proof -
    have "x div 16777216 < 256" using that by simp
    then have top: "x div 16777216 mod 256 = x div 16777216" by simp
    have "x div 65536 div 256 = x div 16777216" "x div 256 div 256 = x div 65536"
      by (simp_all add: div_mult2_eq [symmetric])
    with div_mult_mod_eq [of "x div 256" 256] div_mult_mod_eq [of "x div 65536" 256]
    have "x div 65536 * 256 + x div 256 mod 256 = x div 256"
      "x div 16777216 * 256 + x div 65536 mod 256 = x div 65536" by simp_all
    with top div_mult_mod_eq [of x 256] show ?thesis by linarith
  qed
  have "m div 16777216 mod 256 = n div 16777216 mod 256" "m div 65536 mod 256 = n div 65536 mod 256"
    "m div 256 mod 256 = n div 256 mod 256" "m mod 256 = n mod 256"
    using assms(3) by (auto simp: be32_def intro!: char_of_inj)
  then show ?thesis using r [OF assms(1)] r [OF assms(2)] by simp
qed

text \<open>The same bytes computed over the binary integers.\<close>

lemma be32_code [code]: "be32 n = (let m = int n in [char_of (m div 16777216 mod 256), char_of (m div 65536 mod 256),
     char_of (m div 256 mod 256), char_of (m mod 256)])"
proof -
  have c: "char_of (int m) = char_of m" for m :: nat by (rule char_of_nat)
  have "int n div 16777216 mod 256 = int (n div 16777216 mod 256)" "int n div 65536 mod 256 = int (n div 65536 mod 256)"
    "int n div 256 mod 256 = int (n div 256 mod 256)" "int n mod 256 = int (n mod 256)"
    by (simp_all add: of_nat_div of_nat_mod)
  then show ?thesis by (simp only: be32_def Let_def c)
qed

lemma length_be32 [simp]: "length (be32 n) = 4"
  by (simp add: be32_def)

lemma encode_bytes_inj:
  assumes "list_all (\<lambda>f. length f < 4294967296) xs" "list_all (\<lambda>f. length f < 4294967296) ys"
    "encode_bytes xs = encode_bytes ys"
  shows "xs = ys"
  using assms
proof (induction xs arbitrary: ys)
  case Nil
  then show ?case by (cases ys) (auto simp: encode_bytes_def be32_def)
next
  case (Cons x xs)
  then obtain y zs where y: "ys = y # zs" by (cases ys) (auto simp: encode_bytes_def be32_def)
  with Cons.prems have "be32 (length x) = be32 (length y)" and r: "x @ encode_bytes xs = y @ encode_bytes zs"
    by (auto simp: encode_bytes_def append_eq_append_conv)
  then have "length x = length y" using be32_inj Cons.prems y by auto
  then show ?case using r Cons y by auto
qed

lemma valid_component:
  "assert_valid_id_component s = Inr u \<longleftrightarrow> s \<noteq> [] \<and> length s \<le> 10000 \<and> \<not> list_ex control_char s"
  by (auto simp: assert_valid_id_component_def)

lemma assert_components_Inr:
  "assert_components fs = Inr u \<longleftrightarrow> list_all (\<lambda>s. s \<noteq> [] \<and> length s \<le> 10000 \<and> \<not> list_ex control_char s) fs"
  by (induction fs) (auto simp: ebind_Inr_iff valid_component)

lemma inj_utf8: "inj utf8"
  by (rule injI) (rule utf8_inj)

lemma encode_tuple_inj:
  assumes "assert_components fs = Inr u" "assert_components gs = Inr u'"
    "encode_evidence_id_tuple fs = encode_evidence_id_tuple gs"
  shows "fs = gs"
proof -
  have bound: "list_all (\<lambda>f. length f < 4294967296) (map utf8 hs)"
    if "list_all (\<lambda>s. s \<noteq> [] \<and> length s \<le> 10000 \<and> \<not> list_ex control_char s) hs" for hs
  proof -
    have "length (utf8 s) < 4294967296" if "length s \<le> 10000" for s
      using length_utf8 [of s] that by linarith
    then show ?thesis using that by (auto simp: list_all_iff)
  qed
  have "map utf8 fs = map utf8 gs"
    using assms bound unfolding assert_components_Inr encode_evidence_id_tuple_def by (intro encode_bytes_inj) auto
  then show ?thesis using inj_utf8 by (rule map_injective)
qed

text \<open>The core-generated evidence id binds its five components: equal ids come from the same provider,
  class, subject, source item and claim digest, or the two encoded tuples are a collision of the
  hash function. No separator inside a component can alias another tuple.\<close>
lemma evidence_id_binds_components:
  assumes "build_evidence_id sha p c s i d = Inr x" "build_evidence_id sha p' c' s' i' d' = Inr x"
  shows "(p, c, s, i, d) = (p', c', s', i', d') \<or>
    collision sha (encode_evidence_id_tuple [p, c, s, i, d]) (encode_evidence_id_tuple [p', c', s', i', d'])"
proof -
  obtain u u' where v: "assert_components [p, c, s, i, d] = Inr u" "assert_components [p', c', s', i', d'] = Inr u'"
    and x: "sha (encode_evidence_id_tuple [p, c, s, i, d]) = sha (encode_evidence_id_tuple [p', c', s', i', d'])"
    using assms by (auto simp: build_evidence_id_def Let_def simp del: assert_components.simps)
  then show ?thesis using encode_tuple_inj [OF v] by (auto simp: collision_def)
qed

lemma claim_digest_Inr: "claim_digest sha v = Inr d \<longleftrightarrow> json_digest sha v = Inr d"
  by (auto simp: claim_digest_def json_digest_Inr)

lemma claim_digest_safe: "is_json_safe v \<Longrightarrow> \<exists>d. claim_digest sha v = Inr d"
  by (simp add: claim_digest_Inr json_digest_Inr)

section \<open>What qualification guarantees\<close>

lemma parse_raw_candidate_ok: "parse_raw_candidate raw = Some c \<Longrightarrow> candidate_ok c"
  by (cases raw) (auto simp: parse_candidate_def parse_with_Some)

text \<open>The bindings a qualified candidate satisfies, and nothing else qualifies.\<close>

definition candidate_binds :: "evidence_candidate \<Rightarrow> qualification_context \<Rightarrow> bool" where
  "candidate_binds c ctx \<longleftrightarrow> ec_class c = qc_class ctx \<and> ec_class c \<in> set (pm_classes (qc_provider ctx)) \<and>
     ec_subject c = qc_subject ctx \<and> ec_level c \<le> pm_max_level (qc_provider ctx) \<and>
     num_le (date_parse (ec_observed_at c)) (Some (qc_now ctx)) \<and>
     list_all (\<lambda>s. s \<noteq> [] \<and> length s \<le> 10000 \<and> \<not> list_ex control_char s)
       [pm_id (qc_provider ctx), ec_class c, ec_subject c, ec_source_item c]"

text \<open>The hash function returns a non-empty text without control characters, as a hex digest is.\<close>

definition digest_like :: "(string \<Rightarrow> string) \<Rightarrow> bool" where
  "digest_like sha \<longleftrightarrow> (\<forall>b. sha256_hex_ok (sha b))"

lemma digest_component:
  assumes "digest_like sha" "claim_digest sha v = Inr d"
  shows "d \<noteq> []" "length d \<le> 10000" "\<not> list_ex control_char d"
proof -
  have "sha256_hex_ok d" using assms by (auto simp: digest_like_def claim_digest_Inr json_digest_Inr sha256_hex_def)
  then show "d \<noteq> []" "length d \<le> 10000" "\<not> list_ex control_char d"
    by (auto simp: sha256_hex_ok_def list_all_iff list_ex_iff hex_char_def control_char_def is_digit_def)
qed


lemma qualify_qualified:
  assumes "qualify_candidate sha raw ctx = Qualified e stale issues"
  obtains c observed where "parse_raw_candidate raw = Some c" "candidate_binds c ctx"
    "date_parse (ec_observed_at c) = Some observed" "claim_digest sha (ec_claim_value c) = Inr (qe_claim_digest e)"
    "build_evidence_id sha (pm_id (qc_provider ctx)) (ec_class c) (ec_subject c) (ec_source_item c)
       (qe_claim_digest e) = Inr (qe_id e)"
    "qe_provider e = pm_id (qc_provider ctx)" "qe_class e = ec_class c" "qe_subject e = ec_subject c"
    "qe_claim_key e = ec_claim_key c" "qe_claim_value e = ec_claim_value c" "qe_level e = ec_level c" "qe_observed_at e = ec_observed_at c"
    "stale = too_old (qc_requirement ctx) (qc_now ctx - observed)" "issues = (if stale then [Stale_issue] else [])"
proof -
  obtain c where c: "parse_raw_candidate raw = Some c"
    using assms by (cases "parse_raw_candidate raw") (auto simp: qualify_candidate_def)
  obtain observed where o: "date_parse (ec_observed_at c) = Some observed" "observed \<le> qc_now ctx"
    using assms by (auto simp: qualify_candidate_def c Let_def parse_evidence_timestamp_def
        split: if_splits sum.splits option.splits)
  obtain d where d: "claim_digest sha (ec_claim_value c) = Inr d"
    using assms o by (cases "claim_digest sha (ec_claim_value c)")
      (auto simp: qualify_candidate_def c Let_def parse_evidence_timestamp_def split: if_splits)
  obtain i where i: "build_evidence_id sha (pm_id (qc_provider ctx)) (ec_class c) (ec_subject c) (ec_source_item c) d = Inr i"
    using assms o d by (cases "build_evidence_id sha (pm_id (qc_provider ctx)) (ec_class c) (ec_subject c) (ec_source_item c) d")
      (auto simp: qualify_candidate_def c Let_def parse_evidence_timestamp_def split: if_splits)
  have comps: "\<exists>u. assert_components [pm_id (qc_provider ctx), ec_class c, ec_subject c, ec_source_item c, d] = Inr u"
    using i by (auto simp: build_evidence_id_def Let_def simp del: assert_components.simps)
  have "candidate_binds c ctx"
    using assms o comps unfolding candidate_binds_def assert_components_Inr
    by (auto simp: qualify_candidate_def c Let_def parse_evidence_timestamp_def less_eq_verification_requirement_def
        split: if_splits)
  moreover have "e = \<lparr>qe_id = i, qe_provider = pm_id (qc_provider ctx), qe_class = ec_class c, qe_subject = ec_subject c,
       qe_claim_key = ec_claim_key c, qe_claim_value = ec_claim_value c, qe_claim_digest = d,
       qe_source_item = ec_source_item c, qe_source_reference = ec_source_reference c,
       qe_observed_at = ec_observed_at c, qe_source_updated_at = ec_source_updated_at c,
       qe_level = ec_level c, qe_qualified_at = Iso (qc_now ctx), qe_note = ec_note c\<rparr>"
    "stale = too_old (qc_requirement ctx) (qc_now ctx - observed)" "issues = (if stale then [Stale_issue] else [])"
    using assms o d i by (auto simp: qualify_candidate_def c Let_def parse_evidence_timestamp_def split: if_splits)
  ultimately show ?thesis using that [of c observed] c o(1) d i by simp
qed

lemma qualification_exact_iff:
  assumes "digest_like sha"
  shows "(\<exists>e issues. qualify_candidate sha raw ctx = Qualified e stale issues) \<longleftrightarrow>
    (\<exists>c. parse_raw_candidate raw = Some c \<and> candidate_binds c ctx \<and>
       stale = too_old (qc_requirement ctx) (qc_now ctx - the (date_parse (ec_observed_at c))))"
proof
  assume "\<exists>e issues. qualify_candidate sha raw ctx = Qualified e stale issues"
  then show "\<exists>c. parse_raw_candidate raw = Some c \<and> candidate_binds c ctx \<and>
       stale = too_old (qc_requirement ctx) (qc_now ctx - the (date_parse (ec_observed_at c)))"
    by (elim exE qualify_qualified) (auto intro!: exI)
next
  assume "\<exists>c. parse_raw_candidate raw = Some c \<and> candidate_binds c ctx \<and>
       stale = too_old (qc_requirement ctx) (qc_now ctx - the (date_parse (ec_observed_at c)))"
  then obtain c where c: "parse_raw_candidate raw = Some c" and b: "candidate_binds c ctx"
    and s: "stale = too_old (qc_requirement ctx) (qc_now ctx - the (date_parse (ec_observed_at c)))" by blast
  from b obtain t where t: "date_parse (ec_observed_at c) = Some t" "t \<le> qc_now ctx"
    by (auto simp: candidate_binds_def num_le_iff)
  obtain d where d: "claim_digest sha (ec_claim_value c) = Inr d"
    using claim_digest_safe parse_raw_candidate_ok [OF c] by (auto simp: candidate_ok_def)
  have "\<exists>u. assert_components [pm_id (qc_provider ctx), ec_class c, ec_subject c, ec_source_item c, d] = Inr u"
    using b digest_component [OF assms d] unfolding assert_components_Inr by (auto simp: candidate_binds_def)
  then obtain i where "build_evidence_id sha (pm_id (qc_provider ctx)) (ec_class c) (ec_subject c) (ec_source_item c) d = Inr i"
    by (auto simp: build_evidence_id_def Let_def simp del: assert_components.simps)
  then show "\<exists>e issues. qualify_candidate sha raw ctx = Qualified e stale issues"
    using b t d by (auto simp: qualify_candidate_def c Let_def parse_evidence_timestamp_def candidate_binds_def
        less_eq_verification_requirement_def s)
qed

text \<open>C38: A provider cannot smuggle or promote evidence. Let the hash function return hex digests. A candidate
  qualifies if and only if it parses, is for the requested class, that class is declared by the provider, is about the
  requested subject, claims at most the provider's maximal verification level, was not observed in
  the future, and the provider id, class, subject and source item, which the evidence id is made of, are
  each non-empty, at most 10000 characters and without control characters; and it is flagged stale
  exactly when a freshness policy exists and its age exceeds it. The evidence
  it becomes carries the candidate's class, subject, claim and level under the provider's own id; its claim digest is the one
  the core computes of the claim value, and its id the one the core derives from provider, class, subject, source
  item and that digest, so neither comes from the provider.\<close>
theorem qualification_exact:
  assumes "digest_like sha"
  shows "((\<exists>e issues. qualify_candidate sha raw ctx = Qualified e stale issues) \<longleftrightarrow>
    (\<exists>c. parse_raw_candidate raw = Some c \<and> candidate_binds c ctx \<and>
       stale = too_old (qc_requirement ctx) (qc_now ctx - the (date_parse (ec_observed_at c))))) \<and>
    (\<forall>e issues. qualify_candidate sha raw ctx = Qualified e stale issues \<longrightarrow>
      (\<exists>c. parse_raw_candidate raw = Some c \<and> qe_provider e = pm_id (qc_provider ctx) \<and> qe_class e = ec_class c \<and>
         qe_subject e = ec_subject c \<and> qe_claim_key e = ec_claim_key c \<and> qe_claim_value e = ec_claim_value c \<and>
         qe_level e = ec_level c \<and> claim_digest sha (ec_claim_value c) = Inr (qe_claim_digest e) \<and>
         build_evidence_id sha (pm_id (qc_provider ctx)) (ec_class c) (ec_subject c) (ec_source_item c)
           (qe_claim_digest e) = Inr (qe_id e)))"
proof (intro conjI allI impI)
  fix e issues assume "qualify_candidate sha raw ctx = Qualified e stale issues"
  then show "\<exists>c. parse_raw_candidate raw = Some c \<and> qe_provider e = pm_id (qc_provider ctx) \<and> qe_class e = ec_class c \<and>
      qe_subject e = ec_subject c \<and> qe_claim_key e = ec_claim_key c \<and> qe_claim_value e = ec_claim_value c \<and>
      qe_level e = ec_level c \<and> claim_digest sha (ec_claim_value c) = Inr (qe_claim_digest e) \<and>
      build_evidence_id sha (pm_id (qc_provider ctx)) (ec_class c) (ec_subject c) (ec_source_item c)
        (qe_claim_digest e) = Inr (qe_id e)"
    by (rule qualify_qualified) blast
qed (use assms in \<open>rule qualification_exact_iff\<close>)

definition sample_sha :: "string \<Rightarrow> string" where
  "sample_sha b = replicate 64 CHR ''a''"

lemma sample_sha_digest: "digest_like sample_sha"
  by (simp add: digest_like_def sha256_hex_ok_def sample_sha_def hex_char_def code_def list_all_iff)

definition sample_provider :: provider_metadata where
  "sample_provider = \<lparr>pm_id = ''git-local'', pm_version = ''1.0.0'', pm_classes = [''repo.state''],
     pm_priority = 10, pm_max_level = Asserted, pm_description = None\<rparr>"

definition sample_candidate :: evidence_candidate where
  "sample_candidate = \<lparr>ec_class = ''repo.state'', ec_subject = ''repo:a'', ec_claim_key = ''head'',
     ec_claim_value = JStr ''abc'', ec_source_item = ''item'', ec_source_reference = ''ref'',
     ec_observed_at = Iso 1000, ec_level = Asserted, ec_source_updated_at = None, ec_note = None, ec_metadata = None\<rparr>"

definition sample_context :: qualification_context where
  "sample_context = \<lparr>qc_provider = sample_provider, qc_class = ''repo.state'', qc_subject = ''repo:a'',
     qc_requirement = Some sample_requirement, qc_now = 2000\<rparr>"

lemma qualification_exact_witness:
  "\<exists>e issues. qualify_candidate sample_sha (Candidate sample_candidate) sample_context = Qualified e False issues"
proof -
  have "parse_raw_candidate (Candidate sample_candidate) = Some sample_candidate" by code_simp
  moreover have "candidate_binds sample_candidate sample_context" by code_simp
  moreover have "too_old (qc_requirement sample_context)
      (qc_now sample_context - the (date_parse (ec_observed_at sample_candidate))) = False" by code_simp
  ultimately show ?thesis using qualification_exact [OF sample_sha_digest, of "Candidate sample_candidate" sample_context False] by blast
qed

end
