(* ===== verification/Approval.thy ===== *)
theory Approval
  imports Evidence
begin

text \<open>
  Approval contracts, policy and binding (\<open>src/brain-server/src/approval/errors.ts\<close>,
  \<open>contracts.ts\<close>, \<open>policy.ts\<close>, \<open>binding.ts\<close>): the schemas of requests, grants and
  authorization records, the fail-closed approval policy with its bounded lifetime, and the
  binding payload whose digest proves that an approved plan was not changed. An error of the
  evidence layer that leaves this layer unhandled is a \<open>NativeError\<close>.
\<close>

datatype approval_error_code =
    APPROVAL_INPUT_INVALID | APPROVAL_CAPABILITY_NOT_FOUND | APPROVAL_CAPABILITY_VERSION_MISMATCH
  | APPROVAL_EVIDENCE_INELIGIBLE | APPROVAL_PLAN_INVALID | APPROVAL_POLICY_VERSION_MISMATCH
  | APPROVAL_BINDING_MISMATCH | APPROVAL_GRANT_INVALID | APPROVAL_GRANT_EXPIRED
  | APPROVAL_AUTHORITY_INSUFFICIENT | APPROVAL_PLAN_MISMATCH | APPROVAL_STATE_CONFLICT
  | APPROVAL_REQUEST_NOT_PENDING | APPROVAL_REQUEST_EXPIRED | APPROVAL_PLAN_NOT_FOUND
  | APPROVAL_STORE_CONFLICT | APPROVAL_STORE_FULL | APPROVAL_AUDIT_UNAVAILABLE

type_synonym 'a approval = "approval_error_code throws + 'a"

definition foreign :: "'e throws + 'a \<Rightarrow> 'a approval" where
  "foreign r = (case r of Inl e \<Rightarrow> Inl NativeError | Inr v \<Rightarrow> Inr v)"

lemma foreign_Inr [simp]: "foreign r = Inr v \<longleftrightarrow> r = Inr v"
  by (auto simp: foreign_def split: sum.splits)

section \<open>Contracts\<close>

datatype approval_status = Pending | Granted | Denied | Revoked | Expired
datatype actor_kind = Owner | Admin

text \<open>The \<open>source\<close> of a trusted actor is the literal \<open>trusted_local\<close>; any other value is malformed.\<close>

record trusted_actor =
  ta_id :: string
  ta_kind :: actor_kind
  ta_authority :: authority_level

definition norm_actor :: "trusted_actor \<Rightarrow> trusted_actor" where
  "norm_actor a = a\<lparr>ta_id := js_trim (ta_id a)\<rparr>"

definition actor_ok :: "trusted_actor \<Rightarrow> bool" where
  "actor_ok a \<longleftrightarrow> len_ok 200 (ta_id a)"

record authorization_request =
  ar_decision_id :: string
  ar_capability_id :: string
  ar_capability_version :: string
  ar_adapter_id :: string
  ar_inputs :: json_object
  ar_guard_run_id :: string
  ar_timeout_ms :: int
  ar_verification_plan :: "follow_up_plan option"
  ar_rollback_plan :: "follow_up_plan option"
  ar_requested_by :: "string option"
  ar_correlation_id :: "string option"
  ar_expires_at :: "timestamp option"

definition norm_request :: "authorization_request \<Rightarrow> authorization_request" where
  "norm_request r = r\<lparr>ar_decision_id := js_trim (ar_decision_id r), ar_guard_run_id := js_trim (ar_guard_run_id r),
     ar_requested_by := map_option js_trim (ar_requested_by r),
     ar_correlation_id := map_option js_trim (ar_correlation_id r)\<rparr>"

definition request_ok :: "authorization_request \<Rightarrow> bool" where
  "request_ok r \<longleftrightarrow> len_ok 200 (ar_decision_id r) \<and> capability_id_ok (ar_capability_id r) \<and>
     semver_ok (ar_capability_version r) \<and> adapter_id_ok (ar_adapter_id r) \<and> json_object_ok (ar_inputs r) \<and>
     len_ok 200 (ar_guard_run_id r) \<and> timeout_ok (ar_timeout_ms r) \<and>
     opt_ok follow_up_plan_ok (ar_verification_plan r) \<and> opt_ok follow_up_plan_ok (ar_rollback_plan r) \<and>
     opt_ok (len_ok 200) (ar_requested_by r) \<and> opt_ok (len_ok 200) (ar_correlation_id r) \<and>
     no_forbidden_key (ar_inputs r)"

definition parse_authorization_request :: "authorization_request \<Rightarrow> authorization_request option" where
  "parse_authorization_request = parse_with norm_request request_ok"

record binding_payload =
  bp_plan_id :: string
  bp_decision_id :: string
  bp_capability_id :: string
  bp_capability_version :: string
  bp_adapter_id :: string
  bp_inputs_digest :: string
  bp_risk_digest :: string
  bp_coverage_digest :: string
  bp_timeout_ms :: int
  bp_verification_digest :: "string option"
  bp_rollback_digest :: "string option"
  bp_created_at :: timestamp
  bp_expires_at :: "timestamp option"
  bp_policy_version :: string

definition norm_payload :: "binding_payload \<Rightarrow> binding_payload" where
  "norm_payload p = p\<lparr>bp_decision_id := js_trim (bp_decision_id p), bp_policy_version := js_trim (bp_policy_version p)\<rparr>"

definition payload_ok :: "binding_payload \<Rightarrow> bool" where
  "payload_ok p \<longleftrightarrow> plan_id_ok (bp_plan_id p) \<and> len_ok 200 (bp_decision_id p) \<and> capability_id_ok (bp_capability_id p) \<and>
     semver_ok (bp_capability_version p) \<and> adapter_id_ok (bp_adapter_id p) \<and> sha256_hex_ok (bp_inputs_digest p) \<and>
     sha256_hex_ok (bp_risk_digest p) \<and> sha256_hex_ok (bp_coverage_digest p) \<and> timeout_ok (bp_timeout_ms p) \<and>
     opt_ok sha256_hex_ok (bp_verification_digest p) \<and> opt_ok sha256_hex_ok (bp_rollback_digest p) \<and>
     len_ok 50 (bp_policy_version p)"

definition parse_payload :: "binding_payload \<Rightarrow> binding_payload option" where
  "parse_payload = parse_with norm_payload payload_ok"

record approval_request =
  apr_id :: string
  apr_plan_id :: string
  apr_decision_id :: string
  apr_capability_id :: string
  apr_capability_version :: string
  apr_risk :: risk_snapshot
  apr_side_effect_class :: side_effect_class
  apr_side_effect_reversible :: bool
  apr_reversible :: bool
  apr_guard_run_id :: string
  apr_evidence_coverage_digest :: string
  apr_mandatory_classes :: "string list"
  apr_mandatory_satisfied :: bool
  apr_coverage_digest :: string
  apr_inputs_digest :: string
  apr_binding_digest :: string
  apr_required_authority :: authority_level
  apr_policy_version :: string
  apr_created_at :: timestamp
  apr_expires_at :: timestamp
  apr_status :: approval_status

definition norm_approval_request :: "approval_request \<Rightarrow> approval_request" where
  "norm_approval_request r = r\<lparr>apr_id := js_trim (apr_id r), apr_decision_id := js_trim (apr_decision_id r),
     apr_guard_run_id := js_trim (apr_guard_run_id r), apr_mandatory_classes := map js_trim (apr_mandatory_classes r),
     apr_policy_version := js_trim (apr_policy_version r)\<rparr>"

definition approval_request_ok :: "approval_request \<Rightarrow> bool" where
  "approval_request_ok r \<longleftrightarrow> len_ok 200 (apr_id r) \<and> plan_id_ok (apr_plan_id r) \<and> len_ok 200 (apr_decision_id r) \<and>
     capability_id_ok (apr_capability_id r) \<and> semver_ok (apr_capability_version r) \<and> risk_snapshot_ok (apr_risk r) \<and>
     len_ok 200 (apr_guard_run_id r) \<and> sha256_hex_ok (apr_evidence_coverage_digest r) \<and>
     list_all (len_ok 200) (apr_mandatory_classes r) \<and> length (apr_mandatory_classes r) \<le> 100 \<and>
     sha256_hex_ok (apr_coverage_digest r) \<and> sha256_hex_ok (apr_inputs_digest r) \<and>
     sha256_hex_ok (apr_binding_digest r) \<and> len_ok 50 (apr_policy_version r)"

definition parse_approval_request :: "approval_request \<Rightarrow> approval_request option" where
  "parse_approval_request = parse_with norm_approval_request approval_request_ok"

record verified_grant =
  vg_actor :: trusted_actor
  vg_authority :: authority_level
  vg_granted_at :: timestamp
  vg_expires_at :: timestamp
  vg_native_record_id :: string
  vg_token_reference :: string
  vg_token_digest :: string

definition norm_grant :: "verified_grant \<Rightarrow> verified_grant" where
  "norm_grant g = g\<lparr>vg_actor := norm_actor (vg_actor g), vg_native_record_id := js_trim (vg_native_record_id g),
     vg_token_reference := js_trim (vg_token_reference g)\<rparr>"

definition grant_ok :: "verified_grant \<Rightarrow> bool" where
  "grant_ok g \<longleftrightarrow> actor_ok (vg_actor g) \<and> len_ok 200 (vg_native_record_id g) \<and> len_ok 200 (vg_token_reference g) \<and>
     sha256_hex_ok (vg_token_digest g)"

definition parse_grant :: "verified_grant \<Rightarrow> verified_grant option" where
  "parse_grant = parse_with norm_grant grant_ok"

record grant_record =
  gt_actor :: trusted_actor
  gt_granted_at :: timestamp
  gt_expires_at :: timestamp
  gt_native_record_id :: string
  gt_token_reference :: string
  gt_token_digest :: string

definition norm_grant_record :: "grant_record \<Rightarrow> grant_record" where
  "norm_grant_record g = g\<lparr>gt_actor := norm_actor (gt_actor g), gt_native_record_id := js_trim (gt_native_record_id g),
     gt_token_reference := js_trim (gt_token_reference g)\<rparr>"

definition grant_record_ok :: "grant_record \<Rightarrow> bool" where
  "grant_record_ok g \<longleftrightarrow> actor_ok (gt_actor g) \<and> len_ok 200 (gt_native_record_id g) \<and>
     len_ok 200 (gt_token_reference g) \<and> sha256_hex_ok (gt_token_digest g)"

definition parse_grant_record :: "grant_record \<Rightarrow> grant_record option" where
  "parse_grant_record = parse_with norm_grant_record grant_record_ok"

record plan_authorization =
  pa_plan :: execution_plan
  pa_guard_run_id :: string
  pa_request_id :: "string option"
  pa_request :: "approval_request option"
  pa_binding_digest :: string
  pa_grant :: "grant_record option"
  pa_blocked_reason :: "string option"

definition norm_authorization :: "plan_authorization \<Rightarrow> plan_authorization" where
  "norm_authorization r = r\<lparr>pa_plan := norm_plan (pa_plan r), pa_guard_run_id := js_trim (pa_guard_run_id r),
     pa_request_id := map_option js_trim (pa_request_id r),
     pa_request := map_option norm_approval_request (pa_request r),
     pa_grant := map_option norm_grant_record (pa_grant r)\<rparr>"

definition authorization_ok :: "plan_authorization \<Rightarrow> bool" where
  "authorization_ok r \<longleftrightarrow> execution_plan_ok (pa_plan r) \<and> len_ok 200 (pa_guard_run_id r) \<and>
     opt_ok (len_ok 200) (pa_request_id r) \<and> opt_ok approval_request_ok (pa_request r) \<and>
     sha256_hex_ok (pa_binding_digest r) \<and> opt_ok grant_record_ok (pa_grant r) \<and>
     opt_ok (\<lambda>t. length t \<le> 2000) (pa_blocked_reason r)"

definition parse_authorization :: "plan_authorization \<Rightarrow> plan_authorization option" where
  "parse_authorization = parse_with norm_authorization authorization_ok"

section \<open>Policy\<close>

definition approval_policy_version :: string where
  "approval_policy_version = ''goal24-approval-policy-v1''"

definition default_max_approval_ttl_ms :: int where
  "default_max_approval_ttl_ms = 15 * 60 * 1000"

fun authority_rank :: "authority_level \<Rightarrow> nat" where
  "authority_rank L0 = 0" | "authority_rank L1 = 1" | "authority_rank L2 = 2" | "authority_rank L3 = 3"

definition authority_satisfies :: "authority_level \<Rightarrow> authority_level \<Rightarrow> bool" where
  "authority_satisfies actor required \<longleftrightarrow> authority_rank actor \<ge> authority_rank required"

definition approval_required :: "capability_definition \<Rightarrow> bool" where
  "approval_required c \<longleftrightarrow> \<not> (cap_side_effect_class c = Read_only \<and> cap_risk_level c = Low \<and> cap_required_authority c = L0)"

definition derive_risk_snapshot :: "capability_definition \<Rightarrow> risk_snapshot approval" where
  "derive_risk_snapshot c = (let r = \<lparr>risk_level = cap_risk_level c, risk_reversible = cap_reversible c,
       risk_side_effect_class = cap_side_effect_class c, risk_required_authority = cap_required_authority c,
       risk_capability_version = cap_version c\<rparr> in
     zod (if risk_snapshot_ok r then Some r else None))"

definition compute_plan_expiry :: "int \<Rightarrow> timestamp option \<Rightarrow> int \<Rightarrow> timestamp approval" where
  "compute_plan_expiry created requested ttl =
     ebind (guarded (0 < ttl) APPROVAL_INPUT_INVALID) (\<lambda>_.
     (let bound = created + ttl in
      ebind (case requested of None \<Rightarrow> Inr bound
        | Some t \<Rightarrow> (case date_parse t of None \<Rightarrow> Inl (Throws APPROVAL_INPUT_INVALID) | Some ms \<Rightarrow> Inr (min ms bound)))
        (\<lambda>expires. ebind (guarded (\<not> expires \<le> created) APPROVAL_INPUT_INVALID) (\<lambda>_. Inr (Iso expires)))))"

definition is_expired_at :: "timestamp \<Rightarrow> int \<Rightarrow> bool approval" where
  "is_expired_at t now = ebind (require (date_parse t) APPROVAL_INPUT_INVALID) (\<lambda>ms. Inr (now \<ge> ms))"

lemma approval_free_minimum:
  "\<not> approval_required c \<longleftrightarrow> cap_side_effect_class c = Read_only \<and> cap_risk_level c = Low \<and> cap_required_authority c = L0"
  by (auto simp: approval_required_def)

lemma compute_plan_expiry_Inr:
  "compute_plan_expiry created requested ttl = Inr t \<longleftrightarrow> 0 < ttl \<and>
   (case requested of None \<Rightarrow> t = Iso (created + ttl)
    | Some r \<Rightarrow> (\<exists>ms. date_parse r = Some ms \<and> created < ms \<and> t = Iso (min ms (created + ttl))))"
  by (auto simp: compute_plan_expiry_def Let_def ebind_Inr_iff split: option.splits)

text \<open>An approval lifetime is bounded and only ever shortened by the caller: a computed expiry lies strictly
  after the creation and at most the policy lifetime after it, it equals the requested expiry when
  that is within the bound, and a request for an expiry at or before the creation is refused.\<close>
lemma plan_expiry_bounded:
  assumes "compute_plan_expiry created requested ttl = Inr t"
  shows "\<exists>ms. t = Iso ms \<and> created < ms \<and> ms \<le> created + ttl \<and>
    (case requested of None \<Rightarrow> ms = created + ttl
     | Some r \<Rightarrow> num_less (Some created) (date_parse r) \<and> Some ms = map_option (min (created + ttl)) (date_parse r))"
  using assms by (auto simp: compute_plan_expiry_Inr min.commute split: option.splits)

section \<open>Binding\<close>

definition number_exceeds :: "nat \<Rightarrow> int \<Rightarrow> bool" where
  "number_exceeds s n = (let k = int (length (nat_str s)) in
     if k \<le> n then int s * 10 ^ nat (n - k) > max_safe_integer
     else int s > max_safe_integer * 10 ^ nat (k - n))"

definition fraction_part :: "string \<Rightarrow> string option" where
  "fraction_part t = (case split_on dot t of a # b # _ \<Rightarrow> Some b | _ \<Rightarrow> None)"

fun canonical_number_string :: "jsnum \<Rightarrow> string approval" where
  "canonical_number_string (Fin neg s n) =
     (if number_exceeds s n then Inl (Throws APPROVAL_INPUT_INVALID)
      else (let t = num_str (Fin neg s n) in
        if list_ex (\<lambda>c. c = CHR ''e'' \<or> c = CHR ''E'') t then Inl (Throws APPROVAL_INPUT_INVALID)
        else if length t > 24 then Inl (Throws APPROVAL_INPUT_INVALID)
        else (case fraction_part t of None \<Rightarrow> Inr t
          | Some f \<Rightarrow> if length f > 6 then Inl (Throws APPROVAL_INPUT_INVALID) else Inr t)))"
| "canonical_number_string _ = Inl (Throws APPROVAL_INPUT_INVALID)"

fun assert_number_domain :: "jsval \<Rightarrow> unit approval" and assert_items_domain :: "jsval list \<Rightarrow> unit approval"
  and assert_members_domain :: "json_object \<Rightarrow> unit approval" where
  "assert_number_domain (JNum x) = ebind (canonical_number_string x) (\<lambda>_. Inr ())"
| "assert_number_domain (JArr xs) = assert_items_domain xs"
| "assert_number_domain (JObj ms) = assert_members_domain ms"
| "assert_number_domain JNull = Inr ()"
| "assert_number_domain (JBool b) = Inr ()"
| "assert_number_domain (JStr s) = Inr ()"
| "assert_number_domain JOther = Inr ()"
| "assert_items_domain [] = Inr ()"
| "assert_items_domain (x # xs) = ebind (assert_number_domain x) (\<lambda>_. assert_items_domain xs)"
| "assert_members_domain [] = Inr ()"
| "assert_members_domain ((k, x) # ms) = ebind (assert_number_domain x) (\<lambda>_. assert_members_domain ms)"

definition digest_json_value :: "(string \<Rightarrow> string) \<Rightarrow> jsval \<Rightarrow> string approval" where
  "digest_json_value sha v = (case json_digest sha v of Inl (Throws ec) \<Rightarrow> Inl (Throws APPROVAL_INPUT_INVALID)
     | Inl e \<Rightarrow> Inl NativeError | Inr d \<Rightarrow> Inr d)"

record binding_inputs =
  bi_plan_id :: string
  bi_decision_id :: string
  bi_capability_id :: string
  bi_capability_version :: string
  bi_adapter_id :: string
  bi_inputs :: json_object
  bi_risk :: risk_snapshot
  bi_coverage :: coverage_snapshot
  bi_timeout_ms :: int
  bi_verification_plan :: "follow_up_plan option"
  bi_rollback_plan :: "follow_up_plan option"
  bi_created_at :: timestamp
  bi_expires_at :: "timestamp option"
  bi_policy_version :: string

definition opt_digest :: "(string \<Rightarrow> string) \<Rightarrow> ('a \<Rightarrow> jsval) \<Rightarrow> 'a option \<Rightarrow> string option approval" where
  "opt_digest sha f x = (case x of None \<Rightarrow> Inr None | Some v \<Rightarrow> ebind (digest_json_value sha (f v)) (\<lambda>d. Inr (Some d)))"

definition opt_domain :: "('a \<Rightarrow> jsval) \<Rightarrow> 'a option \<Rightarrow> unit approval" where
  "opt_domain f x = (case x of None \<Rightarrow> Inr () | Some v \<Rightarrow> assert_number_domain (f v))"

definition build_binding_payload :: "(string \<Rightarrow> string) \<Rightarrow> binding_inputs \<Rightarrow> binding_payload approval" where
  "build_binding_payload sha b =
     ebind (assert_number_domain (JObj (bi_inputs b))) (\<lambda>_.
     ebind (assert_number_domain (risk_json (bi_risk b))) (\<lambda>_.
     ebind (assert_number_domain (coverage_json (bi_coverage b))) (\<lambda>_.
     ebind (opt_domain verification_plan_json (bi_verification_plan b)) (\<lambda>_.
     ebind (opt_domain rollback_plan_json (bi_rollback_plan b)) (\<lambda>_.
     ebind (foreign (normalized_inputs_digest sha (bi_inputs b))) (\<lambda>idg.
     ebind (digest_json_value sha (risk_json (bi_risk b))) (\<lambda>rd.
     ebind (foreign (coverage_digest sha (bi_coverage b))) (\<lambda>cd.
     ebind (opt_digest sha verification_plan_json (bi_verification_plan b)) (\<lambda>vd.
     ebind (opt_digest sha rollback_plan_json (bi_rollback_plan b)) (\<lambda>bd.
     zod (parse_payload \<lparr>bp_plan_id = bi_plan_id b, bp_decision_id = bi_decision_id b,
       bp_capability_id = bi_capability_id b, bp_capability_version = bi_capability_version b,
       bp_adapter_id = bi_adapter_id b, bp_inputs_digest = idg, bp_risk_digest = rd, bp_coverage_digest = cd,
       bp_timeout_ms = bi_timeout_ms b, bp_verification_digest = vd, bp_rollback_digest = bd,
       bp_created_at = bi_created_at b, bp_expires_at = bi_expires_at b,
       bp_policy_version = bi_policy_version b\<rparr>)))))))))))"

definition payload_json :: "binding_payload \<Rightarrow> jsval" where
  "payload_json p = JObj
     [(''plan_id'', JStr (bp_plan_id p)), (''decision_id'', JStr (bp_decision_id p)),
      (''capability_id'', JStr (bp_capability_id p)), (''capability_version'', JStr (bp_capability_version p)),
      (''adapter_id'', JStr (bp_adapter_id p)), (''normalized_inputs_digest'', JStr (bp_inputs_digest p)),
      (''risk_snapshot_digest'', JStr (bp_risk_digest p)), (''evidence_coverage_digest'', JStr (bp_coverage_digest p)),
      (''timeout_ms'', JInt (bp_timeout_ms p)), (''verification_plan_digest'', nullable JStr (bp_verification_digest p)),
      (''rollback_plan_digest'', nullable JStr (bp_rollback_digest p)), (''created_at'', JTime (bp_created_at p)),
      (''expires_at'', nullable JTime (bp_expires_at p)), (''policy_version'', JStr (bp_policy_version p))]"

definition approval_binding_digest :: "(string \<Rightarrow> string) \<Rightarrow> binding_payload \<Rightarrow> string approval" where
  "approval_binding_digest sha p = (case parse_payload p of None \<Rightarrow> Inl (Throws APPROVAL_INPUT_INVALID)
     | Some q \<Rightarrow> foreign (json_digest sha (payload_json q)))"

definition binding_inputs_of :: "execution_plan \<Rightarrow> string \<Rightarrow> binding_inputs" where
  "binding_inputs_of p policy = \<lparr>bi_plan_id = plan_id p, bi_decision_id = plan_decision_id p,
     bi_capability_id = plan_capability_id p, bi_capability_version = plan_capability_version p,
     bi_adapter_id = plan_adapter_id p, bi_inputs = plan_normalized_inputs p, bi_risk = plan_risk p,
     bi_coverage = plan_coverage p, bi_timeout_ms = plan_timeout_ms p,
     bi_verification_plan = plan_verification_plan p, bi_rollback_plan = plan_rollback_plan p,
     bi_created_at = plan_created_at p, bi_expires_at = plan_expires_at p, bi_policy_version = policy\<rparr>"

definition binding_payload_for_plan :: "(string \<Rightarrow> string) \<Rightarrow> execution_plan \<Rightarrow> string \<Rightarrow> binding_payload approval" where
  "binding_payload_for_plan sha p policy = build_binding_payload sha (binding_inputs_of p policy)"

definition plan_binding_digest :: "(string \<Rightarrow> string) \<Rightarrow> execution_plan \<Rightarrow> string \<Rightarrow> string approval" where
  "plan_binding_digest sha p policy = ebind (binding_payload_for_plan sha p policy) (approval_binding_digest sha)"


section \<open>What the binding digest binds\<close>

lemma sort_key_fst_inj:
  assumes "map fst xs = map fst ys" "distinct (map fst xs)" "sort_key fst xs = sort_key fst ys"
  shows "xs = (ys :: ('k :: linorder \<times> 'v) list)"
proof (rule nth_equalityI)
  show len: "length xs = length ys" using assms(1) by (metis length_map)
  fix i assume i: "i < length xs"
  have st: "set xs = set ys" using assms(3) by (metis set_sort)
  then have "ys ! i \<in> set xs" using i len by simp
  then obtain j where j: "j < length xs" "xs ! j = ys ! i" by (metis in_set_conv_nth)
  have "map fst xs ! j = map fst xs ! i"
    using j i len assms(1) by (metis nth_map)
  then have "j = i" using nth_eq_iff_index_eq [OF assms(2), of j i] i j(1) by (simp only: length_map)
  then show "xs ! i = ys ! i" using j(2) by simp
qed

lemma content_members_keys: "content_members ms = Some cs \<Longrightarrow> map fst cs = map fst ms"
  by (rule content_members_set(1))

lemma content_object_inj:
  assumes "content (JObj ms) = content (JObj ns)" "map fst ms = map fst ns" "distinct (map fst ms)"
    "is_json_safe (JObj ms)"
  shows "content_members ms = content_members ns"
proof -
  obtain cs where cs: "content_members ms = Some cs"
    using canonical_json_safe(3) [of ms] assms(4) by (auto simp: canonical_json_content(3))
  then obtain ds where ds: "content_members ns = Some ds" "sort_key fst cs = sort_key fst ds"
    using assms(1) by (cases "content_members ns") auto
  have "cs = ds"
  proof (rule sort_key_fst_inj)
    show "map fst cs = map fst ds" "distinct (map fst cs)"
      using assms(2,3) unfolding content_members_keys [OF cs] content_members_keys [OF ds(1)] by simp_all
  qed (rule ds(2))
  then show ?thesis using cs ds by simp
qed

lemma num_str_int: "\<bar>i\<bar> < 10 ^ 21 \<Longrightarrow> num_str (int_num i) = int_str i"
  using length_nat_str [of "nat \<bar>i\<bar>" 20] nat_str_zero
  by (auto simp: int_num_def int_str_def Let_def nat_less_iff)

lemma payload_content:
  assumes "payload_ok p" "payload_ok q" "content (payload_json p) = content (payload_json q)"
  shows "p\<lparr>bp_created_at := bp_created_at q, bp_expires_at := bp_expires_at q\<rparr> = q \<and>
    ts_text (bp_created_at p) = ts_text (bp_created_at q) \<and>
    map_option ts_text (bp_expires_at p) = map_option ts_text (bp_expires_at q)"
proof -
  have null: "content (nullable JStr x) = (case x of None \<Rightarrow> Some CNull | Some s \<Rightarrow> Some (CStr s))"
    "content (nullable JTime t) = (case t of None \<Rightarrow> Some CNull | Some s \<Rightarrow> Some (CStr (ts_text s)))" for x t
    by (auto simp: nullable_def JTime_def split: option.splits)
  have int: "num_str (int_num (bp_timeout_ms r)) = int_str (bp_timeout_ms r)" if "payload_ok r" for r
    using that by (intro num_str_int) (auto simp: payload_ok_def timeout_ok_def)
  have "content_members (case payload_json p of JObj ms \<Rightarrow> ms) = content_members (case payload_json q of JObj ms \<Rightarrow> ms)"
    using assms(3) by (intro content_object_inj) (simp_all add: payload_json_def)
  then show ?thesis
    using int [OF assms(1)] int [OF assms(2)]
    by (auto simp: payload_json_def null JInt_def JTime_def bind_eq_Some_conv js_is_finite_int
        dest!: int_str_inj split: option.splits)
qed

definition same_or_collide :: "(string \<Rightarrow> string) \<Rightarrow> jsval \<Rightarrow> jsval \<Rightarrow> bool" where
  "same_or_collide sha v w \<longleftrightarrow> content v = content w \<or> digest_collision sha v w"

text \<open>The two plans agree on everything the binding payload covers, up to collisions of nested digests.\<close>

definition bound_alike :: "(string \<Rightarrow> string) \<Rightarrow> execution_plan \<Rightarrow> execution_plan \<Rightarrow> bool" where
  "bound_alike sha p p' \<longleftrightarrow>
     plan_id p = plan_id p' \<and> js_trim (plan_decision_id p) = js_trim (plan_decision_id p') \<and>
     plan_capability_id p = plan_capability_id p' \<and> plan_capability_version p = plan_capability_version p' \<and>
     plan_adapter_id p = plan_adapter_id p' \<and> plan_timeout_ms p = plan_timeout_ms p' \<and>
     ts_text (plan_created_at p) = ts_text (plan_created_at p') \<and>
     map_option ts_text (plan_expires_at p) = map_option ts_text (plan_expires_at p') \<and>
     same_or_collide sha (JObj (plan_normalized_inputs p)) (JObj (plan_normalized_inputs p')) \<and>
     same_or_collide sha (risk_json (plan_risk p)) (risk_json (plan_risk p')) \<and>
     same_or_collide sha (coverage_json (map norm_entry (plan_coverage p))) (coverage_json (map norm_entry (plan_coverage p'))) \<and>
     rel_option (\<lambda>v w. same_or_collide sha (verification_plan_json v) (verification_plan_json w))
       (plan_verification_plan p) (plan_verification_plan p') \<and>
     rel_option (\<lambda>v w. same_or_collide sha (rollback_plan_json v) (rollback_plan_json w))
       (plan_rollback_plan p) (plan_rollback_plan p')"

lemma digest_json_value_Inr: "digest_json_value sha v = Inr d \<longleftrightarrow> json_digest sha v = Inr d"
  by (auto simp: digest_json_value_def split: sum.splits throws.splits)

lemma same_or_collide_digest:
  "json_digest sha v = Inr d \<Longrightarrow> json_digest sha w = Inr d \<Longrightarrow> same_or_collide sha v w"
  using json_digest_binds unfolding same_or_collide_def .

lemma opt_digest_alike:
  assumes "opt_digest sha f x = Inr d" "opt_digest sha f y = Inr d"
  shows "rel_option (\<lambda>v w. same_or_collide sha (f v) (f w)) x y"
  using assms
  by (cases x; cases y) (auto simp: opt_digest_def digest_json_value_Inr intro: same_or_collide_digest)

text \<open>The digests a payload carries are those of the plan's parts.\<close>

lemma binding_payload_fields:
  assumes "binding_payload_for_plan sha p policy = Inr q"
  shows "payload_ok q" "bp_plan_id q = plan_id p" "bp_decision_id q = js_trim (plan_decision_id p)"
    "bp_capability_id q = plan_capability_id p" "bp_capability_version q = plan_capability_version p"
    "bp_adapter_id q = plan_adapter_id p" "bp_timeout_ms q = plan_timeout_ms p"
    "bp_created_at q = plan_created_at p" "bp_expires_at q = plan_expires_at p"
    "bp_policy_version q = js_trim policy"
    "json_digest sha (JObj (plan_normalized_inputs p)) = Inr (bp_inputs_digest q)"
    "json_digest sha (risk_json (plan_risk p)) = Inr (bp_risk_digest q)"
    "json_digest sha (coverage_json (map norm_entry (plan_coverage p))) = Inr (bp_coverage_digest q)"
    "opt_digest sha verification_plan_json (plan_verification_plan p) = Inr (bp_verification_digest q)"
    "opt_digest sha rollback_plan_json (plan_rollback_plan p) = Inr (bp_rollback_digest q)"
proof -
  have cov: "json_digest sha (coverage_json (map norm_entry es)) = Inr d" if "coverage_digest sha es = Inr d" for es d
    using that by (auto simp: coverage_digest_def parse_coverage_def parse_with_def Let_def split: if_splits)
  have inp: "json_digest sha (JObj ms) = Inr d" if "normalized_inputs_digest sha ms = Inr d" for ms d
    using that by (auto simp: normalized_inputs_digest_def split: if_splits)
  show "payload_ok q" "bp_plan_id q = plan_id p" "bp_decision_id q = js_trim (plan_decision_id p)"
    "bp_capability_id q = plan_capability_id p" "bp_capability_version q = plan_capability_version p"
    "bp_adapter_id q = plan_adapter_id p" "bp_timeout_ms q = plan_timeout_ms p"
    "bp_created_at q = plan_created_at p" "bp_expires_at q = plan_expires_at p"
    "bp_policy_version q = js_trim policy"
    "json_digest sha (JObj (plan_normalized_inputs p)) = Inr (bp_inputs_digest q)"
    "json_digest sha (risk_json (plan_risk p)) = Inr (bp_risk_digest q)"
    "json_digest sha (coverage_json (map norm_entry (plan_coverage p))) = Inr (bp_coverage_digest q)"
    "opt_digest sha verification_plan_json (plan_verification_plan p) = Inr (bp_verification_digest q)"
    "opt_digest sha rollback_plan_json (plan_rollback_plan p) = Inr (bp_rollback_digest q)"
    using assms unfolding binding_payload_for_plan_def build_binding_payload_def ebind_Inr_iff foreign_Inr zod_Inr
    by (auto simp: binding_inputs_of_def parse_payload_def parse_with_Some norm_payload_def digest_json_value_Inr
        dest: cov inp)
qed

lemma binding_payload_norm: "binding_payload_for_plan sha p policy = Inr q \<Longrightarrow> parse_payload q = Some q"
  unfolding binding_payload_for_plan_def build_binding_payload_def ebind_Inr_iff zod_Inr
  by (auto simp: parse_payload_def parse_with_Some norm_payload_def)

lemma binding_alike:
  assumes "plan_binding_digest sha p policy = Inr d" "plan_binding_digest sha p' policy' = Inr d"
  obtains q q' where "binding_payload_for_plan sha p policy = Inr q" "binding_payload_for_plan sha p' policy' = Inr q'"
    "digest_collision sha (payload_json q) (payload_json q') \<or> (bound_alike sha p p' \<and> js_trim policy = js_trim policy')"
proof -
  obtain q where q: "binding_payload_for_plan sha p policy = Inr q" "approval_binding_digest sha q = Inr d"
    using assms(1) by (auto simp: plan_binding_digest_def)
  obtain q' where q': "binding_payload_for_plan sha p' policy' = Inr q'" "approval_binding_digest sha q' = Inr d"
    using assms(2) by (auto simp: plan_binding_digest_def)
  have j: "json_digest sha (payload_json q) = Inr d" "json_digest sha (payload_json q') = Inr d"
    using q(2) q'(2) binding_payload_norm [OF q(1)] binding_payload_norm [OF q'(1)]
    by (auto simp: approval_binding_digest_def)
  note f = binding_payload_fields [OF q(1)] note f' = binding_payload_fields [OF q'(1)]
  have "bound_alike sha p p' \<and> js_trim policy = js_trim policy'" if "content (payload_json q) = content (payload_json q')"
  proof -
    from payload_content [OF f(1) f'(1) that]
    have eq: "bp_plan_id q = bp_plan_id q'" "bp_decision_id q = bp_decision_id q'" "bp_capability_id q = bp_capability_id q'"
      "bp_capability_version q = bp_capability_version q'" "bp_adapter_id q = bp_adapter_id q'"
      "bp_timeout_ms q = bp_timeout_ms q'" "bp_policy_version q = bp_policy_version q'"
      "bp_inputs_digest q = bp_inputs_digest q'" "bp_risk_digest q = bp_risk_digest q'"
      "bp_coverage_digest q = bp_coverage_digest q'" "bp_verification_digest q = bp_verification_digest q'"
      "bp_rollback_digest q = bp_rollback_digest q'"
      "ts_text (bp_created_at q) = ts_text (bp_created_at q')"
      "map_option ts_text (bp_expires_at q) = map_option ts_text (bp_expires_at q')"
      by (cases q; cases q'; simp)+
    show ?thesis unfolding bound_alike_def
      using eq f(2-10) f'(2-10) same_or_collide_digest [OF f(11)] f'(11) same_or_collide_digest [OF f(12)] f'(12)
        same_or_collide_digest [OF f(13)] f'(13) opt_digest_alike [OF f(14)] f'(14) opt_digest_alike [OF f(15)] f'(15)
      by simp
  qed
  then show ?thesis using that [OF q(1) q'(1)] json_digest_binds [OF j] by blast
qed

end
