(* ===== verification/Authorization_Store.thy ===== *)
theory Authorization_Store
  imports Approval
begin

text \<open>
  The server-owned store of plan authorizations
  (\<open>src/brain-server/src/approval/authorization-store.ts\<close>): a bounded map from plan ids to
  validated records that refuses new records when it is full and never evicts. It implements
  the bounded-store contract and the record-store contract below, which is what the
  authorization lifecycle relies on.
\<close>

record authorization_store =
  az_records :: "(string, plan_authorization) jsmap"
  az_max :: nat

definition new_authorization_store :: "int \<Rightarrow> authorization_store approval" where
  "new_authorization_store n = (if n \<le> 0 then Inl (Throws APPROVAL_INPUT_INVALID)
     else Inr \<lparr>az_records = [], az_max = nat n\<rparr>)"

definition validate_record :: "plan_authorization \<Rightarrow> plan_authorization approval" where
  "validate_record r = require (parse_authorization r) APPROVAL_INPUT_INVALID"

definition az_put :: "plan_authorization \<Rightarrow> authorization_store \<Rightarrow> authorization_store approval" where
  "az_put r s =
     ebind (validate_record r) (\<lambda>p. (let i = plan_id (pa_plan p) in
       if map_has (az_records s) i then Inl (Throws APPROVAL_STORE_CONFLICT)
       else if length (az_records s) \<ge> az_max s then Inl (Throws APPROVAL_STORE_FULL)
       else Inr (s\<lparr>az_records := map_set i p (az_records s)\<rparr>)))"

definition az_replace :: "plan_authorization \<Rightarrow> authorization_store \<Rightarrow> authorization_store approval" where
  "az_replace r s =
     ebind (validate_record r) (\<lambda>p. (let i = plan_id (pa_plan p) in
       if \<not> map_has (az_records s) i then Inl (Throws APPROVAL_PLAN_NOT_FOUND)
       else Inr (s\<lparr>az_records := map_set i p (az_records s)\<rparr>)))"

definition az_get :: "authorization_store \<Rightarrow> string \<Rightarrow> plan_authorization option" where
  "az_get s i = map_get (az_records s) i"

definition az_has :: "authorization_store \<Rightarrow> string \<Rightarrow> bool" where
  "az_has s i = map_has (az_records s) i"

definition discardable :: "plan_authorization \<Rightarrow> string \<Rightarrow> bool" where
  "discardable r decision_id \<longleftrightarrow> plan_decision_id (pa_plan r) = decision_id \<and>
     plan_state (pa_plan r) = Awaiting_approval \<and> plan_approval (pa_plan r) = None \<and> pa_grant r = None \<and>
     map_option apr_status (pa_request r) = Some Pending"

definition az_discard_uncommitted :: "string \<Rightarrow> string \<Rightarrow> authorization_store \<Rightarrow> bool \<times> authorization_store" where
  "az_discard_uncommitted i decision_id s = (case az_get s i of None \<Rightarrow> (False, s)
     | Some r \<Rightarrow> if discardable r decision_id then (True, s\<lparr>az_records := map_delete i (az_records s)\<rparr>) else (False, s))"

definition az_list :: "authorization_store \<Rightarrow> plan_authorization list" where
  "az_list s = sort_key (\<lambda>r. plan_id (pa_plan r)) (map_values (az_records s))"

section \<open>Invariant\<close>

text \<open>Every record is valid and filed under the id of its plan.\<close>

definition az_invar :: "authorization_store \<Rightarrow> bool" where
  "az_invar s \<longleftrightarrow> keys_distinct (az_records s) \<and> length (az_records s) \<le> az_max s \<and>
     (\<forall>i r. az_get s i = Some r \<longrightarrow> plan_id (pa_plan r) = i \<and> parse_authorization r = Some r)"

lemma norm_approval_request_idem [simp]: "norm_approval_request (norm_approval_request r) = norm_approval_request r"
  by (simp add: norm_approval_request_def comp_def)

lemma norm_actor_idem [simp]: "norm_actor (norm_actor a) = norm_actor a"
  by (simp add: norm_actor_def)

lemma norm_grant_record_idem [simp]: "norm_grant_record (norm_grant_record g) = norm_grant_record g"
  by (simp add: norm_grant_record_def)

lemma norm_authorization_idem [simp]: "norm_authorization (norm_authorization r) = norm_authorization r"
  by (cases "pa_request r"; cases "pa_grant r") (simp_all add: norm_authorization_def)

lemma parse_authorization_idem: "parse_authorization r = Some p \<Longrightarrow> parse_authorization p = Some p"
  by (auto simp: parse_authorization_def parse_with_Some)

lemma validate_record_Inr: "validate_record r = Inr p \<longleftrightarrow> parse_authorization r = Some p"
  by (simp add: validate_record_def)

lemma az_put_Inr: "az_put r s = Inr s' \<longleftrightarrow> (\<exists>p. parse_authorization r = Some p \<and>
    az_get s (plan_id (pa_plan p)) = None \<and> length (az_records s) < az_max s \<and>
    s' = s\<lparr>az_records := map_set (plan_id (pa_plan p)) p (az_records s)\<rparr>)"
  by (auto simp: az_put_def ebind_Inr_iff validate_record_Inr Let_def map_has_def az_get_def)

lemma az_replace_Inr: "az_replace r s = Inr s' \<longleftrightarrow> (\<exists>p q. parse_authorization r = Some p \<and>
    az_get s (plan_id (pa_plan p)) = Some q \<and>
    s' = s\<lparr>az_records := map_set (plan_id (pa_plan p)) p (az_records s)\<rparr>)"
  by (auto simp: az_replace_def ebind_Inr_iff validate_record_Inr Let_def map_has_def az_get_def)

lemma az_put_invar: "az_invar s \<Longrightarrow> az_put r s = Inr s' \<Longrightarrow> az_invar s'"
  by (auto simp: az_put_Inr az_invar_def az_get_def map_get_set length_map_set map_has_def
      intro: parse_authorization_idem split: if_splits)

lemma az_replace_invar: "az_invar s \<Longrightarrow> az_replace r s = Inr s' \<Longrightarrow> az_invar s'"
  by (auto simp: az_replace_Inr az_invar_def az_get_def map_get_set length_map_set map_has_def
      intro: parse_authorization_idem split: if_splits)

lemma az_discard_invar: "az_invar s \<Longrightarrow> az_invar (snd (az_discard_uncommitted i d s))"
  using length_map_delete_le [of i "az_records s"]
  by (auto simp: az_discard_uncommitted_def az_invar_def az_get_def map_get_delete split: option.splits)

section \<open>Contracts\<close>

text \<open>What a client of a record store relies on: lookups after each operation.\<close>

locale record_store =
  fixes lookup :: "'s \<Rightarrow> string \<Rightarrow> 'r option"
    and insert_new :: "'r \<Rightarrow> 's \<Rightarrow> 'e + 's"
    and update_old :: "'r \<Rightarrow> 's \<Rightarrow> 'e + 's"
    and key :: "'r \<Rightarrow> string"
    and canon :: "'r \<Rightarrow> 'r option"
  assumes insert_lookup: "insert_new r s = Inr s' \<Longrightarrow>
      \<exists>p. canon r = Some p \<and> lookup s (key p) = None \<and> lookup s' = (lookup s)(key p \<mapsto> p)"
    and update_lookup: "update_old r s = Inr s' \<Longrightarrow>
      \<exists>p. canon r = Some p \<and> lookup s (key p) \<noteq> None \<and> lookup s' = (lookup s)(key p \<mapsto> p)"
begin

lemma update_get: "update_old r s = Inr s' \<Longrightarrow> canon r = Some p \<Longrightarrow> lookup s' (key p) = Some p"
  using update_lookup [of r s s'] by auto

lemma update_other: "update_old r s = Inr s' \<Longrightarrow> canon r = Some p \<Longrightarrow> i \<noteq> key p \<Longrightarrow> lookup s' i = lookup s i"
  using update_lookup [of r s s'] by auto

lemma insert_get: "insert_new r s = Inr s' \<Longrightarrow> canon r = Some p \<Longrightarrow> lookup s' (key p) = Some p"
  using insert_lookup [of r s s'] by auto

lemma insert_keeps: "insert_new r s = Inr s' \<Longrightarrow> lookup s i = Some x \<Longrightarrow> lookup s' i = Some x"
  using insert_lookup [of r s s'] by auto

lemma update_dom: "update_old r s = Inr s' \<Longrightarrow> dom (lookup s') = dom (lookup s)"
  using update_lookup [of r s s'] by (auto split: if_splits)

end

interpretation az: record_store az_get az_put az_replace "\<lambda>r. plan_id (pa_plan r)" parse_authorization
  by standard (auto simp: az_put_Inr az_replace_Inr az_get_def map_get_set fun_eq_iff)

datatype az_op = AzPut plan_authorization | AzReplace plan_authorization | AzDiscard string string

fun az_step :: "az_op \<Rightarrow> authorization_store \<Rightarrow> authorization_store approval" where
  "az_step (AzPut r) s = az_put r s"
| "az_step (AzReplace r) s = az_replace r s"
| "az_step (AzDiscard i d) s = Inr (snd (az_discard_uncommitted i d s))"

lemma az_step_invar: "az_invar s \<Longrightarrow> az_step op s = Inr s' \<Longrightarrow> az_invar s'"
  by (cases op) (auto intro: az_put_invar az_replace_invar az_discard_invar)

lemma az_step_max: "az_step op s = Inr s' \<Longrightarrow> az_max s' = az_max s"
  by (cases op) (auto simp: az_put_Inr az_replace_Inr az_discard_uncommitted_def split: option.splits if_splits)

interpretation azb: bounded_store "\<lambda>s. length (az_records s)" az_max az_invar az_step
proof
  fix s s' :: authorization_store and op
  show "az_invar s \<Longrightarrow> length (az_records s) \<le> az_max s" by (simp add: az_invar_def)
  show "az_invar s \<Longrightarrow> az_step op s = Inr s' \<Longrightarrow> az_invar s'" by (rule az_step_invar)
  show "az_step op s = Inr s' \<Longrightarrow> az_max s' = az_max s" by (rule az_step_max)
qed

text \<open>A record that is not a discardable pending one is still there, in some version, after any operation.\<close>

lemma az_step_keeps:
  assumes "az_step op s = Inr s'" "az_get s i = Some r" "\<And>d. \<not> discardable r d"
  shows "az_get s' i \<noteq> None"
proof (cases op)
  case (AzPut p)
  then show ?thesis using assms az.insert_keeps by fastforce
next
  case (AzReplace p)
  then have "i \<in> dom (az_get s')" using assms(1,2) az.update_dom by fastforce
  then show ?thesis by auto
next
  case (AzDiscard j d)
  then show ?thesis using assms
    by (auto simp: az_discard_uncommitted_def az_get_def map_get_delete split: option.splits)
qed

text \<open>The authorization store never drops an authorization to make room. Any sequence of operations stays
  within the bound and keeps every record valid and filed under its plan id; an insertion into a
  full store is refused; and the only removal, the compensation of an uncommitted revision, leaves
  every record in place that carries a grant or an approval, is not awaiting approval, has no
  pending request, or belongs to another decision.\<close>
lemma authorization_store_never_evicts:
  assumes "az_invar s"
  shows "az_invar (fold azb.apply_op ops s) \<and> length (az_records (fold azb.apply_op ops s)) \<le> az_max s \<and>
    (length (az_records s) < az_max s \<or> (\<exists>e. az_put r s = Inl e)) \<and>
    (discardable x d \<or> az_get s i \<noteq> Some x \<or> az_get (snd (az_discard_uncommitted i d s)) i = Some x)"
proof (intro conjI)
  show "az_invar (fold azb.apply_op ops s)" using assms by (rule azb.run_invar)
  show "length (az_records (fold azb.apply_op ops s)) \<le> az_max s" using assms by (rule azb.run_bound)
  show "length (az_records s) < az_max s \<or> (\<exists>e. az_put r s = Inl e)"
    by (cases "az_put r s") (auto simp: az_put_Inr)
  show "discardable x d \<or> az_get s i \<noteq> Some x \<or> az_get (snd (az_discard_uncommitted i d s)) i = Some x"
    by (auto simp: az_discard_uncommitted_def split: option.splits)
qed

end
