(* ===== verification/Guard_Policy.thy ===== *)
theory Guard_Policy
  imports Execution
begin

text \<open>
  The deterministic guard policy (\<open>src/brain-server/src/evidence/guard-policy.ts\<close>) over the
  control types of \<open>guard-types.ts\<close>: classification of an unsatisfied class from structured
  provider outcomes, choice of the control action, and detection of coverage regressions.
\<close>

section \<open>Control types\<close>

datatype guard_action = Proceed | Retrieve_more | Clarify | Defer | Block

datatype provider_outcome_kind =
    PO_collected | PO_not_found | PO_temporary_unavailable | PO_permanent_unavailable
  | PO_user_context_required | PO_provider_error | PO_collection_limit_exceeded

datatype guard_reason_code =
    EVIDENCE_SATISFIED | EVIDENCE_MISSING | EVIDENCE_STALE | EVIDENCE_UNVERIFIED | EVIDENCE_CONFLICT
  | RETRIEVAL_AVAILABLE | RETRIEVAL_EXHAUSTED | USER_CONTEXT_REQUIRED | PROVIDER_TEMPORARY_UNAVAILABLE
  | PROVIDER_PERMANENT_UNAVAILABLE | PROVIDER_ERROR | COLLECTION_LIMIT_EXCEEDED | COVERAGE_REGRESSION
  | GUARD_ABORTED

record provider_outcome =
  po_class :: string
  po_kind :: provider_outcome_kind
  po_retryable :: "bool option"
  po_alternate :: "bool option"
  po_clarification_key :: "string option"
  po_note :: "string option"

definition norm_outcome :: "provider_outcome \<Rightarrow> provider_outcome" where
  "norm_outcome x = x\<lparr>po_clarification_key := map_option js_trim (po_clarification_key x)\<rparr>"

definition provider_outcome_ok :: "provider_outcome \<Rightarrow> bool" where
  "provider_outcome_ok x \<longleftrightarrow> evidence_class_ok (po_class x) \<and> opt_ok (len_ok 200) (po_clarification_key x) \<and>
     opt_ok (\<lambda>n. length n \<le> 2000) (po_note x)"

definition parse_outcome :: "provider_outcome \<Rightarrow> provider_outcome option" where
  "parse_outcome = parse_with norm_outcome provider_outcome_ok"

section \<open>Classification\<close>

datatype class_final_kind = Hard_gap | User_context | Temporary

record class_decision =
  cd_class :: string
  cd_can_retry :: bool
  cd_kind :: class_final_kind
  cd_reasons :: "guard_reason_code list"

definition retry_flags :: "provider_outcome \<Rightarrow> bool" where
  "retry_flags x \<longleftrightarrow> po_retryable x = Some True \<or> po_alternate x = Some True"

definition has_kind :: "provider_outcome_kind \<Rightarrow> provider_outcome list \<Rightarrow> bool" where
  "has_kind k outs = list_ex (\<lambda>x. po_kind x = k) outs"

definition decision :: "string \<Rightarrow> bool \<Rightarrow> class_final_kind \<Rightarrow> guard_reason_code list \<Rightarrow> class_decision" where
  "decision c retry k codes = \<lparr>cd_class = c, cd_can_retry = retry, cd_kind = k, cd_reasons = codes\<rparr>"

definition classify_class_control :: "string \<Rightarrow> provider_outcome list \<Rightarrow> bool \<Rightarrow> class_decision" where
  "classify_class_control c outs attempted =
     (let retry = list_ex retry_flags outs in
      if has_kind PO_permanent_unavailable outs then decision c False Hard_gap [PROVIDER_PERMANENT_UNAVAILABLE]
      else if has_kind PO_collection_limit_exceeded outs then decision c False Hard_gap [COLLECTION_LIMIT_EXCEEDED]
      else if has_kind PO_provider_error outs then
        decision c retry Hard_gap (if retry then [PROVIDER_ERROR, RETRIEVAL_AVAILABLE] else [PROVIDER_ERROR])
      else if has_kind PO_user_context_required outs then decision c False User_context [USER_CONTEXT_REQUIRED]
      else if has_kind PO_temporary_unavailable outs then
        decision c retry Temporary (if retry then [PROVIDER_TEMPORARY_UNAVAILABLE, RETRIEVAL_AVAILABLE]
          else [PROVIDER_TEMPORARY_UNAVAILABLE])
      else if has_kind PO_collected outs \<or> has_kind PO_not_found outs then
        decision c retry Hard_gap (if retry then [RETRIEVAL_AVAILABLE] else [RETRIEVAL_EXHAUSTED])
      else if \<not> attempted then decision c True Hard_gap [RETRIEVAL_AVAILABLE]
      else decision c False Hard_gap [RETRIEVAL_EXHAUSTED])"

fun status_reason_code :: "evidence_status option \<Rightarrow> guard_reason_code" where
  "status_reason_code None = EVIDENCE_MISSING"
| "status_reason_code (Some Missing) = EVIDENCE_MISSING"
| "status_reason_code (Some Stale) = EVIDENCE_STALE"
| "status_reason_code (Some Unverified) = EVIDENCE_UNVERIFIED"
| "status_reason_code (Some Conflicted) = EVIDENCE_CONFLICT"
| "status_reason_code (Some Present) = EVIDENCE_UNVERIFIED"

definition unsatisfied_status_codes :: "assessment \<Rightarrow> guard_reason_code list" where
  "unsatisfied_status_codes a = map (\<lambda>e. status_reason_code (ae_status e)) (filter (\<lambda>e. \<not> ae_satisfied e) (as_entries a))"

section \<open>Choice of the action\<close>

record control_choice =
  cc_action :: guard_action
  cc_requested :: "string list"
  cc_reasons :: "guard_reason_code list"

definition choose_control_action :: "assessment \<Rightarrow> class_decision list \<Rightarrow> nat \<Rightarrow> nat \<Rightarrow> control_choice" where
  "choose_control_action a ds rounds_used max_rounds =
     (let retryable = filter cd_can_retry ds; status_codes = unsatisfied_status_codes a in
      if as_mandatory_satisfied a then \<lparr>cc_action = Proceed, cc_requested = [], cc_reasons = [EVIDENCE_SATISFIED]\<rparr>
      else if rounds_used < max_rounds \<and> retryable \<noteq> [] then
        \<lparr>cc_action = Retrieve_more, cc_requested = sort (map cd_class retryable),
         cc_reasons = uniq (RETRIEVAL_AVAILABLE # status_codes)\<rparr>
      else if list_ex (\<lambda>d. cd_kind d = Hard_gap) ds then
        \<lparr>cc_action = Block, cc_requested = [],
         cc_reasons = uniq ([RETRIEVAL_EXHAUSTED]
           @ concat (map cd_reasons (filter (\<lambda>d. cd_kind d = Hard_gap) ds)) @ status_codes)\<rparr>
      else if list_ex (\<lambda>d. cd_kind d = User_context) ds then
        \<lparr>cc_action = Clarify, cc_requested = [], cc_reasons = uniq (USER_CONTEXT_REQUIRED # status_codes)\<rparr>
      else if list_ex (\<lambda>d. cd_kind d = Temporary) ds then
        \<lparr>cc_action = Defer, cc_requested = [], cc_reasons = uniq (PROVIDER_TEMPORARY_UNAVAILABLE # status_codes)\<rparr>
      else \<lparr>cc_action = Block, cc_requested = [], cc_reasons = uniq (RETRIEVAL_EXHAUSTED # status_codes)\<rparr>)"

section \<open>Coverage regression\<close>

definition regressed_class :: "coverage_snapshot \<Rightarrow> coverage_snapshot \<Rightarrow> assessment_entry \<Rightarrow> bool" where
  "regressed_class prev new assessed =
     (if \<not> ae_satisfied assessed then False
      else case entry_by_class prev (ae_class assessed) of None \<Rightarrow> False
      | Some p \<Rightarrow> (case entry_by_class new (ae_class assessed) of None \<Rightarrow> True
         | Some n \<Rightarrow> (case cov_status n of Missing \<Rightarrow> True
             | Present \<Rightarrow> verification_rank (cov_level n) < verification_rank (cov_level p)
             | _ \<Rightarrow> False)))"

definition detect_coverage_regression ::
  "coverage_snapshot \<Rightarrow> coverage_snapshot \<Rightarrow> assessment \<Rightarrow> string list" where
  "detect_coverage_regression prev new a = map ae_class (filter (regressed_class prev new) (as_entries a))"

definition evidence_gate_cleared :: "guard_action \<Rightarrow> bool" where
  "evidence_gate_cleared a \<longleftrightarrow> a = Proceed"

section \<open>Properties of the policy\<close>

lemma choose_proceed: "cc_action (choose_control_action a ds n m) = Proceed \<longleftrightarrow> as_mandatory_satisfied a"
  by (simp add: choose_control_action_def Let_def)

lemma choose_retrieve:
  "cc_action (choose_control_action a ds n m) = Retrieve_more \<longleftrightarrow>
   \<not> as_mandatory_satisfied a \<and> n < m \<and> list_ex cd_can_retry ds"
  by (auto simp: choose_control_action_def Let_def list_ex_iff filter_empty_conv)

lemma choose_requested:
  "set (cc_requested (choose_control_action a ds n m)) =
   (if cc_action (choose_control_action a ds n m) = Retrieve_more then cd_class ` {d \<in> set ds. cd_can_retry d} else {})"
  by (auto simp: choose_control_action_def Let_def)

text \<open>The guard's action follows one precedence. It proceeds exactly when the mandatory evidence is
  satisfied, retrieves more only while budget remains and only for retryable classes, and on an
  exhausted budget a hard gap blocks before a need for user context clarifies before a temporary
  outage defers.\<close>
lemma control_action_precedence:
  "cc_action (choose_control_action a ds n m) =
   (if as_mandatory_satisfied a then Proceed
    else if n < m \<and> list_ex cd_can_retry ds then Retrieve_more
    else if list_ex (\<lambda>d. cd_kind d = Hard_gap) ds then Block
    else if list_ex (\<lambda>d. cd_kind d = User_context) ds then Clarify
    else if list_ex (\<lambda>d. cd_kind d = Temporary) ds then Defer else Block) \<and>
   set (cc_requested (choose_control_action a ds n m)) \<subseteq> set (map cd_class (filter cd_can_retry ds))"
  by (auto simp: choose_control_action_def Let_def list_ex_iff filter_empty_conv)

lemma classify_class [simp]: "cd_class (classify_class_control c outs attempted) = c"
  by (simp add: classify_class_control_def decision_def Let_def)

text \<open>After an attempt without any structured signal a class is never retried.\<close>

lemma classify_no_signal: "cd_can_retry (classify_class_control c [] attempted) \<longleftrightarrow> \<not> attempted"
  by (simp add: classify_class_control_def decision_def has_kind_def)

lemma classify_retry:
  "cd_can_retry (classify_class_control c outs attempted) \<Longrightarrow> list_ex retry_flags outs \<or> \<not> attempted"
  by (auto simp: classify_class_control_def decision_def Let_def split: if_splits)

end
