(* ===== verification/Guard.thy ===== *)
theory Guard
  imports Guard_Policy
begin

text \<open>
  The evidence guard loop (\<open>src/brain-server/src/evidence/guard.ts\<close>). The injected collection
  callback is a parameter: what the call of round \<open>n\<close> answers, given the previous coverage
  and the requested classes. A call either returns a coverage and outcomes, both untrusted, or
  fails with an abort error (with the state of the external and of the timeout signal) or with
  another error. The loop is shown to end within the requested number of rounds, at most ten,
  whatever the callback answers.
\<close>

section \<open>Requests, responses, results\<close>

record guard_request =
  g_requirements :: "evidence_requirement list"
  g_initial_coverage :: "coverage_snapshot option"
  g_max_rounds :: nat
  g_timeout_ms :: int
  g_correlation :: "string option"
  g_context :: "json_object option"

definition norm_guard_request :: "guard_request \<Rightarrow> guard_request" where
  "norm_guard_request g = g\<lparr>g_initial_coverage := map_option (map norm_entry) (g_initial_coverage g),
     g_correlation := map_option js_trim (g_correlation g)\<rparr>"

definition max_retrieval_rounds :: nat where
  "max_retrieval_rounds = 10"

definition guard_request_ok :: "guard_request \<Rightarrow> bool" where
  "guard_request_ok g \<longleftrightarrow> list_all evidence_requirement_ok (g_requirements g) \<and> length (g_requirements g) \<le> 100 \<and>
     opt_ok coverage_snapshot_ok (g_initial_coverage g) \<and> g_max_rounds g \<le> max_retrieval_rounds \<and>
     timeout_ok (g_timeout_ms g) \<and> opt_ok (len_ok 200) (g_correlation g) \<and>
     opt_ok (\<lambda>ms. json_object_ok ms \<and> no_forbidden_key ms) (g_context g)"

definition parse_guard_request :: "guard_request \<Rightarrow> guard_request option" where
  "parse_guard_request = parse_with norm_guard_request guard_request_ok"

datatype collect_response =
    Returned "coverage_snapshot raw" "provider_outcome raw list"
  | Abort_error bool bool
  | Other_error

type_synonym collector = "nat \<Rightarrow> coverage_snapshot \<Rightarrow> string list \<Rightarrow> collect_response"

record trace_round =
  tr_round :: nat
  tr_checked_at :: "string option"
  tr_requested :: "string list"
  tr_mandatory_satisfied :: bool
  tr_missing_mandatory :: "string list"
  tr_blocking :: "finding list"
  tr_action :: guard_action
  tr_reasons :: "guard_reason_code list"

record clarification_need =
  cn_class :: string
  cn_key :: string

record guard_result =
  gr_action :: guard_action
  gr_rounds :: nat
  gr_coverage :: coverage_snapshot
  gr_assessment :: assessment
  gr_requested :: "string list"
  gr_remaining :: "string list"
  gr_reasons :: "guard_reason_code list"
  gr_outcomes :: "provider_outcome list"
  gr_warnings :: "finding list"
  gr_non_blocking :: "finding list"
  gr_needs :: "clarification_need list"
  gr_trace :: "trace_round list"
  gr_aborted :: bool
  gr_correlation :: "string option"

record guard_state =
  gs_coverage :: coverage_snapshot
  gs_assessment :: assessment
  gs_trace :: "trace_round list"
  gs_requested :: "string list"
  gs_outcomes :: "provider_outcome list"
  gs_warnings :: "finding list"
  gs_non_blocking :: "finding list"
  gs_latest :: "(string, provider_outcome list) jsmap"
  gs_attempted :: "string list"
  gs_rounds :: nat

section \<open>Helpers\<close>

definition latest_checked_at :: "coverage_snapshot \<Rightarrow> string option" where
  "latest_checked_at es = (let times = sort (map (\<lambda>e. ts_text (cov_checked_at e)) es) in
     if times = [] then None else Some (last times))"

definition make_trace_round ::
  "nat \<Rightarrow> coverage_snapshot \<Rightarrow> assessment \<Rightarrow> guard_action \<Rightarrow> guard_reason_code list \<Rightarrow> string list \<Rightarrow> trace_round" where
  "make_trace_round n es a act codes requested =
     \<lparr>tr_round = n, tr_checked_at = latest_checked_at es, tr_requested = requested,
      tr_mandatory_satisfied = as_mandatory_satisfied a, tr_missing_mandatory = as_missing_mandatory a,
      tr_blocking = as_blocking_reasons a, tr_action = act, tr_reasons = uniq codes\<rparr>"

definition fail_closed :: "guard_request \<Rightarrow> guard_state \<Rightarrow> guard_reason_code list \<Rightarrow> guard_result" where
  "fail_closed g s codes = \<lparr>gr_action = Block, gr_rounds = gs_rounds s, gr_coverage = gs_coverage s,
     gr_assessment = gs_assessment s, gr_requested = sorted_unique (gs_requested s),
     gr_remaining = sort (as_missing_mandatory (gs_assessment s)), gr_reasons = uniq codes,
     gr_outcomes = gs_outcomes s, gr_warnings = uniq (gs_warnings s), gr_non_blocking = uniq (gs_non_blocking s),
     gr_needs = [], gr_trace = gs_trace s, gr_aborted = False, gr_correlation = g_correlation g\<rparr>"

definition finalize ::
  "guard_request \<Rightarrow> guard_state \<Rightarrow> guard_action \<Rightarrow> guard_reason_code list \<Rightarrow> clarification_need list \<Rightarrow> bool \<Rightarrow> guard_result" where
  "finalize g s act codes needs aborted = \<lparr>gr_action = act, gr_rounds = gs_rounds s, gr_coverage = gs_coverage s,
     gr_assessment = gs_assessment s, gr_requested = sorted_unique (gs_requested s),
     gr_remaining = sort (as_missing_mandatory (gs_assessment s)), gr_reasons = uniq codes,
     gr_outcomes = gs_outcomes s, gr_warnings = uniq (gs_warnings s @ as_warnings (gs_assessment s)),
     gr_non_blocking = uniq (gs_non_blocking s @ as_non_blocking (gs_assessment s)),
     gr_needs = needs, gr_trace = gs_trace s, gr_aborted = aborted, gr_correlation = g_correlation g\<rparr>"

definition latest_for :: "guard_state \<Rightarrow> string \<Rightarrow> provider_outcome list" where
  "latest_for s c = (case map_get (gs_latest s) c of None \<Rightarrow> [] | Some outs \<Rightarrow> outs)"

definition decisions_for :: "guard_request \<Rightarrow> guard_state \<Rightarrow> class_decision list" where
  "decisions_for g s =
     (let by_class = map_of (rev (map (\<lambda>e. (ae_class e, e)) (as_entries (gs_assessment s)))) in
      map (\<lambda>r. classify_class_control (req_class r) (latest_for s (req_class r)) (req_class r \<in> set (gs_attempted s)))
        (filter (\<lambda>r. case by_class (req_class r) of None \<Rightarrow> False | Some e \<Rightarrow> req_mandatory r \<and> \<not> ae_satisfied e)
          (g_requirements g)))"

definition clarification_needs_for :: "guard_state \<Rightarrow> class_decision list \<Rightarrow> clarification_need list" where
  "clarification_needs_for s ds = map (\<lambda>d.
     \<lparr>cn_class = cd_class d, cn_key =
       (case Option.bind (find (\<lambda>x. po_kind x = PO_user_context_required) (latest_for s (cd_class d))) po_clarification_key of
          None \<Rightarrow> cd_class d | Some k \<Rightarrow> k)\<rparr>) (filter (\<lambda>d. cd_kind d = User_context) ds)"

definition record_round_outcomes ::
  "provider_outcome list \<Rightarrow> (string, provider_outcome list) jsmap \<Rightarrow> (string, provider_outcome list) jsmap" where
  "record_round_outcomes outs latest =
     fold (\<lambda>c. map_set c (filter (\<lambda>x. po_class x = c) outs)) (uniq (map po_class outs)) latest"

definition assess_into :: "guard_request \<Rightarrow> guard_state \<Rightarrow> guard_state" where
  "assess_into g s = (let a = assess_evidence_coverage (g_requirements g) (gs_coverage s) in
     s\<lparr>gs_assessment := a, gs_non_blocking := gs_non_blocking s @ as_non_blocking a,
       gs_warnings := gs_warnings s @ as_warnings a\<rparr>)"

section \<open>One round\<close>

fun shaped :: "'a raw \<Rightarrow> 'a option" where
  "shaped Malformed = None"
| "shaped (Shaped x) = Some x"

definition valid_outcome :: "provider_outcome raw \<Rightarrow> bool" where
  "valid_outcome r = (case r of Malformed \<Rightarrow> False | Shaped x \<Rightarrow> parse_outcome x \<noteq> None)"

definition timeout_outcome :: "string \<Rightarrow> provider_outcome" where
  "timeout_outcome c = \<lparr>po_class = c, po_kind = PO_temporary_unavailable, po_retryable = Some True,
     po_alternate = None, po_clarification_key = None, po_note = Some ''per-round collection timeout''\<rparr>"

text \<open>What the answer of the callback does to the state: the guard returns, or goes on.\<close>

definition absorb_response ::
  "guard_request \<Rightarrow> guard_state \<Rightarrow> string list \<Rightarrow> collect_response \<Rightarrow> guard_result + guard_state" where
  "absorb_response g s requested resp = (case resp of
     Abort_error external timeout \<Rightarrow>
       if external then Inl (finalize g s Defer [GUARD_ABORTED] [] True)
       else if timeout then
         (let synthetic = map timeout_outcome requested in
          Inr (s\<lparr>gs_outcomes := gs_outcomes s @ synthetic,
            gs_latest := record_round_outcomes synthetic (gs_latest s), gs_rounds := Suc (gs_rounds s)\<rparr>))
       else Inl (finalize g s Defer [GUARD_ABORTED] [] True)
   | Other_error \<Rightarrow> Inl (fail_closed g s [PROVIDER_ERROR])
   | Returned raw_coverage raw_outcomes \<Rightarrow>
       (case Option.bind (shaped raw_coverage) parse_coverage of
          None \<Rightarrow> Inl (fail_closed g s [PROVIDER_ERROR])
        | Some next_coverage \<Rightarrow>
          if \<not> list_all valid_outcome raw_outcomes then Inl (fail_closed g s [PROVIDER_ERROR])
          else if detect_coverage_regression (gs_coverage s) next_coverage (gs_assessment s) \<noteq> []
          then Inl (finalize g s Block [COVERAGE_REGRESSION] [] False)
          else
            (let outs = List.map_filter shaped raw_outcomes;
                 s' = assess_into g (s\<lparr>gs_coverage := next_coverage, gs_outcomes := gs_outcomes s @ outs,
                   gs_latest := record_round_outcomes outs (gs_latest s), gs_rounds := Suc (gs_rounds s)\<rparr>) in
             if as_mandatory_satisfied (gs_assessment s') then
               Inl (finalize g (s'\<lparr>gs_trace := gs_trace s' @ [make_trace_round (gs_rounds s') (gs_coverage s')
                   (gs_assessment s') Proceed [EVIDENCE_SATISFIED] []]\<rparr>) Proceed [EVIDENCE_SATISFIED] [] False)
             else Inr s')))"

definition guard_round :: "guard_request \<Rightarrow> collector \<Rightarrow> guard_state \<Rightarrow> guard_result + guard_state" where
  "guard_round g collect s =
     (let ds = decisions_for g s;
          control = choose_control_action (gs_assessment s) ds (gs_rounds s) (g_max_rounds g);
          s1 = s\<lparr>gs_trace := gs_trace s @ [make_trace_round (gs_rounds s) (gs_coverage s) (gs_assessment s)
            (cc_action control) (cc_reasons control) (cc_requested control)]\<rparr> in
      if cc_action control \<noteq> Retrieve_more
      then Inl (finalize g s1 (cc_action control) (cc_reasons control)
        (if cc_action control = Clarify then clarification_needs_for s1 ds else []) False)
      else
        (let requested = cc_requested control;
             s2 = s1\<lparr>gs_attempted := gs_attempted s1 @ requested, gs_requested := gs_requested s1 @ requested\<rparr> in
         absorb_response g s2 requested (collect (Suc (gs_rounds s)) (gs_coverage s) requested)))"

lemma absorb_rounds: "absorb_response g s requested resp = Inr s' \<Longrightarrow> gs_rounds s' = Suc (gs_rounds s)"
  by (auto simp: absorb_response_def assess_into_def Let_def split: collect_response.splits option.splits if_splits)

lemma guard_round_rounds: "guard_round g collect s = Inr s' \<Longrightarrow> gs_rounds s' = Suc (gs_rounds s)"
  by (auto simp: guard_round_def Let_def split: if_splits dest: absorb_rounds)

section \<open>The loop\<close>

definition guard_exhausted :: "guard_request \<Rightarrow> guard_state \<Rightarrow> guard_result" where
  "guard_exhausted g s =
     (let ds = decisions_for g s;
          control = choose_control_action (gs_assessment s) ds (gs_rounds s) (g_max_rounds g);
          s1 = s\<lparr>gs_trace := gs_trace s @ [make_trace_round (gs_rounds s) (gs_coverage s) (gs_assessment s)
            (cc_action control) (cc_reasons control) []]\<rparr> in
      finalize g s1 (cc_action control) (cc_reasons control)
        (if cc_action control = Clarify then clarification_needs_for s1 ds else []) False)"

function guard_loop :: "guard_request \<Rightarrow> collector \<Rightarrow> guard_state \<Rightarrow> guard_result" where
  "guard_loop g collect s =
     (if gs_rounds s < g_max_rounds g
      then (case guard_round g collect s of Inl r \<Rightarrow> r | Inr s' \<Rightarrow> guard_loop g collect s')
      else guard_exhausted g s)"
  by pat_completeness auto

termination
  by (relation "measure (\<lambda>(g, c, s). g_max_rounds g - gs_rounds s)") (auto dest: guard_round_rounds)

declare guard_loop.simps [simp del]

definition run_evidence_guard :: "guard_request raw \<Rightarrow> collector \<Rightarrow> evidence_error_code throws + guard_result" where
  "run_evidence_guard raw collect = (case Option.bind (shaped raw) parse_guard_request of
     None \<Rightarrow> Inl NativeError
   | Some g \<Rightarrow> (case parse_coverage (case g_initial_coverage g of None \<Rightarrow> [] | Some es \<Rightarrow> es) of
       None \<Rightarrow> Inl NativeError
     | Some _ \<Rightarrow>
       (let s = assess_into g \<lparr>gs_coverage = (case g_initial_coverage g of None \<Rightarrow> [] | Some es \<Rightarrow> es),
            gs_assessment = assess_evidence_coverage [] [], gs_trace = [], gs_requested = [], gs_outcomes = [],
            gs_warnings = [], gs_non_blocking = [], gs_latest = [], gs_attempted = [], gs_rounds = 0\<rparr> in
        if as_mandatory_satisfied (gs_assessment s)
        then Inr (finalize g (s\<lparr>gs_trace := [make_trace_round 0 (gs_coverage s) (gs_assessment s) Proceed
            [EVIDENCE_SATISFIED] []]\<rparr>) Proceed [EVIDENCE_SATISFIED] [] False)
        else Inr (guard_loop g collect s))))"

section \<open>Invariant of the loop\<close>

text \<open>
  Inside the loop the assessment is that of the current coverage and is not satisfied, only
  mandatory classes have been requested, and the budget is kept.
\<close>

definition guard_inv :: "guard_request \<Rightarrow> guard_state \<Rightarrow> bool" where
  "guard_inv g s \<longleftrightarrow> gs_assessment s = assess_evidence_coverage (g_requirements g) (gs_coverage s) \<and>
     \<not> as_mandatory_satisfied (gs_assessment s) \<and> gs_rounds s \<le> g_max_rounds g \<and>
     set (gs_requested s) \<subseteq> set (map req_class (filter req_mandatory (g_requirements g)))"

definition guard_result_ok :: "guard_request \<Rightarrow> guard_result \<Rightarrow> bool" where
  "guard_result_ok g r \<longleftrightarrow> gr_assessment r = assess_evidence_coverage (g_requirements g) (gr_coverage r) \<and>
     (gr_action r = Proceed \<longleftrightarrow> as_mandatory_satisfied (gr_assessment r)) \<and> gr_action r \<noteq> Retrieve_more \<and>
     gr_rounds r \<le> g_max_rounds g \<and>
     set (gr_requested r) \<subseteq> set (map req_class (filter req_mandatory (g_requirements g)))"

lemma decisions_mandatory:
  "cd_class ` set (decisions_for g s) \<subseteq> set (map req_class (filter req_mandatory (g_requirements g)))"
  by (auto simp: decisions_for_def Let_def split: option.splits)

lemma finalize_ok:
  assumes "gs_assessment s = assess_evidence_coverage (g_requirements g) (gs_coverage s)"
    "gs_rounds s \<le> g_max_rounds g" "act \<noteq> Retrieve_more"
    "set (gs_requested s) \<subseteq> set (map req_class (filter req_mandatory (g_requirements g)))"
    "act = Proceed \<longleftrightarrow> as_mandatory_satisfied (gs_assessment s)"
  shows "guard_result_ok g (finalize g s act codes needs aborted)"
  using assms by (simp add: guard_result_ok_def finalize_def)

lemma fail_closed_ok: "guard_inv g s \<Longrightarrow> guard_result_ok g (fail_closed g s codes)"
  by (auto simp: guard_result_ok_def fail_closed_def guard_inv_def)

lemma absorb_ok:
  assumes "guard_inv g s" "gs_rounds s < g_max_rounds g"
  shows "absorb_response g s requested resp = Inl r \<Longrightarrow> guard_result_ok g r"
    and "absorb_response g s requested resp = Inr s' \<Longrightarrow> guard_inv g s'"
  using assms
  by (auto simp: absorb_response_def assess_into_def Let_def guard_inv_def fail_closed_ok
      split: collect_response.splits option.splits if_splits
      intro!: finalize_ok fail_closed_ok)

lemma guard_round_ok:
  assumes "guard_inv g s" "gs_rounds s < g_max_rounds g"
  shows "guard_round g collect s = Inl r \<Longrightarrow> guard_result_ok g r"
    and "guard_round g collect s = Inr s' \<Longrightarrow> guard_inv g s'"
proof -
  define control where "control = choose_control_action (gs_assessment s) (decisions_for g s) (gs_rounds s) (g_max_rounds g)"
  define s1 where "s1 = s\<lparr>gs_trace := gs_trace s @ [make_trace_round (gs_rounds s) (gs_coverage s) (gs_assessment s)
      (cc_action control) (cc_reasons control) (cc_requested control)]\<rparr>"
  define s2 where "s2 = s1\<lparr>gs_attempted := gs_attempted s1 @ cc_requested control,
      gs_requested := gs_requested s1 @ cc_requested control\<rparr>"
  have step: "guard_round g collect s =
     (if cc_action control \<noteq> Retrieve_more
      then Inl (finalize g s1 (cc_action control) (cc_reasons control)
        (if cc_action control = Clarify then clarification_needs_for s1 (decisions_for g s) else []) False)
      else absorb_response g s2 (cc_requested control) (collect (Suc (gs_rounds s)) (gs_coverage s) (cc_requested control)))"
    by (simp add: guard_round_def Let_def control_def s1_def s2_def)
  have "set (cc_requested control) \<subseteq> cd_class ` set (decisions_for g s)"
    unfolding control_def choose_requested by auto
  then have i2: "guard_inv g s2" using assms(1) decisions_mandatory [of g s]
    by (auto simp: guard_inv_def s2_def s1_def)
  have r2: "gs_rounds s2 < g_max_rounds g" using assms(2) by (simp add: s2_def s1_def)
  have fin: "guard_result_ok g (finalize g s1 (cc_action control) codes needs ab)"
    if "cc_action control \<noteq> Retrieve_more" for codes needs ab
    using that assms choose_proceed [of "gs_assessment s" "decisions_for g s" "gs_rounds s" "g_max_rounds g"]
    by (intro finalize_ok) (auto simp: s1_def guard_inv_def control_def)
  show "guard_round g collect s = Inl r \<Longrightarrow> guard_result_ok g r"
    unfolding step using fin absorb_ok(1) [OF i2 r2] by (auto split: if_splits)
  show "guard_round g collect s = Inr s' \<Longrightarrow> guard_inv g s'"
    unfolding step using absorb_ok(2) [OF i2 r2] by (auto split: if_splits)
qed

lemma guard_exhausted_ok:
  assumes "guard_inv g s" "\<not> gs_rounds s < g_max_rounds g"
  shows "guard_result_ok g (guard_exhausted g s)"
  using assms choose_proceed [of "gs_assessment s" "decisions_for g s" "gs_rounds s" "g_max_rounds g"]
    choose_retrieve [of "gs_assessment s" "decisions_for g s" "gs_rounds s" "g_max_rounds g"]
  by (auto simp: guard_exhausted_def Let_def guard_inv_def intro!: finalize_ok)

lemma guard_loop_ok: "guard_inv g s \<Longrightarrow> guard_result_ok g (guard_loop g collect s)"
proof (induction g collect s rule: guard_loop.induct)
  case (1 g collect s)
  show ?case
  proof (cases "gs_rounds s < g_max_rounds g")
    case True
    then show ?thesis
      using 1 guard_round_ok [OF "1.prems" True] by (subst guard_loop.simps) (auto split: sum.splits)
  next
    case False
    then show ?thesis using guard_exhausted_ok [OF "1.prems"] by (subst guard_loop.simps) simp
  qed
qed


lemma run_guard_ok:
  assumes "run_evidence_guard raw collect = Inr res"
  obtains g x where "raw = Shaped x" "parse_guard_request x = Some g" "guard_result_ok g res"
proof -
  obtain x g where x: "raw = Shaped x" "parse_guard_request x = Some g"
    using assms by (cases raw) (auto simp: run_evidence_guard_def split: option.splits)
  define s where "s = assess_into g \<lparr>gs_coverage = (case g_initial_coverage g of None \<Rightarrow> [] | Some es \<Rightarrow> es),
      gs_assessment = assess_evidence_coverage [] [], gs_trace = [], gs_requested = [], gs_outcomes = [],
      gs_warnings = [], gs_non_blocking = [], gs_latest = [], gs_attempted = [], gs_rounds = 0\<rparr>"
  have base: "gs_assessment s = assess_evidence_coverage (g_requirements g) (gs_coverage s)" "gs_rounds s = 0"
    "gs_requested s = []" by (simp_all add: s_def assess_into_def Let_def)
  have "guard_result_ok g res"
  proof (cases "as_mandatory_satisfied (gs_assessment s)")
    case True
    then show ?thesis using assms x base
      by (auto simp: run_evidence_guard_def s_def [symmetric] Let_def split: option.splits intro!: finalize_ok)
  next
    case False
    then have "guard_inv g s" using base by (simp add: guard_inv_def)
    then show ?thesis using assms x False guard_loop_ok [of g s collect]
      by (auto simp: run_evidence_guard_def s_def [symmetric] Let_def split: option.splits)
  qed
  then show ?thesis using that x by blast
qed

section \<open>Properties\<close>

text \<open>C33: The guard always returns, whatever the collection callback answers, within the requested number of
  rounds, which is at most ten; and a request that the schema accepts always gets a verdict.\<close>
theorem guard_terminates_within_budget:
  assumes "parse_guard_request x = Some g"
  shows "\<exists>res. run_evidence_guard (Shaped x) collect = Inr res \<and> gr_rounds res \<le> g_max_rounds g \<and> g_max_rounds g \<le> 10"
proof -
  have "guard_request_ok g" "g = norm_guard_request x"
    using assms by (auto simp: parse_guard_request_def parse_with_Some)
  then have m: "g_max_rounds g \<le> 10" and "coverage_snapshot_ok (case g_initial_coverage g of None \<Rightarrow> [] | Some es \<Rightarrow> es)"
    and "map norm_entry (case g_initial_coverage g of None \<Rightarrow> [] | Some es \<Rightarrow> es) =
      (case g_initial_coverage g of None \<Rightarrow> [] | Some es \<Rightarrow> es)"
    by (auto simp: guard_request_ok_def max_retrieval_rounds_def coverage_snapshot_ok_def norm_guard_request_def comp_def
        split: option.splits)
  then have p: "parse_coverage (case g_initial_coverage g of None \<Rightarrow> [] | Some es \<Rightarrow> es) \<noteq> None"
    by (simp add: parse_coverage_def parse_with_def Let_def)
  then obtain res where res: "run_evidence_guard (Shaped x) collect = Inr res"
    using assms by (cases "run_evidence_guard (Shaped x) collect")
      (auto simp: run_evidence_guard_def Let_def split: option.splits if_splits)
  obtain g' where "parse_guard_request x = Some g'" "guard_result_ok g' res"
    using run_guard_ok [OF res] by (metis raw.inject)
  then show ?thesis using res m assms by (auto simp: guard_result_ok_def)
qed

definition sample_guard_request :: guard_request where
  "sample_guard_request = \<lparr>g_requirements = [sample_requirement], g_initial_coverage = None, g_max_rounds = 3,
     g_timeout_ms = 1000, g_correlation = None, g_context = None\<rparr>"

definition sample_collector :: collector where
  "sample_collector n es cs = (if n < 2 then Abort_error False True else Returned (Shaped [sample_entry]) [])"

lemma sample_guard_request_parses: "parse_guard_request sample_guard_request = Some sample_guard_request"
  by code_simp

lemma guard_terminates_within_budget_witness:
  "\<exists>res. run_evidence_guard (Shaped sample_guard_request) sample_collector = Inr res \<and> gr_rounds res \<le> 3"
  using guard_terminates_within_budget [OF sample_guard_request_parses, of sample_collector]
  by (auto simp: sample_guard_request_def)

text \<open>C32: The verdict of the guard is the assessment. It proceeds exactly when the coverage it returns
  satisfies every mandatory requirement of the request, it never ends by asking for more
  retrieval, and it has only ever requested mandatory classes.\<close>
theorem guard_verdict_exact:
  assumes "run_evidence_guard (Shaped x) collect = Inr res"
  shows "(evidence_gate_cleared (gr_action res) \<longleftrightarrow>
      list_all (satisfied_by (gr_coverage res)) (filter req_mandatory (g_requirements x))) \<and>
    gr_assessment res = assess_evidence_coverage (g_requirements x) (gr_coverage res) \<and>
    gr_action res \<noteq> Retrieve_more \<and>
    set (gr_requested res) \<subseteq> set (map req_class (filter req_mandatory (g_requirements x)))"
proof -
  obtain g where g: "parse_guard_request x = Some g" "guard_result_ok g res"
    using run_guard_ok [OF assms] by (metis raw.inject)
  then have "g_requirements g = g_requirements x"
    by (auto simp: parse_guard_request_def parse_with_Some norm_guard_request_def)
  then show ?thesis using g by (auto simp: guard_result_ok_def evidence_gate_cleared_def assess_mandatory)
qed

lemma sample_guard_run:
  "\<exists>res. run_evidence_guard (Shaped sample_guard_request) sample_collector = Inr res \<and> gr_action res = Proceed \<and>
     gr_rounds res = 2"
proof (rule exI)
  show "run_evidence_guard (Shaped sample_guard_request) sample_collector =
      Inr (projr (run_evidence_guard (Shaped sample_guard_request) sample_collector :: evidence_error_code throws + guard_result)) \<and>
    gr_action (projr (run_evidence_guard (Shaped sample_guard_request) sample_collector :: evidence_error_code throws + guard_result)) = Proceed \<and>
    gr_rounds (projr (run_evidence_guard (Shaped sample_guard_request) sample_collector :: evidence_error_code throws + guard_result)) = 2"
    by code_simp
qed

lemma guard_verdict_exact_witness:
  "\<exists>res. run_evidence_guard (Shaped sample_guard_request) sample_collector = Inr res \<and>
     list_all (satisfied_by (gr_coverage res)) (filter req_mandatory (g_requirements sample_guard_request))"
proof -
  obtain res where res: "run_evidence_guard (Shaped sample_guard_request) sample_collector = Inr res" "gr_action res = Proceed"
    using sample_guard_run by blast
  from guard_verdict_exact [OF res(1)] res show ?thesis by (auto simp: evidence_gate_cleared_def)
qed

text \<open>Losing an optional class blocks. When a round returns valid coverage in which a class that an
  optional requirement had satisfied is gone, the guard ends the run with block and coverage
  regression, even if the new coverage satisfies every mandatory requirement.\<close>
lemma optional_loss_blocks:
  assumes "gs_assessment s = assess_evidence_coverage (g_requirements g) (gs_coverage s)"
    "r \<in> set (g_requirements g)" "satisfied_by (gs_coverage s) r"
    "parse_coverage new = Some new'" "entry_by_class new' (req_class r) = None" "list_all valid_outcome outs"
  shows "absorb_response g s requested (Returned (Shaped new) outs) =
    Inl (finalize g s Block [COVERAGE_REGRESSION] [] False)"
proof -
  have "fst (assess_one (gs_coverage s) r) \<in> set (as_entries (gs_assessment s))"
    using assms(1,2) by (simp add: assess_entries)
  moreover have "regressed_class (gs_coverage s) new' (fst (assess_one (gs_coverage s) r))"
    using assms(3,5) by (auto simp: regressed_class_def assess_one_satisfied assess_one_class satisfied_by_def split: option.splits)
  ultimately have "detect_coverage_regression (gs_coverage s) new' (gs_assessment s) \<noteq> []"
    by (auto simp: detect_coverage_regression_def filter_empty_conv)
  then show ?thesis using assms(4,6) by (simp add: absorb_response_def)
qed

definition optional_requirement :: evidence_requirement where
  "optional_requirement = \<lparr>req_class = ''doc.notes'', req_mandatory = False, req_max_age = None,
     req_conflict_policy = None, req_verification = None\<rparr>"

definition optional_entry :: coverage_entry where
  "optional_entry = sample_entry\<lparr>cov_class := ''doc.notes''\<rparr>"

definition optional_request :: guard_request where
  "optional_request = sample_guard_request\<lparr>g_requirements := [sample_requirement, optional_requirement]\<rparr>"

definition optional_state :: guard_state where
  "optional_state = assess_into optional_request \<lparr>gs_coverage = [optional_entry],
     gs_assessment = assess_evidence_coverage [] [], gs_trace = [], gs_requested = [], gs_outcomes = [],
     gs_warnings = [], gs_non_blocking = [], gs_latest = [], gs_attempted = [], gs_rounds = 0\<rparr>"

end
