(* ===== verification/Evidence_Stores.thy ===== *)
theory Evidence_Stores
  imports Evidence Guard
begin

text \<open>
  The server-owned evidence ledgers (\<open>src/brain-server/src/evidence/stores.ts\<close>) and the
  subject resolver registry (\<open>evidence/subject.ts\<close>). Both ledgers are instances of the
  bounded-store contract: the qualified ledger refuses when it is full, the guard-run ledger
  evicts its oldest run. Of a guard-run record the texts of warnings and findings are kept as
  finding values, so their bound of 2000 characters is not represented.
\<close>

section \<open>Qualified evidence ledger\<close>

record qualified_record =
  qr_id :: string
  qr_provider :: string
  qr_provider_version :: string
  qr_class :: string
  qr_subject :: string
  qr_claim_key :: string
  qr_claim_digest :: string
  qr_observed_at :: timestamp
  qr_level :: verification_requirement
  qr_qualified :: bool
  qr_source_item :: string
  qr_source_reference :: string
  qr_qualified_at :: timestamp

definition norm_record :: "qualified_record \<Rightarrow> qualified_record" where
  "norm_record r = r\<lparr>qr_subject := js_trim (qr_subject r), qr_claim_key := js_trim (qr_claim_key r),
     qr_source_item := js_trim (qr_source_item r), qr_source_reference := js_trim (qr_source_reference r)\<rparr>"

definition record_ok :: "qualified_record \<Rightarrow> bool" where
  "record_ok r \<longleftrightarrow> sha256_hex_ok (qr_id r) \<and> len_ok 200 (qr_provider r) \<and> len_ok 100 (qr_provider_version r) \<and>
     evidence_class_ok (qr_class r) \<and> len_ok 200 (qr_subject r) \<and> len_ok 200 (qr_claim_key r) \<and>
     sha256_hex_ok (qr_claim_digest r) \<and> len_ok 300 (qr_source_item r) \<and> len_ok 1000 (qr_source_reference r)"

definition parse_record :: "qualified_record \<Rightarrow> qualified_record option" where
  "parse_record = parse_with norm_record record_ok"

definition records_equal :: "qualified_record \<Rightarrow> qualified_record \<Rightarrow> bool" where
  "records_equal a b \<longleftrightarrow> a\<lparr>qr_qualified_at := qr_qualified_at b\<rparr> = b"

record qualified_store =
  qs_records :: "(string, qualified_record) jsmap"
  qs_tombstoned :: "string list"
  qs_max :: nat

definition new_qualified_store :: "int \<Rightarrow> evidence_error_code throws + qualified_store" where
  "new_qualified_store n = (if n \<le> 0 then Inl (Throws EVIDENCE_INPUT_INVALID)
     else Inr \<lparr>qs_records = [], qs_tombstoned = [], qs_max = nat n\<rparr>)"

definition qs_put :: "qualified_record \<Rightarrow> qualified_store \<Rightarrow> evidence_error_code throws + qualified_store" where
  "qs_put r s = (case parse_record r of None \<Rightarrow> Inl (Throws EVIDENCE_INPUT_INVALID)
     | Some p \<Rightarrow>
       if qr_id p \<in> set (qs_tombstoned s) then Inl (Throws EVIDENCE_LINEAGE_INVALIDATED)
       else (case map_get (qs_records s) (qr_id p) of
         Some e \<Rightarrow> if records_equal e p then Inr s else Inl (Throws EVIDENCE_LINEAGE_CONFLICT)
       | None \<Rightarrow>
         if length (qs_records s) \<ge> qs_max s then Inl (Throws EVIDENCE_COLLECTION_LIMIT_EXCEEDED)
         else Inr (s\<lparr>qs_records := map_set (qr_id p) p (qs_records s)\<rparr>)))"

definition qs_get :: "qualified_store \<Rightarrow> string \<Rightarrow> qualified_record option" where
  "qs_get s i = map_get (qs_records s) i"

definition qs_has :: "qualified_store \<Rightarrow> string \<Rightarrow> bool" where
  "qs_has s i \<longleftrightarrow> map_has (qs_records s) i \<and> i \<notin> set (qs_tombstoned s)"

definition qs_invalidate :: "string \<Rightarrow> qualified_store \<Rightarrow> qualified_store" where
  "qs_invalidate i s = (if i \<in> set (qs_tombstoned s) then s
     else s\<lparr>qs_records := map_delete i (qs_records s), qs_tombstoned := qs_tombstoned s @ [i]\<rparr>)"

section \<open>Guard-run ledger\<close>

record guard_run =
  run_id :: string
  run_capability_id :: string
  run_capability_version :: string
  run_subject :: string
  run_inputs_digest :: string
  run_requirements_digest :: string
  run_started_at :: timestamp
  run_finished_at :: timestamp
  run_action :: guard_action
  run_coverage :: coverage_snapshot
  run_coverage_digest :: string
  run_qualified_ids :: "string list"
  run_rounds :: nat
  run_reasons :: "guard_reason_code list"
  run_outcomes :: "provider_outcome list"
  run_warnings :: "finding list"
  run_non_blocking :: "finding list"
  run_needs :: "clarification_need list"
  run_aborted :: bool
  run_correlation :: "string option"

definition norm_run :: "guard_run \<Rightarrow> guard_run" where
  "norm_run r = r\<lparr>run_id := js_trim (run_id r), run_subject := js_trim (run_subject r),
     run_coverage := map norm_entry (run_coverage r), run_outcomes := map norm_outcome (run_outcomes r),
     run_needs := map (\<lambda>n. n\<lparr>cn_key := js_trim (cn_key n)\<rparr>) (run_needs r),
     run_correlation := map_option js_trim (run_correlation r)\<rparr>"

definition run_ok :: "guard_run \<Rightarrow> bool" where
  "run_ok r \<longleftrightarrow> len_ok 200 (run_id r) \<and> len_ok 200 (run_capability_id r) \<and> len_ok 100 (run_capability_version r) \<and>
     len_ok 200 (run_subject r) \<and> sha256_hex_ok (run_inputs_digest r) \<and> sha256_hex_ok (run_requirements_digest r) \<and>
     coverage_snapshot_ok (run_coverage r) \<and> sha256_hex_ok (run_coverage_digest r) \<and>
     list_all sha256_hex_ok (run_qualified_ids r) \<and> length (run_qualified_ids r) \<le> 2000 \<and>
     run_rounds r \<le> 10 \<and> length (run_reasons r) \<le> 100 \<and>
     list_all provider_outcome_ok (run_outcomes r) \<and> length (run_outcomes r) \<le> 1000 \<and>
     length (run_warnings r) \<le> 100 \<and> length (run_non_blocking r) \<le> 100 \<and>
     list_all (\<lambda>n. evidence_class_ok (cn_class n) \<and> len_ok 200 (cn_key n)) (run_needs r) \<and> length (run_needs r) \<le> 100 \<and>
     opt_ok (len_ok 200) (run_correlation r)"

definition parse_run :: "guard_run \<Rightarrow> guard_run option" where
  "parse_run = parse_with norm_run run_ok"

record run_store =
  rs_runs :: "(string, guard_run) jsmap"
  rs_max :: nat

definition new_run_store :: "int \<Rightarrow> evidence_error_code throws + run_store" where
  "new_run_store n = (if n \<le> 0 then Inl (Throws EVIDENCE_INPUT_INVALID) else Inr \<lparr>rs_runs = [], rs_max = nat n\<rparr>)"

text \<open>The eviction loop: delete the oldest key while the map is full.\<close>

fun evict :: "nat \<Rightarrow> (string, guard_run) jsmap \<Rightarrow> (string, guard_run) jsmap" where
  "evict m [] = []"
| "evict m (p # ps) = (if length (p # ps) \<ge> m then evict m ps else p # ps)"

definition rs_put :: "guard_run \<Rightarrow> run_store \<Rightarrow> evidence_error_code throws + run_store" where
  "rs_put r s = (case parse_run r of None \<Rightarrow> Inl (Throws EVIDENCE_INPUT_INVALID)
     | Some p \<Rightarrow>
       if map_has (rs_runs s) (run_id p) then Inl (Throws EVIDENCE_INPUT_INVALID)
       else Inr (s\<lparr>rs_runs := map_set (run_id p) p (evict (rs_max s) (rs_runs s))\<rparr>))"

definition rs_get :: "run_store \<Rightarrow> string \<Rightarrow> guard_run option" where
  "rs_get s i = map_get (rs_runs s) i"

text \<open>\<open>collectCoverageIds\<close> of \<open>evidence/runtime.ts\<close>: what an evaluation records as qualified ids.\<close>

definition collect_coverage_ids :: "coverage_snapshot \<Rightarrow> string list" where
  "collect_coverage_ids es = sorted_unique (concat (map (\<lambda>e. cov_evidence_ids e @
     (case cov_conflict_ids e of None \<Rightarrow> [] | Some cs \<Rightarrow> cs)) es))"

section \<open>Subject resolvers\<close>

definition assert_valid_subject_key :: "string \<Rightarrow> evidence_error_code throws + unit" where
  "assert_valid_subject_key s =
     (if js_trim s = [] \<or> 200 < length s \<or> list_ex control_char s then Inl (Throws EVIDENCE_SUBJECT_KEY_INVALID)
      else Inr ())"

type_synonym subject_resolver = "string \<Rightarrow> json_object \<Rightarrow> evidence_error_code throws + string"
type_synonym resolver_registry = "(string, subject_resolver) jsmap"

definition register_resolver ::
  "string \<Rightarrow> subject_resolver \<Rightarrow> resolver_registry \<Rightarrow> evidence_error_code throws + resolver_registry" where
  "register_resolver c f m = (if \<not> capability_id_ok c then Inl (Throws EVIDENCE_INPUT_INVALID)
     else if map_has m c then Inl (Throws EVIDENCE_SUBJECT_RESOLVER_DUPLICATE) else Inr (map_set c f m))"

definition resolve_subject :: "resolver_registry \<Rightarrow> string \<Rightarrow> json_object \<Rightarrow> evidence_error_code throws + string" where
  "resolve_subject m c inputs = (case map_get m c of None \<Rightarrow> Inl (Throws EVIDENCE_SUBJECT_RESOLVER_NOT_FOUND)
     | Some f \<Rightarrow> (case f c inputs of
         Inl (Throws ec) \<Rightarrow> Inl (Throws ec)
       | Inl other \<Rightarrow> Inl (Throws EVIDENCE_SUBJECT_KEY_INVALID)
       | Inr key \<Rightarrow> ebind (assert_valid_subject_key key) (\<lambda>_. Inr key)))"

section \<open>The ledgers are bounded stores\<close>

definition qs_invar :: "qualified_store \<Rightarrow> bool" where
  "qs_invar s \<longleftrightarrow> keys_distinct (qs_records s) \<and> length (qs_records s) \<le> qs_max s \<and>
     (\<forall>i \<in> set (qs_tombstoned s). map_get (qs_records s) i = None)"

datatype qs_op = QPut qualified_record | QInvalidate string

fun qs_step :: "qs_op \<Rightarrow> qualified_store \<Rightarrow> evidence_error_code throws + qualified_store" where
  "qs_step (QPut r) s = qs_put r s"
| "qs_step (QInvalidate i) s = Inr (qs_invalidate i s)"

lemma qs_put_invar: "qs_invar s \<Longrightarrow> qs_put r s = Inr s' \<Longrightarrow> qs_invar s'"
  by (auto simp: qs_put_def qs_invar_def length_map_set map_has_def map_get_set split: option.splits if_splits)

lemma qs_invalidate_invar: "qs_invar s \<Longrightarrow> qs_invar (qs_invalidate i s)"
  using length_map_delete_le [of i "qs_records s"]
  by (auto simp: qs_invalidate_def qs_invar_def map_get_delete)

interpretation qs: bounded_store "\<lambda>s. length (qs_records s)" qs_max qs_invar qs_step
proof
  fix s s' :: qualified_store and op
  show "qs_invar s \<Longrightarrow> length (qs_records s) \<le> qs_max s" by (simp add: qs_invar_def)
  show "qs_invar s \<Longrightarrow> qs_step op s = Inr s' \<Longrightarrow> qs_invar s'"
    by (cases op) (auto simp: qs_put_invar qs_invalidate_invar)
  show "qs_step op s = Inr s' \<Longrightarrow> qs_max s' = qs_max s"
    by (cases op) (auto simp: qs_put_def qs_invalidate_def split: option.splits if_splits)
qed

lemma qs_step_tombstone: "qs_step op s = Inr s' \<Longrightarrow> i \<in> set (qs_tombstoned s) \<Longrightarrow> i \<in> set (qs_tombstoned s')"
  by (cases op) (auto simp: qs_put_def qs_invalidate_def split: option.splits if_splits)

lemma qs_run_tombstone: "i \<in> set (qs_tombstoned s) \<Longrightarrow> i \<in> set (qs_tombstoned (fold qs.apply_op ops s))"
proof (induction ops arbitrary: s)
  case (Cons op ops)
  then show ?case using qs_step_tombstone [of op s _ i] by (auto simp: qs.apply_op_def split: sum.splits)
qed simp

text \<open>An invalidated evidence id never re-enters the ledger: after any further sequence of insertions and
  invalidations it is still absent, and inserting a valid record under it is refused as
  invalidated.\<close>
lemma invalidated_id_never_returns:
  assumes "parse_record r = Some p"
  shows "\<not> qs_has (fold qs.apply_op ops (qs_invalidate (qr_id p) s)) (qr_id p) \<and>
    qs_put r (fold qs.apply_op ops (qs_invalidate (qr_id p) s)) = Inl (Throws EVIDENCE_LINEAGE_INVALIDATED)"
proof -
  have "qr_id p \<in> set (qs_tombstoned (qs_invalidate (qr_id p) s))" by (simp add: qs_invalidate_def)
  then have t: "qr_id p \<in> set (qs_tombstoned (fold qs.apply_op ops (qs_invalidate (qr_id p) s)))" by (rule qs_run_tombstone)
  then show ?thesis using assms by (auto simp: qs_has_def qs_put_def split: option.splits)
qed

lemma qs_put_keeps: "qs_put r s = Inr s' \<Longrightarrow> qs_get s i = Some x \<Longrightarrow> qs_get s' i = Some x"
  by (auto simp: qs_put_def qs_get_def map_get_set split: option.splits if_splits)

lemma qs_put_get: "qs_put r s = Inr s' \<Longrightarrow> parse_record r = Some p \<Longrightarrow> \<exists>x. qs_get s' (qr_id p) = Some x \<and> records_equal x p"
  by (auto simp: qs_put_def qs_get_def map_get_set records_equal_def split: option.splits if_splits)

lemma evict_length: "0 < m \<Longrightarrow> length (evict m xs) < m"
  by (induction xs) auto

lemma evict_suffix: "\<exists>ys. xs = ys @ evict m xs"
  by (induction xs) (auto, metis append_Cons)

lemma evict_distinct: "keys_distinct xs \<Longrightarrow> keys_distinct (evict m xs)"
  using evict_suffix [of xs m] unfolding keys_distinct_def by (metis distinct_append map_append)

definition rs_invar :: "run_store \<Rightarrow> bool" where
  "rs_invar s \<longleftrightarrow> keys_distinct (rs_runs s) \<and> length (rs_runs s) \<le> rs_max s \<and> 0 < rs_max s"

lemma rs_put_invar: "rs_invar s \<Longrightarrow> rs_put r s = Inr s' \<Longrightarrow> rs_invar s'"
  using evict_length [of "rs_max s" "rs_runs s"]
  by (auto simp: rs_put_def rs_invar_def length_map_set evict_distinct Suc_le_eq less_imp_le split: option.splits if_splits)

interpretation rs: bounded_store "\<lambda>s. length (rs_runs s)" rs_max rs_invar rs_put
proof
  fix s s' :: run_store and op
  show "rs_invar s \<Longrightarrow> length (rs_runs s) \<le> rs_max s" by (simp add: rs_invar_def)
  show "rs_invar s \<Longrightarrow> rs_put op s = Inr s' \<Longrightarrow> rs_invar s'" by (rule rs_put_invar)
  show "rs_put op s = Inr s' \<Longrightarrow> rs_max s' = rs_max s" by (auto simp: rs_put_def split: option.splits if_splits)
qed

lemma rs_put_get: "rs_put r s = Inr s' \<Longrightarrow> \<exists>p. parse_run r = Some p \<and> rs_get s' (run_id p) = Some p"
  by (auto simp: rs_put_def rs_get_def map_get_set split: option.splits if_splits)

text \<open>Both evidence ledgers stay within their bound under any sequence of operations, and an insertion that
  succeeds is found again: the qualified ledger keeps every earlier record unchanged, and the
  guard-run ledger returns the stored run.\<close>
lemma evidence_ledgers_bounded:
  assumes "qs_invar s" "rs_invar t"
  shows "length (qs_records (fold qs.apply_op ops s)) \<le> qs_max s \<and>
    length (rs_runs (fold rs.apply_op runs t)) \<le> rs_max t \<and>
    (case qs_put r s of Inl e \<Rightarrow> True | Inr s' \<Rightarrow> qs_get s' i = (case qs_get s i of Some x \<Rightarrow> Some x
       | None \<Rightarrow> if map_option qr_id (parse_record r) = Some i then parse_record r else None))"
proof (intro conjI)
  show "length (qs_records (fold qs.apply_op ops s)) \<le> qs_max s" using assms(1) by (rule qs.run_bound)
  show "length (rs_runs (fold rs.apply_op runs t)) \<le> rs_max t" using assms(2) by (rule rs.run_bound)
  show "case qs_put r s of Inl e \<Rightarrow> True | Inr s' \<Rightarrow> qs_get s' i = (case qs_get s i of Some x \<Rightarrow> Some x
       | None \<Rightarrow> if map_option qr_id (parse_record r) = Some i then parse_record r else None)"
    by (auto simp: qs_put_def qs_get_def map_get_set split: option.splits sum.splits if_splits)
qed

lemma evidence_ledgers_bounded_witness:
  "length (qs_records (fold qs.apply_op [QInvalidate ''a''] \<lparr>qs_records = [], qs_tombstoned = [], qs_max = 1\<rparr>)) \<le> 1 \<and>
   length (rs_runs (fold rs.apply_op [] \<lparr>rs_runs = [], rs_max = 1\<rparr>)) \<le> 1"
  using evidence_ledgers_bounded [of "\<lparr>qs_records = [], qs_tombstoned = [], qs_max = 1\<rparr>" "\<lparr>rs_runs = [], rs_max = 1\<rparr>"
      "[QInvalidate ''a'']" "[]"] by (simp add: qs_invar_def rs_invar_def)

section \<open>References of rejected candidates cannot be recorded\<close>

lemma reference_not_hex: "\<not> sha256_hex_ok (diagnostic_evidence_reference sha p c subj raw)"
  by (simp add: sha256_hex_ok_def diagnostic_evidence_reference_def Let_def hex_char_def is_digit_def code_def)

text \<open>A coverage entry that names a candidate which failed its schema cannot be recorded. The reference of
  such a candidate is not a digest, so a guard run whose qualified ids are collected from that
  coverage is refused by the run ledger as invalid, also when its verdict was proceed.\<close>
lemma rejected_reference_unrecordable:
  assumes "e \<in> set (run_coverage run)" "diagnostic_evidence_reference sha p c subj raw \<in> set (cov_evidence_ids e)"
    "run_qualified_ids run = collect_coverage_ids (run_coverage run)"
  shows "rs_put run s = Inl (Throws EVIDENCE_INPUT_INVALID)"
proof -
  have "diagnostic_evidence_reference sha p c subj raw \<in> set (run_qualified_ids run)"
    using assms by (auto simp: collect_coverage_ids_def)
  then have "\<not> run_ok (norm_run run)"
    using reference_not_hex [of sha p c subj raw] by (auto simp: run_ok_def norm_run_def list_all_iff)
  then show ?thesis by (simp add: rs_put_def parse_run_def parse_with_def Let_def)
qed

definition sample_reference_id :: string where
  "sample_reference_id = diagnostic_evidence_reference sample_sha ''git-local'' ''doc.notes'' ''repo:a''
     (Unshaped \<lparr>lf_class = [], lf_subject = [], lf_claim_key = [], lf_source_item = []\<rparr>)"

definition sample_digest :: string where
  "sample_digest = replicate 64 CHR ''a''"

definition unrecordable_run :: guard_run where
  "unrecordable_run = (let es = [sample_entry\<lparr>cov_evidence_ids := [sample_digest]\<rparr>,
       sample_entry\<lparr>cov_class := ''doc.notes'', cov_status := Unverified, cov_level := NoVerification,
         cov_evidence_ids := [sample_reference_id]\<rparr>] in
     \<lparr>run_id = ''run-1'', run_capability_id = ''git.branch.create'', run_capability_version = ''1.0.0'',
      run_subject = ''repo:a'', run_inputs_digest = sample_digest, run_requirements_digest = sample_digest,
      run_started_at = Iso 0, run_finished_at = Iso 1, run_action = Proceed, run_coverage = es,
      run_coverage_digest = sample_digest, run_qualified_ids = collect_coverage_ids es, run_rounds = 0,
      run_reasons = [], run_outcomes = [], run_warnings = [], run_non_blocking = [], run_needs = [],
      run_aborted = False, run_correlation = None\<rparr>)"

definition ledger_record :: qualified_record where
  "ledger_record = \<lparr>qr_id = sample_digest, qr_provider = ''git-local'', qr_provider_version = ''1.0.0'',
     qr_class = ''repo.state'', qr_subject = ''repo:a'', qr_claim_key = ''head'', qr_claim_digest = sample_digest,
     qr_observed_at = Iso 900, qr_level = Verified, qr_qualified = True, qr_source_item = ''item'',
     qr_source_reference = ''ref'', qr_qualified_at = Iso 950\<rparr>"

end
