(* ===== verification/Eligibility.thy ===== *)
theory Eligibility
  imports Evidence_Stores
begin

text \<open>
  The evidence eligibility service (\<open>src/brain-server/src/evidence/eligibility.ts\<close>): the
  re-validation of a server-owned guard run before its coverage may enter an executable plan.
  The run ledger, the qualified ledger, the capability lookup, the resolver registry and the
  clock reading are arguments. The locale states what the authorization service relies on.
\<close>

record materialize_request =
  mr_guard_run_id :: string
  mr_capability_id :: string
  mr_capability_version :: string
  mr_inputs :: json_object

definition parse_materialize :: "materialize_request \<Rightarrow> materialize_request option" where
  "parse_materialize = parse_with (\<lambda>m. m\<lparr>mr_guard_run_id := js_trim (mr_guard_run_id m)\<rparr>)
     (\<lambda>m. len_ok 200 (mr_guard_run_id m) \<and> capability_id_ok (mr_capability_id m) \<and>
       semver_ok (mr_capability_version m) \<and> json_object_ok (mr_inputs m))"

record eligibility_record =
  el_guard_run_id :: string
  el_capability_id :: string
  el_capability_version :: string
  el_subject :: string
  el_coverage :: coverage_snapshot
  el_assessment :: assessment
  el_requirements_digest :: string
  el_inputs_digest :: string
  el_coverage_digest :: string
  el_qualified_ids :: "string list"
  el_materialized_at :: timestamp

record eligibility_service =
  es_runs :: run_store
  es_qualified :: qualified_store
  es_lookup :: lookup
  es_resolvers :: resolver_registry

definition referenced_ids :: "coverage_snapshot \<Rightarrow> string list" where
  "referenced_ids es = uniq (concat (map (\<lambda>e. cov_evidence_ids e @
     (case cov_conflict_ids e of None \<Rightarrow> [] | Some cs \<Rightarrow> cs)) es))"

definition materialize_evidence ::
  "(string \<Rightarrow> string) \<Rightarrow> eligibility_service \<Rightarrow> int \<Rightarrow> materialize_request raw \<Rightarrow> evidence_error_code throws + eligibility_record" where
  "materialize_evidence sha svc now raw =
     ebind (safe_parse EVIDENCE_INPUT_INVALID parse_materialize raw) (\<lambda>q.
     ebind (require (rs_get (es_runs svc) (mr_guard_run_id q)) EVIDENCE_GUARD_RUN_NOT_FOUND) (\<lambda>run.
     ebind (guarded (run_action run = Proceed) EVIDENCE_GUARD_RUN_NOT_PROCEED) (\<lambda>_.
     ebind (guarded (run_capability_id run = mr_capability_id q \<and> run_capability_version run = mr_capability_version q)
         EVIDENCE_CAPABILITY_VERSION_MISMATCH) (\<lambda>_.
     ebind (require (es_lookup svc (mr_capability_id q)) EVIDENCE_CAPABILITY_NOT_FOUND) (\<lambda>c.
     ebind (guarded (cap_version c = mr_capability_version q \<and> cap_version c = run_capability_version run)
         EVIDENCE_CAPABILITY_VERSION_MISMATCH) (\<lambda>_.
     ebind (requirements_digest sha (cap_required_evidence c)) (\<lambda>rd.
     ebind (guarded (rd = run_requirements_digest run) EVIDENCE_REQUIREMENTS_CHANGED) (\<lambda>_.
     ebind (normalized_inputs_digest sha (mr_inputs q)) (\<lambda>idg.
     ebind (guarded (idg = run_inputs_digest run) EVIDENCE_INPUT_BINDING_MISMATCH) (\<lambda>_.
     ebind (resolve_subject (es_resolvers svc) (mr_capability_id q) (mr_inputs q)) (\<lambda>subject.
     ebind (guarded (subject = run_subject run) EVIDENCE_SUBJECT_MISMATCH) (\<lambda>_.
     ebind (coverage_digest sha (run_coverage run)) (\<lambda>cd.
     ebind (guarded (cd = run_coverage_digest run) EVIDENCE_COVERAGE_INTEGRITY_FAILURE) (\<lambda>_.
     ebind (guarded (list_all (qs_has (es_qualified svc)) (referenced_ids (run_coverage run))) EVIDENCE_LINEAGE_MISSING) (\<lambda>_.
     ebind (guarded (list_all (qs_has (es_qualified svc)) (run_qualified_ids run)) EVIDENCE_LINEAGE_MISSING) (\<lambda>_.
     (let a = assess_evidence_coverage (cap_required_evidence c) (run_coverage run) in
     ebind (guarded (as_mandatory_satisfied a) EVIDENCE_COVERAGE_ASSESSMENT_FAILED) (\<lambda>_.
       Inr \<lparr>el_guard_run_id = run_id run, el_capability_id = run_capability_id run,
         el_capability_version = run_capability_version run, el_subject = run_subject run,
         el_coverage = run_coverage run, el_assessment = a, el_requirements_digest = run_requirements_digest run,
         el_inputs_digest = run_inputs_digest run, el_coverage_digest = run_coverage_digest run,
         el_qualified_ids = run_qualified_ids run, el_materialized_at = Iso now\<rparr>))))))))))))))))))"

section \<open>What makes a run eligible\<close>

definition eligible_run ::
  "(string \<Rightarrow> string) \<Rightarrow> eligibility_service \<Rightarrow> materialize_request \<Rightarrow> guard_run \<Rightarrow> capability_definition \<Rightarrow> bool" where
  "eligible_run sha svc q run c \<longleftrightarrow>
     rs_get (es_runs svc) (mr_guard_run_id q) = Some run \<and> run_action run = Proceed \<and>
     run_capability_id run = mr_capability_id q \<and> run_capability_version run = mr_capability_version q \<and>
     es_lookup svc (mr_capability_id q) = Some c \<and> cap_version c = mr_capability_version q \<and>
     requirements_digest sha (cap_required_evidence c) = Inr (run_requirements_digest run) \<and>
     normalized_inputs_digest sha (mr_inputs q) = Inr (run_inputs_digest run) \<and>
     resolve_subject (es_resolvers svc) (mr_capability_id q) (mr_inputs q) = Inr (run_subject run) \<and>
     coverage_digest sha (run_coverage run) = Inr (run_coverage_digest run) \<and>
     list_all (qs_has (es_qualified svc)) (referenced_ids (run_coverage run)) \<and>
     list_all (qs_has (es_qualified svc)) (run_qualified_ids run) \<and>
     list_all (satisfied_by (run_coverage run)) (filter req_mandatory (cap_required_evidence c))"

definition eligibility_of :: "guard_run \<Rightarrow> capability_definition \<Rightarrow> int \<Rightarrow> eligibility_record" where
  "eligibility_of run c now = \<lparr>el_guard_run_id = run_id run, el_capability_id = run_capability_id run,
     el_capability_version = run_capability_version run, el_subject = run_subject run,
     el_coverage = run_coverage run,
     el_assessment = assess_evidence_coverage (cap_required_evidence c) (run_coverage run),
     el_requirements_digest = run_requirements_digest run,
     el_inputs_digest = run_inputs_digest run, el_coverage_digest = run_coverage_digest run,
     el_qualified_ids = run_qualified_ids run, el_materialized_at = Iso now\<rparr>"

lemma materialize_Inr:
  "materialize_evidence sha svc now raw = Inr e \<longleftrightarrow>
   (\<exists>x q run c. raw = Shaped x \<and> parse_materialize x = Some q \<and> eligible_run sha svc q run c \<and> e = eligibility_of run c now)"
  unfolding materialize_evidence_def Let_def ebind_Inr_iff require_Inr guarded_Inr safe_parse_Inr
    eligible_run_def eligibility_of_def assess_mandatory
  by auto

section \<open>The interface the authorization service uses\<close>

text \<open>
  Eligibility as the client sees it: a function of the request that yields a coverage only for a
  catalogued capability at the requested version, whose mandatory evidence that coverage
  satisfies.
\<close>

locale evidence_gate =
  fixes eligible :: "materialize_request raw \<Rightarrow> evidence_error_code throws + eligibility_record"
    and catalog :: lookup
  assumes gate_capability: "eligible (Shaped x) = Inr e \<Longrightarrow>
      \<exists>c. catalog (mr_capability_id x) = Some c \<and> cap_version c = mr_capability_version x"
    and gate_satisfied: "eligible (Shaped x) = Inr e \<Longrightarrow> catalog (mr_capability_id x) = Some c \<Longrightarrow>
      list_all (satisfied_by (el_coverage e)) (filter req_mandatory (cap_required_evidence c))"
begin

lemma gate_backed:
  assumes "eligible (Shaped x) = Inr e"
  obtains c where "catalog (mr_capability_id x) = Some c" "cap_version c = mr_capability_version x"
    "list_all (satisfied_by (el_coverage e)) (filter req_mandatory (cap_required_evidence c))"
  using gate_capability [OF assms] gate_satisfied [OF assms] by blast

end

lemma parse_materialize_fields: "parse_materialize x = Some q \<Longrightarrow>
    mr_capability_id q = mr_capability_id x \<and> mr_capability_version q = mr_capability_version x \<and> mr_inputs q = mr_inputs x"
  by (auto simp: parse_materialize_def parse_with_Some)

interpretation gate: evidence_gate "materialize_evidence sha svc now" "es_lookup svc" for sha svc now
proof
  fix x e
  assume "materialize_evidence sha svc now (Shaped x) = Inr e"
  then obtain q run c where q: "parse_materialize x = Some q" and r: "eligible_run sha svc q run c"
    and e: "e = eligibility_of run c now" by (auto simp: materialize_Inr)
  note f = parse_materialize_fields [OF q]
  show "\<exists>c. es_lookup svc (mr_capability_id x) = Some c \<and> cap_version c = mr_capability_version x"
    using r f by (auto simp: eligible_run_def)
  show "list_all (satisfied_by (el_coverage e)) (filter req_mandatory (cap_required_evidence c'))"
    if "es_lookup svc (mr_capability_id x) = Some c'" for c'
    using r f e that by (auto simp: eligible_run_def eligibility_of_def)
qed

text \<open>Replaying a guard run for other inputs, for a changed evidence policy or with altered coverage fails. If
  evidence is eligible for two requests on the same run, the two have the same inputs content or their
  canonical texts are a collision of the hash function; and the requirements that cleared the run
  are, in the same sense, those of the current capability.\<close>
lemma eligibility_binds_inputs:
  assumes "materialize_evidence sha svc now (Shaped x) = Inr e" "materialize_evidence sha svc' now' (Shaped y) = Inr e'"
    "el_inputs_digest e = el_inputs_digest e'" "el_requirements_digest e = el_requirements_digest e'"
  shows "(content (JObj (mr_inputs x)) = content (JObj (mr_inputs y)) \<or>
      digest_collision sha (JObj (mr_inputs x)) (JObj (mr_inputs y))) \<and>
    (\<exists>c c'. es_lookup svc (mr_capability_id x) = Some c \<and> es_lookup svc' (mr_capability_id y) = Some c' \<and>
      (content (JArr (map requirement_json (cap_required_evidence c))) =
        content (JArr (map requirement_json (cap_required_evidence c'))) \<or>
       digest_collision sha (JArr (map requirement_json (cap_required_evidence c)))
         (JArr (map requirement_json (cap_required_evidence c')))))"
proof -
  obtain q run c where q: "parse_materialize x = Some q" "eligible_run sha svc q run c" "e = eligibility_of run c now"
    using assms(1) by (auto simp: materialize_Inr)
  obtain q' run' c' where q': "parse_materialize y = Some q'" "eligible_run sha svc' q' run' c'" "e' = eligibility_of run' c' now'"
    using assms(2) by (auto simp: materialize_Inr)
  note f = parse_materialize_fields [OF q(1)] parse_materialize_fields [OF q'(1)]
  have i: "json_digest sha (JObj (mr_inputs x)) = Inr (run_inputs_digest run)"
    "json_digest sha (JObj (mr_inputs y)) = Inr (run_inputs_digest run')"
    using q(2) q'(2) f by (auto simp: eligible_run_def normalized_inputs_digest_def split: if_splits)
  have r: "json_digest sha (JArr (map requirement_json (cap_required_evidence c))) = Inr (run_requirements_digest run)"
    "json_digest sha (JArr (map requirement_json (cap_required_evidence c'))) = Inr (run_requirements_digest run')"
    using q(2) q'(2) by (auto simp: eligible_run_def requirements_digest_def split: if_splits)
  have eq: "run_inputs_digest run = run_inputs_digest run'" "run_requirements_digest run = run_requirements_digest run'"
    using assms(3,4) q(3) q'(3) by (auto simp: eligibility_of_def)
  have d: "content (JObj (mr_inputs x)) = content (JObj (mr_inputs y)) \<or>
      digest_collision sha (JObj (mr_inputs x)) (JObj (mr_inputs y))"
    by (rule json_digest_binds [OF i(1)]) (use i(2) eq(1) in simp)
  have "content (JArr (map requirement_json (cap_required_evidence c))) =
        content (JArr (map requirement_json (cap_required_evidence c'))) \<or>
       digest_collision sha (JArr (map requirement_json (cap_required_evidence c)))
         (JArr (map requirement_json (cap_required_evidence c')))"
    by (rule json_digest_binds [OF r(1)]) (use r(2) eq(2) in simp)
  moreover have "es_lookup svc (mr_capability_id x) = Some c" "es_lookup svc' (mr_capability_id y) = Some c'"
    using q(2) q'(2) f by (auto simp: eligible_run_def)
  ultimately show ?thesis using d by blast
qed

section \<open>A concrete service\<close>

definition eligible_sample_run :: guard_run where
  "eligible_sample_run = \<lparr>run_id = ''run-1'', run_capability_id = ''git.branch.create'', run_capability_version = ''1.0.0'',
      run_subject = ''repo:a'', run_inputs_digest = sample_digest, run_requirements_digest = sample_digest,
      run_started_at = Iso 0, run_finished_at = Iso 1, run_action = Proceed,
      run_coverage = [sample_entry\<lparr>cov_evidence_ids := [sample_digest]\<rparr>],
      run_coverage_digest = sample_digest, run_qualified_ids = [sample_digest], run_rounds = 0,
      run_reasons = [EVIDENCE_SATISFIED], run_outcomes = [], run_warnings = [], run_non_blocking = [], run_needs = [],
      run_aborted = False, run_correlation = None\<rparr>"

definition sample_service :: eligibility_service where
  "sample_service = \<lparr>es_runs = \<lparr>rs_runs = [(''run-1'', eligible_sample_run)], rs_max = 100\<rparr>,
     es_qualified = \<lparr>qs_records = [(sample_digest, ledger_record)], qs_tombstoned = [], qs_max = 2000\<rparr>,
     es_lookup = sample_lookup, es_resolvers = [(''git.branch.create'', \<lambda>c inputs. Inr ''repo:a'')]\<rparr>"

definition sample_materialize :: materialize_request where
  "sample_materialize = \<lparr>mr_guard_run_id = ''run-1'', mr_capability_id = ''git.branch.create'',
     mr_capability_version = ''1.0.0'', mr_inputs = [(''branch'', JStr ''main'')]\<rparr>"

lemma sample_sha_any: "sample_sha b = sample_digest"
  by (simp add: sample_sha_def sample_digest_def)

lemma sample_json_digest: "is_json_safe v \<Longrightarrow> json_digest sample_sha v = Inr sample_digest"
  by (simp add: json_digest_Inr sha256_hex_def sample_sha_any)

lemma sample_eligible_run: "eligible_run sample_sha sample_service sample_materialize eligible_sample_run sample_capability"
proof -
  have "requirements_digest sample_sha (cap_required_evidence sample_capability) = Inr sample_digest"
  proof -
    have "list_all evidence_requirement_ok (cap_required_evidence sample_capability) \<and> length (cap_required_evidence sample_capability) \<le> 100"
      by code_simp
    then show ?thesis by (simp add: requirements_digest_def sample_json_digest all_json_safe_iff)
  qed
  moreover have "normalized_inputs_digest sample_sha (mr_inputs sample_materialize) = Inr sample_digest"
    by (simp add: normalized_inputs_digest_def sample_materialize_def json_object_ok_def sample_json_digest)
  moreover have "coverage_digest sample_sha (run_coverage eligible_sample_run) = Inr sample_digest"
  proof -
    have "parse_coverage (run_coverage eligible_sample_run) \<noteq> None" by code_simp
    then show ?thesis by (auto simp: coverage_digest_def sample_json_digest)
  qed
  moreover have "resolve_subject (es_resolvers sample_service) (mr_capability_id sample_materialize) (mr_inputs sample_materialize)
      = Inr (run_subject eligible_sample_run)" by code_simp
  moreover have "list_all (qs_has (es_qualified sample_service)) (referenced_ids (run_coverage eligible_sample_run))"
    "list_all (qs_has (es_qualified sample_service)) (run_qualified_ids eligible_sample_run)"
    "list_all (satisfied_by (run_coverage eligible_sample_run)) (filter req_mandatory (cap_required_evidence sample_capability))"
    by code_simp+
  ultimately show ?thesis
    by (auto simp: eligible_run_def sample_service_def sample_materialize_def eligible_sample_run_def rs_get_def
        sample_lookup_def sample_capability_def)
qed

lemma sample_eligible: "materialize_evidence sample_sha sample_service now (Shaped sample_materialize) =
    Inr (eligibility_of eligible_sample_run sample_capability now)"
proof -
  have "parse_materialize sample_materialize = Some sample_materialize" by code_simp
  then show ?thesis using sample_eligible_run by (auto simp: materialize_Inr)
qed

end
