(* ===== verification/Authorization.thy ===== *)
theory Authorization
  imports Authorization_Store Eligibility
begin

text \<open>
  The plan authorization lifecycle (\<open>src/brain-server/src/approval/authorization-service.ts\<close>).
  The trusted catalog, the evidence eligibility service and the native grant verifier are
  functions of the configuration; the clock reading and the random identifiers of a call are
  arguments (a reading \<open>None\<close> is an invalid date). \<open>applyApproval\<close> awaits the verifier, so it is
  modelled as the part before the await, which reads the store, and the part after it, which
  writes; other operations may run in between. A failing operation leaves the store unchanged,
  except for the sweep, which returns the store it reached.
\<close>

section \<open>Configuration and results\<close>

datatype verifier_answer = Verifier_failed | Not_valid | Valid_grant "verified_grant raw"

record authorization_config =
  ac_lookup :: lookup
  ac_eligible :: "materialize_request raw \<Rightarrow> evidence_error_code throws + eligibility_record"
  ac_verifier :: "execution_plan \<Rightarrow> approval_reference \<Rightarrow> string \<Rightarrow> verifier_answer"
  ac_policy_version :: string
  ac_max_ttl_ms :: int

text \<open>The constructor's checks of the policy version and of the lifetime cap.\<close>

definition config_ok :: "authorization_config \<Rightarrow> bool" where
  "config_ok cfg \<longleftrightarrow> js_trim (ac_policy_version cfg) \<noteq> [] \<and> length (ac_policy_version cfg) \<le> 50 \<and>
     0 < ac_max_ttl_ms cfg \<and> ac_max_ttl_ms cfg \<le> default_max_approval_ttl_ms"

record authorization_result =
  ares_plan :: execution_plan
  ares_request :: "approval_request option"
  ares_binding_digest :: string
  ares_required :: bool

definition trusted_now :: "int option \<Rightarrow> int approval" where
  "trusted_now now = require now APPROVAL_INPUT_INVALID"

definition validate_plan :: "authorization_config \<Rightarrow> execution_plan \<Rightarrow> execution_plan approval" where
  "validate_plan cfg p = ebind (require (parse_plan p) APPROVAL_PLAN_INVALID) (\<lambda>q.
     ebind (guarded (validate_execution_plan q (ac_lookup cfg) = []) APPROVAL_PLAN_INVALID) (\<lambda>_. Inr q))"

definition eligibility_or_ineligible :: "evidence_error_code throws + 'a \<Rightarrow> 'a approval" where
  "eligibility_or_ineligible r = (case r of Inl (Throws ec) \<Rightarrow> Inl (Throws APPROVAL_EVIDENCE_INELIGIBLE)
     | Inl ZodError \<Rightarrow> Inl ZodError | Inl NativeError \<Rightarrow> Inl NativeError | Inr v \<Rightarrow> Inr v)"

lemma eligibility_or_ineligible_Inr [simp]: "eligibility_or_ineligible r = Inr v \<longleftrightarrow> r = Inr v"
  by (auto simp: eligibility_or_ineligible_def split: sum.splits throws.splits)

section \<open>Authorization of a request\<close>

definition plan_candidate ::
  "authorization_request \<Rightarrow> eligibility_record \<Rightarrow> risk_snapshot \<Rightarrow> bool \<Rightarrow> string \<Rightarrow> int \<Rightarrow> timestamp \<Rightarrow> execution_plan" where
  "plan_candidate q e risk required plan_uuid now expires =
     \<lparr>plan_id = ''plan-'' @ plan_uuid, plan_decision_id = ar_decision_id q, plan_capability_id = ar_capability_id q,
      plan_capability_version = ar_capability_version q, plan_adapter_id = ar_adapter_id q,
      plan_normalized_inputs = ar_inputs q, plan_required_approval = required, plan_approval = None, plan_risk = risk,
      plan_coverage = el_coverage e, plan_timeout_ms = ar_timeout_ms q,
      plan_verification_plan = ar_verification_plan q, plan_rollback_plan = ar_rollback_plan q,
      plan_state = (if required then Awaiting_approval else Ready), plan_created_at = Iso now,
      plan_expires_at = Some expires, plan_correlation_id = ar_correlation_id q, plan_requested_by = ar_requested_by q\<rparr>"

definition approval_request_for ::
  "authorization_config \<Rightarrow> capability_definition \<Rightarrow> eligibility_record \<Rightarrow> execution_plan \<Rightarrow> risk_snapshot \<Rightarrow> string \<Rightarrow>
   string \<Rightarrow> int \<Rightarrow> timestamp \<Rightarrow> approval_request" where
  "approval_request_for cfg c e p risk digest request_uuid now expires =
     \<lparr>apr_id = ''apr-'' @ request_uuid, apr_plan_id = plan_id p, apr_decision_id = plan_decision_id p,
      apr_capability_id = plan_capability_id p, apr_capability_version = plan_capability_version p,
      apr_risk = risk, apr_side_effect_class = cap_side_effect_class c,
      apr_side_effect_reversible = cap_reversible c, apr_reversible = cap_reversible c,
      apr_guard_run_id = el_guard_run_id e, apr_evidence_coverage_digest = el_coverage_digest e,
      apr_mandatory_classes = map req_class (filter req_mandatory (cap_required_evidence c)),
      apr_mandatory_satisfied = as_mandatory_satisfied (el_assessment e),
      apr_coverage_digest = el_coverage_digest e, apr_inputs_digest = el_inputs_digest e,
      apr_binding_digest = digest, apr_required_authority = cap_required_authority c,
      apr_policy_version = ac_policy_version cfg, apr_created_at = Iso now, apr_expires_at = expires,
      apr_status = Pending\<rparr>"

definition authorize_internal ::
  "(string \<Rightarrow> string) \<Rightarrow> authorization_config \<Rightarrow> bool \<Rightarrow> int option \<Rightarrow> string \<Rightarrow> string \<Rightarrow> authorization_request raw \<Rightarrow>
   authorization_store \<Rightarrow> (authorization_result \<times> authorization_store) approval" where
  "authorize_internal sha cfg force clock plan_uuid request_uuid raw s =
     ebind (safe_parse APPROVAL_INPUT_INVALID parse_authorization_request raw) (\<lambda>q.
     ebind (trusted_now clock) (\<lambda>now.
     ebind (require (ac_lookup cfg (ar_capability_id q)) APPROVAL_CAPABILITY_NOT_FOUND) (\<lambda>c.
     ebind (guarded (cap_version c = ar_capability_version q) APPROVAL_CAPABILITY_VERSION_MISMATCH) (\<lambda>_.
     ebind (eligibility_or_ineligible (ac_eligible cfg (Shaped \<lparr>mr_guard_run_id = ar_guard_run_id q,
         mr_capability_id = ar_capability_id q, mr_capability_version = ar_capability_version q,
         mr_inputs = ar_inputs q\<rparr>))) (\<lambda>e.
     ebind (derive_risk_snapshot c) (\<lambda>risk.
     (let required = force \<or> approval_required c in
     ebind (compute_plan_expiry now (ar_expires_at q) (ac_max_ttl_ms cfg)) (\<lambda>expires.
     ebind (validate_plan cfg (plan_candidate q e risk required plan_uuid now expires)) (\<lambda>p.
     ebind (plan_binding_digest sha p (ac_policy_version cfg)) (\<lambda>digest.
     ebind (if required then ebind (zod (parse_approval_request
           (approval_request_for cfg c e p risk digest request_uuid now expires))) (\<lambda>r. Inr (Some r))
         else Inr None) (\<lambda>request.
     ebind (zod (parse_authorization \<lparr>pa_plan = p, pa_guard_run_id = el_guard_run_id e,
         pa_request_id = (if required then Some (''apr-'' @ request_uuid) else None), pa_request = request,
         pa_binding_digest = digest, pa_grant = None, pa_blocked_reason = None\<rparr>)) (\<lambda>r.
     ebind (az_put r s) (\<lambda>s'.
       Inr (\<lparr>ares_plan = p, ares_request = request, ares_binding_digest = digest, ares_required = required\<rparr>, s'))))))))))))))"

section \<open>Applying an approval\<close>

record prepared_approval =
  pp_record :: plan_authorization
  pp_request :: approval_request
  pp_now :: int
  pp_reference :: approval_reference

definition pending_request :: "plan_authorization \<Rightarrow> approval_status \<Rightarrow> approval_request approval" where
  "pending_request r st = (case pa_request r of None \<Rightarrow> Inl (Throws APPROVAL_REQUEST_NOT_PENDING)
     | Some q \<Rightarrow> if apr_status q \<noteq> st then Inl (Throws APPROVAL_REQUEST_NOT_PENDING) else Inr q)"

definition apply_prepare ::
  "(string \<Rightarrow> string) \<Rightarrow> authorization_config \<Rightarrow> authorization_store \<Rightarrow> int option \<Rightarrow> string \<Rightarrow> approval_reference raw \<Rightarrow>
   prepared_approval approval" where
  "apply_prepare sha cfg s clock i raw =
     ebind (require (az_get s i) APPROVAL_PLAN_NOT_FOUND) (\<lambda>r.
     ebind (guarded (plan_state (pa_plan r) = Awaiting_approval) APPROVAL_STATE_CONFLICT) (\<lambda>_.
     ebind (pending_request r Pending) (\<lambda>q.
     ebind (guarded (apr_policy_version q = ac_policy_version cfg) APPROVAL_POLICY_VERSION_MISMATCH) (\<lambda>_.
     ebind (trusted_now clock) (\<lambda>now.
     ebind (is_expired_at (apr_expires_at q) now) (\<lambda>expired.
     ebind (guarded (\<not> expired) APPROVAL_REQUEST_EXPIRED) (\<lambda>_.
     ebind (plan_binding_digest sha (pa_plan r) (apr_policy_version q)) (\<lambda>digest.
     ebind (guarded (digest = pa_binding_digest r) APPROVAL_BINDING_MISMATCH) (\<lambda>_.
     ebind (safe_parse APPROVAL_INPUT_INVALID parse_reference raw) (\<lambda>ref.
     ebind (guarded (ref_plan_id ref = i) APPROVAL_PLAN_MISMATCH) (\<lambda>_.
     ebind (guarded (ref_policy_version ref = ac_policy_version cfg) APPROVAL_POLICY_VERSION_MISMATCH) (\<lambda>_.
       Inr \<lparr>pp_record = r, pp_request = q, pp_now = now, pp_reference = ref\<rparr>))))))))))))"

text \<open>The call that is awaited.\<close>

definition ask_verifier :: "authorization_config \<Rightarrow> prepared_approval \<Rightarrow> verifier_answer" where
  "ask_verifier cfg p = ac_verifier cfg (pa_plan (pp_record p)) (pp_reference p) (pa_binding_digest (pp_record p))"

definition wire_reference :: "authorization_config \<Rightarrow> string \<Rightarrow> verified_grant \<Rightarrow> approval_reference" where
  "wire_reference cfg i g = \<lparr>ref_approval_id = vg_native_record_id g, ref_plan_id = i, ref_granted_by = ta_id (vg_actor g),
     ref_granted_at = vg_granted_at g, ref_policy_version = ac_policy_version cfg,
     ref_token_reference = vg_token_reference g, ref_token_digest = vg_token_digest g\<rparr>"

definition grant_record_of :: "verified_grant \<Rightarrow> grant_record" where
  "grant_record_of g = \<lparr>gt_actor = vg_actor g, gt_granted_at = vg_granted_at g, gt_expires_at = vg_expires_at g,
     gt_native_record_id = vg_native_record_id g, gt_token_reference = vg_token_reference g,
     gt_token_digest = vg_token_digest g\<rparr>"

definition accept_grant :: "prepared_approval \<Rightarrow> verifier_answer \<Rightarrow> verified_grant approval" where
  "accept_grant p answer =
     ebind (case answer of Valid_grant raw \<Rightarrow> safe_parse APPROVAL_GRANT_INVALID parse_grant raw
       | _ \<Rightarrow> Inl (Throws APPROVAL_GRANT_INVALID)) (\<lambda>g.
     ebind (guarded (vg_authority g = ta_authority (vg_actor g)) APPROVAL_GRANT_INVALID) (\<lambda>_.
     ebind (guarded (authority_satisfies (ta_authority (vg_actor g)) (apr_required_authority (pp_request p)))
         APPROVAL_AUTHORITY_INSUFFICIENT) (\<lambda>_.
     ebind (guarded (num_le (date_parse (vg_granted_at g)) (Some (pp_now p))) APPROVAL_GRANT_INVALID) (\<lambda>_.
     ebind (is_expired_at (vg_expires_at g) (pp_now p)) (\<lambda>expired.
     ebind (guarded (\<not> expired) APPROVAL_GRANT_EXPIRED) (\<lambda>_.
     ebind (guarded (\<not> ts_less (apr_expires_at (pp_request p)) (vg_expires_at g)) APPROVAL_GRANT_INVALID) (\<lambda>_.
       Inr g)))))))"

definition apply_commit ::
  "authorization_config \<Rightarrow> authorization_store \<Rightarrow> string \<Rightarrow> prepared_approval \<Rightarrow> verifier_answer \<Rightarrow>
   (authorization_result \<times> authorization_store) approval" where
  "apply_commit cfg s i p answer =
     ebind (accept_grant p answer) (\<lambda>g.
     ebind (validate_plan cfg ((pa_plan (pp_record p))\<lparr>plan_state := Ready, plan_approval := Some (wire_reference cfg i g)\<rparr>)) (\<lambda>ready.
     ebind (zod (parse_approval_request ((pp_request p)\<lparr>apr_status := Granted\<rparr>))) (\<lambda>request.
     ebind (zod (parse_grant_record (grant_record_of g))) (\<lambda>grant.
     ebind (zod (parse_authorization ((pp_record p)\<lparr>pa_plan := ready, pa_request := Some request,
         pa_grant := Some grant, pa_blocked_reason := None\<rparr>))) (\<lambda>r.
     ebind (az_replace r s) (\<lambda>s'.
       Inr (\<lparr>ares_plan = pa_plan r, ares_request = pa_request r,
         ares_binding_digest = pa_binding_digest (pp_record p), ares_required = True\<rparr>, s')))))))"

text \<open>Without interleaving, the whole of \<open>applyApproval\<close>.\<close>

definition apply_approval ::
  "(string \<Rightarrow> string) \<Rightarrow> authorization_config \<Rightarrow> int option \<Rightarrow> string \<Rightarrow> approval_reference raw \<Rightarrow> authorization_store \<Rightarrow>
   (authorization_result \<times> authorization_store) approval" where
  "apply_approval sha cfg clock i raw s =
     ebind (apply_prepare sha cfg s clock i raw) (\<lambda>p. apply_commit cfg s i p (ask_verifier cfg p))"

section \<open>Deny, revoke, sweep, discard\<close>

definition result_for :: "plan_authorization \<Rightarrow> authorization_result" where
  "result_for r = \<lparr>ares_plan = pa_plan r, ares_request = pa_request r, ares_binding_digest = pa_binding_digest r,
     ares_required = plan_required_approval (pa_plan r)\<rparr>"

definition blocked :: "execution_plan \<Rightarrow> execution_plan" where
  "blocked p = p\<lparr>plan_state := Blocked, plan_approval := None\<rparr>"

definition block_record ::
  "authorization_config \<Rightarrow> plan_authorization \<Rightarrow> approval_request \<Rightarrow> approval_status \<Rightarrow> string \<Rightarrow> authorization_store \<Rightarrow>
   (authorization_result \<times> authorization_store) approval" where
  "block_record cfg r q st reason s =
     ebind (validate_plan cfg (blocked (pa_plan r))) (\<lambda>p.
     ebind (zod (parse_approval_request (q\<lparr>apr_status := st\<rparr>))) (\<lambda>request.
     ebind (zod (parse_authorization (r\<lparr>pa_plan := p, pa_request := Some request, pa_blocked_reason := Some reason\<rparr>))) (\<lambda>n.
     ebind (az_replace n s) (\<lambda>s'. Inr (result_for n, s')))))"

definition deny_approval ::
  "authorization_config \<Rightarrow> string \<Rightarrow> authorization_store \<Rightarrow> (authorization_result \<times> authorization_store) approval" where
  "deny_approval cfg i s =
     ebind (require (az_get s i) APPROVAL_PLAN_NOT_FOUND) (\<lambda>r.
     ebind (guarded (plan_state (pa_plan r) = Awaiting_approval) APPROVAL_STATE_CONFLICT) (\<lambda>_.
     ebind (pending_request r Pending) (\<lambda>q. block_record cfg r q Denied ''approval denied'' s)))"

definition revoke_approval ::
  "authorization_config \<Rightarrow> string \<Rightarrow> authorization_store \<Rightarrow> (authorization_result \<times> authorization_store) approval" where
  "revoke_approval cfg i s =
     ebind (require (az_get s i) APPROVAL_PLAN_NOT_FOUND) (\<lambda>r.
     ebind (guarded (plan_state (pa_plan r) = Ready \<and> pa_grant r \<noteq> None) APPROVAL_STATE_CONFLICT) (\<lambda>_.
     ebind (pending_request r Granted) (\<lambda>q. block_record cfg r q Revoked ''approval revoked before execution'' s)))"

text \<open>What a sweep makes of one record: \<open>None\<close> if it stays as it is.\<close>

definition expire_request :: "approval_request \<Rightarrow> approval_request approval" where
  "expire_request q = zod (parse_approval_request (q\<lparr>apr_status := Expired\<rparr>))"

definition sweep_request ::
  "plan_authorization \<Rightarrow> int \<Rightarrow> (execution_plan \<times> approval_request option \<times> string option \<times> bool) approval" where
  "sweep_request r now =
     (let p = pa_plan r; keep = Inr (p, pa_request r, pa_blocked_reason r, False) in
      case pa_request r of None \<Rightarrow> keep
      | Some q \<Rightarrow>
        ebind (if plan_state p = Awaiting_approval \<and> apr_status q = Pending then is_expired_at (apr_expires_at q) now else Inr False)
          (\<lambda>request_expired.
           if request_expired then ebind (expire_request q) (\<lambda>q'. Inr (blocked p, Some q', Some ''approval request expired'', True))
           else (case pa_grant r of None \<Rightarrow> keep
             | Some g \<Rightarrow>
               ebind (if plan_state p = Ready \<and> apr_status q = Granted then is_expired_at (gt_expires_at g) now else Inr False)
                 (\<lambda>grant_expired.
                  if grant_expired then ebind (expire_request q) (\<lambda>q'. Inr (blocked p, Some q', Some ''approval grant expired'', True))
                  else keep))))"

definition sweep_record :: "plan_authorization \<Rightarrow> int \<Rightarrow> plan_authorization option approval" where
  "sweep_record r now =
     ebind (sweep_request r now) (\<lambda>(p, q, reason, changed).
     ebind (case plan_expires_at (pa_plan r) of None \<Rightarrow> Inr False | Some t \<Rightarrow> is_expired_at t now) (\<lambda>plan_expired.
     ebind (if plan_expired \<and> (plan_state p = Awaiting_approval \<or> plan_state p = Ready) then
         (case q of Some q' \<Rightarrow> if apr_status q' = Pending
             then ebind (expire_request q') (\<lambda>q''. Inr (blocked p, Some q'', Some ''plan expired'', True))
             else Inr (blocked p, q, Some ''plan expired'', True)
          | None \<Rightarrow> Inr (blocked p, q, Some ''plan expired'', True))
       else Inr (p, q, reason, changed)) (\<lambda>(p', q', reason', changed').
     if \<not> changed' then Inr None
     else (case parse_plan p' of None \<Rightarrow> Inr None
       | Some plan \<Rightarrow> ebind (zod (parse_authorization (r\<lparr>pa_plan := plan, pa_request := q', pa_blocked_reason := reason'\<rparr>)))
           (\<lambda>n. Inr (Some n))))))"

fun sweep_list ::
  "plan_authorization list \<Rightarrow> int \<Rightarrow> authorization_store \<Rightarrow> string list \<Rightarrow> string list approval \<times> authorization_store" where
  "sweep_list [] now s affected = (Inr affected, s)"
| "sweep_list (r # rs) now s affected =
     (case sweep_record r now of
        Inl e \<Rightarrow> (Inl e, s)
      | Inr None \<Rightarrow> sweep_list rs now s affected
      | Inr (Some n) \<Rightarrow> (case az_replace n s of Inl e \<Rightarrow> (Inl e, s)
          | Inr s' \<Rightarrow> sweep_list rs now s' (affected @ [plan_id (pa_plan r)])))"

definition sweep_expired ::
  "int option \<Rightarrow> int option \<Rightarrow> authorization_store \<Rightarrow> string list approval \<times> authorization_store" where
  "sweep_expired override clock s =
     (case (case override of None \<Rightarrow> trusted_now clock | Some t \<Rightarrow> Inr t) of
        Inl e \<Rightarrow> (Inl e, s) | Inr now \<Rightarrow> sweep_list (az_list s) now s [])"

definition discard_uncommitted_revision_plan :: "string \<Rightarrow> string \<Rightarrow> authorization_store \<Rightarrow> bool \<times> authorization_store" where
  "discard_uncommitted_revision_plan i d s = az_discard_uncommitted i d s"

section \<open>Inversion of the operations\<close>

lemma validate_plan_Inr:
  "validate_plan cfg p = Inr q \<longleftrightarrow> parse_plan p = Some q \<and> validate_execution_plan q (ac_lookup cfg) = []"
  by (auto simp: validate_plan_def ebind_Inr_iff)

lemma norm_plan_sel [simp]:
  "plan_id (norm_plan p) = plan_id p" "plan_state (norm_plan p) = plan_state p"
  "plan_required_approval (norm_plan p) = plan_required_approval p" "plan_risk (norm_plan p) = plan_risk p"
  "plan_created_at (norm_plan p) = plan_created_at p" "plan_expires_at (norm_plan p) = plan_expires_at p"
  "plan_capability_id (norm_plan p) = plan_capability_id p"
  "plan_capability_version (norm_plan p) = plan_capability_version p"
  "plan_adapter_id (norm_plan p) = plan_adapter_id p"
  "plan_normalized_inputs (norm_plan p) = plan_normalized_inputs p"
  "plan_timeout_ms (norm_plan p) = plan_timeout_ms p"
  "plan_verification_plan (norm_plan p) = plan_verification_plan p"
  "plan_rollback_plan (norm_plan p) = plan_rollback_plan p"
  "plan_coverage (norm_plan p) = map norm_entry (plan_coverage p)"
  "plan_approval (norm_plan p) = map_option norm_reference (plan_approval p)"
  by (simp_all add: norm_plan_def)

lemma norm_request_sel [simp]:
  "apr_status (norm_approval_request q) = apr_status q" "apr_expires_at (norm_approval_request q) = apr_expires_at q"
  "apr_required_authority (norm_approval_request q) = apr_required_authority q"
  by (simp_all add: norm_approval_request_def)

lemma norm_request_status: "norm_approval_request (q\<lparr>apr_status := st\<rparr>) = (norm_approval_request q)\<lparr>apr_status := st\<rparr>"
  by (simp add: norm_approval_request_def)

lemma norm_authorization_sel [simp]:
  "pa_plan (norm_authorization r) = norm_plan (pa_plan r)"
  "pa_request (norm_authorization r) = map_option norm_approval_request (pa_request r)"
  "pa_grant (norm_authorization r) = map_option norm_grant_record (pa_grant r)"
  "pa_binding_digest (norm_authorization r) = pa_binding_digest r"
  by (simp_all add: norm_authorization_def)

lemma parse_authorization_norm: "parse_authorization r = Some n \<Longrightarrow> n = norm_authorization r"
  by (auto simp: parse_authorization_def parse_with_Some)

lemma valid_record_norms:
  assumes "parse_authorization r = Some r"
  shows "norm_plan (pa_plan r) = pa_plan r" "map_option norm_approval_request (pa_request r) = pa_request r"
    "map_option norm_grant_record (pa_grant r) = pa_grant r" "execution_plan_ok (pa_plan r)"
proof -
  have r: "norm_authorization r = r" using parse_authorization_norm [OF assms] by (rule sym)
  show "norm_plan (pa_plan r) = pa_plan r" using arg_cong [OF r, of pa_plan] by simp
  show "map_option norm_approval_request (pa_request r) = pa_request r" using arg_cong [OF r, of pa_request] by simp
  show "map_option norm_grant_record (pa_grant r) = pa_grant r" using arg_cong [OF r, of pa_grant] by simp
  have "authorization_ok r" using assms by (simp add: parse_authorization_def parse_with_Some)
  then show "execution_plan_ok (pa_plan r)" by (simp add: authorization_ok_def)
qed

lemma parse_request_status:
  assumes "parse_approval_request (q\<lparr>apr_status := st\<rparr>) = Some q'" "norm_approval_request q = q"
  shows "q' = q\<lparr>apr_status := st\<rparr>"
  using assms by (auto simp: parse_approval_request_def parse_with_Some norm_request_status)

lemma parse_request_norm: "parse_approval_request q = Some q' \<Longrightarrow> q' = norm_approval_request q"
  by (auto simp: parse_approval_request_def parse_with_Some)

lemma pending_request_Inr: "pending_request r st = Inr q \<longleftrightarrow> pa_request r = Some q \<and> apr_status q = st"
  by (auto simp: pending_request_def split: option.splits)

lemma is_expired_at_Inr: "is_expired_at t now = Inr b \<longleftrightarrow> (\<exists>ms. date_parse t = Some ms \<and> b = (now \<ge> ms))"
  by (auto simp: is_expired_at_def ebind_Inr_iff)

lemma not_expired_iff: "(\<exists>b. is_expired_at t now = Inr b \<and> \<not> b) \<longleftrightarrow> num_less (Some now) (date_parse t)"
  by (cases "date_parse t") (simp_all add: is_expired_at_def not_le)

lemma apply_prepare_Inr:
  "apply_prepare sha cfg s clock i raw = Inr p \<longleftrightarrow>
   az_get s i = Some (pp_record p) \<and> plan_state (pa_plan (pp_record p)) = Awaiting_approval \<and>
   pa_request (pp_record p) = Some (pp_request p) \<and> apr_status (pp_request p) = Pending \<and>
   apr_policy_version (pp_request p) = ac_policy_version cfg \<and> clock = Some (pp_now p) \<and>
   num_less (Some (pp_now p)) (date_parse (apr_expires_at (pp_request p))) \<and>
   plan_binding_digest sha (pa_plan (pp_record p)) (ac_policy_version cfg) = Inr (pa_binding_digest (pp_record p)) \<and>
   safe_parse APPROVAL_INPUT_INVALID parse_reference raw = Inr (pp_reference p) \<and>
   ref_plan_id (pp_reference p) = i \<and> ref_policy_version (pp_reference p) = ac_policy_version cfg"
  by (cases p) (auto simp: apply_prepare_def ebind_Inr_iff pending_request_Inr trusted_now_def is_expired_at_Inr
      num_less_iff)

text \<open>A grant that was accepted for a prepared approval.\<close>

definition acceptable :: "prepared_approval \<Rightarrow> verified_grant \<Rightarrow> bool" where
  "acceptable p g \<longleftrightarrow> parse_grant g = Some g \<and> vg_authority g = ta_authority (vg_actor g) \<and>
     authority_satisfies (vg_authority g) (apr_required_authority (pp_request p)) \<and>
     num_le (date_parse (vg_granted_at g)) (Some (pp_now p)) \<and>
     num_less (Some (pp_now p)) (date_parse (vg_expires_at g)) \<and>
     \<not> ts_less (apr_expires_at (pp_request p)) (vg_expires_at g)"

lemma norm_grant_idem [simp]: "norm_grant (norm_grant g) = norm_grant g"
  by (simp add: norm_grant_def norm_actor_def)

lemma parse_grant_idem: "parse_grant raw = Some g \<Longrightarrow> parse_grant g = Some g"
  by (auto simp: parse_grant_def parse_with_Some)

lemma accept_grant_Inr:
  "accept_grant p answer = Inr g \<longleftrightarrow>
   (\<exists>raw. answer = Valid_grant (Shaped raw) \<and> parse_grant raw = Some g) \<and> acceptable p g"
proof (cases answer)
  case (Valid_grant raw)
  note e = not_expired_iff
  have "accept_grant p answer = Inr g \<longleftrightarrow> safe_parse APPROVAL_GRANT_INVALID parse_grant raw = Inr g \<and>
      vg_authority g = ta_authority (vg_actor g) \<and>
      authority_satisfies (ta_authority (vg_actor g)) (apr_required_authority (pp_request p)) \<and>
      num_le (date_parse (vg_granted_at g)) (Some (pp_now p)) \<and>
      (\<exists>ex. is_expired_at (vg_expires_at g) (pp_now p) = Inr ex \<and> \<not> ex) \<and>
      \<not> ts_less (apr_expires_at (pp_request p)) (vg_expires_at g)"
    unfolding accept_grant_def ebind_Inr_iff guarded_Inr Valid_grant by auto
  moreover have "safe_parse APPROVAL_GRANT_INVALID parse_grant raw = Inr g \<longleftrightarrow>
      (\<exists>x. answer = Valid_grant (Shaped x) \<and> parse_grant x = Some g) \<and> parse_grant g = Some g"
    unfolding safe_parse_Inr Valid_grant verifier_answer.inject using parse_grant_idem by blast
  ultimately show ?thesis unfolding e acceptable_def by auto
qed (auto simp: accept_grant_def)

lemma grant_record_norm: "parse_grant g = Some g \<Longrightarrow> norm_grant_record (grant_record_of g) = grant_record_of g"
proof -
  assume "parse_grant g = Some g"
  then have "norm_grant g = g" by (auto simp: parse_grant_def parse_with_Some)
  then show ?thesis by (cases g) (simp add: norm_grant_def norm_grant_record_def grant_record_of_def)
qed

lemma apply_commit_Inr:
  assumes "apply_commit cfg s i p answer = Inr (res, s')"
  obtains g raw n where "answer = Valid_grant (Shaped raw)" "parse_grant raw = Some g" "acceptable p g"
    "az_replace n s = Inr s'" "parse_authorization n = Some n"
    "pa_plan n = norm_plan ((pa_plan (pp_record p))\<lparr>plan_state := Ready, plan_approval := Some (wire_reference cfg i g)\<rparr>)"
    "validate_execution_plan (pa_plan n) (ac_lookup cfg) = []" "execution_plan_ok (pa_plan n)"
    "pa_request n = Some (norm_approval_request ((pp_request p)\<lparr>apr_status := Granted\<rparr>))"
    "pa_grant n = Some (grant_record_of g)" "pa_binding_digest n = pa_binding_digest (pp_record p)"
    "ares_plan res = pa_plan n" "ares_request res = pa_request n" "ares_required res"
proof -
  from assms obtain g ready request grant n where a: "accept_grant p answer = Inr g"
    "validate_plan cfg ((pa_plan (pp_record p))\<lparr>plan_state := Ready, plan_approval := Some (wire_reference cfg i g)\<rparr>) = Inr ready"
    "parse_approval_request ((pp_request p)\<lparr>apr_status := Granted\<rparr>) = Some request"
    "parse_grant_record (grant_record_of g) = Some grant"
    "parse_authorization ((pp_record p)\<lparr>pa_plan := ready, pa_request := Some request, pa_grant := Some grant,
        pa_blocked_reason := None\<rparr>) = Some n" "az_replace n s = Inr s'"
    "res = \<lparr>ares_plan = pa_plan n, ares_request = pa_request n, ares_binding_digest = pa_binding_digest (pp_record p), ares_required = True\<rparr>"
    unfolding apply_commit_def ebind_Inr_iff zod_Inr by auto
  have g: "acceptable p g" and raw: "\<exists>raw. answer = Valid_grant (Shaped raw) \<and> parse_grant raw = Some g"
    using a(1) by (auto simp: accept_grant_Inr)
  have gr: "grant = grant_record_of g"
    using a(4) grant_record_norm g by (auto simp: acceptable_def parse_grant_record_def parse_with_Some)
  have rd: "ready = norm_plan ((pa_plan (pp_record p))\<lparr>plan_state := Ready, plan_approval := Some (wire_reference cfg i g)\<rparr>)"
    "execution_plan_ok ready" "validate_execution_plan ready (ac_lookup cfg) = []"
    using a(2) by (auto simp: validate_plan_Inr parse_plan_norm parse_plan_ok)
  note n = parse_authorization_norm [OF a(5)] and rq = parse_request_norm [OF a(3)]
  have "pa_plan n = ready" "pa_request n = Some request" "pa_grant n = Some grant"
    "pa_binding_digest n = pa_binding_digest (pp_record p)"
    using n rd(1) rq gr g grant_record_norm by (auto simp: acceptable_def)
  then show ?thesis
    using that raw g a(6,7) parse_authorization_idem [OF a(5)] rd gr rq by auto
qed

lemma block_record_Inr:
  assumes "block_record cfg r q st reason s = Inr (res, s')" "pa_request r = Some q" "parse_authorization r = Some r"
  obtains n where "az_replace n s = Inr s'" "parse_authorization n = Some n" "pa_plan n = norm_plan (blocked (pa_plan r))"
    "validate_execution_plan (pa_plan n) (ac_lookup cfg) = []"
    "pa_request n = Some (q\<lparr>apr_status := st\<rparr>)" "pa_grant n = pa_grant r" "pa_binding_digest n = pa_binding_digest r"
    "res = result_for n"
proof -
  from assms(1) obtain p request n where a: "validate_plan cfg (blocked (pa_plan r)) = Inr p"
    "parse_approval_request (q\<lparr>apr_status := st\<rparr>) = Some request"
    "parse_authorization (r\<lparr>pa_plan := p, pa_request := Some request, pa_blocked_reason := Some reason\<rparr>) = Some n"
    "az_replace n s = Inr s'" "res = result_for n"
    unfolding block_record_def ebind_Inr_iff zod_Inr by auto
  have qn: "norm_approval_request q = q" using valid_record_norms(2) [OF assms(3)] assms(2) by simp
  have rq: "request = q\<lparr>apr_status := st\<rparr>" using parse_request_status [OF a(2) qn] .
  have pn: "p = norm_plan (blocked (pa_plan r))" "validate_execution_plan p (ac_lookup cfg) = []"
    using a(1) by (auto simp: validate_plan_Inr parse_plan_norm)
  have n: "n = norm_authorization (r\<lparr>pa_plan := p, pa_request := Some request, pa_blocked_reason := Some reason\<rparr>)"
    using a(3) by (rule parse_authorization_norm)
  have "pa_plan n = norm_plan (blocked (pa_plan r))" "pa_request n = Some (q\<lparr>apr_status := st\<rparr>)" "pa_grant n = pa_grant r"
    "pa_binding_digest n = pa_binding_digest r"
    using valid_record_norms(3) [OF assms(3)] by (simp_all add: n pn(1) rq norm_request_status qn)
  moreover from this(1) have "validate_execution_plan (pa_plan n) (ac_lookup cfg) = []" using pn by simp
  ultimately show ?thesis using that [of n] a(4,5) parse_authorization_idem [OF a(3)] by blast
qed

lemma norm_blocked: "norm_plan (blocked p) = blocked (norm_plan p)"
  by (simp add: norm_plan_def blocked_def)


end
