(* ===== verification/Authorization_Lifecycle.thy ===== *)
theory Authorization_Lifecycle
  imports Authorization "HOL-Library.Multiset"
begin

text \<open>
  The authorization lifecycle as a transition system. A state is the store, the approvals that
  wait for the native verifier, and the answers the verifier has given so far. Every operation of
  the service is a step, with any clock reading, identifiers, caller input, eligibility result
  and verifier answer; the two parts of \<open>applyApproval\<close> are separate steps, so other operations
  run in between. The invariant says what any reachable authorization guarantees.
\<close>

section \<open>Steps\<close>

type_synonym answer_log = "(prepared_approval \<times> verifier_answer) list"
type_synonym authz_state = "authorization_store \<times> (string \<times> prepared_approval) list \<times> answer_log"

inductive authz_step :: "(string \<Rightarrow> string) \<Rightarrow> authorization_config \<Rightarrow> authz_state \<Rightarrow> authz_state \<Rightarrow> bool"
  for sha cfg where
  authorize: "authorize_internal sha (cfg\<lparr>ac_eligible := elig\<rparr>) force clock u v raw s = Inr (res, s') \<Longrightarrow>
    authz_step sha cfg (s, fs, log) (s', fs, log)"
| prepare: "apply_prepare sha cfg s clock i raw = Inr p \<Longrightarrow> authz_step sha cfg (s, fs, log) (s, (i, p) # fs, log)"
| commit: "(i, p) \<in> set fs \<Longrightarrow> apply_commit cfg s i p answer = Inr (res, s') \<Longrightarrow>
    authz_step sha cfg (s, fs, log) (s', remove1 (i, p) fs, (p, answer) # log)"
| reject: "(i, p) \<in> set fs \<Longrightarrow> apply_commit cfg s i p answer = Inl e \<Longrightarrow>
    authz_step sha cfg (s, fs, log) (s, remove1 (i, p) fs, (p, answer) # log)"
| deny: "deny_approval cfg i s = Inr (res, s') \<Longrightarrow> authz_step sha cfg (s, fs, log) (s', fs, log)"
| revoke: "revoke_approval cfg i s = Inr (res, s') \<Longrightarrow> authz_step sha cfg (s, fs, log) (s', fs, log)"
| sweep: "sweep_expired override clock s = (out, s') \<Longrightarrow> authz_step sha cfg (s, fs, log) (s', fs, log)"
| discard: "discard_uncommitted_revision_plan i d s = (done, s') \<Longrightarrow> authz_step sha cfg (s, fs, log) (s', fs, log)"

inductive_cases authz_stepE: "authz_step sha cfg (s, fs, log) st"

lemmas authz_step_elim [consumes 1, case_names authorize prepare commit reject deny revoke sweep discard] = authz_stepE

inductive authz_reachable :: "(string \<Rightarrow> string) \<Rightarrow> authorization_config \<Rightarrow> authz_state \<Rightarrow> bool" for sha cfg where
  start: "new_authorization_store n = Inr s \<Longrightarrow> authz_reachable sha cfg (s, [], [])"
| step: "authz_reachable sha cfg st \<Longrightarrow> authz_step sha cfg st st' \<Longrightarrow> authz_reachable sha cfg st'"

section \<open>The invariant of a record\<close>

text \<open>A grant the verifier confirmed for this plan, with enough authority for its risk.\<close>

definition confirmed :: "answer_log \<Rightarrow> execution_plan \<Rightarrow> grant_record \<Rightarrow> bool" where
  "confirmed log plan gt \<longleftrightarrow> (\<exists>(p, answer) \<in> set log. \<exists>raw g. answer = Valid_grant (Shaped raw) \<and>
     parse_grant raw = Some g \<and> gt = grant_record_of g \<and> plan_id (pa_plan (pp_record p)) = plan_id plan \<and>
     ref_plan_id (pp_reference p) = plan_id plan \<and>
     num_less (Some (pp_now p)) (date_parse (gt_expires_at gt)) \<and>
     authority_satisfies (ta_authority (gt_actor gt)) (risk_required_authority (plan_risk plan)))"

definition lifetime_ok :: "authorization_config \<Rightarrow> execution_plan \<Rightarrow> bool" where
  "lifetime_ok cfg p \<longleftrightarrow> (\<exists>created ms. plan_created_at p = Iso created \<and> plan_expires_at p = Some (Iso ms) \<and>
     created < ms \<and> ms \<le> created + ac_max_ttl_ms cfg)"

text \<open>The part that no later operation changes.\<close>

definition frame_inv :: "authorization_config \<Rightarrow> plan_authorization \<Rightarrow> bool" where
  "frame_inv cfg r \<longleftrightarrow> lifetime_ok cfg (pa_plan r) \<and>
     (\<exists>c. ac_lookup cfg (plan_capability_id (pa_plan r)) = Some c \<and> risk_matches (plan_risk (pa_plan r)) c \<and>
       (plan_required_approval (pa_plan r) \<or> \<not> approval_required c)) \<and>
     (case pa_request r of None \<Rightarrow> \<not> plan_required_approval (pa_plan r)
      | Some q \<Rightarrow> plan_required_approval (pa_plan r) \<and> plan_expires_at (pa_plan r) = Some (apr_expires_at q) \<and>
          apr_required_authority q = risk_required_authority (plan_risk (pa_plan r)))"

definition state_inv :: "authorization_config \<Rightarrow> answer_log \<Rightarrow> plan_authorization \<Rightarrow> bool" where
  "state_inv cfg log r \<longleftrightarrow> plan_state (pa_plan r) \<in> {Awaiting_approval, Ready, Blocked} \<and>
     (plan_state (pa_plan r) = Awaiting_approval \<longrightarrow> map_option apr_status (pa_request r) = Some Pending \<and> pa_grant r = None) \<and>
     (plan_state (pa_plan r) = Ready \<longrightarrow> validate_execution_plan (pa_plan r) (ac_lookup cfg) = [] \<and>
       (case pa_request r of None \<Rightarrow> pa_grant r = None
        | Some q \<Rightarrow> apr_status q = Granted \<and> (\<exists>gt. pa_grant r = Some gt \<and> confirmed log (pa_plan r) gt \<and>
            \<not> ts_less (apr_expires_at q) (gt_expires_at gt) \<and>
            map_option ref_granted_by (plan_approval (pa_plan r)) = Some (ta_id (gt_actor gt)))))"

definition record_inv :: "authorization_config \<Rightarrow> answer_log \<Rightarrow> plan_authorization \<Rightarrow> bool" where
  "record_inv cfg log r \<longleftrightarrow> frame_inv cfg r \<and> state_inv cfg log r"

definition flight_inv :: "authorization_config \<Rightarrow> string \<times> prepared_approval \<Rightarrow> bool" where
  "flight_inv cfg f \<longleftrightarrow> (case f of (i, p) \<Rightarrow> frame_inv cfg (pp_record p) \<and> parse_authorization (pp_record p) = Some (pp_record p) \<and>
     plan_id (pa_plan (pp_record p)) = i \<and> ref_plan_id (pp_reference p) = i \<and> pa_request (pp_record p) = Some (pp_request p))"

definition authz_inv :: "authorization_config \<Rightarrow> authz_state \<Rightarrow> bool" where
  "authz_inv cfg st \<longleftrightarrow> (case st of (s, fs, log) \<Rightarrow> az_invar s \<and>
     (\<forall>i r. az_get s i = Some r \<longrightarrow> record_inv cfg log r) \<and> (\<forall>f \<in> set fs. flight_inv cfg f))"

lemma confirmed_mono: "confirmed log p g \<Longrightarrow> set log \<subseteq> set log' \<Longrightarrow> confirmed log' p g"
  by (fastforce simp: confirmed_def)

lemma record_inv_mono: "record_inv cfg log r \<Longrightarrow> set log \<subseteq> set log' \<Longrightarrow> record_inv cfg log' r"
  by (cases "pa_request r") (auto simp: record_inv_def state_inv_def intro: confirmed_mono)

section \<open>Preservation\<close>

lemma authz_inv_get: "authz_inv cfg (s, fs, log) \<Longrightarrow> az_get s i = Some r \<Longrightarrow>
    record_inv cfg log r \<and> parse_authorization r = Some r \<and> plan_id (pa_plan r) = i"
  by (auto simp: authz_inv_def az_invar_def)

lemma authz_inv_log: "authz_inv cfg (s, fs, log) \<Longrightarrow> set fs' \<subseteq> set fs \<Longrightarrow> authz_inv cfg (s, fs', x # log)"
  using record_inv_mono [of cfg log _ "x # log"] by (auto simp: authz_inv_def)

lemma authz_inv_write:
  assumes "authz_inv cfg (s, fs, log)" "az_replace n s = Inr s' \<or> az_put n s = Inr s'"
    "parse_authorization n = Some n" "record_inv cfg log n"
  shows "authz_inv cfg (s', fs, log)"
proof -
  have "\<exists>p. parse_authorization n = Some p \<and> az_get s' = (az_get s)(plan_id (pa_plan p) \<mapsto> p)"
    using az.update_lookup [of n s s'] az.insert_lookup [of n s s'] assms(2) by blast
  then have "az_get s' = (az_get s)(plan_id (pa_plan n) \<mapsto> n)" unfolding assms(3) by simp
  moreover have "az_invar s" using assms(1) by (simp add: authz_inv_def)
  then have "az_invar s'" using assms(2) az_replace_invar [of s n s'] az_put_invar [of s n s'] by blast
  ultimately show ?thesis using assms(1,4) by (auto simp: authz_inv_def)
qed

text \<open>Blocking a record, as deny, revoke and the sweep do, keeps the invariant.\<close>

definition blocks :: "plan_authorization \<Rightarrow> plan_authorization \<Rightarrow> bool" where
  "blocks r n \<longleftrightarrow> pa_plan n = norm_plan (blocked (pa_plan r)) \<and> pa_grant n = pa_grant r \<and>
     (pa_request n = pa_request r \<or> (\<exists>q st. pa_request r = Some q \<and> pa_request n = Some (q\<lparr>apr_status := st\<rparr>)))"

lemma blocked_sel [simp]:
  "plan_id (blocked p) = plan_id p" "plan_state (blocked p) = Blocked" "plan_created_at (blocked p) = plan_created_at p"
  "plan_expires_at (blocked p) = plan_expires_at p" "plan_risk (blocked p) = plan_risk p" "plan_approval (blocked p) = None"
  "plan_capability_id (blocked p) = plan_capability_id p" "plan_required_approval (blocked p) = plan_required_approval p"
  "plan_decision_id (blocked p) = plan_decision_id p" "plan_capability_version (blocked p) = plan_capability_version p"
  "plan_adapter_id (blocked p) = plan_adapter_id p" "plan_normalized_inputs (blocked p) = plan_normalized_inputs p"
  "plan_coverage (blocked p) = plan_coverage p" "plan_timeout_ms (blocked p) = plan_timeout_ms p"
  "plan_verification_plan (blocked p) = plan_verification_plan p" "plan_rollback_plan (blocked p) = plan_rollback_plan p"
  "plan_correlation_id (blocked p) = plan_correlation_id p" "plan_requested_by (blocked p) = plan_requested_by p"
  by (simp_all add: blocked_def)

lemma blocks_inv: "blocks r n \<Longrightarrow> record_inv cfg log r \<Longrightarrow> record_inv cfg log n"
  by (auto simp: blocks_def record_inv_def frame_inv_def state_inv_def lifetime_ok_def split: option.splits)

lemma block_record_inv:
  assumes "authz_inv cfg (s, fs, log)" "az_get s i = Some r" "pa_request r = Some q"
    "block_record cfg r q st reason s = Inr (res, s')"
  shows "authz_inv cfg (s', fs, log)"
proof -
  note r = authz_inv_get [OF assms(1,2)]
  show ?thesis
  proof (rule block_record_Inr [OF assms(4,3)])
    show "parse_authorization r = Some r" using r by simp
    fix n assume n: "az_replace n s = Inr s'" "parse_authorization n = Some n" "pa_plan n = norm_plan (blocked (pa_plan r))"
      "pa_request n = Some (q\<lparr>apr_status := st\<rparr>)" "pa_grant n = pa_grant r"
    have "blocks r n" unfolding blocks_def using n assms(3) by auto
    then show "authz_inv cfg (s', fs, log)" using authz_inv_write [OF assms(1)] n(1,2) r blocks_inv by blast
  qed
qed

lemma deny_inv: "authz_inv cfg (s, fs, log) \<Longrightarrow> deny_approval cfg i s = Inr (res, s') \<Longrightarrow> authz_inv cfg (s', fs, log)"
  unfolding deny_approval_def ebind_Inr_iff require_Inr pending_request_Inr by (blast intro: block_record_inv)

lemma revoke_inv: "authz_inv cfg (s, fs, log) \<Longrightarrow> revoke_approval cfg i s = Inr (res, s') \<Longrightarrow> authz_inv cfg (s', fs, log)"
  unfolding revoke_approval_def ebind_Inr_iff require_Inr pending_request_Inr by (blast intro: block_record_inv)

lemma discard_inv: "authz_inv cfg (s, fs, log) \<Longrightarrow> discard_uncommitted_revision_plan i d s = (b, s') \<Longrightarrow> authz_inv cfg (s', fs, log)"
  using az_discard_invar [of s i d]
  by (auto simp: discard_uncommitted_revision_plan_def authz_inv_def az_discard_uncommitted_def az_get_def map_get_delete
      split: option.splits if_splits)

section \<open>Authorization of a request\<close>

lemma authorize_Inr:
  assumes "authorize_internal sha cfg force clock u v raw s = Inr (res, s')"
  obtains q now c e risk expires p digest request n where
    "safe_parse APPROVAL_INPUT_INVALID parse_authorization_request raw = Inr q" "clock = Some now"
    "ac_lookup cfg (ar_capability_id q) = Some c" "cap_version c = ar_capability_version q"
    "ac_eligible cfg (Shaped \<lparr>mr_guard_run_id = ar_guard_run_id q, mr_capability_id = ar_capability_id q,
         mr_capability_version = ar_capability_version q, mr_inputs = ar_inputs q\<rparr>) = Inr e"
    "derive_risk_snapshot c = Inr risk" "compute_plan_expiry now (ar_expires_at q) (ac_max_ttl_ms cfg) = Inr expires"
    "validate_plan cfg (plan_candidate q e risk (force \<or> approval_required c) u now expires) = Inr p"
    "plan_binding_digest sha p (ac_policy_version cfg) = Inr digest"
    "request = (if force \<or> approval_required c
       then Some (norm_approval_request (approval_request_for cfg c e p risk digest v now expires)) else None)"
    "n = norm_authorization \<lparr>pa_plan = p, pa_guard_run_id = el_guard_run_id e,
         pa_request_id = (if force \<or> approval_required c then Some (''apr-'' @ v) else None), pa_request = request,
         pa_binding_digest = digest, pa_grant = None, pa_blocked_reason = None\<rparr>"
    "parse_authorization n = Some n" "az_put n s = Inr s'"
    "res = \<lparr>ares_plan = p, ares_request = request, ares_binding_digest = digest, ares_required = force \<or> approval_required c\<rparr>"
proof -
  from assms obtain q now c e risk expires p digest request n where a:
    "safe_parse APPROVAL_INPUT_INVALID parse_authorization_request raw = Inr q" "clock = Some now"
    "ac_lookup cfg (ar_capability_id q) = Some c" "cap_version c = ar_capability_version q"
    "ac_eligible cfg (Shaped \<lparr>mr_guard_run_id = ar_guard_run_id q, mr_capability_id = ar_capability_id q,
         mr_capability_version = ar_capability_version q, mr_inputs = ar_inputs q\<rparr>) = Inr e"
    "derive_risk_snapshot c = Inr risk" "compute_plan_expiry now (ar_expires_at q) (ac_max_ttl_ms cfg) = Inr expires"
    "validate_plan cfg (plan_candidate q e risk (force \<or> approval_required c) u now expires) = Inr p"
    "plan_binding_digest sha p (ac_policy_version cfg) = Inr digest"
    "(if force \<or> approval_required c then ebind (zod (parse_approval_request
           (approval_request_for cfg c e p risk digest v now expires))) (\<lambda>r. Inr (Some r))
         else Inr None) = (Inr request :: approval_request option approval)"
    "parse_authorization \<lparr>pa_plan = p, pa_guard_run_id = el_guard_run_id e,
         pa_request_id = (if force \<or> approval_required c then Some (''apr-'' @ v) else None), pa_request = request,
         pa_binding_digest = digest, pa_grant = None, pa_blocked_reason = None\<rparr> = Some n"
    "az_put n s = Inr s'"
    "res = \<lparr>ares_plan = p, ares_request = request, ares_binding_digest = digest, ares_required = force \<or> approval_required c\<rparr>"
    unfolding authorize_internal_def Let_def ebind_Inr_iff guarded_Inr require_Inr trusted_now_def zod_Inr
      eligibility_or_ineligible_Inr by blast
  have rq: "request = (if force \<or> approval_required c
       then Some (norm_approval_request (approval_request_for cfg c e p risk digest v now expires)) else None)"
    using a(10) by (cases "force \<or> approval_required c") (auto simp: ebind_Inr_iff parse_request_norm)
  show ?thesis
    by (rule that [OF a(1-9) rq parse_authorization_norm [OF a(11)] parse_authorization_idem [OF a(11)] a(12,13)])
qed

lemma derive_risk_matches: "derive_risk_snapshot c = Inr risk \<Longrightarrow> risk_matches risk c"
  by (auto simp: derive_risk_snapshot_def Let_def risk_matches_def split: if_splits)

lemma derive_risk_authority: "derive_risk_snapshot c = Inr risk \<Longrightarrow> risk_required_authority risk = cap_required_authority c"
  by (auto simp: derive_risk_snapshot_def Let_def split: if_splits)

lemma authorize_inv:
  assumes "authz_inv cfg (s, fs, log)" "authorize_internal sha (cfg\<lparr>ac_eligible := elig\<rparr>) force clock u v raw s = Inr (res, s')"
  shows "authz_inv cfg (s', fs, log)"
proof (rule authorize_Inr [OF assms(2)])
  fix q now c e risk expires p digest request n
  assume a: "ac_lookup (cfg\<lparr>ac_eligible := elig\<rparr>) (ar_capability_id q) = Some c" "derive_risk_snapshot c = Inr risk"
    "compute_plan_expiry now (ar_expires_at q) (ac_max_ttl_ms (cfg\<lparr>ac_eligible := elig\<rparr>)) = Inr expires"
    "validate_plan (cfg\<lparr>ac_eligible := elig\<rparr>) (plan_candidate q e risk (force \<or> approval_required c) u now expires) = Inr p"
    "request = (if force \<or> approval_required c
       then Some (norm_approval_request (approval_request_for (cfg\<lparr>ac_eligible := elig\<rparr>) c e p risk digest v now expires)) else None)"
    "n = norm_authorization \<lparr>pa_plan = p, pa_guard_run_id = el_guard_run_id e,
         pa_request_id = (if force \<or> approval_required c then Some (''apr-'' @ v) else None), pa_request = request,
         pa_binding_digest = digest, pa_grant = None, pa_blocked_reason = None\<rparr>"
    "parse_authorization n = Some n" "az_put n s = Inr s'"
  have p: "p = norm_plan (plan_candidate q e risk (force \<or> approval_required c) u now expires)"
    "validate_execution_plan p (ac_lookup cfg) = []"
    using a(4) by (simp_all add: validate_plan_Inr parse_plan_norm)
  have f: "plan_created_at p = Iso now" "plan_expires_at p = Some expires" "plan_risk p = risk" "plan_capability_id p = ar_capability_id q"
    "plan_required_approval p = (force \<or> approval_required c)"
    "plan_state p = (if force \<or> approval_required c then Awaiting_approval else Ready)"
    unfolding p(1) by (simp_all add: plan_candidate_def)
  have n: "pa_plan n = p" "pa_request n = request" "pa_grant n = None"
    unfolding a(6) by (simp_all add: p(1) a(5))
  obtain ms where t: "expires = Iso ms" "now < ms" "ms \<le> now + ac_max_ttl_ms cfg"
    using a(3) by (auto simp: compute_plan_expiry_Inr split: option.splits)
  have "frame_inv cfg n" unfolding frame_inv_def lifetime_ok_def n f a(5)
    using t a(1) derive_risk_matches [OF a(2)] derive_risk_authority [OF a(2)] by (simp add: approval_request_for_def)
  moreover have "state_inv cfg log n" unfolding state_inv_def n f a(5) using p(2) by (simp add: approval_request_for_def)
  ultimately show ?thesis using authz_inv_write [OF assms(1) _ a(7)] a(8) by (simp add: record_inv_def)
qed

section \<open>Applying an approval\<close>

lemma prepare_inv:
  assumes "authz_inv cfg (s, fs, log)" "apply_prepare sha cfg s clock i raw = Inr p"
  shows "authz_inv cfg (s, (i, p) # fs, log)"
  using assms authz_inv_get [OF assms(1), of i "pp_record p"]
  by (auto simp: apply_prepare_Inr authz_inv_def flight_inv_def record_inv_def)

lemma commit_inv:
  assumes "authz_inv cfg (s, fs, log)" "(i, p) \<in> set fs" "apply_commit cfg s i p answer = Inr (res, s')"
  shows "authz_inv cfg (s', remove1 (i, p) fs, (p, answer) # log)"
proof (rule apply_commit_Inr [OF assms(3)])
  fix g raw n
  let ?r = "pp_record p"
  let ?c = "(pa_plan ?r)\<lparr>plan_state := Ready, plan_approval := Some (wire_reference cfg i g)\<rparr>"
  assume a: "answer = Valid_grant (Shaped raw)" "parse_grant raw = Some g" "acceptable p g"
    "az_replace n s = Inr s'" "parse_authorization n = Some n" "pa_plan n = norm_plan ?c"
    "validate_execution_plan (pa_plan n) (ac_lookup cfg) = []"
    "pa_request n = Some (norm_approval_request ((pp_request p)\<lparr>apr_status := Granted\<rparr>))" "pa_grant n = Some (grant_record_of g)"
  have fl: "frame_inv cfg ?r" "plan_id (pa_plan ?r) = i" "ref_plan_id (pp_reference p) = i"
    "pa_request ?r = Some (pp_request p)"
    using assms(1,2) by (auto simp: authz_inv_def flight_inv_def)
  have g: "vg_authority g = ta_authority (vg_actor g)" "authority_satisfies (vg_authority g) (apr_required_authority (pp_request p))"
    "num_less (Some (pp_now p)) (date_parse (vg_expires_at g))" "\<not> ts_less (apr_expires_at (pp_request p)) (vg_expires_at g)"
    "norm_grant g = g"
    using a(3) by (auto simp: acceptable_def parse_grant_def parse_with_Some)
  have tr: "js_trim (ta_id (vg_actor g)) = ta_id (vg_actor g)"
    using arg_cong [OF g(5), of "\<lambda>g. ta_id (vg_actor g)"] by (simp add: norm_grant_def norm_actor_def)
  have fr: "frame_inv cfg n" using fl(1,4) by (auto simp: frame_inv_def lifetime_ok_def a(6,8))
  have gr: "gt_actor (grant_record_of g) = vg_actor g" "gt_expires_at (grant_record_of g) = vg_expires_at g"
    by (simp_all add: grant_record_of_def)
  have risk: "apr_required_authority (pp_request p) = risk_required_authority (plan_risk (pa_plan ?r))"
    using fl(1,4) by (simp add: frame_inv_def)
  have cf: "confirmed ((p, answer) # log) (pa_plan n) (grant_record_of g)"
    unfolding confirmed_def using a(1,2) fl(2,3) g(1,2,3) risk by (auto simp: a(6) gr intro!: exI [of _ g])
  have "state_inv cfg ((p, answer) # log) n"
    unfolding state_inv_def using a(7) cf g(4) tr
    by (auto simp: a(6,8,9) gr wire_reference_def norm_reference_def)
  then have "record_inv cfg ((p, answer) # log) n" using fr by (simp add: record_inv_def)
  moreover have "authz_inv cfg (s, remove1 (i, p) fs, (p, answer) # log)"
    by (rule authz_inv_log [OF assms(1) set_remove1_subset])
  ultimately show ?thesis using authz_inv_write a(4,5) by blast
qed

section \<open>The sweep\<close>

text \<open>A record the sweep has to block: its request, its grant or the plan itself has expired.\<close>

definition past :: "timestamp \<Rightarrow> int \<Rightarrow> bool" where
  "past t now \<longleftrightarrow> num_le (date_parse t) (Some now)"

definition request_due :: "plan_authorization \<Rightarrow> int \<Rightarrow> bool" where
  "request_due r now \<longleftrightarrow> (case pa_request r of None \<Rightarrow> False | Some q \<Rightarrow>
     (plan_state (pa_plan r) = Awaiting_approval \<and> apr_status q = Pending \<and> past (apr_expires_at q) now) \<or>
     (plan_state (pa_plan r) = Ready \<and> apr_status q = Granted \<and>
       (case pa_grant r of None \<Rightarrow> False | Some g \<Rightarrow> past (gt_expires_at g) now)))"

definition sweep_due :: "plan_authorization \<Rightarrow> int \<Rightarrow> bool" where
  "sweep_due r now \<longleftrightarrow> request_due r now \<or>
     (plan_state (pa_plan r) \<in> {Awaiting_approval, Ready} \<and>
      (case plan_expires_at (pa_plan r) of None \<Rightarrow> False | Some t \<Rightarrow> past t now))"

lemma is_expired_past: "is_expired_at t now = Inr b \<Longrightarrow> b = past t now"
  by (auto simp: is_expired_at_Inr past_def)

lemma expire_request_Inr: "expire_request q = Inr q' \<Longrightarrow> q' = norm_approval_request (q\<lparr>apr_status := Expired\<rparr>)"
  by (auto simp: expire_request_def parse_request_norm)

lemma sweep_request_Inr:
  assumes "sweep_request r now = Inr (p, q, reason, changed)"
  shows "changed = request_due r now \<and>
    (if changed then p = blocked (pa_plan r) \<and> (\<exists>q0. pa_request r = Some q0 \<and> q = Some (norm_approval_request (q0\<lparr>apr_status := Expired\<rparr>)))
     else p = pa_plan r \<and> q = pa_request r)"
proof (cases "pa_request r")
  case None
  then show ?thesis using assms by (simp add: sweep_request_def request_due_def)
next
  case (Some q0)
  let ?a = "plan_state (pa_plan r) = Awaiting_approval \<and> apr_status q0 = Pending"
  let ?b = "\<lambda>g. plan_state (pa_plan r) = Ready \<and> apr_status q0 = Granted \<and> past (gt_expires_at g) now"
  obtain e where e: "(if ?a then is_expired_at (apr_expires_at q0) now else Inr False) = (Inr e :: bool approval)"
    and k: "(if e then ebind (expire_request q0) (\<lambda>q'. Inr (blocked (pa_plan r), Some q', Some ''approval request expired'', True))
      else (case pa_grant r of None \<Rightarrow> Inr (pa_plan r, pa_request r, pa_blocked_reason r, False)
             | Some g \<Rightarrow>
               ebind (if plan_state (pa_plan r) = Ready \<and> apr_status q0 = Granted then is_expired_at (gt_expires_at g) now else Inr False)
                 (\<lambda>grant_expired.
                  if grant_expired then ebind (expire_request q0) (\<lambda>q'. Inr (blocked (pa_plan r), Some q', Some ''approval grant expired'', True))
                  else Inr (pa_plan r, pa_request r, pa_blocked_reason r, False)))) = Inr (p, q, reason, changed)"
    using assms unfolding sweep_request_def Let_def Some option.case ebind_Inr_iff by blast
  have e': "e = (?a \<and> past (apr_expires_at q0) now)" using e by (auto split: if_splits dest: is_expired_past)
  show ?thesis
  proof (cases e)
    case True
    then show ?thesis using k e' Some by (auto simp: ebind_Inr_iff request_due_def dest: expire_request_Inr)
  next
    case False
    then show ?thesis
      using k e' Some by (cases "pa_grant r")
        (auto simp: ebind_Inr_iff request_due_def dest!: expire_request_Inr is_expired_past split: if_splits)
  qed
qed

lemma blocked_ok: "execution_plan_ok p \<Longrightarrow> execution_plan_ok (blocked p)"
  unfolding execution_plan_ok_def plan_fields_ok_def plan_refinements_ok_def blocked_sel
  by (auto simp: approval_required_states_def)

lemma sweep_record_Inr:
  assumes "sweep_record r now = Inr x" "parse_authorization r = Some r"
  shows "case x of None \<Rightarrow> \<not> sweep_due r now
    | Some n \<Rightarrow> sweep_due r now \<and> parse_authorization n = Some n \<and> blocks r n"
proof -
  note v = valid_record_norms [OF assms(2)]
  have bl: "parse_plan (blocked (pa_plan r)) = Some (blocked (pa_plan r))"
    using blocked_ok [OF v(4)] by (simp add: parse_plan_def parse_with_Some norm_blocked v(1))
  have nr: "pa_request r = Some q \<Longrightarrow> norm_approval_request q = q" for q using v(2) by simp
  obtain p q reason changed where a: "sweep_request r now = Inr (p, q, reason, changed)"
    using assms(1) by (auto simp: sweep_record_def ebind_Inr_iff)
  note sr = sweep_request_Inr [OF a]
  obtain pe where pe: "(case plan_expires_at (pa_plan r) of None \<Rightarrow> Inr False | Some t \<Rightarrow> is_expired_at t now) = (Inr pe :: bool approval)"
    using assms(1) a by (auto simp: sweep_record_def ebind_Inr_iff)
  have pe': "pe = (case plan_expires_at (pa_plan r) of None \<Rightarrow> False | Some t \<Rightarrow> past t now)"
    using pe by (auto split: option.splits dest: is_expired_past)
  obtain p' q' reason' changed' where b: "(if pe \<and> (plan_state p = Awaiting_approval \<or> plan_state p = Ready) then
         (case q of Some q' \<Rightarrow> if apr_status q' = Pending
             then ebind (expire_request q') (\<lambda>q''. Inr (blocked p, Some q'', Some ''plan expired'', True))
             else Inr (blocked p, q, Some ''plan expired'', True)
          | None \<Rightarrow> Inr (blocked p, q, Some ''plan expired'', True))
       else Inr (p, q, reason, changed)) = (Inr (p', q', reason', changed') :: (execution_plan \<times> approval_request option \<times> string option \<times> bool) approval)"
    and c: "(if \<not> changed' then Inr None
     else (case parse_plan p' of None \<Rightarrow> Inr None
       | Some plan \<Rightarrow> ebind (zod (parse_authorization (r\<lparr>pa_plan := plan, pa_request := q', pa_blocked_reason := reason'\<rparr>)))
           (\<lambda>n. Inr (Some n)))) = (Inr x :: plan_authorization option approval)"
    using assms(1) unfolding sweep_record_def a ebind.simps case_prod_conv pe ebind_Inr_iff by auto
  have ch: "changed' = sweep_due r now"
    using b sr pe' by (auto simp: sweep_due_def ebind_Inr_iff split: if_splits option.splits)
  have eff: "p' = blocked (pa_plan r) \<and> (q' = pa_request r \<or> (\<exists>q0. pa_request r = Some q0 \<and> q' = Some (q0\<lparr>apr_status := Expired\<rparr>)))"
    if changed'
  proof (cases "pe \<and> (plan_state p = Awaiting_approval \<or> plan_state p = Ready)")
    case False
    then have "p' = p" "q' = q" changed using b that by auto
    then show ?thesis using sr nr by (auto simp: norm_request_status)
  next
    case True
    then have st: "\<not> changed" using sr by (auto split: if_splits)
    then have pq: "p = pa_plan r" "q = pa_request r" using sr by auto
    show ?thesis
    proof (cases "pa_request r")
      case (Some q0)
      then have "p' = blocked (pa_plan r)" "q' = Some q0 \<or> (\<exists>z. expire_request q0 = Inr z \<and> q' = Some z)"
        using b True pq by (auto simp: ebind_Inr_iff split: if_splits)
      then show ?thesis using Some nr [OF Some] by (auto simp: norm_request_status dest: expire_request_Inr)
    qed (use b True pq in auto)
  qed
  show ?thesis
  proof (cases changed')
    case True
    then obtain n where n: "parse_authorization (r\<lparr>pa_plan := blocked (pa_plan r), pa_request := q', pa_blocked_reason := reason'\<rparr>) = Some n"
      "x = Some n" using c eff bl by (auto simp: ebind_Inr_iff)
    have e: "n = norm_authorization (r\<lparr>pa_plan := blocked (pa_plan r), pa_request := q', pa_blocked_reason := reason'\<rparr>)"
      using n(1) by (rule parse_authorization_norm)
    have "map_option norm_approval_request q' = q'"
      using eff [OF True] v(2) by (metis norm_request_status nr option.simps(9))
    then have f: "pa_request n = q'" "pa_grant n = pa_grant r" "pa_plan n = norm_plan (blocked (pa_plan r))"
      using v(3) by (simp_all add: e)
    have "blocks r n" unfolding blocks_def f using eff [OF True] by blast
    then show ?thesis using n True ch parse_authorization_idem [OF n(1)] by simp
  qed (use c ch in simp)
qed

abbreviation record_key :: "plan_authorization \<Rightarrow> string" where
  "record_key r \<equiv> plan_id (pa_plan r)"

text \<open>What a sweep does to one record between two stores.\<close>

definition swept :: "authorization_store \<Rightarrow> plan_authorization \<Rightarrow> int \<Rightarrow> bool" where
  "swept s' r now \<longleftrightarrow> (if sweep_due r now
     then (case az_get s' (record_key r) of None \<Rightarrow> False | Some n \<Rightarrow> parse_authorization n = Some n \<and> blocks r n)
     else az_get s' (record_key r) = Some r)"

lemma replace_blocks:
  assumes "az_replace n s = Inr s1" "parse_authorization n = Some n" "blocks r n"
  shows "az_get s1 = (az_get s)(record_key r \<mapsto> n)"
proof -
  have "record_key n = record_key r" using assms(3) by (simp add: blocks_def)
  then show ?thesis using az.update_lookup [OF assms(1)] assms(2) by auto
qed

lemma sweep_list_inv:
  assumes "authz_inv cfg (s, fs, log)" "sweep_list rs now s acc = (out, s')"
    "\<forall>r \<in> set rs. record_inv cfg log r \<and> parse_authorization r = Some r"
  shows "authz_inv cfg (s', fs, log)"
  using assms
proof (induction rs arbitrary: s acc)
  case (Cons r rs)
  show ?case
  proof (cases "sweep_record r now")
    case (Inr x)
    note x = sweep_record_Inr [OF Inr]
    show ?thesis
    proof (cases x)
      case None
      then show ?thesis using Cons Inr by simp
    next
      case (Some n)
      then have n: "parse_authorization n = Some n" "blocks r n" using x Cons.prems(3) by auto
      then have i: "record_inv cfg log n" using Cons.prems(3) blocks_inv by auto
      show ?thesis
      proof (cases "az_replace n s")
        case (Inr s1)
        then have "authz_inv cfg (s1, fs, log)" using authz_inv_write [OF Cons.prems(1) _ n(1) i] by blast
        then show ?thesis using Cons.IH Cons.prems(2,3) \<open>sweep_record r now = Inr x\<close> Some Inr by simp
      qed (use Cons.prems \<open>sweep_record r now = Inr x\<close> Some in simp)
    qed
  qed (use Cons.prems in simp)
qed simp

lemma sweep_list_exact:
  assumes "sweep_list rs now s acc = (Inr ids, s')" "distinct (map record_key rs)"
    "\<forall>r \<in> set rs. az_get s (record_key r) = Some r \<and> parse_authorization r = Some r"
  shows "ids = acc @ map record_key (filter (\<lambda>r. sweep_due r now) rs) \<and> (\<forall>r \<in> set rs. swept s' r now) \<and>
    (\<forall>i. i \<notin> record_key ` set rs \<longrightarrow> az_get s' i = az_get s i)"
  using assms
proof (induction rs arbitrary: s acc)
  case (Cons r rs)
  then obtain x where x: "sweep_record r now = Inr x" by (cases "sweep_record r now") auto
  note xr = sweep_record_Inr [OF x] and fresh = Cons.prems(2)
  show ?case
  proof (cases x)
    case None
    then have d: "\<not> sweep_due r now" using xr Cons.prems(3) by simp
    have ih: "ids = acc @ map record_key (filter (\<lambda>r. sweep_due r now) rs) \<and> (\<forall>r \<in> set rs. swept s' r now) \<and>
      (\<forall>i. i \<notin> record_key ` set rs \<longrightarrow> az_get s' i = az_get s i)"
      by (rule Cons.IH) (use Cons.prems x None in auto)
    moreover from this have "az_get s' (record_key r) = Some r" using Cons.prems(2,3) by auto
    ultimately show ?thesis using d by (auto simp: swept_def)
  next
    case (Some n)
    then have n: "sweep_due r now" "parse_authorization n = Some n" "blocks r n" using xr Cons.prems(3) by auto
    then obtain s1 where s1: "az_replace n s = Inr s1" using Cons.prems(1) x Some by (cases "az_replace n s") auto
    note get = replace_blocks [OF s1 n(2,3)]
    have "ids = (acc @ [record_key r]) @ map record_key (filter (\<lambda>r. sweep_due r now) rs) \<and> (\<forall>r \<in> set rs. swept s' r now) \<and>
      (\<forall>i. i \<notin> record_key ` set rs \<longrightarrow> az_get s' i = az_get s1 i)"
      by (rule Cons.IH) (use Cons.prems x Some s1 get in \<open>auto simp: image_iff\<close>)
    moreover from this have "az_get s' (record_key r) = Some n" using Cons.prems(2) get by auto
    ultimately show ?thesis using n get by (auto simp: swept_def)
  qed
qed simp

lemma az_list_mem: "az_invar s \<Longrightarrow> r \<in> set (az_list s) \<longleftrightarrow> az_get s (record_key r) = Some r"
  unfolding az_list_def set_sort az_invar_def az_get_def using map_values_get [of "az_records s" r] by metis

lemma az_list_valid:
  assumes "az_invar s" "r \<in> set (az_list s)"
  shows "az_get s (record_key r) = Some r \<and> parse_authorization r = Some r"
proof -
  have "az_get s (record_key r) = Some r" using az_list_mem [OF assms(1)] assms(2) by simp
  moreover have "\<forall>i r. az_get s i = Some r \<longrightarrow> parse_authorization r = Some r" using assms(1) by (simp add: az_invar_def)
  ultimately show ?thesis by blast
qed

lemma distinct_keys_sort: "distinct (map f (sort_key f xs)) \<longleftrightarrow> distinct (map f xs)"
  by (rule mset_eq_imp_distinct_iff) (simp only: mset_map mset_sort)

lemma az_list_distinct:
  assumes "az_invar s"
  shows "distinct (map record_key (az_list s))"
proof -
  have k: "keys_distinct (az_records s)" "\<forall>i r. az_get s i = Some r \<longrightarrow> record_key r = i"
    using assms by (auto simp: az_invar_def)
  then have "\<forall>(i, r) \<in> set (az_records s). record_key r = i"
    by (auto simp: az_get_def keys_distinct_def)
  then have "map (\<lambda>x. record_key (snd x)) (az_records s) = map fst (az_records s)" by (auto intro!: map_cong)
  then show ?thesis using k(1) by (simp only: az_list_def distinct_keys_sort keys_distinct_def map_map comp_def)
qed

lemma sweep_inv:
  assumes "authz_inv cfg (s, fs, log)" "sweep_expired override clock s = (out, s')"
  shows "authz_inv cfg (s', fs, log)"
proof -
  have s: "az_invar s" using assms(1) by (simp add: authz_inv_def)
  have "\<forall>r \<in> set (az_list s). record_inv cfg log r \<and> parse_authorization r = Some r"
    using authz_inv_get [OF assms(1)] by (auto simp: az_list_mem [OF s])
  then show ?thesis
    using assms sweep_list_inv by (auto simp: sweep_expired_def split: sum.splits option.splits)
qed

section \<open>Reachable authorizations\<close>

lemma authz_step_inv: "authz_step sha cfg st st' \<Longrightarrow> authz_inv cfg st \<Longrightarrow> authz_inv cfg st'"
proof (induction rule: authz_step.induct)
  case (reject i p fs s answer e log)
  then show ?case using authz_inv_log [OF _ set_remove1_subset] by blast
qed (auto intro: authorize_inv prepare_inv commit_inv deny_inv revoke_inv sweep_inv discard_inv)

lemma authz_reachable_inv: "authz_reachable sha cfg st \<Longrightarrow> authz_inv cfg st"
proof (induction rule: authz_reachable.induct)
  case (start n s)
  then show ?case by (auto simp: new_authorization_store_def authz_inv_def az_invar_def az_get_def split: if_splits)
qed (rule authz_step_inv)

section \<open>A concrete lifecycle\<close>

definition sample_grant :: verified_grant where
  "sample_grant = \<lparr>vg_actor = \<lparr>ta_id = ''owner'', ta_kind = Owner, ta_authority = L2\<rparr>, vg_authority = L2,
     vg_granted_at = Iso 2000, vg_expires_at = Iso 60000, vg_native_record_id = ''native-1'',
     vg_token_reference = ''keychain-1'', vg_token_digest = sample_digest\<rparr>"

definition sample_config :: authorization_config where
  "sample_config = \<lparr>ac_lookup = sample_lookup, ac_eligible = materialize_evidence sample_sha sample_service 1000,
     ac_verifier = (\<lambda>p r d. Valid_grant (Shaped sample_grant)), ac_policy_version = approval_policy_version,
     ac_max_ttl_ms = default_max_approval_ttl_ms\<rparr>"

definition sample_authorization_request :: authorization_request where
  "sample_authorization_request = \<lparr>ar_decision_id = ''dec-1'', ar_capability_id = ''git.branch.create'',
     ar_capability_version = ''1.0.0'', ar_adapter_id = ''git-cli'', ar_inputs = [(''branch'', JStr ''main'')],
     ar_guard_run_id = ''run-1'', ar_timeout_ms = 1000,
     ar_verification_plan = Some \<lparr>fup_capability_id = ''git.branch.read'', fup_inputs = [], fup_description = None\<rparr>,
     ar_rollback_plan = None, ar_requested_by = None, ar_correlation_id = None, ar_expires_at = None\<rparr>"

definition sample_risk :: risk_snapshot where
  "sample_risk = \<lparr>risk_level = Medium, risk_reversible = True, risk_side_effect_class = Reversible_write,
       risk_required_authority = L2, risk_capability_version = ''1.0.0''\<rparr>"

definition sample_eligibility :: eligibility_record where
  "sample_eligibility = eligibility_of eligible_sample_run sample_capability 1000"

definition awaiting_plan :: execution_plan where
  "awaiting_plan = plan_candidate sample_authorization_request sample_eligibility sample_risk True ''0001'' 1000 (Iso 901000)"

lemma awaiting_plan_ok: "parse_plan awaiting_plan = Some awaiting_plan" "validate_execution_plan awaiting_plan sample_lookup = []"
  by code_simp+

definition sample_payload :: binding_payload where
  "sample_payload = \<lparr>bp_plan_id = ''plan-0001'', bp_decision_id = ''dec-1'',
       bp_capability_id = ''git.branch.create'', bp_capability_version = ''1.0.0'',
       bp_adapter_id = ''git-cli'', bp_inputs_digest = sample_digest, bp_risk_digest = sample_digest, bp_coverage_digest = sample_digest,
       bp_timeout_ms = 1000, bp_verification_digest = Some sample_digest, bp_rollback_digest = None,
       bp_created_at = Iso 1000, bp_expires_at = Some (Iso 901000),
       bp_policy_version = approval_policy_version\<rparr>"

lemma awaiting_binding: "plan_binding_digest sample_sha awaiting_plan approval_policy_version = Inr sample_digest"
proof -
  have f: "plan_id awaiting_plan = ''plan-0001''" "plan_decision_id awaiting_plan = ''dec-1''"
    "plan_capability_id awaiting_plan = ''git.branch.create''" "plan_capability_version awaiting_plan = ''1.0.0''"
    "plan_adapter_id awaiting_plan = ''git-cli''" "plan_normalized_inputs awaiting_plan = [(''branch'', JStr ''main'')]"
    "plan_risk awaiting_plan = sample_risk" "plan_coverage awaiting_plan = run_coverage eligible_sample_run"
    "plan_timeout_ms awaiting_plan = 1000" "plan_rollback_plan awaiting_plan = None"
    "plan_verification_plan awaiting_plan = Some \<lparr>fup_capability_id = ''git.branch.read'', fup_inputs = [], fup_description = None\<rparr>"
    "plan_created_at awaiting_plan = Iso 1000" "plan_expires_at awaiting_plan = Some (Iso 901000)"
    by (simp_all add: awaiting_plan_def plan_candidate_def sample_authorization_request_def sample_eligibility_def eligibility_of_def)
  have d: "assert_number_domain (JObj [(''branch'', JStr ''main'')]) = Inr ()" "assert_number_domain (risk_json sample_risk) = Inr ()"
    "assert_number_domain (coverage_json (run_coverage eligible_sample_run)) = Inr ()"
    "assert_number_domain (verification_plan_json \<lparr>fup_capability_id = ''git.branch.read'', fup_inputs = [], fup_description = None\<rparr>) = Inr ()"
    by code_simp+
  have i: "normalized_inputs_digest sample_sha [(''branch'', JStr ''main'')] = Inr sample_digest"
    by (simp add: normalized_inputs_digest_def json_object_ok_def sample_json_digest)
  have c: "coverage_digest sample_sha (run_coverage eligible_sample_run) = Inr sample_digest"
  proof -
    have "parse_coverage (run_coverage eligible_sample_run) \<noteq> None" by code_simp
    then show ?thesis by (auto simp: coverage_digest_def sample_json_digest)
  qed
  have p: "parse_payload sample_payload = Some sample_payload" by code_simp
  have "binding_payload_for_plan sample_sha awaiting_plan approval_policy_version = Inr sample_payload"
    unfolding binding_payload_for_plan_def build_binding_payload_def binding_inputs_of_def f
    using p by (simp add: d i c opt_domain_def opt_digest_def digest_json_value_def sample_json_digest follow_up_json_safe
        foreign_def sample_payload_def)
  moreover have "is_json_safe (payload_json sample_payload)" by code_simp
  ultimately show ?thesis
    using p by (simp add: plan_binding_digest_def approval_binding_digest_def sample_json_digest foreign_def)
qed

definition awaiting_request :: approval_request where
  "awaiting_request = approval_request_for sample_config sample_capability sample_eligibility awaiting_plan sample_risk
     sample_digest ''0001'' 1000 (Iso 901000)"

definition awaiting_record :: plan_authorization where
  "awaiting_record = \<lparr>pa_plan = awaiting_plan, pa_guard_run_id = ''run-1'', pa_request_id = Some ''apr-0001'',
     pa_request = Some awaiting_request, pa_binding_digest = sample_digest, pa_grant = None, pa_blocked_reason = None\<rparr>"

definition empty_sample :: authorization_store where
  "empty_sample = \<lparr>az_records = [], az_max = 10\<rparr>"

definition awaiting_store :: authorization_store where
  "awaiting_store = \<lparr>az_records = [(''plan-0001'', awaiting_record)], az_max = 10\<rparr>"

lemma awaiting_record_ok: "parse_approval_request awaiting_request = Some awaiting_request"
  "parse_authorization awaiting_record = Some awaiting_record"
  by code_simp+

lemma sample_authorize:
  "authorize_internal sample_sha sample_config False (Some 1000) ''0001'' ''0001'' (Shaped sample_authorization_request) empty_sample =
   Inr (\<lparr>ares_plan = awaiting_plan, ares_request = Some awaiting_request, ares_binding_digest = sample_digest, ares_required = True\<rparr>,
     awaiting_store)"
proof -
  have q: "parse_authorization_request sample_authorization_request = Some sample_authorization_request" by code_simp
  have f: "ar_capability_id sample_authorization_request = ''git.branch.create''"
    "ar_capability_version sample_authorization_request = ''1.0.0''" "ar_expires_at sample_authorization_request = None"
    "ac_lookup sample_config ''git.branch.create'' = Some sample_capability" "cap_version sample_capability = ''1.0.0''"
    "approval_required sample_capability" "ac_max_ttl_ms sample_config = 900000" "ac_policy_version sample_config = approval_policy_version"
    "plan_id awaiting_plan = ''plan-0001''" "el_guard_run_id sample_eligibility = ''run-1''"
    by code_simp+
  have m: "\<lparr>mr_guard_run_id = ar_guard_run_id sample_authorization_request, mr_capability_id = ''git.branch.create'',
      mr_capability_version = ''1.0.0'', mr_inputs = ar_inputs sample_authorization_request\<rparr> = sample_materialize"
    by (simp add: sample_materialize_def sample_authorization_request_def)
  have e: "ac_eligible sample_config (Shaped sample_materialize) = Inr sample_eligibility"
    by (simp add: sample_config_def sample_eligible sample_eligibility_def)
  have r: "derive_risk_snapshot sample_capability = Inr sample_risk" by code_simp
  have x: "compute_plan_expiry 1000 None 900000 = Inr (Iso 901000)" by code_simp
  have v: "validate_plan sample_config awaiting_plan = Inr awaiting_plan"
    using awaiting_plan_ok by (simp add: validate_plan_Inr sample_config_def)
  have p: "az_put awaiting_record empty_sample = Inr awaiting_store"
    using awaiting_record_ok(2) f(9)
    by (auto simp: az_put_Inr az_get_def empty_sample_def awaiting_store_def awaiting_record_def)
  show ?thesis
    unfolding authorize_internal_def Let_def
    using awaiting_record_ok p
    by (simp add: safe_parse_def q trusted_now_def f m e eligibility_or_ineligible_def r x awaiting_plan_def [symmetric] v
        awaiting_binding awaiting_request_def [symmetric] awaiting_record_def)
qed

definition prepared_sample :: prepared_approval where
  "prepared_sample = \<lparr>pp_record = awaiting_record, pp_request = awaiting_request, pp_now = 3000,
     pp_reference = sample_reference\<lparr>ref_policy_version := approval_policy_version\<rparr>\<rparr>"

lemma sample_prepare:
  "apply_prepare sample_sha sample_config awaiting_store (Some 3000) ''plan-0001'' (Shaped (pp_reference prepared_sample)) =
   Inr prepared_sample"
proof -
  have f: "pp_record prepared_sample = awaiting_record" "pp_request prepared_sample = awaiting_request" "pp_now prepared_sample = 3000"
    "pa_plan awaiting_record = awaiting_plan" "pa_binding_digest awaiting_record = sample_digest"
    "ac_policy_version sample_config = approval_policy_version" "pa_request awaiting_record = Some awaiting_request"
    by (simp_all add: prepared_sample_def awaiting_record_def sample_config_def)
  have g: "az_get awaiting_store ''plan-0001'' = Some awaiting_record" by (simp add: az_get_def awaiting_store_def)
  have h: "plan_state awaiting_plan = Awaiting_approval" "apr_status awaiting_request = Pending"
    "apr_policy_version awaiting_request = approval_policy_version"
    "num_less (Some 3000) (date_parse (apr_expires_at awaiting_request))"
    "safe_parse APPROVAL_INPUT_INVALID parse_reference (Shaped (pp_reference prepared_sample)) = (Inr (pp_reference prepared_sample) :: approval_reference approval)"
    "ref_plan_id (pp_reference prepared_sample) = ''plan-0001''"
    "ref_policy_version (pp_reference prepared_sample) = approval_policy_version"
    by code_simp+
  show ?thesis unfolding apply_prepare_Inr f using g h awaiting_binding by simp
qed

definition ready_plan :: execution_plan where
  "ready_plan = awaiting_plan\<lparr>plan_state := Ready, plan_approval := Some (wire_reference sample_config ''plan-0001'' sample_grant)\<rparr>"

definition granted_record :: plan_authorization where
  "granted_record = awaiting_record\<lparr>pa_plan := ready_plan, pa_request := Some (awaiting_request\<lparr>apr_status := Granted\<rparr>),
     pa_grant := Some (grant_record_of sample_grant), pa_blocked_reason := None\<rparr>"

lemma granted_ok: "parse_plan ready_plan = Some ready_plan" "validate_execution_plan ready_plan sample_lookup = []"
  "parse_approval_request (awaiting_request\<lparr>apr_status := Granted\<rparr>) = Some (awaiting_request\<lparr>apr_status := Granted\<rparr>)"
  "parse_grant_record (grant_record_of sample_grant) = Some (grant_record_of sample_grant)"
  "parse_authorization granted_record = Some granted_record"
  "accept_grant prepared_sample (Valid_grant (Shaped sample_grant)) = Inr sample_grant"
  "plan_id ready_plan = ''plan-0001''"
  by code_simp+

lemma sample_commit:
  assumes "az_get s ''plan-0001'' = Some r"
  shows "apply_commit sample_config s ''plan-0001'' prepared_sample (Valid_grant (Shaped sample_grant)) =
    Inr (\<lparr>ares_plan = ready_plan, ares_request = Some (awaiting_request\<lparr>apr_status := Granted\<rparr>),
      ares_binding_digest = sample_digest, ares_required = True\<rparr>,
      s\<lparr>az_records := map_set ''plan-0001'' granted_record (az_records s)\<rparr>)"
proof -
  have v: "validate_plan sample_config ready_plan = Inr ready_plan"
    using granted_ok by (simp add: validate_plan_Inr sample_config_def)
  have f: "pp_record prepared_sample = awaiting_record" "pp_request prepared_sample = awaiting_request"
    "pa_plan awaiting_record = awaiting_plan" "pa_binding_digest awaiting_record = sample_digest"
    "pa_plan granted_record = ready_plan" "pa_request granted_record = Some (awaiting_request\<lparr>apr_status := Granted\<rparr>)"
    by (simp_all add: prepared_sample_def awaiting_record_def granted_record_def)
  have p: "az_replace granted_record s = Inr (s\<lparr>az_records := map_set ''plan-0001'' granted_record (az_records s)\<rparr>)"
    using granted_ok(5,7) assms f by (auto simp: az_replace_Inr)
  show ?thesis unfolding apply_commit_def
    using granted_ok(3-6) by (simp add: f ready_plan_def [symmetric] v granted_record_def [symmetric] p)
qed

section \<open>Properties\<close>

text \<open>C1: No plan becomes executable without what it needs, whatever the order of operations. In every state that
  the service can reach from an empty store, with any callers, clocks, eligibility results and
  verifier answers and with other operations running while the native verifier is awaited, a plan
  in state ready is for a catalogued capability whose current risk it carries, has all mandatory
  evidence, expires after its creation and at most the policy lifetime later; and if its
  capability requires approval, it carries a grant that the verifier confirmed for this very plan,
  unexpired when it was applied and with at least the required authority.\<close>
theorem ready_plans_are_authorized:
  assumes "authz_reachable sha cfg (s, fs, log)" "az_get s i = Some r" "plan_state (pa_plan r) = Ready"
  shows "\<exists>c. ac_lookup cfg (plan_capability_id (pa_plan r)) = Some c \<and> risk_matches (plan_risk (pa_plan r)) c \<and>
    list_all (satisfied_by (plan_coverage (pa_plan r))) (filter req_mandatory (cap_required_evidence c)) \<and>
    lifetime_ok cfg (pa_plan r) \<and>
    (\<not> approval_required c \<or> (\<exists>gt. pa_grant r = Some gt \<and> confirmed log (pa_plan r) gt))"
proof -
  have inv: "record_inv cfg log r" using authz_inv_get [OF authz_reachable_inv [OF assms(1)] assms(2)] by simp
  then obtain c where c: "ac_lookup cfg (plan_capability_id (pa_plan r)) = Some c" "risk_matches (plan_risk (pa_plan r)) c"
    "plan_required_approval (pa_plan r) \<or> \<not> approval_required c" by (auto simp: record_inv_def frame_inv_def)
  have v: "validate_execution_plan (pa_plan r) (ac_lookup cfg) = []"
    using inv assms(3) by (simp add: record_inv_def state_inv_def)
  have "list_all (satisfied_by (plan_coverage (pa_plan r))) (filter req_mandatory (cap_required_evidence c))"
    using validated_evidence [OF v c(1)] assms(3) by (simp add: executable_plan_states_def)
  moreover have "\<not> plan_required_approval (pa_plan r) \<or> (\<exists>gt. pa_grant r = Some gt \<and> confirmed log (pa_plan r) gt)"
    using inv assms(3) by (auto simp: record_inv_def state_inv_def frame_inv_def split: option.splits)
  moreover have "lifetime_ok cfg (pa_plan r)" using inv by (simp add: record_inv_def frame_inv_def)
  ultimately show ?thesis using c by blast
qed

definition granted_store :: authorization_store where
  "granted_store = awaiting_store\<lparr>az_records := map_set ''plan-0001'' granted_record (az_records awaiting_store)\<rparr>"

lemma awaiting_get: "az_get awaiting_store ''plan-0001'' = Some awaiting_record"
  by (simp add: az_get_def awaiting_store_def)

lemma granted_get: "az_get granted_store ''plan-0001'' = Some granted_record"
  by (simp add: az_get_def awaiting_store_def granted_store_def)

lemma sample_reachable:
  "authz_reachable sample_sha sample_config (granted_store, [], [(prepared_sample, Valid_grant (Shaped sample_grant))])"
proof -
  have "authz_reachable sample_sha sample_config (empty_sample, [], [])"
    by (rule authz_reachable.start [of 10]) (simp add: new_authorization_store_def empty_sample_def)
  moreover have e: "sample_config\<lparr>ac_eligible := ac_eligible sample_config\<rparr> = sample_config" by simp
  have "authz_step sample_sha sample_config (empty_sample, [], []) (awaiting_store, [], [])"
    by (rule authz_step.authorize [where elig = "ac_eligible sample_config"]) (unfold e, rule sample_authorize)
  ultimately have "authz_reachable sample_sha sample_config (awaiting_store, [], [])" by (rule authz_reachable.step)
  then have "authz_reachable sample_sha sample_config (awaiting_store, [(''plan-0001'', prepared_sample)], [])"
    by (rule authz_reachable.step) (rule authz_step.prepare [OF sample_prepare])
  moreover have "authz_step sample_sha sample_config (awaiting_store, [(''plan-0001'', prepared_sample)], [])
     (granted_store, remove1 (''plan-0001'', prepared_sample) [(''plan-0001'', prepared_sample)],
      [(prepared_sample, Valid_grant (Shaped sample_grant))])"
    unfolding granted_store_def by (rule authz_step.commit [OF _ sample_commit [OF awaiting_get]]) (rule list.set_intros)
  ultimately show ?thesis unfolding remove1.simps if_P [OF refl] by (rule authz_reachable.step)
qed

lemma ready_plans_are_authorized_witness:
  "\<exists>c. sample_lookup ''git.branch.create'' = Some c \<and> (\<not> approval_required c \<or> (\<exists>gt. pa_grant granted_record = Some gt))"
proof -
  have "plan_state (pa_plan granted_record) = Ready" "plan_capability_id (pa_plan granted_record) = ''git.branch.create''"
    "ac_lookup sample_config = sample_lookup"
    by (simp_all add: granted_record_def ready_plan_def awaiting_plan_def plan_candidate_def sample_authorization_request_def sample_config_def)
  then show ?thesis using ready_plans_are_authorized [OF sample_reachable granted_get] by auto
qed

text \<open>C2: An approval is applied only to the plan it was given for, and changes nothing else. If applying an approval
  without interleaving succeeds, the plan was awaiting approval with a pending request of the
  current policy that had not expired, the binding digest recomputed from the stored plan is the
  recorded one, the reference names this plan and policy, and the verifier confirmed a grant with
  consistent and sufficient authority that is not yet expired, not granted in the future and not
  longer-lived than the request. The stored plan becomes ready and is otherwise the same plan, and
  no other authorization changes.\<close>
theorem approval_application_exact:
  assumes "az_invar s" "apply_approval sha cfg clock i raw s = Inr (res, s')"
  shows "\<exists>p g n. az_get s i = Some (pp_record p) \<and> plan_state (pa_plan (pp_record p)) = Awaiting_approval \<and>
    pa_request (pp_record p) = Some (pp_request p) \<and> apr_status (pp_request p) = Pending \<and>
    apr_policy_version (pp_request p) = ac_policy_version cfg \<and> clock = Some (pp_now p) \<and>
    num_less (Some (pp_now p)) (date_parse (apr_expires_at (pp_request p))) \<and>
    plan_binding_digest sha (pa_plan (pp_record p)) (ac_policy_version cfg) = Inr (pa_binding_digest (pp_record p)) \<and>
    ref_plan_id (pp_reference p) = i \<and> ref_policy_version (pp_reference p) = ac_policy_version cfg \<and>
    acceptable p g \<and> (\<exists>x. ask_verifier cfg p = Valid_grant (Shaped x) \<and> parse_grant x = Some g) \<and>
    az_get s' = (az_get s)(i \<mapsto> n) \<and> pa_grant n = Some (grant_record_of g) \<and>
    pa_plan n = norm_plan ((pa_plan (pp_record p))\<lparr>plan_state := Ready, plan_approval := Some (wire_reference cfg i g)\<rparr>)"
proof -
  obtain p where p: "apply_prepare sha cfg s clock i raw = Inr p" "apply_commit cfg s i p (ask_verifier cfg p) = Inr (res, s')"
    using assms(2) by (auto simp: apply_approval_def ebind_Inr_iff)
  note pp = p(1) [unfolded apply_prepare_Inr]
  have i: "record_key (pp_record p) = i" using pp assms(1) by (auto simp: az_invar_def)
  obtain g x n where c: "ask_verifier cfg p = Valid_grant (Shaped x)" "parse_grant x = Some g" "acceptable p g"
    "az_replace n s = Inr s'" "parse_authorization n = Some n" "pa_grant n = Some (grant_record_of g)"
    "pa_plan n = norm_plan ((pa_plan (pp_record p))\<lparr>plan_state := Ready, plan_approval := Some (wire_reference cfg i g)\<rparr>)"
    by (rule apply_commit_Inr [OF p(2)]) blast
  have "record_key n = i" using c(7) i by simp
  then have "az_get s' = (az_get s)(i \<mapsto> n)" using az.update_lookup [OF c(4)] c(5) by auto
  then show ?thesis using pp c by blast
qed

lemma awaiting_store_invar: "az_invar awaiting_store"
  using awaiting_record_ok(2)
  by (auto simp: az_invar_def awaiting_store_def az_get_def keys_distinct_def awaiting_record_def awaiting_plan_def plan_candidate_def
      split: if_splits)

lemma sample_ask: "ask_verifier sample_config prepared_sample = Valid_grant (Shaped sample_grant)"
  by (simp add: ask_verifier_def sample_config_def)

lemma approval_application_exact_witness:
  "\<exists>p :: prepared_approval. az_get awaiting_store ''plan-0001'' = Some (pp_record p) \<and> plan_state (pa_plan (pp_record p)) = Awaiting_approval"
proof -
  have "apply_approval sample_sha sample_config (Some 3000) ''plan-0001'' (Shaped (pp_reference prepared_sample)) awaiting_store =
      apply_commit sample_config awaiting_store ''plan-0001'' prepared_sample (Valid_grant (Shaped sample_grant))"
    by (simp add: apply_approval_def sample_prepare sample_ask)
  from approval_application_exact [OF awaiting_store_invar trans [OF this sample_commit [OF awaiting_get]]]
  show ?thesis by (elim exE conjE) (intro exI conjI; assumption)
qed

text \<open>A sweep blocks exactly the authorizations that are due. If it completes, the ids it reports are those of
  the stored records whose pending request, granted grant or whole plan has expired while they
  were awaiting or ready; each of these is now a valid blocked record of the same plan without an
  approval, every other record is unchanged, and so no expired plan is left ready or awaiting.\<close>
lemma sweep_blocks_exactly_the_due:
  assumes "az_invar s" "sweep_expired override clock s = (Inr ids, s')"
  shows "\<exists>now. (case override of None \<Rightarrow> clock | Some t \<Rightarrow> Some t) = Some now \<and>
    ids = map record_key (filter (\<lambda>r. sweep_due r now) (az_list s)) \<and>
    list_all (\<lambda>r. swept s' r now) (az_list s) \<and>
    (az_get s i \<noteq> None \<or> az_get s' i = None)"
proof -
  obtain now where now: "(case override of None \<Rightarrow> clock | Some t \<Rightarrow> Some t) = Some now"
    and l: "sweep_list (az_list s) now s [] = (Inr ids, s')"
    using assms(2) by (auto simp: sweep_expired_def trusted_now_def split: option.splits sum.splits)
  have m: "\<forall>r \<in> set (az_list s). az_get s (record_key r) = Some r \<and> parse_authorization r = Some r"
    using az_list_valid [OF assms(1)] by blast
  note e = sweep_list_exact [OF l az_list_distinct [OF assms(1)] m]
  moreover have "az_get s i \<noteq> None \<or> az_get s' i = None"
  proof (cases "az_get s i")
    case None
    then have "i \<notin> record_key ` set (az_list s)" using m by auto
    then show ?thesis using e None by simp
  qed simp
  ultimately show ?thesis using now by (auto simp: list_all_iff)
qed

section \<open>Denied and revoked plans\<close>

definition halted :: "authorization_store \<Rightarrow> string \<Rightarrow> plan_authorization \<Rightarrow> bool" where
  "halted s i r \<longleftrightarrow> az_get s i = Some r \<and> plan_state (pa_plan r) = Blocked"

lemma replace_other:
  assumes "az_replace n s = Inr s'" "parse_authorization n = Some n" "record_key n \<noteq> i"
  shows "az_get s' i = az_get s i"
  using az.update_other [OF assms(1,2)] assms(3) by simp

lemma block_record_other:
  assumes "block_record cfg r q st reason s = Inr (res, s')" "pa_request r = Some q" "parse_authorization r = Some r"
    "record_key r \<noteq> i"
  shows "az_get s' i = az_get s i"
proof (rule block_record_Inr [OF assms(1-3)])
  fix n assume "az_replace n s = Inr s'" "parse_authorization n = Some n" "pa_plan n = norm_plan (blocked (pa_plan r))"
  then show ?thesis using assms(4) by (intro replace_other [of n]) simp_all
qed

lemma block_record_halted:
  assumes "authz_inv cfg (s, fs, log)" "halted s i r" "az_get s j = Some r'" "plan_state (pa_plan r') \<noteq> Blocked"
    "pa_request r' = Some q" "block_record cfg r' q st reason s = Inr (res, s')"
  shows "halted s' i r"
proof -
  note r' = authz_inv_get [OF assms(1,3)]
  then have "record_key r' \<noteq> i" using assms(2-4) by (auto simp: halted_def)
  then show ?thesis using block_record_other [OF assms(6,5)] r' assms(2) by (simp add: halted_def)
qed

lemma sweep_list_halted:
  assumes "sweep_list rs now s acc = (out, s')" "halted s i r"
    "\<forall>x \<in> set rs. parse_authorization x = Some x \<and> (record_key x = i \<longrightarrow> plan_state (pa_plan x) = Blocked)"
  shows "az_get s' i = Some r"
  using assms
proof (induction rs arbitrary: s acc)
  case Nil
  then show ?case by (simp add: halted_def)
next
  case (Cons y rs)
  show ?case
  proof (cases "sweep_record y now")
    case (Inl e)
    then show ?thesis using Cons.prems by (simp add: halted_def)
  next
    case (Inr x)
    note xr = sweep_record_Inr [OF Inr]
    show ?thesis
    proof (cases x)
      case None
      then show ?thesis using Cons Inr by simp
    next
      case (Some n)
      then have n: "sweep_due y now" "parse_authorization n = Some n" "blocks y n" using xr Cons.prems(3) by auto
      then have "record_key y \<noteq> i"
        using Cons.prems(3) by (auto simp: sweep_due_def request_due_def split: option.splits)
      then have "record_key n \<noteq> i" using n(3) by (simp add: blocks_def)
      then have "halted s1 i r" if "az_replace n s = Inr s1" for s1
        using replace_other [OF that n(2)] Cons.prems(2) by (simp add: halted_def)
      then show ?thesis using Cons Inr Some by (cases "az_replace n s") (auto simp: halted_def)
    qed
  qed
qed

lemma halted_step:
  assumes "authz_step sha cfg (s, fs, log) (s', fs', log')" "authz_inv cfg (s, fs, log)" "halted s i r" "i \<notin> fst ` set fs"
  shows "halted s' i r \<and> i \<notin> fst ` set fs'"
  using assms(1)
proof (cases rule: authz_step_elim)
  case (authorize elig force clock u v raw res s1)
  from authorize(2) obtain n where "az_put n s = Inr s'"
    by (rule authorize_Inr) (use authorize in auto)
  then show ?thesis using az.insert_keeps assms(3,4) authorize by (auto simp: halted_def)
next
  case (prepare clock j raw p)
  then show ?thesis using assms(3,4) by (auto simp: apply_prepare_Inr halted_def)
next
  case (commit j p answer res s1)
  have "flight_inv cfg (j, p)" using commit(2) assms(2) by (simp add: authz_inv_def)
  then have j: "j \<noteq> i" "record_key (pp_record p) = j"
    using assms(4) commit(2) by (simp_all add: flight_inv_def) force
  from commit(3) have "az_get s1 i = az_get s i"
  proof (rule apply_commit_Inr)
    fix g n
    assume a: "az_replace n s = Inr s1" "parse_authorization n = Some n"
      "pa_plan n = norm_plan ((pa_plan (pp_record p))\<lparr>plan_state := Ready, plan_approval := Some (wire_reference cfg j g)\<rparr>)"
    then show ?thesis using j by (intro replace_other [of n]) simp_all
  qed
  then show ?thesis using commit assms(3,4) set_remove1_subset [of "(j, p)" fs] by (auto simp: halted_def)
next
  case (reject j p answer e)
  then show ?thesis using assms(3,4) set_remove1_subset [of "(j, p)" fs] by auto
next
  case (deny j res s1)
  then obtain r' q where "az_get s j = Some r'" "plan_state (pa_plan r') = Awaiting_approval" "pa_request r' = Some q"
    "block_record cfg r' q Denied ''approval denied'' s = Inr (res, s')"
    by (auto simp: deny_approval_def ebind_Inr_iff pending_request_Inr)
  then show ?thesis using block_record_halted [OF assms(2,3)] assms(4) deny(1) by simp
next
  case (revoke j res s1)
  then obtain r' q where "az_get s j = Some r'" "plan_state (pa_plan r') = Ready" "pa_request r' = Some q"
    "block_record cfg r' q Revoked ''approval revoked before execution'' s = Inr (res, s')"
    by (auto simp: revoke_approval_def ebind_Inr_iff pending_request_Inr)
  then show ?thesis using block_record_halted [OF assms(2,3)] assms(4) revoke(1) by simp
next
  case (sweep override clock out s1)
  have s: "az_invar s" using assms(2) by (simp add: authz_inv_def)
  have m: "\<forall>x \<in> set (az_list s). parse_authorization x = Some x \<and> (record_key x = i \<longrightarrow> plan_state (pa_plan x) = Blocked)"
    using az_list_valid [OF s] assms(3) by (fastforce simp: halted_def)
  have "az_get s' i = Some r"
    using sweep sweep_list_halted [OF _ assms(3) m] assms(3)
    by (auto simp: sweep_expired_def halted_def split: sum.splits option.splits)
  then show ?thesis using assms(3,4) sweep by (simp add: halted_def)
next
  case (discard j d b s1)
  then show ?thesis using assms(3,4)
    by (auto simp: discard_uncommitted_revision_plan_def az_discard_uncommitted_def discardable_def az_get_def map_get_delete
        halted_def split: option.splits if_splits)
qed

lemma halted_run:
  assumes "rtranclp (authz_step sha cfg) st st'" "authz_inv cfg st" "halted (fst st) i r" "i \<notin> fst ` set (fst (snd st))"
  shows "halted (fst st') i r"
proof -
  have "authz_inv cfg st' \<and> halted (fst st') i r \<and> i \<notin> fst ` set (fst (snd st'))"
    using assms
  proof (induction rule: rtranclp_induct)
    case (step y z)
    obtain s fs log s' fs' log' where y: "y = (s, fs, log)" and z: "z = (s', fs', log')" by (cases y; cases z) auto
    have st: "authz_step sha cfg (s, fs, log) (s', fs', log')" using step(2) y z by simp
    have ih: "authz_inv cfg (s, fs, log)" "halted s i r" "i \<notin> fst ` set fs" using step.IH step.prems y by simp_all
    show ?case using authz_step_inv [OF st ih(1)] halted_step [OF st ih] z by simp
  qed simp
  then show ?thesis by simp
qed

lemma block_record_blocks:
  assumes "block_record cfg r q st reason s = Inr (res, s')" "pa_request r = Some q" "parse_authorization r = Some r"
    "record_key r = i"
  shows "\<exists>n. halted s' i n"
proof (rule block_record_Inr [OF assms(1-3)])
  fix n assume n: "az_replace n s = Inr s'" "parse_authorization n = Some n" "pa_plan n = norm_plan (blocked (pa_plan r))"
  have "az_get s' i = Some n" using az.update_get [OF n(1,2)] n(3) assms(4) by simp
  then show ?thesis using n(3) by (auto simp: halted_def)
qed

lemma deny_revoke_halts:
  assumes "az_invar s" "deny_approval cfg i s = Inr (res, s1) \<or> revoke_approval cfg i s = Inr (res, s1)"
  shows "\<exists>r. halted s1 i r"
proof -
  obtain r q st reason where "az_get s i = Some r" "pa_request r = Some q" "block_record cfg r q st reason s = Inr (res, s1)"
    using assms(2) by (auto simp: deny_approval_def revoke_approval_def ebind_Inr_iff pending_request_Inr)
  then show ?thesis using block_record_blocks assms(1) by (auto simp: az_invar_def)
qed

text \<open>C36: A denied or revoked plan stays blocked. From any reachable state in which no approval of the plan is
  waiting for the verifier, denying or revoking leaves a blocked record without a grant being
  usable, and whatever steps follow, that very record is still stored: no authorization, approval,
  denial, revocation, sweep or discard of any plan changes it.\<close>
theorem denied_plans_stay_blocked:
  assumes "authz_reachable sha cfg (s, fs, log)"
    "deny_approval cfg i s = Inr (res, s1) \<or> revoke_approval cfg i s = Inr (res, s1)"
    "i \<notin> fst ` set fs" "rtranclp (authz_step sha cfg) (s1, fs, log) (s', fs', log')"
  shows "\<exists>r. halted s1 i r \<and> halted s' i r"
proof -
  have inv: "authz_inv cfg (s, fs, log)" using authz_reachable_inv [OF assms(1)] .
  then obtain r where r: "halted s1 i r" using deny_revoke_halts [OF _ assms(2)] by (auto simp: authz_inv_def)
  have "authz_inv cfg (s1, fs, log)" using inv assms(2) deny_inv revoke_inv by blast
  then have "halted s' i r" using halted_run [OF assms(4)] r assms(3) by simp
  then show ?thesis using r by blast
qed

lemma sample_revoke: "\<exists>res s1. revoke_approval sample_config ''plan-0001'' granted_store = Inr (res, s1)"
proof -
  have v: "validate_plan sample_config (blocked ready_plan) = Inr (blocked ready_plan)"
  proof -
    have "parse_plan (blocked ready_plan) = Some (blocked ready_plan)" "validate_execution_plan (blocked ready_plan) sample_lookup = []"
      by code_simp+
    then show ?thesis by (simp add: validate_plan_Inr sample_config_def)
  qed
  let ?q = "awaiting_request\<lparr>apr_status := Granted\<rparr>"
  have q: "parse_approval_request (?q\<lparr>apr_status := Revoked\<rparr>) = Some (?q\<lparr>apr_status := Revoked\<rparr>)" by code_simp
  let ?n = "granted_record\<lparr>pa_plan := blocked ready_plan, pa_request := Some (?q\<lparr>apr_status := Revoked\<rparr>),
    pa_blocked_reason := Some ''approval revoked before execution''\<rparr>"
  have n: "parse_authorization ?n = Some ?n" by code_simp
  have f: "pa_plan granted_record = ready_plan" "pa_request granted_record = Some ?q" "pa_grant granted_record \<noteq> None"
    "plan_state ready_plan = Ready" "plan_id ready_plan = ''plan-0001''"
    by (simp_all add: granted_record_def ready_plan_def granted_ok(7) [unfolded ready_plan_def, simplified])
  obtain s1 where s1: "az_replace ?n granted_store = Inr s1"
    using n granted_get by (auto simp: az_replace_Inr f)
  have "revoke_approval sample_config ''plan-0001'' granted_store = Inr (result_for ?n, s1)"
    using q n s1 f by (simp add: revoke_approval_def granted_get pending_request_def block_record_def v)
  then show ?thesis by blast
qed

lemma denied_plans_stay_blocked_witness:
  "\<exists>s1 r. halted s1 ''plan-0001'' r"
proof -
  obtain res s1 where "revoke_approval sample_config ''plan-0001'' granted_store = Inr (res, s1)" using sample_revoke by blast
  from denied_plans_stay_blocked [OF sample_reachable disjI2 [OF this] _ rtranclp.rtrancl_refl]
  show ?thesis by auto
qed

section \<open>A denial during an approval\<close>

lemma apply_commit_store:
  assumes "apply_commit cfg s i p a = Inr (res, s2)" "dom (az_get s) \<subseteq> dom (az_get s1)"
  shows "\<exists>s3. apply_commit cfg s1 i p a = Inr (res, s3)"
proof -
  have r: "\<exists>s3. az_replace n s1 = Inr s3" if "az_replace n s = Inr s2'" for n s2'
    using that assms(2) by (fastforce simp: az_replace_Inr)
  show ?thesis using assms(1) r unfolding apply_commit_def ebind_Inr_iff by fastforce
qed

text \<open>A denial that arrives while an approval waits for the verifier is lost. If an approval would be
  applied without interleaving, and the same plan is denied after the approval has read the store,
  then the denial succeeds and blocks the plan, and when the verifier answers the approval still
  succeeds with the same result and makes the denied plan ready.\<close>
lemma approval_in_flight_overrides_denial:
  assumes "az_invar s" "apply_prepare sha cfg s clock i raw = Inr p" "apply_commit cfg s i p answer = Inr (res, s2)"
    "deny_approval cfg i s = Inr (res', s1)"
  shows "\<exists>r s3 n. halted s1 i r \<and> apply_commit cfg s1 i p answer = Inr (res, s3) \<and>
    az_get s3 i = Some n \<and> plan_state (pa_plan n) = Ready \<and> ares_plan res = pa_plan n"
proof -
  obtain r where r: "halted s1 i r" using deny_revoke_halts [OF assms(1)] assms(4) by blast
  obtain n where "az_replace n s = Inr s1"
    using assms(4) by (auto simp: deny_approval_def block_record_def ebind_Inr_iff)
  then have "dom (az_get s1) = dom (az_get s)" by (rule az.update_dom)
  then obtain s3 where s3: "apply_commit cfg s1 i p answer = Inr (res, s3)" using apply_commit_store [OF assms(3)] by blast
  have i: "record_key (pp_record p) = i" using assms(1,2) by (auto simp: apply_prepare_Inr az_invar_def)
  obtain g n where n: "az_replace n s1 = Inr s3" "parse_authorization n = Some n" "ares_plan res = pa_plan n"
    "pa_plan n = norm_plan ((pa_plan (pp_record p))\<lparr>plan_state := Ready, plan_approval := Some (wire_reference cfg i g)\<rparr>)"
    by (rule apply_commit_Inr [OF s3]) blast
  have "az_get s3 i = Some n" using az.update_get [OF n(1,2)] n(4) i by simp
  then show ?thesis using r s3 n(3,4) by auto
qed

lemma sample_deny: "\<exists>res s1. deny_approval sample_config ''plan-0001'' awaiting_store = Inr (res, s1)"
proof -
  have v: "validate_plan sample_config (blocked awaiting_plan) = Inr (blocked awaiting_plan)"
  proof -
    have "parse_plan (blocked awaiting_plan) = Some (blocked awaiting_plan)" "validate_execution_plan (blocked awaiting_plan) sample_lookup = []"
      by code_simp+
    then show ?thesis by (simp add: validate_plan_Inr sample_config_def)
  qed
  have q: "parse_approval_request (awaiting_request\<lparr>apr_status := Denied\<rparr>) = Some (awaiting_request\<lparr>apr_status := Denied\<rparr>)" by code_simp
  let ?n = "awaiting_record\<lparr>pa_plan := blocked awaiting_plan, pa_request := Some (awaiting_request\<lparr>apr_status := Denied\<rparr>),
    pa_blocked_reason := Some ''approval denied''\<rparr>"
  have n: "parse_authorization ?n = Some ?n" by code_simp
  have f: "pa_plan awaiting_record = awaiting_plan" "pa_request awaiting_record = Some awaiting_request"
    "plan_state awaiting_plan = Awaiting_approval" "plan_id awaiting_plan = ''plan-0001''" "apr_status awaiting_request = Pending"
    by code_simp+
  obtain s1 where s1: "az_replace ?n awaiting_store = Inr s1"
    using n awaiting_get by (auto simp: az_replace_Inr f)
  have "deny_approval sample_config ''plan-0001'' awaiting_store = Inr (result_for ?n, s1)"
    using q n s1 f by (simp add: deny_approval_def awaiting_get pending_request_def block_record_def v)
  then show ?thesis by blast
qed

section \<open>Evidence and binding of an authorized request\<close>

text \<open>C3: A request is authorized only on evidence the server itself found eligible. When the service is wired to the
  eligibility service of the same catalog, an authorized request yields a new stored plan for the
  catalogued capability at the requested version, with that capability's current risk, whose
  coverage satisfies every mandatory requirement of the capability whether or not it still awaits
  approval; the plan is ready at once exactly when approval was not forced and the capability is
  read-only, of low risk and of the lowest authority.\<close>
theorem authorization_gated_by_evidence:
  assumes "ac_eligible cfg = materialize_evidence sha svc t" "ac_lookup cfg = es_lookup svc"
    "authorize_internal sha cfg force clock u v raw s = Inr (res, s')"
  shows "\<exists>q c n. raw = Shaped q \<and> ac_lookup cfg (ar_capability_id q) = Some c \<and> cap_version c = ar_capability_version q \<and>
    plan_capability_id (ares_plan res) = ar_capability_id q \<and> risk_matches (plan_risk (ares_plan res)) c \<and>
    list_all (satisfied_by (plan_coverage (ares_plan res))) (filter req_mandatory (cap_required_evidence c)) \<and>
    az_get s (''plan-'' @ u) = None \<and> az_get s' = (az_get s)(''plan-'' @ u \<mapsto> n) \<and> pa_plan n = ares_plan res \<and>
    (plan_state (ares_plan res) = Ready \<longleftrightarrow> \<not> force \<and> cap_side_effect_class c = Read_only \<and> cap_risk_level c = Low \<and>
      cap_required_authority c = L0)"
proof (rule authorize_Inr [OF assms(3)])
  fix q now c e risk expires p digest request n
  assume a: "safe_parse APPROVAL_INPUT_INVALID parse_authorization_request raw = Inr q"
    "ac_lookup cfg (ar_capability_id q) = Some c" "cap_version c = ar_capability_version q"
    "ac_eligible cfg (Shaped \<lparr>mr_guard_run_id = ar_guard_run_id q, mr_capability_id = ar_capability_id q,
         mr_capability_version = ar_capability_version q, mr_inputs = ar_inputs q\<rparr>) = Inr e"
    "derive_risk_snapshot c = Inr risk"
    "validate_plan cfg (plan_candidate q e risk (force \<or> approval_required c) u now expires) = Inr p"
    "n = norm_authorization \<lparr>pa_plan = p, pa_guard_run_id = el_guard_run_id e,
         pa_request_id = (if force \<or> approval_required c then Some (''apr-'' @ v) else None), pa_request = request,
         pa_binding_digest = digest, pa_grant = None, pa_blocked_reason = None\<rparr>"
    "parse_authorization n = Some n" "az_put n s = Inr s'"
    "res = \<lparr>ares_plan = p, ares_request = request, ares_binding_digest = digest, ares_required = force \<or> approval_required c\<rparr>"
  obtain x where x: "raw = Shaped x" "q = norm_request x"
    using a(1) by (auto simp: safe_parse_Inr parse_authorization_request_def parse_with_Some)
  have xq: "ar_capability_id q = ar_capability_id x" "ar_capability_version q = ar_capability_version x"
    by (simp_all add: x(2) norm_request_def)
  have p: "p = norm_plan (plan_candidate q e risk (force \<or> approval_required c) u now expires)"
    using a(6) by (simp add: validate_plan_Inr parse_plan_norm)
  have f: "plan_id p = ''plan-'' @ u" "plan_capability_id p = ar_capability_id q" "plan_risk p = risk"
    "plan_coverage p = map norm_entry (el_coverage e)" "plan_state p = (if force \<or> approval_required c then Awaiting_approval else Ready)"
    unfolding p by (simp_all add: plan_candidate_def)
  have n: "pa_plan n = p" by (simp add: a(7) p)
  have "list_all (satisfied_by (el_coverage e)) (filter req_mandatory (cap_required_evidence c))"
    using gate.gate_satisfied [OF a(4) [unfolded assms(1)]] a(2) assms(2) by simp
  then have ev: "list_all (satisfied_by (plan_coverage p)) (filter req_mandatory (cap_required_evidence c))"
    by (simp add: f satisfied_by_norm)
  have get: "az_get s (plan_id p) = None \<and> az_get s' = (az_get s)(plan_id p \<mapsto> n)"
    using az.insert_lookup [OF a(9)] a(8) n by auto
  show ?thesis
    using x(1) a(2,3) f ev get n derive_risk_matches [OF a(5)] approval_free_minimum [of c]
    by (intro exI [of _ x] exI [of _ c] exI [of _ n]) (auto simp: a(10) xq)
qed

lemma authorization_gated_by_evidence_witness:
  "\<exists>c. sample_lookup ''git.branch.create'' = Some c \<and>
     list_all (satisfied_by (plan_coverage awaiting_plan)) (filter req_mandatory (cap_required_evidence c))"
proof -
  have "ac_eligible sample_config = materialize_evidence sample_sha sample_service 1000"
    "ac_lookup sample_config = es_lookup sample_service"
    by (simp_all add: sample_config_def sample_service_def)
  from authorization_gated_by_evidence [OF this sample_authorize]
  show ?thesis
    by (auto simp: sample_config_def sample_authorization_request_def)
qed

text \<open>C34: The binding digest pins the plan that was approved. If two plans have the same binding digest, then they
  agree on the plan id, decision, capability, version, adapter, timeout, creation and expiry, and
  on the content of the inputs, the risk snapshot, the coverage and the verification and rollback
  plans, and were digested under the same policy version, unless a collision of the hash function
  is at hand, in the payload or in one of the nested digests.\<close>
theorem binding_digest_pins_plan:
  assumes "plan_binding_digest sha p policy = Inr d" "plan_binding_digest sha p' policy' = Inr d"
  shows "\<exists>q q'. binding_payload_for_plan sha p policy = Inr q \<and> binding_payload_for_plan sha p' policy' = Inr q' \<and>
    (digest_collision sha (payload_json q) (payload_json q') \<or> (bound_alike sha p p' \<and> js_trim policy = js_trim policy'))"
  by (rule binding_alike [OF assms]) blast

lemma binding_digest_pins_plan_witness:
  "\<exists>q q'. binding_payload_for_plan sample_sha awaiting_plan approval_policy_version = Inr q \<and>
     binding_payload_for_plan sample_sha ready_plan approval_policy_version = Inr q'"
proof -
  have "plan_binding_digest sample_sha ready_plan approval_policy_version = Inr sample_digest"
    using awaiting_binding by (simp add: plan_binding_digest_def binding_payload_for_plan_def binding_inputs_of_def ready_plan_def)
  from binding_digest_pins_plan [OF awaiting_binding this] show ?thesis by blast
qed

end
