(* ===== verification/Control_Approval.thy ===== *)
theory Control_Approval
  imports Control_Session Authorization_Lifecycle
begin

text \<open>
  The public approval operation of the control surface: its bounded audit store
  (\<open>src/brain-server/src/control/audit.ts\<close>) and its facade (\<open>control/approval-facade.ts\<close>) over the authorization
  service. A call awaits the audit store, the native bridge and the grant verifier; it is modelled as a
  stage for each await, with what resumes it as an argument, so that other calls run in between.
\<close>

section \<open>The audit store\<close>

datatype audit_result = Audit_approved | Audit_rejected | Audit_failed

datatype audit_reason = Audit_code approval_error_code | Audit_apply_failed

text \<open>The action and the transport context of an event are constants.\<close>

record audit_event =
  ev_timestamp :: timestamp
  ev_session :: string
  ev_actor_id :: string
  ev_scope :: control_scope
  ev_plan_id :: "string option"
  ev_decision_id :: "string option"
  ev_result :: audit_result
  ev_failure :: "audit_reason option"

record audit_store =
  as_events :: "audit_event list"
  as_max :: nat

definition new_audit_store :: "int \<Rightarrow> audit_store option" where
  "new_audit_store n = (if n \<le> 0 then None else Some \<lparr>as_events = [], as_max = nat n\<rparr>)"

definition audit_ensure_writable :: "audit_store \<Rightarrow> bool" where
  "audit_ensure_writable a \<longleftrightarrow> \<not> as_max a \<le> length (as_events a)"

text \<open>In memory, the check and the insertion; in the database, one conditional insertion.\<close>

definition audit_append :: "audit_event \<Rightarrow> audit_store \<Rightarrow> audit_store option" where
  "audit_append e a = (if audit_ensure_writable a then Some (a\<lparr>as_events := as_events a @ [e]\<rparr>) else None)"

section \<open>The stages of a call\<close>

record approve_context =
  ax_session :: control_session
  ax_plan_id :: string
  ax_decision_id :: string
  ax_expires_at :: int

datatype approve_reply = Approve_throws "approval_error_code throws" | Approved authorization_result int control_scope

datatype approve_stage =
    Refusing control_session "string option" "string option" approval_error_code
  | Checking_sink approve_context
  | Granting approve_context
  | Grant_refused approve_context audit_result approval_error_code
  | Recording approve_context "approval_reference raw"
  | Verifying approve_context prepared_approval
  | Apply_failed approve_context "approval_error_code throws"
  | Call_answered approve_reply

definition control_plan_id :: "string raw \<Rightarrow> string option" where
  "control_plan_id raw = (case raw of Malformed \<Rightarrow> None
     | Shaped s \<Rightarrow> (let i = js_trim s in if 8 \<le> length i \<and> length i \<le> 200 then Some i else None))"

text \<open>
  The expiry asked for: five minutes from now, or the expiry of the plan when that is earlier. \<open>None\<close> is the
  range error of an invalid date. The readings of the clock are those for the default, the bound and the test.
\<close>

definition approve_expiry :: "timestamp option \<Rightarrow> int \<Rightarrow> int \<Rightarrow> int option" where
  "approve_expiry plan_expires t1 t2 =
     Option.bind (case plan_expires of None \<Rightarrow> Option.bind (to_iso (t1 + 5 * 60000)) date_parse | Some e \<Rightarrow> date_parse e)
       (\<lambda>e. Option.bind (to_iso (min e (t2 + 5 * 60000))) date_parse)"

text \<open>Up to the first await. Without a store there is no authorization runtime.\<close>

definition approve_begin ::
  "authorization_store option \<Rightarrow> control_session \<Rightarrow> string raw \<Rightarrow> int \<Rightarrow> int \<Rightarrow> int \<Rightarrow> approve_stage" where
  "approve_begin runtime session body t1 t2 t3 =
     (case control_plan_id body of
        None \<Rightarrow> Refusing session None None APPROVAL_INPUT_INVALID
      | Some i \<Rightarrow> (case Option.bind runtime (\<lambda>s. az_get s i) of
          None \<Rightarrow> Refusing session (Some i) None APPROVAL_PLAN_NOT_FOUND
        | Some r \<Rightarrow> (let p = pa_plan r in
            if plan_state p \<noteq> Awaiting_approval \<or> map_option apr_status (pa_request r) \<noteq> Some Pending
            then Refusing session (Some (plan_id p)) (Some (plan_decision_id p)) APPROVAL_STATE_CONFLICT
            else (case approve_expiry (plan_expires_at p) t1 t2 of
                None \<Rightarrow> Call_answered (Approve_throws NativeError)
              | Some e \<Rightarrow> if e \<le> t3 then Refusing session (Some (plan_id p)) (Some (plan_decision_id p)) APPROVAL_REQUEST_EXPIRED
                  else Checking_sink \<lparr>ax_session = session, ax_plan_id = plan_id p, ax_decision_id = plan_decision_id p, ax_expires_at = e\<rparr>))))"

text \<open>What a resumed call sees: the clock, whether the sink works, and the answers of the bridge and of the verifier.\<close>

datatype bridge_answer = Bridge_grant "approval_reference raw" | Bridge_consumed | Bridge_failed

record approve_input =
  in_now :: int
  in_sink_up :: bool
  in_bridge :: bridge_answer
  in_verifier :: verifier_answer

definition record_audit ::
  "approve_input \<Rightarrow> control_session \<Rightarrow> string option \<Rightarrow> string option \<Rightarrow> audit_result \<Rightarrow> audit_reason option \<Rightarrow> audit_store \<Rightarrow>
   audit_store option" where
  "record_audit inp session plan decided result reason a = Option.bind (to_iso (in_now inp)) (\<lambda>t.
     if in_sink_up inp then audit_append \<lparr>ev_timestamp = t, ev_session = cs_id session, ev_actor_id = cs_actor_id session,
         ev_scope = cs_scope session, ev_plan_id = plan, ev_decision_id = decided, ev_result = result, ev_failure = reason\<rparr> a
     else None)"

definition record_context ::
  "approve_input \<Rightarrow> approve_context \<Rightarrow> audit_result \<Rightarrow> audit_reason option \<Rightarrow> audit_store \<Rightarrow> audit_store option" where
  "record_context inp c result reason a =
     record_audit inp (ax_session c) (Some (ax_plan_id c)) (Some (ax_decision_id c)) result reason a"

abbreviation audit_unavailable :: approve_stage where
  "audit_unavailable \<equiv> Call_answered (Approve_throws (Throws APPROVAL_AUDIT_UNAVAILABLE))"

fun approve_resume ::
  "(string \<Rightarrow> string) \<Rightarrow> authorization_config \<Rightarrow> approve_stage \<Rightarrow> approve_input \<Rightarrow> authorization_store \<Rightarrow> audit_store \<Rightarrow>
   approve_stage \<times> authorization_store \<times> audit_store" where
  "approve_resume sha cfg (Refusing session plan decided e) inp s a =
     (case record_audit inp session plan decided Audit_rejected (Some (Audit_code e)) a of
        None \<Rightarrow> (audit_unavailable, s, a) | Some a' \<Rightarrow> (Call_answered (Approve_throws (Throws e)), s, a'))"
| "approve_resume sha cfg (Checking_sink c) inp s a =
     (if in_sink_up inp \<and> audit_ensure_writable a then (Granting c, s, a) else (audit_unavailable, s, a))"
| "approve_resume sha cfg (Granting c) inp s a =
     ((case in_bridge inp of Bridge_grant ref \<Rightarrow> Recording c ref
        | Bridge_consumed \<Rightarrow> Grant_refused c Audit_rejected APPROVAL_STORE_CONFLICT
        | Bridge_failed \<Rightarrow> Grant_refused c Audit_failed APPROVAL_GRANT_INVALID), s, a)"
| "approve_resume sha cfg (Grant_refused c result e) inp s a =
     (case record_context inp c result (Some (Audit_code e)) a of
        None \<Rightarrow> (audit_unavailable, s, a) | Some a' \<Rightarrow> (Call_answered (Approve_throws (Throws e)), s, a'))"
| "approve_resume sha cfg (Recording c ref) inp s a =
     (case record_context inp c Audit_approved None a of
        None \<Rightarrow> (audit_unavailable, s, a)
      | Some a' \<Rightarrow> (case apply_prepare sha cfg s (Some (in_now inp)) (ax_plan_id c) ref of
            Inl e \<Rightarrow> (Apply_failed c e, s, a') | Inr p \<Rightarrow> (Verifying c p, s, a')))"
| "approve_resume sha cfg (Verifying c p) inp s a =
     (case apply_commit cfg s (ax_plan_id c) p (in_verifier inp) of
        Inl e \<Rightarrow> (Apply_failed c e, s, a)
      | Inr (res, s') \<Rightarrow> (Call_answered (Approved res (ax_expires_at c) (cs_scope (ax_session c))), s', a))"
| "approve_resume sha cfg (Apply_failed c e) inp s a =
     (case record_context inp c Audit_failed (Some Audit_apply_failed) a of
        None \<Rightarrow> (audit_unavailable, s, a) | Some a' \<Rightarrow> (Call_answered (Approve_throws e), s, a'))"
| "approve_resume sha cfg (Call_answered r) inp s a = (Call_answered r, s, a)"

section \<open>The surface\<close>

text \<open>
  The state of the authorization service with its calls in flight and the answers of the verifier, the audit
  store, and the stages of the calls of the facade.
\<close>

record control_world =
  cw_authz :: authz_state
  cw_audit :: audit_store
  cw_calls :: "approve_stage list"

text \<open>How resuming a call changes what the authorization service has in flight.\<close>

fun in_flight :: "approve_stage \<Rightarrow> approve_stage \<Rightarrow> verifier_answer \<Rightarrow>
    (string \<times> prepared_approval) list \<times> answer_log \<Rightarrow> (string \<times> prepared_approval) list \<times> answer_log" where
  "in_flight (Recording c ref) (Verifying c' p) answer (fs, log) = ((ax_plan_id c, p) # fs, log)"
| "in_flight (Verifying c p) st answer (fs, log) = (remove1 (ax_plan_id c, p) fs, (p, answer) # log)"
| "in_flight _ _ _ x = x"

text \<open>
  The service's other operations take no approval in and resolve none. What else appends to the audit store
  is left open; the store only grows.
\<close>

inductive control_step :: "(string \<Rightarrow> string) \<Rightarrow> authorization_config \<Rightarrow> control_world \<Rightarrow> control_world \<Rightarrow> bool" for sha cfg where
  called: "cw_authz w = (s, fs, log) \<Longrightarrow> control_step sha cfg w
     (w\<lparr>cw_calls := cw_calls w @ [approve_begin (Some s) session body t1 t2 t3]\<rparr>)"
| resumed: "cw_authz w = (s, fs, log) \<Longrightarrow> k < length (cw_calls w) \<Longrightarrow>
     approve_resume sha cfg (cw_calls w ! k) inp s (cw_audit w) = (st, s', a') \<Longrightarrow>
     in_flight (cw_calls w ! k) st (in_verifier inp) (fs, log) = (fs', log') \<Longrightarrow>
     control_step sha cfg w \<lparr>cw_authz = (s', fs', log'), cw_audit = a', cw_calls = (cw_calls w)[k := st]\<rparr>"
| other: "cw_authz w = (s, fs, log) \<Longrightarrow> authz_step sha cfg (s, fs, log) (s', fs, log) \<Longrightarrow>
     control_step sha cfg w (w\<lparr>cw_authz := (s', fs, log)\<rparr>)"

inductive control_reachable :: "(string \<Rightarrow> string) \<Rightarrow> authorization_config \<Rightarrow> control_world \<Rightarrow> bool" for sha cfg where
  start: "new_authorization_store n = Inr s \<Longrightarrow> new_audit_store m = Some a \<Longrightarrow>
     control_reachable sha cfg \<lparr>cw_authz = (s, [], []), cw_audit = a, cw_calls = []\<rparr>"
| step: "control_reachable sha cfg w \<Longrightarrow> control_step sha cfg w w' \<Longrightarrow> control_reachable sha cfg w'"

section \<open>Calls answer\<close>

fun awaits_left :: "approve_stage \<Rightarrow> nat" where
  "awaits_left (Refusing session plan decided e) = 1"
| "awaits_left (Checking_sink c) = 5"
| "awaits_left (Granting c) = 4"
| "awaits_left (Grant_refused c result e) = 1"
| "awaits_left (Recording c ref) = 3"
| "awaits_left (Verifying c p) = 2"
| "awaits_left (Apply_failed c e) = 1"
| "awaits_left (Call_answered r) = 0"

lemma awaits_decrease: "approve_resume sha cfg st inp s a = (st', s', a') \<Longrightarrow> awaits_left st' \<le> awaits_left st - 1"
  by (cases "(sha, cfg, st, inp, s, a)" rule: approve_resume.cases)
    (auto split: option.splits sum.splits if_splits bridge_answer.splits)

lemma awaits_zero: "awaits_left st = 0 \<longleftrightarrow> (\<exists>r. st = Call_answered r)"
  by (cases st) auto

lemma begin_awaits: "awaits_left (approve_begin runtime session body t1 t2 t3) \<le> 5"
  by (simp add: approve_begin_def Let_def split: option.splits)

text \<open>A call resumed again and again, with whatever the service's store is each time.\<close>

fun approve_resumes ::
  "(string \<Rightarrow> string) \<Rightarrow> authorization_config \<Rightarrow> (approve_input \<times> authorization_store \<times> audit_store) list \<Rightarrow> approve_stage \<Rightarrow> approve_stage" where
  "approve_resumes sha cfg [] st = st"
| "approve_resumes sha cfg ((inp, s, a) # xs) st = approve_resumes sha cfg xs (fst (approve_resume sha cfg st inp s a))"

lemma awaits_resumes: "awaits_left (approve_resumes sha cfg xs st) \<le> awaits_left st - length xs"
proof (induction sha cfg xs st rule: approve_resumes.induct)
  case (2 sha cfg inp s a xs st)
  obtain st' s' a' where r: "approve_resume sha cfg st inp s a = (st', s', a')" by (cases "approve_resume sha cfg st inp s a")
  show ?case using 2 awaits_decrease [OF r] by (simp add: r)
qed simp

text \<open>A call has at most five awaits: after five resumptions, over whatever stores and answers, it has answered.\<close>

lemma approval_calls_answer:
  assumes "5 \<le> length xs"
  shows "\<exists>r. approve_resumes sha cfg xs (approve_begin runtime session body t1 t2 t3) = Call_answered r"
  using awaits_resumes [of sha cfg xs "approve_begin runtime session body t1 t2 t3"]
    begin_awaits [of runtime session body t1 t2 t3] assms by (simp flip: awaits_zero)

section \<open>Nothing is approved unaudited\<close>

definition approved_event :: "audit_store \<Rightarrow> string \<Rightarrow> bool" where
  "approved_event a i \<longleftrightarrow> (\<exists>e \<in> set (as_events a). ev_result e = Audit_approved \<and> ev_plan_id e = Some i)"

lemma record_audit_events:
  "record_audit inp session plan decided result reason a = Some a' \<Longrightarrow>
     \<exists>e. as_events a' = as_events a @ [e] \<and> as_max a' = as_max a \<and> length (as_events a) < as_max a \<and> ev_result e = result \<and>
       ev_plan_id e = plan \<and> ev_session e = cs_id session \<and> ev_scope e = cs_scope session"
  by (auto simp: record_audit_def audit_append_def audit_ensure_writable_def bind_eq_Some_conv split: if_splits)

lemma record_context_events:
  "record_context inp c result reason a = Some a' \<Longrightarrow>
     \<exists>e. as_events a' = as_events a @ [e] \<and> as_max a' = as_max a \<and> length (as_events a) < as_max a \<and> ev_result e = result \<and>
       ev_plan_id e = Some (ax_plan_id c) \<and> ev_session e = cs_id (ax_session c)"
  unfolding record_context_def by (drule record_audit_events) auto

text \<open>The cases of a resumption that matter: the audit store grows at its end, within its bound.\<close>

lemma resume_audit:
  "approve_resume sha cfg st inp s a = (st', s', a') \<Longrightarrow>
     a' = a \<or> (\<exists>e. as_events a' = as_events a @ [e] \<and> as_max a' = as_max a \<and> length (as_events a) < as_max a)"
  by (cases "(sha, cfg, st, inp, s, a)" rule: approve_resume.cases)
    (auto split: option.splits sum.splits if_splits dest!: record_audit_events record_context_events)

lemma resume_recording:
  "approve_resume sha cfg (Recording c ref) inp s a = (Verifying c' p, s', a') \<Longrightarrow>
     c' = c \<and> s' = s \<and> apply_prepare sha cfg s (Some (in_now inp)) (ax_plan_id c) ref = Inr p \<and> approved_event a' (ax_plan_id c)"
  by (auto simp: approved_event_def split: option.splits sum.splits dest!: record_context_events)

lemma resume_verifying:
  "approve_resume sha cfg (Verifying c p) inp s a = (st', s', a') \<Longrightarrow>
     a' = a \<and> ((\<exists>e. apply_commit cfg s (ax_plan_id c) p (in_verifier inp) = Inl e \<and> s' = s) \<or>
       (\<exists>res. apply_commit cfg s (ax_plan_id c) p (in_verifier inp) = Inr (res, s')))"
  by (auto split: sum.splits prod.splits)

lemma resume_elsewhere:
  "approve_resume sha cfg st inp s a = (st', s', a') \<Longrightarrow> \<nexists>c p. st = Verifying c p \<Longrightarrow> s' = s"
  by (cases "(sha, cfg, st, inp, s, a)" rule: approve_resume.cases) (auto split: option.splits sum.splits if_splits)

lemma resume_to_verifying:
  "approve_resume sha cfg st inp s a = (Verifying c p, s', a') \<Longrightarrow> \<exists>ref. st = Recording c ref"
  by (cases "(sha, cfg, st, inp, s, a)" rule: approve_resume.cases)
    (auto split: option.splits sum.splits if_splits bridge_answer.splits)

definition flight_of :: "approve_stage \<Rightarrow> (string \<times> prepared_approval) list" where
  "flight_of st = (case st of Verifying c p \<Rightarrow> [(ax_plan_id c, p)] | _ \<Rightarrow> [])"

definition control_inv :: "control_world \<Rightarrow> bool" where
  "control_inv w \<longleftrightarrow> (case cw_authz w of (s, fs, log) \<Rightarrow>
     mset fs = mset (concat (map flight_of (cw_calls w))) \<and>
     (\<forall>(i, p) \<in> set fs. approved_event (cw_audit w) i \<and> plan_id (pa_plan (pp_record p)) = i) \<and>
     (\<forall>(p, answer) \<in> set log. approved_event (cw_audit w) (plan_id (pa_plan (pp_record p)))) \<and>
     length (as_events (cw_audit w)) \<le> as_max (cw_audit w))"

text \<open>A run of the surface is a run of the authorization service.\<close>

lemma resume_refines:
  assumes "approve_resume sha cfg st inp s a = (st', s', a')" "in_flight st st' (in_verifier inp) (fs, log) = (fs', log')"
    "\<And>c p. st = Verifying c p \<Longrightarrow> (ax_plan_id c, p) \<in> set fs"
  shows "(s', fs', log') = (s, fs, log) \<or> authz_step sha cfg (s, fs, log) (s', fs', log')"
proof (cases "\<exists>c p. st = Verifying c p")
  case True
  then obtain c p where st: "st = Verifying c p" by blast
  have m: "(ax_plan_id c, p) \<in> set fs" using assms(3) st by blast
  have f: "fs' = remove1 (ax_plan_id c, p) fs" "log' = (p, in_verifier inp) # log" using assms(2) st by simp_all
  consider e where "apply_commit cfg s (ax_plan_id c) p (in_verifier inp) = Inl e" "s' = s"
    | res where "apply_commit cfg s (ax_plan_id c) p (in_verifier inp) = Inr (res, s')"
    using resume_verifying [OF assms(1) [unfolded st]] by blast
  then show ?thesis by cases (use authz_step.reject [OF m] authz_step.commit [OF m] f in auto)
next
  case False
  then have s': "s' = s" using resume_elsewhere [OF assms(1)] by blast
  show ?thesis
  proof (cases "\<exists>c p. st' = Verifying c p")
    case True
    then obtain c p where st': "st' = Verifying c p" by blast
    then obtain c0 ref where st: "st = Recording c0 ref" using resume_to_verifying assms(1) by blast
    have r: "c = c0" "apply_prepare sha cfg s (Some (in_now inp)) (ax_plan_id c) ref = Inr p"
      using resume_recording [OF assms(1) [unfolded st st']] by auto
    have "fs' = (ax_plan_id c, p) # fs" "log' = log" using assms(2) st st' r(1) by simp_all
    then show ?thesis using authz_step.prepare [OF r(2), of fs log] s' by simp
  next
    case c: False
    have "fs' = fs \<and> log' = log" using assms(2) False c by (cases st; cases st') auto
    then show ?thesis using s' by simp
  qed
qed

lemma flight_of_split: "k < length calls \<Longrightarrow>
    mset (concat (map flight_of (calls[k := st]))) + mset (flight_of (calls ! k)) = mset (concat (map flight_of calls)) + mset (flight_of st)"
proof (induction calls arbitrary: k)
  case (Cons c cs)
  then show ?case by (cases k) (simp_all add: ac_simps)
qed simp

lemma in_flight_cases:
  assumes "approve_resume sha cfg st inp s a = (st', s', a')" "in_flight st st' answer (fs, log) = (fs', log')"
  obtains (sent) c ref p where "st = Recording c ref" "st' = Verifying c p" "fs' = (ax_plan_id c, p) # fs" "log' = log"
  | (settled) c p where "st = Verifying c p" "fs' = remove1 (ax_plan_id c, p) fs" "log' = (p, answer) # log" "flight_of st' = []"
  | (same) "fs' = fs" "log' = log" "flight_of st = []" "flight_of st' = []"
proof -
  have none: "flight_of x = []" if "\<nexists>c p. x = Verifying c p" for x using that by (cases x) (auto simp: flight_of_def)
  show ?thesis
  proof (cases "\<exists>c p. st = Verifying c p")
    case True
    then obtain c p where st: "st = Verifying c p" by blast
    have "\<nexists>c p. st' = Verifying c p" using assms(1) st resume_to_verifying by blast
    then show ?thesis using settled [OF st] none assms(2) st by simp
  next
    case False
    show ?thesis
    proof (cases "\<exists>c p. st' = Verifying c p")
      case True
      then obtain c p where st': "st' = Verifying c p" by blast
      then obtain c0 ref where st: "st = Recording c0 ref" using resume_to_verifying assms(1) by blast
      then have "c = c0" using resume_recording assms(1) st' by blast
      then show ?thesis using sent [OF st] st' assms(2) st by simp
    next
      case c: False
      have "fs' = fs" "log' = log" using assms(2) False c by (cases st; cases st'; auto)+
      then show ?thesis using same none False c by blast
    qed
  qed
qed

lemma in_flight_shape:
  assumes "approve_resume sha cfg st inp s a = (st', s', a')" "in_flight st st' answer (fs, log) = (fs', log')"
    "set (flight_of st) \<subseteq> set fs"
  shows "mset fs' + mset (flight_of st) = mset fs + mset (flight_of st')"
  using assms(1,2) by (cases rule: in_flight_cases) (use assms(3) in \<open>auto simp: flight_of_def\<close>)

lemma approved_event_mono: "approved_event a i \<Longrightarrow> set (as_events a) \<subseteq> set (as_events a') \<Longrightarrow> approved_event a' i"
  by (auto simp: approved_event_def)

lemma prepared_plan_id: "authz_inv cfg (s, fs, log) \<Longrightarrow> apply_prepare sha cfg s clock i raw = Inr p \<Longrightarrow> plan_id (pa_plan (pp_record p)) = i"
  using authz_inv_get [of cfg s fs log i "pp_record p"] by (simp add: apply_prepare_Inr)

lemma in_flight_members:
  assumes "approve_resume sha cfg st inp s a = (st', s', a')" "in_flight st st' answer (fs, log) = (fs', log')"
  shows "((i, p) \<in> set fs' \<longrightarrow> (i, p) \<in> set fs \<or> (\<exists>c ref. st = Recording c ref \<and> st' = Verifying c p \<and> i = ax_plan_id c)) \<and>
    ((q, b) \<in> set log' \<longrightarrow> (q, b) \<in> set log \<or> (\<exists>c. st = Verifying c q))"
  using assms
proof (cases rule: in_flight_cases)
  case (sent c ref q)
  then show ?thesis by simp
next
  case (settled c q)
  then show ?thesis using set_remove1_subset [of "(ax_plan_id c, q)" fs] by auto
next
  case same
  then show ?thesis by simp
qed

lemma control_resumed_inv:
  assumes inv: "authz_inv cfg (s, fs, log)" "control_inv w" and w: "cw_authz w = (s, fs, log)" and k: "k < length (cw_calls w)"
    and r: "approve_resume sha cfg (cw_calls w ! k) inp s (cw_audit w) = (st, s', a')"
    and f: "in_flight (cw_calls w ! k) st (in_verifier inp) (fs, log) = (fs', log')"
  shows "control_inv \<lparr>cw_authz = (s', fs', log'), cw_audit = a', cw_calls = (cw_calls w)[k := st]\<rparr>"
proof -
  have m: "mset fs = mset (concat (map flight_of (cw_calls w)))" using inv(2) w by (simp add: control_inv_def)
  have sub: "set (flight_of (cw_calls w ! k)) \<subseteq> set fs"
    using k mset_eq_setD [OF m] by (auto simp: set_conv_nth [of "cw_calls w"])
  have grow: "set (as_events (cw_audit w)) \<subseteq> set (as_events a')" "length (as_events a') \<le> as_max a'"
    using resume_audit [OF r] inv(2) w by (auto simp: control_inv_def)
  have "mset fs' = mset (concat (map flight_of ((cw_calls w)[k := st])))"
    using in_flight_shape [OF r f sub] flight_of_split [OF k, of st] m by (metis add_right_cancel union_commute)
  moreover have "approved_event a' i \<and> plan_id (pa_plan (pp_record p)) = i" if "(i, p) \<in> set fs'" for i p
  proof -
    have "(i, p) \<in> set fs \<or> (\<exists>c ref. cw_calls w ! k = Recording c ref \<and> st = Verifying c p \<and> i = ax_plan_id c)"
      using in_flight_members [OF r f] that by blast
    then show ?thesis
  proof
    assume "(i, p) \<in> set fs"
    then show ?thesis using inv(2) w grow(1) by (auto simp: control_inv_def intro: approved_event_mono)
  next
    assume "\<exists>c ref. cw_calls w ! k = Recording c ref \<and> st = Verifying c p \<and> i = ax_plan_id c"
    then obtain c ref where c: "cw_calls w ! k = Recording c ref" "st = Verifying c p" "i = ax_plan_id c" by blast
    have "apply_prepare sha cfg s (Some (in_now inp)) i ref = Inr p" "approved_event a' i"
      using resume_recording [OF r [unfolded c(1,2)]] c(3) by simp_all
    then show ?thesis using prepared_plan_id [OF inv(1)] by blast
  qed
  qed
  moreover have "approved_event a' (plan_id (pa_plan (pp_record p)))" if "(p, b) \<in> set log'" for p b
  proof -
    have "(p, b) \<in> set log \<or> (\<exists>c. cw_calls w ! k = Verifying c p)" using in_flight_members [OF r f] that by blast
    then show ?thesis
  proof
    assume "(p, b) \<in> set log"
    then show ?thesis using inv(2) w grow(1) by (auto simp: control_inv_def intro: approved_event_mono)
  next
    assume "\<exists>c. cw_calls w ! k = Verifying c p"
    then obtain c where "cw_calls w ! k = Verifying c p" by blast
    then have "(ax_plan_id c, p) \<in> set fs" using sub by (simp add: flight_of_def)
    then have "approved_event (cw_audit w) (plan_id (pa_plan (pp_record p)))" using inv(2) w by (force simp: control_inv_def)
    then show ?thesis using grow(1) by (rule approved_event_mono)
  qed
  qed
  ultimately show ?thesis using grow(2) by (auto simp: control_inv_def)
qed

lemma begin_no_flight [simp]: "flight_of (approve_begin runtime session body t1 t2 t3) = []"
  by (simp add: approve_begin_def flight_of_def Let_def split: option.splits)

lemma control_step_inv:
  assumes "control_step sha cfg w w'" "authz_reachable sha cfg (cw_authz w)" "control_inv w"
  shows "authz_reachable sha cfg (cw_authz w') \<and> control_inv w'"
  using assms
proof (cases rule: control_step.cases)
  case (called s fs log session body t1 t2 t3)
  then show ?thesis using assms(2,3) by (simp add: control_inv_def)
next
  case (resumed s fs log k inp st s' a' fs' log')
  have inv: "authz_inv cfg (s, fs, log)" using authz_reachable_inv assms(2) resumed(2) by metis
  have m: "mset fs = mset (concat (map flight_of (cw_calls w)))" using assms(3) resumed(2) by (simp add: control_inv_def)
  have "(ax_plan_id c, p) \<in> set fs" if "cw_calls w ! k = Verifying c p" for c p
  proof -
    have "(ax_plan_id c, p) \<in> set (flight_of (cw_calls w ! k))" using that by (simp add: flight_of_def)
    then show ?thesis using mset_eq_setD [OF m] resumed(3) by (auto simp: set_conv_nth [of "cw_calls w"])
  qed
  then have "(s', fs', log') = (s, fs, log) \<or> authz_step sha cfg (s, fs, log) (s', fs', log')"
    by (rule resume_refines [OF resumed(4,5)])
  then have "authz_reachable sha cfg (s', fs', log')" using assms(2) resumed(2) authz_reachable.step by metis
  then show ?thesis using control_resumed_inv [OF inv assms(3) resumed(2-5)] resumed(1) by simp
next
  case (other s fs log s')
  then show ?thesis using assms(2,3) authz_reachable.step [OF _ other(3)] by (simp add: control_inv_def)
qed

lemma control_reachable_inv: "control_reachable sha cfg w \<Longrightarrow> authz_reachable sha cfg (cw_authz w) \<and> control_inv w"
proof (induction rule: control_reachable.induct)
  case (start n s m a)
  then show ?case using authz_reachable.start [OF start(1)] by (auto simp: control_inv_def new_audit_store_def split: if_splits)
next
  case (step w w')
  then show ?case using control_step_inv by blast
qed

text \<open>
  The approval surface is a refinement of the authorization service: whatever calls of the surface are made,
  with their stages interleaved in any way, the state of the service is one that the service reaches on its
  own, so that all that holds of its runs holds behind the surface.
\<close>

lemma control_surface_refines_authorization:
  assumes "control_reachable sha cfg w"
  shows "authz_reachable sha cfg (cw_authz w)"
  using control_reachable_inv [OF assms] by blast

text \<open>C4: No plan becomes ready on an approval that left no trace: in every state the approval surface reaches, a plan
  that needs approval and is ready has an event in the audit store that records its approval, and the store
  holds no more events than its bound.
\<close>

theorem approved_plans_are_audited:
  assumes "control_reachable sha cfg w" "cw_authz w = (s, fs, log)"
    and "az_get s i = Some r" "plan_state (pa_plan r) = Ready" "plan_required_approval (pa_plan r)"
  shows "(\<exists>e \<in> set (as_events (cw_audit w)). ev_result e = Audit_approved \<and> ev_plan_id e = Some i) \<and>
    length (as_events (cw_audit w)) \<le> as_max (cw_audit w)"
proof -
  have c: "authz_reachable sha cfg (s, fs, log)" "control_inv w" using control_reachable_inv [OF assms(1)] assms(2) by simp_all
  have r: "record_inv cfg log r" "plan_id (pa_plan r) = i"
    using authz_inv_get [OF authz_reachable_inv [OF c(1)] assms(3)] by auto
  then obtain gt where "confirmed log (pa_plan r) gt"
    using assms(4,5) by (auto simp: record_inv_def state_inv_def frame_inv_def split: option.splits)
  then obtain p answer where p: "(p, answer) \<in> set log" "plan_id (pa_plan (pp_record p)) = i"
    using r(2) by (auto simp: confirmed_def)
  then have "approved_event (cw_audit w) i" using c(2) assms(2) by (auto simp: control_inv_def)
  then show ?thesis using c(2) assms(2) by (simp add: approved_event_def control_inv_def)
qed

section \<open>A concrete run\<close>

definition sample_session :: "control_scope \<Rightarrow> control_session" where
  "sample_session sc = \<lparr>cs_id = ''cs_1'', cs_scope = sc, cs_actor_id = ''local-owner'', cs_actor_kind = ''owner'', cs_authority = ''L3'',
     cs_issued_at = Iso 1000, cs_expires_at = Iso 301000\<rparr>"

definition sample_approve_context :: "control_scope \<Rightarrow> approve_context" where
  "sample_approve_context sc = \<lparr>ax_session = sample_session sc, ax_plan_id = ''plan-0001'', ax_decision_id = ''dec-1'', ax_expires_at = 302000\<rparr>"

definition sample_input :: approve_input where
  "sample_input = \<lparr>in_now = 3000, in_sink_up = True, in_bridge = Bridge_grant (Shaped (pp_reference prepared_sample)),
     in_verifier = Valid_grant (Shaped sample_grant)\<rparr>"

definition empty_audit :: audit_store where
  "empty_audit = \<lparr>as_events = [], as_max = 2000\<rparr>"

definition sample_event :: "control_scope \<Rightarrow> audit_event" where
  "sample_event sc = \<lparr>ev_timestamp = Iso 3000, ev_session = ''cs_1'', ev_actor_id = ''local-owner'', ev_scope = sc,
     ev_plan_id = Some ''plan-0001'', ev_decision_id = Some ''dec-1'', ev_result = Audit_approved, ev_failure = None\<rparr>"

definition sample_audit :: "control_scope \<Rightarrow> audit_store" where
  "sample_audit sc = \<lparr>as_events = [sample_event sc], as_max = 2000\<rparr>"

lemma sample_begin:
  "approve_begin (Some awaiting_store) (sample_session sc) (Shaped ''plan-0001'') 2000 2000 2000 = Checking_sink (sample_approve_context sc)"
proof -
  have f: "pa_plan awaiting_record = awaiting_plan" "pa_request awaiting_record = Some awaiting_request" "plan_state awaiting_plan = Awaiting_approval"
    "apr_status awaiting_request = Pending" "approve_expiry (plan_expires_at awaiting_plan) 2000 2000 = Some 302000"
    "plan_id awaiting_plan = ''plan-0001''" "plan_decision_id awaiting_plan = ''dec-1''" "control_plan_id (Shaped ''plan-0001'') = Some ''plan-0001''"
    by code_simp+
  show ?thesis by (simp add: approve_begin_def f awaiting_get sample_approve_context_def)
qed

lemma sample_resumes:
  "approve_resume sample_sha sample_config (Checking_sink (sample_approve_context sc)) sample_input awaiting_store empty_audit =
     (Granting (sample_approve_context sc), awaiting_store, empty_audit)"
  "approve_resume sample_sha sample_config (Granting (sample_approve_context sc)) sample_input awaiting_store empty_audit =
     (Recording (sample_approve_context sc) (Shaped (pp_reference prepared_sample)), awaiting_store, empty_audit)"
  "approve_resume sample_sha sample_config (Recording (sample_approve_context sc) (Shaped (pp_reference prepared_sample))) sample_input awaiting_store empty_audit =
     (Verifying (sample_approve_context sc) prepared_sample, awaiting_store, sample_audit sc)"
  "\<exists>res. approve_resume sample_sha sample_config (Verifying (sample_approve_context sc) prepared_sample) sample_input awaiting_store (sample_audit sc) =
     (Call_answered (Approved res 302000 sc), granted_store, sample_audit sc)"
  using sample_commit [OF awaiting_get]
  by (simp_all add: sample_input_def empty_audit_def audit_ensure_writable_def record_context_def record_audit_def to_iso_def
      audit_append_def sample_approve_context_def sample_session_def sample_prepare sample_audit_def sample_event_def granted_store_def)

lemma resumed_once:
  assumes "control_reachable sha cfg \<lparr>cw_authz = (s, fs, log), cw_audit = a, cw_calls = [st]\<rparr>"
    "approve_resume sha cfg st inp s a = (st', s', a')" "in_flight st st' (in_verifier inp) (fs, log) = (fs', log')"
  shows "control_reachable sha cfg \<lparr>cw_authz = (s', fs', log'), cw_audit = a', cw_calls = [st']\<rparr>"
  using control_reachable.step [OF assms(1) control_step.resumed [where k = 0]] assms(2,3) by fastforce

text \<open>A session of any scope approves the plan.\<close>

lemma sample_control_run:
  "\<exists>res. control_reachable sample_sha sample_config
     \<lparr>cw_authz = (granted_store, [], [(prepared_sample, Valid_grant (Shaped sample_grant))]), cw_audit = sample_audit sc,
       cw_calls = [Call_answered (Approved res 302000 sc)]\<rparr>"
proof -
  let ?sha = sample_sha and ?cfg = sample_config and ?c = "sample_approve_context sc"
  let ?ref = "Shaped (pp_reference prepared_sample)"
  have v: "in_verifier sample_input = Valid_grant (Shaped sample_grant)" by (simp add: sample_input_def)
  have p: "ax_plan_id ?c = ''plan-0001''" by (simp add: sample_approve_context_def)
  obtain res where last: "approve_resume ?sha ?cfg (Verifying ?c prepared_sample) sample_input awaiting_store (sample_audit sc) =
     (Call_answered (Approved res 302000 sc), granted_store, sample_audit sc)" using sample_resumes(4) by blast
  have e: "?cfg\<lparr>ac_eligible := ac_eligible ?cfg\<rparr> = ?cfg" by simp
  have "control_reachable ?sha ?cfg \<lparr>cw_authz = (empty_sample, [], []), cw_audit = empty_audit, cw_calls = []\<rparr>"
    by (rule control_reachable.start [of 10 _ 2000]) (simp_all add: new_authorization_store_def empty_sample_def new_audit_store_def empty_audit_def)
  moreover have "authz_step ?sha ?cfg (empty_sample, [], []) (awaiting_store, [], [])"
    by (rule authz_step.authorize [where elig = "ac_eligible ?cfg"]) (unfold e, rule sample_authorize)
  ultimately have "control_reachable ?sha ?cfg \<lparr>cw_authz = (awaiting_store, [], []), cw_audit = empty_audit, cw_calls = []\<rparr>"
    using control_reachable.step control_step.other [where w = "\<lparr>cw_authz = (empty_sample, [], []), cw_audit = empty_audit, cw_calls = []\<rparr>"]
    by fastforce
  from control_reachable.step [OF this control_step.called [where session = "sample_session sc" and body = "Shaped ''plan-0001''"
      and ?t1.0 = 2000 and ?t2.0 = 2000 and ?t3.0 = 2000]]
  have "control_reachable ?sha ?cfg \<lparr>cw_authz = (awaiting_store, [], []), cw_audit = empty_audit, cw_calls = [Checking_sink ?c]\<rparr>"
    by (simp add: sample_begin)
  then have "control_reachable ?sha ?cfg \<lparr>cw_authz = (awaiting_store, [], []), cw_audit = empty_audit, cw_calls = [Granting ?c]\<rparr>"
    by (rule resumed_once [OF _ sample_resumes(1)]) simp
  then have "control_reachable ?sha ?cfg \<lparr>cw_authz = (awaiting_store, [], []), cw_audit = empty_audit, cw_calls = [Recording ?c ?ref]\<rparr>"
    by (rule resumed_once [OF _ sample_resumes(2)]) simp
  then have "control_reachable ?sha ?cfg \<lparr>cw_authz = (awaiting_store, [(''plan-0001'', prepared_sample)], []), cw_audit = sample_audit sc,
      cw_calls = [Verifying ?c prepared_sample]\<rparr>"
    by (rule resumed_once [OF _ sample_resumes(3)]) (simp add: p)
  then have "control_reachable ?sha ?cfg \<lparr>cw_authz = (granted_store, [], [(prepared_sample, Valid_grant (Shaped sample_grant))]),
      cw_audit = sample_audit sc, cw_calls = [Call_answered (Approved res 302000 sc)]\<rparr>"
    by (rule resumed_once [OF _ last]) (simp add: p v)
  then show ?thesis by blast
qed

lemma approved_plans_are_audited_witness:
  "\<exists>e \<in> set (as_events (sample_audit Control_approve)). ev_result e = Audit_approved \<and> ev_plan_id e = Some ''plan-0001''"
proof -
  obtain res where r: "control_reachable sample_sha sample_config
     \<lparr>cw_authz = (granted_store, [], [(prepared_sample, Valid_grant (Shaped sample_grant))]), cw_audit = sample_audit Control_approve,
       cw_calls = [Call_answered (Approved res 302000 Control_approve)]\<rparr>" using sample_control_run by blast
  have "plan_state (pa_plan granted_record) = Ready" "plan_required_approval (pa_plan granted_record)" by code_simp+
  then show ?thesis using approved_plans_are_audited [OF r _ granted_get] by simp
qed

end
