(* ===== verification/Outcome.thy ===== *)
theory Outcome
  imports Approval
begin

text \<open>
  Outcome contracts, digests, lifecycle rules and the mapping of native execution states
  (\<open>src/brain-server/src/outcome/errors.ts\<close>, \<open>contracts.ts\<close>, \<open>digests.ts\<close>, \<open>lifecycle.ts\<close>,
  \<open>execution-state-map.ts\<close>). A receipt, an observation and an outcome are records whose schemas
  are a normalisation and a predicate, as for plans; an optional field that is absent is \<open>None\<close>.
  A process result never verifies an outcome: the lifecycle functions below decide what can.
\<close>

section \<open>Errors and enums\<close>

datatype outcome_error_code =
    OUTCOME_INPUT_INVALID | OUTCOME_RECEIPT_UNAVAILABLE | OUTCOME_RECEIPT_INVALID
  | OUTCOME_OBSERVATION_UNAVAILABLE | OUTCOME_OBSERVATION_INVALID | OUTCOME_NOT_FOUND
  | OUTCOME_CONTEXT_UNAVAILABLE | OUTCOME_EVALUATOR_NOT_FOUND | OUTCOME_EXPECTATION_CHANGED
  | OUTCOME_SUBJECT_MISMATCH | OUTCOME_PLAN_MISMATCH | OUTCOME_RECEIPT_MISMATCH
  | OUTCOME_VERIFICATION_CAPABILITY_MISMATCH | OUTCOME_ATTEMPT_MISMATCH | OUTCOME_ATTEMPTS_EXHAUSTED
  | OUTCOME_VERIFICATION_NOT_REQUIRED | OUTCOME_TRANSITION_INVALID | OUTCOME_STORE_CORRUPT
  | OUTCOME_DUPLICATE_RECORD | OUTCOME_DUPLICATE_OBSERVATION | OUTCOME_FRESHNESS_INVALID

type_synonym 'a outcome_result = "outcome_error_code throws + 'a"

datatype outcome_reason =
    R_verified | R_mismatch | R_inconclusive | R_not_available | R_malformed | R_truncated | R_unsupported
  | R_subject_mismatch | R_plan_mismatch | R_receipt_mismatch | R_capability_mismatch
  | R_evaluator_not_found | R_expectation_changed | R_store_corrupt

fun outcome_reason_text :: "outcome_reason \<Rightarrow> string" where
  "outcome_reason_text R_verified = ''OUTCOME_VERIFIED''"
| "outcome_reason_text R_mismatch = ''OUTCOME_MISMATCH''"
| "outcome_reason_text R_inconclusive = ''OUTCOME_INCONCLUSIVE''"
| "outcome_reason_text R_not_available = ''READBACK_NOT_AVAILABLE''"
| "outcome_reason_text R_malformed = ''READBACK_MALFORMED''"
| "outcome_reason_text R_truncated = ''READBACK_TRUNCATED''"
| "outcome_reason_text R_unsupported = ''READBACK_UNSUPPORTED''"
| "outcome_reason_text R_subject_mismatch = ''OUTCOME_SUBJECT_MISMATCH''"
| "outcome_reason_text R_plan_mismatch = ''OUTCOME_PLAN_MISMATCH''"
| "outcome_reason_text R_receipt_mismatch = ''OUTCOME_RECEIPT_MISMATCH''"
| "outcome_reason_text R_capability_mismatch = ''OUTCOME_VERIFICATION_CAPABILITY_MISMATCH''"
| "outcome_reason_text R_evaluator_not_found = ''OUTCOME_EVALUATOR_NOT_FOUND''"
| "outcome_reason_text R_expectation_changed = ''OUTCOME_EXPECTATION_CHANGED''"
| "outcome_reason_text R_store_corrupt = ''OUTCOME_STORE_CORRUPT''"

datatype effect_state = Not_started | Spawn_started | Process_succeeded | Process_failed
  | Effect_timed_out | Effect_cancelled | Unknown_after_crash

fun effect_text :: "effect_state \<Rightarrow> string" where
  "effect_text Not_started = ''not_started''" | "effect_text Spawn_started = ''spawn_started''"
| "effect_text Process_succeeded = ''process_succeeded''" | "effect_text Process_failed = ''process_failed''"
| "effect_text Effect_timed_out = ''timed_out''" | "effect_text Effect_cancelled = ''cancelled''"
| "effect_text Unknown_after_crash = ''unknown_after_crash''"

datatype verification_status = V_not_required | V_pending | V_verified | V_mismatch | V_inconclusive | V_failed

datatype attempt_status = A_verified | A_mismatch | A_inconclusive | A_failed

fun attempt_status_text :: "attempt_status \<Rightarrow> string" where
  "attempt_status_text A_verified = ''verified''" | "attempt_status_text A_mismatch = ''mismatch''"
| "attempt_status_text A_inconclusive = ''inconclusive''" | "attempt_status_text A_failed = ''verification_failed''"

datatype parser_status = P_parsed | P_malformed | P_unsupported | P_truncated

fun parser_status_text :: "parser_status \<Rightarrow> string" where
  "parser_status_text P_parsed = ''parsed''" | "parser_status_text P_malformed = ''malformed''"
| "parser_status_text P_unsupported = ''unsupported''" | "parser_status_text P_truncated = ''truncated''"

datatype verification_source = Native_readback | Synthetic_test

fun source_text :: "verification_source \<Rightarrow> string" where
  "source_text Native_readback = ''native_readback''" | "source_text Synthetic_test = ''synthetic_test''"

definition max_observation_payload_bytes :: nat where
  "max_observation_payload_bytes = 262144"

definition max_observation_clock_skew_ms :: int where
  "max_observation_clock_skew_ms = 60000"

section \<open>Trusted execution receipt\<close>

text \<open>The \<open>source\<close> of a receipt is the literal \<open>native_broker\<close>; any other value is malformed.\<close>

record execution_receipt =
  rc_id :: string
  rc_plan_id :: string
  rc_decision_id :: string
  rc_capability_id :: string
  rc_capability_version :: string
  rc_adapter_id :: string
  rc_inputs_digest :: string
  rc_verification_digest :: "string option"
  rc_state :: effect_state
  rc_accepted_at :: timestamp
  rc_spawned_at :: "timestamp option"
  rc_finished_at :: "timestamp option"
  rc_exit_code :: "int option"
  rc_timed_out :: bool
  rc_cancelled :: bool
  rc_digest :: string

definition norm_receipt :: "execution_receipt \<Rightarrow> execution_receipt" where
  "norm_receipt r = r\<lparr>rc_id := js_trim (rc_id r), rc_decision_id := js_trim (rc_decision_id r)\<rparr>"

definition receipt_state_ok :: "execution_receipt \<Rightarrow> bool" where
  "receipt_state_ok r = (case rc_state r of
     Not_started \<Rightarrow> rc_spawned_at r = None \<and> rc_finished_at r = None \<and> rc_exit_code r = None \<and>
       \<not> rc_timed_out r \<and> \<not> rc_cancelled r
   | Spawn_started \<Rightarrow> rc_spawned_at r \<noteq> None \<and> rc_finished_at r = None \<and> rc_exit_code r = None \<and>
       \<not> rc_timed_out r \<and> \<not> rc_cancelled r
   | Process_succeeded \<Rightarrow> rc_spawned_at r \<noteq> None \<and> rc_finished_at r \<noteq> None \<and> rc_exit_code r \<noteq> None
   | Process_failed \<Rightarrow> rc_spawned_at r \<noteq> None \<and> rc_finished_at r \<noteq> None \<and> rc_exit_code r \<noteq> None
   | Effect_timed_out \<Rightarrow> rc_spawned_at r \<noteq> None \<and> rc_finished_at r \<noteq> None \<and> rc_timed_out r
   | Effect_cancelled \<Rightarrow> rc_spawned_at r \<noteq> None \<and> rc_finished_at r \<noteq> None \<and> rc_cancelled r
   | Unknown_after_crash \<Rightarrow> rc_finished_at r = None \<and> rc_exit_code r = None \<and> \<not> rc_timed_out r \<and> \<not> rc_cancelled r)"

definition exit_code_ok :: "int \<Rightarrow> bool" where
  "exit_code_ok c \<longleftrightarrow> 0 \<le> c \<and> c \<le> 4294967295"

definition receipt_ok :: "execution_receipt \<Rightarrow> bool" where
  "receipt_ok r \<longleftrightarrow> len_ok 200 (rc_id r) \<and> plan_id_ok (rc_plan_id r) \<and> len_ok 200 (rc_decision_id r) \<and>
     capability_id_ok (rc_capability_id r) \<and> semver_ok (rc_capability_version r) \<and> adapter_id_ok (rc_adapter_id r) \<and>
     sha256_hex_ok (rc_inputs_digest r) \<and> opt_ok sha256_hex_ok (rc_verification_digest r) \<and>
     opt_ok exit_code_ok (rc_exit_code r) \<and> sha256_hex_ok (rc_digest r) \<and>
     \<not> (rc_timed_out r \<and> rc_cancelled r) \<and>
     opt_ok (\<lambda>t. \<not> ts_less t (rc_accepted_at r)) (rc_spawned_at r) \<and>
     opt_ok (\<lambda>t. \<not> ts_less t (rc_accepted_at r)) (rc_finished_at r) \<and>
     opt_ok (\<lambda>s. opt_ok (\<lambda>f. \<not> ts_less f s) (rc_finished_at r)) (rc_spawned_at r) \<and>
     receipt_state_ok r"

definition parse_receipt :: "execution_receipt \<Rightarrow> execution_receipt option" where
  "parse_receipt = parse_with norm_receipt receipt_ok"

text \<open>The content of a receipt that its digest covers: everything but the digest.\<close>

definition receipt_json :: "execution_receipt \<Rightarrow> jsval" where
  "receipt_json r = JObj (
     [(''receipt_id'', JStr (rc_id r)), (''plan_id'', JStr (rc_plan_id r)), (''decision_id'', JStr (rc_decision_id r)),
      (''capability_id'', JStr (rc_capability_id r)), (''capability_version'', JStr (rc_capability_version r)),
      (''adapter_id'', JStr (rc_adapter_id r)), (''normalized_inputs_digest'', JStr (rc_inputs_digest r))]
     @ opt_member ''verification_plan_digest'' JStr (rc_verification_digest r)
     @ [(''execution_state'', JStr (effect_text (rc_state r))), (''accepted_at'', JTime (rc_accepted_at r))]
     @ opt_member ''spawn_started_at'' JTime (rc_spawned_at r)
     @ opt_member ''finished_at'' JTime (rc_finished_at r)
     @ opt_member ''exit_code'' JInt (rc_exit_code r)
     @ [(''timed_out'', JBool (rc_timed_out r)), (''cancelled'', JBool (rc_cancelled r)),
        (''source'', JStr ''native_broker'')])"

section \<open>Read-back observation\<close>

record observation =
  ob_id :: string
  ob_attempt_id :: string
  ob_plan_id :: string
  ob_receipt_id :: string
  ob_capability_id :: string
  ob_subject :: string
  ob_started_at :: timestamp
  ob_observed_at :: timestamp
  ob_source :: verification_source
  ob_level :: verification_requirement
  ob_payload :: json_object
  ob_payload_digest :: string
  ob_truncated :: bool
  ob_parser :: parser_status
  ob_adapter :: string
  ob_binding :: string
  ob_exit_code :: "int option"
  ob_timed_out :: bool
  ob_cancelled :: bool
  ob_fingerprint :: string
  ob_duration_ms :: int

definition norm_observation :: "observation \<Rightarrow> observation" where
  "norm_observation b = b\<lparr>ob_id := js_trim (ob_id b), ob_attempt_id := js_trim (ob_attempt_id b),
     ob_receipt_id := js_trim (ob_receipt_id b), ob_subject := js_trim (ob_subject b),
     ob_adapter := js_trim (ob_adapter b), ob_binding := js_trim (ob_binding b),
     ob_fingerprint := js_trim (ob_fingerprint b)\<rparr>"

definition observation_ok :: "observation \<Rightarrow> bool" where
  "observation_ok b \<longleftrightarrow> len_ok 200 (ob_id b) \<and> len_ok 200 (ob_attempt_id b) \<and> plan_id_ok (ob_plan_id b) \<and>
     len_ok 200 (ob_receipt_id b) \<and> capability_id_ok (ob_capability_id b) \<and> len_ok 200 (ob_subject b) \<and>
     json_object_ok (ob_payload b) \<and> sha256_hex_ok (ob_payload_digest b) \<and> len_ok 200 (ob_adapter b) \<and>
     len_ok 200 (ob_binding b) \<and> opt_ok exit_code_ok (ob_exit_code b) \<and> len_ok 500 (ob_fingerprint b) \<and>
     0 \<le> ob_duration_ms b \<and> ob_duration_ms b \<le> 2147483647 \<and>
     \<not> (ob_truncated b \<and> ob_parser b \<noteq> P_parsed \<and> ob_parser b \<noteq> P_truncated) \<and>
     \<not> (ob_timed_out b \<and> ob_cancelled b) \<and> \<not> ts_less (ob_observed_at b) (ob_started_at b)"

definition parse_observation :: "observation \<Rightarrow> observation option" where
  "parse_observation = parse_with norm_observation observation_ok"

definition observation_json :: "observation \<Rightarrow> jsval" where
  "observation_json b = JObj
     [(''observation_id'', JStr (ob_id b)), (''verification_attempt_id'', JStr (ob_attempt_id b)),
      (''origin_plan_id'', JStr (ob_plan_id b)), (''origin_execution_receipt_id'', JStr (ob_receipt_id b)),
      (''verification_capability_id'', JStr (ob_capability_id b)), (''subject_key'', JStr (ob_subject b)),
      (''attempt_started_at'', JTime (ob_started_at b)), (''observed_at'', JTime (ob_observed_at b)),
      (''verification_source'', JStr (source_text (ob_source b))),
      (''verification_level'', JStr (verification_text (ob_level b))),
      (''payload_digest'', JStr (ob_payload_digest b)), (''truncated'', JBool (ob_truncated b)),
      (''parser_status'', JStr (parser_status_text (ob_parser b))), (''source_adapter'', JStr (ob_adapter b)),
      (''source_binding'', JStr (ob_binding b)), (''process_exit_code'', nullable JInt (ob_exit_code b)),
      (''process_timed_out'', JBool (ob_timed_out b)), (''process_cancelled'', JBool (ob_cancelled b)),
      (''resolved_executable_fingerprint'', JStr (ob_fingerprint b)), (''process_duration_ms'', JInt (ob_duration_ms b))]"

section \<open>Expectation\<close>

record expectation =
  xp_evaluator :: string
  xp_capability_id :: string
  xp_verification_id :: string
  xp_subject :: string
  xp_assertions :: json_object

definition norm_expectation :: "expectation \<Rightarrow> expectation" where
  "norm_expectation x = x\<lparr>xp_evaluator := js_trim (xp_evaluator x), xp_subject := js_trim (xp_subject x)\<rparr>"

definition expectation_ok :: "expectation \<Rightarrow> bool" where
  "expectation_ok x \<longleftrightarrow> len_ok 200 (xp_evaluator x) \<and> capability_id_ok (xp_capability_id x) \<and>
     capability_id_ok (xp_verification_id x) \<and> len_ok 200 (xp_subject x) \<and> json_object_ok (xp_assertions x)"

definition parse_expectation :: "expectation \<Rightarrow> expectation option" where
  "parse_expectation = parse_with norm_expectation expectation_ok"

definition expectation_json :: "expectation \<Rightarrow> jsval" where
  "expectation_json x = JObj [(''evaluator_id'', JStr (xp_evaluator x)), (''capability_id'', JStr (xp_capability_id x)),
     (''verification_capability_id'', JStr (xp_verification_id x)), (''subject_key'', JStr (xp_subject x)),
     (''assertions'', JObj (xp_assertions x))]"

section \<open>Attempts and outcomes\<close>

record attempt =
  va_id :: string
  va_started_at :: timestamp
  va_finished_at :: "timestamp option"
  va_observation_id :: "string option"
  va_observation_digest :: "string option"
  va_status :: attempt_status
  va_reasons :: "outcome_reason list"

definition norm_attempt :: "attempt \<Rightarrow> attempt" where
  "norm_attempt a = a\<lparr>va_observation_id := map_option js_trim (va_observation_id a)\<rparr>"

definition attempt_ok :: "attempt \<Rightarrow> bool" where
  "attempt_ok a \<longleftrightarrow> plan_id_ok (va_id a) \<and> opt_ok (len_ok 200) (va_observation_id a) \<and>
     opt_ok sha256_hex_ok (va_observation_digest a) \<and> length (va_reasons a) \<le> 50 \<and> distinct (va_reasons a) \<and>
     \<not> (va_status a = A_verified \<and> R_verified \<notin> set (va_reasons a)) \<and>
     opt_ok (\<lambda>t. \<not> ts_less t (va_started_at a)) (va_finished_at a) \<and>
     \<not> (va_observation_id a \<noteq> None \<and> va_observation_digest a = None)"

definition attempt_json :: "attempt \<Rightarrow> jsval" where
  "attempt_json a = JObj ([(''attempt_id'', JStr (va_id a)), (''started_at'', JTime (va_started_at a))]
     @ opt_member ''finished_at'' JTime (va_finished_at a)
     @ opt_member ''observation_id'' JStr (va_observation_id a)
     @ opt_member ''observation_digest'' JStr (va_observation_digest a)
     @ [(''status'', JStr (attempt_status_text (va_status a))),
        (''reason_codes'', JArr (map (\<lambda>r. JStr (outcome_reason_text r)) (va_reasons a)))])"

record outcome =
  oc_id :: string
  oc_plan_id :: string
  oc_decision_id :: string
  oc_capability_id :: string
  oc_capability_version :: string
  oc_receipt_id :: string
  oc_effect :: effect_state
  oc_status :: verification_status
  oc_verification_id :: "string option"
  oc_expected_digest :: "string option"
  oc_latest_digest :: "string option"
  oc_attempts :: "attempt list"
  oc_revisit :: bool
  oc_rollback :: bool
  oc_created_at :: timestamp
  oc_updated_at :: timestamp
  oc_correlation :: "string option"

definition norm_outcome_record :: "outcome \<Rightarrow> outcome" where
  "norm_outcome_record r = r\<lparr>oc_decision_id := js_trim (oc_decision_id r), oc_receipt_id := js_trim (oc_receipt_id r),
     oc_attempts := map norm_attempt (oc_attempts r), oc_correlation := map_option js_trim (oc_correlation r)\<rparr>"

definition last_attempt :: "outcome \<Rightarrow> attempt option" where
  "last_attempt r = (if oc_attempts r = [] then None else Some (last (oc_attempts r)))"

definition outcome_status_ok :: "outcome \<Rightarrow> bool" where
  "outcome_status_ok r = (case oc_status r of
     V_verified \<Rightarrow> map_option va_status (last_attempt r) = Some A_verified
   | V_mismatch \<Rightarrow> map_option va_status (last_attempt r) = Some A_mismatch
   | V_inconclusive \<Rightarrow> map_option va_status (last_attempt r) = Some A_inconclusive
   | V_failed \<Rightarrow> map_option va_status (last_attempt r) = Some A_failed
   | V_pending \<Rightarrow> map_option va_status (last_attempt r) \<noteq> Some A_verified
   | V_not_required \<Rightarrow> oc_attempts r = [])"

definition outcome_ok :: "outcome \<Rightarrow> bool" where
  "outcome_ok r \<longleftrightarrow> plan_id_ok (oc_id r) \<and> plan_id_ok (oc_plan_id r) \<and> len_ok 200 (oc_decision_id r) \<and>
     capability_id_ok (oc_capability_id r) \<and> semver_ok (oc_capability_version r) \<and> len_ok 200 (oc_receipt_id r) \<and>
     opt_ok capability_id_ok (oc_verification_id r) \<and> opt_ok sha256_hex_ok (oc_expected_digest r) \<and>
     opt_ok sha256_hex_ok (oc_latest_digest r) \<and> list_all attempt_ok (oc_attempts r) \<and> length (oc_attempts r) \<le> 20 \<and>
     opt_ok (len_ok 200) (oc_correlation r) \<and> \<not> ts_less (oc_updated_at r) (oc_created_at r) \<and>
     distinct (map va_id (oc_attempts r)) \<and> distinct (List.map_filter va_observation_id (oc_attempts r)) \<and>
     outcome_status_ok r \<and> \<not> (oc_status r = V_not_required \<and> oc_expected_digest r \<noteq> None)"

definition parse_outcome_record :: "outcome \<Rightarrow> outcome option" where
  "parse_outcome_record = parse_with norm_outcome_record outcome_ok"

section \<open>Digests\<close>

definition outcome_digest :: "(string \<Rightarrow> string) \<Rightarrow> jsval \<Rightarrow> string outcome_result" where
  "outcome_digest sha v = (case json_digest sha v of Inl e \<Rightarrow> Inl (Throws OUTCOME_INPUT_INVALID) | Inr d \<Rightarrow> Inr d)"

definition observation_payload_digest :: "(string \<Rightarrow> string) \<Rightarrow> json_object \<Rightarrow> string outcome_result" where
  "observation_payload_digest sha payload =
     ebind (guarded (json_object_ok payload) OUTCOME_OBSERVATION_INVALID) (\<lambda>_.
     ebind (guarded (length (utf8 (canonical_text (JObj payload))) \<le> max_observation_payload_bytes) OUTCOME_OBSERVATION_INVALID) (\<lambda>_.
       outcome_digest sha (JObj payload)))"

definition outcome_inputs_digest :: "(string \<Rightarrow> string) \<Rightarrow> json_object \<Rightarrow> string outcome_result" where
  "outcome_inputs_digest sha inputs =
     ebind (guarded (json_object_ok inputs) OUTCOME_INPUT_INVALID) (\<lambda>_. outcome_digest sha (JObj inputs))"

definition verification_plan_digest :: "(string \<Rightarrow> string) \<Rightarrow> follow_up_plan option \<Rightarrow> string option outcome_result" where
  "verification_plan_digest sha v = (case v of None \<Rightarrow> Inr None
     | Some p \<Rightarrow> ebind (guarded (follow_up_plan_ok p) OUTCOME_INPUT_INVALID) (\<lambda>_.
         ebind (outcome_digest sha (verification_plan_json p)) (\<lambda>d. Inr (Some d))))"

definition expectation_digest :: "(string \<Rightarrow> string) \<Rightarrow> expectation \<Rightarrow> string outcome_result" where
  "expectation_digest sha x = ebind (require (parse_expectation x) OUTCOME_INPUT_INVALID) (\<lambda>y. outcome_digest sha (expectation_json y))"

definition recompute_receipt_digest :: "(string \<Rightarrow> string) \<Rightarrow> execution_receipt \<Rightarrow> string outcome_result" where
  "recompute_receipt_digest sha r = ebind (require (parse_receipt r) OUTCOME_RECEIPT_INVALID) (\<lambda>q. outcome_digest sha (receipt_json q))"

definition verify_receipt_integrity :: "(string \<Rightarrow> string) \<Rightarrow> execution_receipt raw \<Rightarrow> execution_receipt outcome_result" where
  "verify_receipt_integrity sha raw =
     ebind (safe_parse OUTCOME_RECEIPT_INVALID parse_receipt raw) (\<lambda>r.
     ebind (recompute_receipt_digest sha r) (\<lambda>d.
     ebind (guarded (d = rc_digest r) OUTCOME_RECEIPT_INVALID) (\<lambda>_. Inr r)))"

definition validate_observation :: "(string \<Rightarrow> string) \<Rightarrow> observation raw \<Rightarrow> observation outcome_result" where
  "validate_observation sha raw =
     ebind (safe_parse OUTCOME_OBSERVATION_INVALID parse_observation raw) (\<lambda>b.
     ebind (observation_payload_digest sha (ob_payload b)) (\<lambda>d.
     ebind (guarded (ob_payload_digest b = d) OUTCOME_OBSERVATION_INVALID) (\<lambda>_. Inr b)))"

definition observation_digest :: "(string \<Rightarrow> string) \<Rightarrow> observation \<Rightarrow> string outcome_result" where
  "observation_digest sha raw =
     ebind (require (parse_observation raw) OUTCOME_OBSERVATION_INVALID) (\<lambda>b.
     ebind (observation_payload_digest sha (ob_payload b)) (\<lambda>d.
     ebind (guarded (d = ob_payload_digest b) OUTCOME_OBSERVATION_INVALID) (\<lambda>_. outcome_digest sha (observation_json b))))"

section \<open>Lifecycle\<close>

definition default_max_verification_attempts :: nat where
  "default_max_verification_attempts = 3"

definition max_verification_attempts_bound :: nat where
  "max_verification_attempts_bound = 5"

definition initial_verification_status :: "side_effect_class \<Rightarrow> effect_state \<Rightarrow> verification_status" where
  "initial_verification_status c e = (if c = Read_only then V_not_required
     else if e = Not_started then V_not_required else V_pending)"

fun derive_revisit_required :: "verification_status \<Rightarrow> bool" where
  "derive_revisit_required V_verified = False"
| "derive_revisit_required V_not_required = False"
| "derive_revisit_required V_pending = False"
| "derive_revisit_required V_mismatch = True"
| "derive_revisit_required V_inconclusive = True"
| "derive_revisit_required V_failed = True"

definition derive_rollback_candidate :: "verification_status \<Rightarrow> bool \<Rightarrow> bool \<Rightarrow> bool" where
  "derive_rollback_candidate s has_rollback_plan reversible \<longleftrightarrow> s = V_mismatch \<and> has_rollback_plan \<and> reversible"

definition attempts_exhausted :: "nat \<Rightarrow> nat \<Rightarrow> bool" where
  "attempts_exhausted n limit \<longleftrightarrow> n \<ge> limit"

fun status_of_attempt :: "attempt_status \<Rightarrow> verification_status" where
  "status_of_attempt A_verified = V_verified" | "status_of_attempt A_mismatch = V_mismatch"
| "status_of_attempt A_inconclusive = V_inconclusive" | "status_of_attempt A_failed = V_failed"

definition next_verification_status :: "attempt_status \<Rightarrow> nat \<Rightarrow> nat \<Rightarrow> verification_status" where
  "next_verification_status a n limit = (if a = A_verified then V_verified
     else if attempts_exhausted n limit then status_of_attempt a else V_pending)"

fun allowed_transitions :: "verification_status \<Rightarrow> verification_status list" where
  "allowed_transitions V_not_required = [V_not_required]"
| "allowed_transitions V_pending = [V_pending, V_verified, V_mismatch, V_inconclusive, V_failed]"
| "allowed_transitions V_verified = [V_verified]"
| "allowed_transitions V_mismatch = [V_mismatch]"
| "allowed_transitions V_inconclusive = [V_inconclusive]"
| "allowed_transitions V_failed = [V_failed]"

text \<open>
  \<open>recordsEqual\<close>: two undefined values are equal; otherwise the canonical texts are compared, and
  a value that has none (an undefined one included) is equal to nothing.
\<close>

definition values_equal :: "jsval option \<Rightarrow> jsval option \<Rightarrow> bool" where
  "values_equal x y = (case (x, y) of (None, None) \<Rightarrow> True
     | (Some v, Some w) \<Rightarrow> (case (canonical_json v, canonical_json w) of (Inr s, Inr t) \<Rightarrow> s = t | _ \<Rightarrow> False)
     | _ \<Rightarrow> False)"

definition identity_fields :: "outcome \<Rightarrow> jsval option list" where
  "identity_fields r = [Some (JStr (oc_id r)), Some (JStr (oc_plan_id r)), Some (JStr (oc_decision_id r)),
     Some (JStr (oc_capability_id r)), Some (JStr (oc_capability_version r)), Some (JStr (oc_receipt_id r)),
     Some (JStr (effect_text (oc_effect r))), map_option JStr (oc_verification_id r), Some (JTime (oc_created_at r)),
     map_option JStr (oc_correlation r)]"

definition validate_transition :: "outcome \<Rightarrow> outcome \<Rightarrow> outcome outcome_result" where
  "validate_transition existing new =
     ebind (require (parse_outcome_record existing) OUTCOME_TRANSITION_INVALID) (\<lambda>before.
     ebind (require (parse_outcome_record new) OUTCOME_TRANSITION_INVALID) (\<lambda>after.
     ebind (guarded (list_all2 values_equal (identity_fields before) (identity_fields after)) OUTCOME_TRANSITION_INVALID) (\<lambda>_.
     ebind (guarded (length (oc_attempts before) \<le> length (oc_attempts after)) OUTCOME_TRANSITION_INVALID) (\<lambda>_.
     ebind (guarded (list_all2 values_equal (map (\<lambda>a. Some (attempt_json a)) (oc_attempts before))
         (map (\<lambda>a. Some (attempt_json a)) (take (length (oc_attempts before)) (oc_attempts after)))) OUTCOME_TRANSITION_INVALID) (\<lambda>_.
     ebind (guarded (oc_status after \<in> set (allowed_transitions (oc_status before))) OUTCOME_TRANSITION_INVALID) (\<lambda>_.
     ebind (guarded (\<not> ts_less (oc_updated_at after) (oc_updated_at before)) OUTCOME_TRANSITION_INVALID) (\<lambda>_.
     ebind (guarded (oc_expected_digest before = oc_expected_digest after) OUTCOME_TRANSITION_INVALID) (\<lambda>_.
       Inr after))))))))"

definition assert_expectation_matches :: "outcome \<Rightarrow> string \<Rightarrow> unit outcome_result" where
  "assert_expectation_matches r d = (case oc_expected_digest r of None \<Rightarrow> Inl (Throws OUTCOME_EXPECTATION_CHANGED)
     | Some e \<Rightarrow> guarded (e = d) OUTCOME_EXPECTATION_CHANGED)"

definition assert_valid_outcome_id :: "string \<Rightarrow> unit outcome_result" where
  "assert_valid_outcome_id i = guarded (plan_id_ok i) OUTCOME_INPUT_INVALID"

section \<open>Native execution states\<close>

datatype native_state = N_accepted | N_spawn_started | N_completed | N_spawn_failed | N_unknown_after_crash

datatype mapping_error = Invalid_flags | Missing_exit_code | Inconsistent_spawn_failed | Inconsistent_accepted
  | Inconsistent_live_spawn | Inconsistent_crash | In_flight

record native_input =
  ni_state :: native_state
  ni_recovered :: bool
  ni_exit_code :: "int option"
  ni_timed_out :: bool
  ni_cancelled :: bool
  ni_spawned :: bool

definition map_native_state :: "native_input \<Rightarrow> mapping_error + effect_state" where
  "map_native_state n = (let flags = ni_exit_code n \<noteq> None \<or> ni_timed_out n \<or> ni_cancelled n in
     if ni_timed_out n \<and> ni_cancelled n then Inl Invalid_flags
     else (case ni_state n of
       N_completed \<Rightarrow> if ni_timed_out n then Inr Effect_timed_out
         else if ni_cancelled n then Inr Effect_cancelled
         else (case ni_exit_code n of None \<Rightarrow> Inl Missing_exit_code
           | Some c \<Rightarrow> Inr (if c = 0 then Process_succeeded else Process_failed))
     | N_spawn_failed \<Rightarrow> if ni_spawned n \<or> flags then Inl Inconsistent_spawn_failed else Inr Not_started
     | N_unknown_after_crash \<Rightarrow> if flags then Inl Inconsistent_crash else Inr Unknown_after_crash
     | N_spawn_started \<Rightarrow> if ni_recovered n then (if flags then Inl Inconsistent_crash else Inr Unknown_after_crash)
         else if flags then Inl Inconsistent_live_spawn else Inr Spawn_started
     | N_accepted \<Rightarrow> if ni_recovered n then (if flags \<or> ni_spawned n then Inl Inconsistent_crash else Inr Unknown_after_crash)
         else if ni_spawned n then Inl Inconsistent_accepted else Inl In_flight))"

fun native_readback_eligible :: "native_state \<Rightarrow> bool \<Rightarrow> bool" where
  "native_readback_eligible N_accepted recovered = False"
| "native_readback_eligible N_spawn_failed recovered = False"
| "native_readback_eligible N_spawn_started recovered = True"
| "native_readback_eligible N_completed recovered = True"
| "native_readback_eligible N_unknown_after_crash recovered = True"

section \<open>Equal canonical texts\<close>

text \<open>
  Two objects with one canonical text agree on every member; an absent member is equal to an
  absent one only. This is what the store's comparison of old and new records establishes.
\<close>

lemma content_members_lookup:
  "content_members ms = Some cs \<Longrightarrow> map_of cs k = Option.bind (map_of ms k) content"
  by (induction ms arbitrary: cs) (auto simp: bind_eq_Some_conv)

lemma content_object_lookup:
  assumes "content (JObj ms) = content (JObj ns)" "content (JObj ms) \<noteq> None"
    "distinct (map fst ms)" "distinct (map fst ns)"
  shows "Option.bind (map_of ms k) content = Option.bind (map_of ns k) content"
proof -
  obtain cs ds where cs: "content_members ms = Some cs" "content_members ns = Some ds"
    "sort_key fst cs = sort_key fst ds"
    using assms(1,2) by (cases "content_members ms"; cases "content_members ns") auto
  have "distinct (map fst cs)" "distinct (map fst ds)"
    using assms(3,4) content_members_set(1) [OF cs(1)] content_members_set(1) [OF cs(2)] by simp_all
  moreover have "set cs = set ds" using cs(3) by (metis set_sort)
  ultimately have "map_of cs = map_of ds" using map_of_inject_set by blast
  then show ?thesis using cs(1,2) by (metis content_members_lookup)
qed

lemma values_equal_content:
  "values_equal (Some v) (Some w) \<longleftrightarrow> is_json_safe v \<and> is_json_safe w \<and> content v = content w"
proof -
  have "values_equal (Some v) (Some w) \<longleftrightarrow> (\<exists>t. canonical_json v = Inr t \<and> canonical_json w = Inr t)"
    by (auto simp: values_equal_def split: sum.splits)
  also have "\<dots> \<longleftrightarrow> is_json_safe v \<and> is_json_safe w \<and> content v = content w"
    using canonical_content_eq canonical_json_ok_iff canonical_content_iff by (metis (no_types))
  finally show ?thesis .
qed

lemma content_safe: "is_json_safe v \<Longrightarrow> content v \<noteq> None"
  using canonical_json_ok_iff [of v] canonical_content_iff [of v] by (cases "content v") auto

lemma quote_eq [simp]: "quote s = quote t \<longleftrightarrow> s = t"
  using quote_inj [of s "[]" t "[]"] by auto

lemma values_equal_str [simp]: "values_equal (Some (JStr s)) (Some (JStr t)) \<longleftrightarrow> s = t"
  by (simp add: values_equal_content)

lemma values_equal_time [simp]: "values_equal (Some (JTime s)) (Some (JTime t)) \<longleftrightarrow> ts_text s = ts_text t"
  by (simp add: JTime_def)

lemma values_equal_opt [simp]: "values_equal (map_option JStr x) (map_option JStr y) \<longleftrightarrow> x = y"
  by (cases x; cases y) (simp_all add: values_equal_def)

lemma effect_text_inj [simp]: "effect_text e = effect_text f \<longleftrightarrow> e = f"
  by (cases e; cases f) simp_all

lemma attempt_status_text_inj [simp]: "attempt_status_text e = attempt_status_text f \<longleftrightarrow> e = f"
  by (cases e; cases f) simp_all

lemma outcome_reason_text_inj: "inj outcome_reason_text"
proof (rule injI)
  fix x y assume "outcome_reason_text x = outcome_reason_text y"
  then show "x = y" by (cases x; cases y) simp_all
qed

text \<open>Two attempts that record the same facts; a timestamp is compared as its text.\<close>

definition attempt_alike :: "attempt \<Rightarrow> attempt \<Rightarrow> bool" where
  "attempt_alike a b \<longleftrightarrow> va_id a = va_id b \<and> ts_text (va_started_at a) = ts_text (va_started_at b) \<and>
     map_option ts_text (va_finished_at a) = map_option ts_text (va_finished_at b) \<and>
     va_observation_id a = va_observation_id b \<and> va_observation_digest a = va_observation_digest b \<and>
     va_status a = va_status b \<and> va_reasons a = va_reasons b"

lemma attempt_json_safe [simp]: "is_json_safe (attempt_json a)"
  by (auto simp: attempt_json_def opt_member_def all_json_safe_iff members_json_safe_iff split: option.splits)

definition attempt_members :: "attempt \<Rightarrow> json_object" where
  "attempt_members a = (case attempt_json a of JObj ms \<Rightarrow> ms | _ \<Rightarrow> [])"

lemma attempt_json_members: "attempt_json a = JObj (attempt_members a)" "distinct (map fst (attempt_members a))"
  by (auto simp: attempt_json_def attempt_members_def opt_member_def split: option.splits)

lemma attempt_lookup:
  "map_of (attempt_members a) ''attempt_id'' = Some (JStr (va_id a))"
  "map_of (attempt_members a) ''started_at'' = Some (JTime (va_started_at a))"
  "map_of (attempt_members a) ''finished_at'' = map_option JTime (va_finished_at a)"
  "map_of (attempt_members a) ''observation_id'' = map_option JStr (va_observation_id a)"
  "map_of (attempt_members a) ''observation_digest'' = map_option JStr (va_observation_digest a)"
  "map_of (attempt_members a) ''status'' = Some (JStr (attempt_status_text (va_status a)))"
  "map_of (attempt_members a) ''reason_codes'' = Some (JArr (map (\<lambda>r. JStr (outcome_reason_text r)) (va_reasons a)))"
  by (auto simp: attempt_json_def attempt_members_def opt_member_def split: option.splits)

lemma content_strings: "content_items (map (\<lambda>r. JStr (f r)) xs) = Some (map (\<lambda>r. CStr (f r)) xs)"
  by (induction xs) auto

lemma attempt_json_alike:
  assumes "values_equal (Some (attempt_json a)) (Some (attempt_json b))"
  shows "attempt_alike a b"
proof -
  have "content (JObj (attempt_members a)) = content (JObj (attempt_members b))"
    using assms by (simp add: values_equal_content attempt_json_members)
  moreover have "content (JObj (attempt_members a)) \<noteq> None"
    using content_safe [OF attempt_json_safe [of a]] by (simp only: attempt_json_members not_False_eq_True)
  ultimately have *: "Option.bind (map_of (attempt_members a) k) content = Option.bind (map_of (attempt_members b) k) content" for k
    by (rule content_object_lookup [OF _ _ attempt_json_members(2) attempt_json_members(2)])
  have opt: "Option.bind (map_option JStr x) content = Option.bind (map_option JStr y) content \<longleftrightarrow> x = y"
    "Option.bind (map_option JTime t) content = Option.bind (map_option JTime u) content \<longleftrightarrow> map_option ts_text t = map_option ts_text u"
    for x y t u
    by (cases x; cases y; simp) (cases t; cases u; simp add: JTime_def)
  have reasons: "map (\<lambda>r. CStr (outcome_reason_text r)) xs = map (\<lambda>r. CStr (outcome_reason_text r)) ys \<Longrightarrow> xs = ys" for xs ys
    using outcome_reason_text_inj by (auto simp: inj_def intro!: map_injective injI)
  show ?thesis
    using * [of "''attempt_id''"] * [of "''started_at''"] * [of "''finished_at''"] * [of "''observation_id''"]
      * [of "''observation_digest''"] * [of "''status''"] * [of "''reason_codes''"]
    by (auto simp: attempt_alike_def attempt_lookup opt content_strings dest: reasons) (simp add: JTime_def)?
qed

section \<open>What a transition preserves\<close>

text \<open>
  \<open>outcome_extends before after\<close>: the record \<open>after\<close> is a later version of \<open>before\<close>. It is the
  same outcome of the same execution with the same expectation, its history is a continuation of
  the old one, and a status that is not pending is final.
\<close>

definition same_outcome :: "outcome \<Rightarrow> outcome \<Rightarrow> bool" where
  "same_outcome r q \<longleftrightarrow> oc_id r = oc_id q \<and> oc_plan_id r = oc_plan_id q \<and> oc_decision_id r = oc_decision_id q \<and>
     oc_capability_id r = oc_capability_id q \<and> oc_capability_version r = oc_capability_version q \<and>
     oc_receipt_id r = oc_receipt_id q \<and> oc_effect r = oc_effect q \<and> oc_verification_id r = oc_verification_id q \<and>
     ts_text (oc_created_at r) = ts_text (oc_created_at q) \<and> oc_correlation r = oc_correlation q \<and>
     oc_expected_digest r = oc_expected_digest q"

definition history_extends :: "attempt list \<Rightarrow> attempt list \<Rightarrow> bool" where
  "history_extends xs ys \<longleftrightarrow> length xs \<le> length ys \<and> list_all2 attempt_alike xs (take (length xs) ys)"

definition outcome_extends :: "outcome \<Rightarrow> outcome \<Rightarrow> bool" where
  "outcome_extends r q \<longleftrightarrow> same_outcome r q \<and> history_extends (oc_attempts r) (oc_attempts q) \<and>
     (oc_status r = V_pending \<or> oc_status q = oc_status r)"

lemma attempt_alike_refl [simp]: "attempt_alike a a"
  by (simp add: attempt_alike_def)

lemma attempt_alike_trans: "attempt_alike a b \<Longrightarrow> attempt_alike b c \<Longrightarrow> attempt_alike a c"
  by (simp add: attempt_alike_def)

lemma history_extends_refl [simp]: "history_extends xs xs"
  by (simp add: history_extends_def list_all2_refl)

lemma history_extends_trans:
  assumes "history_extends xs ys" "history_extends ys zs" shows "history_extends xs zs"
proof -
  have l: "length xs \<le> length ys" "length ys \<le> length zs"
    and a: "list_all2 attempt_alike xs (take (length xs) ys)" "list_all2 attempt_alike ys (take (length ys) zs)"
    using assms by (simp_all add: history_extends_def)
  have "list_all2 attempt_alike (take (length xs) ys) (take (length xs) zs)"
    using a(2) l by (auto simp: list_all2_conv_all_nth)
  with a(1) have "list_all2 attempt_alike xs (take (length xs) zs)"
    using list_all2_trans [of attempt_alike attempt_alike attempt_alike] attempt_alike_trans by blast
  with l show ?thesis by (simp add: history_extends_def)
qed

lemma outcome_extends_refl [simp]: "outcome_extends r r"
  by (simp add: outcome_extends_def same_outcome_def)

lemma outcome_extends_trans: "outcome_extends r q \<Longrightarrow> outcome_extends q p \<Longrightarrow> outcome_extends r p"
  unfolding outcome_extends_def using history_extends_trans by (auto simp: same_outcome_def)

lemma status_transition: "t \<in> set (allowed_transitions s) \<Longrightarrow> s = V_pending \<or> t = s"
  by (cases s) auto

lemma norm_outcome_record_sel [simp]: "oc_id (norm_outcome_record r) = oc_id r"
  "oc_plan_id (norm_outcome_record r) = oc_plan_id r" "oc_status (norm_outcome_record r) = oc_status r"
  by (simp_all add: norm_outcome_record_def)

lemma norm_attempt_idem [simp]: "norm_attempt (norm_attempt a) = norm_attempt a"
  by (simp add: norm_attempt_def)

lemma norm_outcome_record_idem [simp]: "norm_outcome_record (norm_outcome_record r) = norm_outcome_record r"
  by (simp add: norm_outcome_record_def comp_def)

lemma parse_outcome_record_Some: "parse_outcome_record r = Some p \<longleftrightarrow> p = norm_outcome_record r \<and> outcome_ok p"
  by (simp add: parse_outcome_record_def parse_with_Some)

lemma parse_outcome_record_idem: "parse_outcome_record r = Some p \<Longrightarrow> parse_outcome_record p = Some p"
  by (auto simp: parse_outcome_record_Some)

lemma validate_transition_Inr:
  "validate_transition r q = Inr a \<longleftrightarrow> (\<exists>b. parse_outcome_record r = Some b \<and> parse_outcome_record q = Some a \<and>
     list_all2 values_equal (identity_fields b) (identity_fields a) \<and> length (oc_attempts b) \<le> length (oc_attempts a) \<and>
     list_all2 values_equal (map (\<lambda>x. Some (attempt_json x)) (oc_attempts b))
       (map (\<lambda>x. Some (attempt_json x)) (take (length (oc_attempts b)) (oc_attempts a))) \<and>
     oc_status a \<in> set (allowed_transitions (oc_status b)) \<and> \<not> ts_less (oc_updated_at a) (oc_updated_at b) \<and>
     oc_expected_digest b = oc_expected_digest a)"
  by (auto simp: validate_transition_def ebind_Inr_iff)

lemma transition_extends:
  assumes "validate_transition r q = Inr a" "parse_outcome_record r = Some r"
  shows "outcome_extends r a" "parse_outcome_record q = Some a"
proof -
  from assms have i: "list_all2 values_equal (identity_fields r) (identity_fields a)"
      "length (oc_attempts r) \<le> length (oc_attempts a)"
      "list_all2 values_equal (map (\<lambda>x. Some (attempt_json x)) (oc_attempts r))
         (map (\<lambda>x. Some (attempt_json x)) (take (length (oc_attempts r)) (oc_attempts a)))"
      "oc_status a \<in> set (allowed_transitions (oc_status r))" "oc_expected_digest r = oc_expected_digest a"
      "parse_outcome_record q = Some a"
    by (auto simp: validate_transition_Inr)
  have "history_extends (oc_attempts r) (oc_attempts a)"
    using i(2,3) unfolding history_extends_def list_all2_map1 list_all2_map2
    by (auto elim: list_all2_mono intro: attempt_json_alike)
  moreover have "same_outcome r a"
    using i(1,5) by (simp add: same_outcome_def identity_fields_def)
  ultimately show "outcome_extends r a" using status_transition [OF i(4)] by (auto simp: outcome_extends_def)
  show "parse_outcome_record q = Some a" by (rule i(6))
qed

text \<open>Conversely the two-record comparison never refuses a legal next version.\<close>

lemma values_equal_self [simp]: "values_equal (Some (attempt_json a)) (Some (attempt_json a))"
  by (simp add: values_equal_content)

lemma list_all2_attempt_self [simp]: "list_all2 values_equal (map (\<lambda>x. Some (attempt_json x)) xs) (map (\<lambda>x. Some (attempt_json x)) xs)"
  by (simp add: list_all2_map1 list_all2_map2 list_all2_refl)

lemma transition_appended:
  assumes "parse_outcome_record r = Some r" "parse_outcome_record q = Some a" "same_outcome r a"
    "oc_attempts a = oc_attempts r @ xs" "oc_status a \<in> set (allowed_transitions (oc_status r))"
    "\<not> ts_less (oc_updated_at a) (oc_updated_at r)"
  shows "validate_transition r q = Inr a"
  using assms by (auto simp: validate_transition_Inr same_outcome_def identity_fields_def)

section \<open>Receipts and effect states\<close>

lemma map_native_started:
  "map_native_state n = Inr Not_started \<longleftrightarrow> ni_state n = N_spawn_failed \<and> \<not> ni_spawned n \<and> ni_exit_code n = None \<and>
     \<not> ni_timed_out n \<and> \<not> ni_cancelled n"
  by (auto simp: map_native_state_def Let_def split: native_state.splits option.splits if_splits)

lemma map_native_succeeded:
  "map_native_state n = Inr Process_succeeded \<longleftrightarrow> ni_state n = N_completed \<and> ni_exit_code n = Some 0 \<and>
     \<not> ni_timed_out n \<and> \<not> ni_cancelled n"
  by (auto simp: map_native_state_def Let_def split: native_state.splits option.splits if_splits)

lemma initial_status_cases:
  "initial_verification_status c e = (if c = Read_only \<or> e = Not_started then V_not_required else V_pending)"
  by (simp add: initial_verification_status_def)

end
