(* ===== verification/Revision.thy ===== *)
theory Revision
  imports Guard Evidence Outcome
begin

text \<open>
  Decision revisions: the disposition kernel (\<open>src/brain-server/src/decision/kernel.ts\<close>), the contracts
  and errors of \<open>revision/\<close>, and the store of revision chains (\<open>revision/store.ts\<close>).

  The two SQL tables of the store are lists of rows in insertion order; their primary key, unique
  indexes and append-only triggers are those of the migration in \<open>db/sqlite.ts\<close>. A row is the record it
  holds: its columns repeat fields of the record, and the record is stored as its canonical JSON text
  and parsed again when read. A transaction runs alone and leaves nothing behind when it throws.
\<close>

section \<open>Disposition kernel\<close>

datatype disposition = D_decide | D_clarify | D_defer | D_block

record kernel_input =
  ki_action :: guard_action
  ki_mandatory_satisfied :: bool
  ki_reasons :: "string list"

record kernel_result =
  kr_kernel_id :: string
  kr_disposition :: disposition
  kr_reason :: string

definition decision_kernel_id :: string where
  "decision_kernel_id = ''omni-context-evidence-decision-kernel-v1''"

definition run_decision_kernel :: "kernel_input \<Rightarrow> kernel_result" where
  "run_decision_kernel i = \<lparr>kr_kernel_id = decision_kernel_id,
     kr_disposition = (if ki_action i = Proceed then D_decide else if ki_action i = Clarify then D_clarify
       else if ki_action i = Defer then D_defer else D_block),
     kr_reason = (case ki_reasons i of c # _ \<Rightarrow> c
       | [] \<Rightarrow> if ki_mandatory_satisfied i then ''EVIDENCE_SATISFIED'' else ''EVIDENCE_MISSING'')\<rparr>"

section \<open>Errors and enumerations\<close>

datatype revision_error_code =
    REVISION_INPUT_INVALID | REVISION_DECISION_NOT_FOUND | REVISION_OUTCOME_NOT_BOUND | REVISION_NOT_ELIGIBLE
  | REVISION_REASON_REQUIRED | REVISION_AUTHORITY_REQUIRED | REVISION_SCOPE_INSUFFICIENT | REVISION_RUNTIME_UNAVAILABLE
  | REVISION_ACTIVE_EXISTS | REVISION_FORK_BLOCKED | REVISION_CYCLE_BLOCKED | REVISION_INDEX_INVALID
  | REVISION_CONTEXT_INVALID | REVISION_EVIDENCE_REQUALIFICATION_FAILED | REVISION_PERSISTENCE_FAILURE

type_synonym 'a revision_result = "revision_error_code throws + 'a"

datatype trigger_type = T_mismatch | T_inconclusive | T_reconsideration

datatype revision_status = R_open | R_decided | R_abandoned

datatype revision_event_type =
  E_requested | E_authorized | E_created | E_requalified | E_decided | E_abandoned

datatype delta_category = C_unchanged | C_new | C_stale_now | C_conflicted_now | C_missing_now | C_qualification_changed

fun trigger_text :: "trigger_type \<Rightarrow> string" where
  "trigger_text T_mismatch = ''OUTCOME_MISMATCH''"
| "trigger_text T_inconclusive = ''OUTCOME_INCONCLUSIVE''"
| "trigger_text T_reconsideration = ''OWNER_RECONSIDERATION''"

fun delta_text :: "delta_category \<Rightarrow> string" where
  "delta_text C_unchanged = ''UNCHANGED''"
| "delta_text C_new = ''NEW''"
| "delta_text C_stale_now = ''STALE_NOW''"
| "delta_text C_conflicted_now = ''CONFLICTED_NOW''"
| "delta_text C_missing_now = ''MISSING_NOW''"
| "delta_text C_qualification_changed = ''QUALIFICATION_CHANGED''"

fun verification_status_text :: "verification_status \<Rightarrow> string" where
  "verification_status_text V_not_required = ''not_required''"
| "verification_status_text V_pending = ''pending''"
| "verification_status_text V_verified = ''verified''"
| "verification_status_text V_mismatch = ''mismatch''"
| "verification_status_text V_inconclusive = ''inconclusive''"
| "verification_status_text V_failed = ''verification_failed''"

fun plan_state_text :: "execution_plan_state \<Rightarrow> string" where
  "plan_state_text Draft = ''draft''"
| "plan_state_text Awaiting_approval = ''awaiting_approval''"
| "plan_state_text Ready = ''ready''"
| "plan_state_text Executing = ''executing''"
| "plan_state_text Succeeded = ''succeeded''"
| "plan_state_text Failed = ''failed''"
| "plan_state_text Blocked = ''blocked''"
| "plan_state_text Cancelled = ''cancelled''"

fun guard_action_text :: "guard_action \<Rightarrow> string" where
  "guard_action_text Proceed = ''proceed''"
| "guard_action_text Retrieve_more = ''retrieve_more''"
| "guard_action_text Clarify = ''clarify''"
| "guard_action_text Defer = ''defer''"
| "guard_action_text Block = ''block''"

fun guard_reason_text :: "guard_reason_code \<Rightarrow> string" where
  "guard_reason_text EVIDENCE_SATISFIED = ''EVIDENCE_SATISFIED''"
| "guard_reason_text EVIDENCE_MISSING = ''EVIDENCE_MISSING''"
| "guard_reason_text EVIDENCE_STALE = ''EVIDENCE_STALE''"
| "guard_reason_text EVIDENCE_UNVERIFIED = ''EVIDENCE_UNVERIFIED''"
| "guard_reason_text EVIDENCE_CONFLICT = ''EVIDENCE_CONFLICT''"
| "guard_reason_text RETRIEVAL_AVAILABLE = ''RETRIEVAL_AVAILABLE''"
| "guard_reason_text RETRIEVAL_EXHAUSTED = ''RETRIEVAL_EXHAUSTED''"
| "guard_reason_text USER_CONTEXT_REQUIRED = ''USER_CONTEXT_REQUIRED''"
| "guard_reason_text PROVIDER_TEMPORARY_UNAVAILABLE = ''PROVIDER_TEMPORARY_UNAVAILABLE''"
| "guard_reason_text PROVIDER_PERMANENT_UNAVAILABLE = ''PROVIDER_PERMANENT_UNAVAILABLE''"
| "guard_reason_text PROVIDER_ERROR = ''PROVIDER_ERROR''"
| "guard_reason_text COLLECTION_LIMIT_EXCEEDED = ''COLLECTION_LIMIT_EXCEEDED''"
| "guard_reason_text COVERAGE_REGRESSION = ''COVERAGE_REGRESSION''"
| "guard_reason_text GUARD_ABORTED = ''GUARD_ABORTED''"

section \<open>The context of a revision\<close>

record revision_outcome =
  ro_outcome_id :: "string option"
  ro_status :: "verification_status option"
  ro_revisit :: bool
  ro_receipt_id :: "string option"
  ro_receipt_digest :: "string option"
  ro_expected_digest :: "string option"
  ro_observation_digest :: "string option"
  ro_observation_id :: "string option"
  ro_expected :: "json_object option"
  ro_observed :: "json_object option"
  ro_reasons :: "string list"

record original_plan =
  op_plan_id :: string
  op_semantics_digest :: string
  op_capability_id :: string
  op_capability_version :: string
  op_adapter_id :: string
  op_inputs_digest :: string
  op_risk :: risk_snapshot
  op_state :: string
  op_approval_id :: "string option"
  op_request_id :: "string option"

record original_evidence =
  oe_guard_run_id :: string
  oe_coverage :: coverage_snapshot
  oe_digest :: string
  oe_qualified :: "string list"

text \<open>The disposition of the original judgment is the literal \<open>DECIDE\<close>.\<close>

record original_snapshot =
  on_decision_id :: string
  on_plan :: original_plan
  on_evidence :: original_evidence
  on_outcome :: revision_outcome

record current_evidence =
  ce_guard_run_id :: string
  ce_action :: guard_action
  ce_subject :: string
  ce_coverage :: coverage_snapshot
  ce_digest :: string
  ce_qualified :: "string list"
  ce_reasons :: "string list"

record delta_entry =
  ed_class :: string
  ed_category :: delta_category
  ed_original_status :: "string option"
  ed_current_status :: "string option"
  ed_original_ids :: "string list"
  ed_current_ids :: "string list"

record revision_doc =
  dc_root :: string
  dc_parent :: string
  dc_original :: original_snapshot
  dc_trigger :: trigger_type
  dc_outcome_id :: "string option"
  dc_reason :: string
  dc_current :: current_evidence
  dc_delta :: "delta_entry list"
  dc_kernel_id :: string

record revision =
  rv_id :: string
  rv_root :: string
  rv_parent :: string
  rv_index :: int
  rv_trigger :: trigger_type
  rv_outcome_id :: "string option"
  rv_reason :: string
  rv_requested_by :: string
  rv_authorized_by :: string
  rv_opened_at :: timestamp
  rv_status :: revision_status
  rv_context_digest :: string
  rv_context :: revision_doc
  rv_new_decision :: "string option"
  rv_disposition :: "disposition option"
  rv_new_plan :: "string option"
  rv_resolved_at :: "timestamp option"
  rv_idempotency :: string

section \<open>Schemas\<close>

text \<open>
  \<open>RevisionReasonSchema\<close>. Of the format characters, only the soft hyphen is a code unit below 256.
\<close>

definition format_or_control :: "char \<Rightarrow> bool" where
  "format_or_control c \<longleftrightarrow> code c < 32 \<or> (127 \<le> code c \<and> code c \<le> 159) \<or> code c = 173"

definition reason_ok :: "string \<Rightarrow> bool" where
  "reason_ok s \<longleftrightarrow> len_ok 1000 s \<and> int (length (utf8 s)) \<le> 4096 \<and> \<not> list_ex format_or_control s"

definition revision_id_char :: "char \<Rightarrow> bool" where
  "revision_id_char c \<longleftrightarrow> is_alnum c \<or> c = CHR 0x5F \<or> c = CHR 0x2D"

definition revision_id_ok :: "string \<Rightarrow> bool" where
  "revision_id_ok s \<longleftrightarrow> take 4 s = ''rev-'' \<and> 8 \<le> length (drop 4 s) \<and> int (length (drop 4 s)) \<le> 200 \<and>
     list_all revision_id_char (drop 4 s)"

definition revision_index_ok :: "int \<Rightarrow> bool" where
  "revision_index_ok i \<longleftrightarrow> 1 \<le> i \<and> i \<le> 100000"

abbreviation trim_opt :: "string option \<Rightarrow> string option" where
  "trim_opt x \<equiv> map_option js_trim x"

definition norm_revision_outcome :: "revision_outcome \<Rightarrow> revision_outcome" where
  "norm_revision_outcome x = x\<lparr>ro_outcome_id := trim_opt (ro_outcome_id x), ro_receipt_id := trim_opt (ro_receipt_id x),
     ro_observation_id := trim_opt (ro_observation_id x), ro_reasons := map js_trim (ro_reasons x)\<rparr>"

definition revision_outcome_ok :: "revision_outcome \<Rightarrow> bool" where
  "revision_outcome_ok x \<longleftrightarrow> opt_ok (len_ok 200) (ro_outcome_id x) \<and> opt_ok (len_ok 200) (ro_receipt_id x) \<and>
     opt_ok sha256_hex_ok (ro_receipt_digest x) \<and> opt_ok sha256_hex_ok (ro_expected_digest x) \<and>
     opt_ok sha256_hex_ok (ro_observation_digest x) \<and> opt_ok (len_ok 200) (ro_observation_id x) \<and>
     opt_ok json_object_ok (ro_expected x) \<and> opt_ok json_object_ok (ro_observed x) \<and>
     list_all (len_ok 200) (ro_reasons x) \<and> length (ro_reasons x) \<le> 50"

definition norm_original :: "original_snapshot \<Rightarrow> original_snapshot" where
  "norm_original x = (let p = on_plan x; e = on_evidence x in
     x\<lparr>on_decision_id := js_trim (on_decision_id x),
       on_plan := p\<lparr>op_plan_id := js_trim (op_plan_id p), op_capability_id := js_trim (op_capability_id p),
         op_capability_version := js_trim (op_capability_version p), op_adapter_id := js_trim (op_adapter_id p),
         op_state := js_trim (op_state p), op_approval_id := trim_opt (op_approval_id p),
         op_request_id := trim_opt (op_request_id p)\<rparr>,
       on_evidence := e\<lparr>oe_guard_run_id := js_trim (oe_guard_run_id e), oe_coverage := map norm_entry (oe_coverage e)\<rparr>,
       on_outcome := norm_revision_outcome (on_outcome x)\<rparr>)"

definition original_plan_ok :: "original_plan \<Rightarrow> bool" where
  "original_plan_ok p \<longleftrightarrow> len_ok 200 (op_plan_id p) \<and> sha256_hex_ok (op_semantics_digest p) \<and>
     len_ok 200 (op_capability_id p) \<and> len_ok 100 (op_capability_version p) \<and> len_ok 200 (op_adapter_id p) \<and>
     sha256_hex_ok (op_inputs_digest p) \<and> risk_snapshot_ok (op_risk p) \<and> len_ok 100 (op_state p) \<and>
     opt_ok (len_ok 200) (op_approval_id p) \<and> opt_ok (len_ok 200) (op_request_id p)"

definition evidence_ids_ok :: "string list \<Rightarrow> bool" where
  "evidence_ids_ok is \<longleftrightarrow> list_all sha256_hex_ok is \<and> length is \<le> 2000"

definition original_ok :: "original_snapshot \<Rightarrow> bool" where
  "original_ok x \<longleftrightarrow> len_ok 200 (on_decision_id x) \<and> original_plan_ok (on_plan x) \<and>
     len_ok 200 (oe_guard_run_id (on_evidence x)) \<and> coverage_snapshot_ok (oe_coverage (on_evidence x)) \<and>
     sha256_hex_ok (oe_digest (on_evidence x)) \<and> evidence_ids_ok (oe_qualified (on_evidence x)) \<and>
     revision_outcome_ok (on_outcome x)"

definition norm_current :: "current_evidence \<Rightarrow> current_evidence" where
  "norm_current x = x\<lparr>ce_guard_run_id := js_trim (ce_guard_run_id x), ce_subject := js_trim (ce_subject x),
     ce_coverage := map norm_entry (ce_coverage x), ce_reasons := map js_trim (ce_reasons x)\<rparr>"

definition current_ok :: "current_evidence \<Rightarrow> bool" where
  "current_ok x \<longleftrightarrow> len_ok 200 (ce_guard_run_id x) \<and> len_ok 200 (ce_subject x) \<and> coverage_snapshot_ok (ce_coverage x) \<and>
     sha256_hex_ok (ce_digest x) \<and> evidence_ids_ok (ce_qualified x) \<and>
     list_all (len_ok 200) (ce_reasons x) \<and> length (ce_reasons x) \<le> 100"

definition norm_delta :: "delta_entry \<Rightarrow> delta_entry" where
  "norm_delta x = x\<lparr>ed_class := js_trim (ed_class x), ed_original_status := trim_opt (ed_original_status x),
     ed_current_status := trim_opt (ed_current_status x)\<rparr>"

definition delta_ok :: "delta_entry \<Rightarrow> bool" where
  "delta_ok x \<longleftrightarrow> len_ok 200 (ed_class x) \<and> opt_ok (len_ok 100) (ed_original_status x) \<and>
     opt_ok (len_ok 100) (ed_current_status x) \<and> evidence_ids_ok (ed_original_ids x) \<and> evidence_ids_ok (ed_current_ids x)"

definition norm_doc :: "revision_doc \<Rightarrow> revision_doc" where
  "norm_doc x = x\<lparr>dc_root := js_trim (dc_root x), dc_parent := js_trim (dc_parent x),
     dc_original := norm_original (dc_original x), dc_outcome_id := trim_opt (dc_outcome_id x),
     dc_reason := js_trim (dc_reason x), dc_current := norm_current (dc_current x),
     dc_delta := map norm_delta (dc_delta x), dc_kernel_id := js_trim (dc_kernel_id x)\<rparr>"

definition doc_ok :: "revision_doc \<Rightarrow> bool" where
  "doc_ok x \<longleftrightarrow> len_ok 200 (dc_root x) \<and> len_ok 200 (dc_parent x) \<and> original_ok (dc_original x) \<and>
     opt_ok (len_ok 200) (dc_outcome_id x) \<and> reason_ok (dc_reason x) \<and> current_ok (dc_current x) \<and>
     list_all delta_ok (dc_delta x) \<and> length (dc_delta x) \<le> 200 \<and> len_ok 200 (dc_kernel_id x)"

definition parse_doc :: "revision_doc \<Rightarrow> revision_doc option" where
  "parse_doc = parse_with norm_doc doc_ok"

definition norm_revision :: "revision \<Rightarrow> revision" where
  "norm_revision r = r\<lparr>rv_root := js_trim (rv_root r), rv_parent := js_trim (rv_parent r),
     rv_outcome_id := trim_opt (rv_outcome_id r), rv_reason := js_trim (rv_reason r),
     rv_requested_by := js_trim (rv_requested_by r), rv_authorized_by := js_trim (rv_authorized_by r),
     rv_context := norm_doc (rv_context r), rv_new_decision := trim_opt (rv_new_decision r),
     rv_new_plan := trim_opt (rv_new_plan r)\<rparr>"

definition revision_fields_ok :: "revision \<Rightarrow> bool" where
  "revision_fields_ok r \<longleftrightarrow> revision_id_ok (rv_id r) \<and> len_ok 200 (rv_root r) \<and> len_ok 200 (rv_parent r) \<and>
     revision_index_ok (rv_index r) \<and> opt_ok (len_ok 200) (rv_outcome_id r) \<and> reason_ok (rv_reason r) \<and>
     len_ok 200 (rv_requested_by r) \<and> len_ok 200 (rv_authorized_by r) \<and> sha256_hex_ok (rv_context_digest r) \<and>
     doc_ok (rv_context r) \<and> opt_ok (len_ok 200) (rv_new_decision r) \<and> opt_ok (len_ok 200) (rv_new_plan r) \<and>
     sha256_hex_ok (rv_idempotency r)"

text \<open>The refinements that tie the columns to the context and the status to the resolved fields.\<close>

definition revision_links_ok :: "revision \<Rightarrow> bool" where
  "revision_links_ok r \<longleftrightarrow> (let d = rv_context r in
     dc_root d = rv_root r \<and> dc_parent d = rv_parent r \<and> on_decision_id (dc_original d) = rv_parent r \<and>
     dc_trigger d = rv_trigger r \<and> dc_outcome_id d = rv_outcome_id r)"

definition revision_status_ok :: "revision \<Rightarrow> bool" where
  "revision_status_ok r = (if rv_status r = R_decided
     then rv_new_decision r \<noteq> None \<and> rv_disposition r \<noteq> None \<and> rv_resolved_at r \<noteq> None \<and>
       \<not> (rv_disposition r = Some D_decide \<and> rv_new_plan r = None) \<and>
       \<not> (rv_disposition r = Some D_decide \<and> rv_new_plan r = Some (op_plan_id (on_plan (dc_original (rv_context r))))) \<and>
       \<not> (rv_disposition r \<noteq> Some D_decide \<and> rv_new_plan r \<noteq> None)
     else rv_new_decision r = None \<and> rv_disposition r = None \<and> rv_new_plan r = None \<and> rv_resolved_at r = None)"

definition revision_ok :: "revision \<Rightarrow> bool" where
  "revision_ok r \<longleftrightarrow> revision_fields_ok r \<and> revision_links_ok r \<and> revision_status_ok r"

definition parse_revision :: "revision \<Rightarrow> revision option" where
  "parse_revision = parse_with norm_revision revision_ok"

section \<open>Canonical JSON of a context\<close>

abbreviation JStrs :: "string list \<Rightarrow> jsval" where
  "JStrs xs \<equiv> JArr (map JStr xs)"

fun disposition_text :: "disposition \<Rightarrow> string" where
  "disposition_text D_decide = ''DECIDE''"
| "disposition_text D_clarify = ''CLARIFY''"
| "disposition_text D_defer = ''DEFER''"
| "disposition_text D_block = ''BLOCK''"

definition revision_outcome_json :: "revision_outcome \<Rightarrow> jsval" where
  "revision_outcome_json x = JObj
     [(''outcome_id'', nullable JStr (ro_outcome_id x)),
      (''verification_status'', nullable (JStr \<circ> verification_status_text) (ro_status x)),
      (''revisit_required'', JBool (ro_revisit x)), (''execution_receipt_id'', nullable JStr (ro_receipt_id x)),
      (''receipt_digest'', nullable JStr (ro_receipt_digest x)),
      (''expected_outcome_digest'', nullable JStr (ro_expected_digest x)),
      (''latest_observation_digest'', nullable JStr (ro_observation_digest x)),
      (''observation_id'', nullable JStr (ro_observation_id x)), (''expected_state'', nullable JObj (ro_expected x)),
      (''trusted_observed_state'', nullable JObj (ro_observed x)), (''reason_codes'', JStrs (ro_reasons x))]"

definition original_plan_json :: "original_plan \<Rightarrow> jsval" where
  "original_plan_json p = JObj
     [(''plan_id'', JStr (op_plan_id p)), (''plan_semantics_digest'', JStr (op_semantics_digest p)),
      (''capability_id'', JStr (op_capability_id p)), (''capability_version'', JStr (op_capability_version p)),
      (''adapter_id'', JStr (op_adapter_id p)), (''normalized_inputs_digest'', JStr (op_inputs_digest p)),
      (''risk_snapshot'', risk_json (op_risk p)), (''state'', JStr (op_state p)),
      (''approval_reference_id'', nullable JStr (op_approval_id p)),
      (''approval_request_id'', nullable JStr (op_request_id p))]"

definition original_json :: "original_snapshot \<Rightarrow> jsval" where
  "original_json x = JObj
     [(''decision_id'', JStr (on_decision_id x)), (''disposition'', JStr ''DECIDE''),
      (''plan'', original_plan_json (on_plan x)),
      (''evidence'', JObj [(''guard_run_id'', JStr (oe_guard_run_id (on_evidence x))),
         (''coverage_snapshot'', coverage_json (oe_coverage (on_evidence x))),
         (''coverage_digest'', JStr (oe_digest (on_evidence x))),
         (''qualified_evidence_ids'', JStrs (oe_qualified (on_evidence x)))]),
      (''outcome'', revision_outcome_json (on_outcome x))]"

definition current_json :: "current_evidence \<Rightarrow> jsval" where
  "current_json x = JObj
     [(''guard_run_id'', JStr (ce_guard_run_id x)), (''action'', JStr (guard_action_text (ce_action x))),
      (''subject_key'', JStr (ce_subject x)), (''coverage_snapshot'', coverage_json (ce_coverage x)),
      (''coverage_digest'', JStr (ce_digest x)), (''qualified_evidence_ids'', JStrs (ce_qualified x)),
      (''reason_codes'', JStrs (ce_reasons x))]"

definition delta_json :: "delta_entry \<Rightarrow> jsval" where
  "delta_json x = JObj
     [(''evidence_class'', JStr (ed_class x)), (''category'', JStr (delta_text (ed_category x))),
      (''original_status'', nullable JStr (ed_original_status x)),
      (''current_status'', nullable JStr (ed_current_status x)),
      (''original_evidence_ids'', JStrs (ed_original_ids x)), (''current_evidence_ids'', JStrs (ed_current_ids x))]"

definition doc_json :: "revision_doc \<Rightarrow> jsval" where
  "doc_json d = JObj
     [(''root_decision_id'', JStr (dc_root d)), (''parent_decision_id'', JStr (dc_parent d)),
      (''original'', original_json (dc_original d)),
      (''trigger'', JObj [(''trigger_type'', JStr (trigger_text (dc_trigger d))),
         (''trigger_outcome_id'', nullable JStr (dc_outcome_id d)), (''trigger_reason'', JStr (dc_reason d))]),
      (''current_evidence'', current_json (dc_current d)), (''evidence_delta'', JArr (map delta_json (dc_delta d))),
      (''decision_kernel_id'', JStr (dc_kernel_id d))]"

text \<open>The intent whose digest makes a reopen idempotent.\<close>

definition intent_json :: "string \<Rightarrow> string \<Rightarrow> trigger_type \<Rightarrow> string option \<Rightarrow> string \<Rightarrow> string \<Rightarrow> jsval" where
  "intent_json root parent trigger oid reason authorized = JObj
     [(''root_decision_id'', JStr root), (''parent_decision_id'', JStr parent),
      (''trigger_type'', JStr (trigger_text trigger)), (''trigger_outcome_id'', nullable JStr oid),
      (''trigger_reason'', JStr reason), (''authorized_by'', JStr authorized)]"

definition intent_digest :: "(string \<Rightarrow> string) \<Rightarrow> revision \<Rightarrow> evidence_error_code throws + string" where
  "intent_digest sha r = json_digest sha (intent_json (rv_root r) (rv_parent r) (rv_trigger r) (rv_outcome_id r)
     (rv_reason r) (rv_authorized_by r))"

text \<open>An error that is not a \<open>RevisionError\<close> passes through as it is.\<close>

definition alien :: "'e throws + 'a \<Rightarrow> 'a revision_result" where
  "alien r = (case r of Inl e \<Rightarrow> Inl NativeError | Inr v \<Rightarrow> Inr v)"

lemma alien_Inr [simp]: "alien r = Inr v \<longleftrightarrow> r = Inr v"
  by (auto simp: alien_def split: sum.splits)

section \<open>The store\<close>

record revision_event =
  re_revision_id :: string
  re_type :: revision_event_type
  re_created_at :: timestamp
  re_root :: string
  re_parent :: string
  re_index :: int
  re_trigger :: trigger_type
  re_disposition :: "disposition option"
  re_new_decision :: "string option"

record revision_store =
  db_revisions :: "revision list"
  db_events :: "revision_event list"

definition empty_revision_store :: revision_store where
  "empty_revision_store = \<lparr>db_revisions = [], db_events = []\<rparr>"

definition norm_event :: "revision_event \<Rightarrow> revision_event" where
  "norm_event e = e\<lparr>re_root := js_trim (re_root e), re_parent := js_trim (re_parent e),
     re_new_decision := trim_opt (re_new_decision e)\<rparr>"

definition event_ok :: "revision_event \<Rightarrow> bool" where
  "event_ok e \<longleftrightarrow> revision_id_ok (re_revision_id e) \<and> len_ok 200 (re_root e) \<and> len_ok 200 (re_parent e) \<and>
     revision_index_ok (re_index e) \<and> opt_ok (len_ok 200) (re_new_decision e)"

definition parse_event :: "revision_event \<Rightarrow> revision_event option" where
  "parse_event = parse_with norm_event event_ok"

definition event_types :: "revision_event_type list" where
  "event_types = [E_requested, E_authorized, E_created, E_requalified, E_decided]"

fun collect_results :: "('e + 'a) list \<Rightarrow> 'e + 'a list" where
  "collect_results [] = Inr []"
| "collect_results (x # xs) = ebind x (\<lambda>y. ebind (collect_results xs) (\<lambda>ys. Inr (y # ys)))"

definition event_for :: "revision \<Rightarrow> revision_event_type \<Rightarrow> revision_event" where
  "event_for r t = \<lparr>re_revision_id = rv_id r, re_type = t,
     re_created_at = (case rv_resolved_at r of None \<Rightarrow> rv_opened_at r | Some a \<Rightarrow> a), re_root = rv_root r,
     re_parent = rv_parent r, re_index = rv_index r, re_trigger = rv_trigger r, re_disposition = rv_disposition r,
     re_new_decision = rv_new_decision r\<rparr>"

definition events_for :: "revision \<Rightarrow> revision_event list revision_result" where
  "events_for r = collect_results (map (\<lambda>t. zod (parse_event (event_for r t))) event_types)"

text \<open>\<open>parseRecord\<close>: a row is parsed again when it is read.\<close>

definition parse_row :: "revision \<Rightarrow> revision revision_result" where
  "parse_row r = require (parse_revision r) REVISION_PERSISTENCE_FAILURE"

definition row_where :: "(revision \<Rightarrow> bool) \<Rightarrow> revision_store \<Rightarrow> revision option revision_result" where
  "row_where P s = (case find P (db_revisions s) of None \<Rightarrow> Inr None
     | Some r \<Rightarrow> ebind (parse_row r) (\<lambda>x. Inr (Some x)))"

definition get_by_idempotency :: "revision_store \<Rightarrow> string \<Rightarrow> revision option revision_result" where
  "get_by_idempotency s d = row_where (\<lambda>r. rv_idempotency r = d) s"

definition get_revision :: "revision_store \<Rightarrow> string \<Rightarrow> revision option revision_result" where
  "get_revision s i = row_where (\<lambda>r. rv_id r = i) s"

definition get_for_new_decision :: "revision_store \<Rightarrow> string \<Rightarrow> revision option revision_result" where
  "get_for_new_decision s n = row_where (\<lambda>r. rv_new_decision r = Some n) s"

definition rows_by_index :: "(revision \<Rightarrow> bool) \<Rightarrow> revision_store \<Rightarrow> revision list" where
  "rows_by_index P s = sort_key rv_index (filter P (db_revisions s))"

definition list_for_root :: "revision_store \<Rightarrow> string \<Rightarrow> revision list revision_result" where
  "list_for_root s root = collect_results (map parse_row (rows_by_index (\<lambda>r. rv_root r = root) s))"

definition next_revision_index :: "revision_store \<Rightarrow> string \<Rightarrow> int" where
  "next_revision_index s root = (case rev (rows_by_index (\<lambda>r. rv_root r = root) s) of [] \<Rightarrow> 1 | r # _ \<Rightarrow> rv_index r + 1)"

text \<open>The events of a revision, each parsed again.\<close>

definition list_events :: "revision_store \<Rightarrow> string \<Rightarrow> revision_event list revision_result" where
  "list_events s i = collect_results (map (\<lambda>e. require (parse_event e) REVISION_PERSISTENCE_FAILURE)
     (filter (\<lambda>e. re_revision_id e = i) (db_events s)))"

text \<open>
  The primary key, the unique indexes and the check of the migration: what makes an \<open>INSERT\<close> fail.
\<close>

definition insert_refused :: "revision list \<Rightarrow> revision \<Rightarrow> bool" where
  "insert_refused rows r \<longleftrightarrow> \<not> 0 < rv_index r \<or> list_ex (\<lambda>x. rv_id x = rv_id r \<or>
     (rv_root x = rv_root r \<and> rv_index x = rv_index r) \<or> rv_parent x = rv_parent r \<or>
     rv_idempotency x = rv_idempotency r \<or> (rv_new_decision r \<noteq> None \<and> rv_new_decision x = rv_new_decision r) \<or>
     (rv_root x = rv_root r \<and> rv_status x = R_open \<and> rv_status r = R_open)) rows"

definition insert_revision :: "revision \<Rightarrow> revision_store \<Rightarrow> revision_store revision_result" where
  "insert_revision r s = (if insert_refused (db_revisions s) r then Inl NativeError
     else ebind (events_for r) (\<lambda>es. Inr (s\<lparr>db_revisions := db_revisions s @ [r], db_events := db_events s @ es\<rparr>)))"

text \<open>The checks inside the transaction, in their order.\<close>

definition revision_transaction ::
  "revision \<Rightarrow> string \<Rightarrow> revision_store \<Rightarrow> (revision \<times> bool \<times> revision_store) revision_result" where
  "revision_transaction r n s =
     ebind (get_by_idempotency s (rv_idempotency r)) (\<lambda>existing. case existing of
       Some x \<Rightarrow> Inr (x, False, s)
     | None \<Rightarrow>
       ebind (guarded (n \<noteq> rv_root r \<and> n \<noteq> rv_parent r) REVISION_CYCLE_BLOCKED) (\<lambda>_.
       ebind (guarded (\<not> list_ex (\<lambda>x. rv_root x = n \<or> rv_parent x = n \<or> rv_new_decision x = Some n) (db_revisions s))
         REVISION_CYCLE_BLOCKED) (\<lambda>_.
       ebind (guarded (\<not> list_ex (\<lambda>x. rv_new_decision x = Some (rv_root r)) (db_revisions s)) REVISION_CYCLE_BLOCKED) (\<lambda>_.
       ebind (list_for_root s (rv_root r)) (\<lambda>chain.
       ebind (guarded (\<not> list_ex (\<lambda>x. rv_status x = R_open) chain) REVISION_ACTIVE_EXISTS) (\<lambda>_.
       ebind (guarded (rv_index r = int (length chain) + 1) REVISION_INDEX_INVALID) (\<lambda>_.
       ebind (if chain = [] then guarded (rv_root r = rv_parent r) REVISION_CYCLE_BLOCKED
         else guarded (rv_new_decision (last chain) = Some (rv_parent r)) REVISION_FORK_BLOCKED) (\<lambda>_.
       ebind (guarded (\<not> list_ex (\<lambda>x. rv_parent x = rv_parent r) (db_revisions s)) REVISION_FORK_BLOCKED) (\<lambda>_.
       ebind (insert_revision r s) (\<lambda>s'. Inr (r, True, s')))))))))))"

definition create_resolved_or_get ::
  "(string \<Rightarrow> string) \<Rightarrow> revision raw \<Rightarrow> revision_store \<Rightarrow> (revision \<times> bool \<times> revision_store) revision_result" where
  "create_resolved_or_get sha raw s =
     ebind (safe_parse REVISION_CONTEXT_INVALID parse_revision raw) (\<lambda>r.
     ebind (guarded (rv_status r = R_decided) REVISION_CONTEXT_INVALID) (\<lambda>_.
     ebind (require (rv_new_decision r) REVISION_CONTEXT_INVALID) (\<lambda>n.
     ebind (alien (json_digest sha (doc_json (rv_context r)))) (\<lambda>d.
     ebind (guarded (rv_context_digest r = d) REVISION_CONTEXT_INVALID) (\<lambda>_.
     ebind (alien (intent_digest sha r)) (\<lambda>i.
     ebind (guarded (rv_idempotency r = i) REVISION_CONTEXT_INVALID) (\<lambda>_.
       revision_transaction r n s)))))))"

section \<open>The projection\<close>

record history_entry =
  he_id :: string
  he_index :: int
  he_parent :: string
  he_new :: "string option"
  he_trigger :: trigger_type
  he_status :: revision_status
  he_disposition :: "disposition option"
  he_opened_at :: timestamp
  he_resolved_at :: "timestamp option"
  he_digest :: string

record delta_summary =
  ds_class :: string
  ds_category :: delta_category
  ds_original_status :: "string option"
  ds_current_status :: "string option"

record revision_projection =
  rp_root :: string
  rp_original :: string
  rp_parent :: string
  rp_current :: string
  rp_index :: int
  rp_count :: nat
  rp_status :: "revision_status option"
  rp_trigger :: "trigger_type option"
  rp_revisit :: bool
  rp_recommended :: bool
  rp_outcome :: "verification_status option"
  rp_reasons :: "string list"
  rp_disposition :: "disposition option"
  rp_pending :: "bool option"
  rp_delta :: "delta_summary list"
  rp_truncated :: bool
  rp_history :: "history_entry list"

definition projection_limit :: nat where
  "projection_limit = 50"

definition history_entry_of :: "revision \<Rightarrow> history_entry" where
  "history_entry_of r = \<lparr>he_id = rv_id r, he_index = rv_index r, he_parent = rv_parent r, he_new = rv_new_decision r,
     he_trigger = rv_trigger r, he_status = rv_status r, he_disposition = rv_disposition r, he_opened_at = rv_opened_at r,
     he_resolved_at = rv_resolved_at r, he_digest = rv_context_digest r\<rparr>"

definition summary_of :: "delta_entry \<Rightarrow> delta_summary" where
  "summary_of e = \<lparr>ds_class = ed_class e, ds_category = ed_category e, ds_original_status = ed_original_status e,
     ds_current_status = ed_current_status e\<rparr>"

text \<open>\<open>xs.slice(-n)\<close> for a positive \<open>n\<close>.\<close>

definition slice_last :: "nat \<Rightarrow> 'a list \<Rightarrow> 'a list" where
  "slice_last n xs = drop (length xs - n) xs"

definition projection_of_chain :: "string \<Rightarrow> revision list \<Rightarrow> revision_projection option revision_result" where
  "projection_of_chain root chain =
     (case rev chain of
        [] \<Rightarrow> Inl (Throws REVISION_PERSISTENCE_FAILURE)
      | latest # _ \<Rightarrow>
        ebind (require (rv_new_decision latest) REVISION_PERSISTENCE_FAILURE) (\<lambda>n.
        ebind (require (rv_disposition latest) REVISION_PERSISTENCE_FAILURE) (\<lambda>disp.
        (let o1 = on_outcome (dc_original (rv_context latest)); visible = slice_last projection_limit chain in
         Inr (Some \<lparr>rp_root = root, rp_original = root, rp_parent = rv_parent latest, rp_current = n,
           rp_index = rv_index latest, rp_count = length chain, rp_status = Some (rv_status latest),
           rp_trigger = Some (rv_trigger latest), rp_revisit = ro_revisit o1,
           rp_recommended = (ro_status o1 = Some V_mismatch \<or> ro_status o1 = Some V_inconclusive),
           rp_outcome = ro_status o1, rp_reasons = take projection_limit (ro_reasons o1), rp_disposition = Some disp,
           rp_pending = None, rp_delta = map summary_of (take projection_limit (dc_delta (rv_context latest))),
           rp_truncated = (length visible < length chain), rp_history = map history_entry_of visible\<rparr>)))))"

definition store_projection :: "revision_store \<Rightarrow> string \<Rightarrow> revision_projection option revision_result" where
  "store_projection s i =
     ebind (get_for_new_decision s i) (\<lambda>direct.
     ebind (case direct of Some r \<Rightarrow> Inr (Some r) | None \<Rightarrow>
         (case rows_by_index (\<lambda>r. rv_parent r = i) s of [] \<Rightarrow> Inr None
          | r # _ \<Rightarrow> ebind (parse_row r) (\<lambda>x. Inr (Some x)))) (\<lambda>first.
     case first of None \<Rightarrow> Inr None
     | Some f \<Rightarrow> ebind (list_for_root s (rv_root f)) (\<lambda>chain. projection_of_chain (rv_root f) chain)))"

section \<open>Parsing is idempotent, and so is reading a row\<close>

lemma norm_original_idem [simp]: "norm_original (norm_original x) = norm_original x"
  by (simp add: norm_original_def norm_revision_outcome_def Let_def comp_def)

lemma norm_doc_idem [simp]: "norm_doc (norm_doc x) = norm_doc x"
  by (simp add: norm_doc_def norm_current_def norm_delta_def comp_def)

lemma norm_revision_idem [simp]: "norm_revision (norm_revision r) = norm_revision r"
  by (simp add: norm_revision_def)

lemma norm_event_idem [simp]: "norm_event (norm_event e) = norm_event e"
  by (simp add: norm_event_def)

definition wellformed_row :: "revision \<Rightarrow> bool" where
  "wellformed_row r \<longleftrightarrow> norm_revision r = r \<and> revision_ok r"

lemma parse_revision_iff: "parse_revision r = Some y \<longleftrightarrow> y = norm_revision r \<and> wellformed_row y"
  by (auto simp: parse_revision_def parse_with_Some wellformed_row_def)

lemma parse_row_wellformed [simp]: "wellformed_row r \<Longrightarrow> parse_row r = Inr r"
  by (simp add: parse_row_def parse_revision_iff) (metis wellformed_row_def)

lemma collect_results_Inr: "(\<And>x. x \<in> set xs \<Longrightarrow> f x = Inr (g x)) \<Longrightarrow> collect_results (map f xs) = Inr (map g xs)"
  by (induction xs) auto

definition rows_wellformed :: "revision_store \<Rightarrow> bool" where
  "rows_wellformed s \<longleftrightarrow> list_all wellformed_row (db_revisions s)"

lemma row_where_wellformed:
  assumes "rows_wellformed s" shows "row_where P s = Inr (find P (db_revisions s))"
proof (cases "find P (db_revisions s)")
  case (Some r)
  then have "r \<in> set (db_revisions s)" by (auto simp: find_Some_iff)
  then show ?thesis using assms Some by (simp add: row_where_def rows_wellformed_def list_all_iff)
qed (simp add: row_where_def)

lemma list_for_root_wellformed:
  assumes "rows_wellformed s"
  shows "list_for_root s root = Inr (rows_by_index (\<lambda>r. rv_root r = root) s)"
  unfolding list_for_root_def
  by (subst collect_results_Inr [where g = "\<lambda>x. x"])
     (use assms in \<open>auto simp: rows_by_index_def rows_wellformed_def list_all_iff\<close>)

text \<open>The events of a well-formed decided revision are always accepted by their schema.\<close>

lemma events_for_wellformed:
  assumes "wellformed_row r" shows "events_for r = Inr (map (event_for r) event_types)"
  unfolding events_for_def
proof (rule collect_results_Inr)
  fix t
  have n: "norm_revision r = r" and f: "revision_fields_ok r"
    using assms by (auto simp: wellformed_row_def revision_ok_def)
  have "js_trim (rv_root r) = rv_root r" "js_trim (rv_parent r) = rv_parent r" "trim_opt (rv_new_decision r) = rv_new_decision r"
    using arg_cong [OF n, of rv_root] arg_cong [OF n, of rv_parent] arg_cong [OF n, of rv_new_decision]
    by (simp_all add: norm_revision_def)
  then have "norm_event (event_for r t) = event_for r t" by (simp add: norm_event_def event_for_def)
  moreover have "event_ok (event_for r t)" using f by (simp add: event_ok_def event_for_def revision_fields_ok_def)
  ultimately show "zod (parse_event (event_for r t)) = Inr (event_for r t)"
    by (simp add: parse_event_def parse_with_Some)
qed

section \<open>Chains\<close>

definition chain :: "revision_store \<Rightarrow> string \<Rightarrow> revision list" where
  "chain s root = filter (\<lambda>r. rv_root r = root) (db_revisions s)"

definition new_decisions :: "revision list \<Rightarrow> string list" where
  "new_decisions rs = List.map_filter rv_new_decision rs"

text \<open>The abstract history of a root: the decisions that followed it, the oldest first.\<close>

definition history_of :: "revision_store \<Rightarrow> string \<Rightarrow> string list" where
  "history_of s root = new_decisions (chain s root)"

definition linked :: "string \<Rightarrow> revision list \<Rightarrow> bool" where
  "linked root ch \<longleftrightarrow> map rv_index ch = [1..int (length ch)] \<and> map rv_parent ch = butlast (root # new_decisions ch)"

definition row_sound :: "(string \<Rightarrow> string) \<Rightarrow> revision \<Rightarrow> bool" where
  "row_sound sha r \<longleftrightarrow> wellformed_row r \<and> rv_status r = R_decided \<and>
     json_digest sha (doc_json (rv_context r)) = Inr (rv_context_digest r) \<and> intent_digest sha r = Inr (rv_idempotency r)"

definition revision_store_inv :: "(string \<Rightarrow> string) \<Rightarrow> revision_store \<Rightarrow> bool" where
  "revision_store_inv sha s \<longleftrightarrow> list_all (row_sound sha) (db_revisions s) \<and>
     distinct (map rv_id (db_revisions s)) \<and> distinct (map rv_idempotency (db_revisions s)) \<and>
     distinct (new_decisions (db_revisions s)) \<and>
     (\<forall>x \<in> set (db_revisions s). \<forall>y \<in> set (db_revisions s). rv_new_decision x \<noteq> Some (rv_root y)) \<and>
     (\<forall>root. linked root (chain s root)) \<and>
     db_events s = concat (map (\<lambda>r. map (event_for r) event_types) (db_revisions s))"

lemma new_decisions_simps [simp]:
  "new_decisions [] = []"
  "new_decisions (xs @ ys) = new_decisions xs @ new_decisions ys"
  "rv_new_decision r = Some n \<Longrightarrow> new_decisions [r] = [n]"
  by (simp_all add: new_decisions_def List.map_filter_def)

lemma set_new_decisions: "set (new_decisions rs) = {n. \<exists>r \<in> set rs. rv_new_decision r = Some n}"
  by (force simp: new_decisions_def List.map_filter_def)

lemma decided_new:
  assumes "row_sound sha r" obtains n d where "rv_new_decision r = Some n" "rv_disposition r = Some d"
  using assms by (auto simp: row_sound_def wellformed_row_def revision_ok_def revision_status_ok_def split: if_splits)

lemma length_new_decisions: "list_all (row_sound sha) rs \<Longrightarrow> length (new_decisions rs) = length rs"
proof (induction rs)
  case (Cons r rs)
  then obtain n where "rv_new_decision r = Some n" by (auto elim: decided_new)
  then show ?case using Cons by (simp add: new_decisions_def List.map_filter_def)
qed simp

lemma last_new_decision:
  "list_all (row_sound sha) rs \<Longrightarrow> rs \<noteq> [] \<Longrightarrow> rv_new_decision (last rs) = Some (last (new_decisions rs))"
proof (induction rs rule: rev_induct)
  case (snoc r rs)
  then obtain n where "rv_new_decision r = Some n" by (auto elim: decided_new)
  then show ?case by simp
qed simp

lemma inv_wellformed [simp]: "revision_store_inv sha s \<Longrightarrow> rows_wellformed s"
  by (auto simp: revision_store_inv_def rows_wellformed_def row_sound_def list_all_iff)

lemma sort_key_indexed:
  assumes "map f xs = [1..int (length xs)]" shows "sort_key f xs = xs"
proof (rule sort_key_id_if_sorted)
  show "sorted (map f xs)" using assms by simp
qed

lemma rows_by_index_chain:
  assumes "revision_store_inv sha s"
  shows "rows_by_index (\<lambda>r. rv_root r = root) s = chain s root"
  using assms by (auto simp: rows_by_index_def chain_def [symmetric] revision_store_inv_def linked_def intro: sort_key_indexed)

lemma list_for_root_chain [simp]:
  "revision_store_inv sha s \<Longrightarrow> list_for_root s root = Inr (chain s root)"
  by (simp add: list_for_root_wellformed rows_by_index_chain)

section \<open>What a creation does\<close>

text \<open>The checks on the record itself, before the transaction.\<close>

definition prepared :: "(string \<Rightarrow> string) \<Rightarrow> revision raw \<Rightarrow> revision \<Rightarrow> bool" where
  "prepared sha raw r \<longleftrightarrow> (\<exists>x. raw = Shaped x \<and> parse_revision x = Some r) \<and> row_sound sha r"

text \<open>The decisions a store knows, as roots or as the result of a revision.\<close>

definition linked_decision :: "revision_store \<Rightarrow> string \<Rightarrow> bool" where
  "linked_decision s d \<longleftrightarrow> (\<exists>root. chain s root \<noteq> [] \<and> d \<in> set (root # history_of s root))"

text \<open>The abstract rule: only the tip of a history may be revised, into a decision that is new.\<close>

definition may_revise :: "revision_store \<Rightarrow> revision \<Rightarrow> bool" where
  "may_revise s r \<longleftrightarrow> rv_parent r = last (rv_root r # history_of s (rv_root r)) \<and>
     rv_index r = int (length (history_of s (rv_root r))) + 1 \<and>
     (\<forall>root. rv_root r \<notin> set (history_of s root)) \<and>
     (case rv_new_decision r of None \<Rightarrow> False | Some n \<Rightarrow> n \<noteq> rv_root r \<and> \<not> linked_decision s n)"

lemma history_set: "set (history_of s root) = {n. \<exists>r \<in> set (db_revisions s). rv_root r = root \<and> rv_new_decision r = Some n}"
  by (auto simp: history_of_def set_new_decisions chain_def)

lemma chain_new_mem: "r \<in> set (db_revisions s) \<Longrightarrow> rv_new_decision r = Some n \<Longrightarrow> n \<in> set (history_of s (rv_root r))"
  by (auto simp: history_set)

lemma chain_parent:
  assumes "revision_store_inv sha s" "r \<in> set (db_revisions s)"
  shows "rv_parent r \<in> set (rv_root r # history_of s (rv_root r))"
proof -
  have "r \<in> set (chain s (rv_root r))" using assms by (simp add: chain_def)
  moreover have "map rv_parent (chain s (rv_root r)) = butlast (rv_root r # history_of s (rv_root r))"
    using assms by (simp add: revision_store_inv_def linked_def history_of_def)
  ultimately have "rv_parent r \<in> set (butlast (rv_root r # history_of s (rv_root r)))"
    by (metis image_eqI list.set_map)
  then show ?thesis by (rule in_set_butlastD)
qed

lemma linked_decision_rows:
  assumes "revision_store_inv sha s"
  shows "linked_decision s d \<longleftrightarrow> (\<exists>x \<in> set (db_revisions s). rv_root x = d \<or> rv_parent x = d \<or> rv_new_decision x = Some d)"
proof
  assume "linked_decision s d"
  then show "\<exists>x \<in> set (db_revisions s). rv_root x = d \<or> rv_parent x = d \<or> rv_new_decision x = Some d"
    by (force simp: linked_decision_def history_set chain_def filter_empty_conv)
next
  assume "\<exists>x \<in> set (db_revisions s). rv_root x = d \<or> rv_parent x = d \<or> rv_new_decision x = Some d"
  then obtain x where x: "x \<in> set (db_revisions s)" "rv_root x = d \<or> rv_parent x = d \<or> rv_new_decision x = Some d" by blast
  then have "d \<in> set (rv_root x # history_of s (rv_root x))"
    using chain_parent [OF assms x(1)] chain_new_mem [OF x(1)] by auto
  moreover have "chain s (rv_root x) \<noteq> []" using x(1) by (auto simp: chain_def filter_empty_conv)
  ultimately show "linked_decision s d" by (auto simp: linked_decision_def)
qed

lemma chain_nonempty_history:
  assumes "revision_store_inv sha s" shows "history_of s root = [] \<longleftrightarrow> chain s root = []"
proof -
  have "length (history_of s root) = length (chain s root)"
    unfolding history_of_def by (rule length_new_decisions [of sha]) (use assms in \<open>auto simp: revision_store_inv_def chain_def list_all_iff\<close>)
  then show ?thesis by (metis length_0_conv)
qed

lemma chain_facts:
  assumes "revision_store_inv sha s"
  shows "length (history_of s root) = length (chain s root)"
    and "chain s root \<noteq> [] \<Longrightarrow> rv_new_decision (last (chain s root)) = Some (last (history_of s root))"
    and "list_all (row_sound sha) (chain s root)"
proof -
  show all: "list_all (row_sound sha) (chain s root)"
    using assms by (auto simp: revision_store_inv_def chain_def list_all_iff)
  show "length (history_of s root) = length (chain s root)"
    unfolding history_of_def by (rule length_new_decisions [OF all])
  show "chain s root \<noteq> [] \<Longrightarrow> rv_new_decision (last (chain s root)) = Some (last (history_of s root))"
    unfolding history_of_def by (rule last_new_decision [OF all])
qed

text \<open>Under the invariant only the primary key can refuse an insert that the checks let pass.\<close>

lemma insert_refused_iff:
  assumes inv: "revision_store_inv sha s" and may: "may_revise s r"
    and fresh: "\<not> list_ex (\<lambda>x. rv_idempotency x = rv_idempotency r) (db_revisions s)"
    and parent: "\<not> list_ex (\<lambda>x. rv_parent x = rv_parent r) (db_revisions s)"
  shows "insert_refused (db_revisions s) r \<longleftrightarrow> list_ex (\<lambda>x. rv_id x = rv_id r) (db_revisions s)"
proof -
  obtain n where n: "rv_new_decision r = Some n" "\<not> linked_decision s n"
    and i: "rv_index r = int (length (history_of s (rv_root r))) + 1"
    using may by (auto simp: may_revise_def split: option.splits)
  have "rv_new_decision x \<noteq> rv_new_decision r" if "x \<in> set (db_revisions s)" for x
    using n that linked_decision_rows [OF inv] by auto
  moreover have "rv_index x \<noteq> rv_index r" if "x \<in> set (db_revisions s)" "rv_root x = rv_root r" for x
  proof -
    have "rv_index x \<in> set (map rv_index (chain s (rv_root r)))" using that by (simp add: chain_def)
    also have "\<dots> = set [1..int (length (chain s (rv_root r)))]"
      using inv by (simp add: revision_store_inv_def linked_def del: set_upto)
    finally show ?thesis using i chain_facts(1) [OF inv] by simp
  qed
  moreover have "rv_status x \<noteq> R_open" if "x \<in> set (db_revisions s)" for x
    using inv that by (auto simp: revision_store_inv_def list_all_iff row_sound_def)
  ultimately show ?thesis using fresh parent i by (auto simp: insert_refused_def list_ex_iff)
qed

lemma new_decisions_Cons: "new_decisions (r # rs) = (case rv_new_decision r of None \<Rightarrow> [] | Some n \<Rightarrow> [n]) @ new_decisions rs"
  by (simp add: new_decisions_def List.map_filter_def split: option.splits)

lemma new_decision_inj:
  assumes "distinct (new_decisions rs)" "a \<in> set rs" "b \<in> set rs" "rv_new_decision a = Some d" "rv_new_decision b = Some d"
  shows "a = b"
  using assms
proof (induction rs)
  case (Cons r rs)
  have "r = a \<or> r = b \<Longrightarrow> a = r \<and> b = r \<or> d \<in> set (new_decisions rs)"
    using Cons.prems by (auto simp: set_new_decisions)
  then show ?case using Cons by (auto simp: new_decisions_Cons)
qed simp

lemma distinct_new_filter: "distinct (new_decisions rs) \<Longrightarrow> distinct (new_decisions (filter P rs))"
proof (induction rs)
  case (Cons r rs)
  then show ?case by (auto simp: new_decisions_Cons set_new_decisions split: option.splits)
qed simp

text \<open>Histories: without repetition, disjoint, and never containing a root.\<close>

lemma histories_disjoint:
  assumes inv: "revision_store_inv sha s" and d: "d \<in> set (history_of s a)" "d \<in> set (history_of s b)"
  shows "a = b"
proof -
  obtain x y where xy: "x \<in> set (db_revisions s)" "rv_root x = a" "rv_new_decision x = Some d"
    "y \<in> set (db_revisions s)" "rv_root y = b" "rv_new_decision y = Some d"
    using d unfolding history_set by (elim CollectE bexE conjE) (rule that)
  have "x = y" by (rule new_decision_inj [of "db_revisions s"]) (use inv xy in \<open>auto simp: revision_store_inv_def\<close>)
  then show ?thesis using xy by simp
qed

lemma root_not_in_history:
  assumes inv: "revision_store_inv sha s" and r: "chain s root \<noteq> []"
  shows "root \<notin> set (history_of s root')"
proof -
  obtain y where "y \<in> set (db_revisions s)" "rv_root y = root" using r by (auto simp: chain_def filter_empty_conv)
  then show ?thesis using inv by (auto simp: revision_store_inv_def history_set)
qed

lemma history_distinct:
  assumes inv: "revision_store_inv sha s" shows "distinct (root # history_of s root)"
proof -
  have "distinct (history_of s root)"
    unfolding history_of_def chain_def by (rule distinct_new_filter) (use inv in \<open>simp add: revision_store_inv_def\<close>)
  moreover have "root \<notin> set (history_of s root)"
    using root_not_in_history [OF inv, of root root] chain_nonempty_history [OF inv, of root]
    by (cases "chain s root = []") simp_all
  ultimately show ?thesis by simp
qed

lemma last_not_in_butlast: "distinct (xs :: 'a list) \<Longrightarrow> last xs \<notin> set (butlast xs)"
  by (induction xs rule: rev_induct) auto

text \<open>A parent that is the tip of its history has no revision yet.\<close>

lemma tip_not_parent:
  assumes inv: "revision_store_inv sha s" and may: "may_revise s r" and x: "x \<in> set (db_revisions s)"
  shows "rv_parent x \<noteq> rv_parent r"
proof
  assume eq: "rv_parent x = rv_parent r"
  let ?h = "\<lambda>root. root # history_of s root"
  have pr: "rv_parent r = last (?h (rv_root r))" using may by (simp add: may_revise_def)
  show False
  proof (cases "rv_root x = rv_root r")
    case True
    have "x \<in> set (chain s (rv_root r))" using x True by (simp add: chain_def)
    moreover have "map rv_parent (chain s (rv_root r)) = butlast (?h (rv_root r))"
      using inv by (simp add: revision_store_inv_def linked_def history_of_def)
    ultimately have "rv_parent x \<in> set (butlast (?h (rv_root r)))" by (metis image_eqI list.set_map)
    then show False using last_not_in_butlast [OF history_distinct [OF inv, of "rv_root r"]] eq pr by simp
  next
    case False
    have px: "rv_parent r \<in> set (?h (rv_root x))" using chain_parent [OF inv x] eq by simp
    have tip: "rv_parent r \<in> set (?h (rv_root r))" unfolding pr by (rule last_in_set) simp
    have nx: "rv_root x \<notin> set (history_of s (rv_root r))"
      by (rule root_not_in_history [OF inv]) (use x in \<open>auto simp: chain_def filter_empty_conv\<close>)
    have nr: "rv_root r \<notin> set (history_of s (rv_root x))" using may by (simp add: may_revise_def)
    show False using px tip nx nr False histories_disjoint [OF inv, of "rv_parent r" "rv_root x" "rv_root r"] by auto
  qed
qed

lemma fresh_intent:
  assumes "rows_wellformed s" shows "get_by_idempotency s d = Inr None \<longleftrightarrow> \<not> list_ex (\<lambda>x. rv_idempotency x = d) (db_revisions s)"
  using assms by (auto simp: get_by_idempotency_def row_where_wellformed find_None_iff list_ex_iff)

lemma transaction_checks:
  assumes inv: "revision_store_inv sha s" and n: "rv_new_decision r = Some n" and root: "len_ok 200 (rv_root r)"
  shows "may_revise s r \<longleftrightarrow> n \<noteq> rv_root r \<and> n \<noteq> rv_parent r \<and>
    \<not> list_ex (\<lambda>x. rv_root x = n \<or> rv_parent x = n \<or> rv_new_decision x = Some n) (db_revisions s) \<and>
    \<not> list_ex (\<lambda>x. rv_new_decision x = Some (rv_root r)) (db_revisions s) \<and>
    rv_index r = int (length (chain s (rv_root r))) + 1 \<and>
    (if chain s (rv_root r) = [] then rv_root r = rv_parent r
     else rv_new_decision (last (chain s (rv_root r))) = Some (rv_parent r))"
proof -
  have tip: "(if chain s (rv_root r) = [] then rv_root r = rv_parent r
       else rv_new_decision (last (chain s (rv_root r))) = Some (rv_parent r)) \<longleftrightarrow>
     rv_parent r = last (rv_root r # history_of s (rv_root r))"
    using chain_facts(2) [OF inv] chain_nonempty_history [OF inv] by auto
  have nr: "\<not> list_ex (\<lambda>x. rv_new_decision x = Some (rv_root r)) (db_revisions s) \<longleftrightarrow>
     (\<forall>root. rv_root r \<notin> set (history_of s root))"
    by (auto simp: list_ex_iff history_set)
  have np: "n \<noteq> rv_parent r"
    if "n \<noteq> rv_root r" "\<not> linked_decision s n" "rv_parent r = last (rv_root r # history_of s (rv_root r))"
    using that chain_nonempty_history [OF inv, of "rv_root r"] last_in_set [of "history_of s (rv_root r)"]
    by (auto simp: linked_decision_def split: if_splits)
  show ?thesis unfolding tip nr may_revise_def n
    using np linked_decision_rows [OF inv, of n] chain_facts(1) [OF inv, of "rv_root r"] by (auto simp: list_ex_iff)
qed

text \<open>When a transaction appends, and what it leaves.\<close>

definition appended :: "revision \<Rightarrow> revision_store \<Rightarrow> revision_store" where
  "appended r s = s\<lparr>db_revisions := db_revisions s @ [r], db_events := db_events s @ map (event_for r) event_types\<rparr>"

lemma transaction_created:
  assumes inv: "revision_store_inv sha s" and r: "row_sound sha r" and n: "rv_new_decision r = Some n"
  shows "revision_transaction r n s = Inr (r', True, s') \<longleftrightarrow>
    r' = r \<and> s' = appended r s \<and> may_revise s r \<and>
    \<not> list_ex (\<lambda>x. rv_idempotency x = rv_idempotency r \<or> rv_id x = rv_id r) (db_revisions s)"
proof -
  have wf: "rows_wellformed s" and wr: "wellformed_row r" and root: "len_ok 200 (rv_root r)"
    using inv r by (auto simp: row_sound_def wellformed_row_def revision_ok_def revision_fields_ok_def)
  note gi = get_by_idempotency_def row_where_wellformed [OF wf]
  have not_open: "\<not> list_ex (\<lambda>x. rv_status x = R_open) (chain s (rv_root r))"
    using chain_facts(3) [OF inv] by (auto simp: list_all_iff list_ex_iff row_sound_def)
  have tip: "\<not> list_ex (\<lambda>x. rv_parent x = rv_parent r) (db_revisions s)" if "may_revise s r"
    using tip_not_parent [OF inv that] by (auto simp: list_ex_iff)
  show ?thesis
  proof (cases "find (\<lambda>x. rv_idempotency x = rv_idempotency r) (db_revisions s)")
    case (Some x)
    then have "list_ex (\<lambda>x. rv_idempotency x = rv_idempotency r) (db_revisions s)"
      by (auto simp: find_Some_iff list_ex_iff)
    then show ?thesis using Some by (auto simp: revision_transaction_def gi list_ex_iff)
  next
    case None
    then have fresh: "\<not> list_ex (\<lambda>x. rv_idempotency x = rv_idempotency r) (db_revisions s)"
      by (auto simp: find_None_iff list_ex_iff)
    show ?thesis
    proof (cases "may_revise s r")
      case True
      note chk = True [unfolded transaction_checks [OF inv n root]]
      have "revision_transaction r n s = ebind (insert_revision r s) (\<lambda>s'. Inr (r, True, s'))"
        using None chk not_open tip [OF True]
        by (auto simp: revision_transaction_def gi list_for_root_chain [OF inv] guarded_def)
      also have "\<dots> = (if list_ex (\<lambda>x. rv_id x = rv_id r) (db_revisions s) then Inl NativeError else Inr (r, True, appended r s))"
        using insert_refused_iff [OF inv True fresh tip [OF True]]
        by (simp add: insert_revision_def events_for_wellformed [OF wr] appended_def)
      finally show ?thesis using True fresh by (auto simp: list_ex_iff)
    next
      case False
      note chk = False [unfolded transaction_checks [OF inv n root]]
      have "revision_transaction r n s \<noteq> Inr (r', True, s')"
        using None chk
        by (auto simp: revision_transaction_def gi list_for_root_chain [OF inv] guarded_def split: if_splits)
      then show ?thesis using False by simp
    qed
  qed
qed

lemma transaction_kept:
  assumes "rows_wellformed s" "revision_transaction r n s = Inr (r', False, s')"
  shows "s' = s \<and> find (\<lambda>x. rv_idempotency x = rv_idempotency r) (db_revisions s) = Some r'"
  using assms
  by (auto simp: revision_transaction_def get_by_idempotency_def row_where_wellformed guarded_def insert_revision_def
      split: option.splits if_splits)

lemma create_iff:
  "create_resolved_or_get sha raw s = Inr w \<longleftrightarrow>
    (\<exists>r n. prepared sha raw r \<and> rv_new_decision r = Some n \<and> revision_transaction r n s = Inr w)"
proof
  assume "create_resolved_or_get sha raw s = Inr w"
  then show "\<exists>r n. prepared sha raw r \<and> rv_new_decision r = Some n \<and> revision_transaction r n s = Inr w"
    by (auto simp: create_resolved_or_get_def ebind_Inr_iff safe_parse_Inr prepared_def row_sound_def parse_revision_iff)
next
  assume "\<exists>r n. prepared sha raw r \<and> rv_new_decision r = Some n \<and> revision_transaction r n s = Inr w"
  then obtain r n x where a: "raw = Shaped x" "parse_revision x = Some r" "row_sound sha r" "rv_new_decision r = Some n"
    "revision_transaction r n s = Inr w" by (auto simp: prepared_def)
  then show "create_resolved_or_get sha raw s = Inr w"
    by (auto simp: create_resolved_or_get_def safe_parse_def row_sound_def alien_def)
qed

lemma chain_appended: "chain (appended r s) root = chain s root @ (if rv_root r = root then [r] else [])"
  by (simp add: chain_def appended_def)

lemma history_appended:
  "rv_new_decision r = Some n \<Longrightarrow> history_of (appended r s) = (history_of s)(rv_root r := history_of s (rv_root r) @ [n])"
  by (rule ext) (simp add: history_of_def chain_appended)

lemma linked_append:
  assumes inv: "revision_store_inv sha s" and may: "may_revise s r" and n: "rv_new_decision r = Some n"
  shows "linked root (chain (appended r s) root)"
proof (cases "rv_root r = root")
  case True
  have l: "linked root (chain s root)" using inv by (simp add: revision_store_inv_def)
  have len: "length (history_of s root) = length (chain s root)" by (rule chain_facts(1) [OF inv])
  have "[1..int (length (chain s root)) + 1] = [1..int (length (chain s root))] @ [int (length (chain s root)) + 1]"
    using upto_rec2 [of 1 "int (length (chain s root)) + 1"] by simp
  moreover have "butlast (root # history_of s root @ [n]) = butlast (root # history_of s root) @ [last (root # history_of s root)]"
    by (metis append_Cons append_butlast_last_id butlast_snoc list.distinct(1))
  ultimately show ?thesis using l len may True n
    by (auto simp: linked_def chain_appended may_revise_def history_of_def [symmetric] add.commute)
next
  case False
  then show ?thesis using inv by (simp add: chain_appended revision_store_inv_def)
qed

lemma inv_appended:
  assumes inv: "revision_store_inv sha s" and may: "may_revise s r" and r: "row_sound sha r"
    and fresh: "\<not> list_ex (\<lambda>x. rv_idempotency x = rv_idempotency r \<or> rv_id x = rv_id r) (db_revisions s)"
  shows "revision_store_inv sha (appended r s)"
proof -
  obtain n d where n: "rv_new_decision r = Some n" by (rule decided_new [OF r])
  then have nn: "n \<noteq> rv_root r" "\<not> linked_decision s n" "\<forall>root. rv_root r \<notin> set (history_of s root)"
    using may by (auto simp: may_revise_def)
  have "n \<notin> set (new_decisions (db_revisions s))" "\<forall>y \<in> set (db_revisions s). n \<noteq> rv_root y"
    using nn(2) linked_decision_rows [OF inv] by (auto simp: set_new_decisions)
  moreover have "\<forall>x \<in> set (db_revisions s). rv_new_decision x \<noteq> Some (rv_root r)"
    using nn(3) by (auto simp: history_set)
  ultimately show ?thesis
    using inv r fresh n nn(1) linked_append [OF inv may n]
    by (auto simp: revision_store_inv_def appended_def list_ex_iff)
qed

lemma create_preserves:
  assumes inv: "revision_store_inv sha s" and c: "create_resolved_or_get sha raw s = Inr (r', b, s')"
  shows "revision_store_inv sha s'"
proof -
  obtain r n where r: "prepared sha raw r" "rv_new_decision r = Some n" "revision_transaction r n s = Inr (r', b, s')"
    using c unfolding create_iff by blast
  have rs: "row_sound sha r" using r(1) by (simp add: prepared_def)
  show ?thesis
  proof (cases b)
    case True
    then show ?thesis using r(3) transaction_created [OF inv rs r(2)] inv_appended [OF inv _ rs] by auto
  next
    case False
    then show ?thesis using r(3) transaction_kept [OF inv_wellformed [OF inv]] inv by auto
  qed
qed

inductive revision_reachable :: "(string \<Rightarrow> string) \<Rightarrow> revision_store \<Rightarrow> bool" for sha where
  start: "revision_reachable sha empty_revision_store"
| created: "revision_reachable sha s \<Longrightarrow> create_resolved_or_get sha raw s = Inr (r, b, s') \<Longrightarrow> revision_reachable sha s'"

lemma empty_store_inv: "revision_store_inv sha empty_revision_store"
  by (simp add: revision_store_inv_def empty_revision_store_def linked_def chain_def)

lemma revision_reachable_inv: "revision_reachable sha s \<Longrightarrow> revision_store_inv sha s"
  by (induction rule: revision_reachable.induct) (auto simp: empty_store_inv intro: create_preserves)

lemma find_distinct: "distinct (map f xs) \<Longrightarrow> x \<in> set xs \<Longrightarrow> find (\<lambda>y. f y = f x) xs = Some x"
  by (induction xs) (auto simp: image_iff)

section \<open>Properties of the store\<close>

text \<open>C25: Decision histories are linear. In every state of the store, reading the revisions of a root succeeds and
  gives them with the indices 1, 2, ..., all decided, the parent of each being the decision before it. A decision
  occurs once in the history of its root and in no other history, and no derived decision is a root.\<close>

theorem revision_chains_linear:
  assumes "revision_reachable sha s"
  shows "\<exists>ch. list_for_root s root = Inr ch \<and> map rv_index ch = [1..int (length ch)] \<and>
    list_all (\<lambda>r. rv_status r = R_decided) ch \<and> map rv_parent ch = butlast (root # history_of s root) \<and>
    length (history_of s root) = length ch \<and> distinct (root # history_of s root) \<and>
    (\<forall>other. other \<noteq> root \<longrightarrow> set (history_of s other) \<inter> set (history_of s root) = {}) \<and>
    (\<forall>other. history_of s root \<noteq> [] \<longrightarrow> root \<notin> set (history_of s other))"
proof -
  have inv: "revision_store_inv sha s" by (rule revision_reachable_inv [OF assms])
  have "linked root (chain s root)" using inv by (simp add: revision_store_inv_def)
  moreover have "list_all (\<lambda>r. rv_status r = R_decided) (chain s root)"
    using chain_facts(3) [OF inv] by (auto simp: list_all_iff row_sound_def)
  ultimately show ?thesis
    using list_for_root_chain [OF inv, of root] chain_facts(1) [OF inv, of root] history_distinct [OF inv, of root]
      histories_disjoint [OF inv] root_not_in_history [OF inv, of root] chain_nonempty_history [OF inv, of root]
    by (auto simp: linked_def history_of_def [symmetric])
qed

text \<open>A creation either finds the stored revision of its intent or follows the abstract rule.\<close>

lemma creation_found:
  assumes "revision_store_inv sha s" "create_resolved_or_get sha raw s = Inr (r', False, s')"
  shows "s' = s \<and> r' \<in> set (db_revisions s)"
proof -
  obtain r n where "revision_transaction r n s = Inr (r', False, s')"
    using assms(2) unfolding create_iff by blast
  from transaction_kept [OF inv_wellformed [OF assms(1)] this] show ?thesis by (auto simp: find_Some_iff)
qed

lemma creation_exact:
  assumes "revision_reachable sha s" and "prepared sha raw r"
    and "\<not> list_ex (\<lambda>x. rv_idempotency x = rv_idempotency r \<or> rv_id x = rv_id r) (db_revisions s)"
  shows "case create_resolved_or_get sha raw s of
      Inr (r', created, s') \<Rightarrow> created \<and> r' = r \<and> may_revise s r \<and>
        (\<exists>n. rv_new_decision r = Some n \<and> history_of s' = (history_of s)(rv_root r := history_of s (rv_root r) @ [n]))
    | Inl e \<Rightarrow> \<not> may_revise s r"
proof -
  have inv: "revision_store_inv sha s" by (rule revision_reachable_inv [OF assms(1)])
  have rs: "row_sound sha r" using assms(2) by (simp add: prepared_def)
  obtain n d where n: "rv_new_decision r = Some n" by (rule decided_new [OF rs])
  have uniq: "q = r" if "prepared sha raw q" for q using that assms(2) by (auto simp: prepared_def)
  have not_kept: "revision_transaction r n s \<noteq> Inr (r', False, s')" for r' s'
    using transaction_kept [OF inv_wellformed [OF inv], of r n r' s'] assms(3) by (auto simp: find_Some_iff list_ex_iff)
  show ?thesis
  proof (cases "create_resolved_or_get sha raw s")
    case (Inl e)
    have "\<not> may_revise s r"
    proof
      assume "may_revise s r"
      then have "revision_transaction r n s = Inr (r, True, appended r s)"
        using transaction_created [OF inv rs n] assms(3) by simp
      then have "create_resolved_or_get sha raw s = Inr (r, True, appended r s)"
        unfolding create_iff using assms(2) n by blast
      then show False using Inl by simp
    qed
    then show ?thesis using Inl by simp
  next
    case (Inr w)
    obtain r' b s' where w: "w = (r', b, s')" by (cases w)
    have t: "revision_transaction r n s = Inr (r', b, s')" using Inr w uniq n unfolding create_iff by auto
    then have b: "b" using not_kept by (cases b) auto
    show ?thesis using t b transaction_created [OF inv rs n] history_appended [OF n] n Inr w by auto
  qed
qed

text \<open>C24: The store refines the abstract rule of decision histories. Take any reachable store. A creation that reports
  an existing revision reports one that is stored and changes nothing, whatever the record. Now take a record that the
  service has prepared: it parses into a decided revision whose context digest and intent digest are those of its content. If its revision id and its
  intent are unused, then it is created exactly when the abstract rule allows it: the parent is the tip of the
  history of its root, the index is the next one, the root is not itself a derived decision and the new decision is in no
  history. The creation appends the new decision to the history of its root and changes no other history.\<close>

theorem creation_refines_histories:
  assumes "revision_reachable sha s"
  shows "(\<forall>r' s'. create_resolved_or_get sha raw s = Inr (r', False, s') \<longrightarrow> s' = s \<and> r' \<in> set (db_revisions s)) \<and>
    (\<forall>r. prepared sha raw r \<longrightarrow> \<not> list_ex (\<lambda>x. rv_idempotency x = rv_idempotency r \<or> rv_id x = rv_id r) (db_revisions s) \<longrightarrow>
      (case create_resolved_or_get sha raw s of
        Inr (r', created, s') \<Rightarrow> created \<and> r' = r \<and> may_revise s r \<and>
          (\<exists>n. rv_new_decision r = Some n \<and> history_of s' = (history_of s)(rv_root r := history_of s (rv_root r) @ [n]))
      | Inl e \<Rightarrow> \<not> may_revise s r))"
proof (intro conjI allI impI)
  fix r' s' assume "create_resolved_or_get sha raw s = Inr (r', False, s')"
  then show "s' = s" "r' \<in> set (db_revisions s)" using creation_found [OF revision_reachable_inv [OF assms]] by blast+
next
  fix r assume "prepared sha raw r" "\<not> list_ex (\<lambda>x. rv_idempotency x = rv_idempotency r \<or> rv_id x = rv_id r) (db_revisions s)"
  then show "case create_resolved_or_get sha raw s of
      Inr (r', created, s') \<Rightarrow> created \<and> r' = r \<and> may_revise s r \<and>
        (\<exists>n. rv_new_decision r = Some n \<and> history_of s' = (history_of s)(rv_root r := history_of s (rv_root r) @ [n]))
    | Inl e \<Rightarrow> \<not> may_revise s r"
    by (rule creation_exact [OF assms])
qed

text \<open>A repeated reopen is idempotent. Once a revision has been created or found, any later creation with the same
  intent, whatever its ids, context and outcome, returns the stored revision, reports that nothing was created and
  leaves the store as it is, however many other revisions were created in between.\<close>


lemma repeated_reopen_idempotent:
  assumes "revision_reachable sha s" "x \<in> set (db_revisions s)" "prepared sha raw r" "rv_idempotency r = rv_idempotency x"
  shows "create_resolved_or_get sha raw s = Inr (x, False, s)"
proof -
  have inv: "revision_store_inv sha s" by (rule revision_reachable_inv [OF assms(1)])
  have rs: "row_sound sha r" using assms(3) by (simp add: prepared_def)
  obtain n d where n: "rv_new_decision r = Some n" by (rule decided_new [OF rs])
  have "distinct (map rv_idempotency (db_revisions s))" using inv by (simp add: revision_store_inv_def)
  then have "find (\<lambda>y. rv_idempotency y = rv_idempotency x) (db_revisions s) = Some x"
    using assms(2) by (rule find_distinct)
  then have "revision_transaction r n s = Inr (x, False, s)"
    using assms(4) by (simp add: revision_transaction_def get_by_idempotency_def row_where_wellformed [OF inv_wellformed [OF inv]])
  then show ?thesis unfolding create_iff using assms(3) n by blast
qed

lemma new_decisions_map:
  assumes "list_all (row_sound sha) rs" shows "map rv_new_decision rs = map Some (new_decisions rs)"
  using assms
proof (induction rs)
  case (Cons r rs)
  then obtain n where "rv_new_decision r = Some n" by (auto elim: decided_new)
  then show ?case using Cons by (simp add: new_decisions_Cons)
qed simp

text \<open>The lookup by derived decision, and its stability: a parent that is looked up in a store with a revision of it is
  looked up the same in every later store that has kept the rows.\<close>

lemma get_for_new_decision_inv:
  assumes "revision_store_inv sha s"
  shows "get_for_new_decision s d = Inr (find (\<lambda>r. rv_new_decision r = Some d) (db_revisions s))"
  by (simp add: get_for_new_decision_def row_where_wellformed [OF inv_wellformed [OF assms]])

lemma find_derived:
  assumes "revision_store_inv sha s" "x \<in> set (db_revisions s)" "rv_new_decision x = Some d"
  shows "find (\<lambda>r. rv_new_decision r = Some d) (db_revisions s) = Some x"
proof -
  have "map rv_new_decision (db_revisions s) = map Some (new_decisions (db_revisions s))"
    using assms(1) by (intro new_decisions_map [of sha]) (simp add: revision_store_inv_def)
  moreover have "distinct (map Some (new_decisions (db_revisions s)))"
    using assms(1) by (simp add: revision_store_inv_def distinct_map)
  ultimately have "distinct (map rv_new_decision (db_revisions s))" by simp
  from find_distinct [OF this assms(2)] show ?thesis by (simp add: assms(3))
qed

lemma get_for_new_decision_later:
  assumes inv: "revision_store_inv sha s" "revision_store_inv sha u" and sub: "set (db_revisions s) \<subseteq> set (db_revisions u)"
    and x: "x \<in> set (db_revisions s)"
  shows "get_for_new_decision u (rv_parent x) = get_for_new_decision s (rv_parent x)"
proof (cases "find (\<lambda>r. rv_new_decision r = Some (rv_parent x)) (db_revisions s)")
  case (Some y)
  then have y: "y \<in> set (db_revisions s)" "rv_new_decision y = Some (rv_parent x)" by (auto simp: find_Some_iff)
  then show ?thesis using find_derived [OF inv(2), of y] sub Some
    by (auto simp: get_for_new_decision_inv [OF inv(1)] get_for_new_decision_inv [OF inv(2)])
next
  case None
  then have "rv_parent x \<notin> set (history_of s (rv_root x))" by (auto simp: find_None_iff history_set)
  then have "rv_parent x = rv_root x" using chain_parent [OF inv(1) x] by simp
  moreover have "rv_new_decision z \<noteq> Some (rv_root x)" if "z \<in> set (db_revisions u)" for z
    using inv(2) that x sub by (auto simp: revision_store_inv_def)
  ultimately have "find (\<lambda>r. rv_new_decision r = Some (rv_parent x)) (db_revisions u) = None"
    by (auto simp: find_None_iff)
  then show ?thesis using None by (simp add: get_for_new_decision_inv [OF inv(1)] get_for_new_decision_inv [OF inv(2)])
qed

lemma get_by_idempotency_later:
  assumes "revision_store_inv sha u" "x \<in> set (db_revisions u)"
  shows "get_by_idempotency u (rv_idempotency x) = Inr (Some x)"
proof -
  have "distinct (map rv_idempotency (db_revisions u))" using assms(1) by (simp add: revision_store_inv_def)
  then show ?thesis using find_distinct [OF _ assms(2), of rv_idempotency]
    by (simp add: get_by_idempotency_def row_where_wellformed [OF inv_wellformed [OF assms(1)]])
qed

lemma projection_start:
  assumes inv: "revision_store_inv sha s" and h: "history_of s root \<noteq> []" and d: "d \<in> set (root # history_of s root)"
  shows "store_projection s d = projection_of_chain root (chain s root)"
proof -
  have wf: "rows_wellformed s" by (rule inv_wellformed [OF inv])
  have ch: "chain s root \<noteq> []" using h chain_nonempty_history [OF inv] by blast
  show ?thesis
  proof (cases "find (\<lambda>r. rv_new_decision r = Some d) (db_revisions s)")
    case (Some x)
    then have x: "x \<in> set (db_revisions s)" "rv_new_decision x = Some d" by (auto simp: find_Some_iff)
    have hx: "d \<in> set (history_of s (rv_root x))" by (rule chain_new_mem [OF x])
    have "d \<noteq> root" using hx root_not_in_history [OF inv ch] by blast
    then have "rv_root x = root" using hx d histories_disjoint [OF inv] by auto
    then show ?thesis using Some
      by (simp add: store_projection_def get_for_new_decision_def row_where_wellformed [OF wf] list_for_root_chain [OF inv])
  next
    case None
    then have "d \<notin> set (history_of s root)" by (auto simp: find_None_iff history_set)
    then have dr: "d = root" using d by simp
    have par: "rv_root y = root" if "y \<in> set (db_revisions s)" "rv_parent y = root" for y
      using chain_parent [OF inv that(1)] that(2) root_not_in_history [OF inv ch] by auto
    have "map rv_parent (chain s root) = butlast (root # history_of s root)"
      using inv by (simp add: revision_store_inv_def linked_def history_of_def)
    then have "root \<in> set (map rv_parent (chain s root))" using h by simp
    then obtain z where z: "z \<in> set (db_revisions s)" "rv_parent z = root" by (auto simp: chain_def)
    have "z \<in> set (rows_by_index (\<lambda>r. rv_parent r = d) s)" using z dr by (simp add: rows_by_index_def)
    then obtain y ys where y: "rows_by_index (\<lambda>r. rv_parent r = d) s = y # ys"
      by (cases "rows_by_index (\<lambda>r. rv_parent r = d) s") auto
    have "y \<in> set (rows_by_index (\<lambda>r. rv_parent r = d) s)" using y by simp
    then have y': "y \<in> set (db_revisions s)" "rv_parent y = root" using dr by (auto simp: rows_by_index_def)
    then have "wellformed_row y" using wf by (simp add: rows_wellformed_def list_all_iff)
    then show ?thesis using None y par [OF y']
      by (simp add: store_projection_def get_for_new_decision_def row_where_wellformed [OF wf] list_for_root_chain [OF inv])
  qed
qed

lemma projection_unlinked:
  assumes inv: "revision_store_inv sha s" and d: "\<not> linked_decision s d"
  shows "store_projection s d = Inr None"
proof -
  have "find (\<lambda>r. rv_new_decision r = Some d) (db_revisions s) = None" "filter (\<lambda>r. rv_parent r = d) (db_revisions s) = []"
    using d linked_decision_rows [OF inv, of d] by (auto simp: find_None_iff filter_empty_conv)
  then show ?thesis
    by (simp add: store_projection_def get_for_new_decision_def row_where_wellformed [OF inv_wellformed [OF inv]] rows_by_index_def)
qed

text \<open>C28: The projection of a decision shows the tip of its history. For the root of a history and for each decision
  derived from it the store returns the same projection: the root, the latest decision as current, the number of
  revisions as index and count, the last fifty decisions of the history, marked as truncated when there are more, and
  at most fifty delta entries and outcome reasons. A decision of no history has no projection. No read reports a
  corrupt row.\<close>

theorem projection_shows_tip:
  assumes "revision_reachable sha s"
  shows "if \<exists>root. history_of s root \<noteq> [] \<and> d \<in> set (root # history_of s root)
    then \<exists>root p. d \<in> set (root # history_of s root) \<and> store_projection s d = Inr (Some p) \<and> rp_root p = root \<and>
      rp_current p = last (history_of s root) \<and> rp_index p = int (length (history_of s root)) \<and>
      rp_count p = length (history_of s root) \<and> map he_new (rp_history p) = map Some (slice_last 50 (history_of s root)) \<and>
      rp_truncated p = (50 < length (history_of s root)) \<and> length (rp_delta p) \<le> 50 \<and> length (rp_reasons p) \<le> 50
    else store_projection s d = Inr None"
proof -
  have inv: "revision_store_inv sha s" by (rule revision_reachable_inv [OF assms])
  show ?thesis
  proof (cases "\<exists>root. history_of s root \<noteq> [] \<and> d \<in> set (root # history_of s root)")
    case True
    then obtain root where h: "history_of s root \<noteq> []" and d: "d \<in> set (root # history_of s root)" by (elim exE conjE)
    have ch: "chain s root \<noteq> []" and all: "list_all (row_sound sha) (chain s root)"
      and len: "length (history_of s root) = length (chain s root)"
      using h chain_nonempty_history [OF inv] chain_facts [OF inv] by auto
    then obtain ys y where y: "chain s root = ys @ [y]" by (metis append_butlast_last_id)
    have sy: "row_sound sha y" using all y by simp
    obtain n disp where n: "rv_new_decision y = Some n" "rv_disposition y = Some disp" by (rule decided_new [OF sy])
    have last: "last (history_of s root) = n" using y n by (simp add: history_of_def)
    have "linked root (chain s root)" using inv by (simp add: revision_store_inv_def)
    then have "last (map rv_index (chain s root)) = last [1..int (length (chain s root))]" by (simp add: linked_def)
    moreover have "last [1..int (length (chain s root))] = int (length (chain s root))"
      using ch upto_rec2 [of 1 "int (length (chain s root))"] by (cases "chain s root") auto
    ultimately have ix: "rv_index y = int (length (history_of s root))" using y len by simp
    have hist: "map he_new (map history_entry_of (slice_last 50 (chain s root))) = map Some (slice_last 50 (history_of s root))"
      using new_decisions_map [OF all] len
      by (simp add: slice_last_def history_entry_of_def comp_def drop_map [symmetric] history_of_def)
    have tr: "(length (slice_last 50 (chain s root)) < length (chain s root)) = (50 < length (history_of s root))"
      using len by (auto simp: slice_last_def)
    have "\<exists>p. store_projection s d = Inr (Some p) \<and> rp_root p = root \<and>
      rp_current p = last (history_of s root) \<and> rp_index p = int (length (history_of s root)) \<and>
      rp_count p = length (history_of s root) \<and> map he_new (rp_history p) = map Some (slice_last 50 (history_of s root)) \<and>
      rp_truncated p = (50 < length (history_of s root)) \<and> length (rp_delta p) \<le> 50 \<and> length (rp_reasons p) \<le> 50"
      using projection_start [OF inv h d] y n last ix hist tr len
      by (simp add: projection_of_chain_def projection_limit_def Let_def)
    then show ?thesis using True d by auto
  next
    case False
    then have "\<not> linked_decision s d"
      using chain_nonempty_history [OF inv] by (auto simp: linked_decision_def)
    then show ?thesis using projection_unlinked [OF inv] False by simp
  qed
qed

section \<open>A sample chain\<close>

definition sample_original :: original_snapshot where
  "sample_original = \<lparr>on_decision_id = ''decision-1'',
     on_plan = \<lparr>op_plan_id = ''plan-00000001'', op_semantics_digest = sample_sha [], op_capability_id = ''git.branch.create'',
       op_capability_version = ''1.0.0'', op_adapter_id = ''git-local'', op_inputs_digest = sample_sha [],
       op_risk = \<lparr>risk_level = Low, risk_reversible = True, risk_side_effect_class = Reversible_write,
         risk_required_authority = L2, risk_capability_version = ''1.0.0''\<rparr>,
       op_state = ''ready'', op_approval_id = None, op_request_id = None\<rparr>,
     on_evidence = \<lparr>oe_guard_run_id = ''run-1'', oe_coverage = [], oe_digest = sample_sha [], oe_qualified = []\<rparr>,
     on_outcome = \<lparr>ro_outcome_id = Some ''out-1'', ro_status = Some V_mismatch, ro_revisit = True, ro_receipt_id = None,
       ro_receipt_digest = None, ro_expected_digest = None, ro_observation_digest = None, ro_observation_id = None,
       ro_expected = None, ro_observed = None, ro_reasons = []\<rparr>\<rparr>"

definition sample_doc :: revision_doc where
  "sample_doc = \<lparr>dc_root = ''decision-1'', dc_parent = ''decision-1'', dc_original = sample_original,
     dc_trigger = T_mismatch, dc_outcome_id = Some ''out-1'', dc_reason = ''drift'',
     dc_current = \<lparr>ce_guard_run_id = ''run-2'', ce_action = Defer, ce_subject = ''repo:a'', ce_coverage = [],
       ce_digest = sample_sha [], ce_qualified = [], ce_reasons = []\<rparr>,
     dc_delta = [], dc_kernel_id = decision_kernel_id\<rparr>"

definition sample_revision :: revision where
  "sample_revision = \<lparr>rv_id = ''rev-00000001'', rv_root = ''decision-1'', rv_parent = ''decision-1'', rv_index = 1,
     rv_trigger = T_mismatch, rv_outcome_id = Some ''out-1'', rv_reason = ''drift'', rv_requested_by = ''local-owner'',
     rv_authorized_by = ''local-owner'', rv_opened_at = Iso 1000, rv_status = R_decided, rv_context_digest = sample_sha [],
     rv_context = sample_doc, rv_new_decision = Some ''decision-2'', rv_disposition = Some D_defer, rv_new_plan = None,
     rv_resolved_at = Some (Iso 1000), rv_idempotency = sample_sha []\<rparr>"

definition sample_chain :: revision_store where
  "sample_chain = appended sample_revision empty_revision_store"

lemma sample_wellformed: "wellformed_row sample_revision"
  unfolding wellformed_row_def by code_simp

lemma sample_row_sound: "row_sound sample_sha sample_revision"
proof -
  have "is_json_safe (doc_json (rv_context sample_revision))" by code_simp
  moreover have "is_json_safe (intent_json r p t i x a)" for r p t i x a by (simp add: intent_json_def)
  ultimately show ?thesis using sample_wellformed
    by (simp add: row_sound_def intent_digest_def json_digest_Inr sha256_hex_def sample_sha_def sample_revision_def)
qed

lemma sample_may_revise: "may_revise empty_revision_store sample_revision"
  by (simp add: may_revise_def history_of_def chain_def empty_revision_store_def sample_revision_def linked_decision_def)

lemma sample_prepared: "prepared sample_sha (Shaped sample_revision) sample_revision"
  using sample_row_sound by (auto simp: prepared_def parse_revision_iff row_sound_def wellformed_row_def)

lemma sample_created: "create_resolved_or_get sample_sha (Shaped sample_revision) empty_revision_store = Inr (sample_revision, True, sample_chain)"
proof -
  have n: "rv_new_decision sample_revision = Some ''decision-2''" by (simp add: sample_revision_def)
  have "revision_transaction sample_revision ''decision-2'' empty_revision_store = Inr (sample_revision, True, sample_chain)"
    using transaction_created [OF empty_store_inv sample_row_sound n] sample_may_revise
    by (simp add: sample_chain_def empty_revision_store_def)
  then show ?thesis unfolding create_iff using sample_prepared n by blast
qed

lemma sample_chain_reachable: "revision_reachable sample_sha sample_chain"
  by (rule revision_reachable.created [OF revision_reachable.start sample_created])

lemma sample_history: "history_of sample_chain ''decision-1'' = [''decision-2'']"
  by code_simp

lemma revision_chains_linear_witness:
  "\<exists>ch. list_for_root sample_chain ''decision-1'' = Inr ch \<and> length ch = 1 \<and> map rv_parent ch = [''decision-1'']"
  using revision_chains_linear [OF sample_chain_reachable, of "''decision-1''"] unfolding sample_history
  by (elim exE conjE) (rule exI, rule conjI, assumption, simp)

lemma creation_refines_histories_witness:
  "case create_resolved_or_get sample_sha (Shaped sample_revision) empty_revision_store of
     Inr (r', created, s') \<Rightarrow> created \<and> history_of s' ''decision-1'' = [''decision-2''] | Inl e \<Rightarrow> False"
  using creation_refines_histories [OF revision_reachable.start, of sample_sha "Shaped sample_revision", THEN conjunct2,
      rule_format, OF sample_prepared] sample_created
  by (simp add: empty_revision_store_def sample_history)

lemma projection_shows_tip_witness:
  "\<exists>root p. ''decision-1'' \<in> set (root # history_of sample_chain root) \<and>
     store_projection sample_chain ''decision-1'' = Inr (Some p) \<and> rp_root p = root"
proof -
  have "\<exists>root. history_of sample_chain root \<noteq> [] \<and> ''decision-1'' \<in> set (root # history_of sample_chain root)"
    using sample_history by (intro exI [of _ "''decision-1''"]) simp
  from projection_shows_tip [OF sample_chain_reachable, of "''decision-1''", unfolded if_P [OF this]]
  show ?thesis by blast
qed

end
