(* ===== verification/Outcome_Store.thy ===== *)
theory Outcome_Store
  imports Outcome Authorization_Store
begin

text \<open>
  The persistent store of outcome records (\<open>src/brain-server/src/outcome/store.ts\<close>): creation and
  update of validated records, the in-memory store, and the file store with its lazy load, its
  index checks and its write-through. Both implement the record-store contract; the versioned
  contract below adds that an update only ever extends the record it replaces.

  The file is represented by what a reader finds in it: nothing, a text that is not a store file
  (\<open>Malformed\<close>), or a list of records. Whether the operating system completes a write is an
  argument of the operation. \<open>localeCompare\<close> is a parameter.
\<close>

section \<open>Validation and indexes\<close>

definition validate_create_outcome :: "outcome \<Rightarrow> outcome outcome_result" where
  "validate_create_outcome r = require (parse_outcome_record r) OUTCOME_TRANSITION_INVALID"

definition execution_instance_key :: "outcome \<Rightarrow> string" where
  "execution_instance_key r = oc_plan_id r @ ''|'' @ oc_receipt_id r"

definition record_observations :: "outcome \<Rightarrow> string list" where
  "record_observations r = List.map_filter va_observation_id (oc_attempts r)"

fun claim_all :: "string \<Rightarrow> string list \<Rightarrow> (string, string) jsmap \<Rightarrow> (string, string) jsmap outcome_result" where
  "claim_all i [] m = Inr m"
| "claim_all i (b # bs) m = (case map_get m b of
     None \<Rightarrow> claim_all i bs (map_set b i m)
   | Some j \<Rightarrow> if j \<noteq> i then Inl (Throws OUTCOME_STORE_CORRUPT) else claim_all i bs (map_set b i m))"

fun collect_claims :: "outcome list \<Rightarrow> (string, string) jsmap \<Rightarrow> (string, string) jsmap outcome_result" where
  "collect_claims [] m = Inr m"
| "collect_claims (r # rs) m = ebind (claim_all (oc_id r) (record_observations r) m) (collect_claims rs)"

definition collect_observation_claims :: "outcome list \<Rightarrow> (string, string) jsmap outcome_result" where
  "collect_observation_claims rs = collect_claims rs []"

definition claims_free :: "(string, string) jsmap \<Rightarrow> outcome \<Rightarrow> bool" where
  "claims_free claims r \<longleftrightarrow> list_all (\<lambda>b. map_get claims b = None \<or> map_get claims b = Some (oc_id r)) (record_observations r)"

section \<open>In-memory store\<close>

type_synonym outcome_map = "(string, outcome) jsmap"

definition os_create :: "outcome \<Rightarrow> outcome_map \<Rightarrow> outcome_map outcome_result" where
  "os_create r s =
     ebind (guarded (\<not> map_has s (oc_id r)) OUTCOME_DUPLICATE_RECORD) (\<lambda>_.
     ebind (validate_create_outcome r) (\<lambda>p.
     ebind (guarded (list_all (\<lambda>q. execution_instance_key q \<noteq> execution_instance_key p) (map_values s))
       OUTCOME_DUPLICATE_RECORD) (\<lambda>_.
       Inr (map_set (oc_id p) p s))))"

definition os_get :: "outcome_map \<Rightarrow> string \<Rightarrow> outcome option" where
  "os_get s i = map_get s i"

definition os_update :: "outcome \<Rightarrow> outcome_map \<Rightarrow> outcome_map outcome_result" where
  "os_update r s =
     ebind (require (os_get s (oc_id r)) OUTCOME_NOT_FOUND) (\<lambda>existing.
     ebind (validate_transition existing r) (\<lambda>after.
     ebind (collect_observation_claims (map_values s)) (\<lambda>claims.
     ebind (guarded (claims_free claims after) OUTCOME_DUPLICATE_OBSERVATION) (\<lambda>_.
       Inr (map_set (oc_id after) after s)))))"

definition os_list :: "(string \<Rightarrow> string \<Rightarrow> bool) \<Rightarrow> outcome_map \<Rightarrow> outcome list" where
  "os_list le s = sort_by (\<lambda>r q. le (oc_id r) (oc_id q)) (map_values s)"

section \<open>File store\<close>

record file_store =
  fs_disk :: "outcome list raw option"
  fs_memory :: outcome_map
  fs_loaded :: bool

definition new_file_store :: "outcome list raw option \<Rightarrow> file_store" where
  "new_file_store disk = \<lparr>fs_disk = disk, fs_memory = [], fs_loaded = False\<rparr>"

definition max_store_outcomes :: nat where
  "max_store_outcomes = 100000"

definition parse_store_records :: "outcome list \<Rightarrow> outcome list option" where
  "parse_store_records rs = (let ps = map norm_outcome_record rs in
     if list_all outcome_ok ps \<and> length ps \<le> max_store_outcomes \<and> distinct (map oc_id ps) then Some ps else None)"

definition parse_store_file :: "outcome list raw \<Rightarrow> outcome list outcome_result" where
  "parse_store_file contents =
     ebind (safe_parse OUTCOME_STORE_CORRUPT parse_store_records contents) (\<lambda>ps.
     ebind (guarded (list_all (\<lambda>p. parse_outcome_record p \<noteq> None) ps) OUTCOME_TRANSITION_INVALID) (\<lambda>_. Inr ps))"

fun check_instances :: "outcome list \<Rightarrow> string list \<Rightarrow> (string, string) jsmap \<Rightarrow> unit outcome_result" where
  "check_instances [] keys plans = Inr ()"
| "check_instances (r # rs) keys plans =
     ebind (guarded (execution_instance_key r \<notin> set keys) OUTCOME_STORE_CORRUPT) (\<lambda>_.
     ebind (guarded (map_get plans (oc_receipt_id r) = None \<or> map_get plans (oc_receipt_id r) = Some (oc_plan_id r))
       OUTCOME_STORE_CORRUPT) (\<lambda>_.
       check_instances rs (execution_instance_key r # keys) (map_set (oc_receipt_id r) (oc_plan_id r) plans)))"

text \<open>\<open>load\<close>: the records are put into the map before the indexes are checked; the flag is set last.\<close>

definition fs_load :: "file_store \<Rightarrow> unit outcome_result \<times> file_store" where
  "fs_load s = (if fs_loaded s then (Inr (), s) else (case fs_disk s of
     None \<Rightarrow> (Inr (), s\<lparr>fs_loaded := True\<rparr>)
   | Some contents \<Rightarrow> (case parse_store_file contents of
       Inl e \<Rightarrow> (Inl e, s)
     | Inr ps \<Rightarrow> (let s' = s\<lparr>fs_memory := fold (\<lambda>r. map_set (oc_id r) r) ps (fs_memory s)\<rparr> in
         case ebind (check_instances ps [] []) (\<lambda>_. collect_observation_claims ps) of
           Inl e \<Rightarrow> (Inl e, s')
         | Inr _ \<Rightarrow> (Inr (), s'\<lparr>fs_loaded := True\<rparr>)))))"

text \<open>
  \<open>persist\<close>: the whole map is written, sorted, to a temporary file that replaces the store file.
  Any failure, the schema's bound on the number of records included, is reported as corruption and
  leaves the old file in place.
\<close>

definition fs_persist :: "(string \<Rightarrow> string \<Rightarrow> bool) \<Rightarrow> bool \<Rightarrow> file_store \<Rightarrow> unit outcome_result \<times> file_store" where
  "fs_persist le written s = (case parse_store_records (os_list le (fs_memory s)) of
     None \<Rightarrow> (Inl (Throws OUTCOME_STORE_CORRUPT), s)
   | Some ps \<Rightarrow> if written then (Inr (), s\<lparr>fs_disk := Some (Shaped ps)\<rparr>) else (Inl (Throws OUTCOME_STORE_CORRUPT), s))"

definition fs_mutate :: "(string \<Rightarrow> string \<Rightarrow> bool) \<Rightarrow> bool \<Rightarrow> (outcome_map \<Rightarrow> outcome_map outcome_result) \<Rightarrow>
    file_store \<Rightarrow> unit outcome_result \<times> file_store" where
  "fs_mutate le written f s = (case fs_load s of (Inl e, s1) \<Rightarrow> (Inl e, s1)
     | (Inr _, s1) \<Rightarrow> (case f (fs_memory s1) of Inl e \<Rightarrow> (Inl e, s1)
       | Inr m \<Rightarrow> fs_persist le written (s1\<lparr>fs_memory := m\<rparr>)))"

definition fs_create :: "(string \<Rightarrow> string \<Rightarrow> bool) \<Rightarrow> bool \<Rightarrow> outcome \<Rightarrow> file_store \<Rightarrow> unit outcome_result \<times> file_store" where
  "fs_create le written r = fs_mutate le written (os_create r)"

definition fs_update :: "(string \<Rightarrow> string \<Rightarrow> bool) \<Rightarrow> bool \<Rightarrow> outcome \<Rightarrow> file_store \<Rightarrow> unit outcome_result \<times> file_store" where
  "fs_update le written r = fs_mutate le written (os_update r)"

definition fs_get :: "string \<Rightarrow> file_store \<Rightarrow> outcome option outcome_result \<times> file_store" where
  "fs_get i s = (case fs_load s of (Inl e, s1) \<Rightarrow> (Inl e, s1) | (Inr _, s1) \<Rightarrow> (Inr (os_get (fs_memory s1) i), s1))"

definition fs_list :: "(string \<Rightarrow> string \<Rightarrow> bool) \<Rightarrow> file_store \<Rightarrow> outcome list outcome_result \<times> file_store" where
  "fs_list le s = (case fs_load s of (Inl e, s1) \<Rightarrow> (Inl e, s1) | (Inr _, s1) \<Rightarrow> (Inr (os_list le (fs_memory s1)), s1))"

section \<open>The observation index\<close>

lemma claim_all_Inr:
  "claim_all i bs m = Inr m' \<longleftrightarrow>
     (\<forall>b \<in> set bs. map_get m b = None \<or> map_get m b = Some i) \<and> m' = fold (\<lambda>b. map_set b i) bs m"
proof (induction bs arbitrary: m)
  case (Cons b bs)
  then show ?case by (auto simp: map_get_set split: option.splits)
qed auto

lemma fold_claims: "map_get (fold (\<lambda>b. map_set b i) bs m) c = (if c \<in> set bs then Some i else map_get m c)"
  by (induction bs arbitrary: m) (auto simp: map_get_set)

lemma claim_all_Inl: "claim_all i bs m = Inl e \<Longrightarrow> e = Throws OUTCOME_STORE_CORRUPT"
  by (induction i bs m rule: claim_all.induct) (auto split: option.splits if_splits)

text \<open>Records with different ids consume different observations.\<close>

definition claims_disjoint :: "outcome list \<Rightarrow> bool" where
  "claims_disjoint rs \<longleftrightarrow> (\<forall>r \<in> set rs. \<forall>q \<in> set rs. oc_id r \<noteq> oc_id q \<longrightarrow>
     set (record_observations r) \<inter> set (record_observations q) = {})"

lemma collect_claims_Cons: "collect_claims (r # rs) m = Inr m' \<longleftrightarrow>
    (\<forall>b \<in> set (record_observations r). map_get m b = None \<or> map_get m b = Some (oc_id r)) \<and>
    collect_claims rs (fold (\<lambda>b. map_set b (oc_id r)) (record_observations r) m) = Inr m'"
  by (auto simp: ebind_Inr_iff claim_all_Inr)

declare collect_claims.simps(2) [simp del]

lemma ball_insert_symmetric:
  assumes "\<And>x y. P x y \<Longrightarrow> P y x" "P r r"
  shows "(\<forall>x \<in> insert r S. \<forall>y \<in> insert r S. P x y) \<longleftrightarrow> (\<forall>x \<in> S. \<forall>y \<in> S. P x y) \<and> (\<forall>y \<in> S. P r y)"
  using assms by blast

lemma claims_disjoint_Cons: "claims_disjoint (r # rs) \<longleftrightarrow> claims_disjoint rs \<and>
    (\<forall>q \<in> set rs. oc_id r \<noteq> oc_id q \<longrightarrow> set (record_observations r) \<inter> set (record_observations q) = {})"
  unfolding claims_disjoint_def list.set
  by (rule ball_insert_symmetric) (metis Int_commute, simp)

lemma collect_claims_owner:
  "collect_claims rs m = Inr m' \<Longrightarrow>
   map_get m' b = Some i \<longleftrightarrow> map_get m b = Some i \<or> (\<exists>r \<in> set rs. oc_id r = i \<and> b \<in> set (record_observations r))"
proof (induction rs arbitrary: m)
  case (Cons r rs)
  let ?m = "fold (\<lambda>b. map_set b (oc_id r)) (record_observations r) m"
  have m: "collect_claims rs ?m = Inr m'" "\<forall>c \<in> set (record_observations r). map_get m c = None \<or> map_get m c = Some (oc_id r)"
    using Cons.prems by (simp_all add: collect_claims_Cons)
  from Cons.IH [OF m(1)] m(2) show ?case by (auto simp: fold_claims)
qed simp

lemma collect_claims_ok:
  "(\<exists>m'. collect_claims rs m = Inr m') \<longleftrightarrow> claims_disjoint rs \<and>
   (\<forall>r \<in> set rs. \<forall>b \<in> set (record_observations r). map_get m b = None \<or> map_get m b = Some (oc_id r))"
proof (induction rs arbitrary: m)
  case Nil then show ?case by (simp add: claims_disjoint_def)
next
  case (Cons r rs)
  let ?m = "fold (\<lambda>b. map_set b (oc_id r)) (record_observations r) m"
  let ?free = "\<lambda>r m. \<forall>b \<in> set (record_observations r). map_get m b = None \<or> map_get m b = Some (oc_id r)"
  have "?free q ?m \<longleftrightarrow> (\<forall>b \<in> set (record_observations q). b \<in> set (record_observations r) \<longrightarrow> oc_id r = oc_id q) \<and>
      (\<forall>b \<in> set (record_observations q). b \<notin> set (record_observations r) \<longrightarrow> map_get m b = None \<or> map_get m b = Some (oc_id q))" for q
    unfolding fold_claims by auto
  then have "?free r m \<Longrightarrow> ?free q ?m \<longleftrightarrow> (oc_id r \<noteq> oc_id q \<longrightarrow> set (record_observations r) \<inter> set (record_observations q) = {}) \<and> ?free q m" for q
    by auto
  with Cons.IH [of ?m] show ?case unfolding collect_claims_Cons claims_disjoint_Cons by (simp, blast)
qed

lemma collect_claims_Inl: "collect_claims rs m = Inl e \<Longrightarrow> e = Throws OUTCOME_STORE_CORRUPT"
proof (induction rs arbitrary: m)
  case (Cons r rs)
  then show ?case
    by (cases "claim_all (oc_id r) (record_observations r) m") (auto simp: collect_claims.simps dest: claim_all_Inl)
qed simp

lemma observation_claims_iff: "(\<exists>m. collect_observation_claims rs = Inr m) \<longleftrightarrow> claims_disjoint rs"
  using collect_claims_ok [of rs "[]"] by (simp add: collect_observation_claims_def)

lemma observation_claims_owner:
  "collect_observation_claims rs = Inr m \<Longrightarrow>
   map_get m b = Some i \<longleftrightarrow> (\<exists>r \<in> set rs. oc_id r = i \<and> b \<in> set (record_observations r))"
  using collect_claims_owner [of rs "[]" m] by (simp add: collect_observation_claims_def)

lemma observation_claims_corrupt:
  "\<not> claims_disjoint rs \<Longrightarrow> collect_observation_claims rs = Inl (Throws OUTCOME_STORE_CORRUPT)"
  using observation_claims_iff [of rs] collect_claims_Inl [of rs "[]"]
  by (cases "collect_observation_claims rs") (auto simp: collect_observation_claims_def)

section \<open>Execution instances\<close>

lemma plan_id_no_bar: "plan_id_ok i \<Longrightarrow> CHR ''|'' \<notin> set i"
  by (cases i) (auto simp: plan_id_ok_def is_alnum_def is_digit_def is_lower_def is_upper_def code_def list_all_iff)

lemma split_at_bar: "x \<notin> set xs \<Longrightarrow> x \<notin> set ys \<Longrightarrow> xs @ x # zs = ys @ x # ws \<longleftrightarrow> xs = ys \<and> zs = ws"
  by (induction xs arbitrary: ys; case_tac ys) auto

lemma instance_key_inj:
  assumes "outcome_ok r" "outcome_ok q"
  shows "execution_instance_key r = execution_instance_key q \<longleftrightarrow> oc_plan_id r = oc_plan_id q \<and> oc_receipt_id r = oc_receipt_id q"
  using assms plan_id_no_bar by (simp add: outcome_ok_def execution_instance_key_def split_at_bar)

section \<open>Invariant\<close>

text \<open>
  Every record is valid and filed under its id; two records are of different executions; and no
  observation is consumed by two records.
\<close>

definition os_inv :: "outcome_map \<Rightarrow> bool" where
  "os_inv s \<longleftrightarrow> keys_distinct s \<and> (\<forall>i r. os_get s i = Some r \<longrightarrow> oc_id r = i \<and> parse_outcome_record r = Some r) \<and>
     (\<forall>i j r q. os_get s i = Some r \<and> os_get s j = Some q \<and> i \<noteq> j \<longrightarrow> execution_instance_key r \<noteq> execution_instance_key q) \<and>
     claims_disjoint (map_values s)"

lemma os_create_Inr: "os_create r s = Inr s' \<longleftrightarrow> (\<exists>p. parse_outcome_record r = Some p \<and> os_get s (oc_id r) = None \<and>
    (\<forall>q \<in> set (map_values s). execution_instance_key q \<noteq> execution_instance_key p) \<and> s' = map_set (oc_id p) p s)"
  by (auto simp: os_create_def ebind_Inr_iff validate_create_outcome_def os_get_def map_has_def list_all_iff)

lemma os_update_Inr: "os_update r s = Inr s' \<longleftrightarrow> (\<exists>q p claims. os_get s (oc_id r) = Some q \<and> validate_transition q r = Inr p \<and>
    collect_observation_claims (map_values s) = Inr claims \<and> claims_free claims p \<and> s' = map_set (oc_id p) p s)"
  by (auto simp: os_update_def ebind_Inr_iff)

lemma os_inv_get: "os_inv s \<Longrightarrow> os_get s i = Some r \<Longrightarrow> oc_id r = i \<and> parse_outcome_record r = Some r"
  by (simp add: os_inv_def)

lemma os_values: "os_inv s \<Longrightarrow> r \<in> set (map_values s) \<longleftrightarrow> os_get s (oc_id r) = Some r"
  by (metis map_values_get os_get_def os_inv_def)

lemma os_inv_empty [simp]: "os_inv []"
  by (simp add: os_inv_def os_get_def claims_disjoint_def)

lemma values_set_fresh: "os_get s i = None \<Longrightarrow> set (map_values (map_set i p s)) = insert p (set (map_values s))"
  by (simp add: os_get_def map_set_fresh)

lemma os_create_inv:
  assumes "os_inv s" "os_create r s = Inr s'"
    "\<forall>q \<in> set (map_values s). set (record_observations q) \<inter> set (record_observations (norm_outcome_record r)) = {}"
  shows "os_inv s'"
proof -
  let ?p = "norm_outcome_record r"
  have p: "parse_outcome_record r = Some ?p" "os_get s (oc_id r) = None" "s' = map_set (oc_id r) ?p s"
      "\<forall>q \<in> set (map_values s). execution_instance_key q \<noteq> execution_instance_key ?p"
    using assms(2) by (auto simp: os_create_Inr parse_outcome_record_Some)
  have get: "os_get s' j = (if j = oc_id r then Some ?p else os_get s j)" for j
    by (simp add: p(3) os_get_def map_get_set)
  have key: "execution_instance_key q \<noteq> execution_instance_key ?p" if "os_get s j = Some q" for j q
    using p(4) os_values [OF assms(1)] os_inv_get [OF assms(1) that] that by blast
  have "claims_disjoint (map_values s')"
    using assms(1,3) unfolding claims_disjoint_def p(3) values_set_fresh [OF p(2)] os_inv_def
    by (auto simp del: set_map)
  moreover have "oc_id q = j \<and> parse_outcome_record q = Some q" if "os_get s' j = Some q" for j q
    using that os_inv_get [OF assms(1)] parse_outcome_record_idem [OF p(1)] by (auto simp: get split: if_splits)
  moreover have "execution_instance_key q \<noteq> execution_instance_key q'"
    if "os_get s' i = Some q" "os_get s' j = Some q'" "i \<noteq> j" for i j q q'
    using that assms(1) key by (auto simp: get os_inv_def split: if_splits) metis+
  ultimately show ?thesis using assms(1) p(3) by (auto simp: os_inv_def)
qed

lemma values_set: "keys_distinct s \<Longrightarrow>
    v \<in> set (map_values (map_set i p s)) \<longleftrightarrow> v = p \<or> (\<exists>j. j \<noteq> i \<and> map_get s j = Some v)"
  using map_values_get [of "map_set i p s" v] by (auto simp: map_get_set split: if_splits)

lemma same_outcome_key: "same_outcome r q \<Longrightarrow> execution_instance_key r = execution_instance_key q"
  by (simp add: same_outcome_def execution_instance_key_def)

lemma os_update_extends:
  assumes "os_inv s" "os_update r s = Inr s'"
  obtains q p where "os_get s (oc_id r) = Some q" "outcome_extends q p" "parse_outcome_record r = Some p"
    "oc_id p = oc_id r" "s' = map_set (oc_id r) p s"
    "\<forall>b j x. b \<in> set (record_observations p) \<and> os_get s j = Some x \<and> b \<in> set (record_observations x) \<longrightarrow> j = oc_id r"
proof -
  from assms(2) obtain q p claims where q: "os_get s (oc_id r) = Some q" and t: "validate_transition q r = Inr p"
    and c: "collect_observation_claims (map_values s) = Inr claims" "claims_free claims p" "s' = map_set (oc_id p) p s"
    by (auto simp: os_update_Inr)
  have qi: "oc_id q = oc_id r" "parse_outcome_record q = Some q" using os_inv_get [OF assms(1) q] by simp_all
  note e = transition_extends [OF t qi(2)]
  have i: "oc_id p = oc_id r" using e(2) by (auto simp: parse_outcome_record_Some)
  have free: "j = oc_id r" if "b \<in> set (record_observations p)" "os_get s j = Some x" "b \<in> set (record_observations x)" for b j x
  proof -
    have "x \<in> set (map_values s)" "oc_id x = j"
      using os_inv_get [OF assms(1) that(2)] that(2) os_values [OF assms(1)] by auto
    then have "map_get claims b = Some j" using that(3) observation_claims_owner [OF c(1)] by blast
    then show ?thesis using c(2) that(1) i by (auto simp: claims_free_def list_all_iff)
  qed
  have "s' = map_set (oc_id r) p s" using c(3) i by simp
  then show ?thesis using free by (intro that [OF q e i]) blast+
qed

lemma os_update_inv:
  assumes "os_inv s" "os_update r s = Inr s'" shows "os_inv s'"
proof -
  obtain q p where q: "os_get s (oc_id r) = Some q" and e: "outcome_extends q p" and p: "parse_outcome_record r = Some p"
    and i: "oc_id p = oc_id r" and s': "s' = map_set (oc_id r) p s"
    and f: "\<forall>b j x. b \<in> set (record_observations p) \<and> os_get s j = Some x \<and> b \<in> set (record_observations x) \<longrightarrow> j = oc_id r"
    by (rule os_update_extends [OF assms])
  have get: "os_get s' j = (if j = oc_id r then Some p else os_get s j)" for j
    by (simp add: s' os_get_def map_get_set)
  have kd: "keys_distinct s" using assms(1) by (simp add: os_inv_def)
  have key: "execution_instance_key p = execution_instance_key q"
    using e same_outcome_key by (auto simp: outcome_extends_def)
  have ids: "oc_id x = j \<and> parse_outcome_record x = Some x" if "os_get s' j = Some x" for j x
    using that os_inv_get [OF assms(1)] parse_outcome_record_idem [OF p] i by (auto simp: get split: if_splits)
  have old: "set (record_observations x) \<inter> set (record_observations y) = {}"
    if "os_get s j = Some x" "os_get s k = Some y" "j \<noteq> k" for j k x y
  proof -
    have i: "oc_id x = j" "oc_id y = k" using os_inv_get [OF assms(1)] that by simp_all
    have "x \<in> set (map_values s)" "y \<in> set (map_values s)"
      using i that by (simp_all only: os_values [OF assms(1)])
    moreover have "claims_disjoint (map_values s)" using assms(1) by (simp add: os_inv_def)
    ultimately show ?thesis using i that(3) unfolding claims_disjoint_def by blast
  qed
  have disj: "set (record_observations x) \<inter> set (record_observations y) = {}"
    if "os_get s' j = Some x" "os_get s' k = Some y" "j \<noteq> k" for j k x y
  proof (cases "j = oc_id r \<or> k = oc_id r")
    case True
    then show ?thesis using that f by (auto simp: get disjoint_iff split: if_splits)
  next
    case False
    then show ?thesis using that old by (simp add: get)
  qed
  have "claims_disjoint (map_values s')"
    unfolding claims_disjoint_def
  proof (intro ballI impI)
    fix x y assume "x \<in> set (map_values s')" "y \<in> set (map_values s')" "oc_id x \<noteq> oc_id y"
    then obtain j k where jk: "os_get s' j = Some x" "os_get s' k = Some y"
      using map_values_get [OF keys_distinct_set [OF kd, of "oc_id r" p]] unfolding s' os_get_def by blast
    then show "set (record_observations x) \<inter> set (record_observations y) = {}"
      using disj [OF jk] ids [OF jk(1)] ids [OF jk(2)] \<open>oc_id x \<noteq> oc_id y\<close> by auto
  qed
  moreover have "execution_instance_key x \<noteq> execution_instance_key y"
    if "os_get s' j = Some x" "os_get s' k = Some y" "j \<noteq> k" for j k x y
  proof -
    have v: "\<exists>y. os_get s j = Some y \<and> execution_instance_key y = execution_instance_key x"
      if "os_get s' j = Some x" for j x using that q by (auto simp: get key [symmetric] split: if_splits)
    show ?thesis using v [OF that(1)] v [OF that(2)] that(3) assms(1) unfolding os_inv_def by metis
  qed
  ultimately show ?thesis using kd s' ids unfolding os_inv_def by blast
qed

section \<open>Contracts\<close>

interpretation os: record_store os_get os_create os_update oc_id parse_outcome_record
proof
  fix r s s' assume "os_create r s = Inr s'"
  then show "\<exists>p. parse_outcome_record r = Some p \<and> os_get s (oc_id p) = None \<and> os_get s' = (os_get s)(oc_id p \<mapsto> p)"
    by (auto simp: os_create_Inr parse_outcome_record_Some os_get_def map_get_set fun_eq_iff)
next
  fix r s s' assume "os_update r s = Inr s'"
  then show "\<exists>p. parse_outcome_record r = Some p \<and> os_get s (oc_id p) \<noteq> None \<and> os_get s' = (os_get s)(oc_id p \<mapsto> p)"
    by (auto simp: os_update_Inr validate_transition_Inr parse_outcome_record_Some os_get_def map_get_set fun_eq_iff)
qed

text \<open>
  A versioned store: an update replaces a record by one that extends it, for a preorder of the
  record type. Then so does any sequence of operations, the refused ones skipped.
\<close>

datatype 'r store_op = Store_create 'r | Store_update 'r

locale versioned_store = record_store lookup insert_new update_old key canon
  for lookup :: "'s \<Rightarrow> string \<Rightarrow> 'r option" and insert_new :: "'r \<Rightarrow> 's \<Rightarrow> 'e + 's"
    and update_old :: "'r \<Rightarrow> 's \<Rightarrow> 'e + 's" and key canon +
  fixes inv :: "'s \<Rightarrow> bool"
    and fresh :: "'r \<Rightarrow> bool"
    and extends :: "'r \<Rightarrow> 'r \<Rightarrow> bool"
  assumes refl: "extends r r"
    and trans: "extends r q \<Longrightarrow> extends q p \<Longrightarrow> extends r p"
    and insert_inv: "inv s \<Longrightarrow> fresh r \<Longrightarrow> insert_new r s = Inr s' \<Longrightarrow> inv s'"
    and update_inv: "inv s \<Longrightarrow> update_old r s = Inr s' \<Longrightarrow> inv s'"
    and update_extends: "inv s \<Longrightarrow> update_old r s = Inr s' \<Longrightarrow> lookup s i = Some q \<Longrightarrow>
      \<exists>p. lookup s' i = Some p \<and> extends q p"
begin

fun store_op :: "'r store_op \<Rightarrow> 's \<Rightarrow> 'e + 's" where
  "store_op (Store_create r) s = insert_new r s"
| "store_op (Store_update r) s = update_old r s"

lemma store_op_fun: "store_op (Store_create r) = insert_new r" "store_op (Store_update r) = update_old r"
  by (rule ext, simp)+

definition attempt_op :: "'r store_op \<Rightarrow> 's \<Rightarrow> 's" where
  "attempt_op op s = (case store_op op s of Inl e \<Rightarrow> s | Inr s' \<Rightarrow> s')"

definition admissible :: "'r store_op list \<Rightarrow> bool" where
  "admissible ops \<longleftrightarrow> (\<forall>r. Store_create r \<in> set ops \<longrightarrow> fresh r)"

lemma attempt_inv: "inv s \<Longrightarrow> admissible [op] \<Longrightarrow> inv (attempt_op op s)"
  by (cases op) (auto simp: attempt_op_def admissible_def intro: insert_inv update_inv split: sum.splits)

lemma attempt_extends:
  assumes "inv s" "lookup s i = Some q"
  shows "\<exists>p. lookup (attempt_op op s) i = Some p \<and> extends q p"
proof (cases op)
  case (Store_create r)
  then show ?thesis using assms insert_keeps [of r s] refl
    by (cases "insert_new r s") (auto simp: attempt_op_def)
next
  case (Store_update r)
  then show ?thesis using assms update_extends [of s r] refl
    by (cases "update_old r s") (auto simp: attempt_op_def)
qed

lemma run_inv: "inv s \<Longrightarrow> admissible ops \<Longrightarrow> inv (fold attempt_op ops s)"
proof (induction ops arbitrary: s)
  case (Cons op ops)
  have "admissible [op]" "admissible ops" using Cons.prems(2) by (auto simp: admissible_def)
  then show ?case using Cons.IH [OF attempt_inv [OF Cons.prems(1)]] by simp
qed simp

lemma run_extends:
  "inv s \<Longrightarrow> admissible ops \<Longrightarrow> lookup s i = Some q \<Longrightarrow> \<exists>p. lookup (fold attempt_op ops s) i = Some p \<and> extends q p"
proof (induction ops arbitrary: s q)
  case Nil
  then show ?case using refl by auto
next
  case (Cons op ops)
  have a: "admissible [op]" "admissible ops" using Cons.prems(2) by (auto simp: admissible_def)
  obtain p where p: "lookup (attempt_op op s) i = Some p" "extends q p"
    using attempt_extends [OF Cons.prems(1,3)] by blast
  obtain p' where "lookup (fold attempt_op ops (attempt_op op s)) i = Some p'" "extends p p'"
    using Cons.IH [OF attempt_inv [OF Cons.prems(1) a(1)] a(2) p(1)] by blast
  with p(2) show ?case using trans by auto
qed

end

text \<open>A fresh outcome has no verification history yet, as the ones the service opens.\<close>

definition unattempted :: "outcome \<Rightarrow> bool" where
  "unattempted r \<longleftrightarrow> oc_attempts r = []"

interpretation osv: versioned_store os_get os_create os_update oc_id parse_outcome_record os_inv unattempted outcome_extends
proof
  show "outcome_extends r r" for r by simp
  show "outcome_extends r q \<Longrightarrow> outcome_extends q p \<Longrightarrow> outcome_extends r p" for r q p by (rule outcome_extends_trans)
  show "os_inv s \<Longrightarrow> unattempted r \<Longrightarrow> os_create r s = Inr s' \<Longrightarrow> os_inv s'" for s r s'
    by (erule (1) os_create_inv) (simp add: unattempted_def record_observations_def norm_outcome_record_def map_filter_simps)
  show "os_inv s \<Longrightarrow> os_update r s = Inr s' \<Longrightarrow> os_inv s'" for s r s' by (rule os_update_inv)
  fix s r s' i q assume a: "os_inv s" "os_update r s = Inr s'" "os_get s i = Some q"
  obtain q' p where "os_get s (oc_id r) = Some q'" "outcome_extends q' p" "s' = map_set (oc_id r) p s"
    by (rule os_update_extends [OF a(1,2)])
  then show "\<exists>p. os_get s' i = Some p \<and> outcome_extends q p"
    using a(3) by (auto simp: os_get_def map_get_set)
qed

section \<open>The file store\<close>

text \<open>A receipt belongs to one plan. The loader requires it of a file; creation does not.\<close>

definition receipts_agree :: "outcome list \<Rightarrow> bool" where
  "receipts_agree rs \<longleftrightarrow> (\<forall>r \<in> set rs. \<forall>q \<in> set rs. oc_receipt_id r = oc_receipt_id q \<longrightarrow> oc_plan_id r = oc_plan_id q)"

lemma receipts_agree_Cons: "receipts_agree (r # rs) \<longleftrightarrow> receipts_agree rs \<and>
    (\<forall>q \<in> set rs. oc_receipt_id r = oc_receipt_id q \<longrightarrow> oc_plan_id r = oc_plan_id q)"
  unfolding receipts_agree_def list.set by (rule ball_insert_symmetric) auto

lemma check_instances_ok:
  "check_instances rs ks plans = Inr () \<longleftrightarrow>
     distinct (map execution_instance_key rs) \<and> execution_instance_key ` set rs \<inter> set ks = {} \<and> receipts_agree rs \<and>
     (\<forall>r \<in> set rs. map_get plans (oc_receipt_id r) = None \<or> map_get plans (oc_receipt_id r) = Some (oc_plan_id r))"
proof (induction rs arbitrary: ks plans)
  case Nil then show ?case by (simp add: receipts_agree_def)
next
  case (Cons r rs)
  let ?m = "map_set (oc_receipt_id r) (oc_plan_id r) plans"
  let ?free = "\<lambda>plans q. map_get plans (oc_receipt_id q) = None \<or> map_get plans (oc_receipt_id q) = Some (oc_plan_id q)"
  let ?agree = "\<lambda>q. oc_receipt_id r = oc_receipt_id q \<longrightarrow> oc_plan_id r = oc_plan_id q"
  have "?free ?m q \<longleftrightarrow> ?agree q \<and> ?free plans q" if "?free plans r" for q
    using that by (cases "oc_receipt_id q = oc_receipt_id r") (simp_all add: map_get_set, metis option.discI)
  then have m: "?free plans r \<Longrightarrow> (\<forall>q \<in> set rs. ?free ?m q) \<longleftrightarrow> (\<forall>q \<in> set rs. ?agree q) \<and> (\<forall>q \<in> set rs. ?free plans q)"
    by blast
  have "check_instances (r # rs) ks plans = Inr () \<longleftrightarrow> execution_instance_key r \<notin> set ks \<and> ?free plans r \<and>
      check_instances rs (execution_instance_key r # ks) ?m = Inr ()"
    by (simp add: ebind_Inr_iff)
  also have "\<dots> \<longleftrightarrow> execution_instance_key r \<notin> set ks \<and> ?free plans r \<and> distinct (map execution_instance_key rs) \<and>
      execution_instance_key ` set rs \<inter> set (execution_instance_key r # ks) = {} \<and> receipts_agree rs \<and>
      (\<forall>q \<in> set rs. ?agree q) \<and> (\<forall>q \<in> set rs. ?free plans q)"
    unfolding Cons.IH using m by blast
  also have "\<dots> \<longleftrightarrow> distinct (map execution_instance_key (r # rs)) \<and>
      execution_instance_key ` set (r # rs) \<inter> set ks = {} \<and> receipts_agree (r # rs) \<and> (\<forall>q \<in> set (r # rs). ?free plans q)"
    unfolding receipts_agree_Cons by auto
  finally show ?case .
qed

lemma check_instances_Inl: "check_instances rs ks plans = Inl e \<Longrightarrow> e = Throws OUTCOME_STORE_CORRUPT"
  by (induction rs ks plans rule: check_instances.induct) (auto simp: guarded_def split: if_splits)

text \<open>What \<open>load\<close> accepts, and what it then holds.\<close>

definition loadable :: "outcome list \<Rightarrow> bool" where
  "loadable rs \<longleftrightarrow> list_all (\<lambda>r. parse_outcome_record r = Some r) rs \<and> length rs \<le> max_store_outcomes \<and>
     distinct (map oc_id rs) \<and> distinct (map execution_instance_key rs) \<and> receipts_agree rs \<and> claims_disjoint rs"

lemma parse_store_records_id:
  assumes "list_all (\<lambda>r. parse_outcome_record r = Some r) rs"
  shows "parse_store_records rs = (if length rs \<le> max_store_outcomes \<and> distinct (map oc_id rs) then Some rs else None)"
proof -
  have "map norm_outcome_record rs = rs"
    using assms by (intro map_idI) (auto simp: list_all_iff parse_outcome_record_Some)
  moreover have "list_all outcome_ok rs"
    using assms by (auto simp: list_all_iff parse_outcome_record_Some)
  ultimately show ?thesis by (simp add: parse_store_records_def)
qed

lemma fold_records:
  "distinct (map oc_id rs) \<Longrightarrow> map_get (fold (\<lambda>r. map_set (oc_id r) r) rs m) i =
     (case map_of (map (\<lambda>r. (oc_id r, r)) rs) i of None \<Rightarrow> map_get m i | Some r \<Rightarrow> Some r)"
proof (induction rs arbitrary: m)
  case (Cons r rs)
  then have "map_of (map (\<lambda>r. (oc_id r, r)) rs) (oc_id r) = None"
    by (auto simp: map_of_eq_None_iff)
  with Cons show ?case by (auto simp: map_get_set split: option.splits)
qed simp

lemma load_loadable:
  assumes "loadable rs"
  obtains t where "fs_load (new_file_store (Some (Shaped rs))) = (Inr (), t)" "fs_loaded t" "fs_disk t = Some (Shaped rs)"
    "os_get (fs_memory t) = map_of (map (\<lambda>r. (oc_id r, r)) rs)"
proof -
  have a: "list_all (\<lambda>r. parse_outcome_record r = Some r) rs" using assms by (simp add: loadable_def)
  have "parse_store_file (Shaped rs) = Inr rs"
    using assms parse_store_records_id [OF a] a
    by (auto simp: parse_store_file_def safe_parse_def loadable_def list_all_iff guarded_def)
  moreover obtain m where "collect_observation_claims rs = Inr m"
    using assms observation_claims_iff [of rs] by (auto simp: loadable_def)
  moreover have "check_instances rs [] [] = Inr ()" using assms by (simp add: check_instances_ok loadable_def)
  ultimately show ?thesis
    using that [of "\<lparr>fs_disk = Some (Shaped rs), fs_memory = fold (\<lambda>r. map_set (oc_id r) r) rs [], fs_loaded = True\<rparr>"]
      fold_records [of rs "[]"] assms
    by (auto simp: fs_load_def new_file_store_def Let_def loadable_def os_get_def fun_eq_iff split: option.splits)
qed

lemma load_not_loadable:
  assumes "list_all (\<lambda>r. parse_outcome_record r = Some r) rs" "\<not> loadable rs"
  shows "fst (fs_load (new_file_store (Some (Shaped rs)))) = Inl (Throws OUTCOME_STORE_CORRUPT)"
proof (cases "length rs \<le> max_store_outcomes \<and> distinct (map oc_id rs)")
  case False
  then have "parse_store_file (Shaped rs) = Inl (Throws OUTCOME_STORE_CORRUPT)"
    using parse_store_records_id [OF assms(1)] by (auto simp: parse_store_file_def safe_parse_def)
  then show ?thesis by (simp add: fs_load_def new_file_store_def)
next
  case True
  have p: "parse_store_file (Shaped rs) = Inr rs"
    using True parse_store_records_id [OF assms(1)] assms(1)
    by (auto simp: parse_store_file_def safe_parse_def list_all_iff guarded_def)
  let ?c = "ebind (check_instances rs [] []) (\<lambda>_. collect_observation_claims rs)"
  have "\<not> (\<exists>m. ?c = Inr m)"
    using True assms observation_claims_iff [of rs] by (auto simp: ebind_Inr_iff check_instances_ok loadable_def)
  then obtain e where e: "?c = Inl e" by (cases ?c) auto
  then have "e = Throws OUTCOME_STORE_CORRUPT"
    using check_instances_Inl [of rs "[]" "[]"] collect_claims_Inl [of rs "[]"]
    by (cases "check_instances rs [] []") (auto simp: collect_observation_claims_def)
  then show ?thesis using p e by (simp add: fs_load_def new_file_store_def Let_def)
qed

text \<open>A loaded store whose file holds what its memory holds.\<close>

definition durable :: "file_store \<Rightarrow> bool" where
  "durable s \<longleftrightarrow> fs_loaded s \<and> os_inv (fs_memory s) \<and> (case fs_disk s of
     None \<Rightarrow> fs_memory s = []
   | Some Malformed \<Rightarrow> False
   | Some (Shaped rs) \<Rightarrow> distinct (map oc_id rs) \<and> set rs = set (map_values (fs_memory s)) \<and> length rs \<le> max_store_outcomes)"

lemma os_values_ids: assumes "os_inv s" shows "map oc_id (map_values s) = map fst s"
  unfolding map_map
proof (rule map_cong [OF refl], unfold comp_def)
  fix x assume "x \<in> set s"
  then have "os_get s (fst x) = Some (snd x)"
    using assms by (auto simp: os_inv_def keys_distinct_def os_get_def)
  then show "oc_id (snd x) = fst x" using assms by (simp add: os_inv_def)
qed

lemma os_list_facts:
  assumes "os_inv s"
  shows "list_all (\<lambda>r. parse_outcome_record r = Some r) (os_list le s)" "distinct (map oc_id (os_list le s))"
    "set (os_list le s) = set (map_values s)" "length (os_list le s) = length s" "claims_disjoint (os_list le s)"
    "distinct (map execution_instance_key (os_list le s))"
proof -
  have v: "r \<in> set (map_values s) \<Longrightarrow> os_get s (oc_id r) = Some r" for r
    by (simp only: os_values [OF assms])
  show st: "set (os_list le s) = set (map_values s)" and "length (os_list le s) = length s"
    unfolding os_list_def by simp_all
  show "list_all (\<lambda>r. parse_outcome_record r = Some r) (os_list le s)"
    unfolding list_all_iff st using v os_inv_get [OF assms] by blast
  have ids: "distinct (map oc_id (map_values s))"
    using assms unfolding os_values_ids [OF assms] by (simp add: os_inv_def keys_distinct_def)
  then show "distinct (map oc_id (os_list le s))" unfolding os_list_def distinct_sort_by .
  show "claims_disjoint (os_list le s)" using assms unfolding os_inv_def claims_disjoint_def st by blast
  have "inj_on execution_instance_key (set (map_values s))"
  proof (rule inj_onI)
    fix x y assume "x \<in> set (map_values s)" "y \<in> set (map_values s)" "execution_instance_key x = execution_instance_key y"
    then show "x = y" using v [of x] v [of y] assms unfolding os_inv_def by (metis option.inject)
  qed
  then have "distinct (map execution_instance_key (map_values s))"
    using ids by (simp only: distinct_map)
  then show "distinct (map execution_instance_key (os_list le s))" unfolding os_list_def distinct_sort_by .
qed

lemma receipts_agree_cong: "set rs = set qs \<Longrightarrow> receipts_agree rs = receipts_agree qs"
  by (simp add: receipts_agree_def)

lemma os_list_loadable:
  assumes "os_inv s" "length s \<le> max_store_outcomes"
  shows "loadable (os_list le s) \<longleftrightarrow> receipts_agree (map_values s)"
  using os_list_facts [OF assms(1), of le] assms(2) receipts_agree_cong [OF os_list_facts(3) [OF assms(1), of le]]
  by (simp add: loadable_def)

lemma os_list_lookup:
  assumes "os_inv s" shows "map_of (map (\<lambda>r. (oc_id r, r)) (os_list le s)) = os_get s"
proof
  fix i
  have d: "distinct (map fst (map (\<lambda>r. (oc_id r, r)) (os_list le s)))"
    using os_list_facts(2) [OF assms, of le] by (simp add: comp_def)
  have "map_of (map (\<lambda>r. (oc_id r, r)) (os_list le s)) i = Some r \<longleftrightarrow> os_get s i = Some r" for r
  proof -
    have "map_of (map (\<lambda>r. (oc_id r, r)) (os_list le s)) i = Some r \<longleftrightarrow> r \<in> set (os_list le s) \<and> oc_id r = i"
      unfolding map_of_eq_Some_iff [OF d] by auto
    also have "\<dots> \<longleftrightarrow> os_get s i = Some r"
      unfolding os_list_facts(3) [OF assms] os_values [OF assms] using os_inv_get [OF assms, of i r] by auto
    finally show ?thesis .
  qed
  then show "map_of (map (\<lambda>r. (oc_id r, r)) (os_list le s)) i = os_get s i"
    by (cases "os_get s i") (metis not_None_eq)+
qed

lemma fs_persist_exact:
  assumes "os_inv (fs_memory s)"
  shows "fs_persist le written s = (if written \<and> length (fs_memory s) \<le> max_store_outcomes
     then (Inr (), s\<lparr>fs_disk := Some (Shaped (os_list le (fs_memory s)))\<rparr>) else (Inl (Throws OUTCOME_STORE_CORRUPT), s))"
  using parse_store_records_id [OF os_list_facts(1) [OF assms, of le]] os_list_facts(2,4) [OF assms, of le]
  by (simp add: fs_persist_def)

definition fs_step :: "(string \<Rightarrow> string \<Rightarrow> bool) \<Rightarrow> bool \<Rightarrow> outcome store_op \<Rightarrow> file_store \<Rightarrow> unit outcome_result \<times> file_store" where
  "fs_step le written op = (case op of Store_create r \<Rightarrow> fs_create le written r | Store_update r \<Rightarrow> fs_update le written r)"

lemma fs_step_mutate: "fs_step le written op = fs_mutate le written (osv.store_op op)"
  by (cases op) (simp_all add: fs_step_def fs_create_def fs_update_def osv.store_op_fun)

lemma durable_written:
  assumes "os_inv m" "length m \<le> max_store_outcomes" "fs_loaded s"
  shows "durable (s\<lparr>fs_memory := m, fs_disk := Some (Shaped (os_list le m))\<rparr>)"
  using assms os_list_facts [OF assms(1), of le] by (simp add: durable_def)

section \<open>A concrete store\<close>

definition pending_outcome :: outcome where
  "pending_outcome = \<lparr>oc_id = ''out-00001'', oc_plan_id = ''plan-0001'', oc_decision_id = ''dec-1'',
     oc_capability_id = ''git.branch.create'', oc_capability_version = ''1.0.0'', oc_receipt_id = ''rcpt-1'',
     oc_effect = Process_succeeded, oc_status = V_pending, oc_verification_id = Some ''git.branch.read'',
     oc_expected_digest = Some (replicate 64 CHR ''a''), oc_latest_digest = None, oc_attempts = [], oc_revisit = False,
     oc_rollback = False, oc_created_at = Wire ''t1'' (Some 1), oc_updated_at = Wire ''t1'' (Some 1), oc_correlation = None\<rparr>"

definition verified_outcome :: outcome where
  "verified_outcome = pending_outcome\<lparr>oc_status := V_verified, oc_latest_digest := Some (replicate 64 CHR ''b''),
     oc_attempts := [\<lparr>va_id = ''att-00001'', va_started_at = Wire ''t2'' (Some 2), va_finished_at = Some (Wire ''t3'' (Some 3)),
       va_observation_id = Some ''obs-1'', va_observation_digest = Some (replicate 64 CHR ''b''), va_status = A_verified,
       va_reasons = [R_verified]\<rparr>], oc_updated_at := Wire ''t3'' (Some 3)\<rparr>"

lemma pending_outcome_ok: "parse_outcome_record pending_outcome = Some pending_outcome"
  by code_simp

lemma verified_outcome_ok: "parse_outcome_record verified_outcome = Some verified_outcome"
  by code_simp

lemma pending_store_inv: "os_inv [(''out-00001'', pending_outcome)]"
  using pending_outcome_ok
  by (auto simp: os_inv_def os_get_def keys_distinct_def claims_disjoint_def pending_outcome_def split: if_splits)

lemma sample_update: "os_update verified_outcome [(''out-00001'', pending_outcome)] = Inr [(''out-00001'', verified_outcome)]"
  by code_simp

section \<open>Properties\<close>

text \<open>C22: The history of outcomes is append-only. Start from a store with its invariant (valid records, each under
  its id, no two of one execution and no observation consumed by two; the empty store has it) and attempt
  any sequence of updates, of whatever records, and of creations of records that have no verification attempt
  yet, which are the only ones the outcome service creates. Then no record is lost: its id, plan,
  receipt, capability, effect state, creation time and expectation stay the same, its verification
  attempts are kept unchanged as the beginning of the new list, and a status other than pending is
  final. The store reached has the invariant again: two records are of different executions and
  no observation is consumed by two of them.\<close>
theorem outcome_history_append_only:
  assumes "os_inv s" "osv.admissible ops" "os_get s i = Some r"
  shows "os_inv (fold osv.attempt_op ops s) \<and>
    (\<exists>q. os_get (fold osv.attempt_op ops s) i = Some q \<and> outcome_extends r q)"
  using osv.run_inv [OF assms(1,2)] osv.run_extends [OF assms] by simp

lemma outcome_history_append_only_witness:
  "os_inv [(''out-00001'', verified_outcome)] \<and> outcome_extends pending_outcome verified_outcome"
  using outcome_history_append_only [OF pending_store_inv, of "[Store_update verified_outcome]" "''out-00001''" pending_outcome]
  by (simp add: osv.admissible_def osv.attempt_op_def sample_update os_get_def)

text \<open>C23: The file store is the in-memory store made durable. Take a loaded file store whose memory has the store
  invariant and whose file holds what the memory holds, and an operation that is an update or a
  creation of a record without verification attempts, the only kind the outcome service creates. An operation refused by the in-memory
  rules is refused with the same error and changes nothing. One they accept changes the memory as
  they say; when the file is written (the write succeeds and the records are not too many for one file) it
  holds exactly the memory, the store is again of the kind described, and a restart from that file loads the
  same records, provided no receipt is filed under two plans; otherwise the restart fails as
  corrupt. When the file is not written, the caller gets an error although the memory has
  already changed.\<close>
theorem file_store_refines_memory:
  assumes "durable s" "osv.admissible [op]"
  shows "case osv.store_op op (fs_memory s) of
     Inl e \<Rightarrow> fs_step le written op s = (Inl e, s)
   | Inr m \<Rightarrow> if \<not> (written \<and> length m \<le> max_store_outcomes)
       then fs_step le written op s = (Inl (Throws OUTCOME_STORE_CORRUPT), s\<lparr>fs_memory := m\<rparr>)
       else fs_step le written op s = (Inr (), s\<lparr>fs_memory := m, fs_disk := Some (Shaped (os_list le m))\<rparr>) \<and>
         durable (s\<lparr>fs_memory := m, fs_disk := Some (Shaped (os_list le m))\<rparr>) \<and>
         (if receipts_agree (map_values m)
          then \<exists>t. fs_load (new_file_store (Some (Shaped (os_list le m)))) = (Inr (), t) \<and> os_get (fs_memory t) = os_get m
          else fst (fs_load (new_file_store (Some (Shaped (os_list le m))))) = Inl (Throws OUTCOME_STORE_CORRUPT))"
proof (cases "osv.store_op op (fs_memory s)")
  case (Inl e)
  then show ?thesis using assms(1) by (simp add: fs_step_mutate fs_mutate_def fs_load_def durable_def)
next
  case (Inr m)
  have inv: "os_inv m"
    using osv.attempt_inv [of "fs_memory s" op] assms Inr by (simp add: durable_def osv.attempt_op_def)
  have l: "fs_loaded s" using assms(1) by (simp add: durable_def)
  have step: "fs_step le written op s = fs_persist le written (s\<lparr>fs_memory := m\<rparr>)"
    using Inr l by (simp add: fs_step_mutate fs_mutate_def fs_load_def)
  have p: "fs_persist le written (s\<lparr>fs_memory := m\<rparr>) = (if written \<and> length m \<le> max_store_outcomes
      then (Inr (), s\<lparr>fs_memory := m, fs_disk := Some (Shaped (os_list le m))\<rparr>)
      else (Inl (Throws OUTCOME_STORE_CORRUPT), s\<lparr>fs_memory := m\<rparr>))"
    using fs_persist_exact [of "s\<lparr>fs_memory := m\<rparr>"] inv by simp
  show ?thesis
  proof (cases "written \<and> length m \<le> max_store_outcomes")
    case False
    then show ?thesis using Inr step p by simp
  next
    case True
    have "durable (s\<lparr>fs_memory := m, fs_disk := Some (Shaped (os_list le m))\<rparr>)"
      using durable_written [OF inv _ l] True by simp
    moreover have "if receipts_agree (map_values m)
          then \<exists>t. fs_load (new_file_store (Some (Shaped (os_list le m)))) = (Inr (), t) \<and> os_get (fs_memory t) = os_get m
          else fst (fs_load (new_file_store (Some (Shaped (os_list le m))))) = Inl (Throws OUTCOME_STORE_CORRUPT)"
      using os_list_loadable [OF inv, of le] True load_not_loadable [OF os_list_facts(1) [OF inv, of le]]
        load_loadable [of "os_list le m"] os_list_lookup [OF inv, of le] by (metis (no_types, lifting))
    ultimately show ?thesis using Inr step p True by simp
  qed
qed

definition sample_file_store :: file_store where
  "sample_file_store = \<lparr>fs_disk = Some (Shaped [pending_outcome]), fs_memory = [(''out-00001'', pending_outcome)], fs_loaded = True\<rparr>"

lemma sample_file_durable: "durable sample_file_store"
  using pending_store_inv by (simp add: durable_def sample_file_store_def max_store_outcomes_def)

lemma file_store_refines_memory_witness:
  "fs_step (\<le>) True (Store_update verified_outcome) sample_file_store =
     (Inr (), sample_file_store\<lparr>fs_memory := [(''out-00001'', verified_outcome)], fs_disk := Some (Shaped [verified_outcome])\<rparr>)"
  using file_store_refines_memory [OF sample_file_durable, of "Store_update verified_outcome" "(\<le>)" True]
  by (simp add: osv.admissible_def sample_file_store_def sample_update os_list_def sort_by_def max_store_outcomes_def)

text \<open>Creation can accept what a restart rejects. When a stored outcome has the receipt of a new record without
  attempts but another plan, and the new record is accepted and written, a load of the written file
  fails as corrupt. The concrete store below accepts such a record.\<close>
lemma shared_receipt_makes_store_unloadable:
  assumes "durable s" "unattempted r" "fs_create le True r s = (Inr (), s')"
    "os_get (fs_memory s) i = Some q" "oc_receipt_id q = js_trim (oc_receipt_id r)" "oc_plan_id q \<noteq> oc_plan_id r"
  shows "fst (fs_load (new_file_store (fs_disk s'))) = Inl (Throws OUTCOME_STORE_CORRUPT)"
proof -
  have l: "fs_loaded s" "os_inv (fs_memory s)" using assms(1) by (simp_all add: durable_def)
  obtain m where m: "os_create r (fs_memory s) = Inr m" "fs_persist le True (s\<lparr>fs_memory := m\<rparr>) = (Inr (), s')"
    using assms(3) l(1) by (auto simp: fs_create_def fs_mutate_def fs_load_def split: sum.splits)
  have inv: "os_inv m" by (rule osv.insert_inv [OF l(2) assms(2) m(1)])
  have s': "fs_disk s' = Some (Shaped (os_list le m))" "length m \<le> max_store_outcomes"
    using m(2) fs_persist_exact [of "s\<lparr>fs_memory := m\<rparr>"] inv by (auto split: if_splits)
  have "norm_outcome_record r \<in> set (map_values m) \<and> q \<in> set (map_values m)"
    using m(1) os_inv_get [OF l(2) assms(4)] assms(4) l(2) os.insert_keeps [OF m(1) assms(4)]
      os.insert_get [OF m(1), of "norm_outcome_record r"] os_values [OF inv]
    by (auto simp: os_create_Inr parse_outcome_record_Some simp del: set_map)
  then have "\<not> receipts_agree (map_values m)"
    using assms(5,6) unfolding receipts_agree_def norm_outcome_record_def by force
  then show ?thesis
    using os_list_loadable [OF inv s'(2), of le] load_not_loadable [OF os_list_facts(1) [OF inv, of le]] s'(1) by simp
qed

definition rival_outcome :: outcome where
  "rival_outcome = pending_outcome\<lparr>oc_id := ''out-00002'', oc_plan_id := ''plan-0002''\<rparr>"

lemma sample_create: "os_create rival_outcome [(''out-00001'', pending_outcome)] =
    Inr [(''out-00001'', pending_outcome), (''out-00002'', rival_outcome)]"
  by code_simp

lemma rival_accepted_and_unloadable:
  "\<exists>s'. fs_create (\<le>) True rival_outcome sample_file_store = (Inr (), s') \<and>
     fst (fs_load (new_file_store (fs_disk s'))) = Inl (Throws OUTCOME_STORE_CORRUPT)"
proof -
  let ?m = "[(''out-00001'', pending_outcome), (''out-00002'', rival_outcome)]"
  have "os_inv ?m"
    by (rule osv.insert_inv [OF pending_store_inv _ sample_create])
      (simp add: unattempted_def rival_outcome_def pending_outcome_def)
  then obtain s' where s': "fs_create (\<le>) True rival_outcome sample_file_store = (Inr (), s')"
    using fs_persist_exact [of "sample_file_store\<lparr>fs_memory := ?m\<rparr>" "(\<le>)" True] sample_create
    by (simp add: fs_create_def fs_mutate_def fs_load_def sample_file_store_def max_store_outcomes_def)
  have "os_get (fs_memory sample_file_store) ''out-00001'' = Some pending_outcome"
    by (simp add: sample_file_store_def os_get_def)
  moreover have "oc_receipt_id pending_outcome = js_trim (oc_receipt_id rival_outcome)" by code_simp
  ultimately show ?thesis
    using shared_receipt_makes_store_unloadable [OF sample_file_durable _ s'] s'
    by (simp add: unattempted_def rival_outcome_def pending_outcome_def)
qed

end
