(* ===== verification/Outcome_Evaluator.thy ===== *)
theory Outcome_Evaluator
  imports Outcome
begin

text \<open>
  Trusted evaluators (\<open>src/brain-server/src/outcome/evaluator.ts\<close>, \<open>evaluator-registry.ts\<close>,
  \<open>evaluators/git-branch-create-evaluator.ts\<close>, \<open>evaluators/github-issue-close-evaluator.ts\<close>). An
  evaluator is its metadata and two functions; what a function returns is untrusted until it is
  parsed, and it may throw. The conversion of a text to a number, which the language defines, is a
  parameter of the evaluator that applies \<open>Number\<close> to an input.
\<close>

section \<open>The evaluator contract\<close>

record evaluator_metadata =
  em_id :: string
  em_capability_id :: string
  em_verification_id :: string
  em_version :: string

definition norm_metadata :: "evaluator_metadata \<Rightarrow> evaluator_metadata" where
  "norm_metadata m = m\<lparr>em_id := js_trim (em_id m)\<rparr>"

definition metadata_ok :: "evaluator_metadata \<Rightarrow> bool" where
  "metadata_ok m \<longleftrightarrow> len_ok 200 (em_id m) \<and> capability_id_ok (em_capability_id m) \<and>
     capability_id_ok (em_verification_id m) \<and> semver_ok (em_version m)"

definition parse_metadata :: "evaluator_metadata \<Rightarrow> evaluator_metadata option" where
  "parse_metadata = parse_with norm_metadata metadata_ok"

record evaluation =
  en_status :: attempt_status
  en_reasons :: "outcome_reason list"

fun expected_reason :: "attempt_status \<Rightarrow> outcome_reason" where
  "expected_reason A_verified = R_verified"
| "expected_reason A_mismatch = R_mismatch"
| "expected_reason A_inconclusive = R_inconclusive"
| "expected_reason A_failed = R_inconclusive"

definition parse_evaluation :: "evaluation raw \<Rightarrow> evaluation outcome_result" where
  "parse_evaluation raw =
     ebind (safe_parse OUTCOME_INPUT_INVALID
       (\<lambda>e. if en_status e \<noteq> A_failed \<and> length (en_reasons e) \<le> 50 then Some e else None) raw) (\<lambda>e.
     ebind (guarded (expected_reason (en_status e) \<in> set (en_reasons e)) OUTCOME_INPUT_INVALID) (\<lambda>_. Inr e))"

record evaluator =
  ev_metadata :: evaluator_metadata
  ev_derive :: "execution_plan \<Rightarrow> expectation raw outcome_result"
  ev_evaluate :: "expectation \<Rightarrow> observation \<Rightarrow> evaluation raw outcome_result"

definition validate_expectation :: "evaluator \<Rightarrow> expectation raw \<Rightarrow> expectation outcome_result" where
  "validate_expectation ev raw =
     ebind (safe_parse OUTCOME_INPUT_INVALID parse_expectation raw) (\<lambda>x.
     ebind (guarded (xp_evaluator x = em_id (ev_metadata ev)) OUTCOME_EVALUATOR_NOT_FOUND) (\<lambda>_.
     ebind (guarded (xp_capability_id x = em_capability_id (ev_metadata ev)) OUTCOME_EVALUATOR_NOT_FOUND) (\<lambda>_.
     ebind (guarded (xp_verification_id x = em_verification_id (ev_metadata ev)) OUTCOME_EVALUATOR_NOT_FOUND) (\<lambda>_.
       Inr x))))"

section \<open>Registry\<close>

record evaluator_registry =
  er_by_capability :: "(string, evaluator) jsmap"
  er_by_id :: "(string, evaluator) jsmap"

definition register_evaluator :: "evaluator \<Rightarrow> evaluator_registry \<Rightarrow> evaluator_registry outcome_result" where
  "register_evaluator ev g =
     ebind (require (parse_metadata (ev_metadata ev)) OUTCOME_INPUT_INVALID) (\<lambda>m.
     ebind (guarded (\<not> map_has (er_by_capability g) (em_capability_id m)) OUTCOME_DUPLICATE_RECORD) (\<lambda>_.
     ebind (guarded (\<not> map_has (er_by_id g) (em_id m)) OUTCOME_DUPLICATE_RECORD) (\<lambda>_.
       Inr \<lparr>er_by_capability = map_set (em_capability_id m) ev (er_by_capability g),
            er_by_id = map_set (em_id m) ev (er_by_id g)\<rparr>)))"

definition evaluator_for_capability :: "evaluator_registry \<Rightarrow> string \<Rightarrow> evaluator option" where
  "evaluator_for_capability g c = map_get (er_by_capability g) c"

definition evaluator_by_id :: "evaluator_registry \<Rightarrow> string \<Rightarrow> evaluator option" where
  "evaluator_by_id g i = map_get (er_by_id g) i"

definition list_evaluators :: "(string \<Rightarrow> string \<Rightarrow> bool) \<Rightarrow> evaluator_registry \<Rightarrow> evaluator list" where
  "list_evaluators le g = sort_by (\<lambda>a b. le (em_capability_id (ev_metadata a)) (em_capability_id (ev_metadata b)))
     (map_values (er_by_capability g))"

section \<open>Verdicts\<close>

definition verdict :: "attempt_status \<Rightarrow> evaluation raw outcome_result" where
  "verdict s = Inr (Shaped \<lparr>en_status = s, en_reasons = [expected_reason s]\<rparr>)"

text \<open>\<open>typeof v === 'string' ? v : ''\<close>.\<close>

definition text_or_empty :: "jsval option \<Rightarrow> string" where
  "text_or_empty v = (case v of Some (JStr s) \<Rightarrow> s | _ \<Rightarrow> [])"

section \<open>The local branch evaluator\<close>

definition git_sha_ok :: "string \<Rightarrow> bool" where
  "git_sha_ok s \<longleftrightarrow> length s = 40 \<and> list_all hex_char s"

definition git_branch_derive :: "execution_plan \<Rightarrow> expectation raw outcome_result" where
  "git_branch_derive p = (let inputs = plan_normalized_inputs p;
     repository = text_or_empty (map_of inputs ''repository_path'');
     branch = text_or_empty (map_of inputs ''branch_name'');
     start = text_or_empty (map_of inputs ''start_point'') in
     if repository = [] \<or> branch = [] \<or> \<not> git_sha_ok start then Inl NativeError
     else Inr (Shaped \<lparr>xp_evaluator = ''git-branch-create-evaluator'', xp_capability_id = ''git.branch.create'',
       xp_verification_id = ''git.branch.read'', xp_subject = ''git:branch:'' @ branch,
       xp_assertions = [(''repository_path'', JStr repository), (''branch_name'', JStr branch), (''target_sha'', JStr start)]\<rparr>))"

definition git_branch_evaluate :: "expectation \<Rightarrow> observation \<Rightarrow> evaluation raw outcome_result" where
  "git_branch_evaluate x b = (case map_of (ob_payload b) ''target_sha'' of
     Some (JStr sha) \<Rightarrow>
       if \<not> git_sha_ok sha then verdict A_inconclusive
       else if map_of (xp_assertions x) ''target_sha'' = Some (JStr sha) then verdict A_verified
       else verdict A_mismatch
   | _ \<Rightarrow> verdict A_inconclusive)"

definition git_branch_create_evaluator :: evaluator where
  "git_branch_create_evaluator = \<lparr>ev_metadata = \<lparr>em_id = ''git-branch-create-evaluator'', em_capability_id = ''git.branch.create'',
     em_verification_id = ''git.branch.read'', em_version = ''1.0.0''\<rparr>,
     ev_derive = git_branch_derive, ev_evaluate = git_branch_evaluate\<rparr>"

section \<open>The issue evaluator\<close>

text \<open>\<open>String(v ?? '')\<close> and \<open>Number(v)\<close> of a JSON value; \<open>parse\<close> is the conversion of a text to a number.\<close>

fun js_string :: "jsval \<Rightarrow> string" and js_elements :: "jsval list \<Rightarrow> string list" where
  "js_string JNull = ''null''"
| "js_string (JBool b) = (if b then ''true'' else ''false'')"
| "js_string (JNum x) = num_str x"
| "js_string (JStr s) = s"
| "js_string (JArr xs) = js_join '','' (js_elements xs)"
| "js_string (JObj ms) = ''[object Object]''"
| "js_string JOther = ''undefined''"
| "js_elements [] = []"
| "js_elements (x # xs) = (if x = JNull \<or> x = JOther then [] else js_string x) # js_elements xs"

definition js_string_or_empty :: "jsval option \<Rightarrow> string" where
  "js_string_or_empty v = (case v of None \<Rightarrow> [] | Some JNull \<Rightarrow> [] | Some x \<Rightarrow> js_string x)"

definition js_number :: "(string \<Rightarrow> jsnum) \<Rightarrow> jsval option \<Rightarrow> jsnum" where
  "js_number parse v = (case v of None \<Rightarrow> NaN
     | Some JNull \<Rightarrow> Fin False 0 1 | Some (JBool b) \<Rightarrow> Fin False (if b then 1 else 0) 1
     | Some (JNum x) \<Rightarrow> x | Some (JStr s) \<Rightarrow> parse s | Some (JArr xs) \<Rightarrow> parse (js_string (JArr xs))
     | Some (JObj ms) \<Rightarrow> NaN | Some JOther \<Rightarrow> NaN)"

text \<open>\<open>Number.isInteger\<close>: the value is the digits times ten to the point position less their number.\<close>

fun js_is_integer :: "jsnum \<Rightarrow> bool" where
  "js_is_integer (Fin neg s n) = (s = 0 \<or>
     (let k = int (length (nat_str s)) in n \<ge> k \<or> (k - n \<le> k \<and> 10 ^ nat (k - n) dvd s)))"
| "js_is_integer _ = False"

text \<open>\<open>x < 1\<close> for a finite number: it is negative, zero, or its point is left of the first digit.\<close>

fun js_below_one :: "jsnum \<Rightarrow> bool" where
  "js_below_one (Fin neg s n) = (neg \<or> s = 0 \<or> n \<le> 0)"
| "js_below_one (Infinite neg) = neg"
| "js_below_one NaN = False"

definition github_issue_derive :: "(string \<Rightarrow> jsnum) \<Rightarrow> execution_plan \<Rightarrow> expectation raw outcome_result" where
  "github_issue_derive parse p = (let inputs = plan_normalized_inputs p;
     owner = js_string_or_empty (map_of inputs ''owner'');
     repo = js_string_or_empty (map_of inputs ''repo'');
     number = js_number parse (map_of inputs ''number'') in
     if \<not> js_is_integer number \<or> js_below_one number then Inl NativeError
     else Inr (Shaped \<lparr>xp_evaluator = ''github-issue-close-evaluator'', xp_capability_id = ''github.issue.close'',
       xp_verification_id = ''github.issue.read'',
       xp_subject = ''issue:'' @ owner @ ''/'' @ repo @ ''#'' @ num_str number,
       xp_assertions = [(''owner'', JStr owner), (''repo'', JStr repo), (''number'', JNum number), (''state'', JStr ''CLOSED'')]\<rparr>))"

definition github_issue_evaluate :: "expectation \<Rightarrow> observation \<Rightarrow> evaluation raw outcome_result" where
  "github_issue_evaluate x b = (case (map_of (ob_payload b) ''number'', map_of (ob_payload b) ''state'') of
     (Some (JNum n), Some (JStr state)) \<Rightarrow>
       if \<not> js_is_integer n then verdict A_inconclusive
       else if map_of (xp_assertions x) ''number'' \<noteq> Some (JNum n) then verdict A_mismatch
       else if state = ''CLOSED'' then verdict A_verified else verdict A_mismatch
   | _ \<Rightarrow> verdict A_inconclusive)"

definition github_issue_close_evaluator :: "(string \<Rightarrow> jsnum) \<Rightarrow> evaluator" where
  "github_issue_close_evaluator parse = \<lparr>ev_metadata = \<lparr>em_id = ''github-issue-close-evaluator'',
     em_capability_id = ''github.issue.close'', em_verification_id = ''github.issue.read'', em_version = ''1.0.0''\<rparr>,
     ev_derive = github_issue_derive parse, ev_evaluate = github_issue_evaluate\<rparr>"

section \<open>Soundness of an evaluator\<close>

text \<open>
  What the outcome service relies on: an evaluator always answers with a conforming verdict, and
  for the expectation it derived from a plan the verdict is verified exactly when the observed
  payload shows what the plan was to achieve. Nothing else of the observation can matter.
\<close>

locale sound_evaluator =
  fixes ev :: evaluator
    and achieved :: "execution_plan \<Rightarrow> json_object \<Rightarrow> bool"
  assumes answers: "\<exists>e. ev_evaluate ev x b = Inr (Shaped e) \<and> parse_evaluation (Shaped e) = Inr e"
    and verified_iff: "ev_derive ev p = Inr (Shaped x) \<Longrightarrow> parse_expectation x = Some y \<Longrightarrow>
      ev_evaluate ev y b = Inr (Shaped e) \<Longrightarrow> en_status e = A_verified \<longleftrightarrow> achieved p (ob_payload b)"
begin

lemma verdict_exact:
  assumes "ebind (ev_derive ev p) (validate_expectation ev) = Inr y"
  shows "\<exists>e. ebind (ev_evaluate ev y b) parse_evaluation = Inr e \<and> (en_status e = A_verified \<longleftrightarrow> achieved p (ob_payload b))"
proof -
  obtain x where x: "ev_derive ev p = Inr (Shaped x)" "parse_expectation x = Some y"
    using assms by (auto simp: validate_expectation_def ebind_Inr_iff safe_parse_Inr)
  obtain e where "ev_evaluate ev y b = Inr (Shaped e)" "parse_evaluation (Shaped e) = Inr e"
    using answers by blast
  then show ?thesis using verified_iff [OF x] by auto
qed

lemma same_payload_same_verdict:
  assumes "ebind (ev_derive ev p) (validate_expectation ev) = Inr y" "ob_payload b = ob_payload b'"
    "ebind (ev_evaluate ev y b) parse_evaluation = Inr e" "ebind (ev_evaluate ev y b') parse_evaluation = Inr e'"
  shows "en_status e = A_verified \<longleftrightarrow> en_status e' = A_verified"
  using verdict_exact [OF assms(1), of b] verdict_exact [OF assms(1), of b'] assms(2-4) by auto

end

lemma verdict_parses: "s \<noteq> A_failed \<Longrightarrow> parse_evaluation (Shaped \<lparr>en_status = s, en_reasons = [expected_reason s]\<rparr>) =
    Inr \<lparr>en_status = s, en_reasons = [expected_reason s]\<rparr>"
  by (simp add: parse_evaluation_def safe_parse_def)

lemma git_answers: "\<exists>s. s \<noteq> A_failed \<and> git_branch_evaluate x b = verdict s"
  by (auto simp: git_branch_evaluate_def split: option.splits jsval.splits)

lemma github_answers: "\<exists>s. s \<noteq> A_failed \<and> github_issue_evaluate x b = verdict s"
  by (auto simp: github_issue_evaluate_def split: option.splits jsval.splits)

lemma parse_expectation_assertions: "parse_expectation x = Some y \<Longrightarrow> xp_assertions y = xp_assertions x"
  by (auto simp: parse_expectation_def parse_with_Some norm_expectation_def)

text \<open>The branch exists at the approved start point.\<close>

definition branch_at_start :: "execution_plan \<Rightarrow> json_object \<Rightarrow> bool" where
  "branch_at_start p payload \<longleftrightarrow> (\<exists>sha. map_of payload ''target_sha'' = Some (JStr sha) \<and>
     map_of (plan_normalized_inputs p) ''start_point'' = Some (JStr sha))"

interpretation git_branch: sound_evaluator git_branch_create_evaluator branch_at_start
proof
  fix x b
  obtain s where "s \<noteq> A_failed" "git_branch_evaluate x b = verdict s" using git_answers by blast
  then show "\<exists>e. ev_evaluate git_branch_create_evaluator x b = Inr (Shaped e) \<and> parse_evaluation (Shaped e) = Inr e"
    using verdict_parses [of s] by (simp add: git_branch_create_evaluator_def verdict_def)
next
  fix p x y b e
  assume a: "ev_derive git_branch_create_evaluator p = Inr (Shaped x)" "parse_expectation x = Some y"
    "ev_evaluate git_branch_create_evaluator y b = Inr (Shaped e)"
  let ?start = "text_or_empty (map_of (plan_normalized_inputs p) ''start_point'')"
  have d: "git_sha_ok ?start" "map_of (xp_assertions y) ''target_sha'' = Some (JStr ?start)"
    using a(1) parse_expectation_assertions [OF a(2)]
    by (auto simp: git_branch_create_evaluator_def git_branch_derive_def Let_def split: if_splits)
  have s: "map_of (plan_normalized_inputs p) ''start_point'' = Some (JStr ?start)"
    using d(1) by (auto simp: text_or_empty_def git_sha_ok_def split: option.splits jsval.splits)
  show "en_status e = A_verified \<longleftrightarrow> branch_at_start p (ob_payload b)"
    using a(3) d s
    by (auto simp: git_branch_create_evaluator_def git_branch_evaluate_def verdict_def branch_at_start_def
        split: option.splits jsval.splits if_splits)
qed

text \<open>The read-back is of the approved issue, and that issue is closed.\<close>

definition issue_closed :: "(string \<Rightarrow> jsnum) \<Rightarrow> execution_plan \<Rightarrow> json_object \<Rightarrow> bool" where
  "issue_closed parse p payload \<longleftrightarrow>
     map_of payload ''number'' = Some (JNum (js_number parse (map_of (plan_normalized_inputs p) ''number''))) \<and>
     map_of payload ''state'' = Some (JStr ''CLOSED'')"

interpretation github_issue: sound_evaluator "github_issue_close_evaluator parse" "issue_closed parse"
proof
  fix x b
  obtain s where "s \<noteq> A_failed" "github_issue_evaluate x b = verdict s" using github_answers by blast
  then show "\<exists>e. ev_evaluate (github_issue_close_evaluator parse) x b = Inr (Shaped e) \<and> parse_evaluation (Shaped e) = Inr e"
    using verdict_parses [of s] by (simp add: github_issue_close_evaluator_def verdict_def)
next
  fix p x y b e
  assume a: "ev_derive (github_issue_close_evaluator parse) p = Inr (Shaped x)" "parse_expectation x = Some y"
    "ev_evaluate (github_issue_close_evaluator parse) y b = Inr (Shaped e)"
  let ?n = "js_number parse (map_of (plan_normalized_inputs p) ''number'')"
  have d: "js_is_integer ?n" "map_of (xp_assertions y) ''number'' = Some (JNum ?n)"
    using a(1) parse_expectation_assertions [OF a(2)]
    by (auto simp: github_issue_close_evaluator_def github_issue_derive_def Let_def split: if_splits)
  show "en_status e = A_verified \<longleftrightarrow> issue_closed parse p (ob_payload b)"
    using a(3) d
    by (auto simp: github_issue_close_evaluator_def github_issue_evaluate_def verdict_def issue_closed_def
        split: option.splits jsval.splits if_splits)
qed

end
