(* ===== verification/Outcome_Service.thy ===== *)
theory Outcome_Service
  imports Outcome_Store Outcome_Evaluator
begin

text \<open>
  The outcome service (\<open>src/brain-server/src/outcome/service.ts\<close>) over the in-memory store. The
  resolvers of receipts and observations are collaborators: the answer of a call is an argument of
  the operation that makes it, as are the clock readings and the generated ids. An operation runs
  to its first await atomically. Only the completion of an attempt has a continuation that changes
  state: the release of the attempt slot, the \<open>settle\<close> step here, after which other operations
  may have run.
\<close>

section \<open>State\<close>

record outcome_context =
  cx_plan :: execution_plan
  cx_receipt :: execution_receipt
  cx_expectation :: expectation
  cx_evaluator :: evaluator

record pending_attempt =
  pd_id :: string
  pd_started_at :: timestamp

record outcome_service =
  sv_store :: outcome_map
  sv_contexts :: "(string, outcome_context) jsmap"
  sv_pending :: "(string, pending_attempt) jsmap"
  sv_settling :: "string list"

record outcome_config =
  oc_sha :: "string \<Rightarrow> string"
  oc_registry :: evaluator_registry
  oc_limit :: nat

definition resolve_max_attempts :: "int option \<Rightarrow> nat outcome_result" where
  "resolve_max_attempts n = (let m = (case n of None \<Rightarrow> int default_max_verification_attempts | Some k \<Rightarrow> k) in
     if m < 1 \<or> m > int max_verification_attempts_bound then Inl (Throws OUTCOME_INPUT_INVALID) else Inr (nat m))"

definition new_service :: outcome_service where
  "new_service = \<lparr>sv_store = [], sv_contexts = [], sv_pending = [], sv_settling = []\<rparr>"

section \<open>Opening an outcome\<close>

definition bind_receipt_to_plan :: "(string \<Rightarrow> string) \<Rightarrow> execution_receipt \<Rightarrow> execution_plan \<Rightarrow> unit outcome_result" where
  "bind_receipt_to_plan sha r p =
     ebind (guarded (rc_plan_id r = plan_id p) OUTCOME_PLAN_MISMATCH) (\<lambda>_.
     ebind (guarded (rc_decision_id r = plan_decision_id p) OUTCOME_RECEIPT_INVALID) (\<lambda>_.
     ebind (guarded (rc_capability_id r = plan_capability_id p \<and> rc_capability_version r = plan_capability_version p)
       OUTCOME_RECEIPT_INVALID) (\<lambda>_.
     ebind (guarded (rc_adapter_id r = plan_adapter_id p) OUTCOME_RECEIPT_INVALID) (\<lambda>_.
     ebind (outcome_inputs_digest sha (plan_normalized_inputs p)) (\<lambda>d.
     ebind (guarded (rc_inputs_digest r = d) OUTCOME_RECEIPT_INVALID) (\<lambda>_.
     ebind (verification_plan_digest sha (plan_verification_plan p)) (\<lambda>v.
       guarded (rc_verification_digest r = v) OUTCOME_RECEIPT_INVALID)))))))"

text \<open>The write path: the evaluator has to be the one of the plan's verification capability.\<close>

definition derive_context :: "outcome_config \<Rightarrow> execution_plan \<Rightarrow> execution_receipt \<Rightarrow> (outcome_context \<times> string) outcome_result" where
  "derive_context cfg p r =
     ebind (require (plan_verification_plan p) OUTCOME_INPUT_INVALID) (\<lambda>v.
     ebind (require (evaluator_for_capability (oc_registry cfg) (plan_capability_id p)) OUTCOME_EVALUATOR_NOT_FOUND) (\<lambda>ev.
     ebind (guarded (em_verification_id (ev_metadata ev) = fup_capability_id v) OUTCOME_EVALUATOR_NOT_FOUND) (\<lambda>_.
     ebind (ev_derive ev p) (\<lambda>raw.
     ebind (validate_expectation ev raw) (\<lambda>x.
     ebind (expectation_digest (oc_sha cfg) x) (\<lambda>d.
       Inr (\<lparr>cx_plan = p, cx_receipt = r, cx_expectation = x, cx_evaluator = ev\<rparr>, d)))))))"

definition outcome_record_for :: "execution_plan \<Rightarrow> execution_receipt \<Rightarrow> string option \<Rightarrow> string \<Rightarrow> int \<Rightarrow> outcome" where
  "outcome_record_for p r expected i now =
     (let status = initial_verification_status (risk_side_effect_class (plan_risk p)) (rc_state r) in
      \<lparr>oc_id = i, oc_plan_id = plan_id p, oc_decision_id = plan_decision_id p, oc_capability_id = plan_capability_id p,
       oc_capability_version = plan_capability_version p, oc_receipt_id = rc_id r, oc_effect = rc_state r,
       oc_status = status, oc_verification_id = map_option fup_capability_id (plan_verification_plan p),
       oc_expected_digest = expected, oc_latest_digest = None, oc_attempts = [],
       oc_revisit = derive_revisit_required status, oc_rollback = False, oc_created_at = Iso now,
       oc_updated_at = Iso now, oc_correlation = plan_correlation_id p\<rparr>)"

definition open_checks :: "outcome_config \<Rightarrow> execution_plan raw \<Rightarrow> execution_receipt raw option \<Rightarrow> string \<Rightarrow> int \<Rightarrow>
    (outcome \<times> outcome_context option) outcome_result" where
  "open_checks cfg raw_plan resolved i now =
     ebind (safe_parse OUTCOME_INPUT_INVALID parse_plan raw_plan) (\<lambda>p.
     ebind (require resolved OUTCOME_RECEIPT_UNAVAILABLE) (\<lambda>raw.
     ebind (verify_receipt_integrity (oc_sha cfg) raw) (\<lambda>r.
     ebind (bind_receipt_to_plan (oc_sha cfg) r p) (\<lambda>_.
     ebind (if initial_verification_status (risk_side_effect_class (plan_risk p)) (rc_state r) = V_pending
       then ebind (derive_context cfg p r) (\<lambda>c. Inr (Some c)) else Inr None) (\<lambda>c.
     ebind (zod (parse_outcome_record (outcome_record_for p r (map_option snd c) i now))) (\<lambda>record.
       Inr (record, map_option fst c)))))))"

text \<open>The context is registered before the record is stored; a refused creation leaves it behind.\<close>

definition open_outcome :: "outcome_config \<Rightarrow> execution_plan raw \<Rightarrow> execution_receipt raw option \<Rightarrow> string \<Rightarrow> int \<Rightarrow>
    outcome_service \<Rightarrow> outcome outcome_result \<times> outcome_service" where
  "open_outcome cfg raw_plan resolved i now s =
     (case open_checks cfg raw_plan resolved i now of
       Inl e \<Rightarrow> (Inl e, s)
     | Inr (record, c) \<Rightarrow>
         (let s1 = (case c of None \<Rightarrow> s | Some cx \<Rightarrow> s\<lparr>sv_contexts := map_set (oc_id record) cx (sv_contexts s)\<rparr>) in
          case os_create record (sv_store s1) of
            Inl e \<Rightarrow> (Inl e, s1)
          | Inr st \<Rightarrow> (Inr record, s1\<lparr>sv_store := st\<rparr>)))"

section \<open>Beginning an attempt\<close>

text \<open>An injected start time is a text; \<open>inj_iso\<close> says whether it is an ISO timestamp with offset.\<close>

record injected_attempt =
  inj_id :: string
  inj_started_at :: timestamp
  inj_iso :: bool

definition injected_start_ok :: "execution_receipt \<Rightarrow> injected_attempt \<Rightarrow> int \<Rightarrow> unit outcome_result" where
  "injected_start_ok r j now = (case rc_spawned_at r of None \<Rightarrow> Inr ()
     | Some spawned \<Rightarrow> if ts_text (inj_started_at j) = [] then Inr () else
         ebind (guarded (date_parse (inj_started_at j) \<noteq> None) OUTCOME_INPUT_INVALID) (\<lambda>_.
         ebind (guarded (\<not> ts_less (inj_started_at j) spawned) OUTCOME_FRESHNESS_INVALID) (\<lambda>_.
           guarded (\<not> num_less (Some (now + max_observation_clock_skew_ms)) (date_parse (inj_started_at j)))
             OUTCOME_FRESHNESS_INVALID)))"

definition begin_attempt :: "outcome_config \<Rightarrow> string \<Rightarrow> injected_attempt option \<Rightarrow> string \<Rightarrow> int \<Rightarrow>
    outcome_service \<Rightarrow> pending_attempt outcome_result \<times> outcome_service" where
  "begin_attempt cfg i injected generated now s =
     (case ebind (assert_valid_outcome_id i) (\<lambda>_.
           ebind (require (os_get (sv_store s) i) OUTCOME_NOT_FOUND) (\<lambda>r.
           ebind (guarded (oc_status r \<noteq> V_not_required) OUTCOME_VERIFICATION_NOT_REQUIRED) (\<lambda>_.
           ebind (guarded (oc_status r = V_pending) OUTCOME_ATTEMPTS_EXHAUSTED) (\<lambda>_.
           ebind (guarded (\<not> attempts_exhausted (length (oc_attempts r)) (oc_limit cfg)) OUTCOME_ATTEMPTS_EXHAUSTED) (\<lambda>_.
           ebind (guarded (\<not> map_has (sv_pending s) i) OUTCOME_TRANSITION_INVALID) (\<lambda>_.
           let a = (case injected of None \<Rightarrow> generated | Some j \<Rightarrow> inj_id j) in
           ebind (guarded (plan_id_ok a) OUTCOME_INPUT_INVALID) (\<lambda>_.
           ebind (case (map_get (sv_contexts s) i, injected) of
               (Some c, Some j) \<Rightarrow> injected_start_ok (cx_receipt c) j now | _ \<Rightarrow> Inr ()) (\<lambda>_.
           ebind (guarded (case injected of None \<Rightarrow> True | Some j \<Rightarrow> inj_iso j) OUTCOME_INPUT_INVALID) (\<lambda>_.
           ebind (guarded (a \<notin> va_id ` set (oc_attempts r)) OUTCOME_ATTEMPT_MISMATCH) (\<lambda>_.
             Inr \<lparr>pd_id = a, pd_started_at = (case injected of None \<Rightarrow> Iso now | Some j \<Rightarrow> inj_started_at j)\<rparr>)))))))))) of
       Inl e \<Rightarrow> (Inl e, s)
     | Inr p \<Rightarrow> (Inr p, s\<lparr>sv_pending := map_set i p (sv_pending s)\<rparr>))"

section \<open>Completing an attempt\<close>

definition bind_observation :: "observation \<Rightarrow> outcome \<Rightarrow> string \<Rightarrow> outcome_context \<Rightarrow> pending_attempt \<Rightarrow> unit outcome_result" where
  "bind_observation b r a c p =
     ebind (guarded (ob_attempt_id b = a) OUTCOME_ATTEMPT_MISMATCH) (\<lambda>_.
     ebind (guarded (ob_started_at b = pd_started_at p) OUTCOME_ATTEMPT_MISMATCH) (\<lambda>_.
     ebind (guarded (ob_plan_id b = oc_plan_id r) OUTCOME_PLAN_MISMATCH) (\<lambda>_.
     ebind (guarded (ob_receipt_id b = oc_receipt_id r) OUTCOME_RECEIPT_MISMATCH) (\<lambda>_.
     ebind (guarded (Some (ob_capability_id b) = oc_verification_id r) OUTCOME_VERIFICATION_CAPABILITY_MISMATCH) (\<lambda>_.
     ebind (guarded (Some (ob_capability_id b) = map_option fup_capability_id (plan_verification_plan (cx_plan c)))
       OUTCOME_VERIFICATION_CAPABILITY_MISMATCH) (\<lambda>_.
       guarded (ob_subject b = xp_subject (cx_expectation c)) OUTCOME_SUBJECT_MISMATCH))))))"

definition observation_fresh :: "observation \<Rightarrow> execution_receipt \<Rightarrow> int \<Rightarrow> unit outcome_result" where
  "observation_fresh b r now =
     ebind (guarded (opt_ok (\<lambda>t. \<not> ts_less (ob_started_at b) t) (rc_spawned_at r)) OUTCOME_FRESHNESS_INVALID) (\<lambda>_.
     ebind (guarded (\<not> ts_less (ob_observed_at b) (ob_started_at b)) OUTCOME_FRESHNESS_INVALID) (\<lambda>_.
     ebind (guarded (\<not> num_less (Some (now + max_observation_clock_skew_ms)) (date_parse (ob_observed_at b)))
       OUTCOME_FRESHNESS_INVALID) (\<lambda>_.
       guarded (\<not> ts_less (ob_observed_at b) (rc_accepted_at r)) OUTCOME_FRESHNESS_INVALID)))"

text \<open>An error of the evaluator that is not an outcome error becomes \<open>OUTCOME_INPUT_INVALID\<close>.\<close>

definition evaluate_trusted :: "outcome_context \<Rightarrow> observation \<Rightarrow> evaluation outcome_result" where
  "evaluate_trusted c b = (case ebind (ev_evaluate (cx_evaluator c) (cx_expectation c) b) parse_evaluation of
     Inr e \<Rightarrow> Inr e | Inl (Throws e) \<Rightarrow> Inl (Throws e) | Inl _ \<Rightarrow> Inl (Throws OUTCOME_INPUT_INVALID))"

definition judge_observation :: "outcome_context \<Rightarrow> observation \<Rightarrow> evaluation outcome_result" where
  "judge_observation c b =
     (if ob_truncated b \<or> ob_parser b = P_truncated then Inr \<lparr>en_status = A_failed, en_reasons = [R_truncated]\<rparr>
      else if ob_parser b \<noteq> P_parsed
      then Inr \<lparr>en_status = A_failed, en_reasons = [if ob_parser b = P_malformed then R_malformed else R_unsupported]\<rparr>
      else evaluate_trusted c b)"

definition completed_record :: "outcome_config \<Rightarrow> outcome \<Rightarrow> outcome_context \<Rightarrow> attempt \<Rightarrow> string \<Rightarrow> int \<Rightarrow> outcome" where
  "completed_record cfg r c a d now =
     (let status = next_verification_status (va_status a) (length (oc_attempts r) + 1) (oc_limit cfg) in
      r\<lparr>oc_status := status, oc_latest_digest := Some d, oc_attempts := oc_attempts r @ [a],
        oc_revisit := derive_revisit_required status,
        oc_rollback := derive_rollback_candidate status (plan_rollback_plan (cx_plan c) \<noteq> None)
          (risk_reversible (plan_risk (cx_plan c))),
        oc_updated_at := Iso now\<rparr>)"

definition completion :: "outcome_config \<Rightarrow> outcome \<Rightarrow> string \<Rightarrow> string \<Rightarrow> observation raw option \<Rightarrow> int \<Rightarrow> int \<Rightarrow>
    outcome_service \<Rightarrow> outcome outcome_result" where
  "completion cfg r i a resolved now later s =
     ebind (require (map_get (sv_contexts s) i) OUTCOME_CONTEXT_UNAVAILABLE) (\<lambda>c.
     ebind (require (map_get (sv_pending s) i) OUTCOME_ATTEMPT_MISMATCH) (\<lambda>p.
     ebind (guarded (pd_id p = a) OUTCOME_ATTEMPT_MISMATCH) (\<lambda>_.
     ebind (require resolved OUTCOME_OBSERVATION_UNAVAILABLE) (\<lambda>raw.
     ebind (validate_observation (oc_sha cfg) raw) (\<lambda>b.
     ebind (bind_observation b r a c p) (\<lambda>_.
     ebind (observation_fresh b (cx_receipt c) now) (\<lambda>_.
     ebind (guarded (Some (ob_id b) \<notin> va_observation_id ` set (oc_attempts r)) OUTCOME_DUPLICATE_OBSERVATION) (\<lambda>_.
     ebind (expectation_digest (oc_sha cfg) (cx_expectation c)) (\<lambda>x.
     ebind (assert_expectation_matches r x) (\<lambda>_.
     ebind (judge_observation c b) (\<lambda>e.
     ebind (observation_digest (oc_sha cfg) b) (\<lambda>d.
       Inr (completed_record cfg r c \<lparr>va_id = a, va_started_at = pd_started_at p, va_finished_at = Some (Iso later),
         va_observation_id = Some (ob_id b), va_observation_digest = Some d, va_status = en_status e,
         va_reasons = en_reasons e\<rparr> d later)))))))))))))"

text \<open>
  \<open>finally\<close>: an error, whatever it is, releases the attempt slot at once; after a successful update
  the slot is released when the awaited update has settled.
\<close>

definition complete_attempt :: "outcome_config \<Rightarrow> string \<Rightarrow> string \<Rightarrow> observation raw option \<Rightarrow> int \<Rightarrow> int \<Rightarrow>
    outcome_service \<Rightarrow> outcome outcome_result \<times> outcome_service" where
  "complete_attempt cfg i a resolved now later s =
     (case ebind (assert_valid_outcome_id i) (\<lambda>_. require (os_get (sv_store s) i) OUTCOME_NOT_FOUND) of
       Inl e \<Rightarrow> (Inl e, s)
     | Inr r \<Rightarrow> (case completion cfg r i a resolved now later s of
         Inl e \<Rightarrow> (Inl e, s\<lparr>sv_pending := map_delete i (sv_pending s)\<rparr>)
       | Inr updated \<Rightarrow> (case os_update updated (sv_store s) of
           Inl e \<Rightarrow> (Inl e, s\<lparr>sv_pending := map_delete i (sv_pending s)\<rparr>)
         | Inr st \<Rightarrow> (Inr updated, s\<lparr>sv_store := st, sv_settling := i # sv_settling s\<rparr>))))"

definition settle_completion :: "string \<Rightarrow> outcome_service \<Rightarrow> outcome_service" where
  "settle_completion i s = s\<lparr>sv_pending := map_delete i (sv_pending s), sv_settling := remove1 i (sv_settling s)\<rparr>"

section \<open>Reading\<close>

record revision_context =
  rx_outcome :: outcome
  rx_expected :: json_object
  rx_observed :: "json_object option"
  rx_observation_id :: "string option"

text \<open>
  The observation of the last attempt is resolved again; \<open>resolved\<close> is the payload of the answer,
  which is not validated at this point.
\<close>

definition trusted_revision_context :: "string \<Rightarrow> (string \<Rightarrow> json_object option) \<Rightarrow> outcome_service \<Rightarrow> revision_context option" where
  "trusted_revision_context i resolved s = (case (os_get (sv_store s) i, map_get (sv_contexts s) i) of
     (Some r, Some c) \<Rightarrow> (let b = Option.bind (last_attempt r) va_observation_id in
        Some \<lparr>rx_outcome = r, rx_expected = xp_assertions (cx_expectation c), rx_observed = Option.bind b resolved,
              rx_observation_id = b\<rparr>)
   | _ \<Rightarrow> None)"

section \<open>Runs of the service\<close>

text \<open>
  The log records the observations the resolver answered. The generated outcome id of an opening is
  new: \<open>randomUUID\<close> does not repeat.
\<close>

inductive outcome_step :: "outcome_config \<Rightarrow> observation raw list \<times> outcome_service \<Rightarrow> observation raw list \<times> outcome_service \<Rightarrow> bool"
  for cfg where
  opened: "os_get (sv_store s) i = None \<Longrightarrow> map_get (sv_contexts s) i = None \<Longrightarrow>
    open_outcome cfg plan receipt i now s = (res, s') \<Longrightarrow> outcome_step cfg (log, s) (log, s')"
| begun: "begin_attempt cfg i injected generated now s = (res', s') \<Longrightarrow> outcome_step cfg (log, s) (log, s')"
| completed: "complete_attempt cfg i a resolved now later s = (res, s') \<Longrightarrow>
    outcome_step cfg (log, s) (case resolved of None \<Rightarrow> log | Some raw \<Rightarrow> raw # log, s')"
| settled: "i \<in> set (sv_settling s) \<Longrightarrow> outcome_step cfg (log, s) (log, settle_completion i s)"

inductive outcome_reachable :: "outcome_config \<Rightarrow> observation raw list \<Rightarrow> outcome_service \<Rightarrow> bool" for cfg where
  start: "outcome_reachable cfg [] new_service"
| step: "outcome_reachable cfg log s \<Longrightarrow> outcome_step cfg (log, s) (log', s') \<Longrightarrow> outcome_reachable cfg log' s'"

section \<open>Inversion of the operations\<close>

lemma ex_unit: "(\<exists>u :: unit. P u) \<longleftrightarrow> P ()"
  by auto

lemma open_checks_Inr:
  assumes "open_checks cfg raw_plan resolved i now = Inr (q, c)"
  obtains p raw r where "safe_parse OUTCOME_INPUT_INVALID parse_plan raw_plan = Inr p" "resolved = Some raw"
    "verify_receipt_integrity (oc_sha cfg) raw = Inr r" "bind_receipt_to_plan (oc_sha cfg) r p = Inr ()"
    "c = None" "parse_outcome_record (outcome_record_for p r None i now) = Some q"
    "initial_verification_status (risk_side_effect_class (plan_risk p)) (rc_state r) = V_not_required"
  | p raw r cx d where "safe_parse OUTCOME_INPUT_INVALID parse_plan raw_plan = Inr p" "resolved = Some raw"
    "verify_receipt_integrity (oc_sha cfg) raw = Inr r" "bind_receipt_to_plan (oc_sha cfg) r p = Inr ()"
    "c = Some cx" "parse_outcome_record (outcome_record_for p r (Some d) i now) = Some q"
    "initial_verification_status (risk_side_effect_class (plan_risk p)) (rc_state r) = V_pending"
    "derive_context cfg p r = Inr (cx, d)"
proof -
  obtain p raw r cd where x: "safe_parse OUTCOME_INPUT_INVALID parse_plan raw_plan = Inr p" "resolved = Some raw"
      "verify_receipt_integrity (oc_sha cfg) raw = Inr r" "bind_receipt_to_plan (oc_sha cfg) r p = Inr ()"
      "(if initial_verification_status (risk_side_effect_class (plan_risk p)) (rc_state r) = V_pending
        then ebind (derive_context cfg p r) (\<lambda>c. Inr (Some c)) else Inr None) = Inr cd"
      "parse_outcome_record (outcome_record_for p r (map_option snd cd) i now) = Some q" "c = map_option fst cd"
    using assms unfolding open_checks_def by (auto simp: ebind_Inr_iff simp del: not_None_eq)
  show ?thesis
  proof (cases "initial_verification_status (risk_side_effect_class (plan_risk p)) (rc_state r) = V_pending")
    case True
    then obtain d where "derive_context cfg p r = Inr d" "cd = Some d" using x(5) by auto
    then show ?thesis using that(2) [OF x(1-4)] x(6,7) True by (cases d) auto
  next
    case False
    then have "initial_verification_status (risk_side_effect_class (plan_risk p)) (rc_state r) = V_not_required"
      by (auto simp: initial_verification_status_def split: if_splits)
    then show ?thesis using that(1) [OF x(1-4)] x(5-7) False by auto
  qed
qed

lemma open_checks_id: "open_checks cfg raw_plan resolved i now = Inr (q, c) \<Longrightarrow> oc_id q = i"
  by (erule open_checks_Inr) (auto simp: parse_outcome_record_Some outcome_record_for_def Let_def)

lemma open_outcome_cases:
  assumes "open_outcome cfg raw_plan resolved i now s = (res, s')"
  obtains (refused) e where "res = Inl e" "s' = s"
  | (uncreated) e q c where "res = Inl e" "s' = s\<lparr>sv_contexts := map_set i c (sv_contexts s)\<rparr>"
      "open_checks cfg raw_plan resolved i now = Inr (q, Some c)"
  | (unwatched) q st where "res = Inr q" "os_create q (sv_store s) = Inr st" "s' = s\<lparr>sv_store := st\<rparr>"
      "open_checks cfg raw_plan resolved i now = Inr (q, None)"
  | (watched) q c st where "res = Inr q" "os_create q (sv_store s) = Inr st"
      "s' = s\<lparr>sv_contexts := map_set i c (sv_contexts s), sv_store := st\<rparr>"
      "open_checks cfg raw_plan resolved i now = Inr (q, Some c)"
proof (cases "open_checks cfg raw_plan resolved i now")
  case (Inl e)
  then show ?thesis using assms refused [of e] by (simp add: open_outcome_def)
next
  case (Inr qc)
  obtain q c where qc: "qc = (q, c)" by (cases qc)
  have id: "oc_id q = i" using Inr qc open_checks_id by blast
  show ?thesis
  proof (cases c; cases "os_create q (sv_store s)")
    fix e assume "c = None" "os_create q (sv_store s) = Inl e"
    then show ?thesis using assms Inr qc refused [of e] by (simp add: open_outcome_def)
  next
    fix st assume "c = None" "os_create q (sv_store s) = Inr st"
    then show ?thesis using assms Inr qc unwatched [of q st] by (simp add: open_outcome_def)
  next
    fix cx e assume "c = Some cx" "os_create q (sv_store s) = Inl e"
    then show ?thesis using assms Inr qc id uncreated [of e cx q] by (simp add: open_outcome_def)
  next
    fix cx st assume "c = Some cx" "os_create q (sv_store s) = Inr st"
    then show ?thesis using assms Inr qc id watched [of q st cx] by (simp add: open_outcome_def)
  qed
qed

lemma begin_attempt_Inl: "begin_attempt cfg i injected generated now s = (Inl e, s') \<Longrightarrow> s' = s"
  unfolding begin_attempt_def by (simp split: sum.splits)

lemma begin_attempt_Inr:
  assumes "begin_attempt cfg i injected generated now s = (Inr p, s')"
  shows "s' = s\<lparr>sv_pending := map_set i p (sv_pending s)\<rparr> \<and> (\<exists>r. os_get (sv_store s) i = Some r \<and>
      oc_status r = V_pending \<and> length (oc_attempts r) < oc_limit cfg \<and> map_get (sv_pending s) i = None \<and>
      plan_id_ok (pd_id p) \<and> pd_id p \<notin> va_id ` set (oc_attempts r))"
  using assms unfolding begin_attempt_def
  by (simp add: Let_def split: sum.splits) (auto simp: ebind_Inr_iff map_has_def attempts_exhausted_def)

lemma begin_attempt_cases:
  assumes "begin_attempt cfg i injected generated now s = (res, s')"
  obtains (refused) e where "res = Inl e" "s' = s"
  | (begun) p r where "res = Inr p" "s' = s\<lparr>sv_pending := map_set i p (sv_pending s)\<rparr>" "os_get (sv_store s) i = Some r"
      "oc_status r = V_pending" "length (oc_attempts r) < oc_limit cfg" "map_get (sv_pending s) i = None"
      "plan_id_ok (pd_id p)" "pd_id p \<notin> va_id ` set (oc_attempts r)"
proof (cases res)
  case (Inl e)
  then show ?thesis using assms begin_attempt_Inl refused by blast
next
  case (Inr p)
  then show ?thesis using assms begin_attempt_Inr begun by blast
qed

lemma completion_Inr:
  "completion cfg r i a resolved now later s = Inr u \<longleftrightarrow> (\<exists>c p raw b x e d.
     map_get (sv_contexts s) i = Some c \<and> map_get (sv_pending s) i = Some p \<and> pd_id p = a \<and> resolved = Some raw \<and>
     validate_observation (oc_sha cfg) raw = Inr b \<and> bind_observation b r a c p = Inr () \<and>
     observation_fresh b (cx_receipt c) now = Inr () \<and> Some (ob_id b) \<notin> va_observation_id ` set (oc_attempts r) \<and>
     expectation_digest (oc_sha cfg) (cx_expectation c) = Inr x \<and> assert_expectation_matches r x = Inr () \<and>
     judge_observation c b = Inr e \<and> observation_digest (oc_sha cfg) b = Inr d \<and>
     completed_record cfg r c \<lparr>va_id = a, va_started_at = pd_started_at p, va_finished_at = Some (Iso later),
         va_observation_id = Some (ob_id b), va_observation_digest = Some d, va_status = en_status e,
         va_reasons = en_reasons e\<rparr> d later = u)"
    (is "_ \<longleftrightarrow> ?r")
proof
  assume "completion cfg r i a resolved now later s = Inr u"
  then show ?r unfolding completion_def ebind_Inr_iff require_Inr guarded_Inr sum.inject ex_unit
    by (elim exE conjE) (intro exI conjI; assumption)
next
  assume ?r
  then show "completion cfg r i a resolved now later s = Inr u"
    unfolding completion_def by (elim exE conjE) simp
qed

lemma complete_attempt_cases:
  assumes "complete_attempt cfg i a resolved now later s = (res, s')"
  obtains (unknown) e where "res = Inl e" "s' = s"
  | (failed) e where "res = Inl e" "s' = s\<lparr>sv_pending := map_delete i (sv_pending s)\<rparr>"
  | (recorded) r u st where "res = Inr u" "os_get (sv_store s) i = Some r" "completion cfg r i a resolved now later s = Inr u"
      "os_update u (sv_store s) = Inr st" "s' = s\<lparr>sv_store := st, sv_settling := i # sv_settling s\<rparr>"
proof (cases "ebind (assert_valid_outcome_id i) (\<lambda>_. require (os_get (sv_store s) i) OUTCOME_NOT_FOUND)")
  case (Inl e)
  then show ?thesis using assms unknown [of e] by (simp add: complete_attempt_def)
next
  case (Inr r)
  then have r: "os_get (sv_store s) i = Some r" by (auto simp: ebind_Inr_iff)
  show ?thesis
  proof (cases "completion cfg r i a resolved now later s")
    case (Inl e)
    then show ?thesis using assms \<open>ebind _ _ = Inr r\<close> failed [of e] by (simp add: complete_attempt_def)
  next
    case (Inr u)
    show ?thesis
    proof (cases "os_update u (sv_store s)")
      case (Inl e)
      then show ?thesis using assms \<open>ebind _ _ = Inr r\<close> \<open>completion _ _ _ _ _ _ _ _ = Inr u\<close> failed [of e]
        by (simp add: complete_attempt_def)
    next
      case (Inr st)
      then show ?thesis using assms \<open>ebind _ _ = Inr r\<close> \<open>completion _ _ _ _ _ _ _ _ = Inr u\<close> recorded [OF _ r, of u st]
        by (simp add: complete_attempt_def)
    qed
  qed
qed

section \<open>Evidence of a verified attempt\<close>

text \<open>
  The context of an outcome: the evaluator is the one registered for the plan's capability, it
  derived the expectation from the plan, and the plan is the outcome's.
\<close>

definition context_ok :: "outcome_config \<Rightarrow> outcome_context \<Rightarrow> bool" where
  "context_ok cfg c \<longleftrightarrow> evaluator_for_capability (oc_registry cfg) (plan_capability_id (cx_plan c)) = Some (cx_evaluator c) \<and>
     ebind (ev_derive (cx_evaluator c) (cx_plan c)) (validate_expectation (cx_evaluator c)) = Inr (cx_expectation c)"

definition context_of :: "outcome_context \<Rightarrow> outcome \<Rightarrow> bool" where
  "context_of c r \<longleftrightarrow> oc_plan_id r = plan_id (cx_plan c) \<and> oc_capability_id r = plan_capability_id (cx_plan c) \<and>
     oc_receipt_id r = rc_id (cx_receipt c) \<and> oc_effect r = rc_state (cx_receipt c)"

text \<open>
  The attempt was decided by an observation the resolver answered: intact, of this outcome, this
  attempt and this expectation, complete and parsed, not older than the execution, and judged
  verified by the evaluator of the context.
\<close>

definition evidenced :: "outcome_config \<Rightarrow> observation raw list \<Rightarrow> outcome_context \<Rightarrow> outcome \<Rightarrow> attempt \<Rightarrow> bool" where
  "evidenced cfg log c r a \<longleftrightarrow> (\<exists>raw \<in> set log. \<exists>b e. validate_observation (oc_sha cfg) raw = Inr b \<and>
     ob_attempt_id b = va_id a \<and> va_observation_id a = Some (ob_id b) \<and> ob_plan_id b = oc_plan_id r \<and>
     ob_receipt_id b = oc_receipt_id r \<and> Some (ob_capability_id b) = oc_verification_id r \<and>
     ob_subject b = xp_subject (cx_expectation c) \<and> \<not> ob_truncated b \<and> ob_parser b = P_parsed \<and>
     \<not> ts_less (ob_observed_at b) (rc_accepted_at (cx_receipt c)) \<and>
     ebind (ev_evaluate (cx_evaluator c) (cx_expectation c) b) parse_evaluation = Inr e \<and> en_status e = A_verified)"

definition service_inv :: "outcome_config \<Rightarrow> observation raw list \<Rightarrow> outcome_service \<Rightarrow> bool" where
  "service_inv cfg log s \<longleftrightarrow> os_inv (sv_store s) \<and>
     (\<forall>i c. map_get (sv_contexts s) i = Some c \<longrightarrow> context_ok cfg c) \<and>
     (\<forall>i r. os_get (sv_store s) i = Some r \<longrightarrow>
        length (oc_attempts r) \<le> oc_limit cfg \<and> (oc_status r = V_pending \<longrightarrow> length (oc_attempts r) < oc_limit cfg) \<and>
        (\<forall>c. map_get (sv_contexts s) i = Some c \<longrightarrow> context_of c r) \<and>
        (\<forall>a \<in> set (oc_attempts r). va_status a = A_verified \<longrightarrow>
           (\<exists>c. map_get (sv_contexts s) i = Some c \<and> evidenced cfg log c r a))) \<and>
     (\<forall>i p. map_get (sv_pending s) i = Some p \<longrightarrow> (\<exists>r. os_get (sv_store s) i = Some r \<and>
        (oc_status r = V_pending \<or> pd_id p \<in> va_id ` set (oc_attempts r))))"

lemma evidenced_mono: "evidenced cfg log c r a \<Longrightarrow> set log \<subseteq> set log' \<Longrightarrow> evidenced cfg log' c r a"
  unfolding evidenced_def by (erule bexE, rule bexI [rotated], erule (1) subsetD, assumption)

lemma evidenced_same: "same_outcome r q \<Longrightarrow> evidenced cfg log c r a = evidenced cfg log c q a"
  by (simp add: evidenced_def same_outcome_def)

lemma context_of_same: "same_outcome r q \<Longrightarrow> context_of c r = context_of c q"
  by (simp add: context_of_def same_outcome_def)

lemma derive_context_ok: "derive_context cfg p r = Inr (c, d) \<Longrightarrow> context_ok cfg c \<and> cx_plan c = p \<and> cx_receipt c = r"
  by (auto simp: derive_context_def ebind_Inr_iff context_ok_def)

lemma validate_observation_trim: "validate_observation sha raw = Inr b \<Longrightarrow> js_trim (ob_id b) = ob_id b"
  by (auto simp: validate_observation_def ebind_Inr_iff safe_parse_Inr parse_observation_def parse_with_Some norm_observation_def)

lemma evaluate_trusted_Inr: "evaluate_trusted c b = Inr e \<Longrightarrow>
    ebind (ev_evaluate (cx_evaluator c) (cx_expectation c) b) parse_evaluation = Inr e"
  by (auto simp: evaluate_trusted_def split: sum.splits throws.splits)

lemma judged_verified:
  assumes "judge_observation c b = Inr e" "en_status e = A_verified"
  shows "\<not> ob_truncated b \<and> ob_parser b = P_parsed \<and>
    ebind (ev_evaluate (cx_evaluator c) (cx_expectation c) b) parse_evaluation = Inr e"
  using assms by (auto simp: judge_observation_def dest: evaluate_trusted_Inr split: if_splits)

text \<open>What a completion adds to the record.\<close>

lemma completion_effect:
  assumes "completion cfg r i a resolved now later s = Inr u"
  obtains c x raw where "map_get (sv_contexts s) i = Some c" "resolved = Some raw" "oc_attempts u = oc_attempts r @ [x]"
    "va_id x = a" "va_observation_id x = map_option js_trim (va_observation_id x)"
    "oc_status u = next_verification_status (va_status x) (length (oc_attempts r) + 1) (oc_limit cfg)"
    "\<exists>p. map_get (sv_pending s) i = Some p \<and> pd_id p = a"
    "va_status x = A_verified \<longrightarrow> evidenced cfg (raw # log) c r x" "oc_id u = oc_id r"
proof -
  from assms obtain c p raw b y e d where c: "map_get (sv_contexts s) i = Some c" "map_get (sv_pending s) i = Some p" "pd_id p = a"
      "resolved = Some raw" "validate_observation (oc_sha cfg) raw = Inr b" "bind_observation b r a c p = Inr ()"
      "observation_fresh b (cx_receipt c) now = Inr ()" "judge_observation c b = Inr e"
    and u: "completed_record cfg r c \<lparr>va_id = a, va_started_at = pd_started_at p, va_finished_at = Some (Iso later),
         va_observation_id = Some (ob_id b), va_observation_digest = Some d, va_status = en_status e,
         va_reasons = en_reasons e\<rparr> d later = u"
    unfolding completion_Inr by blast
  let ?x = "\<lparr>va_id = a, va_started_at = pd_started_at p, va_finished_at = Some (Iso later),
         va_observation_id = Some (ob_id b), va_observation_digest = Some d, va_status = en_status e,
         va_reasons = en_reasons e\<rparr>"
  have "evidenced cfg (raw # log) c r ?x" if "en_status e = A_verified"
    using c(5-7) judged_verified [OF c(8) that] that unfolding evidenced_def
    by (auto simp: bind_observation_def observation_fresh_def ebind_Inr_iff intro!: exI [of _ b])
  then show ?thesis
    using that [of c raw ?x] c u validate_observation_trim [OF c(5)] by (auto simp: completed_record_def Let_def)
qed

section \<open>The invariant\<close>

lemma service_invI:
  assumes "os_inv (sv_store s)" "\<And>i c. map_get (sv_contexts s) i = Some c \<Longrightarrow> context_ok cfg c"
    "\<And>i r. os_get (sv_store s) i = Some r \<Longrightarrow> length (oc_attempts r) \<le> oc_limit cfg"
    "\<And>i r. os_get (sv_store s) i = Some r \<Longrightarrow> oc_status r = V_pending \<Longrightarrow> length (oc_attempts r) < oc_limit cfg"
    "\<And>i r c. os_get (sv_store s) i = Some r \<Longrightarrow> map_get (sv_contexts s) i = Some c \<Longrightarrow> context_of c r"
    "\<And>i r a. os_get (sv_store s) i = Some r \<Longrightarrow> a \<in> set (oc_attempts r) \<Longrightarrow> va_status a = A_verified \<Longrightarrow>
      \<exists>c. map_get (sv_contexts s) i = Some c \<and> evidenced cfg log c r a"
    "\<And>i p. map_get (sv_pending s) i = Some p \<Longrightarrow> \<exists>r. os_get (sv_store s) i = Some r \<and>
        (oc_status r = V_pending \<or> pd_id p \<in> va_id ` set (oc_attempts r))"
  shows "service_inv cfg log s"
  using assms unfolding service_inv_def by blast

lemma service_invD:
  assumes "service_inv cfg log s"
  shows "os_inv (sv_store s)" "map_get (sv_contexts s) i = Some c \<Longrightarrow> context_ok cfg c"
    "os_get (sv_store s) i = Some r \<Longrightarrow> length (oc_attempts r) \<le> oc_limit cfg"
    "os_get (sv_store s) i = Some r \<Longrightarrow> oc_status r = V_pending \<Longrightarrow> length (oc_attempts r) < oc_limit cfg"
    "os_get (sv_store s) i = Some r \<Longrightarrow> map_get (sv_contexts s) i = Some c \<Longrightarrow> context_of c r"
    "os_get (sv_store s) i = Some r \<Longrightarrow> a \<in> set (oc_attempts r) \<Longrightarrow> va_status a = A_verified \<Longrightarrow>
      \<exists>c. map_get (sv_contexts s) i = Some c \<and> evidenced cfg log c r a"
    "map_get (sv_pending s) i = Some p \<Longrightarrow> \<exists>r. os_get (sv_store s) i = Some r \<and>
        (oc_status r = V_pending \<or> pd_id p \<in> va_id ` set (oc_attempts r))"
  using assms unfolding service_inv_def by blast+

lemma opened_record:
  assumes "open_checks cfg plan receipt i now = Inr (q, c)"
  shows "parse_outcome_record q = Some q" "oc_attempts q = []" "oc_id q = i"
    "\<And>cx. c = Some cx \<Longrightarrow> context_ok cfg cx \<and> context_of cx q"
    "oc_status q = V_pending \<or> oc_status q = V_not_required"
proof -
  have "parse_outcome_record q = Some q \<and> oc_attempts q = [] \<and> (\<forall>cx. c = Some cx \<longrightarrow> context_ok cfg cx \<and> context_of cx q) \<and>
      (oc_status q = V_pending \<or> oc_status q = V_not_required)"
    using assms
  proof (cases rule: open_checks_Inr)
    case (1 p raw r)
    then show ?thesis
      by (auto simp: parse_outcome_record_Some outcome_record_for_def norm_outcome_record_def Let_def initial_verification_status_def)
  next
    case (2 p raw r cx d)
    have "js_trim (rc_id r) = rc_id r"
      using 2(3) by (auto simp: verify_receipt_integrity_def ebind_Inr_iff safe_parse_Inr parse_receipt_def parse_with_Some norm_receipt_def)
    then show ?thesis using 2(5-7) derive_context_ok [OF 2(8)]
      by (auto simp: parse_outcome_record_Some outcome_record_for_def norm_outcome_record_def context_of_def Let_def
          initial_verification_status_def)
  qed
  then show "parse_outcome_record q = Some q" "oc_attempts q = []"
    "\<And>cx. c = Some cx \<Longrightarrow> context_ok cfg cx \<and> context_of cx q" "oc_status q = V_pending \<or> oc_status q = V_not_required"
    by auto
  show "oc_id q = i" by (rule open_checks_id [OF assms])
qed

lemma opened_inv:
  assumes inv: "service_inv cfg log s" and lim: "1 \<le> oc_limit cfg"
    and new: "os_get (sv_store s) i = None" "map_get (sv_contexts s) i = None"
    and run: "open_outcome cfg plan receipt i now s = (res, s')"
  shows "service_inv cfg log s'"
proof -
  note D = service_invD [OF inv]
  have stored: "service_inv cfg log (s\<lparr>sv_contexts := m, sv_store := st\<rparr>)"
    if q: "os_create q (sv_store s) = Inr st" "open_checks cfg plan receipt i now = Inr (q, c)"
      and m: "\<And>j cx. map_get m j = Some cx \<Longrightarrow> (j = i \<and> c = Some cx) \<or> (j \<noteq> i \<and> map_get (sv_contexts s) j = Some cx)"
        "\<And>j cx. map_get (sv_contexts s) j = Some cx \<Longrightarrow> map_get m j = Some cx" for q st c m
  proof -
    note o = opened_record [OF q(2)]
    have get: "os_get st j = (if j = i then Some q else os_get (sv_store s) j)" for j
      using os.insert_lookup [OF q(1)] o(1,3) by auto
    have st: "os_inv st" by (rule osv.insert_inv [OF D(1) _ q(1)]) (simp add: unattempted_def o(2))
    show ?thesis
    proof (rule service_invI)
      fix j r cx assume "os_get (sv_store (s\<lparr>sv_contexts := m, sv_store := st\<rparr>)) j = Some r"
        "map_get (sv_contexts (s\<lparr>sv_contexts := m, sv_store := st\<rparr>)) j = Some cx"
      then show "context_of cx r" using m(1) [of j cx] D(5) o(4) by (auto simp: get split: if_splits)
    next
      fix j p assume "map_get (sv_pending (s\<lparr>sv_contexts := m, sv_store := st\<rparr>)) j = Some p"
      then show "\<exists>r. os_get (sv_store (s\<lparr>sv_contexts := m, sv_store := st\<rparr>)) j = Some r \<and>
          (oc_status r = V_pending \<or> pd_id p \<in> va_id ` set (oc_attempts r))"
        using D(7) [of j p] new(1) by (auto simp: get)
    next
      fix j r a assume a: "os_get (sv_store (s\<lparr>sv_contexts := m, sv_store := st\<rparr>)) j = Some r"
        "a \<in> set (oc_attempts r)" "va_status a = A_verified"
      then have "os_get (sv_store s) j = Some r" using o(2) by (auto simp: get split: if_splits)
      from D(6) [OF this a(2,3)] m(2) [of j]
      show "\<exists>cx. map_get (sv_contexts (s\<lparr>sv_contexts := m, sv_store := st\<rparr>)) j = Some cx \<and> evidenced cfg log cx r a" by auto
    next
      fix j cx assume "map_get (sv_contexts (s\<lparr>sv_contexts := m, sv_store := st\<rparr>)) j = Some cx"
      then show "context_ok cfg cx" using m(1) [of j cx] D(2) [of j cx] o(4) by auto
    next
      fix j r assume "os_get (sv_store (s\<lparr>sv_contexts := m, sv_store := st\<rparr>)) j = Some r"
      then show "length (oc_attempts r) \<le> oc_limit cfg" "oc_status r = V_pending \<Longrightarrow> length (oc_attempts r) < oc_limit cfg"
        using D(3,4) [of j r] o(2) lim by (auto simp: get split: if_splits)
    qed (use st in simp)
  qed
  from run show ?thesis
  proof (cases rule: open_outcome_cases)
    case (uncreated e q c)
    have "service_inv cfg log (s\<lparr>sv_contexts := map_set i c (sv_contexts s)\<rparr>)"
    proof (rule service_invI)
      fix j r a assume "os_get (sv_store (s\<lparr>sv_contexts := map_set i c (sv_contexts s)\<rparr>)) j = Some r"
        "a \<in> set (oc_attempts r)" "va_status a = A_verified"
      then show "\<exists>ca. map_get (sv_contexts (s\<lparr>sv_contexts := map_set i c (sv_contexts s)\<rparr>)) j = Some ca \<and> evidenced cfg log ca r a"
        using D(6) [of j r a] new by (auto simp: map_get_set)
    qed (use D new opened_record(4) [OF uncreated(3)] in \<open>auto simp: map_get_set split: if_splits\<close>)
    then show ?thesis using uncreated(2) by simp
  next
    case (unwatched q st)
    have "service_inv cfg log (s\<lparr>sv_contexts := sv_contexts s, sv_store := st\<rparr>)"
      by (rule stored [OF unwatched(2,4)]) (use new in auto)
    then show ?thesis using unwatched(3) by simp
  next
    case (watched q c st)
    have "service_inv cfg log (s\<lparr>sv_contexts := map_set i c (sv_contexts s), sv_store := st\<rparr>)"
      by (rule stored [OF watched(2,4)]) (use new in \<open>auto simp: map_get_set split: if_splits\<close>)
    then show ?thesis using watched(3) by simp
  qed (use inv in simp)
qed

lemma begun_inv:
  assumes inv: "service_inv cfg log s" and run: "begin_attempt cfg i injected generated now s = (res, s')"
  shows "service_inv cfg log s'"
  using run
proof (cases rule: begin_attempt_cases)
  case (begun p r)
  then show ?thesis using inv unfolding service_inv_def by (auto simp: map_get_set)
qed (use inv in simp)

lemma dropped_inv:
  assumes "service_inv cfg log s" shows "service_inv cfg log (s\<lparr>sv_pending := map_delete i (sv_pending s), sv_settling := xs\<rparr>)"
  using assms unfolding service_inv_def by (auto simp: map_get_delete)

lemma log_inv: "service_inv cfg log s \<Longrightarrow> set log \<subseteq> set log' \<Longrightarrow> service_inv cfg log' s"
  unfolding service_inv_def using evidenced_mono by blast

lemma next_status_pending: "next_verification_status a n limit = V_pending \<Longrightarrow> n < limit"
  by (cases a) (auto simp: next_verification_status_def attempts_exhausted_def split: if_splits)

lemma recorded_update:
  assumes inv: "service_inv cfg log s" and r: "os_get (sv_store s) i = Some r"
    and c: "completion cfg r i a resolved now later s = Inr u" and u: "os_update u (sv_store s) = Inr st"
  obtains p x cx raw where "st = map_set i p (sv_store s)" "outcome_extends r p" "oc_attempts p = oc_attempts r @ [x]" "va_id x = a"
    "a \<notin> va_id ` set (oc_attempts r)" "oc_status r = V_pending" "resolved = Some raw" "map_get (sv_contexts s) i = Some cx"
    "oc_status p = next_verification_status (va_status x) (length (oc_attempts r) + 1) (oc_limit cfg)"
    "va_status x = A_verified \<longrightarrow> evidenced cfg (raw # log) cx r x" "parse_outcome_record u = Some p"
proof -
  note D = service_invD [OF inv]
  obtain cx x raw where e: "map_get (sv_contexts s) i = Some cx" "resolved = Some raw" "oc_attempts u = oc_attempts r @ [x]"
    "va_id x = a" "va_observation_id x = map_option js_trim (va_observation_id x)"
    "oc_status u = next_verification_status (va_status x) (length (oc_attempts r) + 1) (oc_limit cfg)"
    "\<exists>p. map_get (sv_pending s) i = Some p \<and> pd_id p = a"
    "va_status x = A_verified \<longrightarrow> evidenced cfg (raw # log) cx r x" "oc_id u = oc_id r"
    by (rule completion_effect [OF c, of log]) (rule that; assumption)
  have ri: "oc_id r = i" "parse_outcome_record r = Some r" using os_inv_get [OF D(1) r] by simp_all
  obtain q p where p: "os_get (sv_store s) (oc_id u) = Some q" "outcome_extends q p" "parse_outcome_record u = Some p"
      "st = map_set (oc_id u) p (sv_store s)"
    by (rule os_update_extends [OF D(1) u])
  have q: "q = r" using p(1) r e(9) ri by simp
  have "oc_attempts (norm_outcome_record r) = oc_attempts r" using ri(2) by (simp add: parse_outcome_record_Some)
  then have "map norm_attempt (oc_attempts r) = oc_attempts r" by (simp add: norm_outcome_record_def)
  moreover have "norm_attempt x = x" using e(5) by (simp add: norm_attempt_def)
  ultimately have at: "oc_attempts p = oc_attempts r @ [x]"
    using p(3) e(3) by (auto simp: parse_outcome_record_Some norm_outcome_record_def)
  have "outcome_ok p" using p(3) by (auto simp: parse_outcome_record_Some)
  then have fresh: "a \<notin> va_id ` set (oc_attempts r)" using at e(4) by (auto simp: outcome_ok_def)
  have "oc_status r = V_pending" using e(7) D(7) [of i] r fresh by fastforce
  then show ?thesis
    using that [of p x raw cx] p q e at fresh ri by (auto simp: parse_outcome_record_Some)
qed

lemma completed_inv:
  assumes inv: "service_inv cfg log s" and run: "complete_attempt cfg i a resolved now later s = (res, s')"
  shows "service_inv cfg (case resolved of None \<Rightarrow> log | Some raw \<Rightarrow> raw # log) s'"
proof -
  let ?log = "case resolved of None \<Rightarrow> log | Some raw \<Rightarrow> raw # log"
  have inv': "service_inv cfg ?log s" using inv by (rule log_inv) (auto split: option.splits)
  note D = service_invD [OF inv']
  from run show ?thesis
  proof (cases rule: complete_attempt_cases)
    case (failed e)
    then show ?thesis using dropped_inv [OF inv', where i = i and xs = "sv_settling s"] by simp
  next
    case (recorded r u st)
    obtain p x cx raw where p: "st = map_set i p (sv_store s)" "outcome_extends r p" "oc_attempts p = oc_attempts r @ [x]"
      "va_id x = a" "a \<notin> va_id ` set (oc_attempts r)" "oc_status r = V_pending" "resolved = Some raw"
      "map_get (sv_contexts s) i = Some cx"
      "oc_status p = next_verification_status (va_status x) (length (oc_attempts r) + 1) (oc_limit cfg)"
      "va_status x = A_verified \<longrightarrow> evidenced cfg (raw # log) cx r x" "parse_outcome_record u = Some p"
      by (rule recorded_update [OF inv recorded(2,3,4)])
    have same: "same_outcome r p" using p(2) by (simp add: outcome_extends_def)
    have get: "os_get st j = (if j = i then Some p else os_get (sv_store s) j)" for j
      by (simp add: p(1) os_get_def map_get_set)
    have len: "length (oc_attempts r) < oc_limit cfg" by (rule D(4) [OF recorded(2) p(6)])
    have "service_inv cfg ?log (s\<lparr>sv_store := st, sv_settling := i # sv_settling s\<rparr>)"
    proof (rule service_invI)
      show "os_inv (sv_store (s\<lparr>sv_store := st, sv_settling := i # sv_settling s\<rparr>))"
        using os_update_inv [OF D(1) recorded(4)] by simp
    next
      fix j q assume g: "os_get (sv_store (s\<lparr>sv_store := st, sv_settling := i # sv_settling s\<rparr>)) j = Some q"
      show "length (oc_attempts q) \<le> oc_limit cfg" using g D(3) [of j q] len p(3) by (auto simp: get split: if_splits)
      show "oc_status q = V_pending \<Longrightarrow> length (oc_attempts q) < oc_limit cfg"
        using g D(4) [of j q] p(3) next_status_pending [OF p(9) [symmetric, THEN trans]] by (auto simp: get split: if_splits)
    next
      fix j q c assume "os_get (sv_store (s\<lparr>sv_store := st, sv_settling := i # sv_settling s\<rparr>)) j = Some q"
        "map_get (sv_contexts (s\<lparr>sv_store := st, sv_settling := i # sv_settling s\<rparr>)) j = Some c"
      then show "context_of c q" using D(5) [of j _ c] recorded(2) context_of_same [OF same, of c]
        by (auto simp: get split: if_splits)
    next
      fix j q y assume g: "os_get (sv_store (s\<lparr>sv_store := st, sv_settling := i # sv_settling s\<rparr>)) j = Some q"
        "y \<in> set (oc_attempts q)" "va_status y = A_verified"
      show "\<exists>c. map_get (sv_contexts (s\<lparr>sv_store := st, sv_settling := i # sv_settling s\<rparr>)) j = Some c \<and>
          evidenced cfg ?log c q y"
      proof (cases "j = i")
        case True
        then have "q = p" using g(1) by (simp add: get)
        then have "y = x \<or> y \<in> set (oc_attempts r)" using g(2) p(3) by auto
        then show ?thesis
          using True \<open>q = p\<close> D(6) [OF recorded(2) _ g(3)] p(7,8,10) g(3) evidenced_same [OF same] by auto
      next
        case False
        then show ?thesis using g D(6) [of j q y] by (simp add: get)
      qed
    next
      fix j q assume "map_get (sv_pending (s\<lparr>sv_store := st, sv_settling := i # sv_settling s\<rparr>)) j = Some q"
      moreover have "pd_id q = a" if "map_get (sv_pending s) i = Some q" for q
        using recorded(3) that by (auto simp: completion_Inr)
      ultimately show "\<exists>r. os_get (sv_store (s\<lparr>sv_store := st, sv_settling := i # sv_settling s\<rparr>)) j = Some r \<and>
          (oc_status r = V_pending \<or> pd_id q \<in> va_id ` set (oc_attempts r))"
        using D(7) [of j q] p(3,4) by (auto simp: get)
    qed (use D(2) in simp)
    then show ?thesis using recorded(5) by simp
  qed (use inv' in simp)
qed

lemma outcome_step_inv:
  assumes "outcome_step cfg (log, s) (log', s')" "service_inv cfg log s" "1 \<le> oc_limit cfg"
  shows "service_inv cfg log' s'"
  using assms(1)
proof cases
  case (opened i plan receipt now res)
  then show ?thesis using opened_inv [OF assms(2,3)] by blast
next
  case (begun i injected generated now res')
  then show ?thesis using begun_inv [OF assms(2)] by blast
next
  case (completed i a resolved now later res)
  then show ?thesis using completed_inv [OF assms(2)] by blast
next
  case (settled i)
  then show ?thesis using dropped_inv [OF assms(2)] by (simp add: settle_completion_def)
qed

lemma new_service_inv: "service_inv cfg [] new_service"
  by (simp add: service_inv_def new_service_def os_get_def)

lemma outcome_reachable_inv:
  assumes "outcome_reachable cfg log s" "1 \<le> oc_limit cfg" shows "service_inv cfg log s"
  using assms(1)
proof induction
  case (step log s log' s')
  then show ?case using outcome_step_inv assms(2) by blast
qed (rule new_service_inv)

end
