(* ===== verification/Outcome_Lifecycle.thy ===== *)
theory Outcome_Lifecycle
  imports Outcome_Service Eligibility
begin

text \<open>
  Properties of the outcome service (\<open>src/brain-server/src/outcome/service.ts\<close>) over all runs, and a
  concrete run for the branch evaluator: an outcome is opened for an executed plan, an attempt is
  begun, and the read-back of the branch verifies it.
\<close>

section \<open>A concrete run\<close>

definition start_sha :: string where
  "start_sha = replicate 40 CHR ''c''"

definition branch_plan :: execution_plan where
  "branch_plan = sample_plan\<lparr>plan_normalized_inputs :=
     [(''repository_path'', JStr ''/r''), (''branch_name'', JStr ''b''), (''start_point'', JStr start_sha)]\<rparr>"

definition branch_receipt :: execution_receipt where
  "branch_receipt = \<lparr>rc_id = ''rcpt-1'', rc_plan_id = ''plan-0001'', rc_decision_id = ''dec-1'',
     rc_capability_id = ''git.branch.create'', rc_capability_version = ''1.0.0'', rc_adapter_id = ''git-cli'',
     rc_inputs_digest = sample_digest, rc_verification_digest = Some sample_digest, rc_state = Process_succeeded,
     rc_accepted_at = Iso 2000, rc_spawned_at = Some (Iso 2001), rc_finished_at = Some (Iso 2002), rc_exit_code = Some 0,
     rc_timed_out = False, rc_cancelled = False, rc_digest = sample_digest\<rparr>"

definition branch_config :: outcome_config where
  "branch_config = \<lparr>oc_sha = sample_sha,
     oc_registry = \<lparr>er_by_capability = [(''git.branch.create'', git_branch_create_evaluator)],
       er_by_id = [(''git-branch-create-evaluator'', git_branch_create_evaluator)]\<rparr>, oc_limit = 3\<rparr>"

definition branch_expectation :: expectation where
  "branch_expectation = \<lparr>xp_evaluator = ''git-branch-create-evaluator'', xp_capability_id = ''git.branch.create'',
     xp_verification_id = ''git.branch.read'', xp_subject = ''git:branch:b'',
     xp_assertions = [(''repository_path'', JStr ''/r''), (''branch_name'', JStr ''b''), (''target_sha'', JStr start_sha)]\<rparr>"

definition branch_context :: outcome_context where
  "branch_context = \<lparr>cx_plan = branch_plan, cx_receipt = branch_receipt, cx_expectation = branch_expectation,
     cx_evaluator = git_branch_create_evaluator\<rparr>"

definition opened_outcome :: outcome where
  "opened_outcome = \<lparr>oc_id = ''out-00001'', oc_plan_id = ''plan-0001'', oc_decision_id = ''dec-1'',
     oc_capability_id = ''git.branch.create'', oc_capability_version = ''1.0.0'', oc_receipt_id = ''rcpt-1'',
     oc_effect = Process_succeeded, oc_status = V_pending, oc_verification_id = Some ''git.branch.read'',
     oc_expected_digest = Some sample_digest, oc_latest_digest = None, oc_attempts = [], oc_revisit = False,
     oc_rollback = False, oc_created_at = Iso 3000, oc_updated_at = Iso 3000, oc_correlation = None\<rparr>"

definition branch_attempt :: pending_attempt where
  "branch_attempt = \<lparr>pd_id = ''att-00001'', pd_started_at = Iso 4000\<rparr>"

definition branch_observation :: observation where
  "branch_observation = \<lparr>ob_id = ''obs-1'', ob_attempt_id = ''att-00001'', ob_plan_id = ''plan-0001'', ob_receipt_id = ''rcpt-1'',
     ob_capability_id = ''git.branch.read'', ob_subject = ''git:branch:b'', ob_started_at = Iso 4000, ob_observed_at = Iso 4500,
     ob_source = Native_readback, ob_level = Verified, ob_payload = [(''target_sha'', JStr start_sha)],
     ob_payload_digest = sample_digest, ob_truncated = False, ob_parser = P_parsed, ob_adapter = ''git-cli'',
     ob_binding = ''branch-read'', ob_exit_code = Some 0, ob_timed_out = False, ob_cancelled = False,
     ob_fingerprint = ''fp'', ob_duration_ms = 10\<rparr>"

definition branch_record :: outcome where
  "branch_record = opened_outcome\<lparr>oc_status := V_verified, oc_latest_digest := Some sample_digest,
     oc_attempts := [\<lparr>va_id = ''att-00001'', va_started_at = Iso 4000, va_finished_at = Some (Iso 5000),
       va_observation_id = Some ''obs-1'', va_observation_digest = Some sample_digest, va_status = A_verified,
       va_reasons = [R_verified]\<rparr>], oc_updated_at := Iso 5000\<rparr>"

definition opened_service :: outcome_service where
  "opened_service = \<lparr>sv_store = [(''out-00001'', opened_outcome)], sv_contexts = [(''out-00001'', branch_context)],
     sv_pending = [], sv_settling = []\<rparr>"

definition begun_service :: outcome_service where
  "begun_service = opened_service\<lparr>sv_pending := [(''out-00001'', branch_attempt)]\<rparr>"

definition verified_service :: outcome_service where
  "verified_service = begun_service\<lparr>sv_store := [(''out-00001'', branch_record)], sv_settling := [''out-00001'']\<rparr>"

lemma sample_outcome_digest: "is_json_safe v \<Longrightarrow> outcome_digest sample_sha v = Inr sample_digest"
  by (simp add: outcome_digest_def sample_json_digest)

lemma branch_receipt_intact: "verify_receipt_integrity sample_sha (Shaped branch_receipt) = Inr branch_receipt"
proof -
  have "parse_receipt branch_receipt = Some branch_receipt" by code_simp
  moreover have "is_json_safe (receipt_json branch_receipt)" by (simp add: receipt_json_def opt_member_def branch_receipt_def)
  ultimately show ?thesis
    by (simp add: verify_receipt_integrity_def recompute_receipt_digest_def safe_parse_def sample_outcome_digest)
      (simp add: branch_receipt_def)
qed

lemma branch_receipt_bound: "bind_receipt_to_plan sample_sha branch_receipt branch_plan = Inr ()"
proof -
  have "outcome_inputs_digest sample_sha (plan_normalized_inputs branch_plan) = Inr sample_digest"
    by (simp add: outcome_inputs_digest_def branch_plan_def json_object_ok_def sample_outcome_digest)
  moreover have "verification_plan_digest sample_sha (plan_verification_plan branch_plan) = Inr (Some sample_digest)"
  proof -
    have "follow_up_plan_ok (the (plan_verification_plan branch_plan))" by code_simp
    then show ?thesis
      by (simp add: verification_plan_digest_def branch_plan_def sample_plan_def sample_outcome_digest
          verification_plan_json_def opt_member_def)
  qed
  ultimately show ?thesis
    by (simp add: bind_receipt_to_plan_def) (simp add: branch_receipt_def branch_plan_def sample_plan_def)
qed

lemma branch_expectation_digest: "expectation_digest sample_sha branch_expectation = Inr sample_digest"
proof -
  have "parse_expectation branch_expectation = Some branch_expectation" by code_simp
  then show ?thesis
    by (simp add: expectation_digest_def) (simp add: sample_outcome_digest expectation_json_def branch_expectation_def)
qed

lemma branch_derived: "derive_context branch_config branch_plan branch_receipt = Inr (branch_context, sample_digest)"
proof -
  have v: "plan_verification_plan branch_plan = Some \<lparr>fup_capability_id = ''git.branch.read'', fup_inputs = [], fup_description = None\<rparr>"
    "plan_capability_id branch_plan = ''git.branch.create''"
    by (simp_all add: branch_plan_def sample_plan_def)
  have d: "git_branch_derive branch_plan = Inr (Shaped branch_expectation)" by code_simp
  have x: "validate_expectation git_branch_create_evaluator (Shaped branch_expectation) = Inr branch_expectation" by code_simp
  show ?thesis
    using d x branch_expectation_digest
    by (simp add: derive_context_def v branch_config_def evaluator_for_capability_def branch_context_def)
      (simp add: git_branch_create_evaluator_def)
qed

lemma branch_opened: "open_outcome branch_config (Shaped branch_plan) (Some (Shaped branch_receipt)) ''out-00001'' 3000 new_service =
    (Inr opened_outcome, opened_service)"
proof -
  have p: "parse_plan branch_plan = Some branch_plan" by code_simp
  have st: "initial_verification_status (risk_side_effect_class (plan_risk branch_plan)) (rc_state branch_receipt) = V_pending"
    by code_simp
  have r: "outcome_record_for branch_plan branch_receipt (Some sample_digest) ''out-00001'' 3000 = opened_outcome"
    by (simp add: outcome_record_for_def st Let_def) (simp add: branch_plan_def sample_plan_def branch_receipt_def opened_outcome_def)
  have o: "parse_outcome_record opened_outcome = Some opened_outcome" by code_simp
  have "open_checks branch_config (Shaped branch_plan) (Some (Shaped branch_receipt)) ''out-00001'' 3000 =
      Inr (opened_outcome, Some branch_context)"
    using p st r o branch_receipt_intact branch_receipt_bound branch_derived
    by (simp add: open_checks_def safe_parse_def branch_config_def)
  moreover have "os_create opened_outcome [] = Inr [(''out-00001'', opened_outcome)]"
    by (simp add: os_create_def map_has_def validate_create_outcome_def o) (simp add: opened_outcome_def)
  moreover have "oc_id opened_outcome = ''out-00001''" by (simp add: opened_outcome_def)
  ultimately show ?thesis by (simp add: open_outcome_def new_service_def opened_service_def)
qed

lemma branch_begun: "begin_attempt branch_config ''out-00001'' None ''att-00001'' 4000 opened_service = (Inr branch_attempt, begun_service)"
proof -
  have "plan_id_ok ''out-00001''" "plan_id_ok ''att-00001''" by code_simp+
  then show ?thesis
    by (simp add: begin_attempt_def assert_valid_outcome_id_def opened_service_def os_get_def map_has_def branch_config_def
        opened_outcome_def attempts_exhausted_def branch_context_def begun_service_def branch_attempt_def)
qed

lemma branch_observed: "validate_observation sample_sha (Shaped branch_observation) = Inr branch_observation"
  "observation_digest sample_sha branch_observation = Inr sample_digest"
proof -
  have p: "parse_observation branch_observation = Some branch_observation" by code_simp
  have "json_object_ok (ob_payload branch_observation) \<and>
      length (utf8 (canonical_text (JObj (ob_payload branch_observation)))) \<le> max_observation_payload_bytes"
  proof -
    have "length (utf8 (canonical_text (JObj (ob_payload branch_observation)))) < 80" by code_simp
    moreover have "json_object_ok (ob_payload branch_observation)" by code_simp
    ultimately show ?thesis by (simp add: max_observation_payload_bytes_def)
  qed
  then have d: "observation_payload_digest sample_sha (ob_payload branch_observation) = Inr sample_digest"
    by (simp add: observation_payload_digest_def sample_outcome_digest json_object_ok_def)
  have e: "ob_payload_digest branch_observation = sample_digest" by (simp add: branch_observation_def)
  show "validate_observation sample_sha (Shaped branch_observation) = Inr branch_observation"
    using p d e by (simp add: validate_observation_def safe_parse_def)
  have "is_json_safe (observation_json branch_observation)"
    by (simp add: observation_json_def branch_observation_def nullable_def)
  then show "observation_digest sample_sha branch_observation = Inr sample_digest"
    using p d e by (simp add: observation_digest_def sample_outcome_digest)
qed

lemma branch_completed:
  "complete_attempt branch_config ''out-00001'' ''att-00001'' (Some (Shaped branch_observation)) 4600 5000 begun_service =
     (Inr branch_record, verified_service)"
proof -
  have s: "os_get (sv_store begun_service) ''out-00001'' = Some opened_outcome"
    "map_get (sv_contexts begun_service) ''out-00001'' = Some branch_context"
    "map_get (sv_pending begun_service) ''out-00001'' = Some branch_attempt"
    by (simp_all add: begun_service_def opened_service_def os_get_def)
  have "completion branch_config opened_outcome ''out-00001'' ''att-00001'' (Some (Shaped branch_observation)) 4600 5000 begun_service =
      Inr branch_record"
  proof -
    have a: "pd_id branch_attempt = ''att-00001''" "bind_observation branch_observation opened_outcome ''att-00001'' branch_context branch_attempt = Inr ()"
      "observation_fresh branch_observation (cx_receipt branch_context) 4600 = Inr ()"
      "judge_observation branch_context branch_observation = Inr \<lparr>en_status = A_verified, en_reasons = [R_verified]\<rparr>"
      "assert_expectation_matches opened_outcome sample_digest = Inr ()" "oc_attempts opened_outcome = []"
      by code_simp+
    have "completed_record branch_config opened_outcome branch_context
        \<lparr>va_id = ''att-00001'', va_started_at = pd_started_at branch_attempt, va_finished_at = Some (Iso 5000),
         va_observation_id = Some (ob_id branch_observation), va_observation_digest = Some sample_digest,
         va_status = A_verified, va_reasons = [R_verified]\<rparr> sample_digest 5000 = branch_record"
      by code_simp
    then show ?thesis
      using s a branch_observed branch_expectation_digest
      by (simp add: completion_def branch_config_def) (simp add: branch_context_def)
  qed
  moreover have "os_update branch_record (sv_store begun_service) = Inr [(''out-00001'', branch_record)]" by code_simp
  moreover have "assert_valid_outcome_id ''out-00001'' = Inr ()" by code_simp
  ultimately show ?thesis using s(1) by (simp add: complete_attempt_def verified_service_def begun_service_def opened_service_def)
qed

lemma branch_run: "outcome_reachable branch_config [Shaped branch_observation] verified_service"
proof -
  have "outcome_step branch_config ([], new_service) ([], opened_service)"
    by (rule outcome_step.opened [OF _ _ branch_opened]) (simp_all add: new_service_def os_get_def)
  then have "outcome_reachable branch_config [] opened_service" using outcome_reachable.intros by blast
  moreover have "outcome_step branch_config ([], opened_service) ([], begun_service)"
    by (rule outcome_step.begun [OF branch_begun])
  ultimately have "outcome_reachable branch_config [] begun_service" by (rule outcome_reachable.step)
  moreover have "outcome_step branch_config ([], begun_service) ([Shaped branch_observation], verified_service)"
    using outcome_step.completed [OF branch_completed, of "[]"] by simp
  ultimately show ?thesis by (rule outcome_reachable.step)
qed

section \<open>Properties\<close>

lemma verified_evidence:
  assumes "service_inv cfg log s" "os_get (sv_store s) i = Some r" "oc_status r = V_verified"
  obtains a c where "last_attempt r = Some a" "map_get (sv_contexts s) i = Some c" "evidenced cfg log c r a"
proof -
  note D = service_invD [OF assms(1)]
  have "outcome_status_ok r"
    using os_inv_get [OF D(1) assms(2)] by (auto simp: parse_outcome_record_Some outcome_ok_def)
  then obtain a where a: "last_attempt r = Some a" "va_status a = A_verified"
    using assms(3) by (auto simp: outcome_status_ok_def)
  then have "a \<in> set (oc_attempts r)" by (auto simp: last_attempt_def split: if_splits)
  then show ?thesis using D(6) [OF assms(2) _ a(2)] that a(1) by blast
qed

text \<open>C10: A verified outcome is an evidenced one. In every reachable state, whatever the interleaving of
  openings, attempts, completions and late releases of attempt slots, an outcome with status
  verified has a last attempt that was decided by an observation the trusted resolver answered: the
  observation is intact, belongs to this plan, receipt, attempt and subject, was complete, parsed
  and not taken before the execution was accepted, and the evaluator registered for the plan's
  capability judged it verified against the expectation it had derived from the plan. No exit code,
  no receipt and no caller input can verify an outcome.\<close>
theorem verified_outcome_is_evidenced:
  assumes "outcome_reachable cfg log s" "1 \<le> oc_limit cfg" "os_get (sv_store s) i = Some r" "oc_status r = V_verified"
  shows "\<exists>c a. map_get (sv_contexts s) i = Some c \<and> last_attempt r = Some a \<and> context_ok cfg c \<and> context_of c r \<and>
    evidenced cfg log c r a"
proof -
  note D = service_invD [OF outcome_reachable_inv [OF assms(1,2)]]
  obtain a c where a: "last_attempt r = Some a" "map_get (sv_contexts s) i = Some c" "evidenced cfg log c r a"
    by (rule verified_evidence [OF outcome_reachable_inv [OF assms(1,2)] assms(3,4)])
  then show ?thesis using D(2) [of i c] D(5) [OF assms(3)] by blast
qed

lemma branch_verified: "os_get (sv_store verified_service) ''out-00001'' = Some branch_record" "oc_status branch_record = V_verified"
  by (simp_all add: verified_service_def os_get_def branch_record_def)

lemma branch_limit: "1 \<le> oc_limit branch_config"
  by (simp add: branch_config_def)

lemma verified_outcome_is_evidenced_witness:
  "\<exists>c a. map_get (sv_contexts verified_service) ''out-00001'' = Some c \<and> last_attempt branch_record = Some a \<and>
     evidenced branch_config [Shaped branch_observation] c branch_record a"
  using verified_outcome_is_evidenced [OF branch_run branch_limit branch_verified] by blast

text \<open>C21: With the branch evaluator registered, a verified branch creation is a fact about the repository as
  read back: the resolver answered an intact observation whose target commit is exactly the start
  point of the approved plan.\<close>
theorem verified_branch_is_at_start:
  assumes "outcome_reachable cfg log s" "1 \<le> oc_limit cfg" "os_get (sv_store s) i = Some r" "oc_status r = V_verified"
    "oc_capability_id r = ''git.branch.create''"
    "evaluator_for_capability (oc_registry cfg) ''git.branch.create'' = Some git_branch_create_evaluator"
  shows "\<exists>c raw b. map_get (sv_contexts s) i = Some c \<and> oc_plan_id r = plan_id (cx_plan c) \<and> raw \<in> set log \<and>
    validate_observation (oc_sha cfg) raw = Inr b \<and> ob_receipt_id b = oc_receipt_id r \<and>
    branch_at_start (cx_plan c) (ob_payload b)"
proof -
  note D = service_invD [OF outcome_reachable_inv [OF assms(1,2)]]
  obtain a c where c: "last_attempt r = Some a" "map_get (sv_contexts s) i = Some c" "evidenced cfg log c r a"
    by (rule verified_evidence [OF outcome_reachable_inv [OF assms(1,2)] assms(3,4)])
  have ok: "context_ok cfg c" "context_of c r" using D(2) [OF c(2)] D(5) [OF assms(3) c(2)] by simp_all
  then have ev: "cx_evaluator c = git_branch_create_evaluator"
    using assms(5,6) by (auto simp: context_ok_def context_of_def)
  obtain raw b e where b: "raw \<in> set log" "validate_observation (oc_sha cfg) raw = Inr b" "ob_receipt_id b = oc_receipt_id r"
      "ebind (ev_evaluate (cx_evaluator c) (cx_expectation c) b) parse_evaluation = Inr e" "en_status e = A_verified"
    using c(3) unfolding evidenced_def by (elim bexE exE conjE) (rule that; assumption)
  have "branch_at_start (cx_plan c) (ob_payload b)"
    using git_branch.verdict_exact [of "cx_plan c" "cx_expectation c" b] ok(1) b(4,5) ev by (auto simp: context_ok_def)
  then show ?thesis using c(2) ok(2) b by (auto simp: context_of_def)
qed

lemma verified_branch_is_at_start_witness:
  "\<exists>c raw b. map_get (sv_contexts verified_service) ''out-00001'' = Some c \<and> raw \<in> set [Shaped branch_observation] \<and>
     validate_observation (oc_sha branch_config) raw = Inr b \<and> branch_at_start (cx_plan c) (ob_payload b)"
  using verified_branch_is_at_start [OF branch_run branch_limit branch_verified]
  by (auto simp: branch_record_def opened_outcome_def branch_config_def evaluator_for_capability_def)

text \<open>C37: Verification attempts are bounded. The configured budget is between one and five, no reachable outcome
  has more attempts than the budget, and an outcome that has used it up is final: every further
  attempt is refused.\<close>
theorem verification_attempts_bounded:
  assumes "resolve_max_attempts n = Inr (oc_limit cfg)" "outcome_reachable cfg log s" "os_get (sv_store s) i = Some r"
  shows "1 \<le> oc_limit cfg \<and> oc_limit cfg \<le> 5 \<and> length (oc_attempts r) \<le> oc_limit cfg \<and>
    (length (oc_attempts r) < oc_limit cfg \<or>
      oc_status r \<noteq> V_pending \<and> (\<exists>e. begin_attempt cfg i injected generated now s = (Inl e, s)))"
proof -
  have l: "1 \<le> oc_limit cfg" "oc_limit cfg \<le> 5"
    using assms(1) by (auto simp: resolve_max_attempts_def Let_def max_verification_attempts_bound_def split: if_splits)
  note D = service_invD [OF outcome_reachable_inv [OF assms(2) l(1)]]
  have "\<exists>e. begin_attempt cfg i injected generated now s = (Inl e, s)" if "\<not> length (oc_attempts r) < oc_limit cfg"
  proof -
    obtain res s' where run: "begin_attempt cfg i injected generated now s = (res, s')" by fastforce
    then show ?thesis by (cases rule: begin_attempt_cases) (use that assms(3) run in auto)
  qed
  then show ?thesis using l D(3,4) [OF assms(3)] by blast
qed

lemma verification_attempts_bounded_witness:
  "length (oc_attempts branch_record) \<le> 3"
  using verification_attempts_bounded [of None branch_config, OF _ branch_run branch_verified(1)]
  by (simp add: resolve_max_attempts_def default_max_verification_attempts_def max_verification_attempts_bound_def branch_config_def)

text \<open>A completion call with a wrong attempt id destroys the attempt in flight. It is refused as a mismatch,
  but the slot of the genuine attempt is released all the same: the genuine completion is then
  refused too, whatever observation it has, and changes nothing.\<close>
lemma stray_completion_drops_attempt:
  assumes "begin_attempt cfg i injected generated now s = (Inr p, s1)" "map_get (sv_contexts s) i = Some c" "a \<noteq> pd_id p"
    "complete_attempt cfg i a resolved t u s1 = (res, s2)"
  shows "res = Inl (Throws OUTCOME_ATTEMPT_MISMATCH) \<and> map_get (sv_pending s2) i = None \<and>
    fst (complete_attempt cfg i (pd_id p) resolved' t' u' s2) = Inl (Throws OUTCOME_ATTEMPT_MISMATCH) \<and>
    sv_store (snd (complete_attempt cfg i (pd_id p) resolved' t' u' s2)) = sv_store s"
proof -
  have s1: "s1 = s\<lparr>sv_pending := map_set i p (sv_pending s)\<rparr>" and r: "\<exists>r. os_get (sv_store s) i = Some r"
    using begin_attempt_Inr [OF assms(1)] by auto
  have v: "assert_valid_outcome_id i = Inr ()"
    using assms(1) by (auto simp: begin_attempt_def split: sum.splits)
  have 1: "res = Inl (Throws OUTCOME_ATTEMPT_MISMATCH)" "s2 = s1\<lparr>sv_pending := map_delete i (sv_pending s1)\<rparr>"
    using assms(2-4) r v by (auto simp: complete_attempt_def completion_def s1 map_get_set)
  then have 2: "map_get (sv_pending s2) i = None" by (simp add: map_get_delete)
  have "complete_attempt cfg i (pd_id p) resolved' t' u' s2 =
      (Inl (Throws OUTCOME_ATTEMPT_MISMATCH), s2\<lparr>sv_pending := map_delete i (sv_pending s2)\<rparr>)"
    using assms(2) r v 2 1(2) by (auto simp: complete_attempt_def completion_def s1)
  then show ?thesis using 1 2 s1 by simp
qed

text \<open>What the comparison of a receipt with a plan establishes.\<close>
lemma bind_receipt_Inr:
  assumes "bind_receipt_to_plan sha r p = Inr u"
  shows "rc_plan_id r = plan_id p \<and> rc_decision_id r = plan_decision_id p \<and> rc_capability_id r = plan_capability_id p \<and>
    rc_capability_version r = plan_capability_version p \<and> rc_adapter_id r = plan_adapter_id p \<and>
    outcome_inputs_digest sha (plan_normalized_inputs p) = Inr (rc_inputs_digest r) \<and>
    verification_plan_digest sha (plan_verification_plan p) = Inr (rc_verification_digest r)"
  using assms unfolding bind_receipt_to_plan_def ebind_Inr_iff guarded_Inr by auto

text \<open>C30: Opening never verifies. An outcome is opened only for a plan that parses and a receipt that the resolver
  answered, whose digest covers its content, whose plan id, decision, capability and its version and
  adapter are the plan's, and whose inputs digest and verification plan digest are those of the
  plan's inputs and verification plan. The new record is stored under an unused id with no attempts, and with status
  pending, whatever the process result, unless the plan is read-only or the receipt proves that no
  process was started.\<close>
theorem opening_is_bound_and_unverified:
  assumes "open_outcome cfg raw_plan resolved i now s = (Inr q, s')"
  shows "\<exists>p raw r. safe_parse OUTCOME_INPUT_INVALID parse_plan raw_plan = Inr p \<and> resolved = Some raw \<and>
    verify_receipt_integrity (oc_sha cfg) raw = Inr r \<and> recompute_receipt_digest (oc_sha cfg) r = Inr (rc_digest r) \<and>
    rc_plan_id r = plan_id p \<and> rc_decision_id r = plan_decision_id p \<and> rc_capability_id r = plan_capability_id p \<and>
    rc_capability_version r = plan_capability_version p \<and> rc_adapter_id r = plan_adapter_id p \<and>
    outcome_inputs_digest (oc_sha cfg) (plan_normalized_inputs p) = Inr (rc_inputs_digest r) \<and>
    verification_plan_digest (oc_sha cfg) (plan_verification_plan p) = Inr (rc_verification_digest r) \<and>
    os_get (sv_store s) i = None \<and> os_get (sv_store s') i = Some q \<and>
    oc_attempts q = [] \<and> oc_status q = (if risk_side_effect_class (plan_risk p) = Read_only \<or> rc_state r = Not_started
      then V_not_required else V_pending)"
proof -
  have "\<exists>st c. open_checks cfg raw_plan resolved i now = Inr (q, c) \<and> os_create q (sv_store s) = Inr st \<and> sv_store s' = st"
    using assms by (cases rule: open_outcome_cases) auto
  then obtain st c where o: "open_checks cfg raw_plan resolved i now = Inr (q, c)" "os_create q (sv_store s) = Inr st"
      "sv_store s' = st" by blast
  note f = opened_record [OF o(1)]
  have st: "os_get (sv_store s) i = None \<and> os_get (sv_store s') i = Some q"
    using os.insert_lookup [OF o(2)] f(1,3) o(3) by auto
  have d: "recompute_receipt_digest (oc_sha cfg) r = Inr (rc_digest r)"
    if "verify_receipt_integrity (oc_sha cfg) raw = Inr r" for raw r
    using that by (auto simp: verify_receipt_integrity_def ebind_Inr_iff)
  from o(1) show ?thesis
  proof (cases rule: open_checks_Inr)
    case (1 p raw r)
    then have "oc_status q = (if risk_side_effect_class (plan_risk p) = Read_only \<or> rc_state r = Not_started
        then V_not_required else V_pending)"
      by (auto simp: parse_outcome_record_Some outcome_record_for_def Let_def initial_status_cases)
    then show ?thesis using 1(1-4) d st f(2) bind_receipt_Inr [OF 1(4)] by blast
  next
    case (2 p raw r cx d)
    then have "oc_status q = (if risk_side_effect_class (plan_risk p) = Read_only \<or> rc_state r = Not_started
        then V_not_required else V_pending)"
      by (auto simp: parse_outcome_record_Some outcome_record_for_def Let_def initial_status_cases)
    then show ?thesis using 2(1-4) d st f(2) bind_receipt_Inr [OF 2(4)] by blast
  qed
qed

lemma opening_is_bound_and_unverified_witness:
  "\<exists>r. verify_receipt_integrity sample_sha (Shaped branch_receipt) = Inr r \<and> rc_state r = Process_succeeded \<and>
     oc_status opened_outcome = V_pending"
  using opening_is_bound_and_unverified [OF branch_opened] branch_receipt_intact
  by (auto simp: opened_outcome_def branch_config_def branch_receipt_def)

text \<open>No crash is read as "nothing happened". For a capability with effects, the native execution state
  leads to an outcome that needs no verification exactly when the native layer reports that the
  process could not be spawned, with no spawn marker, exit code or flag; a recovered execution
  always needs a read-back, and exit code zero alone never ends in a status other than pending.\<close>
lemma unverified_only_if_never_spawned:
  assumes "map_native_state n = Inr e" "c \<noteq> Read_only"
  shows "initial_verification_status c e = (if ni_state n = N_spawn_failed then V_not_required else V_pending) \<and>
    (ni_state n = N_spawn_failed \<longrightarrow> \<not> ni_spawned n \<and> ni_exit_code n = None \<and> \<not> ni_timed_out n \<and> \<not> ni_cancelled n) \<and>
    (ni_recovered n \<and> ni_state n \<in> {N_accepted, N_spawn_started} \<longrightarrow> e = Unknown_after_crash)"
  using assms map_native_started [of n]
  by (cases "ni_state n") (auto simp: map_native_state_def initial_status_cases Let_def split: if_splits option.splits)

end
