(* ===== verification/Verification_Runtime.thy ===== *)
theory Verification_Runtime
  imports Outcome_Lifecycle
begin

text \<open>
  The server-owned verification runtime (\<open>src/brain-server/src/control/verification-runtime.ts\<close>) and its
  public facade (\<open>control/verification-facade.ts\<close>): native receipts and read-back observations enter here,
  and the outcome service of theory Outcome_Service judges them. The lookup of authorized plans, the clock
  readings and the generated ids of a call are arguments. A request runs alone: the interleavings at its
  awaits are those of theory Outcome_Service and are not repeated here, so the attempt slot of a completion
  is released before the request returns.

  The literal members of a public result that never vary (\<open>original_write_retried\<close>,
  \<open>automatic_rollback\<close>, \<open>source\<close>) are left out of its record.
\<close>

section \<open>Errors and public results\<close>

datatype verification_error_code =
    VERIFY_SCOPE_INSUFFICIENT | VERIFY_INPUT_INVALID | VERIFY_PLAN_NOT_FOUND | VERIFY_RUNTIME_UNAVAILABLE
  | NATIVE_RECEIPT_INVALID | NATIVE_RECEIPT_IN_FLIGHT | NATIVE_RECEIPT_DUPLICATE | NATIVE_OBSERVATION_INVALID
  | Outcome_refused outcome_error_code

type_synonym 'a verification_result = "verification_error_code throws + 'a"

text \<open>An error of the outcome service passes through.\<close>

definition of_outcome :: "'a outcome_result \<Rightarrow> 'a verification_result" where
  "of_outcome r = (case r of Inl (Throws e) \<Rightarrow> Inl (Throws (Outcome_refused e)) | Inl ZodError \<Rightarrow> Inl ZodError
     | Inl NativeError \<Rightarrow> Inl NativeError | Inr v \<Rightarrow> Inr v)"

lemma of_outcome_Inr [simp]: "of_outcome r = Inr v \<longleftrightarrow> r = Inr v"
  by (auto simp: of_outcome_def split: sum.splits throws.splits)

lemma of_outcome_simps [simp]: "of_outcome (Inr v) = Inr v" "of_outcome (Inl (Throws e)) = Inl (Throws (Outcome_refused e))"
  by (simp_all add: of_outcome_def)

datatype control_status = CS_pending | CS_verified | CS_mismatch | CS_inconclusive

datatype control_evidence = Receipt_and_readback | Readback_mismatch | Readback_unavailable

record control_result =
  vp_plan :: string
  vp_status :: control_status
  vp_revisit :: bool
  vp_attempts :: nat
  vp_readbacks :: nat
  vp_started :: bool
  vp_evidence :: control_evidence

fun control_status_of :: "verification_status \<Rightarrow> control_status" where
  "control_status_of V_pending = CS_pending"
| "control_status_of V_verified = CS_verified"
| "control_status_of V_mismatch = CS_mismatch"
| "control_status_of _ = CS_inconclusive"

definition to_public :: "string \<Rightarrow> outcome \<Rightarrow> control_result" where
  "to_public p r = (let st = control_status_of (oc_status r) in
     \<lparr>vp_plan = p, vp_status = st, vp_revisit = oc_revisit r, vp_attempts = length (oc_attempts r),
      vp_readbacks = length (oc_attempts r), vp_started = False,
      vp_evidence = (if st = CS_verified then Receipt_and_readback else if st = CS_mismatch then Readback_mismatch
        else Readback_unavailable)\<rparr>)"

text \<open>The result for a plan without a trusted receipt or read-back, and for one whose outcome is not open yet.\<close>

definition inconclusive_result :: "string \<Rightarrow> nat \<Rightarrow> nat \<Rightarrow> control_result" where
  "inconclusive_result p attempts readbacks = \<lparr>vp_plan = p, vp_status = CS_inconclusive, vp_revisit = True,
     vp_attempts = attempts, vp_readbacks = readbacks, vp_started = False, vp_evidence = Readback_unavailable\<rparr>"

definition pending_result :: "string \<Rightarrow> bool \<Rightarrow> control_result" where
  "pending_result p started = \<lparr>vp_plan = p, vp_status = CS_pending, vp_revisit = False, vp_attempts = 0,
     vp_readbacks = 0, vp_started = started, vp_evidence = Readback_unavailable\<rparr>"

section \<open>Native receipts\<close>

text \<open>
  A nullable and optional member is \<open>None\<close> when it is null or absent: the code treats the two alike. The
  list of verification attempts is accepted and not read.
\<close>

record native_receipt =
  nr_id :: string
  nr_plan_id :: string
  nr_decision_id :: string
  nr_capability_id :: string
  nr_capability_version :: string
  nr_adapter_id :: string
  nr_binding_id :: string
  nr_execution_id :: "string option"
  nr_inputs_digest :: string
  nr_verification_digest :: "string option"
  nr_verification_id :: "string option"
  nr_verification_inputs :: "json_object option"
  nr_state :: native_state
  nr_accepted_at :: timestamp
  nr_spawned_at :: "timestamp option"
  nr_finished_at :: "timestamp option"
  nr_exit_code :: "int option"
  nr_timed_out :: bool
  nr_cancelled :: bool
  nr_stdout_digest :: "string option"
  nr_stderr_digest :: "string option"
  nr_truncated :: bool
  nr_redacted :: bool
  nr_fingerprint :: "string option"
  nr_digest :: string

definition norm_native :: "native_receipt \<Rightarrow> native_receipt" where
  "norm_native n = n\<lparr>nr_id := js_trim (nr_id n), nr_plan_id := js_trim (nr_plan_id n),
     nr_decision_id := js_trim (nr_decision_id n), nr_capability_id := js_trim (nr_capability_id n),
     nr_capability_version := js_trim (nr_capability_version n), nr_adapter_id := js_trim (nr_adapter_id n),
     nr_binding_id := js_trim (nr_binding_id n), nr_execution_id := map_option js_trim (nr_execution_id n),
     nr_verification_id := map_option js_trim (nr_verification_id n),
     nr_fingerprint := map_option js_trim (nr_fingerprint n)\<rparr>"

definition locator_ok :: "string \<Rightarrow> bool" where
  "locator_ok s \<longleftrightarrow> 8 \<le> length s \<and> int (length s) \<le> 200"

definition native_ok :: "native_receipt \<Rightarrow> bool" where
  "native_ok n \<longleftrightarrow> len_ok 200 (nr_id n) \<and> locator_ok (nr_plan_id n) \<and> len_ok 200 (nr_decision_id n) \<and>
     len_ok 200 (nr_capability_id n) \<and> len_ok 50 (nr_capability_version n) \<and> len_ok 200 (nr_adapter_id n) \<and>
     len_ok 200 (nr_binding_id n) \<and> opt_ok (len_ok 200) (nr_execution_id n) \<and> sha256_hex_ok (nr_inputs_digest n) \<and>
     opt_ok sha256_hex_ok (nr_verification_digest n) \<and> opt_ok (len_ok 200) (nr_verification_id n) \<and>
     opt_ok json_object_ok (nr_verification_inputs n) \<and> opt_ok exit_code_ok (nr_exit_code n) \<and>
     opt_ok sha256_hex_ok (nr_stdout_digest n) \<and> opt_ok sha256_hex_ok (nr_stderr_digest n) \<and>
     opt_ok (len_ok 500) (nr_fingerprint n) \<and> sha256_hex_ok (nr_digest n)"

definition parse_native :: "native_receipt \<Rightarrow> native_receipt option" where
  "parse_native = parse_with norm_native native_ok"

definition native_identity_json :: "native_receipt \<Rightarrow> jsval" where
  "native_identity_json n = JObj
     [(''receipt_id'', JStr (nr_id n)), (''plan_id'', JStr (nr_plan_id n)), (''decision_id'', JStr (nr_decision_id n)),
      (''capability_id'', JStr (nr_capability_id n)), (''capability_version'', JStr (nr_capability_version n)),
      (''adapter_id'', JStr (nr_adapter_id n)), (''binding_id'', JStr (nr_binding_id n)),
      (''normalized_inputs_digest'', JStr (nr_inputs_digest n)),
      (''verification_plan_digest'', nullable JStr (nr_verification_digest n)),
      (''verification_capability_id'', nullable JStr (nr_verification_id n)),
      (''verification_inputs'', nullable JObj (nr_verification_inputs n)), (''accepted_at'', JTime (nr_accepted_at n)),
      (''source'', JStr ''native_broker'')]"

definition parse_native_receipt :: "(string \<Rightarrow> string) \<Rightarrow> native_receipt raw \<Rightarrow> native_receipt verification_result" where
  "parse_native_receipt sha raw =
     ebind (safe_parse NATIVE_RECEIPT_INVALID parse_native raw) (\<lambda>n.
     (case json_digest sha (native_identity_json n) of
        Inl e \<Rightarrow> Inl (Throws NATIVE_RECEIPT_INVALID)
      | Inr d \<Rightarrow> ebind (guarded (d = nr_digest n) NATIVE_RECEIPT_INVALID) (\<lambda>_. Inr n)))"

definition map_native_effect :: "native_receipt \<Rightarrow> effect_state verification_result" where
  "map_native_effect n =
     (if nr_timed_out n \<and> nr_cancelled n then Inl (Throws NATIVE_RECEIPT_INVALID)
      else (case nr_state n of
        N_completed \<Rightarrow>
          if nr_timed_out n then Inr Effect_timed_out
          else if nr_cancelled n then Inr Effect_cancelled
          else (case nr_exit_code n of None \<Rightarrow> Inl (Throws NATIVE_RECEIPT_INVALID)
            | Some c \<Rightarrow> Inr (if c = 0 then Process_succeeded else Process_failed))
      | N_spawn_failed \<Rightarrow>
          if nr_spawned_at n \<noteq> None \<or> nr_exit_code n \<noteq> None \<or> nr_timed_out n \<or> nr_cancelled n
          then Inl (Throws NATIVE_RECEIPT_INVALID) else Inr Not_started
      | N_unknown_after_crash \<Rightarrow>
          if nr_exit_code n \<noteq> None \<or> nr_timed_out n \<or> nr_cancelled n
          then Inl (Throws NATIVE_RECEIPT_INVALID) else Inr Unknown_after_crash
      | N_accepted \<Rightarrow> Inl (Throws NATIVE_RECEIPT_IN_FLIGHT)
      | N_spawn_started \<Rightarrow> Inl (Throws NATIVE_RECEIPT_IN_FLIGHT)))"

definition materialize_receipt :: "(string \<Rightarrow> string) \<Rightarrow> native_receipt \<Rightarrow> execution_receipt verification_result" where
  "materialize_receipt sha n =
     ebind (map_native_effect n) (\<lambda>st.
     (let r = \<lparr>rc_id = nr_id n, rc_plan_id = nr_plan_id n, rc_decision_id = nr_decision_id n,
          rc_capability_id = nr_capability_id n, rc_capability_version = nr_capability_version n,
          rc_adapter_id = nr_adapter_id n, rc_inputs_digest = nr_inputs_digest n,
          rc_verification_digest = nr_verification_digest n, rc_state = st, rc_accepted_at = nr_accepted_at n,
          rc_spawned_at = nr_spawned_at n, rc_finished_at = nr_finished_at n, rc_exit_code = nr_exit_code n,
          rc_timed_out = nr_timed_out n, rc_cancelled = nr_cancelled n, rc_digest = replicate 64 CHR ''0''\<rparr> in
      ebind (of_outcome (recompute_receipt_digest sha r)) (\<lambda>d. Inr (r\<lparr>rc_digest := d\<rparr>))))"
section \<open>The runtime\<close>

record registered_case =
  vc_plan :: execution_plan
  vc_receipt :: execution_receipt
  vc_observation :: "observation option"
  vc_outcome_id :: "string option"

record verification_runtime =
  vr_cases :: "(string, registered_case) jsmap"
  vr_observations :: "(string, observation) jsmap"
  vr_receipts :: "(string, execution_receipt) jsmap"
  vr_service :: outcome_service

text \<open>
  The constructor: the two evaluators of the repository, and one verification attempt for each outcome.
  \<open>parse\<close> is JavaScript's conversion of texts to numbers.
\<close>

definition runtime_registry :: "(string \<Rightarrow> jsnum) \<Rightarrow> evaluator_registry outcome_result" where
  "runtime_registry parse = ebind (register_evaluator (github_issue_close_evaluator parse) \<lparr>er_by_capability = [], er_by_id = []\<rparr>)
     (register_evaluator git_branch_create_evaluator)"

definition new_verification_runtime :: verification_runtime where
  "new_verification_runtime = \<lparr>vr_cases = [], vr_observations = [], vr_receipts = [], vr_service = new_service\<rparr>"

text \<open>The ids and clock readings of a call, in the order it takes them.\<close>

record verification_inputs =
  vi_outcome_id :: string
  vi_opened_at :: int
  vi_attempt_id :: string
  vi_started_at :: int
  vi_begun_at :: int
  vi_checked_at :: int
  vi_finished_at :: int

definition register_controlled_case ::
  "execution_plan \<Rightarrow> execution_receipt \<Rightarrow> observation option \<Rightarrow> verification_runtime \<Rightarrow> verification_runtime verification_result" where
  "register_controlled_case p r b v =
     (if map_has (vr_cases v) (plan_id p) then Inl NativeError
      else Inr (v\<lparr>vr_cases := map_set (plan_id p) \<lparr>vc_plan = p, vc_receipt = r, vc_observation = b, vc_outcome_id = None\<rparr> (vr_cases v),
        vr_receipts := map_set (rc_id r) r (vr_receipts v),
        vr_observations := (case b of None \<Rightarrow> vr_observations v | Some x \<Rightarrow> map_set (ob_id x) x (vr_observations v))\<rparr>))"

definition resolve_receipt :: "verification_runtime \<Rightarrow> string \<Rightarrow> execution_receipt raw option" where
  "resolve_receipt v i = map_option Shaped (map_get (vr_receipts v) i)"

definition resolve_observation :: "verification_runtime \<Rightarrow> string \<Rightarrow> observation raw option" where
  "resolve_observation v i = map_option Shaped (map_get (vr_observations v) i)"

text \<open>The case's outcome, opened when it is not open yet.\<close>

definition ensure_outcome ::
  "outcome_config \<Rightarrow> string \<Rightarrow> registered_case \<Rightarrow> verification_inputs \<Rightarrow> verification_runtime \<Rightarrow>
   string verification_result \<times> verification_runtime" where
  "ensure_outcome cfg p c x v = (case vc_outcome_id c of
     Some i \<Rightarrow> (Inr i, v)
   | None \<Rightarrow> (case open_outcome cfg (Shaped (vc_plan c)) (resolve_receipt v (rc_id (vc_receipt c))) (vi_outcome_id x)
         (vi_opened_at x) (vr_service v) of
       (Inl e, s) \<Rightarrow> (of_outcome (Inl e), v\<lparr>vr_service := s\<rparr>)
     | (Inr r, s) \<Rightarrow> (Inr (oc_id r), v\<lparr>vr_service := s,
         vr_cases := map_set p (c\<lparr>vc_outcome_id := Some (oc_id r)\<rparr>) (vr_cases v)\<rparr>)))"

definition get_outcome :: "verification_runtime \<Rightarrow> string \<Rightarrow> outcome option" where
  "get_outcome v i = os_get (sv_store (vr_service v)) i"

text \<open>A completion that is awaited: its attempt slot is released before it returns.\<close>

definition complete_and_settle ::
  "outcome_config \<Rightarrow> string \<Rightarrow> string \<Rightarrow> observation raw option \<Rightarrow> verification_inputs \<Rightarrow> outcome_service \<Rightarrow>
   outcome outcome_result \<times> outcome_service" where
  "complete_and_settle cfg i a resolved x s =
     (case complete_attempt cfg i a resolved (vi_checked_at x) (vi_finished_at x) s of
       (Inl e, s') \<Rightarrow> (Inl e, s') | (Inr r, s') \<Rightarrow> (Inr r, settle_completion i s'))"

type_synonym plan_lookup = "string \<Rightarrow> plan_authorization option"

section \<open>Registering a native receipt\<close>

definition receipt_checks ::
  "(string \<Rightarrow> string) \<Rightarrow> plan_lookup \<Rightarrow> string \<Rightarrow> native_receipt raw \<Rightarrow> (execution_plan \<times> native_receipt) verification_result" where
  "receipt_checks sha look p raw =
     ebind (require (look p) VERIFY_PLAN_NOT_FOUND) (\<lambda>a.
     ebind (guarded (plan_state (pa_plan a) = Ready) NATIVE_RECEIPT_INVALID) (\<lambda>_.
     ebind (parse_native_receipt sha raw) (\<lambda>n.
     ebind (guarded (nr_plan_id n = p) NATIVE_RECEIPT_INVALID) (\<lambda>_.
     ebind (guarded (nr_decision_id n = plan_decision_id (pa_plan a) \<and> nr_capability_id n = plan_capability_id (pa_plan a) \<and>
         nr_capability_version n = plan_capability_version (pa_plan a) \<and> nr_adapter_id n = plan_adapter_id (pa_plan a))
       NATIVE_RECEIPT_INVALID) (\<lambda>_. Inr (pa_plan a, n))))))"

definition known_receipt :: "string \<Rightarrow> registered_case \<Rightarrow> verification_runtime \<Rightarrow> control_result" where
  "known_receipt p c v = (case Option.bind (vc_outcome_id c) (get_outcome v) of
     Some r \<Rightarrow> to_public p r | None \<Rightarrow> pending_result p True)"

definition register_native_receipt ::
  "outcome_config \<Rightarrow> plan_lookup \<Rightarrow> string \<Rightarrow> native_receipt raw \<Rightarrow> verification_inputs \<Rightarrow> verification_runtime \<Rightarrow>
   control_result verification_result \<times> verification_runtime" where
  "register_native_receipt cfg look p raw x v =
     (case receipt_checks (oc_sha cfg) look p raw of
       Inl e \<Rightarrow> (Inl e, v)
     | Inr (plan, n) \<Rightarrow> (case map_get (vr_cases v) p of
         Some c \<Rightarrow> (if rc_id (vc_receipt c) = nr_id n then Inr (known_receipt p c v)
           else Inl (Throws NATIVE_RECEIPT_DUPLICATE), v)
       | None \<Rightarrow> (case materialize_receipt (oc_sha cfg) n of
           Inl e \<Rightarrow> (Inl e, v)
         | Inr r \<Rightarrow>
           (let c = \<lparr>vc_plan = plan, vc_receipt = r, vc_observation = None, vc_outcome_id = None\<rparr>;
                v1 = v\<lparr>vr_receipts := map_set (rc_id r) r (vr_receipts v), vr_cases := map_set p c (vr_cases v)\<rparr> in
            case open_outcome cfg (Shaped plan) (resolve_receipt v1 (rc_id r)) (vi_outcome_id x) (vi_opened_at x) (vr_service v1) of
              (Inl e, s) \<Rightarrow> (of_outcome (Inl e), v1\<lparr>vr_service := s, vr_cases := map_delete p (vr_cases v1),
                vr_receipts := map_delete (rc_id r) (vr_receipts v1)\<rparr>)
            | (Inr opened, s) \<Rightarrow> (Inr (to_public p opened), v1\<lparr>vr_service := s,
                vr_cases := map_set p (c\<lparr>vc_outcome_id := Some (oc_id opened)\<rparr>) (vr_cases v1)\<rparr>)))))"

section \<open>Completing with a native observation\<close>

text \<open>From the pending outcome on: reserve the attempt the observation names, then complete it.\<close>

definition complete_native_attempt ::
  "outcome_config \<Rightarrow> string \<Rightarrow> string \<Rightarrow> observation \<Rightarrow> verification_inputs \<Rightarrow> verification_runtime \<Rightarrow>
   control_result verification_result \<times> verification_runtime" where
  "complete_native_attempt cfg p i b x v =
     (case begin_attempt cfg i (Some \<lparr>inj_id = ob_attempt_id b, inj_started_at = ob_started_at b, inj_iso = True\<rparr>) []
         (vi_begun_at x) (vr_service v) of
       (Inl e, s) \<Rightarrow> (of_outcome (Inl e), v\<lparr>vr_service := s\<rparr>)
     | (Inr a, s) \<Rightarrow> (case complete_and_settle cfg i (pd_id a) (resolve_observation v (ob_id b)) x s of
         (Inl e, s') \<Rightarrow> (of_outcome (Inl e), v\<lparr>vr_service := s'\<rparr>)
       | (Inr r, s') \<Rightarrow> (Inr (to_public p r), v\<lparr>vr_service := s',
           vr_cases := (case map_get (vr_cases v) p of None \<Rightarrow> vr_cases v
             | Some c \<Rightarrow> map_set p (c\<lparr>vc_observation := Some b\<rparr>) (vr_cases v))\<rparr>)))"

definition complete_native_verification ::
  "outcome_config \<Rightarrow> string \<Rightarrow> observation raw \<Rightarrow> verification_inputs \<Rightarrow> verification_runtime \<Rightarrow>
   control_result verification_result \<times> verification_runtime" where
  "complete_native_verification cfg p raw x v =
     (case map_get (vr_cases v) p of
       None \<Rightarrow> (Inl (Throws VERIFY_PLAN_NOT_FOUND), v)
     | Some c \<Rightarrow> (case ensure_outcome cfg p c x v of
         (Inl e, v1) \<Rightarrow> (Inl e, v1)
       | (Inr i, v1) \<Rightarrow>
         (case ebind (safe_parse NATIVE_OBSERVATION_INVALID parse_observation raw) (\<lambda>b.
              ebind (guarded (ob_plan_id b = p \<and> ob_receipt_id b = rc_id (vc_receipt c)) NATIVE_OBSERVATION_INVALID) (\<lambda>_. Inr b)) of
            Inl e \<Rightarrow> (Inl e, v1)
          | Inr b \<Rightarrow>
            (let v2 = v1\<lparr>vr_observations := map_set (ob_id b) b (vr_observations v1)\<rparr> in
             case get_outcome v2 i of
               None \<Rightarrow> (Inl (Throws VERIFY_RUNTIME_UNAVAILABLE), v2)
             | Some r \<Rightarrow> if oc_status r \<noteq> V_pending then (Inr (to_public p r), v2)
                 else complete_native_attempt cfg p i b x v2))))"

section \<open>The public verification request\<close>

definition verify_attempt ::
  "outcome_config \<Rightarrow> string \<Rightarrow> registered_case \<Rightarrow> string \<Rightarrow> outcome \<Rightarrow> verification_inputs \<Rightarrow> verification_runtime \<Rightarrow>
   control_result verification_result \<times> verification_runtime" where
  "verify_attempt cfg p c i r x v =
     (case begin_attempt cfg i (Some \<lparr>inj_id = vi_attempt_id x,
           inj_started_at = (case vc_observation c of None \<Rightarrow> Iso (vi_started_at x) | Some b \<Rightarrow> ob_started_at b), inj_iso = True\<rparr>) []
         (vi_begun_at x) (vr_service v) of
       (Inl e, s) \<Rightarrow> (of_outcome (Inl e), v\<lparr>vr_service := s\<rparr>)
     | (Inr a, s) \<Rightarrow> (case vc_observation c of
         None \<Rightarrow> (Inr (inconclusive_result (plan_id (vc_plan c)) (length (oc_attempts r)) 1), v\<lparr>vr_service := s\<rparr>)
       | Some b0 \<Rightarrow>
         (let b = b0\<lparr>ob_attempt_id := pd_id a, ob_started_at := pd_started_at a\<rparr>;
              v1 = v\<lparr>vr_service := s, vr_observations := map_set (ob_id b) b (vr_observations v)\<rparr> in
          case complete_and_settle cfg i (pd_id a) (resolve_observation v1 (ob_id b)) x s of
            (Inl e, s') \<Rightarrow> (of_outcome (Inl e), v1\<lparr>vr_service := s'\<rparr>)
          | (Inr done, s') \<Rightarrow> (Inr (to_public (plan_id (vc_plan c)) done), v1\<lparr>vr_service := s'\<rparr>))))"

definition verify_plan ::
  "outcome_config \<Rightarrow> plan_lookup \<Rightarrow> string \<Rightarrow> verification_inputs \<Rightarrow> verification_runtime \<Rightarrow>
   control_result verification_result \<times> verification_runtime" where
  "verify_plan cfg look p x v =
     (case map_get (vr_cases v) p of
       None \<Rightarrow> (case look p of None \<Rightarrow> Inl (Throws VERIFY_PLAN_NOT_FOUND) | Some a \<Rightarrow> Inr (inconclusive_result p 0 0), v)
     | Some c \<Rightarrow> (case ensure_outcome cfg p c x v of
         (Inl e, v1) \<Rightarrow> (Inl e, v1)
       | (Inr i, v1) \<Rightarrow> (case get_outcome v1 i of
           None \<Rightarrow> (Inl (Throws VERIFY_RUNTIME_UNAVAILABLE), v1)
         | Some r \<Rightarrow> if oc_status r \<noteq> V_pending then (Inr (to_public (plan_id (vc_plan c)) r), v1)
             else verify_attempt cfg p c i r x v1)))"

text \<open>The facade: the session's scope, then the body, then the runtime, when there is one.\<close>

definition control_verify ::
  "outcome_config \<Rightarrow> plan_lookup \<Rightarrow> bool \<Rightarrow> string raw \<Rightarrow> verification_inputs \<Rightarrow> verification_runtime option \<Rightarrow>
   control_result verification_result \<times> verification_runtime option" where
  "control_verify cfg look scoped body x rt =
     (if \<not> scoped then (Inl (Throws VERIFY_SCOPE_INSUFFICIENT), rt)
      else (case safe_parse VERIFY_INPUT_INVALID (parse_with js_trim locator_ok) body of
        Inl e \<Rightarrow> (Inl e, rt)
      | Inr p \<Rightarrow> (case rt of None \<Rightarrow> (Inl (Throws VERIFY_PLAN_NOT_FOUND), rt)
          | Some v \<Rightarrow> (case verify_plan cfg look p x v of (res, v') \<Rightarrow> (res, Some v')))))"

section \<open>Reading\<close>

definition observe_plan :: "plan_lookup \<Rightarrow> string \<Rightarrow> verification_runtime \<Rightarrow> control_result option" where
  "observe_plan look p v = (case map_get (vr_cases v) p of
     None \<Rightarrow> map_option (\<lambda>_. inconclusive_result p 0 0) (look p)
   | Some c \<Rightarrow> (case vc_outcome_id c of None \<Rightarrow> Some (pending_result p False)
       | Some i \<Rightarrow> map_option (to_public p) (get_outcome v i)))"

record trusted_outcome =
  tx_outcome_id :: string
  tx_status :: verification_status
  tx_revisit :: bool
  tx_receipt_id :: string
  tx_receipt_digest :: string
  tx_expected_digest :: "string option"
  tx_observation_digest :: "string option"
  tx_observation_id :: "string option"
  tx_expected :: "json_object option"
  tx_observed :: "json_object option"
  tx_reasons :: "string list"

definition trusted_outcome_of :: "string \<Rightarrow> verification_runtime \<Rightarrow> trusted_outcome option" where
  "trusted_outcome_of p v =
     Option.bind (map_get (vr_cases v) p) (\<lambda>c.
     Option.bind (vc_outcome_id c) (\<lambda>i.
     map_option (\<lambda>k. (let r = rx_outcome k in
       \<lparr>tx_outcome_id = oc_id r, tx_status = oc_status r, tx_revisit = oc_revisit r, tx_receipt_id = oc_receipt_id r,
        tx_receipt_digest = rc_digest (vc_receipt c), tx_expected_digest = oc_expected_digest r,
        tx_observation_digest = oc_latest_digest r, tx_observation_id = rx_observation_id k,
        tx_expected = Some (rx_expected k), tx_observed = rx_observed k,
        tx_reasons = (case last_attempt r of None \<Rightarrow> [] | Some a \<Rightarrow> map outcome_reason_text (va_reasons a))\<rparr>))
       (trusted_revision_context i (\<lambda>b. map_option ob_payload (map_get (vr_observations v) b)) (vr_service v))))"

text \<open>A state of more than 8 KiB of canonical text is replaced by its digest.\<close>

definition bounded_state :: "(string \<Rightarrow> string) \<Rightarrow> json_object option \<Rightarrow> evidence_error_code throws + json_object option" where
  "bounded_state sha x = (case x of None \<Rightarrow> Inr None
   | Some ms \<Rightarrow> ebind (canonical_json (JObj ms)) (\<lambda>t.
       if int (length (utf8 t)) \<le> 8 * 1024 then Inr (Some ms)
       else Inr (Some [(''projection'', JStr ''TRUNCATED''), (''canonical_sha256'', JStr (sha256_hex sha t)),
         (''max_bytes'', JInt (8 * 1024))])))"

record bounded_outcome =
  bo_outcome_id :: string
  bo_status :: verification_status
  bo_revisit :: bool
  bo_expected :: "json_object option"
  bo_observed :: "json_object option"
  bo_reasons :: "string list"

definition bounded_outcome_projection ::
  "(string \<Rightarrow> string) \<Rightarrow> string \<Rightarrow> verification_runtime \<Rightarrow> evidence_error_code throws + bounded_outcome option" where
  "bounded_outcome_projection sha p v = (case trusted_outcome_of p v of
     None \<Rightarrow> Inr None
   | Some t \<Rightarrow> ebind (bounded_state sha (tx_expected t)) (\<lambda>x. ebind (bounded_state sha (tx_observed t)) (\<lambda>o1.
       Inr (Some \<lparr>bo_outcome_id = tx_outcome_id t, bo_status = tx_status t, bo_revisit = tx_revisit t,
         bo_expected = x, bo_observed = o1, bo_reasons = take 50 (tx_reasons t)\<rparr>))))"

section \<open>The outcome service under the runtime\<close>

text \<open>Steps of the outcome service never lose an outcome, and only extend its history.\<close>

lemma outcome_step_extends:
  assumes "outcome_step cfg (log, s) (log', s')" "service_inv cfg log s" "os_get (sv_store s) j = Some q"
  shows "\<exists>q'. os_get (sv_store s') j = Some q' \<and> outcome_extends q q'"
  using assms(1)
proof cases
  case (opened i plan receipt now res)
  have "sv_store s' = sv_store s \<or> (\<exists>o' st. os_create o' (sv_store s) = Inr st \<and> sv_store s' = st \<and> oc_id o' = i)"
    using opened(4) open_checks_id by (cases rule: open_outcome_cases) fastforce+
  then show ?thesis using assms(3) opened(2)
    by (auto simp: os_create_Inr parse_outcome_record_Some os_get_def map_get_set norm_outcome_record_def)
next
  case (begun i injected generated now res')
  from begun(2) show ?thesis using assms(3) by (cases rule: begin_attempt_cases) auto
next
  case (completed i a resolved now later res)
  from completed(2) show ?thesis
  proof (cases rule: complete_attempt_cases)
    case (recorded r u st)
    obtain p where "st = map_set i p (sv_store s)" "outcome_extends r p"
      by (rule recorded_update [OF assms(2) recorded(2,3,4)])
    then show ?thesis using recorded(2,5) assms(3) by (auto simp: os_get_def map_get_set)
  qed (use assms(3) in auto)
next
  case (settled i)
  then show ?thesis using assms(3) by (simp add: settle_completion_def)
qed

inductive service_run :: "outcome_config \<Rightarrow> observation raw list \<times> outcome_service \<Rightarrow> observation raw list \<times> outcome_service \<Rightarrow> bool"
  for cfg where
  stay: "service_run cfg w w"
| more: "service_run cfg w w' \<Longrightarrow> outcome_step cfg w' w'' \<Longrightarrow> service_run cfg w w''"

lemma service_run_reachable:
  "service_run cfg w w' \<Longrightarrow> outcome_reachable cfg (fst w) (snd w) \<Longrightarrow> outcome_reachable cfg (fst w') (snd w')"
  by (induction rule: service_run.induct) (auto intro: outcome_reachable.step)

lemma service_run_trans: "service_run cfg w' w'' \<Longrightarrow> service_run cfg w w' \<Longrightarrow> service_run cfg w w''"
  by (induction rule: service_run.induct) (auto intro: service_run.more)

lemma service_run_one: "outcome_step cfg w w' \<Longrightarrow> service_run cfg w w'"
  by (rule service_run.more [OF service_run.stay])

lemma service_run_extends:
  assumes "service_run cfg w w'" "outcome_reachable cfg (fst w) (snd w)" "1 \<le> oc_limit cfg" "os_get (sv_store (snd w)) j = Some q"
  shows "\<exists>q'. os_get (sv_store (snd w')) j = Some q' \<and> outcome_extends q q'"
  using assms
proof (induction rule: service_run.induct)
  case (stay w)
  then show ?case by auto
next
  case (more w w' w'')
  then obtain q' where q': "os_get (sv_store (snd w')) j = Some q'" "outcome_extends q q'" by blast
  have "outcome_reachable cfg (fst w') (snd w')" by (rule service_run_reachable [OF more(1,4)])
  then have "service_inv cfg (fst w') (snd w')" using more(5) by (rule outcome_reachable_inv)
  then obtain q'' where "os_get (sv_store (snd w'')) j = Some q''" "outcome_extends q' q''"
    using outcome_step_extends [of cfg "fst w'" "snd w'" "fst w''" "snd w''" j q'] more(2) q'(1) by auto
  then show ?case using q'(2) outcome_extends_trans by blast
qed

lemma complete_and_settle_run:
  assumes "complete_and_settle cfg i a resolved x s = (res, s')"
  shows "service_run cfg (log, s) (case resolved of None \<Rightarrow> log | Some raw \<Rightarrow> raw # log, s')"
proof -
  obtain res1 s1 where c: "complete_attempt cfg i a resolved (vi_checked_at x) (vi_finished_at x) s = (res1, s1)" by fastforce
  let ?log = "case resolved of None \<Rightarrow> log | Some raw \<Rightarrow> raw # log"
  have one: "service_run cfg (log, s) (?log, s1)"
    by (rule service_run_one, rule outcome_step.completed [OF c])
  show ?thesis
  proof (cases res1)
    case (Inl e)
    then show ?thesis using assms c one by (auto simp: complete_and_settle_def)
  next
    case (Inr r)
    have "i \<in> set (sv_settling s1)" using c Inr by (cases rule: complete_attempt_cases) auto
    then have "service_run cfg (log, s) (?log, settle_completion i s1)"
      by (intro service_run.more [OF one] outcome_step.settled)
    then show ?thesis using assms c Inr by (auto simp: complete_and_settle_def)
  qed
qed

text \<open>The generated outcome id of a request is new: \<open>randomUUID\<close> does not repeat.\<close>

definition fresh_inputs :: "verification_inputs \<Rightarrow> verification_runtime \<Rightarrow> bool" where
  "fresh_inputs x v \<longleftrightarrow> os_get (sv_store (vr_service v)) (vi_outcome_id x) = None \<and>
     map_get (sv_contexts (vr_service v)) (vi_outcome_id x) = None"

text \<open>The service runs on, and the resolver answers only observations of \<open>obs\<close>.\<close>

definition runs_on :: "outcome_config \<Rightarrow> observation set \<Rightarrow> verification_runtime \<Rightarrow> verification_runtime \<Rightarrow> bool" where
  "runs_on cfg obs v v' \<longleftrightarrow> (\<forall>log. \<exists>log'. service_run cfg (log, vr_service v) (log', vr_service v') \<and>
     set log' \<subseteq> set log \<union> Shaped ` obs)"

lemma runs_on_same: "vr_service v' = vr_service v \<Longrightarrow> runs_on cfg obs v v'"
  by (auto simp: runs_on_def intro!: exI service_run.stay)

lemma runs_on_trans [trans]: "runs_on cfg obs v v' \<Longrightarrow> runs_on cfg obs v' v'' \<Longrightarrow> runs_on cfg obs v v''"
  unfolding runs_on_def by (meson service_run_trans order_trans Un_mono Un_least Un_upper2 order_refl)

lemma open_runs:
  assumes "open_outcome cfg plan receipt (vi_outcome_id x) now (vr_service v) = (res, s)" "fresh_inputs x v" "vr_service v' = s"
  shows "runs_on cfg obs v v'"
  unfolding runs_on_def
proof
  fix log
  have "outcome_step cfg (log, vr_service v) (log, s)"
    by (rule outcome_step.opened [OF _ _ assms(1)]) (use assms(2) in \<open>auto simp: fresh_inputs_def\<close>)
  then show "\<exists>log'. service_run cfg (log, vr_service v) (log', vr_service v') \<and> set log' \<subseteq> set log \<union> Shaped ` obs"
    using assms(3) service_run_one by blast
qed

lemma begin_runs:
  assumes "begin_attempt cfg i j g now (vr_service v) = (res, s)" "vr_service v' = s"
  shows "runs_on cfg obs v v'"
  unfolding runs_on_def using service_run_one [OF outcome_step.begun [OF assms(1)]] assms(2) by blast

lemma complete_runs:
  assumes "complete_and_settle cfg i a (resolve_observation u b) x (vr_service v) = (res, s)" "vr_service v' = s"
    "set (map_values (vr_observations u)) \<subseteq> obs"
  shows "runs_on cfg obs v v'"
  unfolding runs_on_def
proof
  fix log
  have "b' \<in> obs" if "map_get (vr_observations u) b = Some b'" for b'
    using map_of_SomeD [OF that] assms(3) by force
  then show "\<exists>log'. service_run cfg (log, vr_service v) (log', vr_service v') \<and> set log' \<subseteq> set log \<union> Shaped ` obs"
    using complete_and_settle_run [OF assms(1), of log] assms(2)
    by (intro exI conjI, simp) (auto simp: resolve_observation_def split: option.splits)
qed

text \<open>What opening leaves: the outcome is stored, and it is the plan's.\<close>

lemma open_outcome_stored:
  assumes "open_outcome cfg (Shaped plan) receipt i now s = (Inr q, s')"
  obtains r raw where "os_get (sv_store s') (oc_id q) = Some q" "oc_plan_id q = plan_id plan" "receipt = Some raw"
    "verify_receipt_integrity (oc_sha cfg) raw = Inr r" "rc_plan_id r = plan_id plan" "oc_attempts q = []"
    "oc_status q = V_pending \<or> oc_status q = V_not_required"
proof -
  have "\<exists>st c. open_checks cfg (Shaped plan) receipt i now = Inr (q, c) \<and> os_create q (sv_store s) = Inr st \<and> sv_store s' = st"
    using assms by (cases rule: open_outcome_cases) auto
  then obtain st c where o: "open_checks cfg (Shaped plan) receipt i now = Inr (q, c)" "os_create q (sv_store s) = Inr st"
      "sv_store s' = st" by blast
  note f = opened_record [OF o(1)]
  have st: "os_get (sv_store s') (oc_id q) = Some q" using o(2,3) f(1) by (auto simp: os_create_Inr os_get_def map_get_set)
  have p: "plan_id p = plan_id plan" if "safe_parse OUTCOME_INPUT_INVALID parse_plan (Shaped plan) = Inr p" for p
    using that by (auto simp: safe_parse_Inr parse_plan_def parse_with_Some norm_plan_def)
  from o(1) show ?thesis
  proof (cases rule: open_checks_Inr)
    case (1 p raw r)
    have "oc_plan_id q = plan_id p"
      using 1(6) by (auto simp: parse_outcome_record_Some outcome_record_for_def norm_outcome_record_def Let_def)
    moreover have "rc_plan_id r = plan_id p" using 1(4) by (auto simp: bind_receipt_to_plan_def ebind_Inr_iff)
    ultimately show ?thesis using that [OF st _ 1(2,3)] p [OF 1(1)] f(2,5) by simp
  next
    case (2 p raw r cx d)
    have "oc_plan_id q = plan_id p"
      using 2(6) by (auto simp: parse_outcome_record_Some outcome_record_for_def norm_outcome_record_def Let_def)
    moreover have "rc_plan_id r = plan_id p" using 2(4) by (auto simp: bind_receipt_to_plan_def ebind_Inr_iff)
    ultimately show ?thesis using that [OF st _ 2(2,3)] p [OF 2(1)] f(2,5) by simp
  qed
qed

section \<open>The invariant of the runtime\<close>

text \<open>A case whose outcome is open names an outcome of its plan.\<close>

definition case_ok :: "verification_runtime \<Rightarrow> string \<Rightarrow> registered_case \<Rightarrow> bool" where
  "case_ok v p c = (case vc_outcome_id c of None \<Rightarrow> plan_id (vc_plan c) = p
     | Some i \<Rightarrow> (\<exists>q. get_outcome v i = Some q \<and> oc_plan_id q = p))"

definition cases_ok :: "verification_runtime \<Rightarrow> bool" where
  "cases_ok v \<longleftrightarrow> (\<forall>p c. map_get (vr_cases v) p = Some c \<longrightarrow> case_ok v p c)"

text \<open>Each case of the later state is an earlier one, up to its observation, or is right itself.\<close>

definition cases_follow :: "verification_runtime \<Rightarrow> verification_runtime \<Rightarrow> bool" where
  "cases_follow v v' \<longleftrightarrow> (\<forall>p c'. map_get (vr_cases v') p = Some c' \<longrightarrow> (\<exists>c. map_get (vr_cases v) p = Some c \<and>
     vc_outcome_id c' = vc_outcome_id c \<and> vc_plan c' = vc_plan c) \<or> case_ok v' p c')"

lemma cases_follow_same: "vr_cases v' = vr_cases v \<Longrightarrow> cases_follow v v'"
  by (auto simp: cases_follow_def)

lemma runs_on_extends:
  assumes "runs_on cfg obs v v'" "outcome_reachable cfg log (vr_service v)" "1 \<le> oc_limit cfg" "get_outcome v i = Some q"
  shows "\<exists>q'. get_outcome v' i = Some q' \<and> outcome_extends q q'"
proof -
  obtain log' where "service_run cfg (log, vr_service v) (log', vr_service v')" using assms(1) by (auto simp: runs_on_def)
  from service_run_extends [OF this] assms(2-4) show ?thesis by (auto simp: get_outcome_def)
qed

lemma case_ok_runs:
  assumes "runs_on cfg obs v v'" "outcome_reachable cfg log (vr_service v)" "1 \<le> oc_limit cfg"
    "case_ok v p c" "vc_outcome_id c' = vc_outcome_id c" "vc_plan c' = vc_plan c"
  shows "case_ok v' p c'"
  using assms(4-6) runs_on_extends [OF assms(1-3)]
  by (fastforce simp: case_ok_def outcome_extends_def same_outcome_def split: option.splits)

lemma cases_ok_follow:
  assumes "runs_on cfg obs v v'" "outcome_reachable cfg log (vr_service v)" "1 \<le> oc_limit cfg" "cases_ok v" "cases_follow v v'"
  shows "cases_ok v'"
  using assms(4,5) case_ok_runs [OF assms(1-3)] unfolding cases_ok_def cases_follow_def by blast

lemma runs_on_reachable:
  assumes "runs_on cfg obs v v'" "outcome_reachable cfg log (vr_service v)"
  shows "\<exists>log'. outcome_reachable cfg log' (vr_service v') \<and> set log' \<subseteq> set log \<union> Shaped ` obs"
proof -
  obtain log' where "service_run cfg (log, vr_service v) (log', vr_service v')" "set log' \<subseteq> set log \<union> Shaped ` obs"
    using assms(1) by (auto simp: runs_on_def)
  then show ?thesis using service_run_reachable [of cfg "(log, vr_service v)" "(log', vr_service v')"] assms(2) by auto
qed

text \<open>An operation of the runtime, as the later lemmas use it.\<close>

definition lawful :: "outcome_config \<Rightarrow> verification_runtime \<Rightarrow> verification_runtime \<Rightarrow> bool" where
  "lawful cfg v v' \<longleftrightarrow> runs_on cfg (set (map_values (vr_observations v'))) v v' \<and> (cases_ok v \<longrightarrow> cases_follow v v')"

lemma ensure_outcome_effect:
  assumes "ensure_outcome cfg p c x v = (res, v')" "map_get (vr_cases v) p = Some c" "fresh_inputs x v"
  shows "runs_on cfg obs v v' \<and> vr_observations v' = vr_observations v \<and> (cases_ok v \<longrightarrow> cases_follow v v') \<and>
    (\<forall>i. res = Inr i \<longrightarrow> (\<exists>c'. map_get (vr_cases v') p = Some c' \<and> vc_outcome_id c' = Some i \<and> vc_plan c' = vc_plan c))"
proof (cases "vc_outcome_id c")
  case (Some i)
  then show ?thesis using assms(1,2) by (auto simp: ensure_outcome_def cases_follow_same runs_on_same)
next
  case None
  obtain res1 s where o: "open_outcome cfg (Shaped (vc_plan c)) (resolve_receipt v (rc_id (vc_receipt c))) (vi_outcome_id x)
      (vi_opened_at x) (vr_service v) = (res1, s)" by fastforce
  show ?thesis
  proof (cases res1)
    case (Inl e)
    then have v': "v' = v\<lparr>vr_service := s\<rparr>" "res = of_outcome (Inl e)" using assms(1) None o by (auto simp: ensure_outcome_def)
    then have "runs_on cfg obs v v'" by (intro open_runs [OF o assms(3)]) simp
    moreover have "of_outcome (Inl e :: string outcome_result) \<noteq> Inr i" for i by simp
    ultimately show ?thesis using v' by (auto intro: cases_follow_same)
  next
    case (Inr q)
    then have v': "v' = v\<lparr>vr_service := s, vr_cases := map_set p (c\<lparr>vc_outcome_id := Some (oc_id q)\<rparr>) (vr_cases v)\<rparr>"
      and res: "res = Inr (oc_id q)" using assms(1) None o by (auto simp: ensure_outcome_def)
    have run: "runs_on cfg obs v v'" by (rule open_runs [OF o assms(3)]) (simp add: v')
    obtain r raw where q: "os_get (sv_store s) (oc_id q) = Some q" "oc_plan_id q = plan_id (vc_plan c)"
      by (rule open_outcome_stored [OF o [unfolded Inr]])
    have "case_ok v' p (c\<lparr>vc_outcome_id := Some (oc_id q)\<rparr>)" if "cases_ok v"
      using that assms(2) None q unfolding cases_ok_def by (fastforce simp: case_ok_def get_outcome_def v')
    then have "cases_ok v \<longrightarrow> cases_follow v v'" by (auto simp: cases_follow_def v' map_get_set)
    then show ?thesis using run res by (auto simp: v' map_get_set)
  qed
qed

lemma lawful_same: "vr_service v' = vr_service v \<Longrightarrow> vr_cases v' = vr_cases v \<Longrightarrow> lawful cfg v v'"
  by (simp add: lawful_def runs_on_same cases_follow_same)

lemma register_lawful:
  assumes "register_native_receipt cfg look p raw x v = (res, v')" "fresh_inputs x v"
  shows "lawful cfg v v'"
proof (cases "\<exists>plan n r. receipt_checks (oc_sha cfg) look p raw = Inr (plan, n) \<and> map_get (vr_cases v) p = None \<and>
    materialize_receipt (oc_sha cfg) n = Inr r")
  case False
  then have "v' = v" using assms(1) by (auto simp: register_native_receipt_def split: sum.splits option.splits prod.splits)
  then show ?thesis by (simp add: lawful_same)
next
  case True
  then obtain plan n r where n: "receipt_checks (oc_sha cfg) look p raw = Inr (plan, n)" "map_get (vr_cases v) p = None"
    "materialize_receipt (oc_sha cfg) n = Inr r" by blast
  let ?c = "\<lparr>vc_plan = plan, vc_receipt = r, vc_observation = None, vc_outcome_id = None\<rparr>"
  let ?v1 = "v\<lparr>vr_receipts := map_set (rc_id r) r (vr_receipts v), vr_cases := map_set p ?c (vr_cases v)\<rparr>"
  obtain res1 s where o: "open_outcome cfg (Shaped plan) (resolve_receipt ?v1 (rc_id r)) (vi_outcome_id x) (vi_opened_at x) (vr_service ?v1) = (res1, s)"
    by fastforce
  have run: "runs_on cfg obs v v'" if "vr_service v' = s" for obs
    by (rule open_runs [OF o [simplified] assms(2) that])
  have rp: "rc_plan_id r' = p" if "verify_receipt_integrity (oc_sha cfg) (Shaped r) = Inr r'" for r'
    using that n(1,3) by (auto simp: verify_receipt_integrity_def ebind_Inr_iff safe_parse_Inr parse_receipt_def parse_with_Some
        norm_receipt_def materialize_receipt_def receipt_checks_def Let_def)
  show ?thesis
  proof (cases res1)
    case (Inl e)
    then have v': "v' = ?v1\<lparr>vr_service := s, vr_cases := map_delete p (vr_cases ?v1), vr_receipts := map_delete (rc_id r) (vr_receipts ?v1)\<rparr>"
      using assms(1) n o by (simp add: register_native_receipt_def Let_def)
    then show ?thesis using run n(2) by (auto simp: lawful_def cases_follow_def map_get_delete map_get_set split: if_splits)
  next
    case (Inr q)
    then have v': "v' = ?v1\<lparr>vr_service := s, vr_cases := map_set p (?c\<lparr>vc_outcome_id := Some (oc_id q)\<rparr>) (vr_cases ?v1)\<rparr>"
      using assms(1) n o by (simp add: register_native_receipt_def Let_def)
    obtain r' raw' where q: "os_get (sv_store s) (oc_id q) = Some q" "oc_plan_id q = plan_id plan"
      "resolve_receipt ?v1 (rc_id r) = Some raw'" "verify_receipt_integrity (oc_sha cfg) raw' = Inr r'" "rc_plan_id r' = plan_id plan"
      by (rule open_outcome_stored [OF o [unfolded Inr]])
    have "oc_plan_id q = p" using q(2-5) rp by (auto simp: resolve_receipt_def map_get_set)
    then show ?thesis using run v' q(1) by (auto simp: lawful_def cases_follow_def case_ok_def get_outcome_def map_get_set)
  qed
qed

lemma complete_native_attempt_effect:
  assumes "complete_native_attempt cfg p i b x v = (res, v')"
  shows "lawful cfg v v' \<and> vr_observations v' = vr_observations v"
proof -
  obtain res1 s where b: "begin_attempt cfg i (Some \<lparr>inj_id = ob_attempt_id b, inj_started_at = ob_started_at b, inj_iso = True\<rparr>) []
      (vi_begun_at x) (vr_service v) = (res1, s)" by fastforce
  show ?thesis
  proof (cases res1)
    case (Inl e)
    then have v': "v' = v\<lparr>vr_service := s\<rparr>" using assms b by (simp add: complete_native_attempt_def)
    then show ?thesis using begin_runs [OF b] by (simp add: lawful_def cases_follow_same)
  next
    case (Inr a)
    let ?u = "v\<lparr>vr_service := s\<rparr>"
    obtain res2 s2 where c: "complete_and_settle cfg i (pd_id a) (resolve_observation v (ob_id b)) x s = (res2, s2)" by fastforce
    have v': "vr_service v' = s2" "vr_observations v' = vr_observations v" "cases_follow v v'"
      using assms b Inr c by (auto simp: complete_native_attempt_def cases_follow_def map_get_set split: sum.splits option.splits if_splits)
    let ?obs = "set (map_values (vr_observations v))"
    have "runs_on cfg ?obs v ?u" by (rule begin_runs [OF b]) simp
    also have "runs_on cfg ?obs ?u v'" by (rule complete_runs [of _ _ _ v]) (use c v' in simp_all)
    finally show ?thesis using v' by (simp add: lawful_def)
  qed
qed

lemma cases_ok_same:
  assumes "vr_cases v' = vr_cases v" "vr_service v' = vr_service v" shows "cases_ok v' = cases_ok v"
  unfolding cases_ok_def case_ok_def get_outcome_def assms by (rule refl)

lemma complete_native_lawful:
  assumes run: "complete_native_verification cfg p raw x v = (res, v')" and f: "fresh_inputs x v"
    and r: "outcome_reachable cfg log (vr_service v)" "1 \<le> oc_limit cfg"
  shows "runs_on cfg (set (map_values (vr_observations v'))) v v' \<and> (cases_ok v \<longrightarrow> cases_ok v')"
proof (cases "map_get (vr_cases v) p")
  case None
  then show ?thesis using run by (simp add: complete_native_verification_def runs_on_same)
next
  case (Some c)
  obtain res1 v1 where e: "ensure_outcome cfg p c x v = (res1, v1)" by fastforce
  note E = ensure_outcome_effect [OF e Some f]
  have ok1: "cases_ok v \<longrightarrow> cases_ok v1" using E cases_ok_follow [OF _ r] by blast
  obtain log1 where r1: "outcome_reachable cfg log1 (vr_service v1)" using runs_on_reachable E r(1) by blast
  have last: "vr_cases v' = vr_cases v1 \<and> vr_service v' = vr_service v1 \<or>
      (\<exists>i b v2. v2 = v1\<lparr>vr_observations := map_set (ob_id b) b (vr_observations v1)\<rparr> \<and>
        complete_native_attempt cfg p i b x v2 = (res, v'))"
    using run Some e unfolding complete_native_verification_def
    by (auto simp: Let_def split: sum.splits option.splits if_splits)
  have "runs_on cfg (set (map_values (vr_observations v'))) v1 v' \<and> (cases_ok v1 \<longrightarrow> cases_ok v')"
    using last
  proof
    assume "vr_cases v' = vr_cases v1 \<and> vr_service v' = vr_service v1"
    then show ?thesis using cases_ok_same [of v' v1] by (simp add: runs_on_same)
  next
    assume "\<exists>i b v2. v2 = v1\<lparr>vr_observations := map_set (ob_id b) b (vr_observations v1)\<rparr> \<and>
        complete_native_attempt cfg p i b x v2 = (res, v')"
    then obtain i b v2 where v2: "v2 = v1\<lparr>vr_observations := map_set (ob_id b) b (vr_observations v1)\<rparr>"
      and c: "complete_native_attempt cfg p i b x v2 = (res, v')" by blast
    note C = complete_native_attempt_effect [OF c]
    have "runs_on cfg (set (map_values (vr_observations v'))) v1 v2" by (rule runs_on_same) (simp add: v2)
    also have "runs_on cfg (set (map_values (vr_observations v'))) v2 v'" using C unfolding lawful_def by blast
    finally have "runs_on cfg (set (map_values (vr_observations v'))) v1 v'" .
    moreover have "cases_ok v1 \<longrightarrow> cases_ok v2" using cases_ok_same [of v2 v1] by (simp add: v2)
    moreover have "cases_ok v2 \<longrightarrow> cases_ok v'"
      using C cases_ok_follow [of cfg _ v2 v' log1] r1 r(2) unfolding lawful_def by (auto simp: v2)
    ultimately show ?thesis by blast
  qed
  then show ?thesis using E ok1 runs_on_trans by blast
qed

lemma verify_attempt_effect:
  assumes "verify_attempt cfg p c i r x v = (res, v')"
  shows "lawful cfg v v' \<and> vr_cases v' = vr_cases v"
proof -
  obtain res1 s where b: "begin_attempt cfg i (Some \<lparr>inj_id = vi_attempt_id x,
      inj_started_at = (case vc_observation c of None \<Rightarrow> Iso (vi_started_at x) | Some b \<Rightarrow> ob_started_at b), inj_iso = True\<rparr>) []
      (vi_begun_at x) (vr_service v) = (res1, s)" by fastforce
  show ?thesis
  proof (cases "\<exists>a b0. res1 = Inr a \<and> vc_observation c = Some b0")
    case False
    then have v': "v' = v\<lparr>vr_service := s\<rparr>" using assms b
      by (auto simp: verify_attempt_def split: sum.splits option.splits)
    then show ?thesis using begin_runs [OF b] by (simp add: lawful_def cases_follow_same)
  next
    case True
    then obtain a b0 where a: "res1 = Inr a" "vc_observation c = Some b0" by blast
    let ?b = "b0\<lparr>ob_attempt_id := pd_id a, ob_started_at := pd_started_at a\<rparr>"
    let ?u = "v\<lparr>vr_service := s, vr_observations := map_set (ob_id ?b) ?b (vr_observations v)\<rparr>"
    obtain res2 s2 where k: "complete_and_settle cfg i (pd_id a) (resolve_observation ?u (ob_id ?b)) x s = (res2, s2)" by fastforce
    have v': "vr_service v' = s2" "vr_observations v' = vr_observations ?u" "vr_cases v' = vr_cases v"
      using assms b a k by (auto simp: verify_attempt_def Let_def split: sum.splits)
    let ?obs = "set (map_values (vr_observations v'))"
    have "runs_on cfg ?obs v ?u" by (rule begin_runs [OF b]) simp
    also have "runs_on cfg ?obs ?u v'" by (rule complete_runs [of _ _ _ ?u]) (use k v' in simp_all)
    finally show ?thesis using v' by (simp add: lawful_def cases_follow_same)
  qed
qed

lemma verify_lawful:
  assumes run: "verify_plan cfg look p x v = (res, v')" and f: "fresh_inputs x v"
    and r: "outcome_reachable cfg log (vr_service v)" "1 \<le> oc_limit cfg"
  shows "runs_on cfg (set (map_values (vr_observations v'))) v v' \<and> (cases_ok v \<longrightarrow> cases_ok v')"
proof (cases "map_get (vr_cases v) p")
  case None
  then show ?thesis using run by (simp add: verify_plan_def runs_on_same)
next
  case (Some c)
  obtain res1 v1 where e: "ensure_outcome cfg p c x v = (res1, v1)" by fastforce
  note E = ensure_outcome_effect [OF e Some f]
  have ok1: "cases_ok v \<longrightarrow> cases_ok v1" using E cases_ok_follow [OF _ r] by blast
  obtain log1 where r1: "outcome_reachable cfg log1 (vr_service v1)" using runs_on_reachable E r(1) by blast
  have "v' = v1 \<or> (\<exists>i q. verify_attempt cfg p c i q x v1 = (res, v'))"
    using run Some e by (auto simp: verify_plan_def split: sum.splits option.splits if_splits)
  then have "runs_on cfg (set (map_values (vr_observations v'))) v1 v' \<and> (cases_ok v1 \<longrightarrow> cases_ok v')"
  proof
    assume "\<exists>i q. verify_attempt cfg p c i q x v1 = (res, v')"
    then have "lawful cfg v1 v'" using verify_attempt_effect by blast
    then show ?thesis using cases_ok_follow [OF _ r1 r(2)] by (auto simp: lawful_def)
  qed (simp add: runs_on_same)
  then show ?thesis using E ok1 runs_on_trans by blast
qed

section \<open>Runs of the runtime\<close>

text \<open>\<open>entered\<close> are the observations that have been in the map of the resolver.\<close>

inductive runtime_reachable :: "outcome_config \<Rightarrow> observation set \<Rightarrow> verification_runtime \<Rightarrow> bool" for cfg where
  start: "runtime_reachable cfg {} new_verification_runtime"
| controlled: "runtime_reachable cfg entered v \<Longrightarrow> register_controlled_case plan r b v = Inr v' \<Longrightarrow>
    runtime_reachable cfg (entered \<union> set (map_values (vr_observations v'))) v'"
| registered: "runtime_reachable cfg entered v \<Longrightarrow> fresh_inputs x v \<Longrightarrow> register_native_receipt cfg look p raw x v = (res, v') \<Longrightarrow>
    runtime_reachable cfg (entered \<union> set (map_values (vr_observations v'))) v'"
| completed: "runtime_reachable cfg entered v \<Longrightarrow> fresh_inputs x v \<Longrightarrow> complete_native_verification cfg p raw' x v = (res', v') \<Longrightarrow>
    runtime_reachable cfg (entered \<union> set (map_values (vr_observations v'))) v'"
| verified: "runtime_reachable cfg entered v \<Longrightarrow> fresh_inputs x v \<Longrightarrow> verify_plan cfg look p x v = (res', v') \<Longrightarrow>
    runtime_reachable cfg (entered \<union> set (map_values (vr_observations v'))) v'"

lemma runtime_step_inv:
  assumes "runs_on cfg obs v v'" "outcome_reachable cfg log (vr_service v)" "set log \<subseteq> Shaped ` entered"
  shows "\<exists>log'. outcome_reachable cfg log' (vr_service v') \<and> set log' \<subseteq> Shaped ` (entered \<union> obs)"
proof -
  obtain log' where l: "outcome_reachable cfg log' (vr_service v')" "set log' \<subseteq> set log \<union> Shaped ` obs"
    using runs_on_reachable [OF assms(1,2)] by blast
  have "set log' \<subseteq> Shaped ` (entered \<union> obs)" using l(2) assms(3) unfolding image_Un by blast
  then show ?thesis using l(1) by blast
qed

lemma runtime_reachable_inv:
  assumes "runtime_reachable cfg entered v" "1 \<le> oc_limit cfg"
  shows "(\<exists>log. outcome_reachable cfg log (vr_service v) \<and> set log \<subseteq> Shaped ` entered) \<and> cases_ok v"
  using assms(1)
proof induction
  case start
  then show ?case by (auto simp: new_verification_runtime_def cases_ok_def intro: exI [of _ "[]"] outcome_reachable.start)
next
  case (controlled entered v plan r b v')
  then have "vr_service v' = vr_service v" "cases_follow v v'"
    by (auto simp: register_controlled_case_def cases_follow_def case_ok_def map_get_set split: if_splits)
  then have l: "runs_on cfg (set (map_values (vr_observations v'))) v v'" "cases_follow v v'" by (simp_all add: runs_on_same)
  obtain log where log: "outcome_reachable cfg log (vr_service v)" "set log \<subseteq> Shaped ` entered" using controlled.IH by blast
  show ?case using runtime_step_inv [OF l(1) log] cases_ok_follow [OF l(1) log(1) assms(2) _ l(2)] controlled.IH by blast
next
  case (registered entered v x look p raw res v')
  obtain log where log: "outcome_reachable cfg log (vr_service v)" "set log \<subseteq> Shaped ` entered" using registered.IH by blast
  have l: "runs_on cfg (set (map_values (vr_observations v'))) v v'" "cases_follow v v'"
    using register_lawful [OF registered.hyps(3,2)] registered.IH by (auto simp: lawful_def)
  show ?case using runtime_step_inv [OF l(1) log] cases_ok_follow [OF l(1) log(1) assms(2) _ l(2)] registered.IH by blast
next
  case (completed entered v x p raw' res' v')
  obtain log where log: "outcome_reachable cfg log (vr_service v)" "set log \<subseteq> Shaped ` entered" using completed.IH by blast
  note l = complete_native_lawful [OF completed.hyps(3,2) log(1) assms(2)]
  show ?case using runtime_step_inv [OF conjunct1 [OF l] log] l completed.IH by blast
next
  case (verified entered v x look p res' v')
  obtain log where log: "outcome_reachable cfg log (vr_service v)" "set log \<subseteq> Shaped ` entered" using verified.IH by blast
  note l = verify_lawful [OF verified.hyps(3,2) log(1) assms(2)]
  show ?case using runtime_step_inv [OF conjunct1 [OF l] log] l verified.IH by blast
qed

section \<open>Properties\<close>

text \<open>C13: A public verdict of "verified" is evidenced. In every state the runtime can reach, when the public
  observation of a plan says verified, the plan has a registered receipt whose outcome is the plan's, and an
  observation that has been in the resolver's map, intact, bound to the plan, the receipt, the attempt and the
  expected subject, not older than the receipt, was judged verified by the capability's own evaluator.\<close>

theorem public_verdict_is_evidenced:
  assumes "runtime_reachable cfg entered v" "1 \<le> oc_limit cfg" "observe_plan look p v = Some res" "vp_status res = CS_verified"
  shows "\<exists>c i q cx a. map_get (vr_cases v) p = Some c \<and> vc_outcome_id c = Some i \<and> get_outcome v i = Some q \<and> oc_plan_id q = p \<and>
    map_get (sv_contexts (vr_service v)) i = Some cx \<and> last_attempt q = Some a \<and>
    (\<exists>log. set log \<subseteq> Shaped ` entered \<and> evidenced cfg log cx q a)"
proof -
  obtain log where log: "outcome_reachable cfg log (vr_service v)" "set log \<subseteq> Shaped ` entered" and ok: "cases_ok v"
    using runtime_reachable_inv [OF assms(1,2)] by blast
  have "\<exists>c i q. map_get (vr_cases v) p = Some c \<and> vc_outcome_id c = Some i \<and> get_outcome v i = Some q \<and> oc_status q = V_verified"
  proof (cases "map_get (vr_cases v) p")
    case None
    then show ?thesis using assms(3,4) by (auto simp: observe_plan_def inconclusive_result_def)
  next
    case (Some c)
    then show ?thesis using assms(3,4) by (cases "vc_outcome_id c")
      (auto simp: observe_plan_def pending_result_def to_public_def Let_def elim!: control_status_of.elims)
  qed
  then obtain c i q where q: "map_get (vr_cases v) p = Some c" "vc_outcome_id c = Some i" "get_outcome v i = Some q"
    "oc_status q = V_verified" by blast
  have "case_ok v p c" using ok q(1) by (simp add: cases_ok_def)
  then have "oc_plan_id q = p" using q(2,3) by (auto simp: case_ok_def)
  moreover obtain a cx where "last_attempt q = Some a" "map_get (sv_contexts (vr_service v)) i = Some cx" "evidenced cfg log cx q a"
    by (rule verified_evidence [OF outcome_reachable_inv [OF log(1) assms(2)] q(3) [unfolded get_outcome_def] q(4)])
  ultimately show ?thesis using q log(2) by blast
qed

text \<open>The requests that can follow for a plan.\<close>

datatype later_request = Verify_again verification_inputs | Native_observation "observation raw" verification_inputs

fun run_request :: "outcome_config \<Rightarrow> plan_lookup \<Rightarrow> string \<Rightarrow> later_request \<Rightarrow> verification_runtime \<Rightarrow>
    control_result verification_result \<times> verification_runtime" where
  "run_request cfg look p (Verify_again x) v = verify_plan cfg look p x v"
| "run_request cfg look p (Native_observation raw x) v = complete_native_verification cfg p raw x v"

text \<open>The plan's pending outcome \<open>q\<close> has its attempt slot taken, and nobody will complete the attempt.\<close>

definition slot_taken :: "string \<Rightarrow> outcome \<Rightarrow> verification_runtime \<Rightarrow> bool" where
  "slot_taken p q v \<longleftrightarrow> (\<exists>c i. map_get (vr_cases v) p = Some c \<and> vc_outcome_id c = Some i \<and> get_outcome v i = Some q \<and>
     oc_status q = V_pending \<and> map_has (sv_pending (vr_service v)) i)"

lemma begin_taken:
  assumes "map_has (sv_pending s) i" shows "\<exists>e. begin_attempt cfg i j g now s = (Inl e, s)"
proof -
  obtain res s' where b: "begin_attempt cfg i j g now s = (res, s')" by fastforce
  from b have "\<exists>e. res = Inl e \<and> s' = s"
    by (cases rule: begin_attempt_cases) (use assms in \<open>auto simp: map_has_def\<close>)
  then show ?thesis using b by blast
qed

lemma of_outcome_Inl: "\<exists>e'. of_outcome (Inl e) = Inl e'"
  by (cases e) (auto simp: of_outcome_def)

lemma taken_request:
  assumes "slot_taken p q v"
  shows "(\<exists>e. fst (run_request cfg look p r v) = Inl e) \<and> slot_taken p q (snd (run_request cfg look p r v))"
proof -
  obtain c i where c: "map_get (vr_cases v) p = Some c" "vc_outcome_id c = Some i" "get_outcome v i = Some q"
    "oc_status q = V_pending" "map_has (sv_pending (vr_service v)) i"
    using assms by (auto simp: slot_taken_def)
  have keep: "slot_taken p q v'" if "vr_cases v' = vr_cases v" "vr_service v' = vr_service v" for v'
    using c that unfolding slot_taken_def get_outcome_def by auto
  have en: "ensure_outcome cfg p c x v = (Inr i, v)" for x using c(2) by (simp add: ensure_outcome_def)
  have bt: "\<exists>e. begin_attempt cfg i j g now (vr_service v) = (Inl e, vr_service v)" for j g now
    by (rule begin_taken [OF c(5)])
  show ?thesis
  proof (cases r)
    case (Verify_again x)
    obtain e where "begin_attempt cfg i (Some \<lparr>inj_id = vi_attempt_id x,
        inj_started_at = (case vc_observation c of None \<Rightarrow> Iso (vi_started_at x) | Some b \<Rightarrow> ob_started_at b), inj_iso = True\<rparr>) []
        (vi_begun_at x) (vr_service v) = (Inl e, vr_service v)" using bt by blast
    then have "verify_plan cfg look p x v = (of_outcome (Inl e), v)"
      using c en by (simp add: verify_plan_def verify_attempt_def)
    then show ?thesis using Verify_again of_outcome_Inl keep [of v] by auto
  next
    case (Native_observation raw x)
    show ?thesis
    proof (cases "ebind (safe_parse NATIVE_OBSERVATION_INVALID parse_observation raw) (\<lambda>b.
        ebind (guarded (ob_plan_id b = p \<and> ob_receipt_id b = rc_id (vc_receipt c)) NATIVE_OBSERVATION_INVALID) (\<lambda>_. Inr b))")
      case (Inl e)
      then show ?thesis using c(1) en keep [of v] Native_observation by (simp add: complete_native_verification_def)
    next
      case (Inr b)
      let ?w = "v\<lparr>vr_observations := map_set (ob_id b) b (vr_observations v)\<rparr>"
      obtain e where "begin_attempt cfg i (Some \<lparr>inj_id = ob_attempt_id b, inj_started_at = ob_started_at b, inj_iso = True\<rparr>) []
        (vi_begun_at x) (vr_service v) = (Inl e, vr_service v)" using bt by blast
      then have "complete_native_verification cfg p raw x v = (of_outcome (Inl e), ?w)"
        using c en Inr by (simp add: complete_native_verification_def complete_native_attempt_def Let_def get_outcome_def)
      then show ?thesis using Native_observation of_outcome_Inl keep [of ?w] by auto
    qed
  qed
qed

lemma taken_observed: "slot_taken p q v \<Longrightarrow> observe_plan look p v = Some (to_public p q)"
  by (auto simp: slot_taken_def observe_plan_def)

text \<open>A public verification request that comes before the read-back blocks the plan. For a plan with a registered
  native receipt, a pending outcome and no observation yet, a verification request that is answered at all is answered
  "inconclusive", and it takes the single attempt slot without ever releasing it: whatever requests for the plan
  follow, every verification request and every native observation is refused, and the plan stays pending.\<close>

lemma early_request_blocks_readback:
  assumes "verify_plan cfg look p x v = (Inr res, v')" "map_get (vr_cases v) p = Some c" "vc_observation c = None"
    "vc_outcome_id c = Some i" "get_outcome v i = Some q" "oc_status q = V_pending"
  shows "vp_status res = CS_inconclusive \<and>
    (\<forall>requests. let w = foldl (\<lambda>u r. snd (run_request cfg look p r u)) v' requests in
       observe_plan look p w = Some (to_public p q) \<and> (\<forall>r. \<exists>e. fst (run_request cfg look p r w) = Inl e))"
proof -
  obtain res1 s where b: "begin_attempt cfg i (Some \<lparr>inj_id = vi_attempt_id x, inj_started_at = Iso (vi_started_at x), inj_iso = True\<rparr>) []
      (vi_begun_at x) (vr_service v) = (res1, s)" by fastforce
  have run: "verify_attempt cfg p c i q x v = (Inr res, v')"
    using assms by (simp add: verify_plan_def ensure_outcome_def)
  from b have "vp_status res = CS_inconclusive \<and> slot_taken p q v'"
  proof (cases rule: begin_attempt_cases)
    case (refused e)
    then show ?thesis using run b assms(3) of_outcome_Inl [of e] by (auto simp: verify_attempt_def)
  next
    case (begun a r)
    then have "res = inconclusive_result (plan_id (vc_plan c)) (length (oc_attempts q)) 1" "v' = v\<lparr>vr_service := s\<rparr>"
      using run b assms(3) by (auto simp: verify_attempt_def)
    then show ?thesis using begun(2) assms(2,4-6)
      by (auto simp: slot_taken_def get_outcome_def inconclusive_result_def map_has_def map_get_set)
  qed
  moreover have "slot_taken p q (foldl (\<lambda>u r. snd (run_request cfg look p r u)) w rs)" if "slot_taken p q w" for w rs
    using that by (induction rs arbitrary: w) (auto simp: taken_request)
  ultimately show ?thesis using taken_observed [of p q] taken_request [of p q] unfolding Let_def by blast
qed

text \<open>A later observation replaces the read-back of a settled outcome. When the outcome of a plan is no longer
  pending, a further native observation with the id of the judged one is answered with the settled verdict, and its
  payload, which no evaluator has judged and whose digest nobody has compared, becomes the trusted observed state that
  a revision of the decision snapshots, next to the digest of the judged observation.\<close>

lemma late_observation_replaces_readback:
  assumes "map_get (vr_cases v) p = Some c" "vc_outcome_id c = Some i" "get_outcome v i = Some q" "oc_status q \<noteq> V_pending"
    "last_attempt q = Some a" "va_observation_id a = Some (ob_id b)" "map_get (sv_contexts (vr_service v)) i = Some cx"
    "parse_observation raw = Some b" "ob_plan_id b = p" "ob_receipt_id b = rc_id (vc_receipt c)"
  shows "\<exists>v' t. complete_native_verification cfg p (Shaped raw) x v = (Inr (to_public p q), v') \<and>
    trusted_outcome_of p v' = Some t \<and> tx_observed t = Some (ob_payload b) \<and> tx_observation_digest t = oc_latest_digest q \<and>
    tx_status t = oc_status q"
  using assms
  by (simp add: complete_native_verification_def ensure_outcome_def safe_parse_def Let_def get_outcome_def
      trusted_outcome_of_def trusted_revision_context_def map_get_set)

lemma parse_native_receipt_Inr:
  assumes "parse_native_receipt sha (Shaped raw) = Inr n"
  shows "parse_native raw = Some n \<and> json_digest sha (native_identity_json n) = Inr (nr_digest n)"
proof -
  obtain m where m: "parse_native raw = Some m"
    "(case json_digest sha (native_identity_json m) of Inl e \<Rightarrow> Inl (Throws NATIVE_RECEIPT_INVALID)
      | Inr d \<Rightarrow> ebind (guarded (d = nr_digest m) NATIVE_RECEIPT_INVALID) (\<lambda>_. Inr m)) = Inr n"
    using assms unfolding parse_native_receipt_def ebind_Inr_iff safe_parse_Inr by blast
  then show ?thesis by (cases "json_digest sha (native_identity_json m)") (auto simp: guarded_def split: if_splits)
qed

lemma receipt_checks_Inr:
  assumes "receipt_checks sha look p (Shaped raw) = Inr (plan, n)"
  obtains a where "look p = Some a" "plan_state (pa_plan a) = Ready" "plan = pa_plan a" "parse_native raw = Some n"
    "json_digest sha (native_identity_json n) = Inr (nr_digest n)" "nr_plan_id n = p"
    "nr_decision_id n = plan_decision_id (pa_plan a)" "nr_capability_id n = plan_capability_id (pa_plan a)"
    "nr_adapter_id n = plan_adapter_id (pa_plan a)" "nr_capability_version n = plan_capability_version (pa_plan a)"
proof -
  have "\<exists>a m. look p = Some a \<and> plan_state (pa_plan a) = Ready \<and> parse_native_receipt sha (Shaped raw) = Inr m \<and> nr_plan_id m = p \<and>
      (nr_decision_id m = plan_decision_id (pa_plan a) \<and> nr_capability_id m = plan_capability_id (pa_plan a) \<and>
       nr_capability_version m = plan_capability_version (pa_plan a) \<and> nr_adapter_id m = plan_adapter_id (pa_plan a)) \<and>
      pa_plan a = plan \<and> m = n"
    using assms unfolding receipt_checks_def ebind_Inr_iff require_Inr guarded_Inr sum.inject prod.inject by blast
  then show ?thesis using parse_native_receipt_Inr that by blast
qed

text \<open>C29: The first registration of a native receipt for a plan, that is, one for a plan that has no registered case yet. A
  refused registration leaves the registered cases as they were. An accepted one belongs to an authorized plan in
  state ready; the receipt's identity digest is its own, its plan, decision, capability with its version and adapter are the plan's, and
  the execution has ended; the case then holds that plan, the receipt derived from the native record and an outcome
  without attempts, which is reported pending or inconclusive, never verified. Registering again for a plan with a
  case, which may report an earlier verdict, is not covered.\<close>

theorem native_registration:
  assumes "register_native_receipt cfg look p (Shaped raw) x v = (res, v')" "map_get (vr_cases v) p = None"
  shows "case res of Inl e \<Rightarrow> map_get (vr_cases v') = map_get (vr_cases v)
    | Inr public \<Rightarrow> \<exists>a n r i q. look p = Some a \<and> plan_state (pa_plan a) = Ready \<and> parse_native raw = Some n \<and>
        json_digest (oc_sha cfg) (native_identity_json n) = Inr (nr_digest n) \<and> nr_plan_id n = p \<and>
        nr_decision_id n = plan_decision_id (pa_plan a) \<and> nr_capability_id n = plan_capability_id (pa_plan a) \<and>
        nr_capability_version n = plan_capability_version (pa_plan a) \<and>
        nr_adapter_id n = plan_adapter_id (pa_plan a) \<and> nr_state n \<notin> {N_accepted, N_spawn_started} \<and>
        materialize_receipt (oc_sha cfg) n = Inr r \<and>
        map_get (vr_cases v') p = Some \<lparr>vc_plan = pa_plan a, vc_receipt = r, vc_observation = None, vc_outcome_id = Some i\<rparr> \<and>
        get_outcome v' i = Some q \<and> oc_attempts q = [] \<and> public = to_public p q \<and>
        vp_status public \<in> {CS_pending, CS_inconclusive}"
proof (cases "\<exists>plan n r. receipt_checks (oc_sha cfg) look p (Shaped raw) = Inr (plan, n) \<and> materialize_receipt (oc_sha cfg) n = Inr r")
  case False
  then have "v' = v \<and> (\<exists>e. res = Inl e)" using assms by (auto simp: register_native_receipt_def split: sum.splits prod.splits)
  then show ?thesis by auto
next
  case True
  then obtain plan n r where n: "receipt_checks (oc_sha cfg) look p (Shaped raw) = Inr (plan, n)" "materialize_receipt (oc_sha cfg) n = Inr r"
    by blast
  let ?c = "\<lparr>vc_plan = plan, vc_receipt = r, vc_observation = None, vc_outcome_id = None\<rparr>"
  let ?v1 = "v\<lparr>vr_receipts := map_set (rc_id r) r (vr_receipts v), vr_cases := map_set p ?c (vr_cases v)\<rparr>"
  obtain res1 s where o: "open_outcome cfg (Shaped plan) (resolve_receipt ?v1 (rc_id r)) (vi_outcome_id x) (vi_opened_at x) (vr_service ?v1) = (res1, s)"
    by fastforce
  show ?thesis
  proof (cases res1)
    case (Inl e)
    then have "v' = ?v1\<lparr>vr_service := s, vr_cases := map_delete p (vr_cases ?v1), vr_receipts := map_delete (rc_id r) (vr_receipts ?v1)\<rparr>"
      and "of_outcome (Inl e) = res" using assms n o Inl by (simp_all add: register_native_receipt_def Let_def)
    moreover have "\<exists>e'. res = Inl e'" using calculation(2) of_outcome_Inl [of e] by metis
    ultimately show ?thesis using assms(2) by (auto simp: map_get_delete map_get_set fun_eq_iff)
  next
    case (Inr q)
    then have v': "v' = ?v1\<lparr>vr_service := s, vr_cases := map_set p (?c\<lparr>vc_outcome_id := Some (oc_id q)\<rparr>) (vr_cases ?v1)\<rparr>"
      "res = Inr (to_public p q)" using assms n o by (simp_all add: register_native_receipt_def Let_def)
    obtain r' raw' where q: "os_get (sv_store s) (oc_id q) = Some q" "oc_attempts q = []" "oc_status q = V_pending \<or> oc_status q = V_not_required"
      by (rule open_outcome_stored [OF o [unfolded Inr]])
    obtain a where a: "look p = Some a" "plan_state (pa_plan a) = Ready" "plan = pa_plan a" "parse_native raw = Some n"
        "json_digest (oc_sha cfg) (native_identity_json n) = Inr (nr_digest n)" "nr_plan_id n = p"
        "nr_decision_id n = plan_decision_id (pa_plan a)" "nr_capability_id n = plan_capability_id (pa_plan a)"
        "nr_adapter_id n = plan_adapter_id (pa_plan a)" "nr_capability_version n = plan_capability_version (pa_plan a)"
      by (rule receipt_checks_Inr [OF n(1)])
    have "nr_state n \<notin> {N_accepted, N_spawn_started}"
      using n(2) by (auto simp: materialize_receipt_def map_native_effect_def split: if_splits)
    moreover have "vp_status (to_public p q) \<in> {CS_pending, CS_inconclusive}" using q(3) by (auto simp: to_public_def Let_def)
    moreover have "map_get (vr_cases v') p =
        Some \<lparr>vc_plan = pa_plan a, vc_receipt = r, vc_observation = None, vc_outcome_id = Some (oc_id q)\<rparr>"
      by (simp add: v'(1) a(3) map_get_set)
    moreover have "get_outcome v' (oc_id q) = Some q" using q(1) by (simp add: get_outcome_def v'(1))
    ultimately show ?thesis unfolding v'(2) sum.case using a n(2) q(2) by blast
  qed
qed

text \<open>The runtime reads native execution states as the outcome component's mapping does. An execution that is still
  accepted or started is refused as in flight; for every other state the effect is the one of the mapping for a record
  that is not recovered, and every record the mapping refuses is refused as invalid.\<close>

lemma native_effect_agrees:
  "map_native_effect n =
    (if nr_timed_out n \<and> nr_cancelled n then Inl (Throws NATIVE_RECEIPT_INVALID)
     else if nr_state n = N_accepted \<or> nr_state n = N_spawn_started then Inl (Throws NATIVE_RECEIPT_IN_FLIGHT)
     else (case map_native_state \<lparr>ni_state = nr_state n, ni_recovered = False, ni_exit_code = nr_exit_code n,
         ni_timed_out = nr_timed_out n, ni_cancelled = nr_cancelled n, ni_spawned = nr_spawned_at n \<noteq> None\<rparr> of
       Inr st \<Rightarrow> Inr st | Inl _ \<Rightarrow> Inl (Throws NATIVE_RECEIPT_INVALID)))"
  by (cases "nr_state n") (auto simp: map_native_effect_def map_native_state_def Let_def split: option.splits)

section \<open>A concrete run\<close>

definition branch_native :: native_receipt where
  "branch_native = \<lparr>nr_id = ''rcpt-1'', nr_plan_id = ''plan-0001'', nr_decision_id = ''dec-1'',
     nr_capability_id = ''git.branch.create'', nr_capability_version = ''1.0.0'', nr_adapter_id = ''git-cli'',
     nr_binding_id = ''branch-create'', nr_execution_id = None, nr_inputs_digest = sample_digest,
     nr_verification_digest = Some sample_digest, nr_verification_id = None, nr_verification_inputs = None,
     nr_state = N_completed, nr_accepted_at = Iso 2000, nr_spawned_at = Some (Iso 2001), nr_finished_at = Some (Iso 2002),
     nr_exit_code = Some 0, nr_timed_out = False, nr_cancelled = False, nr_stdout_digest = None, nr_stderr_digest = None,
     nr_truncated = False, nr_redacted = False, nr_fingerprint = None, nr_digest = sample_digest\<rparr>"

definition branch_look :: plan_lookup where
  "branch_look p = (if p = ''plan-0001'' then Some \<lparr>pa_plan = branch_plan, pa_guard_run_id = ''run-1'', pa_request_id = None,
     pa_request = None, pa_binding_digest = sample_digest, pa_grant = None, pa_blocked_reason = None\<rparr> else None)"

definition branch_inputs :: verification_inputs where
  "branch_inputs = \<lparr>vi_outcome_id = ''out-00001'', vi_opened_at = 3000, vi_attempt_id = ''att-00001'', vi_started_at = 4000,
     vi_begun_at = 4000, vi_checked_at = 4600, vi_finished_at = 5000\<rparr>"

definition branch_case :: registered_case where
  "branch_case = \<lparr>vc_plan = branch_plan, vc_receipt = branch_receipt, vc_observation = None, vc_outcome_id = Some ''out-00001''\<rparr>"

definition registered_runtime :: verification_runtime where
  "registered_runtime = \<lparr>vr_cases = [(''plan-0001'', branch_case)], vr_observations = [],
     vr_receipts = [(''rcpt-1'', branch_receipt)], vr_service = opened_service\<rparr>"

definition settled_runtime :: verification_runtime where
  "settled_runtime = \<lparr>vr_cases = [(''plan-0001'', branch_case\<lparr>vc_observation := Some branch_observation\<rparr>)],
     vr_observations = [(''obs-1'', branch_observation)], vr_receipts = [(''rcpt-1'', branch_receipt)],
     vr_service = settle_completion ''out-00001'' verified_service\<rparr>"

lemma branch_materialized: "materialize_receipt sample_sha branch_native = Inr branch_receipt"
proof -
  let ?r = "branch_receipt\<lparr>rc_digest := replicate 64 CHR ''0''\<rparr>"
  have "map_native_effect branch_native = Inr Process_succeeded" by code_simp
  moreover have "recompute_receipt_digest sample_sha ?r = Inr sample_digest"
  proof -
    have "parse_receipt ?r = Some ?r" by code_simp
    moreover have "is_json_safe (receipt_json ?r)" by (simp add: receipt_json_def opt_member_def branch_receipt_def)
    ultimately show ?thesis by (simp add: recompute_receipt_digest_def sample_outcome_digest)
  qed
  ultimately show ?thesis
    by (simp add: materialize_receipt_def Let_def branch_native_def branch_receipt_def)
qed

lemma branch_registered:
  "register_native_receipt branch_config branch_look ''plan-0001'' (Shaped branch_native) branch_inputs new_verification_runtime =
     (Inr (to_public ''plan-0001'' opened_outcome), registered_runtime)"
proof -
  have n: "parse_native branch_native = Some branch_native" by code_simp
  have "is_json_safe (native_identity_json branch_native)"
    by (simp add: native_identity_json_def branch_native_def nullable_def)
  then have "parse_native_receipt sample_sha (Shaped branch_native) = Inr branch_native"
    by (simp add: parse_native_receipt_def safe_parse_def n sample_json_digest) (simp add: branch_native_def)
  moreover have "plan_state branch_plan = Ready" "plan_decision_id branch_plan = ''dec-1''"
    "plan_capability_id branch_plan = ''git.branch.create''" "plan_capability_version branch_plan = ''1.0.0''"
    "plan_adapter_id branch_plan = ''git-cli''" by code_simp+
  ultimately have c: "receipt_checks sample_sha branch_look ''plan-0001'' (Shaped branch_native) = Inr (branch_plan, branch_native)"
    by (simp add: receipt_checks_def branch_look_def) (simp add: branch_native_def)
  have r: "rc_id branch_receipt = ''rcpt-1''" "oc_id opened_outcome = ''out-00001''" "oc_sha branch_config = sample_sha"
    by (simp_all add: branch_receipt_def opened_outcome_def branch_config_def)
  show ?thesis using c branch_materialized branch_opened
    by (simp add: register_native_receipt_def new_verification_runtime_def Let_def r resolve_receipt_def branch_inputs_def
        registered_runtime_def branch_case_def)
qed

lemma fresh_branch_inputs: "fresh_inputs branch_inputs new_verification_runtime"
  by (simp add: fresh_inputs_def new_verification_runtime_def new_service_def os_get_def)

lemma registered_reachable: "runtime_reachable branch_config {} registered_runtime"
  using runtime_reachable.registered [OF runtime_reachable.start fresh_branch_inputs branch_registered]
  by (simp add: registered_runtime_def)

lemma branch_begun_injected:
  "begin_attempt branch_config ''out-00001'' (Some \<lparr>inj_id = ''att-00001'', inj_started_at = Iso 4000, inj_iso = True\<rparr>) [] 4000 opened_service =
     (Inr branch_attempt, begun_service)"
proof -
  have "plan_id_ok ''out-00001''" "plan_id_ok ''att-00001''"
    "injected_start_ok branch_receipt \<lparr>inj_id = ''att-00001'', inj_started_at = Iso 4000, inj_iso = True\<rparr> 4000 = Inr ()" by code_simp+
  then show ?thesis
    by (simp add: begin_attempt_def assert_valid_outcome_id_def opened_service_def os_get_def map_has_def branch_config_def
        opened_outcome_def attempts_exhausted_def branch_context_def begun_service_def branch_attempt_def)
qed

lemma branch_settled:
  "complete_native_verification branch_config ''plan-0001'' (Shaped branch_observation)
     (branch_inputs\<lparr>vi_outcome_id := ''out-00002''\<rparr>) registered_runtime = (Inr (to_public ''plan-0001'' branch_record), settled_runtime)"
proof -
  have p: "parse_observation branch_observation = Some branch_observation" by code_simp
  have o: "ob_id branch_observation = ''obs-1''" "ob_plan_id branch_observation = ''plan-0001''"
    "ob_receipt_id branch_observation = ''rcpt-1''" "ob_attempt_id branch_observation = ''att-00001''"
    "ob_started_at branch_observation = Iso 4000" "rc_id branch_receipt = ''rcpt-1''" "pd_id branch_attempt = ''att-00001''"
    by (simp_all add: branch_observation_def branch_receipt_def branch_attempt_def)
  let ?v = "registered_runtime\<lparr>vr_observations := [(''obs-1'', branch_observation)]\<rparr>"
  have g: "get_outcome ?v ''out-00001'' = Some opened_outcome" "oc_status opened_outcome = V_pending"
    by (simp_all add: get_outcome_def registered_runtime_def opened_service_def os_get_def opened_outcome_def)
  have "complete_and_settle branch_config ''out-00001'' ''att-00001'' (resolve_observation ?v ''obs-1'')
      (branch_inputs\<lparr>vi_outcome_id := ''out-00002''\<rparr>) begun_service = (Inr branch_record, settle_completion ''out-00001'' verified_service)"
    using branch_completed by (simp add: complete_and_settle_def resolve_observation_def branch_inputs_def)
  then have "complete_native_attempt branch_config ''plan-0001'' ''out-00001'' branch_observation
      (branch_inputs\<lparr>vi_outcome_id := ''out-00002''\<rparr>) ?v = (Inr (to_public ''plan-0001'' branch_record), settled_runtime)"
    using branch_begun_injected
    by (simp add: complete_native_attempt_def o registered_runtime_def branch_inputs_def settled_runtime_def)
  then show ?thesis using p g o
    by (simp add: complete_native_verification_def registered_runtime_def ensure_outcome_def branch_case_def safe_parse_def Let_def)
qed

lemma settled_reachable: "runtime_reachable branch_config {branch_observation} settled_runtime"
proof -
  have "fresh_inputs (branch_inputs\<lparr>vi_outcome_id := ''out-00002''\<rparr>) registered_runtime"
    by (simp add: fresh_inputs_def registered_runtime_def opened_service_def os_get_def)
  from runtime_reachable.completed [OF registered_reachable this branch_settled]
  show ?thesis by (simp add: settled_runtime_def)
qed

lemma settled_observed: "observe_plan branch_look ''plan-0001'' settled_runtime = Some (to_public ''plan-0001'' branch_record)"
  "get_outcome settled_runtime ''out-00001'' = Some branch_record"
  by (simp_all add: observe_plan_def settled_runtime_def branch_case_def get_outcome_def settle_completion_def verified_service_def os_get_def)

lemma public_verdict_is_evidenced_witness:
  "\<exists>cx a log. map_get (sv_contexts (vr_service settled_runtime)) ''out-00001'' = Some cx \<and>
     set log \<subseteq> {Shaped branch_observation} \<and> evidenced branch_config log cx branch_record a"
proof -
  have "vp_status (to_public ''plan-0001'' branch_record) = CS_verified" by (simp add: to_public_def branch_record_def)
  from public_verdict_is_evidenced [OF settled_reachable branch_limit settled_observed(1) this]
  show ?thesis by (simp add: settled_runtime_def branch_case_def get_outcome_def settle_completion_def verified_service_def os_get_def)
      blast
qed

definition changed_observation :: observation where
  "changed_observation = branch_observation\<lparr>ob_payload := [(''target_sha'', JStr (replicate 40 CHR ''d''))]\<rparr>"

lemma native_registration_witness:
  "map_get (vr_cases registered_runtime) ''plan-0001'' = Some branch_case \<and>
     (\<exists>i q. get_outcome registered_runtime i = Some q \<and> oc_attempts q = [])"
proof -
  have "map_get (vr_cases new_verification_runtime) ''plan-0001'' = None" by (simp add: new_verification_runtime_def)
  from native_registration [OF branch_registered this]
  have "\<exists>i q. get_outcome registered_runtime i = Some q \<and> oc_attempts q = []" by auto
  then show ?thesis by (simp add: registered_runtime_def)
qed

end
