(* ===== verification/Coverage_Builder.thy ===== *)
theory Coverage_Builder
  imports Evidence
begin

text \<open>
  The coverage builder (\<open>src/brain-server/src/evidence/coverage-builder.ts\<close>): from evidence
  requirements and the collections of the providers to a coverage snapshot, with bounds,
  qualification, freshness and the partition of conflicting claims. The clock is the
  injected \<open>now\<close> in milliseconds. Build diagnostics keep their code, class and provider;
  their message texts are not represented.
\<close>

section \<open>Bounds, batches and diagnostics\<close>

record collection_limits =
  max_providers_per_class :: int
  max_candidates_per_provider :: int
  max_candidates_total :: int
  max_claim_json_bytes :: int
  max_diagnostics :: int

definition default_limits :: collection_limits where
  "default_limits = \<lparr>max_providers_per_class = 16, max_candidates_per_provider = 100,
     max_candidates_total = 500, max_claim_json_bytes = 16 * 1024, max_diagnostics = 100\<rparr>"

record partial_limits =
  pl_providers :: "int option"
  pl_candidates :: "int option"
  pl_total :: "int option"
  pl_bytes :: "int option"
  pl_diagnostics :: "int option"

definition limit_or :: "int \<Rightarrow> int option \<Rightarrow> int" where
  "limit_or d x = (case x of None \<Rightarrow> d | Some v \<Rightarrow> v)"

definition resolve_limits :: "partial_limits option \<Rightarrow> evidence_error_code throws + collection_limits" where
  "resolve_limits partial = (case partial of None \<Rightarrow> Inr default_limits
     | Some p \<Rightarrow>
       if list_all (opt_ok (\<lambda>v. 0 < v)) [pl_providers p, pl_candidates p, pl_total p, pl_bytes p, pl_diagnostics p]
       then Inr \<lparr>max_providers_per_class = limit_or (max_providers_per_class default_limits) (pl_providers p),
          max_candidates_per_provider = limit_or (max_candidates_per_provider default_limits) (pl_candidates p),
          max_candidates_total = limit_or (max_candidates_total default_limits) (pl_total p),
          max_claim_json_bytes = limit_or (max_claim_json_bytes default_limits) (pl_bytes p),
          max_diagnostics = limit_or (max_diagnostics default_limits) (pl_diagnostics p)\<rparr>
       else Inl (Throws EVIDENCE_INPUT_INVALID))"

record provider_diagnostic =
  pd_code :: string
  pd_message :: string

definition parse_diagnostic :: "provider_diagnostic raw \<Rightarrow> provider_diagnostic option" where
  "parse_diagnostic r = (case r of Malformed \<Rightarrow> None
     | Shaped d \<Rightarrow> parse_with (\<lambda>d. d\<lparr>pd_code := js_trim (pd_code d)\<rparr>)
         (\<lambda>d. len_ok 100 (pd_code d) \<and> len_ok 2000 (pd_message d)) d)"

record collection_batch =
  cb_provider :: provider_metadata
  cb_class :: string
  cb_subject :: string
  cb_outcome :: provider_outcome_v1
  cb_candidates :: "raw_candidate list"
  cb_diagnostics :: "provider_diagnostic raw list"

fun outcome_v1_text :: "provider_outcome_v1 \<Rightarrow> string" where
  "outcome_v1_text Collected = ''collected''"
| "outcome_v1_text Not_found = ''not_found''"
| "outcome_v1_text Temporary_unavailable = ''temporary_unavailable''"
| "outcome_v1_text Permanent_unavailable = ''permanent_unavailable''"
| "outcome_v1_text User_context_required = ''user_context_required''"

record build_diagnostic =
  bd_code :: string
  bd_class :: "string option"
  bd_provider :: "string option"

definition batch_ok :: "collection_batch \<Rightarrow> bool" where
  "batch_ok b \<longleftrightarrow> provider_metadata_ok (cb_provider b) \<and> evidence_class_ok (cb_class b) \<and>
     js_trim (cb_subject b) \<noteq> [] \<and>
     length (cb_candidates b) \<le> 10000 \<and> length (cb_diagnostics b) \<le> 1000"

definition validate_batches ::
  "collection_batch list \<Rightarrow> evidence_error_code throws + collection_batch list" where
  "validate_batches bs = (if list_all batch_ok bs then Inr bs else Inl (Throws EVIDENCE_INPUT_INVALID))"

text \<open>Priority descending, then provider id ascending: two stable sorts.\<close>

definition sort_batches :: "collection_batch list \<Rightarrow> collection_batch list" where
  "sort_batches bs = sort_key (\<lambda>b. - pm_priority (cb_provider b)) (sort_key (\<lambda>b. pm_id (cb_provider b)) bs)"

definition quoted :: "string \<Rightarrow> string" where
  "quoted s = CHR 0x27 # s @ [CHR 0x27]"

definition exceeds :: "nat \<Rightarrow> int \<Rightarrow> string" where
  "exceeds n limit = ''('' @ nat_str n @ '' > '' @ int_str limit @ '')''"

definition claim_bytes :: "evidence_candidate \<Rightarrow> nat" where
  "claim_bytes c = length (utf8 (canonical_text (ec_claim_value c)))"

definition find_limit_violation :: "collection_batch list \<Rightarrow> collection_limits \<Rightarrow> string option" where
  "find_limit_violation bs l =
     (if int (length bs) > max_providers_per_class l
      then Some (''maxProvidersPerClass exceeded '' @ exceeds (length bs) (max_providers_per_class l))
      else case find (\<lambda>b. int (length (cb_candidates b)) > max_candidates_per_provider l) bs of
        Some b \<Rightarrow> Some (''maxCandidatesPerProviderClass exceeded for provider '' @ quoted (pm_id (cb_provider b)) @ '' ''
          @ exceeds (length (cb_candidates b)) (max_candidates_per_provider l))
      | None \<Rightarrow>
        (let total = sum_list (map (\<lambda>b. length (cb_candidates b)) bs) in
         if int total > max_candidates_total l
         then Some (''maxCandidatesTotal exceeded '' @ exceeds total (max_candidates_total l))
         else case find (\<lambda>c. int (claim_bytes c) > max_claim_json_bytes l)
             (List.map_filter parse_raw_candidate (concat (map cb_candidates bs))) of
           Some c \<Rightarrow> Some (''maxClaimJsonBytes exceeded '' @ exceeds (claim_bytes c) (max_claim_json_bytes l))
         | None \<Rightarrow> None))"

definition limit_reference :: "(string \<Rightarrow> string) \<Rightarrow> string \<Rightarrow> string \<Rightarrow> collection_batch \<Rightarrow> raw_candidate \<Rightarrow> string" where
  "limit_reference sha cls subject b raw =
     (let fallback = diagnostic_evidence_reference sha (pm_id (cb_provider b)) cls subject raw in
      case parse_raw_candidate raw of None \<Rightarrow> fallback
      | Some c \<Rightarrow> (case ebind (claim_digest sha (ec_claim_value c)) (\<lambda>d.
            build_evidence_id sha (pm_id (cb_provider b)) (ec_class c) (ec_subject c) (ec_source_item c) d) of
          Inr i \<Rightarrow> i | Inl e \<Rightarrow> fallback))"

definition limit_references :: "(string \<Rightarrow> string) \<Rightarrow> string \<Rightarrow> string \<Rightarrow> collection_batch list \<Rightarrow> string list" where
  "limit_references sha cls subject bs =
     (let ids = concat (map (\<lambda>b. map (limit_reference sha cls subject b) (cb_candidates b)) bs) in
      if ids = [] then [diagnostic_evidence_reference sha ''collection-limits'' cls subject
        (Unshaped \<lparr>lf_class = [], lf_subject = subject, lf_claim_key = [], lf_source_item = []\<rparr>)] else ids)"

definition limit_exceeded_entry ::
  "(string \<Rightarrow> string) \<Rightarrow> string \<Rightarrow> string \<Rightarrow> collection_batch list \<Rightarrow> int \<Rightarrow> string \<Rightarrow> coverage_entry" where
  "limit_exceeded_entry sha cls subject bs now reason =
     \<lparr>cov_class = cls, cov_status = Unverified, cov_level = NoVerification,
      cov_evidence_ids = sorted_unique (limit_references sha cls subject bs),
      cov_checked_at = Iso now, cov_stale_since = None, cov_conflict_ids = None,
      cov_note = Some (take 2000 (''EVIDENCE_COLLECTION_LIMIT_EXCEEDED: '' @ reason))\<rparr>"

section \<open>Status of a class\<close>

record rejected_candidate =
  rc_issues :: "qualification_issue list"
  rc_reference :: string
  rc_provider :: string

definition is_stale :: "evidence_requirement \<Rightarrow> int \<Rightarrow> qualified_evidence \<Rightarrow> bool" where
  "is_stale r now e = (case req_max_age r of None \<Rightarrow> False
     | Some m \<Rightarrow> (case date_parse (qe_observed_at e) of None \<Rightarrow> False | Some t \<Rightarrow> now - t > m))"

fun earliest_stale :: "evidence_requirement \<Rightarrow> qualified_evidence list \<Rightarrow> int option \<Rightarrow> int option" where
  "earliest_stale r [] acc = acc"
| "earliest_stale r (e # es) acc = earliest_stale r es
     (case (req_max_age r, date_parse (qe_observed_at e)) of
        (Some m, Some t) \<Rightarrow> (case acc of None \<Rightarrow> Some (t + m) | Some a \<Rightarrow> Some (if t + m < a then t + m else a))
      | _ \<Rightarrow> acc)"

definition stale_since :: "evidence_requirement \<Rightarrow> int \<Rightarrow> qualified_evidence list \<Rightarrow> timestamp" where
  "stale_since r now es = Iso (case earliest_stale r es None of None \<Rightarrow> now | Some t \<Rightarrow> t)"

definition highest_verification :: "qualified_evidence list \<Rightarrow> verification_requirement" where
  "highest_verification es = fold (\<lambda>e best. if verification_rank (qe_level e) > verification_rank best
     then qe_level e else best) es NoVerification"

definition add_to_group :: "qualified_evidence \<Rightarrow> (string, qualified_evidence list) jsmap \<Rightarrow>
    (string, qualified_evidence list) jsmap" where
  "add_to_group e m = (case map_get m (qe_claim_key e) of None \<Rightarrow> map_set (qe_claim_key e) [e] m
     | Some es \<Rightarrow> map_set (qe_claim_key e) (es @ [e]) m)"

definition group_by_claim_key :: "qualified_evidence list \<Rightarrow> (string, qualified_evidence list) jsmap" where
  "group_by_claim_key es = fold add_to_group es []"

definition priority_by_provider :: "collection_batch list \<Rightarrow> string \<Rightarrow> int" where
  "priority_by_provider bs p = (case map_of (rev (map (\<lambda>b. (pm_id (cb_provider b), pm_priority (cb_provider b))) bs)) p of
     None \<Rightarrow> 0 | Some k \<Rightarrow> k)"

definition pick_primary :: "collection_batch list \<Rightarrow> qualified_evidence list \<Rightarrow> qualified_evidence" where
  "pick_primary bs es = hd (sort_key (\<lambda>e. - priority_by_provider bs (qe_provider e)) (sort_key qe_id es))"

definition group_conflicts :: "qualified_evidence list \<Rightarrow> bool" where
  "group_conflicts es \<longleftrightarrow> length (uniq (map qe_claim_digest es)) > 1"

definition agreeing_ids :: "collection_batch list \<Rightarrow> qualified_evidence list \<Rightarrow> string list" where
  "agreeing_ids bs es = map qe_id (filter (\<lambda>e. qe_claim_digest e = qe_claim_digest (pick_primary bs es)) es)"

definition conflicting_ids :: "collection_batch list \<Rightarrow> qualified_evidence list \<Rightarrow> string list" where
  "conflicting_ids bs es = map qe_id (filter (\<lambda>e. qe_claim_digest e \<noteq> qe_claim_digest (pick_primary bs es)) es)"

definition build_entry ::
  "evidence_requirement \<Rightarrow> string \<Rightarrow> qualified_evidence list \<Rightarrow> rejected_candidate list \<Rightarrow> collection_batch list \<Rightarrow>
   int \<Rightarrow> coverage_entry" where
  "build_entry r cls qualified rejected bs now =
     (let base = \<lparr>cov_class = cls, cov_status = Missing, cov_level = NoVerification, cov_evidence_ids = [],
         cov_checked_at = Iso now, cov_stale_since = None, cov_conflict_ids = None, cov_note = None\<rparr> in
      if qualified = [] \<and> rejected = [] then base
      else if qualified = [] then
        (let codes = sorted_unique (map issue_text (concat (map rc_issues rejected))) in
         base\<lparr>cov_status := Unverified,
           cov_evidence_ids := sorted_unique (map rc_reference rejected),
           cov_note := Some (take 2000 (nat_str (length rejected) @ '' candidate(s) rejected by qualification: ''
             @ js_join '', '' codes))\<rparr>)
      else
        (let fresh = filter (\<lambda>e. \<not> is_stale r now e) qualified; stale = filter (is_stale r now) qualified in
         if fresh = [] then
           base\<lparr>cov_status := Stale, cov_level := highest_verification stale,
             cov_evidence_ids := sorted_unique (map qe_id stale),
             cov_stale_since := Some (stale_since r now stale),
             cov_note := Some (take 2000 (nat_str (length stale) @ '' qualified candidate(s) exceeded freshness_policy''))\<rparr>
         else
           (let groups = group_by_claim_key fresh; conflicted = filter group_conflicts (map_values groups) in
            if conflicted \<noteq> [] then
              (let agreeing = concat (map (agreeing_ids bs) (map_values groups));
                   conflicting = concat (map (conflicting_ids bs) (map_values groups)) in
               base\<lparr>cov_status := Conflicted,
                 cov_level := highest_verification (filter (\<lambda>e. qe_id e \<in> set agreeing) fresh),
                 cov_evidence_ids := sorted_unique agreeing,
                 cov_conflict_ids := Some (sorted_unique conflicting),
                 cov_note := Some (take 2000 (''conflicted claim_key(s) for class '' @ cls @ '': ''
                   @ nat_str (length conflicted) @ '' of '' @ nat_str (length groups) @ '' claim keys disagree''))\<rparr>)
            else base\<lparr>cov_status := Present, cov_level := highest_verification fresh,
                 cov_evidence_ids := sorted_unique (map qe_id fresh)\<rparr>)))"

section \<open>Qualification of a class\<close>

record class_state =
  cs_qualified :: "qualified_evidence list"
  cs_rejected :: "rejected_candidate list"
  cs_diagnostics :: "build_diagnostic list"

definition provider_diag :: "string \<Rightarrow> collection_batch \<Rightarrow> string \<Rightarrow> build_diagnostic" where
  "provider_diag cls b c = \<lparr>bd_code = c, bd_class = Some cls, bd_provider = Some (pm_id (cb_provider b))\<rparr>"

definition qualify_step ::
  "(string \<Rightarrow> string) \<Rightarrow> evidence_requirement \<Rightarrow> string \<Rightarrow> int \<Rightarrow> collection_batch \<Rightarrow> raw_candidate \<Rightarrow> class_state \<Rightarrow> class_state" where
  "qualify_step sha r subject now b raw s =
     (case qualify_candidate sha raw \<lparr>qc_provider = cb_provider b, qc_class = req_class r, qc_subject = subject,
         qc_requirement = Some r, qc_now = now\<rparr> of
        Qualified e stale issues \<Rightarrow>
          s\<lparr>cs_qualified := (if qe_id e \<in> set (map qe_id (cs_qualified s)) then cs_qualified s else cs_qualified s @ [e]),
            cs_diagnostics := cs_diagnostics s @
              (if stale then map (\<lambda>i. provider_diag (req_class r) b (issue_text i)) issues else [])\<rparr>
      | Rejected issues reference \<Rightarrow>
          s\<lparr>cs_rejected := cs_rejected s @
              [\<lparr>rc_issues = issues, rc_reference = reference, rc_provider = pm_id (cb_provider b)\<rparr>],
            cs_diagnostics := cs_diagnostics s @ map (\<lambda>i. provider_diag (req_class r) b (issue_text i)) issues\<rparr>)"

definition batch_step ::
  "(string \<Rightarrow> string) \<Rightarrow> evidence_requirement \<Rightarrow> string \<Rightarrow> int \<Rightarrow> collection_batch \<Rightarrow> class_state \<Rightarrow> class_state" where
  "batch_step sha r subject now b s =
     (let s' = fold (qualify_step sha r subject now b) (cb_candidates b) s in
      s'\<lparr>cs_diagnostics := cs_diagnostics s'
        @ (if cb_outcome b \<noteq> Collected then [provider_diag (req_class r) b (outcome_v1_text (cb_outcome b))] else [])
        @ map (\<lambda>d. provider_diag (req_class r) b (pd_code d)) (List.map_filter parse_diagnostic (cb_diagnostics b))\<rparr>)"

definition class_batches :: "collection_batch list \<Rightarrow> evidence_requirement \<Rightarrow> collection_batch list" where
  "class_batches bs r = sort_batches (filter (\<lambda>b. cb_class b = req_class r) bs)"

definition class_subject :: "collection_batch list \<Rightarrow> string" where
  "class_subject cbs = (case cbs of [] \<Rightarrow> [] | b # _ \<Rightarrow> cb_subject b)"

definition class_coverage ::
  "(string \<Rightarrow> string) \<Rightarrow> collection_limits \<Rightarrow> int \<Rightarrow> collection_batch list \<Rightarrow> evidence_requirement \<Rightarrow>
   coverage_entry \<times> build_diagnostic list" where
  "class_coverage sha l now bs r =
     (let cls = req_class r; cbs = class_batches bs r; subject = class_subject cbs;
          mismatches = map (\<lambda>b. provider_diag cls b ''subject_mismatch'') (filter (\<lambda>b. cb_subject b \<noteq> subject) cbs) in
      case find_limit_violation cbs l of
        Some reason \<Rightarrow> (limit_exceeded_entry sha cls subject cbs now reason,
          mismatches @ [\<lparr>bd_code = ''EVIDENCE_COLLECTION_LIMIT_EXCEEDED'', bd_class = Some cls, bd_provider = None\<rparr>])
      | None \<Rightarrow>
          (let s = fold (batch_step sha r subject now) cbs \<lparr>cs_qualified = [], cs_rejected = [], cs_diagnostics = mismatches\<rparr> in
           (build_entry r cls (cs_qualified s) (cs_rejected s) cbs now, cs_diagnostics s)))"

section \<open>The builder\<close>

record coverage_build =
  bld_snapshot :: coverage_snapshot
  bld_diagnostics :: "build_diagnostic list"
  bld_truncated :: bool

definition build_evidence_coverage ::
  "(string \<Rightarrow> string) \<Rightarrow> evidence_requirement list \<Rightarrow> collection_batch list \<Rightarrow> int option \<Rightarrow> partial_limits option \<Rightarrow>
   evidence_error_code throws + coverage_build" where
  "build_evidence_coverage sha reqs results now limits =
     ebind (guarded (list_all evidence_requirement_ok reqs) EVIDENCE_INPUT_INVALID) (\<lambda>_.
     ebind (guarded (distinct (map req_class reqs)) EVIDENCE_INPUT_INVALID) (\<lambda>_.
     ebind (case now of None \<Rightarrow> Inl (Throws EVIDENCE_INPUT_INVALID) | Some t \<Rightarrow> Inr t) (\<lambda>clock.
     ebind (resolve_limits limits) (\<lambda>l.
     ebind (validate_batches results) (\<lambda>bs.
       (let built = map (class_coverage sha l clock bs) reqs; diags = concat (map snd built);
            truncated = int (length diags) > max_diagnostics l in
        ebind (zod (parse_coverage (map fst built))) (\<lambda>snapshot.
        Inr \<lparr>bld_snapshot = snapshot,
          bld_diagnostics = (if truncated then take (nat (max_diagnostics l)) diags else diags),
          bld_truncated = truncated\<rparr>)))))))"


section \<open>Grouping and ranking\<close>

lemma group_snoc: "group_by_claim_key (es @ [e]) = add_to_group e (group_by_claim_key es)"
  by (simp add: group_by_claim_key_def)

lemma group_get:
  "map_get (group_by_claim_key es) k =
   (let l = filter (\<lambda>e. qe_claim_key e = k) es in if l = [] then None else Some l)"
proof (induction es rule: rev_induct)
  case Nil
  then show ?case by (simp add: group_by_claim_key_def)
next
  case (snoc e es)
  then show ?case
    by (auto simp: group_snoc add_to_group_def map_get_set Let_def filter_empty_conv split: option.splits if_splits)
qed

lemma group_keys: "keys_distinct (group_by_claim_key es)"
proof (induction es rule: rev_induct)
  case Nil
  then show ?case by (simp add: group_by_claim_key_def)
next
  case (snoc e es)
  then show ?case by (simp add: group_snoc add_to_group_def split: option.splits)
qed

lemma group_values:
  "g \<in> set (map_values (group_by_claim_key es)) \<longleftrightarrow> (\<exists>e \<in> set es. g = filter (\<lambda>f. qe_claim_key f = qe_claim_key e) es)"
proof -
  have "g \<in> set (map_values (group_by_claim_key es)) \<longleftrightarrow> (\<exists>k. map_get (group_by_claim_key es) k = Some g)"
    by (rule map_values_get [OF group_keys])
  also have "\<dots> \<longleftrightarrow> (\<exists>e \<in> set es. g = filter (\<lambda>f. qe_claim_key f = qe_claim_key e) es)"
    by (auto simp: group_get Let_def filter_empty_conv split: if_splits)
  finally show ?thesis .
qed

lemma uniq_length_one: "length (uniq xs) > 1 \<longleftrightarrow> (\<exists>x \<in> set xs. \<exists>y \<in> set xs. x \<noteq> y)"
proof -
  have c: "length (uniq xs) = card (set xs)" by (metis distinct_card distinct_uniq set_uniq)
  show ?thesis
    unfolding c by (metis (no_types, lifting) List.finite_set One_nat_def card_le_Suc0_iff_eq not_less)
qed

text \<open>Two items of evidence disagree when they make different claims under one claim key.\<close>

definition disagree :: "qualified_evidence list \<Rightarrow> bool" where
  "disagree es = list_ex (\<lambda>e. list_ex (\<lambda>f. qe_claim_key e = qe_claim_key f \<and> qe_claim_digest e \<noteq> qe_claim_digest f) es) es"

lemma conflicts_iff: "filter group_conflicts (map_values (group_by_claim_key es)) \<noteq> [] \<longleftrightarrow> disagree es"
proof -
  have "filter group_conflicts (map_values (group_by_claim_key es)) \<noteq> [] \<longleftrightarrow>
      (\<exists>g \<in> set (map_values (group_by_claim_key es)). group_conflicts g)"
    by (auto simp: filter_empty_conv)
  also have "\<dots> \<longleftrightarrow> (\<exists>e \<in> set es. group_conflicts (filter (\<lambda>f. qe_claim_key f = qe_claim_key e) es))"
    unfolding Bex_def group_values by auto
  also have "\<dots> \<longleftrightarrow> disagree es"
    unfolding group_conflicts_def uniq_length_one disagree_def list_ex_iff by (auto, metis+)
  finally show ?thesis .
qed

definition higher :: "qualified_evidence \<Rightarrow> verification_requirement \<Rightarrow> verification_requirement" where
  "higher e best = (if verification_rank (qe_level e) > verification_rank best then qe_level e else best)"

lemma highest_fold: "fold higher es b = b \<or> (\<exists>e \<in> set es. fold higher es b = qe_level e)"
proof (induction es arbitrary: b)
  case (Cons a es)
  then show ?case using Cons.IH [of "higher a b"] by (auto simp: higher_def split: if_splits)
qed simp

lemma concat_map_nonempty: "g \<in> set gs \<Longrightarrow> f g \<noteq> [] \<Longrightarrow> concat (map f gs) \<noteq> []"
  by (induction gs) auto

lemma highest_level: "highest_verification es = NoVerification \<or> (\<exists>e \<in> set es. highest_verification es = qe_level e)"
  unfolding highest_verification_def higher_def [abs_def, symmetric] by (rule highest_fold)

lemma primary_mem: "es \<noteq> [] \<Longrightarrow> pick_primary bs es \<in> set es"
  unfolding pick_primary_def by (metis hd_in_set length_0_conv length_sort set_sort)

section \<open>Status of a class entry\<close>

lemma build_entry_status:
  "cov_status (build_entry r cls q rej bs now) =
   (if q = [] then (if rej = [] then Missing else Unverified)
    else if list_all (is_stale r now) q then Stale
    else if disagree (filter (\<lambda>e. \<not> is_stale r now e) q) then Conflicted else Present)"
  using conflicts_iff [of "filter (\<lambda>e. \<not> is_stale r now e) q"]
  by (auto simp: build_entry_def Let_def list_all_iff filter_empty_conv)

lemma sorted_unique_Nil [simp]: "sorted_unique xs = [] \<longleftrightarrow> xs = []"
  by (metis set_empty set_sorted_unique)

lemma agree_conflict_disjoint:
  assumes "distinct (map qe_id es)"
    "x \<in> set (concat (map (agreeing_ids bs) (map_values (group_by_claim_key es))))"
  shows "x \<notin> set (concat (map (conflicting_ids bs) (map_values (group_by_claim_key es))))"
proof
  assume "x \<in> set (concat (map (conflicting_ids bs) (map_values (group_by_claim_key es))))"
  then obtain g e where g: "g \<in> set (map_values (group_by_claim_key es))" "e \<in> set g" "x = qe_id e"
    "qe_claim_digest e \<noteq> qe_claim_digest (pick_primary bs g)" by (auto simp: conflicting_ids_def)
  obtain g' e' where g': "g' \<in> set (map_values (group_by_claim_key es))" "e' \<in> set g'" "x = qe_id e'"
    "qe_claim_digest e' = qe_claim_digest (pick_primary bs g')" using assms(2) by (auto simp: agreeing_ids_def)
  have "e \<in> set es" "e' \<in> set es" using g g' by (auto simp: group_values simp del: set_map)
  then have "e = e'" using assms(1) g(3) g'(3) by (metis distinct_map inj_onD)
  then have "g = g'" using g(1,2) g'(1,2) by (auto simp: group_values simp del: set_map)
  then show False using g(4) g'(4) \<open>e = e'\<close> by simp
qed

lemma conflicting_nonempty:
  assumes "disagree es"
  shows "concat (map (conflicting_ids bs) (map_values (group_by_claim_key es))) \<noteq> []"
proof -
  obtain g where g: "g \<in> set (map_values (group_by_claim_key es))" "group_conflicts g"
    using conflicts_iff [of es] assms by (auto simp: filter_empty_conv)
  then obtain e f where "e \<in> set g" "f \<in> set g" "qe_claim_digest e \<noteq> qe_claim_digest f"
    unfolding group_conflicts_def uniq_length_one by auto
  then have "conflicting_ids bs g \<noteq> []" by (auto simp: conflicting_ids_def filter_empty_conv) metis
  then show ?thesis using g(1) by (intro concat_map_nonempty)
qed

lemma agreeing_nonempty:
  assumes "es \<noteq> []"
  shows "concat (map (agreeing_ids bs) (map_values (group_by_claim_key es))) \<noteq> []"
proof -
  obtain e where "e \<in> set es" using assms by (cases es) auto
  then have g: "filter (\<lambda>f. qe_claim_key f = qe_claim_key e) es \<in> set (map_values (group_by_claim_key es))"
    "filter (\<lambda>f. qe_claim_key f = qe_claim_key e) es \<noteq> []" (is "?g \<noteq> []")
    by (auto simp: group_values filter_empty_conv simp del: set_map)
  then have "agreeing_ids bs ?g \<noteq> []"
    using primary_mem [OF g(2)] by (auto simp: agreeing_ids_def filter_empty_conv)
  then show ?thesis using g(1) by (intro concat_map_nonempty)
qed

lemma build_entry_status_ok:
  assumes "distinct (map qe_id q)"
  shows "entry_status_ok (build_entry r cls q rej bs now)"
proof -
  define fresh where "fresh = filter (\<lambda>e. \<not> is_stale r now e) q"
  have d: "distinct (map qe_id fresh)" unfolding fresh_def using assms by (rule distinct_map_filter)
  show ?thesis
  proof (cases "q = []")
    case True
    then show ?thesis by (auto simp: build_entry_def entry_status_ok_def Let_def)
  next
    case q: False
    show ?thesis
    proof (cases "fresh = []")
      case True
      then have "filter (is_stale r now) q \<noteq> []" using q by (cases q) (auto simp: fresh_def split: if_splits)
      with True q show ?thesis by (auto simp: build_entry_def entry_status_ok_def Let_def fresh_def)
    next
      case False
      then show ?thesis
        using q conflicting_nonempty [of fresh bs] agreeing_nonempty [of fresh bs] agree_conflict_disjoint [OF d]
          conflicts_iff [of fresh]
        by (auto simp: build_entry_def entry_status_ok_def Let_def fresh_def [symmetric] list_all_iff
            simp del: set_concat set_map concat_eq_Nil_conv)
    qed
  qed
qed

lemma build_entry_class [simp]: "cov_class (build_entry r cls q rej bs now) = cls"
  by (simp add: build_entry_def Let_def)

lemma build_entry_distinct: "distinct (cov_evidence_ids (build_entry r cls q rej bs now))"
  "opt_ok distinct (cov_conflict_ids (build_entry r cls q rej bs now))"
  by (simp_all add: build_entry_def Let_def)

lemma highest_subset:
  assumes "x = highest_verification es" "set es \<subseteq> set q"
  shows "x = NoVerification \<or> (\<exists>e \<in> set q. x = qe_level e)"
  using highest_level [of es] assms by blast

lemma build_entry_level:
  "cov_level (build_entry r cls q rej bs now) = NoVerification \<or>
   (\<exists>e \<in> set q. cov_level (build_entry r cls q rej bs now) = qe_level e)"
proof -
  define fresh where "fresh = filter (\<lambda>e. \<not> is_stale r now e) q"
  define ids where "ids = set (concat (map (agreeing_ids bs) (map_values (group_by_claim_key fresh))))"
  define x where "x = cov_level (build_entry r cls q rej bs now)"
  have x: "x \<in> {NoVerification, highest_verification (filter (is_stale r now) q),
      highest_verification (filter (\<lambda>e. qe_id e \<in> ids) fresh), highest_verification fresh}"
    unfolding x_def ids_def build_entry_def Let_def fresh_def [symmetric] by simp
  have sub: "set fresh \<subseteq> set q" "set (filter (is_stale r now) q) \<subseteq> set q" "set (filter (\<lambda>e. qe_id e \<in> ids) fresh) \<subseteq> set q"
    by (auto simp: fresh_def)
  from x consider "x = NoVerification" | "x = highest_verification (filter (is_stale r now) q)"
    | "x = highest_verification (filter (\<lambda>e. qe_id e \<in> ids) fresh)" | "x = highest_verification fresh"
    by blast
  then have "x = NoVerification \<or> (\<exists>e \<in> set q. x = qe_level e)"
    by cases (use sub highest_subset in metis)+
  then show ?thesis unfolding x_def .
qed

section \<open>The state of a class while its candidates are qualified\<close>

definition class_state_ok :: "collection_batch list \<Rightarrow> string \<Rightarrow> class_state \<Rightarrow> bool" where
  "class_state_ok cbs cls s \<longleftrightarrow> distinct (map qe_id (cs_qualified s)) \<and>
     (\<forall>e \<in> set (cs_qualified s). qe_class e = cls \<and>
       (\<exists>b \<in> set cbs. qe_provider e = pm_id (cb_provider b) \<and> qe_level e \<le> pm_max_level (cb_provider b)))"

lemma class_state_ok_diagnostics [simp]:
  "class_state_ok cbs cls (s\<lparr>cs_diagnostics := d\<rparr>) = class_state_ok cbs cls s"
  by (simp add: class_state_ok_def)

lemma qualify_step_ok:
  assumes "class_state_ok cbs (req_class r) s" "b \<in> set cbs"
  shows "class_state_ok cbs (req_class r) (qualify_step sha r subject now b raw s)"
proof (cases "qualify_candidate sha raw \<lparr>qc_provider = cb_provider b, qc_class = req_class r, qc_subject = subject,
    qc_requirement = Some r, qc_now = now\<rparr>")
  case (Qualified e stale issues)
  obtain c where "candidate_binds c \<lparr>qc_provider = cb_provider b, qc_class = req_class r, qc_subject = subject,
      qc_requirement = Some r, qc_now = now\<rparr>" "qe_provider e = pm_id (cb_provider b)" "qe_class e = ec_class c"
      "qe_level e = ec_level c"
    using Qualified by (elim qualify_qualified) auto
  then have "qe_class e = req_class r" "qe_provider e = pm_id (cb_provider b)" "qe_level e \<le> pm_max_level (cb_provider b)"
    by (auto simp: candidate_binds_def)
  with assms Qualified show ?thesis by (auto simp: qualify_step_def class_state_ok_def)
next
  case (Rejected issues reference)
  with assms show ?thesis by (simp add: qualify_step_def class_state_ok_def)
qed

lemma qualify_fold_ok:
  "class_state_ok cbs (req_class r) s \<Longrightarrow> b \<in> set cbs \<Longrightarrow>
   class_state_ok cbs (req_class r) (fold (qualify_step sha r subject now b) raws s)"
  by (induction raws arbitrary: s) (auto simp: qualify_step_ok)

lemma batch_fold_ok:
  "class_state_ok cbs (req_class r) s \<Longrightarrow> set bs \<subseteq> set cbs \<Longrightarrow>
   class_state_ok cbs (req_class r) (fold (batch_step sha r subject now) bs s)"
proof (induction bs arbitrary: s)
  case (Cons b bs)
  then have "class_state_ok cbs (req_class r) (batch_step sha r subject now b s)"
    by (simp add: batch_step_def Let_def qualify_fold_ok)
  then show ?case using Cons by simp
qed simp

definition class_run ::
  "(string \<Rightarrow> string) \<Rightarrow> int \<Rightarrow> collection_batch list \<Rightarrow> evidence_requirement \<Rightarrow> class_state" where
  "class_run sha now bs r = (let cbs = class_batches bs r; subject = class_subject cbs in
     fold (batch_step sha r subject now) cbs \<lparr>cs_qualified = [], cs_rejected = [],
       cs_diagnostics = map (\<lambda>b. provider_diag (req_class r) b ''subject_mismatch'') (filter (\<lambda>b. cb_subject b \<noteq> subject) cbs)\<rparr>)"

lemma class_run_ok: "class_state_ok (class_batches bs r) (req_class r) (class_run sha now bs r)"
  unfolding class_run_def Let_def by (rule batch_fold_ok) (auto simp: class_state_ok_def)

lemma class_coverage_entry:
  "fst (class_coverage sha l now bs r) = (case find_limit_violation (class_batches bs r) l of
     Some reason \<Rightarrow> limit_exceeded_entry sha (req_class r) (class_subject (class_batches bs r)) (class_batches bs r) now reason
   | None \<Rightarrow> build_entry r (req_class r) (cs_qualified (class_run sha now bs r)) (cs_rejected (class_run sha now bs r))
       (class_batches bs r) now)"
  by (simp add: class_coverage_def class_run_def Let_def split: option.split)

lemma class_coverage_class: "cov_class (fst (class_coverage sha l now bs r)) = req_class r"
  by (simp add: class_coverage_entry limit_exceeded_entry_def split: option.split)

lemma limit_references_nonempty: "limit_references sha cls subject bs \<noteq> []"
  by (simp add: limit_references_def Let_def)

text \<open>Every entry the builder makes satisfies the status invariant of the coverage contract (present and
  missing entries carry no conflicts, a stale entry has its date, the two id sets of a conflicted
  entry are non-empty and disjoint, an unverified entry names what it rejected), is for the class of
  its requirement, and lists every id once.\<close>
lemma built_entries_well_formed:
  "entry_status_ok (fst (class_coverage sha l now bs r)) \<and>
   cov_class (fst (class_coverage sha l now bs r)) = req_class r \<and>
   distinct (cov_evidence_ids (fst (class_coverage sha l now bs r))) \<and>
   opt_ok distinct (cov_conflict_ids (fst (class_coverage sha l now bs r)))"
proof (cases "find_limit_violation (class_batches bs r) l")
  case None
  have "distinct (map qe_id (cs_qualified (class_run sha now bs r)))"
    using class_run_ok [of bs r sha now] by (simp add: class_state_ok_def)
  then show ?thesis using None by (simp add: class_coverage_entry build_entry_status_ok build_entry_distinct)
next
  case (Some reason)
  then show ?thesis
    by (simp add: class_coverage_entry limit_exceeded_entry_def entry_status_ok_def limit_references_nonempty)
qed

text \<open>No provider can lift a class above its cap: the verification level of an entry is none, or is at
  most the maximal level of one of the providers that were asked for the class.\<close>
lemma coverage_level_capped:
  "cov_level (fst (class_coverage sha l now bs r)) = NoVerification \<or>
   (\<exists>b \<in> set (class_batches bs r). cov_level (fst (class_coverage sha l now bs r)) \<le> pm_max_level (cb_provider b))"
proof (cases "find_limit_violation (class_batches bs r) l")
  case None
  then show ?thesis
    using build_entry_level [of r "req_class r" "cs_qualified (class_run sha now bs r)"
        "cs_rejected (class_run sha now bs r)" "class_batches bs r" now]
      class_run_ok [of bs r sha now] by (auto simp: class_coverage_entry class_state_ok_def)
next
  case (Some reason)
  then show ?thesis by (simp add: class_coverage_entry limit_exceeded_entry_def)
qed

text \<open>The status of a class follows a fixed precedence. Beyond the collection bounds it is unverified;
  otherwise it is missing without candidates, unverified when none qualifies, stale when all
  qualified candidates are too old, conflicted when two fresh qualified ones make different claims
  under one claim key, and present in the remaining case. Rejected and stale candidates never
  make a class present.\<close>
lemma class_status_precedence:
  "cov_status (fst (class_coverage sha l now bs r)) =
   (let s = class_run sha now bs r; fresh = filter (\<lambda>e. \<not> is_stale r now e) (cs_qualified s) in
    if find_limit_violation (class_batches bs r) l \<noteq> None then Unverified
    else if cs_qualified s = [] then (if cs_rejected s = [] then Missing else Unverified)
    else if fresh = [] then Stale
    else if disagree fresh then Conflicted else Present)"
  by (auto simp: class_coverage_entry build_entry_status Let_def list_all_iff filter_empty_conv
      limit_exceeded_entry_def split: option.splits)

section \<open>The snapshot\<close>

lemma build_snapshot:
  assumes "build_evidence_coverage sha reqs results now limits = Inr res"
  obtains l clock where "now = Some clock" "resolve_limits limits = Inr l"
    "parse_coverage (map (\<lambda>r. fst (class_coverage sha l clock results r)) reqs) = Some (bld_snapshot res)"
  using assms by (auto simp: build_evidence_coverage_def validate_batches_def Let_def comp_def
      split: option.splits if_splits)

text \<open>A successful build covers every requirement, in order and once: the snapshot satisfies the coverage
  contract, its classes are exactly the classes of the requirements, and each entry has the status
  and level its class was given.\<close>
lemma coverage_build_complete:
  assumes "build_evidence_coverage sha reqs results (Some clock) limits = Inr res"
  shows "coverage_snapshot_ok (bld_snapshot res) \<and> map cov_class (bld_snapshot res) = map req_class reqs \<and>
    (\<exists>l. resolve_limits limits = Inr l \<and>
      map cov_status (bld_snapshot res) = map (\<lambda>r. cov_status (fst (class_coverage sha l clock results r))) reqs \<and>
      map cov_level (bld_snapshot res) = map (\<lambda>r. cov_level (fst (class_coverage sha l clock results r))) reqs)"
proof -
  obtain l where l: "resolve_limits limits = Inr l"
    and p: "parse_coverage (map (\<lambda>r. fst (class_coverage sha l clock results r)) reqs) = Some (bld_snapshot res)"
    using assms by (rule build_snapshot) simp
  have c: "cov_class (fst (class_coverage sha l clock results r)) = req_class r" for r
    by (rule class_coverage_class)
  from p have "coverage_snapshot_ok (bld_snapshot res)"
    and s: "bld_snapshot res = map norm_entry (map (\<lambda>r. fst (class_coverage sha l clock results r)) reqs)"
    by (auto simp: parse_coverage_def parse_with_Some)
  then show ?thesis using l by (auto simp: norm_entry_def c)
qed


section \<open>Two limits of the builder\<close>

lemma coverage_too_many_ids:
  assumes "1000 < length (cov_evidence_ids e)" "e \<in> set es"
  shows "parse_coverage es = None"
proof -
  have "\<not> coverage_entry_ok (norm_entry e)" using assms(1) by (simp add: coverage_entry_ok_def norm_entry_def)
  then show ?thesis using assms(2)
    by (auto simp: parse_coverage_def parse_with_def Let_def coverage_snapshot_ok_def list_all_iff)
qed

text \<open>The collection bound does not always fail closed into an entry. When a class breaks a bound and its
  candidates have more than 1000 distinct references, the unverified entry made for it exceeds the
  contract's limit of 1000 evidence ids, and the whole build throws a schema error: no class of the
  request gets an entry. A provider result may carry up to 10000 candidates.\<close>
lemma limit_violation_can_throw:
  assumes "list_all evidence_requirement_ok reqs" "distinct (map req_class reqs)" "resolve_limits limits = Inr l"
    "list_all batch_ok results" "r \<in> set reqs"
    "find_limit_violation (class_batches results r) l = Some reason"
    "1000 < length (sorted_unique (limit_references sha (req_class r) (class_subject (class_batches results r))
       (class_batches results r)))"
  shows "build_evidence_coverage sha reqs results (Some clock) limits = Inl ZodError"
proof -
  have "1000 < length (cov_evidence_ids (fst (class_coverage sha l clock results r)))"
    using assms(6,7) by (simp add: class_coverage_entry limit_exceeded_entry_def)
  then have "parse_coverage (map fst (map (class_coverage sha l clock results) reqs)) = None"
    using assms(5) by (intro coverage_too_many_ids) auto
  then show ?thesis
    using assms(1-4) by (simp add: build_evidence_coverage_def validate_batches_def Let_def comp_def zod_def)
qed

definition flood_candidate :: "nat \<Rightarrow> raw_candidate" where
  "flood_candidate n = Unshaped \<lparr>lf_class = [], lf_subject = [], lf_claim_key = [], lf_source_item = nat_str n\<rparr>"

definition flood_items :: "nat list" where
  "flood_items = [0..<1001]"

lemma flood_items: "length flood_items = 1001" "set flood_items = {0..<1001}" "flood_items \<noteq> []"
  by (simp_all only: flood_items_def length_upt set_upt upt_eq_Nil_conv) simp_all

definition flood_batch :: collection_batch where
  "flood_batch = \<lparr>cb_provider = sample_provider, cb_class = ''repo.state'', cb_subject = ''repo:a'',
     cb_outcome = Collected, cb_candidates = map flood_candidate flood_items, cb_diagnostics = []\<rparr>"

lemma digits_not_control: "list_all is_digit s \<Longrightarrow> utf8_replaced s = s"
  by (induction s) (auto simp: utf8_replaced_def utf8_char_def control_char_def is_digit_def)

lemma flood_references_distinct:
  "inj_on (\<lambda>n. diagnostic_evidence_reference (\<lambda>b. b) p cls subject (flood_candidate n)) {0..<1001}"
proof (rule inj_onI)
  fix m n :: nat assume mn: "m \<in> {0..<1001}" "n \<in> {0..<1001}"
  have short: "length (nat_str k) < 300" if "k < 1001" for k
    using length_nat_str [of k 3] that by simp
  assume "diagnostic_evidence_reference (\<lambda>b. b) p cls subject (flood_candidate m) =
    diagnostic_evidence_reference (\<lambda>b. b) p cls subject (flood_candidate n)"
  then have eq: "encode_bytes [utf8_replaced p, utf8_replaced cls, utf8_replaced subject, [], [], [], nat_str m, utf8_replaced ''schema-invalid''] =
    encode_bytes [utf8_replaced p, utf8_replaced cls, utf8_replaced subject, [], [], [], nat_str n, utf8_replaced ''schema-invalid'']"
    using short [of m] short [of n] mn nat_str_digits [of m] nat_str_digits [of n]
    by (simp add: diagnostic_evidence_reference_def flood_candidate_def Let_def digits_not_control)
  have "encode_bytes [nat_str m, utf8_replaced ''schema-invalid''] = encode_bytes [nat_str n, utf8_replaced ''schema-invalid'']"
    using eq by (simp add: encode_bytes_def)
  then have "[nat_str m, utf8_replaced ''schema-invalid''] = [nat_str n, utf8_replaced ''schema-invalid'']"
    using short [of m] short [of n] mn
    by (intro encode_bytes_inj) (auto simp: utf8_replaced_def utf8_char_def control_char_def code_def)
  then show "m = n" using nat_str_inj by simp
qed

lemma flood_batches: "class_batches [flood_batch] sample_requirement = [flood_batch]"
  by (simp add: class_batches_def sort_batches_def flood_batch_def sample_requirement_def)

lemma flood_references:
  assumes "cb_candidates b = map flood_candidate ns" "ns \<noteq> []"
  shows "limit_references sha cls subject [b] =
    map (\<lambda>n. diagnostic_evidence_reference sha (pm_id (cb_provider b)) cls subject (flood_candidate n)) ns"
  using assms by (simp add: limit_references_def limit_reference_def flood_candidate_def Let_def)

text \<open>The evidence id does not bind the claim key, so a provider's second claim is lost when it repeats the
  value of its first one: after a candidate of an item has qualified, the same candidate under any
  other claim key leaves the qualified evidence as it is, whatever conflict that key would show.\<close>
lemma second_claim_of_item_dropped:
  assumes "\<lparr>qc_provider = cb_provider b, qc_class = req_class r, qc_subject = subject, qc_requirement = Some r,
      qc_now = now\<rparr> = ctx"
    "qualify_candidate sha (Candidate c) ctx = Qualified e stale issues" "e \<in> set (cs_qualified s)"
  shows "cs_qualified (qualify_step sha r subject now b (Candidate (c\<lparr>ec_claim_key := k\<rparr>)) s) = cs_qualified s"
proof (cases "qualify_candidate sha (Candidate (c\<lparr>ec_claim_key := k\<rparr>)) ctx")
  case (Qualified e' stale' issues')
  obtain d where d: "parse_candidate c = Some d" "claim_digest sha (ec_claim_value d) = Inr (qe_claim_digest e)"
      "build_evidence_id sha (pm_id (qc_provider ctx)) (ec_class d) (ec_subject d) (ec_source_item d) (qe_claim_digest e) = Inr (qe_id e)"
    using assms(2) by (auto elim: qualify_qualified)
  obtain d' where d': "parse_candidate (c\<lparr>ec_claim_key := k\<rparr>) = Some d'" "claim_digest sha (ec_claim_value d') = Inr (qe_claim_digest e')"
      "build_evidence_id sha (pm_id (qc_provider ctx)) (ec_class d') (ec_subject d') (ec_source_item d') (qe_claim_digest e') = Inr (qe_id e')"
    using Qualified by (auto elim: qualify_qualified)
  have "ec_class d = ec_class d'" "ec_subject d = ec_subject d'" "ec_source_item d = ec_source_item d'" "ec_claim_value d = ec_claim_value d'"
    using d(1) d'(1) by (auto simp: parse_candidate_def parse_with_Some norm_candidate_def)
  then have "qe_id e' = qe_id e" using d d' by simp
  then show ?thesis using assms(1,3) Qualified by (force simp: qualify_step_def)
next
  case (Rejected issues' reference)
  then show ?thesis using assms(1) by (simp add: qualify_step_def)
qed

definition sample_batch :: collection_batch where
  "sample_batch = \<lparr>cb_provider = sample_provider, cb_class = ''repo.state'', cb_subject = ''repo:a'',
     cb_outcome = Collected, cb_candidates = [Candidate sample_candidate], cb_diagnostics = []\<rparr>"

definition sample_qualified :: qualified_evidence where
  "sample_qualified = (case qualify_candidate sample_sha (Candidate sample_candidate) sample_context of
     Qualified e stale issues \<Rightarrow> e)"

lemma sample_qualifies: "\<exists>stale issues. qualify_candidate sample_sha (Candidate sample_candidate) sample_context =
    Qualified sample_qualified stale issues"
proof -
  have "\<exists>c. parse_raw_candidate (Candidate sample_candidate) = Some c \<and> candidate_binds c sample_context \<and>
      False = too_old (qc_requirement sample_context) (qc_now sample_context - the (date_parse (ec_observed_at c)))"
    by (rule exI [of _ sample_candidate]) code_simp
  then have "\<exists>e issues. qualify_candidate sample_sha (Candidate sample_candidate) sample_context = Qualified e False issues"
    using qualification_exact_iff [OF sample_sha_digest] by blast
  then show ?thesis by (auto simp: sample_qualified_def)
qed

section \<open>A concrete build\<close>

lemma sample_requirement_fields: "req_class sample_requirement = ''repo.state''" "req_max_age sample_requirement = Some 60000"
  by (simp_all add: sample_requirement_def)

lemma sample_class_run:
  "cs_qualified (class_run sample_sha 2000 [sample_batch] sample_requirement) = [sample_qualified] \<and>
   cs_rejected (class_run sample_sha 2000 [sample_batch] sample_requirement) = []"
proof -
  obtain stale issues where q: "qualify_candidate sample_sha (Candidate sample_candidate) sample_context =
      Qualified sample_qualified stale issues" using sample_qualifies by blast
  have c: "\<lparr>qc_provider = sample_provider, qc_class = req_class sample_requirement, qc_subject = ''repo:a'',
      qc_requirement = Some sample_requirement, qc_now = 2000\<rparr> = sample_context"
    by (simp add: sample_requirement_def sample_context_def)
  have b: "class_batches [sample_batch] sample_requirement = [sample_batch]"
    by (simp add: class_batches_def sort_batches_def sample_batch_def sample_requirement_def)
  show ?thesis
    unfolding class_run_def Let_def b by (simp add: class_subject_def batch_step_def sample_batch_def qualify_step_def c q Let_def)
qed

lemma sample_qualified_fields:
  "qe_id sample_qualified = replicate 64 CHR ''a''" "qe_level sample_qualified = Asserted"
  "qe_observed_at sample_qualified = Iso 1000"
proof -
  obtain stale issues where q: "qualify_candidate sample_sha (Candidate sample_candidate) sample_context =
      Qualified sample_qualified stale issues" using sample_qualifies by blast
  have p: "parse_raw_candidate (Candidate sample_candidate) = Some sample_candidate" by code_simp
  from q obtain c where "parse_raw_candidate (Candidate sample_candidate) = Some c"
     "build_evidence_id sample_sha (pm_id (qc_provider sample_context)) (ec_class c) (ec_subject c) (ec_source_item c)
       (qe_claim_digest sample_qualified) = Inr (qe_id sample_qualified)"
     "qe_level sample_qualified = ec_level c" "qe_observed_at sample_qualified = ec_observed_at c"
    by (elim qualify_qualified)
  then show "qe_id sample_qualified = replicate 64 CHR ''a''" "qe_level sample_qualified = Asserted"
     "qe_observed_at sample_qualified = Iso 1000"
    using p by (auto simp: build_evidence_id_def Let_def sample_sha_def sample_candidate_def simp del: assert_components.simps)
qed

lemma sample_build:
  "\<exists>res. build_evidence_coverage sample_sha [sample_requirement] [sample_batch] (Some 2000) None = Inr res"
proof -
  have f: "find_limit_violation (class_batches [sample_batch] sample_requirement) default_limits = None" by code_simp
  have e: "fst (class_coverage sample_sha default_limits 2000 [sample_batch] sample_requirement) =
      \<lparr>cov_class = ''repo.state'', cov_status = Present, cov_level = Asserted, cov_evidence_ids = [replicate 64 CHR ''a''],
        cov_checked_at = Iso 2000, cov_stale_since = None, cov_conflict_ids = None, cov_note = None\<rparr>"
    by (simp add: class_coverage_entry f sample_class_run build_entry_def Let_def is_stale_def sample_qualified_fields
        sample_requirement_fields group_by_claim_key_def add_to_group_def group_conflicts_def uniq_def highest_verification_def
        sorted_unique_def)
  have "batch_ok sample_batch" "evidence_requirement_ok sample_requirement" by code_simp+
  moreover have "parse_coverage [\<lparr>cov_class = ''repo.state'', cov_status = Present, cov_level = Asserted, cov_evidence_ids = [replicate 64 CHR ''a''],
        cov_checked_at = Iso 2000, cov_stale_since = None, cov_conflict_ids = None, cov_note = None\<rparr>] \<noteq> None"
    by code_simp
  ultimately show ?thesis
    using e by (auto simp: build_evidence_coverage_def resolve_limits_def validate_batches_def Let_def zod_def)
qed

end
