(* ===== verification/Evidence_Runtime.thy ===== *)
theory Evidence_Runtime
  imports Coverage_Builder Eligibility
begin

text \<open>
  The evidence surface runtime (\<open>src/brain-server/src/evidence/runtime.ts\<close>) with the provider
  registry (\<open>evidence/provider-registry.ts\<close>) and the normalisation of what a provider answers
  (\<open>evidence/provider.ts\<close>). It composes the subject resolvers, the providers, the qualified
  ledger, the coverage builder, the guard and the guard-run ledger.

  Providers are application code: what the \<open>n\<close>-th call of a provider does, and the state of the
  abort signals around it, is a parameter, and so are the readings of the clock and the generated
  ids. The runtime state holds the two ledgers and counts the calls, readings and ids. The guard
  calls back a closure that changes this state; its loop over such a callback is shown to be
  the loop of theory Guard over the answers the callback gives.
\<close>

section \<open>Provider registry\<close>

type_synonym provider_registry = "(string, provider_metadata) jsmap"

definition register_provider ::
  "provider_metadata raw \<Rightarrow> provider_registry \<Rightarrow> evidence_error_code throws + provider_registry" where
  "register_provider raw m =
     ebind (safe_parse EVIDENCE_INPUT_INVALID (parse_with id provider_metadata_ok) raw) (\<lambda>p.
     ebind (guarded (\<not> map_has m (pm_id p)) EVIDENCE_PROVIDER_DUPLICATE) (\<lambda>_.
     Inr (map_set (pm_id p) p m)))"

text \<open>Priority descending, then provider id ascending: two stable sorts.\<close>

definition sort_providers :: "provider_metadata list \<Rightarrow> provider_metadata list" where
  "sort_providers ps = sort_key (\<lambda>p. - pm_priority p) (sort_key pm_id ps)"

definition list_providers :: "provider_registry \<Rightarrow> provider_metadata list" where
  "list_providers m = sort_providers (map_values m)"

definition providers_for_class ::
  "provider_registry \<Rightarrow> string \<Rightarrow> evidence_error_code throws + provider_metadata list" where
  "providers_for_class m c =
     ebind (guarded (evidence_class_ok c) EVIDENCE_INPUT_INVALID) (\<lambda>_.
     Inr (sort_providers (filter (\<lambda>p. c \<in> set (pm_classes p)) (list_providers m))))"

section \<open>Collection from one provider\<close>

record provider_result =
  pr_outcome :: provider_outcome_v1
  pr_candidates :: "evidence_candidate list"
  pr_diagnostics :: "provider_diagnostic list"

definition norm_diagnostic :: "provider_diagnostic \<Rightarrow> provider_diagnostic" where
  "norm_diagnostic d = d\<lparr>pd_code := js_trim (pd_code d)\<rparr>"

definition norm_result :: "provider_result \<Rightarrow> provider_result" where
  "norm_result r = r\<lparr>pr_candidates := map norm_candidate (pr_candidates r),
     pr_diagnostics := map norm_diagnostic (pr_diagnostics r)\<rparr>"

definition provider_result_ok :: "provider_result \<Rightarrow> bool" where
  "provider_result_ok r \<longleftrightarrow> list_all candidate_ok (pr_candidates r) \<and> length (pr_candidates r) \<le> 10000 \<and>
     list_all (\<lambda>d. len_ok 100 (pd_code d) \<and> len_ok 2000 (pd_message d)) (pr_diagnostics r) \<and>
     length (pr_diagnostics r) \<le> 1000"

definition parse_result :: "provider_result \<Rightarrow> provider_result option" where
  "parse_result = parse_with norm_result provider_result_ok"

text \<open>
  One call of \<open>collect\<close>: whether the signal given to it was aborted before, what the provider did,
  whether the signal was aborted when it returned; and the state of the external signal and of the
  round's timeout signal at the end, which the guard reads after an abort.
\<close>

datatype collect_answer = Answered "provider_result raw" | Threw_abort | Threw_other

record collect_call =
  cl_before :: bool
  cl_answer :: collect_answer
  cl_after :: bool
  cl_external :: bool
  cl_timeout :: bool

definition provider_error_result :: provider_result where
  "provider_error_result = \<lparr>pr_outcome = Temporary_unavailable, pr_candidates = [],
     pr_diagnostics = [\<lparr>pd_code = ''EVIDENCE_PROVIDER_ERROR'', pd_message = ''provider collection failed; details withheld''\<rparr>]\<rparr>"

definition collect_from_provider :: "collect_call \<Rightarrow> evidence_error_code throws + provider_result" where
  "collect_from_provider cl =
     (if cl_before cl then Inl (Throws EVIDENCE_COLLECTION_ABORTED)
      else case cl_answer cl of
        Threw_abort \<Rightarrow> Inl (Throws EVIDENCE_COLLECTION_ABORTED)
      | Threw_other \<Rightarrow> Inr provider_error_result
      | Answered raw \<Rightarrow>
          if cl_after cl then Inl (Throws EVIDENCE_COLLECTION_ABORTED)
          else (case Option.bind (shaped raw) parse_result of
            None \<Rightarrow> Inr provider_error_result
          | Some r \<Rightarrow> Inr r))"

section \<open>Configuration and state\<close>

record runtime_config =
  rt_sha :: "string \<Rightarrow> string"
  rt_lookup :: lookup
  rt_providers :: provider_registry
  rt_resolvers :: resolver_registry
  rt_clock :: "nat \<Rightarrow> int"
  rt_call :: "nat \<Rightarrow> provider_metadata \<Rightarrow> string \<Rightarrow> string \<Rightarrow> collect_call"
  rt_fresh :: "nat \<Rightarrow> string"
  rt_limits :: collection_limits
  rt_max_rounds :: nat
  rt_timeout_ms :: int

record runtime_state =
  er_qualified :: qualified_store
  er_runs :: run_store
  er_calls :: nat
  er_reads :: nat
  er_ids :: nat
  er_last :: "collect_call option"

record runtime_options =
  op_limits :: "partial_limits option"
  op_max_rounds :: "int option"
  op_timeout_ms :: "int option"

text \<open>The numeric options of the constructor.\<close>

definition resolve_runtime_options ::
  "runtime_options \<Rightarrow> evidence_error_code throws + (collection_limits \<times> nat \<times> int)" where
  "resolve_runtime_options opt =
     ebind (resolve_limits (op_limits opt)) (\<lambda>l.
     (let rounds = limit_or 3 (op_max_rounds opt) in
      ebind (guarded (0 \<le> rounds \<and> rounds \<le> int max_retrieval_rounds) EVIDENCE_INPUT_INVALID) (\<lambda>_.
     (let ms = limit_or 5000 (op_timeout_ms opt) in
      ebind (guarded (timeout_ok ms) EVIDENCE_INPUT_INVALID) (\<lambda>_. Inr (l, nat rounds, ms))))))"

definition read_clock :: "runtime_config \<Rightarrow> runtime_state \<Rightarrow> int \<times> runtime_state" where
  "read_clock cfg s = (rt_clock cfg (er_reads s), s\<lparr>er_reads := Suc (er_reads s)\<rparr>)"

definition full_limits :: "collection_limits \<Rightarrow> partial_limits" where
  "full_limits l = \<lparr>pl_providers = Some (max_providers_per_class l), pl_candidates = Some (max_candidates_per_provider l),
     pl_total = Some (max_candidates_total l), pl_bytes = Some (max_claim_json_bytes l), pl_diagnostics = Some (max_diagnostics l)\<rparr>"

section \<open>Collection of a class\<close>

definition requirement_for_class :: "evidence_requirement list \<Rightarrow> string \<Rightarrow> evidence_requirement option" where
  "requirement_for_class rs c = find (\<lambda>r. req_class r = c) rs"

definition qualified_record_of :: "qualified_evidence \<Rightarrow> provider_metadata \<Rightarrow> qualified_record" where
  "qualified_record_of e p = \<lparr>qr_id = qe_id e, qr_provider = qe_provider e, qr_provider_version = pm_version p,
     qr_class = qe_class e, qr_subject = qe_subject e, qr_claim_key = qe_claim_key e, qr_claim_digest = qe_claim_digest e,
     qr_observed_at = qe_observed_at e, qr_level = qe_level e, qr_qualified = True, qr_source_item = qe_source_item e,
     qr_source_reference = qe_source_reference e, qr_qualified_at = qe_qualified_at e\<rparr>"

definition record_qualified ::
  "candidate_qualification \<Rightarrow> provider_metadata \<Rightarrow> qualified_store \<Rightarrow> evidence_error_code throws + qualified_store" where
  "record_qualified q p qs = (case q of Rejected issues ref \<Rightarrow> Inr qs
     | Qualified e stale issues \<Rightarrow> qs_put (qualified_record_of e p) qs)"

fun kind_of_outcome :: "provider_outcome_v1 \<Rightarrow> provider_outcome_kind" where
  "kind_of_outcome Collected = PO_collected"
| "kind_of_outcome Not_found = PO_not_found"
| "kind_of_outcome Temporary_unavailable = PO_temporary_unavailable"
| "kind_of_outcome Permanent_unavailable = PO_permanent_unavailable"
| "kind_of_outcome User_context_required = PO_user_context_required"

definition provider_outcome_kind_of :: "provider_result \<Rightarrow> provider_outcome_kind" where
  "provider_outcome_kind_of r = (if list_ex (\<lambda>d. pd_code d = ''EVIDENCE_PROVIDER_ERROR'') (pr_diagnostics r)
     then PO_provider_error else kind_of_outcome (pr_outcome r))"

fun outcome_note :: "provider_outcome_kind \<Rightarrow> string" where
  "outcome_note PO_temporary_unavailable = ''temporary provider unavailability (retry bounded by guard rounds)''"
| "outcome_note PO_provider_error = ''provider collection failed; details withheld''"
| "outcome_note PO_permanent_unavailable = ''no trusted provider can serve this class''"
| "outcome_note PO_user_context_required = ''provider requires user-supplied context''"
| "outcome_note PO_collection_limit_exceeded = ''evidence collection bounds exceeded''"
| "outcome_note _ = ''provider outcome recorded''"

definition outcome_for :: "string \<Rightarrow> provider_outcome_kind \<Rightarrow> bool \<Rightarrow> provider_outcome" where
  "outcome_for c k retry = \<lparr>po_class = c, po_kind = k, po_retryable = Some retry, po_alternate = Some False,
     po_clarification_key = None, po_note = Some (outcome_note k)\<rparr>"

text \<open>
  The candidates of one result enter the ledger in order. A full ledger ends the loop with one more
  outcome; another refusal of the ledger is thrown, with the earlier entries kept.
\<close>

fun record_candidates ::
  "runtime_config \<Rightarrow> provider_metadata \<Rightarrow> qualification_context \<Rightarrow> evidence_candidate list \<Rightarrow> qualified_store \<Rightarrow>
   (evidence_error_code throws + provider_outcome list) \<times> qualified_store" where
  "record_candidates cfg p ctx [] qs = (Inr [], qs)"
| "record_candidates cfg p ctx (c # cs) qs =
     (case record_qualified (qualify_candidate (rt_sha cfg) (Candidate c) ctx) p qs of
        Inr qs' \<Rightarrow> record_candidates cfg p ctx cs qs'
      | Inl e \<Rightarrow> if e = Throws EVIDENCE_COLLECTION_LIMIT_EXCEEDED
          then (Inr [outcome_for (qc_class ctx) PO_collection_limit_exceeded False], qs)
          else (Inl e, qs))"

definition batch_of :: "provider_metadata \<Rightarrow> string \<Rightarrow> string \<Rightarrow> provider_result \<Rightarrow> collection_batch" where
  "batch_of p c subject r = \<lparr>cb_provider = p, cb_class = c, cb_subject = subject, cb_outcome = pr_outcome r,
     cb_candidates = map Candidate (pr_candidates r), cb_diagnostics = map Shaped (pr_diagnostics r)\<rparr>"

type_synonym collected = "collection_batch list \<times> provider_outcome list"

fun collect_providers ::
  "runtime_config \<Rightarrow> string \<Rightarrow> string \<Rightarrow> evidence_requirement option \<Rightarrow> int \<Rightarrow> provider_metadata list \<Rightarrow> runtime_state \<Rightarrow>
   (evidence_error_code throws + collected) \<times> runtime_state" where
  "collect_providers cfg c subject req now [] s = (Inr ([], []), s)"
| "collect_providers cfg c subject req now (p # ps) s =
     (let cl = rt_call cfg (er_calls s) p c subject; s1 = s\<lparr>er_calls := Suc (er_calls s), er_last := Some cl\<rparr> in
      case collect_from_provider cl of
        Inl e \<Rightarrow> (Inl e, s1)
      | Inr r \<Rightarrow>
        (let k = provider_outcome_kind_of r;
             out = outcome_for c k (k = PO_temporary_unavailable \<or> k = PO_provider_error) in
         case record_candidates cfg p \<lparr>qc_provider = p, qc_class = c, qc_subject = subject, qc_requirement = req, qc_now = now\<rparr>
             (pr_candidates r) (er_qualified s1) of
           (Inl e, qs) \<Rightarrow> (Inl e, s1\<lparr>er_qualified := qs\<rparr>)
         | (Inr extra, qs) \<Rightarrow>
             (case collect_providers cfg c subject req now ps (s1\<lparr>er_qualified := qs\<rparr>) of
                (Inl e, s2) \<Rightarrow> (Inl e, s2)
              | (Inr (bs, outs), s2) \<Rightarrow> (Inr (batch_of p c subject r # bs, out # extra @ outs), s2))))"

definition collect_class ::
  "runtime_config \<Rightarrow> evidence_requirement list \<Rightarrow> string \<Rightarrow> string \<Rightarrow> runtime_state \<Rightarrow>
   (evidence_error_code throws + collected) \<times> runtime_state" where
  "collect_class cfg rs subject c s = (case providers_for_class (rt_providers cfg) c of
     Inl e \<Rightarrow> (Inl e, s)
   | Inr ps \<Rightarrow>
     if ps = [] then (Inr ([], [outcome_for c PO_permanent_unavailable False]), s)
     else (case read_clock cfg s of (now, s1) \<Rightarrow>
       collect_providers cfg c subject (requirement_for_class rs c) now ps s1))"

type_synonym batches = "(string, collection_batch list) jsmap"

text \<open>The classes of a phase, one after the other: the batches of a class replace the earlier ones.\<close>

fun collect_classes ::
  "runtime_config \<Rightarrow> evidence_requirement list \<Rightarrow> string \<Rightarrow> string list \<Rightarrow> batches \<times> runtime_state \<Rightarrow>
   (evidence_error_code throws + provider_outcome list) \<times> batches \<times> runtime_state" where
  "collect_classes cfg rs subject [] (m, s) = (Inr [], m, s)"
| "collect_classes cfg rs subject (c # cs) (m, s) =
     (case collect_class cfg rs subject c s of
        (Inl e, s1) \<Rightarrow> (Inl e, m, s1)
      | (Inr (bs, outs), s1) \<Rightarrow>
          (case collect_classes cfg rs subject cs (map_set c bs m, s1) of
             (Inl e, w) \<Rightarrow> (Inl e, w)
           | (Inr outs', w) \<Rightarrow> (Inr (outs @ outs'), w)))"

definition build_latest ::
  "runtime_config \<Rightarrow> evidence_requirement list \<Rightarrow> batches \<Rightarrow> runtime_state \<Rightarrow>
   (evidence_error_code throws + coverage_build) \<times> runtime_state" where
  "build_latest cfg rs m s = (case read_clock cfg s of (now, s1) \<Rightarrow>
     (build_evidence_coverage (rt_sha cfg) rs (concat (map_values m)) (Some now) (Some (full_limits (rt_limits cfg))), s1))"

definition limit_outcomes :: "coverage_build \<Rightarrow> provider_outcome list" where
  "limit_outcomes b = map (\<lambda>c. outcome_for c PO_collection_limit_exceeded False)
     (sorted_unique (List.map_filter (\<lambda>d. if bd_code d = ''EVIDENCE_COLLECTION_LIMIT_EXCEEDED''
        then (case bd_class d of None \<Rightarrow> None | Some c \<Rightarrow> if c = [] then None else Some c) else None) (bld_diagnostics b)))"

text \<open>The callback of the guard.\<close>

definition collect_coverage ::
  "runtime_config \<Rightarrow> evidence_requirement list \<Rightarrow> string \<Rightarrow> string list \<Rightarrow> batches \<times> runtime_state \<Rightarrow>
   collect_response \<times> batches \<times> runtime_state" where
  "collect_coverage cfg rs subject requested w =
     (case collect_classes cfg rs subject requested w of
        (Inl e, m, s) \<Rightarrow>
          (if e = Throws EVIDENCE_COLLECTION_ABORTED
           then (case er_last s of None \<Rightarrow> Abort_error False False | Some cl \<Rightarrow> Abort_error (cl_external cl) (cl_timeout cl))
           else Other_error, m, s)
      | (Inr outs, m, s) \<Rightarrow>
          (case build_latest cfg rs m s of
             (Inl e, s1) \<Rightarrow> (Other_error, m, s1)
           | (Inr b, s1) \<Rightarrow>
               (Returned (Shaped (bld_snapshot b)) (map Shaped (outs @ limit_outcomes b)), m, s1)))"

section \<open>The guard over a callback with state\<close>

type_synonym 'w callback = "nat \<Rightarrow> coverage_snapshot \<Rightarrow> string list \<Rightarrow> 'w \<Rightarrow> collect_response \<times> 'w"

text \<open>
  A round asks the callback only when the control action is to retrieve. Its answer is
  computed once, and the round of theory Guard is run on it.
\<close>

definition guard_round_st :: "guard_request \<Rightarrow> 'w callback \<Rightarrow> guard_state \<Rightarrow> 'w \<Rightarrow> (guard_result + guard_state) \<times> 'w" where
  "guard_round_st g collect s w =
     (let control = choose_control_action (gs_assessment s) (decisions_for g s) (gs_rounds s) (g_max_rounds g) in
      if cc_action control \<noteq> Retrieve_more then (guard_round g (\<lambda>_ _ _. Other_error) s, w)
      else (case collect (Suc (gs_rounds s)) (gs_coverage s) (cc_requested control) w of
        (resp, w') \<Rightarrow> (guard_round g (\<lambda>_ _ _. resp) s, w')))"

lemma guard_round_st_eq:
  assumes "guard_round_st g collect s w = (r, w')"
  obtains resp where "r = guard_round g (\<lambda>_ _ _. resp) s"
  using assms by (auto simp: guard_round_st_def Let_def split: if_splits prod.splits)

lemma guard_round_st_rounds:
  "guard_round_st g collect s w = (Inr s', w') \<Longrightarrow> gs_rounds s' = Suc (gs_rounds s)"
  by (metis guard_round_st_eq guard_round_rounds)

function guard_loop_st :: "guard_request \<Rightarrow> 'w callback \<Rightarrow> guard_state \<Rightarrow> 'w \<Rightarrow> guard_result \<times> 'w" where
  "guard_loop_st g collect s w =
     (if gs_rounds s < g_max_rounds g
      then (case guard_round_st g collect s w of (Inl r, w') \<Rightarrow> (r, w') | (Inr s', w') \<Rightarrow> guard_loop_st g collect s' w')
      else (guard_exhausted g s, w))"
  by pat_completeness auto

termination
  by (relation "measure (\<lambda>(g, c, s, w). g_max_rounds g - gs_rounds s)") (auto dest: guard_round_st_rounds [OF sym])

declare guard_loop_st.simps [simp del]

definition initial_guard_state :: "guard_request \<Rightarrow> guard_state" where
  "initial_guard_state g = assess_into g \<lparr>gs_coverage = (case g_initial_coverage g of None \<Rightarrow> [] | Some es \<Rightarrow> es),
     gs_assessment = assess_evidence_coverage [] [], gs_trace = [], gs_requested = [], gs_outcomes = [],
     gs_warnings = [], gs_non_blocking = [], gs_latest = [], gs_attempted = [], gs_rounds = 0\<rparr>"

definition run_evidence_guard_st ::
  "guard_request raw \<Rightarrow> 'w callback \<Rightarrow> 'w \<Rightarrow> (evidence_error_code throws + guard_result) \<times> 'w" where
  "run_evidence_guard_st raw collect w = (case Option.bind (shaped raw) parse_guard_request of
     None \<Rightarrow> (Inl NativeError, w)
   | Some g \<Rightarrow> (case parse_coverage (case g_initial_coverage g of None \<Rightarrow> [] | Some es \<Rightarrow> es) of
       None \<Rightarrow> (Inl NativeError, w)
     | Some _ \<Rightarrow>
       (let s = initial_guard_state g in
        if as_mandatory_satisfied (gs_assessment s)
        then (Inr (finalize g (s\<lparr>gs_trace := [make_trace_round 0 (gs_coverage s) (gs_assessment s) Proceed
            [EVIDENCE_SATISFIED] []]\<rparr>) Proceed [EVIDENCE_SATISFIED] [] False), w)
        else (case guard_loop_st g collect s w of (r, w') \<Rightarrow> (Inr r, w')))))"

text \<open>The loop reads the callback only at later rounds than the current one.\<close>

lemma guard_round_cong: "c (Suc (gs_rounds s)) = c' (Suc (gs_rounds s)) \<Longrightarrow> guard_round g c s = guard_round g c' s"
  by (simp add: guard_round_def Let_def)

lemma guard_loop_cong:
  assumes "\<And>n. gs_rounds s < n \<Longrightarrow> c n = c' n"
  shows "guard_loop g c s = guard_loop g c' s"
  using assms
proof (induction g c s rule: guard_loop.induct)
  case (1 g c s)
  have r: "guard_round g c s = guard_round g c' s" by (rule guard_round_cong) (simp add: "1.prems")
  show ?case
  proof (cases "gs_rounds s < g_max_rounds g \<and> (\<exists>s'. guard_round g c s = Inr s')")
    case True
    then obtain s' where s': "guard_round g c s = Inr s'" by blast
    have "guard_loop g c s' = guard_loop g c' s'"
      by (rule "1.IH") (use True s' "1.prems" guard_round_rounds [OF s'] in auto)
    then show ?thesis using True s' r by (simp add: guard_loop.simps [of g _ s])
  next
    case False
    then show ?thesis using r
      by (cases "guard_round g c' s") (auto simp: guard_loop.simps [of g c s] guard_loop.simps [of g c' s])
  qed
qed

lemma guard_round_st_cases:
  assumes "guard_round_st g collect s w = (r, w')"
  obtains resp where "\<And>c. (\<And>es cs. c (Suc (gs_rounds s)) es cs = resp) \<Longrightarrow> r = guard_round g c s"
proof -
  obtain resp where resp: "r = guard_round g (\<lambda>_ _ _. resp) s" by (rule guard_round_st_eq [OF assms])
  have "r = guard_round g c s" if "\<And>es cs. c (Suc (gs_rounds s)) es cs = resp" for c
    unfolding resp by (rule guard_round_cong) (intro ext, simp add: that)
  then show ?thesis using that by blast
qed

lemma guard_loop_simulated: "\<exists>c. fst (guard_loop_st g collect s w) = guard_loop g c s"
proof (induction g collect s w rule: guard_loop_st.induct)
  case (1 g collect s w)
  show ?case
  proof (cases "gs_rounds s < g_max_rounds g")
    case True
    obtain r w' where rw: "guard_round_st g collect s w = (r, w')" by fastforce
    obtain resp where resp: "\<And>c. (\<And>es cs. c (Suc (gs_rounds s)) es cs = resp) \<Longrightarrow> r = guard_round g c s"
      by (rule guard_round_st_cases [OF rw]) blast
    show ?thesis
    proof (cases r)
      case (Inl res)
      then show ?thesis using True rw resp [of "\<lambda>_ _ _. resp"]
        by (auto simp: guard_loop_st.simps [of g collect s] guard_loop.simps [of g _ s] intro!: exI [of _ "\<lambda>_ _ _. resp"])
    next
      case (Inr s')
      then obtain c where c: "fst (guard_loop_st g collect s' w') = guard_loop g c s'"
        using "1.IH" [OF True rw [symmetric]] Inr by auto
      define c' where "c' = (\<lambda>n. if n = Suc (gs_rounds s) then (\<lambda>_ _. resp) else c n)"
      have r: "guard_round g c' s = Inr s'" using resp [of c'] Inr by (simp add: c'_def)
      have "guard_loop g c s' = guard_loop g c' s'"
        by (rule guard_loop_cong) (simp add: c'_def guard_round_rounds [OF r])
      then have "guard_loop g c' s = fst (guard_loop_st g collect s' w')"
        using True r c by (simp add: guard_loop.simps [of g c' s])
      then show ?thesis using True rw Inr by (auto simp: guard_loop_st.simps [of g collect s] intro!: exI [of _ c'])
    qed
  next
    case False
    then show ?thesis by (simp add: guard_loop_st.simps [of g collect s] guard_loop.simps [of g _ s])
  qed
qed

lemma guard_simulated: "\<exists>c. fst (run_evidence_guard_st raw collect w) = run_evidence_guard raw c"
proof (cases "Option.bind (shaped raw) parse_guard_request")
  case None
  then show ?thesis by (simp add: run_evidence_guard_st_def run_evidence_guard_def)
next
  case (Some g)
  obtain c where "fst (guard_loop_st g collect (initial_guard_state g) w) = guard_loop g c (initial_guard_state g)"
    using guard_loop_simulated [of g collect "initial_guard_state g" w] by (elim exE)
  then show ?thesis using Some
    by (auto simp: run_evidence_guard_st_def run_evidence_guard_def initial_guard_state_def Let_def
        split: option.splits prod.splits intro!: exI [of _ c])
qed


section \<open>Evaluation\<close>

record evaluate_request =
  vq_capability_id :: string
  vq_capability_version :: string
  vq_inputs :: json_object
  vq_correlation :: "string option"

text \<open>
  \<open>JSON.stringify\<close> of JSON-safe inputs has the length of their canonical text: the two differ in the
  order of the members only.
\<close>

definition evaluate_request_ok :: "evaluate_request \<Rightarrow> bool" where
  "evaluate_request_ok q \<longleftrightarrow> capability_id_ok (vq_capability_id q) \<and> semver_ok (vq_capability_version q) \<and>
     json_object_ok (vq_inputs q) \<and> opt_ok (len_ok 200) (vq_correlation q) \<and>
     length (vq_inputs q) \<le> 100 \<and> int (length (canonical_text (JObj (vq_inputs q)))) \<le> 64 * 1024"

definition parse_evaluate :: "evaluate_request \<Rightarrow> evaluate_request option" where
  "parse_evaluate = parse_with (\<lambda>q. q\<lparr>vq_correlation := map_option js_trim (vq_correlation q)\<rparr>) evaluate_request_ok"

text \<open>What is fixed before any evidence is collected.\<close>

record evaluation_binding =
  eb_request :: evaluate_request
  eb_requirements :: "evidence_requirement list"
  eb_subject :: string
  eb_requirements_digest :: string
  eb_inputs_digest :: string
  eb_started_at :: int

definition evaluate_checks ::
  "runtime_config \<Rightarrow> evaluate_request raw \<Rightarrow> int \<Rightarrow> evidence_error_code throws + evaluation_binding" where
  "evaluate_checks cfg raw started =
     ebind (safe_parse EVIDENCE_INPUT_INVALID parse_evaluate raw) (\<lambda>q.
     ebind (require (rt_lookup cfg (vq_capability_id q)) EVIDENCE_CAPABILITY_NOT_FOUND) (\<lambda>c.
     ebind (guarded (cap_version c = vq_capability_version q) EVIDENCE_CAPABILITY_VERSION_MISMATCH) (\<lambda>_.
     ebind (resolve_subject (rt_resolvers cfg) (vq_capability_id q) (vq_inputs q)) (\<lambda>subject.
     ebind (requirements_digest (rt_sha cfg) (cap_required_evidence c)) (\<lambda>rd.
     ebind (normalized_inputs_digest (rt_sha cfg) (vq_inputs q)) (\<lambda>idg.
     Inr \<lparr>eb_request = q, eb_requirements = cap_required_evidence c, eb_subject = subject,
       eb_requirements_digest = rd, eb_inputs_digest = idg, eb_started_at = started\<rparr>))))))"

text \<open>
  The returned evaluation: the fields it shares with the run record, and the assessment, the
  requested classes and the mandatory classes that are missing.
\<close>

record surface_evaluation =
  sv_run :: guard_run
  sv_assessment :: assessment
  sv_requested :: "string list"
  sv_remaining :: "string list"

definition make_run ::
  "evaluation_binding \<Rightarrow> string \<Rightarrow> int \<Rightarrow> guard_result \<Rightarrow> string \<Rightarrow> string list \<Rightarrow> provider_outcome list \<Rightarrow> guard_run" where
  "make_run b i finished r cd ids outs =
     \<lparr>run_id = i, run_capability_id = vq_capability_id (eb_request b),
      run_capability_version = vq_capability_version (eb_request b), run_subject = eb_subject b,
      run_inputs_digest = eb_inputs_digest b, run_requirements_digest = eb_requirements_digest b,
      run_started_at = Iso (eb_started_at b), run_finished_at = Iso finished, run_action = gr_action r,
      run_coverage = gr_coverage r, run_coverage_digest = cd, run_qualified_ids = ids, run_rounds = gr_rounds r,
      run_reasons = gr_reasons r, run_outcomes = outs, run_warnings = gr_warnings r, run_non_blocking = gr_non_blocking r,
      run_needs = gr_needs r, run_aborted = gr_aborted r, run_correlation = gr_correlation r\<rparr>"

text \<open>The end of every evaluation: read the clock, digest the coverage, put the run into the ledger.\<close>

definition conclude ::
  "runtime_config \<Rightarrow> evaluation_binding \<Rightarrow> guard_result \<Rightarrow> provider_outcome list \<Rightarrow> runtime_state \<Rightarrow>
   (evidence_error_code throws + surface_evaluation) \<times> runtime_state" where
  "conclude cfg b r outs s =
     (case read_clock cfg s of (finished, s1) \<Rightarrow>
      (case coverage_digest (rt_sha cfg) (gr_coverage r) of
         Inl e \<Rightarrow> (Inl e, s1)
       | Inr cd \<Rightarrow>
         (let run = make_run b (rt_fresh cfg (er_ids s1)) finished r cd (collect_coverage_ids (gr_coverage r)) outs;
              s2 = s1\<lparr>er_ids := Suc (er_ids s1)\<rparr> in
          case rs_put run (er_runs s2) of
            Inl e \<Rightarrow> (Inl e, s2)
          | Inr runs \<Rightarrow>
              (Inr \<lparr>sv_run = run, sv_assessment = gr_assessment r, sv_requested = gr_requested r, sv_remaining = gr_remaining r\<rparr>,
               s2\<lparr>er_runs := runs\<rparr>))))"

text \<open>
  \<open>abortedEvaluation\<close> and \<open>failClosedEvaluation\<close>: a run of no rounds over the empty coverage.
\<close>

definition closed_result :: "evaluation_binding \<Rightarrow> guard_action \<Rightarrow> guard_reason_code \<Rightarrow> bool \<Rightarrow> guard_result" where
  "closed_result b act reason aborted = \<lparr>gr_action = act, gr_rounds = 0, gr_coverage = [],
     gr_assessment = assess_evidence_coverage (eb_requirements b) [], gr_requested = [],
     gr_remaining = sort (map req_class (filter req_mandatory (eb_requirements b))), gr_reasons = [reason],
     gr_outcomes = [], gr_warnings = [], gr_non_blocking = [], gr_needs = [], gr_trace = [], gr_aborted = aborted,
     gr_correlation = vq_correlation (eb_request b)\<rparr>"

definition aborted_evaluation ::
  "runtime_config \<Rightarrow> evaluation_binding \<Rightarrow> runtime_state \<Rightarrow> (evidence_error_code throws + surface_evaluation) \<times> runtime_state" where
  "aborted_evaluation cfg b s = conclude cfg b (closed_result b Defer GUARD_ABORTED True) [] s"

definition fail_closed_evaluation ::
  "runtime_config \<Rightarrow> evaluation_binding \<Rightarrow> evidence_error_code throws \<Rightarrow> runtime_state \<Rightarrow>
   (evidence_error_code throws + surface_evaluation) \<times> runtime_state" where
  "fail_closed_evaluation cfg b e s = conclude cfg b
     (closed_result b Block (if e = Throws EVIDENCE_COLLECTION_LIMIT_EXCEEDED then COLLECTION_LIMIT_EXCEEDED else PROVIDER_ERROR) False) [] s"

definition runtime_guard_request :: "runtime_config \<Rightarrow> evaluation_binding \<Rightarrow> coverage_snapshot \<Rightarrow> guard_request" where
  "runtime_guard_request cfg b es = \<lparr>g_requirements = eb_requirements b, g_initial_coverage = Some es,
     g_max_rounds = rt_max_rounds cfg, g_timeout_ms = rt_timeout_ms cfg, g_correlation = vq_correlation (eb_request b),
     g_context = None\<rparr>"

definition evaluate_bound ::
  "runtime_config \<Rightarrow> evaluation_binding \<Rightarrow> runtime_state \<Rightarrow> (evidence_error_code throws + surface_evaluation) \<times> runtime_state" where
  "evaluate_bound cfg b s =
     (case collect_classes cfg (eb_requirements b) (eb_subject b) (map req_class (eb_requirements b)) ([], s) of
        (Inl e, m, s1) \<Rightarrow> if e = Throws EVIDENCE_COLLECTION_ABORTED then aborted_evaluation cfg b s1
          else fail_closed_evaluation cfg b e s1
      | (Inr outs, m, s1) \<Rightarrow>
          (case build_latest cfg (eb_requirements b) m s1 of
             (Inl e, s2) \<Rightarrow> fail_closed_evaluation cfg b e s2
           | (Inr built, s2) \<Rightarrow>
               (case run_evidence_guard_st (Shaped (runtime_guard_request cfg b (bld_snapshot built)))
                   (\<lambda>n es cs w. collect_coverage cfg (eb_requirements b) (eb_subject b) cs w) (m, s2) of
                  (Inl e, m', s3) \<Rightarrow> fail_closed_evaluation cfg b e s3
                | (Inr r, m', s3) \<Rightarrow> conclude cfg b r (outs @ gr_outcomes r) s3)))"

definition evaluate_for_capability ::
  "runtime_config \<Rightarrow> evaluate_request raw \<Rightarrow> runtime_state \<Rightarrow> (evidence_error_code throws + surface_evaluation) \<times> runtime_state" where
  "evaluate_for_capability cfg raw s =
     (case read_clock cfg s of (started, s1) \<Rightarrow>
      (case evaluate_checks cfg raw started of
         Inl e \<Rightarrow> (Inl e, s)
       | Inr b \<Rightarrow> evaluate_bound cfg b s1))"


section \<open>Every ledger record is backed by a registered provider\<close>

definition record_backed :: "runtime_config \<Rightarrow> qualified_record \<Rightarrow> bool" where
  "record_backed cfg r \<longleftrightarrow> (\<exists>k p. (k, p) \<in> set (rt_providers cfg) \<and>
     qr_provider r = pm_id p \<and> qr_provider_version r = pm_version p \<and> qr_class r \<in> set (pm_classes p) \<and>
     qr_level r \<le> pm_max_level p \<and> num_le (date_parse (qr_observed_at r)) (date_parse (qr_qualified_at r)) \<and>
     build_evidence_id (rt_sha cfg) (pm_id p) (qr_class r) (qr_subject r) (qr_source_item r) (qr_claim_digest r) = Inr (qr_id r))"

definition ledger_backed :: "runtime_config \<Rightarrow> qualified_store \<Rightarrow> bool" where
  "ledger_backed cfg qs \<longleftrightarrow> (\<forall>r \<in> set (map_values (qs_records qs)). record_backed cfg r)"

lemma map_values_set_subset: "set (map_values (map_set k v m)) \<subseteq> insert v (set (map_values m))"
  by (induction m) auto

lemma qs_put_backed:
  assumes "qs_put r qs = Inr qs'" "ledger_backed cfg qs" "\<And>x. parse_record r = Some x \<Longrightarrow> record_backed cfg x"
  shows "ledger_backed cfg qs'"
proof -
  obtain x where x: "parse_record r = Some x" "qs' = qs \<or> qs' = qs\<lparr>qs_records := map_set (qr_id x) x (qs_records qs)\<rparr>"
    using assms(1) by (auto simp: qs_put_def split: option.splits if_splits)
  show ?thesis
  proof (cases "qs' = qs")
    case False
    then have "set (map_values (qs_records qs')) \<subseteq> insert x (set (map_values (qs_records qs)))"
      using x(2) map_values_set_subset [of "qr_id x" x "qs_records qs"] by simp
    then show ?thesis using assms(2) assms(3) [OF x(1)] unfolding ledger_backed_def by blast
  qed (use assms(2) in simp)
qed

lemma candidate_ok_trimmed: "parse_raw_candidate (Candidate c) = Some d \<Longrightarrow>
    js_trim (ec_subject d) = ec_subject d \<and> js_trim (ec_source_item d) = ec_source_item d"
  by (auto simp: parse_candidate_def parse_with_Some norm_candidate_def)

lemma qualify_source_item:
  "qualify_candidate sha raw ctx = Qualified e stale issues \<Longrightarrow> parse_raw_candidate raw = Some c \<Longrightarrow>
   qe_source_item e = ec_source_item c \<and> qe_qualified_at e = Iso (qc_now ctx)"
  by (auto simp: qualify_candidate_def Let_def split: if_splits sum.splits)

lemma qualified_record_backed:
  assumes q: "qualify_candidate (rt_sha cfg) (Candidate c) ctx = Qualified e stale issues"
    and p: "qc_provider ctx = p" "p \<in> set (map_values (rt_providers cfg))"
    and x: "parse_record (qualified_record_of e p) = Some x"
  shows "record_backed cfg x"
proof -
  from q obtain d observed where d: "parse_raw_candidate (Candidate c) = Some d" "candidate_binds d ctx"
    "date_parse (ec_observed_at d) = Some observed"
    "build_evidence_id (rt_sha cfg) (pm_id (qc_provider ctx)) (ec_class d) (ec_subject d) (ec_source_item d)
       (qe_claim_digest e) = Inr (qe_id e)"
    "qe_provider e = pm_id (qc_provider ctx)" "qe_class e = ec_class d" "qe_subject e = ec_subject d"
    "qe_level e = ec_level d" "qe_observed_at e = ec_observed_at d"
    by (rule qualify_qualified)
  have i: "qe_source_item e = ec_source_item d" "qe_qualified_at e = Iso (qc_now ctx)"
    using qualify_source_item [OF q d(1)] by auto
  have "x = norm_record (qualified_record_of e p)" using x by (simp add: parse_record_def parse_with_Some)
  moreover obtain k where "(k, p) \<in> set (rt_providers cfg)" using p(2) by auto
  ultimately show ?thesis using d p(1) i candidate_ok_trimmed [OF d(1)] unfolding record_backed_def
    by (intro exI [of _ k] exI [of _ p]) (auto simp: norm_record_def qualified_record_of_def candidate_binds_def)
qed

lemma record_candidates_backed:
  assumes "record_candidates cfg p ctx cs qs = (r, qs')" "ledger_backed cfg qs"
    "qc_provider ctx = p" "p \<in> set (map_values (rt_providers cfg))"
  shows "ledger_backed cfg qs'"
  using assms(1,2)
proof (induction cs arbitrary: qs)
  case (Cons c cs)
  show ?case
  proof (cases "record_qualified (qualify_candidate (rt_sha cfg) (Candidate c) ctx) p qs")
    case (Inr qs1)
    have "ledger_backed cfg qs1"
    proof (cases "qualify_candidate (rt_sha cfg) (Candidate c) ctx")
      case (Qualified e stale issues)
      then show ?thesis using Inr Cons.prems(2) qualified_record_backed [OF Qualified assms(3,4)]
        by (auto simp: record_qualified_def intro: qs_put_backed)
    qed (use Inr Cons.prems(2) in \<open>simp add: record_qualified_def\<close>)
    then show ?thesis using Cons Inr by simp
  qed (use Cons.prems in \<open>auto split: if_splits\<close>)
qed simp

text \<open>What the collection leaves of the state: the runs, and a backed ledger.\<close>

definition collects :: "runtime_config \<Rightarrow> runtime_state \<Rightarrow> runtime_state \<Rightarrow> bool" where
  "collects cfg s s' \<longleftrightarrow> er_runs s' = er_runs s \<and> er_ids s' = er_ids s \<and>
     (ledger_backed cfg (er_qualified s) \<longrightarrow> ledger_backed cfg (er_qualified s'))"

lemma collects_refl [simp]: "collects cfg s s"
  by (simp add: collects_def)

lemma collects_trans: "collects cfg s s' \<Longrightarrow> collects cfg s' s'' \<Longrightarrow> collects cfg s s''"
  by (simp add: collects_def)

lemma collects_reads: "collects cfg s (s'\<lparr>er_reads := n\<rparr>) = collects cfg s s'"
  "collects cfg (s\<lparr>er_reads := n\<rparr>) s' = collects cfg s s'"
  by (simp_all add: collects_def)

lemma set_sort_providers [simp]: "set (sort_providers ps) = set ps"
  by (simp add: sort_providers_def)

lemma providers_for_class_Inr:
  "providers_for_class m c = Inr ps \<Longrightarrow> set ps = {p \<in> set (map_values m). c \<in> set (pm_classes p)}"
  by (force simp: providers_for_class_def list_providers_def)

lemma collect_providers_collects:
  "collect_providers cfg c subject req now ps s = (r, s') \<Longrightarrow> set ps \<subseteq> set (map_values (rt_providers cfg)) \<Longrightarrow>
   collects cfg s s'"
proof (induction ps arbitrary: s r s')
  case (Cons p ps)
  let ?cl = "rt_call cfg (er_calls s) p c subject"
  define s1 where "s1 = s\<lparr>er_calls := Suc (er_calls s), er_last := Some ?cl\<rparr>"
  have c1: "collects cfg s s1" by (simp add: collects_def s1_def)
  show ?case
  proof (cases "collect_from_provider ?cl")
    case (Inl e)
    then show ?thesis using Cons.prems(1) c1 by (simp add: Let_def s1_def)
  next
    case (Inr res)
    let ?ctx = "\<lparr>qc_provider = p, qc_class = c, qc_subject = subject, qc_requirement = req, qc_now = now\<rparr>"
    obtain x qs where x: "record_candidates cfg p ?ctx (pr_candidates res) (er_qualified s1) = (x, qs)" by fastforce
    have "ledger_backed cfg (er_qualified s1) \<longrightarrow> ledger_backed cfg qs"
      using record_candidates_backed [OF x] Cons.prems(2) by auto
    then have c2: "collects cfg s (s1\<lparr>er_qualified := qs\<rparr>)" using c1 by (simp add: collects_def s1_def)
    show ?thesis
    proof (cases x)
      case (Inl e)
      then show ?thesis using Cons.prems(1) Inr x c2 by (simp add: Let_def s1_def)
    next
      case (Inr extra)
      obtain y s2 where y: "collect_providers cfg c subject req now ps (s1\<lparr>er_qualified := qs\<rparr>) = (y, s2)" by fastforce
      have "s' = s2" using Cons.prems(1) Inr x y \<open>collect_from_provider ?cl = Inr res\<close>
        by (auto simp: Let_def s1_def split: sum.splits)
      then show ?thesis using Cons.IH [OF y] Cons.prems(2) collects_trans [OF c2] by auto
    qed
  qed
qed simp

lemma collect_class_collects: "collect_class cfg rs subject c s = (r, s') \<Longrightarrow> collects cfg s s'"
  by (auto simp: collect_class_def read_clock_def collects_reads split: sum.splits if_splits
      dest!: collect_providers_collects providers_for_class_Inr)

lemma collect_classes_collects:
  "collect_classes cfg rs subject cs (m, s) = (r, m', s') \<Longrightarrow> collects cfg s s'"
proof (induction cs arbitrary: m s r m' s')
  case (Cons c cs)
  obtain x s1 where x: "collect_class cfg rs subject c s = (x, s1)" by fastforce
  note c1 = collect_class_collects [OF x]
  show ?case
  proof (cases x)
    case (Inl e)
    then show ?thesis using Cons.prems x c1 by simp
  next
    case (Inr bo)
    obtain bs outs where b: "bo = (bs, outs)" by fastforce
    obtain y m2 s2 where y: "collect_classes cfg rs subject cs (map_set c bs m, s1) = (y, m2, s2)" by (metis prod_cases3)
    have "s' = s2" using Cons.prems x Inr b y by (auto split: sum.splits)
    then show ?thesis using Cons.IH [OF y] collects_trans [OF c1] by simp
  qed
qed simp

lemma build_latest_collects: "build_latest cfg rs m s = (r, s') \<Longrightarrow> collects cfg s s'"
  by (auto simp: build_latest_def read_clock_def collects_reads)

lemma collect_coverage_collects:
  "collect_coverage cfg rs subject cs (m, s) = (r, m', s') \<Longrightarrow> collects cfg s s'"
  by (auto simp: collect_coverage_def split: prod.splits sum.splits if_splits
      dest!: collect_classes_collects build_latest_collects intro: collects_trans)

text \<open>What every answer of a callback preserves, the guard preserves.\<close>

lemma guard_loop_st_preserves:
  assumes "\<And>n es cs w resp w'. collect n es cs w = (resp, w') \<Longrightarrow> I w \<Longrightarrow> I w'"
  shows "guard_loop_st g collect s w = (r, w') \<Longrightarrow> I w \<Longrightarrow> I w'"
  using assms
proof (induction g collect s w arbitrary: r w' rule: guard_loop_st.induct)
  case (1 g collect s w)
  obtain x w1 where x: "guard_round_st g collect s w = (x, w1)" by fastforce
  have i: "I w1" using x "1.prems"(2,3) by (auto simp: guard_round_st_def Let_def split: if_splits prod.splits)
  show ?case
  proof (cases "gs_rounds s < g_max_rounds g")
    case True
    show ?thesis
    proof (cases x)
      case (Inl res)
      then show ?thesis using True x i "1.prems"(1) by (simp add: guard_loop_st.simps [of g collect s])
    next
      case (Inr s')
      then have "guard_loop_st g collect s' w1 = (r, w')"
        using True x "1.prems"(1) by (simp add: guard_loop_st.simps [of g collect s])
      then show ?thesis by (rule "1.IH" [OF True x [symmetric] Inr _ i]) (rule "1.prems"(3))
    qed
  next
    case False
    then show ?thesis using "1.prems" by (simp add: guard_loop_st.simps [of g collect s])
  qed
qed

lemma run_guard_st_preserves:
  assumes "\<And>n es cs w resp w'. collect n es cs w = (resp, w') \<Longrightarrow> I w \<Longrightarrow> I w'"
    "run_evidence_guard_st raw collect w = (r, w')" "I w"
  shows "I w'"
  using assms(2,3) guard_loop_st_preserves [of collect I, OF assms(1)]
  by (auto simp: run_evidence_guard_st_def Let_def split: option.splits if_splits prod.splits)

section \<open>Evaluations\<close>

lemma conclude_Inr:
  assumes "conclude cfg b r outs s = (Inr v, s')"
  obtains finished cd i where
    "sv_run v = make_run b i finished r cd (collect_coverage_ids (gr_coverage r)) outs" "sv_assessment v = gr_assessment r"
    "sv_requested v = gr_requested r" "sv_remaining v = gr_remaining r"
    "coverage_digest (rt_sha cfg) (gr_coverage r) = Inr cd" "rs_put (sv_run v) (er_runs s) = Inr (er_runs s')"
    "er_qualified s' = er_qualified s"
proof -
  obtain cd where cd: "coverage_digest (rt_sha cfg) (gr_coverage r) = Inr cd"
    using assms by (auto simp: conclude_def read_clock_def split: sum.splits)
  show ?thesis
    by (rule that [of "rt_fresh cfg (er_ids s)" "rt_clock cfg (er_reads s)" cd])
      (use assms cd in \<open>auto simp: conclude_def read_clock_def Let_def split: sum.splits\<close>)
qed

lemma conclude_Inl: "conclude cfg b r outs s = (Inl e, s') \<Longrightarrow> er_runs s' = er_runs s"
  by (auto simp: conclude_def read_clock_def Let_def split: sum.splits)

lemma conclude_qualified: "conclude cfg b r outs s = (x, s') \<Longrightarrow> er_qualified s' = er_qualified s"
  by (auto simp: conclude_def read_clock_def Let_def split: sum.splits)

text \<open>
  Every evaluation ends in \<open>conclude\<close>, after steps that leave the runs alone: either with a
  verdict of the guard, or with a closed result, which never proceeds.
\<close>

definition closes :: "evaluation_binding \<Rightarrow> guard_result \<Rightarrow> bool" where
  "closes b r \<longleftrightarrow> (\<exists>reason. r = closed_result b Defer GUARD_ABORTED True \<or> r = closed_result b Block reason False)"

lemma closesI [simp]: "closes b (closed_result b Defer GUARD_ABORTED True)" "closes b (closed_result b Block reason False)"
  by (auto simp: closes_def)

lemma evaluate_bound_cases:
  assumes "evaluate_bound cfg b s = (x, s')"
  obtains s1 r outs where "collects cfg s s1" "conclude cfg b r outs s1 = (x, s')"
    "closes b r \<or> (\<exists>es collect. run_evidence_guard (Shaped (runtime_guard_request cfg b es)) collect = Inr r)"
proof -
  let ?rs = "eb_requirements b"
  obtain y m s1 where y: "collect_classes cfg ?rs (eb_subject b) (map req_class ?rs) ([], s) = (y, m, s1)" by (metis prod_cases3)
  note c1 = collect_classes_collects [OF y]
  show ?thesis
  proof (cases y)
    case (Inl e)
    then show ?thesis using assms y
      by (auto simp: evaluate_bound_def aborted_evaluation_def fail_closed_evaluation_def split: if_splits
          intro: that [OF c1])
  next
    case (Inr outs)
    obtain z s2 where z: "build_latest cfg ?rs m s1 = (z, s2)" by fastforce
    have c2: "collects cfg s s2" using collects_trans [OF c1 build_latest_collects [OF z]] .
    show ?thesis
    proof (cases z)
      case (Inl e)
      then show ?thesis using assms y z Inr
        by (auto simp: evaluate_bound_def fail_closed_evaluation_def intro: that [OF c2])
    next
      case (Inr built)
      let ?req = "Shaped (runtime_guard_request cfg b (bld_snapshot built))"
      let ?collect = "\<lambda>n es cs w. collect_coverage cfg ?rs (eb_subject b) cs w"
      obtain g m' s3 where g: "run_evidence_guard_st ?req ?collect (m, s2) = (g, m', s3)" by (metis prod_cases3)
      have "(\<lambda>w. collects cfg s (snd w)) (m', s3)"
        by (rule run_guard_st_preserves [OF _ g]) (auto simp: c2 dest!: collect_coverage_collects intro: collects_trans)
      then have c3: "collects cfg s s3" by simp
      show ?thesis
      proof (cases g)
        case (Inl e)
        then show ?thesis using assms y z \<open>y = Inr outs\<close> Inr g
          by (auto simp: evaluate_bound_def fail_closed_evaluation_def intro: that [OF c3])
      next
        case (Inr r)
        obtain c where "fst (run_evidence_guard_st ?req ?collect (m, s2)) = run_evidence_guard ?req c"
          using guard_simulated [of ?req ?collect "(m, s2)"] by (elim exE)
        then have "run_evidence_guard ?req c = Inr r" using g Inr by simp
        then show ?thesis using assms y z \<open>y = Inr outs\<close> \<open>z = Inr built\<close> Inr g
          by (auto simp: evaluate_bound_def intro: that [OF c3])
      qed
    qed
  qed
qed

lemma evaluate_checks_Inr:
  "evaluate_checks cfg (Shaped x) t = Inr b \<longleftrightarrow> (\<exists>q c. parse_evaluate x = Some q \<and>
     rt_lookup cfg (vq_capability_id q) = Some c \<and> cap_version c = vq_capability_version q \<and>
     resolve_subject (rt_resolvers cfg) (vq_capability_id q) (vq_inputs q) = Inr (eb_subject b) \<and>
     requirements_digest (rt_sha cfg) (cap_required_evidence c) = Inr (eb_requirements_digest b) \<and>
     normalized_inputs_digest (rt_sha cfg) (vq_inputs q) = Inr (eb_inputs_digest b) \<and>
     eb_request b = q \<and> eb_requirements b = cap_required_evidence c \<and> eb_started_at b = t)"
  unfolding evaluate_checks_def ebind_Inr_iff require_Inr guarded_Inr safe_parse_Inr
  by (cases b) auto

lemma evaluate_cases:
  assumes "evaluate_for_capability cfg (Shaped x) s = (r, s')"
  obtains (refused) e where "r = Inl e" "s' = s" "evaluate_checks cfg (Shaped x) (rt_clock cfg (er_reads s)) = Inl e"
  | (bound) b s1 where "evaluate_checks cfg (Shaped x) (rt_clock cfg (er_reads s)) = Inr b" "collects cfg s s1"
      "evaluate_bound cfg b s1 = (r, s')"
proof (cases "evaluate_checks cfg (Shaped x) (rt_clock cfg (er_reads s))")
  case (Inl e)
  then show ?thesis using assms refused by (auto simp: evaluate_for_capability_def read_clock_def)
next
  case (Inr b)
  have "evaluate_bound cfg b (s\<lparr>er_reads := Suc (er_reads s)\<rparr>) = (r, s')"
    using assms Inr by (simp add: evaluate_for_capability_def read_clock_def)
  moreover have "collects cfg s (s\<lparr>er_reads := Suc (er_reads s)\<rparr>)" by (simp add: collects_reads)
  ultimately show ?thesis using bound [OF Inr] by blast
qed

text \<open>The verdict of the result that an evaluation concludes with.\<close>

definition verdict_ok :: "evidence_requirement list \<Rightarrow> guard_result \<Rightarrow> bool" where
  "verdict_ok rs r \<longleftrightarrow> gr_assessment r = assess_evidence_coverage rs (gr_coverage r) \<and> gr_action r \<noteq> Retrieve_more \<and>
     (gr_action r = Proceed \<longrightarrow> list_all (satisfied_by (gr_coverage r)) (filter req_mandatory rs)) \<and>
     (list_all (satisfied_by (gr_coverage r)) (filter req_mandatory rs) \<longrightarrow> gr_action r = Proceed \<or> gr_coverage r = [])"

lemma concluded_verdict:
  assumes "closes b r \<or> (\<exists>es collect. run_evidence_guard (Shaped (runtime_guard_request cfg b es)) collect = Inr r)"
  shows "verdict_ok (eb_requirements b) r"
  using assms
proof (elim disjE exE)
  assume "closes b r"
  then show ?thesis by (auto simp: closes_def closed_result_def verdict_ok_def)
next
  fix es collect
  assume "run_evidence_guard (Shaped (runtime_guard_request cfg b es)) collect = Inr r"
  then obtain g where "parse_guard_request (runtime_guard_request cfg b es) = Some g" "guard_result_ok g r"
    using run_guard_ok by (metis raw.inject)
  moreover from this have "g_requirements g = eb_requirements b"
    by (auto simp: parse_guard_request_def parse_with_Some norm_guard_request_def runtime_guard_request_def)
  ultimately show ?thesis by (auto simp: guard_result_ok_def verdict_ok_def assess_mandatory)
qed

lemma evaluate_run:
  assumes "evaluate_for_capability cfg (Shaped x) s = (Inr v, s')"
  obtains q c p where "parse_evaluate x = Some q" "rt_lookup cfg (vq_capability_id q) = Some c"
    "cap_version c = vq_capability_version q"
    "run_capability_id (sv_run v) = vq_capability_id q" "run_capability_version (sv_run v) = vq_capability_version q"
    "resolve_subject (rt_resolvers cfg) (vq_capability_id q) (vq_inputs q) = Inr (run_subject (sv_run v))"
    "requirements_digest (rt_sha cfg) (cap_required_evidence c) = Inr (run_requirements_digest (sv_run v))"
    "normalized_inputs_digest (rt_sha cfg) (vq_inputs q) = Inr (run_inputs_digest (sv_run v))"
    "coverage_digest (rt_sha cfg) (run_coverage (sv_run v)) = Inr (run_coverage_digest (sv_run v))"
    "run_qualified_ids (sv_run v) = collect_coverage_ids (run_coverage (sv_run v))"
    "sv_assessment v = assess_evidence_coverage (cap_required_evidence c) (run_coverage (sv_run v))"
    "run_action (sv_run v) \<noteq> Retrieve_more"
    "run_action (sv_run v) = Proceed \<Longrightarrow> list_all (satisfied_by (run_coverage (sv_run v))) (filter req_mandatory (cap_required_evidence c))"
    "list_all (satisfied_by (run_coverage (sv_run v))) (filter req_mandatory (cap_required_evidence c)) \<Longrightarrow>
       run_action (sv_run v) = Proceed \<or> run_coverage (sv_run v) = []"
    "parse_run (sv_run v) = Some p" "rs_get (er_runs s') (run_id p) = Some p"
    "ledger_backed cfg (er_qualified s) \<Longrightarrow> ledger_backed cfg (er_qualified s')"
  using assms
proof (cases rule: evaluate_cases)
  case (bound b s1)
  obtain q c where b: "parse_evaluate x = Some q" "rt_lookup cfg (vq_capability_id q) = Some c"
    "cap_version c = vq_capability_version q"
    "resolve_subject (rt_resolvers cfg) (vq_capability_id q) (vq_inputs q) = Inr (eb_subject b)"
    "requirements_digest (rt_sha cfg) (cap_required_evidence c) = Inr (eb_requirements_digest b)"
    "normalized_inputs_digest (rt_sha cfg) (vq_inputs q) = Inr (eb_inputs_digest b)"
    "eb_request b = q" "eb_requirements b = cap_required_evidence c"
    using bound(1) unfolding evaluate_checks_Inr by (elim exE conjE) (rule that; assumption)
  obtain s2 r outs where k: "collects cfg s1 s2" "conclude cfg b r outs s2 = (Inr v, s')"
    "closes b r \<or> (\<exists>es collect. run_evidence_guard (Shaped (runtime_guard_request cfg b es)) collect = Inr r)"
    by (rule evaluate_bound_cases [OF bound(3)])
  note vd = concluded_verdict [OF k(3), unfolded b(8) verdict_ok_def]
  obtain finished cd i where v: "sv_run v = make_run b i finished r cd (collect_coverage_ids (gr_coverage r)) outs"
    "sv_assessment v = gr_assessment r" "coverage_digest (rt_sha cfg) (gr_coverage r) = Inr cd"
    "rs_put (sv_run v) (er_runs s2) = Inr (er_runs s')" "er_qualified s' = er_qualified s2"
    by (rule conclude_Inr [OF k(2)])
  obtain p where p: "parse_run (sv_run v) = Some p" "rs_get (er_runs s') (run_id p) = Some p"
    using rs_put_get [OF v(4)] by blast
  have l: "ledger_backed cfg (er_qualified s')" if "ledger_backed cfg (er_qualified s)"
    using that collects_trans [OF bound(2) k(1)] v(5) by (simp add: collects_def)
  show ?thesis
    by (rule that [OF b(1,2,3) _ _ _ _ _ _ _ _ _ _ _ p l]) (use b v vd in \<open>simp_all add: make_run_def\<close>)
qed simp


section \<open>From an evaluation to an eligible plan\<close>

lemma js_trim_hex: "sha256_hex_ok x \<Longrightarrow> js_trim x = x"
proof -
  assume "sha256_hex_ok x"
  then have h: "\<forall>c \<in> set x. \<not> is_space c"
    by (auto simp: sha256_hex_ok_def list_all_iff hex_char_def is_space_def is_digit_def code_def)
  have "dropWhile is_space ys = ys" if "\<forall>c \<in> set ys. \<not> is_space c" for ys using that by (cases ys) auto
  from this [of x] this [of "rev x"] show ?thesis using h by (simp add: js_trim_def)
qed

lemma hex_coverage_norm:
  assumes "list_all sha256_hex_ok (collect_coverage_ids es)"
  shows "map norm_entry es = es"
proof (rule map_idI)
  fix e assume e: "e \<in> set es"
  have h: "sha256_hex_ok i" if "i \<in> set (cov_evidence_ids e) \<or> (\<exists>cs. cov_conflict_ids e = Some cs \<and> i \<in> set cs)" for i
    using that assms e by (fastforce simp: collect_coverage_ids_def list_all_iff)
  then have "map js_trim (cov_evidence_ids e) = cov_evidence_ids e"
    by (intro map_idI js_trim_hex) auto
  moreover have "map_option (map js_trim) (cov_conflict_ids e) = cov_conflict_ids e"
    using h by (cases "cov_conflict_ids e") (auto intro!: map_idI js_trim_hex)
  ultimately show "norm_entry e = e" by (simp add: norm_entry_def)
qed

lemma referenced_collected: "set (referenced_ids es) = set (collect_coverage_ids es)"
  by (simp add: referenced_ids_def collect_coverage_ids_def)

definition service_of :: "runtime_config \<Rightarrow> runtime_state \<Rightarrow> eligibility_service" where
  "service_of cfg s = \<lparr>es_runs = er_runs s, es_qualified = er_qualified s, es_lookup = rt_lookup cfg,
     es_resolvers = rt_resolvers cfg\<rparr>"

definition materialize_of :: "surface_evaluation \<Rightarrow> evaluate_request \<Rightarrow> materialize_request" where
  "materialize_of v x = \<lparr>mr_guard_run_id = run_id (sv_run v), mr_capability_id = vq_capability_id x,
     mr_capability_version = vq_capability_version x, mr_inputs = vq_inputs x\<rparr>"

lemma parse_evaluate_fields: "parse_evaluate x = Some q \<Longrightarrow> vq_capability_id q = vq_capability_id x \<and>
    vq_capability_version q = vq_capability_version x \<and> vq_inputs q = vq_inputs x \<and>
    capability_id_ok (vq_capability_id x) \<and> semver_ok (vq_capability_version x) \<and> json_object_ok (vq_inputs x)"
  by (auto simp: parse_evaluate_def parse_with_Some evaluate_request_ok_def)

lemma parse_run_fields: "parse_run r = Some p \<Longrightarrow> p = norm_run r \<and> run_ok p"
  by (auto simp: parse_run_def parse_with_Some)

lemma subject_key_trimmed: "resolve_subject m c inputs = Inr k \<Longrightarrow> js_trim k \<noteq> []"
  by (auto simp: resolve_subject_def assert_valid_subject_key_def split: option.splits sum.splits throws.splits if_splits)

lemma proceeding_evaluation:
  assumes e: "evaluate_for_capability cfg (Shaped x) s = (Inr v, s')" and a: "run_action (sv_run v) = Proceed"
  shows "(\<exists>el. materialize_evidence (rt_sha cfg) (service_of cfg s') now (Shaped (materialize_of v x)) = Inr el) \<longleftrightarrow>
    js_trim (run_subject (sv_run v)) = run_subject (sv_run v) \<and> list_all (qs_has (er_qualified s')) (run_qualified_ids (sv_run v))"
proof -
  from e obtain q c p where r: "parse_evaluate x = Some q" "rt_lookup cfg (vq_capability_id q) = Some c"
    "cap_version c = vq_capability_version q"
    "run_capability_id (sv_run v) = vq_capability_id q" "run_capability_version (sv_run v) = vq_capability_version q"
    "resolve_subject (rt_resolvers cfg) (vq_capability_id q) (vq_inputs q) = Inr (run_subject (sv_run v))"
    "requirements_digest (rt_sha cfg) (cap_required_evidence c) = Inr (run_requirements_digest (sv_run v))"
    "normalized_inputs_digest (rt_sha cfg) (vq_inputs q) = Inr (run_inputs_digest (sv_run v))"
    "coverage_digest (rt_sha cfg) (run_coverage (sv_run v)) = Inr (run_coverage_digest (sv_run v))"
    "run_qualified_ids (sv_run v) = collect_coverage_ids (run_coverage (sv_run v))"
    "run_action (sv_run v) = Proceed \<longrightarrow> list_all (satisfied_by (run_coverage (sv_run v))) (filter req_mandatory (cap_required_evidence c))"
    "parse_run (sv_run v) = Some p" "rs_get (er_runs s') (run_id p) = Some p"
    by (rule evaluate_run) (rule that; (assumption | blast))
  note f = parse_evaluate_fields [OF r(1)]
  note p = parse_run_fields [OF r(12)]
  have cov: "run_coverage p = run_coverage (sv_run v)"
    using p hex_coverage_norm [of "run_coverage (sv_run v)"] r(10) by (auto simp: norm_run_def run_ok_def)
  have ids: "run_qualified_ids p = run_qualified_ids (sv_run v)" and pid: "run_id p = js_trim (run_id (sv_run v))"
    and other: "run_capability_id p = vq_capability_id q" "run_capability_version p = vq_capability_version q"
      "run_action p = Proceed" "run_subject p = js_trim (run_subject (sv_run v))"
      "run_requirements_digest p = run_requirements_digest (sv_run v)" "run_inputs_digest p = run_inputs_digest (sv_run v)"
      "run_coverage_digest p = run_coverage_digest (sv_run v)"
    using p r(4,5) a by (auto simp: norm_run_def)
  let ?m = "(materialize_of v x)\<lparr>mr_guard_run_id := run_id p\<rparr>"
  have m: "parse_materialize (materialize_of v x) = Some ?m"
    using f p pid by (auto simp: parse_materialize_def parse_with_Some materialize_of_def run_ok_def)
  have lookup: "rt_lookup cfg (vq_capability_id x) = Some c" "cap_version c = vq_capability_version x"
    and digests: "requirements_digest (rt_sha cfg) (cap_required_evidence c) = Inr (run_requirements_digest p)"
      "normalized_inputs_digest (rt_sha cfg) (vq_inputs x) = Inr (run_inputs_digest p)"
      "coverage_digest (rt_sha cfg) (run_coverage p) = Inr (run_coverage_digest p)"
      "resolve_subject (rt_resolvers cfg) (vq_capability_id x) (vq_inputs x) = Inr (run_subject (sv_run v))"
    and sat: "list_all (satisfied_by (run_coverage p)) (filter req_mandatory (cap_required_evidence c))"
    and who: "run_capability_id p = vq_capability_id x" "run_capability_version p = vq_capability_version x" "run_action p = Proceed"
    using r(2,3,6,7,8,9,11) f cov other a by simp_all
  have refs: "list_all (qs_has q) (referenced_ids (run_coverage p)) \<longleftrightarrow> list_all (qs_has q) (run_qualified_ids (sv_run v))" for q
    using referenced_collected [of "run_coverage (sv_run v)"] r(10) cov by (simp add: list_all_iff)
  have "eligible_run (rt_sha cfg) (service_of cfg s') ?m run c' \<longleftrightarrow>
      run = p \<and> c' = c \<and> js_trim (run_subject (sv_run v)) = run_subject (sv_run v) \<and>
      list_all (qs_has (er_qualified s')) (run_qualified_ids (sv_run v))" (is "?l \<longleftrightarrow> ?r") for run c'
  proof
    assume ?l
    then have e: "run = p" "c' = c" "list_all (qs_has (er_qualified s')) (run_qualified_ids run)" "run_subject (sv_run v) = run_subject run"
      using r(13) lookup(1) digests(4) by (simp_all add: eligible_run_def service_of_def materialize_of_def)
    then have "js_trim (run_subject (sv_run v)) = run_subject (sv_run v)" using other(4) by metis
    then show ?r using e by (simp add: ids)
  next
    assume ?r
    then show ?l using r(13) lookup digests sat who refs ids other(4)
      by (simp add: eligible_run_def service_of_def materialize_of_def)
  qed
  then show ?thesis unfolding materialize_Inr using m by auto
qed

text \<open>An evaluation whose first build satisfies the mandatory evidence concludes at once.\<close>

lemma build_evidence_coverage_Inr:
  assumes "list_all evidence_requirement_ok reqs" "distinct (map req_class reqs)" "resolve_limits limits = Inr l"
    "list_all batch_ok bs" "parse_coverage (map (\<lambda>r. fst (class_coverage sha l t bs r)) reqs) = Some es"
  shows "\<exists>d tr. build_evidence_coverage sha reqs bs (Some t) limits =
    Inr \<lparr>bld_snapshot = es, bld_diagnostics = d, bld_truncated = tr\<rparr>"
  using assms by (auto simp: build_evidence_coverage_def validate_batches_def Let_def comp_def)

lemma evaluate_bound_proceeds:
  assumes "collect_classes cfg (eb_requirements b) (eb_subject b) (map req_class (eb_requirements b)) ([], s) = (Inr outs, m, s1)"
    "build_evidence_coverage (rt_sha cfg) (eb_requirements b) (concat (map_values m)) (Some (rt_clock cfg (er_reads s1)))
       (Some (full_limits (rt_limits cfg))) = Inr built"
    "bld_snapshot built = es" "parse_guard_request (runtime_guard_request cfg b es) = Some (runtime_guard_request cfg b es)"
    "parse_coverage es = Some es" "as_mandatory_satisfied (assess_evidence_coverage (eb_requirements b) es)"
  obtains r where "evaluate_bound cfg b s = conclude cfg b r (outs @ gr_outcomes r) (s1\<lparr>er_reads := Suc (er_reads s1)\<rparr>)"
    "gr_action r = Proceed" "gr_coverage r = es" "gr_rounds r = 0" "gr_reasons r = [EVIDENCE_SATISFIED]" "gr_outcomes r = []"
    "gr_needs r = []" "gr_warnings r = uniq (as_warnings (assess_evidence_coverage (eb_requirements b) es) @
       as_warnings (assess_evidence_coverage (eb_requirements b) es))"
    "gr_non_blocking r = uniq (as_non_blocking (assess_evidence_coverage (eb_requirements b) es) @
       as_non_blocking (assess_evidence_coverage (eb_requirements b) es))"
    "gr_correlation r = vq_correlation (eb_request b)"
proof -
  let ?g = "runtime_guard_request cfg b es"
  let ?s = "initial_guard_state ?g"
  let ?r = "finalize ?g (?s\<lparr>gs_trace := [make_trace_round 0 (gs_coverage ?s) (gs_assessment ?s) Proceed [EVIDENCE_SATISFIED] []]\<rparr>)
    Proceed [EVIDENCE_SATISFIED] [] False"
  have g: "g_initial_coverage ?g = Some es" "g_requirements ?g = eb_requirements b" "g_correlation ?g = vq_correlation (eb_request b)"
    by (simp_all add: runtime_guard_request_def)
  then have "run_evidence_guard_st (Shaped ?g) collect w = (Inr ?r, w)"
    for collect :: "(batches \<times> runtime_state) callback" and w
    using assms(4,5,6) by (simp add: run_evidence_guard_st_def initial_guard_state_def assess_into_def Let_def)
  then have "evaluate_bound cfg b s = conclude cfg b ?r (outs @ gr_outcomes ?r) (s1\<lparr>er_reads := Suc (er_reads s1)\<rparr>)"
    using assms(1,2,3) by (simp add: evaluate_bound_def build_latest_def read_clock_def)
  then show ?thesis
    by (rule that) (simp_all add: finalize_def initial_guard_state_def assess_into_def Let_def g uniq_def)
qed

lemma conclude_recorded:
  assumes "coverage_digest (rt_sha cfg) (gr_coverage r) = Inr cd"
    "rs_put (make_run b (rt_fresh cfg (er_ids s)) (rt_clock cfg (er_reads s)) r cd (collect_coverage_ids (gr_coverage r)) outs)
       (er_runs s) = Inr runs"
  shows "\<exists>v s'. conclude cfg b r outs s = (Inr v, s') \<and> er_qualified s' = er_qualified s \<and> run_action (sv_run v) = gr_action r \<and>
    run_coverage (sv_run v) = gr_coverage r \<and> run_subject (sv_run v) = eb_subject b"
  using assms by (simp add: conclude_def read_clock_def Let_def) (simp add: make_run_def)

section \<open>A concrete runtime\<close>

definition runtime_provider :: provider_metadata where
  "runtime_provider = sample_provider\<lparr>pm_max_level := Verified\<rparr>"

definition runtime_candidate :: evidence_candidate where
  "runtime_candidate = sample_candidate\<lparr>ec_level := Verified\<rparr>"

definition sample_call :: "evidence_candidate \<Rightarrow> collect_call" where
  "sample_call c = \<lparr>cl_before = False, cl_answer = Answered (Shaped \<lparr>pr_outcome = Collected, pr_candidates = [c],
     pr_diagnostics = []\<rparr>), cl_after = False, cl_external = False, cl_timeout = False\<rparr>"

definition sample_runtime :: "(nat \<Rightarrow> int) \<Rightarrow> (nat \<Rightarrow> evidence_candidate) \<Rightarrow> runtime_config" where
  "sample_runtime clock cand = \<lparr>rt_sha = sample_sha, rt_lookup = sample_lookup,
     rt_providers = [(''git-local'', runtime_provider)], rt_resolvers = [(''git.branch.create'', \<lambda>c inputs. Inr ''repo:a'')],
     rt_clock = clock, rt_call = (\<lambda>n p c subject. sample_call (cand n)), rt_fresh = (\<lambda>n. ''run-'' @ nat_str n),
     rt_limits = default_limits, rt_max_rounds = 3, rt_timeout_ms = 5000\<rparr>"

definition sample_runtime_state :: runtime_state where
  "sample_runtime_state = \<lparr>er_qualified = \<lparr>qs_records = [], qs_tombstoned = [], qs_max = 20\<rparr>,
     er_runs = \<lparr>rs_runs = [], rs_max = 10\<rparr>, er_calls = 0, er_reads = 0, er_ids = 0, er_last = None\<rparr>"

definition sample_evaluate :: evaluate_request where
  "sample_evaluate = \<lparr>vq_capability_id = ''git.branch.create'', vq_capability_version = ''1.0.0'',
     vq_inputs = [(''branch'', JStr ''main'')], vq_correlation = None\<rparr>"

definition sample_binding :: "int \<Rightarrow> evaluation_binding" where
  "sample_binding t = \<lparr>eb_request = sample_evaluate, eb_requirements = [sample_requirement], eb_subject = ''repo:a'',
     eb_requirements_digest = sample_digest, eb_inputs_digest = sample_digest, eb_started_at = t\<rparr>"

definition runtime_entry :: "int \<Rightarrow> coverage_entry" where
  "runtime_entry t = sample_entry\<lparr>cov_evidence_ids := [sample_digest], cov_checked_at := Iso t\<rparr>"

definition runtime_batch :: collection_batch where
  "runtime_batch = batch_of runtime_provider ''repo.state'' ''repo:a''
     \<lparr>pr_outcome = Collected, pr_candidates = [runtime_candidate], pr_diagnostics = []\<rparr>"

definition runtime_record :: "int \<Rightarrow> qualified_record" where
  "runtime_record t = \<lparr>qr_id = sample_digest, qr_provider = ''git-local'', qr_provider_version = ''1.0.0'',
     qr_class = ''repo.state'', qr_subject = ''repo:a'', qr_claim_key = ''head'', qr_claim_digest = sample_digest,
     qr_observed_at = Iso 1000, qr_level = Verified, qr_qualified = True, qr_source_item = ''item'',
     qr_source_reference = ''ref'', qr_qualified_at = Iso t\<rparr>"

text \<open>The clock that stands at 2000, and the clock that reads 600 before the collection and 1100 after it.\<close>

definition steady_runtime :: runtime_config where
  "steady_runtime = sample_runtime (\<lambda>n. 2000) (\<lambda>n. runtime_candidate)"

definition ticking_runtime :: runtime_config where
  "ticking_runtime = sample_runtime (\<lambda>n. 100 + 500 * int n) (\<lambda>n. runtime_candidate)"

lemma sample_parse_evaluate: "parse_evaluate sample_evaluate = Some sample_evaluate"
  by code_simp

lemma sample_checks:
  "evaluate_checks (sample_runtime clock cand) (Shaped sample_evaluate) t = Inr (sample_binding t)"
proof -
  have "requirements_digest sample_sha (cap_required_evidence sample_capability) = Inr sample_digest"
    and "normalized_inputs_digest sample_sha (vq_inputs sample_evaluate) = Inr sample_digest"
    using sample_eligible_run
    by (simp_all add: eligible_run_def sample_service_def sample_materialize_def eligible_sample_run_def sample_lookup_def rs_get_def
        sample_evaluate_def)
  moreover have "resolve_subject [(''git.branch.create'', \<lambda>c inputs. Inr ''repo:a'')] ''git.branch.create''
      (vq_inputs sample_evaluate) = Inr ''repo:a''" by code_simp
  ultimately show ?thesis using sample_parse_evaluate
    by (simp add: evaluate_checks_Inr sample_runtime_def sample_binding_def sample_evaluate_def sample_lookup_def
        sample_capability_def)
qed

lemma steady_collection:
  "collect_classes steady_runtime [sample_requirement] ''repo:a'' [''repo.state''] ([], sample_runtime_state\<lparr>er_reads := 1\<rparr>) =
     (Inr [outcome_for ''repo.state'' PO_collected False], [(''repo.state'', [runtime_batch])],
      sample_runtime_state\<lparr>er_reads := 2, er_calls := 1, er_last := Some (sample_call runtime_candidate),
        er_qualified := \<lparr>qs_records = [(sample_digest, runtime_record 2000)], qs_tombstoned = [], qs_max = 20\<rparr>\<rparr>)"
  by code_simp

lemma ticking_collection:
  "collect_classes ticking_runtime [sample_requirement] ''repo:a'' [''repo.state''] ([], sample_runtime_state\<lparr>er_reads := 1\<rparr>) =
     (Inr [outcome_for ''repo.state'' PO_collected False], [(''repo.state'', [runtime_batch])],
      sample_runtime_state\<lparr>er_reads := 2, er_calls := 1, er_last := Some (sample_call runtime_candidate)\<rparr>)"
  by code_simp

lemma runtime_limits: "resolve_limits (Some (full_limits default_limits)) = Inr default_limits"
  by code_simp

lemma runtime_coverage:
  "fst (class_coverage sample_sha default_limits 2000 [runtime_batch] sample_requirement) = runtime_entry 2000"
  "fst (class_coverage sample_sha default_limits 1100 [runtime_batch] sample_requirement) = runtime_entry 1100"
  by code_simp+

lemma runtime_entries:
  "parse_coverage [runtime_entry 2000] = Some [runtime_entry 2000]" "parse_coverage [runtime_entry 1100] = Some [runtime_entry 1100]"
  "assess_evidence_coverage [sample_requirement] [runtime_entry 2000] = assess_evidence_coverage [sample_requirement] [runtime_entry 1100]"
  by code_simp+

lemma runtime_assessment:
  "as_mandatory_satisfied (assess_evidence_coverage [sample_requirement] [runtime_entry 1100])"
  "as_warnings (assess_evidence_coverage [sample_requirement] [runtime_entry 1100]) = []"
  "as_non_blocking (assess_evidence_coverage [sample_requirement] [runtime_entry 1100]) = []"
  by code_simp+

lemma runtime_requirement: "evidence_requirement_ok sample_requirement" "batch_ok runtime_batch"
  by code_simp+

lemma runtime_guard_parses:
  assumes "parse_coverage [runtime_entry t] = Some [runtime_entry t]"
  shows "parse_guard_request (runtime_guard_request (sample_runtime clock cand) (sample_binding u) [runtime_entry t]) =
    Some (runtime_guard_request (sample_runtime clock cand) (sample_binding u) [runtime_entry t])"
proof -
  have "timeout_ok 5000" "opt_ok (len_ok 200) (vq_correlation sample_evaluate)" "max_retrieval_rounds \<ge> 3" by code_simp+
  then show ?thesis using assms runtime_requirement(1)
    by (auto simp: parse_guard_request_def parse_with_Some norm_guard_request_def guard_request_ok_def runtime_guard_request_def
        sample_runtime_def sample_binding_def parse_coverage_def sample_evaluate_def)
qed

lemma runtime_run_parses:
  assumes "parse_coverage es = Some es" "list_all sha256_hex_ok (collect_coverage_ids es)" "length (collect_coverage_ids es) \<le> 2000"
    "gr_coverage r = es" "gr_rounds r = 0" "gr_reasons r = [EVIDENCE_SATISFIED]" "gr_warnings r = []" "gr_non_blocking r = []"
    "gr_needs r = []" "gr_correlation r = None"
  shows "parse_run (make_run (sample_binding u) ''run-0'' t r sample_digest (collect_coverage_ids es)
      [outcome_for ''repo.state'' PO_collected False]) \<noteq> None"
proof -
  have "js_trim ''run-0'' = ''run-0''" "len_ok 200 ''run-0''" "js_trim ''repo:a'' = ''repo:a''" "len_ok 200 ''repo:a''"
    "sha256_hex_ok sample_digest" "provider_outcome_ok (norm_outcome (outcome_for ''repo.state'' PO_collected False))"
    "len_ok 200 ''git.branch.create''" "len_ok 100 ''1.0.0''" by code_simp+
  moreover have "coverage_snapshot_ok (map norm_entry es)" using assms(1) by (auto simp: parse_coverage_def parse_with_Some)
  ultimately show ?thesis using assms(2-10)
    by (simp add: parse_run_def parse_with_def Let_def run_ok_def norm_run_def make_run_def sample_binding_def sample_evaluate_def)
qed

lemma sample_digest_hex: "sha256_hex_ok sample_digest"
  by code_simp

lemma runtime_ids: "collect_coverage_ids [runtime_entry t] = [sample_digest]"
  by (simp add: collect_coverage_ids_def runtime_entry_def sample_entry_def sorted_unique_def uniq_def)

lemma sample_bound_proceeds:
  fixes clock :: "nat \<Rightarrow> int"
  assumes c: "collect_classes (sample_runtime clock cand) [sample_requirement] ''repo:a'' [''repo.state''] ([], s) =
      (Inr [outcome_for ''repo.state'' PO_collected False], [(''repo.state'', [runtime_batch])], s1)"
    and k: "fst (class_coverage sample_sha default_limits (clock (er_reads s1)) [runtime_batch] sample_requirement) = runtime_entry (clock (er_reads s1))"
    and p: "parse_coverage [runtime_entry (clock (er_reads s1))] = Some [runtime_entry (clock (er_reads s1))]"
    and a: "assess_evidence_coverage [sample_requirement] [runtime_entry (clock (er_reads s1))] =
      assess_evidence_coverage [sample_requirement] [runtime_entry 1100]"
    and i: "er_ids s1 = 0" "er_runs s1 = \<lparr>rs_runs = [], rs_max = 10\<rparr>"
  shows "\<exists>v s'. evaluate_bound (sample_runtime clock cand) (sample_binding u) s = (Inr v, s') \<and> run_action (sv_run v) = Proceed \<and>
    run_coverage (sv_run v) = [runtime_entry (clock (er_reads s1))] \<and> run_subject (sv_run v) = ''repo:a'' \<and>
    er_qualified s' = er_qualified s1"
proof -
  let ?cfg = "sample_runtime clock cand" and ?b = "sample_binding u" and ?t = "clock (er_reads s1)"
  let ?es = "[runtime_entry ?t]"
  have b: "eb_requirements ?b = [sample_requirement]" "eb_subject ?b = ''repo:a''" "vq_correlation (eb_request ?b) = None"
    by (simp_all add: sample_binding_def sample_evaluate_def)
  have cf: "rt_sha ?cfg = sample_sha" "rt_limits ?cfg = default_limits" "rt_clock ?cfg = clock" "rt_fresh ?cfg 0 = ''run-0''"
    by (simp_all add: sample_runtime_def nat_str.simps) code_simp
  have cls: "map req_class [sample_requirement] = [''repo.state'']" by (simp add: sample_requirement_def)
  obtain d tr where bld: "build_evidence_coverage sample_sha [sample_requirement] [runtime_batch] (Some ?t)
      (Some (full_limits default_limits)) = Inr \<lparr>bld_snapshot = ?es, bld_diagnostics = d, bld_truncated = tr\<rparr>"
    using build_evidence_coverage_Inr [of "[sample_requirement]" "Some (full_limits default_limits)" default_limits "[runtime_batch]"
        sample_sha ?t ?es] runtime_requirement runtime_limits k p by auto
  note p' = evaluate_bound_proceeds [of ?cfg ?b s "[outcome_for ''repo.state'' PO_collected False]"
      "[(''repo.state'', [runtime_batch])]" s1 "\<lparr>bld_snapshot = ?es, bld_diagnostics = d, bld_truncated = tr\<rparr>" ?es,
      unfolded b cls cf a, simplified runtime_assessment append_Nil uniq_Nil]
  obtain r where r: "evaluate_bound ?cfg ?b s = conclude ?cfg ?b r ([outcome_for ''repo.state'' PO_collected False] @ gr_outcomes r)
      (s1\<lparr>er_reads := Suc (er_reads s1)\<rparr>)"
    "gr_action r = Proceed" "gr_coverage r = ?es" "gr_rounds r = 0" "gr_reasons r = [EVIDENCE_SATISFIED]" "gr_outcomes r = []"
    "gr_needs r = []" "gr_warnings r = []" "gr_non_blocking r = []" "gr_correlation r = None"
    by (rule p') (use c bld p runtime_guard_parses [OF p] in \<open>simp_all del: collect_classes.simps\<close>)
  have cd: "coverage_digest (rt_sha ?cfg) (gr_coverage r) = Inr sample_digest"
    using p by (simp add: coverage_digest_def r(3) cf sample_json_digest)
  obtain x where "parse_run (make_run ?b ''run-0'' (clock (Suc (er_reads s1))) r sample_digest (collect_coverage_ids ?es)
      [outcome_for ''repo.state'' PO_collected False]) = Some x"
    using runtime_run_parses [OF p _ _ r(3,4,5,8,9,7,10), of u "clock (Suc (er_reads s1))"] sample_digest_hex
    by (auto simp: runtime_ids)
  then have "\<exists>runs. rs_put (make_run ?b (rt_fresh ?cfg (er_ids (s1\<lparr>er_reads := Suc (er_reads s1)\<rparr>)))
      (rt_clock ?cfg (er_reads (s1\<lparr>er_reads := Suc (er_reads s1)\<rparr>))) r sample_digest (collect_coverage_ids (gr_coverage r))
      ([outcome_for ''repo.state'' PO_collected False] @ gr_outcomes r)) (er_runs (s1\<lparr>er_reads := Suc (er_reads s1)\<rparr>)) = Inr runs"
    by (simp add: rs_put_def i cf r(3,6) map_has_def)
  then show ?thesis using conclude_recorded [OF cd] r(1,2,3) b(2) by fastforce
qed

lemma sample_state_update: "er_ids (sample_runtime_state\<lparr>er_reads := a, er_calls := b, er_last := c\<rparr>) = 0"
  "er_runs (sample_runtime_state\<lparr>er_reads := a, er_calls := b, er_last := c\<rparr>) = \<lparr>rs_runs = [], rs_max = 10\<rparr>"
  by (simp_all add: sample_runtime_state_def)

lemma steady_evaluation:
  "\<exists>v s'. evaluate_for_capability steady_runtime (Shaped sample_evaluate) sample_runtime_state = (Inr v, s') \<and>
     run_action (sv_run v) = Proceed \<and> run_coverage (sv_run v) = [runtime_entry 2000] \<and> run_subject (sv_run v) = ''repo:a'' \<and>
     qs_records (er_qualified s') = [(sample_digest, runtime_record 2000)] \<and> qs_tombstoned (er_qualified s') = []"
proof -
  note c = steady_collection [unfolded steady_runtime_def]
  have "\<exists>v s'. evaluate_bound (sample_runtime (\<lambda>n. 2000) (\<lambda>n. runtime_candidate)) (sample_binding 2000)
      (sample_runtime_state\<lparr>er_reads := 1\<rparr>) = (Inr v, s') \<and> run_action (sv_run v) = Proceed \<and>
    run_coverage (sv_run v) = [runtime_entry 2000] \<and> run_subject (sv_run v) = ''repo:a'' \<and>
    er_qualified s' = \<lparr>qs_records = [(sample_digest, runtime_record 2000)], qs_tombstoned = [], qs_max = 20\<rparr>"
    using sample_bound_proceeds [OF c, of 2000] runtime_coverage(1) runtime_entries sample_state_update by simp
  then show ?thesis
    by (auto simp: evaluate_for_capability_def read_clock_def steady_runtime_def sample_checks)
      (simp_all add: sample_runtime_def sample_runtime_state_def)
qed

lemma ticking_evaluation:
  "\<exists>v s'. evaluate_for_capability ticking_runtime (Shaped sample_evaluate) sample_runtime_state = (Inr v, s') \<and>
     run_action (sv_run v) = Proceed \<and> run_coverage (sv_run v) = [runtime_entry 1100] \<and> run_subject (sv_run v) = ''repo:a'' \<and>
     er_qualified s' = er_qualified sample_runtime_state"
proof -
  note c = ticking_collection [unfolded ticking_runtime_def]
  have "\<exists>v s'. evaluate_bound (sample_runtime (\<lambda>n. 100 + 500 * int n) (\<lambda>n. runtime_candidate)) (sample_binding 100)
      (sample_runtime_state\<lparr>er_reads := 1\<rparr>) = (Inr v, s') \<and> run_action (sv_run v) = Proceed \<and>
    run_coverage (sv_run v) = [runtime_entry 1100] \<and> run_subject (sv_run v) = ''repo:a'' \<and>
    er_qualified s' = er_qualified sample_runtime_state"
    using sample_bound_proceeds [OF c, of 100] runtime_coverage(2) runtime_entries sample_state_update by simp
  then show ?thesis
    by (auto simp: evaluate_for_capability_def read_clock_def ticking_runtime_def sample_checks)
      (simp_all add: sample_runtime_def sample_runtime_state_def)
qed

section \<open>Properties\<close>

text \<open>C7: An evaluation is the server's own verdict on its own evidence. Whatever the providers answer, a returned
  evaluation is for the catalogued capability at the requested version, with the subject that the trusted
  resolver derives from the inputs and with the digests of the capability's requirements, of the
  inputs and of the final coverage; its assessment is that of the final coverage against the
  capability's requirements; it proceeds only if that coverage satisfies every mandatory requirement, and
  if it does not proceed although they are satisfied then the coverage is empty, which is how a failed
  collection is reported; and the run is found in the server's ledger.\<close>
theorem evaluation_verdict_trusted:
  assumes "evaluate_for_capability cfg (Shaped x) s = (Inr v, s')"
  shows "\<exists>q c p. parse_evaluate x = Some q \<and> rt_lookup cfg (vq_capability_id q) = Some c \<and>
    cap_version c = vq_capability_version q \<and> run_capability_id (sv_run v) = vq_capability_id q \<and>
    resolve_subject (rt_resolvers cfg) (vq_capability_id q) (vq_inputs q) = Inr (run_subject (sv_run v)) \<and>
    requirements_digest (rt_sha cfg) (cap_required_evidence c) = Inr (run_requirements_digest (sv_run v)) \<and>
    normalized_inputs_digest (rt_sha cfg) (vq_inputs q) = Inr (run_inputs_digest (sv_run v)) \<and>
    coverage_digest (rt_sha cfg) (run_coverage (sv_run v)) = Inr (run_coverage_digest (sv_run v)) \<and>
    sv_assessment v = assess_evidence_coverage (cap_required_evidence c) (run_coverage (sv_run v)) \<and>
    (run_action (sv_run v) = Proceed \<longrightarrow>
      list_all (satisfied_by (run_coverage (sv_run v))) (filter req_mandatory (cap_required_evidence c))) \<and>
    (list_all (satisfied_by (run_coverage (sv_run v))) (filter req_mandatory (cap_required_evidence c)) \<longrightarrow>
      run_action (sv_run v) = Proceed \<or> run_coverage (sv_run v) = []) \<and>
    parse_run (sv_run v) = Some p \<and> rs_get (er_runs s') (run_id p) = Some p"
  by (rule evaluate_run [OF assms]) blast

lemma evaluation_verdict_trusted_witness:
  "\<exists>v s' c. evaluate_for_capability steady_runtime (Shaped sample_evaluate) sample_runtime_state = (Inr v, s') \<and>
     rt_lookup steady_runtime ''git.branch.create'' = Some c \<and>
     list_all (satisfied_by (run_coverage (sv_run v))) (filter req_mandatory (cap_required_evidence c))"
proof -
  obtain v s' where v: "evaluate_for_capability steady_runtime (Shaped sample_evaluate) sample_runtime_state = (Inr v, s')"
    "run_action (sv_run v) = Proceed" using steady_evaluation by blast
  have "vq_capability_id sample_evaluate = ''git.branch.create''" by (simp add: sample_evaluate_def)
  then show ?thesis using evaluation_verdict_trusted [OF v(1)] v sample_parse_evaluate by auto
qed

text \<open>The guard over a callback with state is the guard over some fixed answers. The runtime's collection
  callback reads clocks, calls providers and writes ledgers; the result of the guard over it is the
  result of the guard over a function from round, coverage and requested classes to answers, so
  every property of the guard carries over to the runtime.\<close>
lemma guard_over_effects_refines_guard:
  "\<exists>answers. fst (run_evidence_guard_st raw callback w) = run_evidence_guard raw answers"
  by (rule guard_simulated)

text \<open>C8: No provider gets more into the evidence ledger than it was registered for. Start from a ledger in which
  every record is backed, and run any requests: every record still names a registered provider that
  declares its class, claims at most that provider's maximal level, was observed no later than it
  was qualified, and has the id that the core derives from provider, class, subject, source item and
  claim digest.\<close>
theorem evidence_ledger_backed:
  assumes "ledger_backed cfg (er_qualified s)"
  shows "ledger_backed cfg (er_qualified (fold (\<lambda>x t. snd (evaluate_for_capability cfg (Shaped x) t)) xs s))"
  using assms
proof (induction xs arbitrary: s)
  case (Cons x xs)
  obtain r s' where e: "evaluate_for_capability cfg (Shaped x) s = (r, s')" by fastforce
  have "ledger_backed cfg (er_qualified s')" using e
  proof (cases rule: evaluate_cases)
    case (bound b s1)
    obtain s2 g outs where k: "collects cfg s1 s2" "conclude cfg b g outs s2 = (r, s')"
      by (rule evaluate_bound_cases [OF bound(3)])
    then show ?thesis using Cons.prems collects_trans [OF bound(2) k(1)] conclude_qualified [OF k(2)]
      by (simp add: collects_def)
  qed (use Cons.prems in simp)
  then show ?case using Cons.IH e by simp
qed simp

lemma evidence_ledger_backed_witness:
  "ledger_backed steady_runtime (er_qualified (fold (\<lambda>x t. snd (evaluate_for_capability steady_runtime (Shaped x) t))
     [sample_evaluate, sample_evaluate] sample_runtime_state))"
  by (rule evidence_ledger_backed) (simp add: ledger_backed_def sample_runtime_state_def)

text \<open>C9: From an evaluation that proceeds to an executable plan. When an evaluation proceeds, materializing its run
  for the same request, in the state the evaluation left, succeeds exactly when two things hold: every evidence
  id of its coverage is in the ledger and not invalidated, and the subject that the trusted resolver derived has no
  surrounding white space, which the stored run has lost. No other check of the eligibility service
  can fail on it.\<close>
theorem proceeding_evaluation_materializes:
  assumes "evaluate_for_capability cfg (Shaped x) s = (Inr v, s')" "run_action (sv_run v) = Proceed"
  shows "(\<exists>el. materialize_evidence (rt_sha cfg) (service_of cfg s') now (Shaped (materialize_of v x)) = Inr el) \<longleftrightarrow>
    list_all (qs_has (er_qualified s')) (run_qualified_ids (sv_run v)) \<and> js_trim (run_subject (sv_run v)) = run_subject (sv_run v)"
  using proceeding_evaluation [OF assms] by blast

lemma run_ids_of_evaluation: "evaluate_for_capability cfg (Shaped x) s = (Inr v, s') \<Longrightarrow>
    run_qualified_ids (sv_run v) = collect_coverage_ids (run_coverage (sv_run v))"
  by (erule evaluate_run)

lemma subject_trimmed: "js_trim ''repo:a'' = ''repo:a''"
  by code_simp

lemma proceeding_evaluation_materializes_witness:
  "\<exists>v s' el. evaluate_for_capability steady_runtime (Shaped sample_evaluate) sample_runtime_state = (Inr v, s') \<and>
     materialize_evidence sample_sha (service_of steady_runtime s') 3000 (Shaped (materialize_of v sample_evaluate)) = Inr el"
proof -
  obtain v s' where v: "evaluate_for_capability steady_runtime (Shaped sample_evaluate) sample_runtime_state = (Inr v, s')"
    "run_action (sv_run v) = Proceed" "run_coverage (sv_run v) = [runtime_entry 2000]" "run_subject (sv_run v) = ''repo:a''"
    "qs_records (er_qualified s') = [(sample_digest, runtime_record 2000)]" "qs_tombstoned (er_qualified s') = []"
    using steady_evaluation by blast
  have "js_trim (run_subject (sv_run v)) = run_subject (sv_run v)" using v(4) subject_trimmed by simp
  moreover have "list_all (qs_has (er_qualified s')) (run_qualified_ids (sv_run v))"
    using run_ids_of_evaluation [OF v(1)] v(3,5,6) by (simp add: runtime_ids qs_has_def map_has_def)
  moreover have "rt_sha steady_runtime = sample_sha" by (simp add: steady_runtime_def sample_runtime_def)
  ultimately show ?thesis using proceeding_evaluation_materializes [OF v(1,2), of 3000] v(1) by auto
qed

text \<open>Evidence observed while it is being collected can be lost. The runtime qualifies for the ledger with
  a clock reading taken before it calls the provider, and builds the coverage with a reading taken
  after. With a clock that moves, a provider that observes during its call gives a coverage that the
  guard lets proceed, while the ledger stays empty; and materializing that evaluation fails.\<close>
lemma observation_during_collection_unusable:
  "\<exists>v s'. evaluate_for_capability ticking_runtime (Shaped sample_evaluate) sample_runtime_state = (Inr v, s') \<and>
     run_action (sv_run v) = Proceed \<and> er_qualified s' = er_qualified sample_runtime_state \<and>
     (\<forall>now el. materialize_evidence sample_sha (service_of ticking_runtime s') now (Shaped (materialize_of v sample_evaluate)) \<noteq> Inr el)"
proof -
  obtain v s' where v: "evaluate_for_capability ticking_runtime (Shaped sample_evaluate) sample_runtime_state = (Inr v, s')"
    "run_action (sv_run v) = Proceed" "run_coverage (sv_run v) = [runtime_entry 1100]" "run_subject (sv_run v) = ''repo:a''"
    "er_qualified s' = er_qualified sample_runtime_state"
    using ticking_evaluation by blast
  have "js_trim (run_subject (sv_run v)) = run_subject (sv_run v)" using v(4) subject_trimmed by simp
  moreover have "\<not> list_all (qs_has (er_qualified s')) (run_qualified_ids (sv_run v))"
    using run_ids_of_evaluation [OF v(1)] v(3,5) by (simp add: runtime_ids qs_has_def map_has_def sample_runtime_state_def)
  moreover have "rt_sha ticking_runtime = sample_sha" by (simp add: ticking_runtime_def sample_runtime_def)
  ultimately show ?thesis using proceeding_evaluation [OF v(1,2)] v(1,2,5) by auto
qed

end
