(* ===== verification/Revision_Service.thy ===== *)
theory Revision_Service
  imports Revision Verification_Runtime Evidence_Runtime Authorization_Lifecycle
begin

text \<open>
  The reopening of decisions (\<open>src/brain-server/src/revision/service.ts\<close>): a decision whose outcome was
  verified, mismatched or inconclusive is judged again on requalified evidence. The service composes the
  verification runtime, the evidence runtime, the plan authorization service and the revision store; its
  world is the states of the four. Clock readings and generated ids are arguments. A reopen is modelled as
  the part before the record is written, which runs alone, and the part that writes it; other requests may
  change the world in between.

  The members of a reopen result that are literals (no execution was started, nothing was retried, rolled
  back or reused) are left out of its record.
\<close>

section \<open>The evidence delta\<close>

definition ids_for_entry :: "coverage_entry option \<Rightarrow> string list" where
  "ids_for_entry x = (case x of None \<Rightarrow> []
     | Some e \<Rightarrow> sorted_unique (cov_evidence_ids e @ (case cov_conflict_ids e of None \<Rightarrow> [] | Some cs \<Rightarrow> cs)))"

text \<open>\<open>new Map(entries.map(...)).get(c)\<close>: the last entry of a class.\<close>

definition last_entry :: "coverage_snapshot \<Rightarrow> string \<Rightarrow> coverage_entry option" where
  "last_entry es c = map_of (rev (map (\<lambda>e. (cov_class e, e)) es)) c"

definition delta_category_of :: "coverage_entry option \<Rightarrow> coverage_entry option \<Rightarrow> delta_category" where
  "delta_category_of prior after = (case after of None \<Rightarrow> C_missing_now
     | Some a \<Rightarrow> if cov_status a = Missing then C_missing_now
       else (case prior of None \<Rightarrow> C_new
         | Some b \<Rightarrow> if cov_status a = Stale then C_stale_now
           else if cov_status a = Conflicted then C_conflicted_now
           else if cov_status b = cov_status a \<and> ids_for_entry prior = ids_for_entry after then C_unchanged
           else C_qualification_changed))"

definition delta_for :: "coverage_snapshot \<Rightarrow> coverage_snapshot \<Rightarrow> string \<Rightarrow> delta_entry" where
  "delta_for original current c = (let prior = last_entry original c; after = last_entry current c in
     \<lparr>ed_class = c, ed_category = delta_category_of prior after,
      ed_original_status = map_option (evidence_status_text \<circ> cov_status) prior,
      ed_current_status = map_option (evidence_status_text \<circ> cov_status) after,
      ed_original_ids = ids_for_entry prior, ed_current_ids = ids_for_entry after\<rparr>)"

definition build_evidence_delta :: "coverage_snapshot \<Rightarrow> coverage_snapshot \<Rightarrow> delta_entry list" where
  "build_evidence_delta original current =
     map (delta_for original current) (sorted_unique (map cov_class original @ map cov_class current))"

section \<open>Snapshots\<close>

definition plan_semantics_json :: "execution_plan \<Rightarrow> jsval" where
  "plan_semantics_json p = JObj
     [(''plan_id'', JStr (plan_id p)), (''decision_id'', JStr (plan_decision_id p)),
      (''capability_id'', JStr (plan_capability_id p)), (''capability_version'', JStr (plan_capability_version p)),
      (''adapter_id'', JStr (plan_adapter_id p)), (''normalized_inputs'', JObj (plan_normalized_inputs p)),
      (''risk_snapshot'', risk_json (plan_risk p)), (''evidence_coverage_snapshot'', coverage_json (plan_coverage p)),
      (''timeout_ms'', JInt (plan_timeout_ms p)),
      (''verification_plan'', nullable verification_plan_json (plan_verification_plan p)),
      (''rollback_plan'', nullable rollback_plan_json (plan_rollback_plan p))]"

definition snapshot_outcome :: "trusted_outcome \<Rightarrow> revision_outcome" where
  "snapshot_outcome t = \<lparr>ro_outcome_id = Some (tx_outcome_id t), ro_status = Some (tx_status t), ro_revisit = tx_revisit t,
     ro_receipt_id = Some (tx_receipt_id t), ro_receipt_digest = Some (tx_receipt_digest t),
     ro_expected_digest = tx_expected_digest t, ro_observation_digest = tx_observation_digest t,
     ro_observation_id = tx_observation_id t, ro_expected = tx_expected t, ro_observed = tx_observed t,
     ro_reasons = sorted_unique (tx_reasons t)\<rparr>"

definition take_original :: "(string \<Rightarrow> string) \<Rightarrow> plan_authorization \<Rightarrow> trusted_outcome \<Rightarrow> original_snapshot revision_result" where
  "take_original sha r t = (let p = pa_plan r in
     ebind (alien (json_digest sha (plan_semantics_json p))) (\<lambda>semantics.
     ebind (alien (json_digest sha (JObj (plan_normalized_inputs p)))) (\<lambda>inputs.
     ebind (alien (coverage_digest sha (plan_coverage p))) (\<lambda>coverage.
     Inr \<lparr>on_decision_id = plan_decision_id p,
       on_plan = \<lparr>op_plan_id = plan_id p, op_semantics_digest = semantics, op_capability_id = plan_capability_id p,
         op_capability_version = plan_capability_version p, op_adapter_id = plan_adapter_id p, op_inputs_digest = inputs,
         op_risk = plan_risk p, op_state = plan_state_text (plan_state p),
         op_approval_id = map_option ref_approval_id (plan_approval p), op_request_id = pa_request_id r\<rparr>,
       on_evidence = \<lparr>oe_guard_run_id = pa_guard_run_id r, oe_coverage = plan_coverage p, oe_digest = coverage,
         oe_qualified = collect_coverage_ids (plan_coverage p)\<rparr>,
       on_outcome = snapshot_outcome t\<rparr>))))"

definition take_current :: "surface_evaluation \<Rightarrow> current_evidence" where
  "take_current e = (let r = sv_run e in \<lparr>ce_guard_run_id = run_id r, ce_action = run_action r, ce_subject = run_subject r,
     ce_coverage = run_coverage r, ce_digest = run_coverage_digest r, ce_qualified = sorted_unique (run_qualified_ids r),
     ce_reasons = sorted_unique (map guard_reason_text (run_reasons r))\<rparr>)"

definition kernel_for :: "surface_evaluation \<Rightarrow> kernel_result" where
  "kernel_for e = run_decision_kernel \<lparr>ki_action = run_action (sv_run e),
     ki_mandatory_satisfied = as_mandatory_satisfied (sv_assessment e),
     ki_reasons = map guard_reason_text (run_reasons (sv_run e))\<rparr>"

section \<open>The request\<close>

record reopen_request =
  rq_decision :: string
  rq_reason :: "string option"
  rq_outcome :: "string option"

record reopen_actor =
  ra_id :: string
  ra_kind :: string
  ra_scope :: string

definition parse_reopen :: "reopen_request \<Rightarrow> reopen_request option" where
  "parse_reopen = parse_with (\<lambda>q. q\<lparr>rq_decision := js_trim (rq_decision q), rq_reason := trim_opt (rq_reason q),
       rq_outcome := trim_opt (rq_outcome q)\<rparr>)
     (\<lambda>q. len_ok 200 (rq_decision q) \<and> opt_ok reason_ok (rq_reason q) \<and> opt_ok (len_ok 200) (rq_outcome q))"

text \<open>The trigger, from the trusted status of the outcome; the text of the reason may be the owner's.\<close>

definition trigger_for :: "reopen_request \<Rightarrow> trusted_outcome \<Rightarrow> (trigger_type \<times> string) revision_result" where
  "trigger_for q t =
     (if rq_outcome q \<noteq> None \<and> rq_outcome q \<noteq> Some (tx_outcome_id t) then Inl (Throws REVISION_OUTCOME_NOT_BOUND)
      else (case tx_status t of
        V_mismatch \<Rightarrow> if \<not> tx_revisit t then Inl (Throws REVISION_CONTEXT_INVALID)
          else Inr (T_mismatch, case rq_reason q of None \<Rightarrow> ''trusted outcome mismatch requires a new judgment'' | Some x \<Rightarrow> x)
      | V_inconclusive \<Rightarrow> if \<not> tx_revisit t then Inl (Throws REVISION_CONTEXT_INVALID)
          else Inr (T_inconclusive, case rq_reason q of None \<Rightarrow> ''trusted outcome is inconclusive and requires a new judgment''
            | Some x \<Rightarrow> x)
      | V_verified \<Rightarrow> (case rq_reason q of None \<Rightarrow> Inl (Throws REVISION_REASON_REQUIRED)
          | Some x \<Rightarrow> Inr (T_reconsideration, x))
      | _ \<Rightarrow> Inl (Throws REVISION_NOT_ELIGIBLE)))"

section \<open>The world\<close>

record revision_config =
  dr_sha :: "string \<Rightarrow> string"
  dr_evidence :: runtime_config
  dr_auth :: authorization_config

record decision_world =
  dw_store :: revision_store
  dw_plans :: authorization_store
  dw_evidence :: runtime_state
  dw_verification :: verification_runtime

text \<open>
  The authorization service asks the eligibility service, which reads the ledgers of the evidence runtime
  as they are when it is asked.
\<close>

definition auth_over :: "revision_config \<Rightarrow> runtime_state \<Rightarrow> int \<Rightarrow> authorization_config" where
  "auth_over cfg es now = (dr_auth cfg)\<lparr>ac_eligible := materialize_evidence (dr_sha cfg)
     \<lparr>es_runs = er_runs es, es_qualified = er_qualified es, es_lookup = rt_lookup (dr_evidence cfg),
      es_resolvers = rt_resolvers (dr_evidence cfg)\<rparr> now\<rparr>"

record reopen_inputs =
  rn_revision :: string
  rn_decision :: string
  rn_plan :: string
  rn_request :: string
  rn_now :: "int option"
  rn_auth_now :: "int option"
  rn_eligible_now :: int

record reopen_result =
  rr_id :: string
  rr_root :: string
  rr_parent :: string
  rr_index :: int
  rr_trigger :: trigger_type
  rr_outcome_id :: "string option"
  rr_digest :: string
  rr_new_decision :: string
  rr_disposition :: disposition
  rr_new_plan :: "string option"
  rr_request_id :: "string option"
  rr_needs_approval :: bool
  rr_created :: bool

definition result_from_record :: "revision \<Rightarrow> bool \<Rightarrow> string option \<Rightarrow> reopen_result revision_result" where
  "result_from_record r created request =
     ebind (require (rv_new_decision r) REVISION_PERSISTENCE_FAILURE) (\<lambda>n.
     ebind (require (rv_disposition r) REVISION_PERSISTENCE_FAILURE) (\<lambda>d.
     Inr \<lparr>rr_id = rv_id r, rr_root = rv_root r, rr_parent = rv_parent r, rr_index = rv_index r, rr_trigger = rv_trigger r,
       rr_outcome_id = rv_outcome_id r, rr_digest = rv_context_digest r, rr_new_decision = n, rr_disposition = d,
       rr_new_plan = rv_new_plan r, rr_request_id = request, rr_needs_approval = (d = D_decide), rr_created = created\<rparr>))"

definition find_single_authorization :: "authorization_store \<Rightarrow> string \<Rightarrow> plan_authorization revision_result" where
  "find_single_authorization s d = (case filter (\<lambda>r. plan_decision_id (pa_plan r) = d) (az_list s) of
     [] \<Rightarrow> Inl (Throws REVISION_DECISION_NOT_FOUND) | [r] \<Rightarrow> Inr r | _ \<Rightarrow> Inl (Throws REVISION_CONTEXT_INVALID))"

definition control_reopen_scope :: string where
  "control_reopen_scope = ''control:reopen''"

section \<open>Preparing a reopen\<close>

text \<open>What is known before evidence is collected: the intent, and the stored revision of the same intent, if any.\<close>

record reopen_intent =
  rt_request :: reopen_request
  rt_authorization :: plan_authorization
  rt_source :: trusted_outcome
  rt_trigger :: "trigger_type \<times> string"
  rt_root :: string
  rt_digest :: string

definition reopen_intent_of :: "revision_config \<Rightarrow> reopen_request raw \<Rightarrow> reopen_actor \<Rightarrow> decision_world \<Rightarrow> reopen_intent revision_result" where
  "reopen_intent_of cfg raw actor w =
     ebind (safe_parse REVISION_INPUT_INVALID parse_reopen raw) (\<lambda>q.
     ebind (guarded (ra_id actor = ''local-owner'' \<and> ra_kind actor = ''owner'') REVISION_AUTHORITY_REQUIRED) (\<lambda>_.
     ebind (guarded (ra_scope actor = control_reopen_scope) REVISION_SCOPE_INSUFFICIENT) (\<lambda>_.
     ebind (find_single_authorization (dw_plans w) (rq_decision q)) (\<lambda>a.
     ebind (require (trusted_outcome_of (plan_id (pa_plan a)) (dw_verification w)) REVISION_OUTCOME_NOT_BOUND) (\<lambda>t.
     ebind (trigger_for q t) (\<lambda>trig.
     ebind (get_for_new_decision (dw_store w) (rq_decision q)) (\<lambda>parent.
     (let root = (case parent of None \<Rightarrow> rq_decision q | Some r \<Rightarrow> rv_root r) in
     ebind (alien (json_digest (dr_sha cfg) (intent_json root (rq_decision q) (fst trig) (Some (tx_outcome_id t)) (snd trig) (ra_id actor)))) (\<lambda>d.
       Inr \<lparr>rt_request = q, rt_authorization = a, rt_source = t, rt_trigger = trig, rt_root = root, rt_digest = d\<rparr>)))))))))"

text \<open>The record the evaluation leads to, for a plan that was prepared or not.\<close>

definition revision_for ::
  "reopen_intent \<Rightarrow> reopen_actor \<Rightarrow> reopen_inputs \<Rightarrow> nat \<Rightarrow> revision_doc \<Rightarrow> string \<Rightarrow> disposition \<Rightarrow> string option \<Rightarrow> int \<Rightarrow> revision" where
  "revision_for t actor x n doc digest disp plan now =
     \<lparr>rv_id = ''rev-'' @ rn_revision x, rv_root = rt_root t, rv_parent = rq_decision (rt_request t), rv_index = int n + 1,
      rv_trigger = fst (rt_trigger t), rv_outcome_id = Some (tx_outcome_id (rt_source t)), rv_reason = snd (rt_trigger t),
      rv_requested_by = ra_id actor, rv_authorized_by = ra_id actor, rv_opened_at = Iso now, rv_status = R_decided,
      rv_context_digest = digest, rv_context = doc, rv_new_decision = Some (''decision-revision-'' @ rn_decision x),
      rv_disposition = Some disp, rv_new_plan = plan, rv_resolved_at = Some (Iso now), rv_idempotency = rt_digest t\<rparr>"

definition revision_request :: "reopen_intent \<Rightarrow> surface_evaluation \<Rightarrow> reopen_inputs \<Rightarrow> authorization_request" where
  "revision_request t e x = (let p = pa_plan (rt_authorization t) in
     \<lparr>ar_decision_id = ''decision-revision-'' @ rn_decision x, ar_capability_id = plan_capability_id p,
      ar_capability_version = plan_capability_version p, ar_adapter_id = plan_adapter_id p, ar_inputs = plan_normalized_inputs p,
      ar_guard_run_id = run_id (sv_run e), ar_timeout_ms = plan_timeout_ms p, ar_verification_plan = plan_verification_plan p,
      ar_rollback_plan = plan_rollback_plan p, ar_requested_by = Some ''revision-lifecycle'',
      ar_correlation_id = Some (''revision:rev-'' @ rn_revision x), ar_expires_at = None\<rparr>)"

definition reopen_doc ::
  "reopen_intent \<Rightarrow> original_snapshot \<Rightarrow> surface_evaluation \<Rightarrow> revision_doc revision_result" where
  "reopen_doc t original e = zod (parse_doc
     \<lparr>dc_root = rt_root t, dc_parent = rq_decision (rt_request t), dc_original = original, dc_trigger = fst (rt_trigger t),
      dc_outcome_id = Some (tx_outcome_id (rt_source t)), dc_reason = snd (rt_trigger t), dc_current = take_current e,
      dc_delta = build_evidence_delta (oe_coverage (on_evidence original)) (ce_coverage (take_current e)),
      dc_kernel_id = kr_kernel_id (kernel_for e)\<rparr>)"

text \<open>\<open>catch\<close>: a revision error passes, any other becomes a persistence failure.\<close>

definition settle_error :: "'a revision_result \<Rightarrow> 'a revision_result" where
  "settle_error r = (case r of Inl (Throws e) \<Rightarrow> Inl (Throws e) | Inl _ \<Rightarrow> Inl (Throws REVISION_PERSISTENCE_FAILURE) | Inr v \<Rightarrow> Inr v)"

text \<open>A prepared revision: its record, and the plan that is not committed yet with its approval request.\<close>

record prepared_revision =
  pv_record :: revision
  pv_plan :: "string option"
  pv_request_id :: "string option"

definition prepare_plan ::
  "revision_config \<Rightarrow> reopen_intent \<Rightarrow> surface_evaluation \<Rightarrow> reopen_inputs \<Rightarrow> runtime_state \<Rightarrow> authorization_store \<Rightarrow>
   (string option \<times> string option \<times> authorization_store) revision_result" where
  "prepare_plan cfg t e x es s =
     (if kr_disposition (kernel_for e) \<noteq> D_decide then Inr (None, None, s)
      else ebind (alien (authorize_internal (dr_sha cfg) (auth_over cfg es (rn_eligible_now x)) True (rn_auth_now x) (rn_plan x)
          (rn_request x) (Shaped (revision_request t e x)) s)) (\<lambda>(res, s').
        Inr (Some (plan_id (ares_plan res)), map_option apr_id (ares_request res), s')))"

definition discard_prepared :: "string option \<Rightarrow> string \<Rightarrow> authorization_store \<Rightarrow> authorization_store" where
  "discard_prepared plan d s = (case plan of None \<Rightarrow> s | Some p \<Rightarrow> snd (discard_uncommitted_revision_plan p d s))"

text \<open>From the evaluation to the prepared record. A record the schema refuses takes its plan back.\<close>

definition prepare_record ::
  "revision_config \<Rightarrow> reopen_intent \<Rightarrow> reopen_actor \<Rightarrow> reopen_inputs \<Rightarrow> nat \<Rightarrow> original_snapshot \<Rightarrow> surface_evaluation \<Rightarrow>
   decision_world \<Rightarrow> prepared_revision revision_result \<times> decision_world" where
  "prepare_record cfg t actor x n original e w =
     (case ebind (reopen_doc t original e) (\<lambda>doc. ebind (require (rn_now x) REVISION_PERSISTENCE_FAILURE) (\<lambda>now. Inr (doc, now))) of
       Inl err \<Rightarrow> (Inl err, w)
     | Inr (doc, now) \<Rightarrow>
       (case prepare_plan cfg t e x (dw_evidence w) (dw_plans w) of
          Inl err \<Rightarrow> (settle_error (Inl err), w)
        | Inr (plan, request, s) \<Rightarrow>
          (case ebind (alien (json_digest (dr_sha cfg) (doc_json doc))) (\<lambda>d.
               zod (parse_revision (revision_for t actor x n doc d (kr_disposition (kernel_for e)) plan now))) of
             Inl err \<Rightarrow> (settle_error (Inl err), w\<lparr>dw_plans := discard_prepared plan (''decision-revision-'' @ rn_decision x) s\<rparr>)
           | Inr r \<Rightarrow> (Inr \<lparr>pv_record = r, pv_plan = plan, pv_request_id = request\<rparr>, w\<lparr>dw_plans := s\<rparr>))))"

definition reopen_evaluation ::
  "revision_config \<Rightarrow> reopen_intent \<Rightarrow> decision_world \<Rightarrow> surface_evaluation revision_result \<times> decision_world" where
  "reopen_evaluation cfg t w = (let p = pa_plan (rt_authorization t) in
     case evaluate_for_capability (dr_evidence cfg) (Shaped \<lparr>vq_capability_id = plan_capability_id p,
         vq_capability_version = plan_capability_version p, vq_inputs = plan_normalized_inputs p,
         vq_correlation = Some (''revision-context:'' @ take 32 (sha256_hex (dr_sha cfg) (rq_decision (rt_request t))))\<rparr>) (dw_evidence w) of
       (Inl err, es) \<Rightarrow> (Inl (Throws REVISION_EVIDENCE_REQUALIFICATION_FAILED), w\<lparr>dw_evidence := es\<rparr>)
     | (Inr e, es) \<Rightarrow> (Inr e, w\<lparr>dw_evidence := es\<rparr>))"

text \<open>The whole first part: the answer of a repeated intent, or the prepared revision.\<close>

datatype preparation = Repeated revision | Prepared prepared_revision

definition reopen_prepare ::
  "revision_config \<Rightarrow> reopen_request raw \<Rightarrow> reopen_actor \<Rightarrow> reopen_inputs \<Rightarrow> decision_world \<Rightarrow>
   preparation revision_result \<times> decision_world" where
  "reopen_prepare cfg raw actor x w =
     (case reopen_intent_of cfg raw actor w of
       Inl err \<Rightarrow> (Inl err, w)
     | Inr t \<Rightarrow> (case get_by_idempotency (dw_store w) (rt_digest t) of
         Inl err \<Rightarrow> (Inl err, w)
       | Inr (Some r) \<Rightarrow> (Inr (Repeated r), w)
       | Inr None \<Rightarrow>
         (case ebind (list_for_root (dw_store w) (rt_root t)) (\<lambda>ch.
              ebind (guarded (ch = [] \<or> rv_new_decision (last ch) = Some (rq_decision (rt_request t))) REVISION_FORK_BLOCKED) (\<lambda>_.
              ebind (take_original (dr_sha cfg) (rt_authorization t) (rt_source t)) (\<lambda>o1. Inr (length ch, o1)))) of
            Inl err \<Rightarrow> (Inl err, w)
          | Inr (n, original) \<Rightarrow>
            (case reopen_evaluation cfg t w of
               (Inl err, w1) \<Rightarrow> (Inl err, w1)
             | (Inr e, w1) \<Rightarrow>
               (case prepare_record cfg t actor x n original e w1 of
                  (Inl err, w2) \<Rightarrow> (Inl err, w2) | (Inr p, w2) \<Rightarrow> (Inr (Prepared p), w2))))))"

section \<open>Committing\<close>

text \<open>
  The record is written, or the revision of the same intent that another request wrote meanwhile is found;
  unless it was written, the uncommitted plan is taken back.
\<close>

definition commit_prepared ::
  "revision_config \<Rightarrow> prepared_revision \<Rightarrow> decision_world \<Rightarrow> reopen_result revision_result \<times> decision_world" where
  "commit_prepared cfg p w =
     (let r = pv_record p; d = (case rv_new_decision r of None \<Rightarrow> [] | Some n \<Rightarrow> n);
          undone = w\<lparr>dw_plans := discard_prepared (pv_plan p) d (dw_plans w)\<rparr> in
      case create_resolved_or_get (dr_sha cfg) (Shaped r) (dw_store w) of
        Inl e \<Rightarrow> (settle_error (Inl e), undone)
      | Inr (saved, created, st) \<Rightarrow>
          (if created then (case result_from_record saved True (pv_request_id p) of
               Inl e \<Rightarrow> (settle_error (Inl e), undone\<lparr>dw_store := st\<rparr>)
             | Inr res \<Rightarrow> (Inr res, w\<lparr>dw_store := st\<rparr>))
           else (settle_error (result_from_record saved False None), undone\<lparr>dw_store := st\<rparr>)))"

definition reopen_commit ::
  "revision_config \<Rightarrow> preparation \<Rightarrow> decision_world \<Rightarrow> reopen_result revision_result \<times> decision_world" where
  "reopen_commit cfg p w = (case p of Repeated r \<Rightarrow> (result_from_record r False None, w) | Prepared q \<Rightarrow> commit_prepared cfg q w)"

text \<open>A reopen with nothing in between.\<close>

definition reopen ::
  "revision_config \<Rightarrow> reopen_request raw \<Rightarrow> reopen_actor \<Rightarrow> reopen_inputs \<Rightarrow> decision_world \<Rightarrow>
   reopen_result revision_result \<times> decision_world" where
  "reopen cfg raw actor x w = (case reopen_prepare cfg raw actor x w of
     (Inl e, w1) \<Rightarrow> (Inl e, w1) | (Inr p, w1) \<Rightarrow> reopen_commit cfg p w1)"

section \<open>The projection with the state of the new plan\<close>

definition service_projection :: "decision_world \<Rightarrow> string \<Rightarrow> revision_projection option revision_result" where
  "service_projection w d =
     ebind (store_projection (dw_store w) d) (\<lambda>p. case p of None \<Rightarrow> Inr None
     | Some pr \<Rightarrow> ebind (get_for_new_decision (dw_store w) (rp_current pr)) (\<lambda>latest.
         Inr (Some (pr\<lparr>rp_pending := (case Option.bind latest rv_new_plan of None \<Rightarrow> Some False
           | Some plan \<Rightarrow> map_option (\<lambda>a. plan_state (pa_plan a) = Awaiting_approval \<and>
               map_option apr_status (pa_request a) = Some Pending) (az_get (dw_plans w) plan))\<rparr>))))"

section \<open>Lemmas on the delta\<close>

lemma ids_for_entry_eq: "ids_for_entry (Some a) = ids_for_entry (Some b) \<longleftrightarrow> set (ids_for_entry (Some a)) = set (ids_for_entry (Some b))"
  unfolding ids_for_entry_def option.case
  by (metis distinct_sorted_unique sorted_sorted_unique sorted_distinct_set_unique)

lemma last_entry_None: "last_entry es c = None \<longleftrightarrow> c \<notin> cov_class ` set es"
  unfolding last_entry_def map_of_eq_None_iff by (auto simp: image_image)

text \<open>C27: The evidence delta is total and exact. It has one entry for each class of either snapshot, sorted and without
  repetition. A class is reported unchanged exactly when both snapshots have it with the same status, present or
  unverified, and the same set of evidence and conflict ids; it is reported missing exactly when the current
  snapshot does not have it or has it as missing, and new exactly when only the current snapshot has it.\<close>

theorem evidence_delta_exact:
  "sorted (map ed_class (build_evidence_delta original current)) \<and> distinct (map ed_class (build_evidence_delta original current)) \<and>
   ed_class ` set (build_evidence_delta original current) = cov_class ` (set original \<union> set current) \<and>
   (\<forall>x \<in> set (build_evidence_delta original current).
     (ed_category x = C_unchanged \<longleftrightarrow> (\<exists>b a. last_entry original (ed_class x) = Some b \<and> last_entry current (ed_class x) = Some a \<and>
        cov_status b = cov_status a \<and> cov_status a \<in> {Present, Unverified} \<and>
        set (ids_for_entry (Some b)) = set (ids_for_entry (Some a)))) \<and>
     (ed_category x = C_missing_now \<longleftrightarrow> (\<forall>a. last_entry current (ed_class x) = Some a \<longrightarrow> cov_status a = Missing)) \<and>
     (ed_category x = C_new \<longleftrightarrow> ed_class x \<notin> cov_class ` set original \<and>
        (\<exists>a. last_entry current (ed_class x) = Some a \<and> cov_status a \<noteq> Missing)))"
proof -
  let ?cs = "sorted_unique (map cov_class original @ map cov_class current)"
  have cls: "map ed_class (build_evidence_delta original current) = ?cs"
    by (simp add: build_evidence_delta_def comp_def delta_for_def Let_def)
  have "ed_class ` set (build_evidence_delta original current) = cov_class ` (set original \<union> set current)"
    using arg_cong [OF cls, of set] by (auto simp: image_Un)
  moreover have "(ed_category x = C_unchanged \<longleftrightarrow> (\<exists>b a. last_entry original (ed_class x) = Some b \<and>
        last_entry current (ed_class x) = Some a \<and> cov_status b = cov_status a \<and> cov_status a \<in> {Present, Unverified} \<and>
        set (ids_for_entry (Some b)) = set (ids_for_entry (Some a)))) \<and>
     (ed_category x = C_missing_now \<longleftrightarrow> (\<forall>a. last_entry current (ed_class x) = Some a \<longrightarrow> cov_status a = Missing)) \<and>
     (ed_category x = C_new \<longleftrightarrow> ed_class x \<notin> cov_class ` set original \<and>
        (\<exists>a. last_entry current (ed_class x) = Some a \<and> cov_status a \<noteq> Missing))"
    if "x \<in> set (build_evidence_delta original current)" for x
  proof -
    have x: "x = delta_for original current (ed_class x)"
      using that by (auto simp: build_evidence_delta_def delta_for_def Let_def)
    have cat: "ed_category x = delta_category_of (last_entry original (ed_class x)) (last_entry current (ed_class x))"
      using arg_cong [OF x, of ed_category] by (simp add: delta_for_def Let_def)
    show ?thesis
    proof (cases "last_entry current (ed_class x)"; cases "last_entry original (ed_class x)")
      fix a b assume ab: "last_entry current (ed_class x) = Some a" "last_entry original (ed_class x) = Some b"
      have "ed_class x \<in> cov_class ` set original" using ab(2) last_entry_None [of original "ed_class x"] by auto
      then show ?thesis using ab cat ids_for_entry_eq [of b a]
        by (cases "cov_status a") (auto simp: delta_category_of_def)
    qed (use cat last_entry_None [of original "ed_class x"] in \<open>auto simp: delta_category_of_def\<close>)
  qed
  ultimately show ?thesis using cls by simp
qed

section \<open>Lemmas on the uncommitted plan\<close>

text \<open>An id generated by \<open>randomUUID\<close> has no white space.\<close>

definition ids_trimmed :: "reopen_inputs \<Rightarrow> bool" where
  "ids_trimmed x \<longleftrightarrow> js_trim (''decision-revision-'' @ rn_decision x) = ''decision-revision-'' @ rn_decision x \<and>
     js_trim (''plan-'' @ rn_plan x) = ''plan-'' @ rn_plan x"

lemma forced_authorization:
  assumes "authorize_internal sha cfg True clock u v (Shaped a) s = Inr (res, s')"
  obtains n where "az_get s (plan_id (ares_plan res)) = None" "az_get s' (plan_id (ares_plan res)) = Some n"
    "\<And>j. j \<noteq> plan_id (ares_plan res) \<Longrightarrow> az_get s' j = az_get s j" "plan_id (pa_plan n) = plan_id (ares_plan res)"
    "discardable n (js_trim (ar_decision_id a))" "pa_request n = ares_request res" "plan_id (ares_plan res) = ''plan-'' @ u"
    "map_values (az_records s') = map_values (az_records s) @ [n]"
proof -
  from assms show ?thesis
  proof (cases rule: authorize_Inr)
    case (1 q now c e risk expires p digest request n)
    have p: "p = norm_plan (plan_candidate q e risk True u now expires)"
      using 1(8) by (auto simp: validate_plan_Inr parse_plan_def parse_with_Some)
    have q: "ar_decision_id q = js_trim (ar_decision_id a)"
      using 1(1) by (auto simp: safe_parse_Inr parse_authorization_request_def parse_with_Some norm_request_def)
    have pid: "plan_id p = ''plan-'' @ u" "plan_state p = Awaiting_approval" "plan_approval p = None"
      "plan_decision_id p = js_trim (ar_decision_id a)"
      unfolding p by (simp_all add: plan_candidate_def norm_plan_def q)
    have n: "plan_id (pa_plan n) = plan_id p" "pa_grant n = None" "plan_state (pa_plan n) = Awaiting_approval"
      "plan_approval (pa_plan n) = None" "plan_decision_id (pa_plan n) = js_trim (ar_decision_id a)"
      "map_option apr_status (pa_request n) = Some Pending" "pa_request n = request"
      unfolding 1(11) by (simp_all add: norm_authorization_def pid norm_plan_def 1(10) approval_request_for_def norm_approval_request_def)
    have put: "az_get s (plan_id p) = None" "s' = s\<lparr>az_records := map_set (plan_id p) n (az_records s)\<rparr>"
      using 1(12,13) n(1) by (auto simp: az_put_Inr az_get_def map_has_def)
    have appended: "map_values (az_records s') = map_values (az_records s) @ [n]"
      using put by (simp add: az_get_def map_set_fresh)
    show ?thesis
      by (rule that [of n]) (use n pid put 1(14) appended in \<open>auto simp: az_get_def map_get_set discardable_def\<close>)
  qed
qed

lemma prepare_plan_effect:
  assumes "prepare_plan cfg t e x es s = Inr (plan, request, s')"
  shows "case plan of
      None \<Rightarrow> s' = s \<and> kr_disposition (kernel_for e) \<noteq> D_decide
    | Some p \<Rightarrow> kr_disposition (kernel_for e) = D_decide \<and> p = ''plan-'' @ rn_plan x \<and> az_get s p = None \<and>
        (\<exists>n. az_get s' p = Some n \<and> plan_id (pa_plan n) = p \<and> discardable n (js_trim (''decision-revision-'' @ rn_decision x)) \<and>
          map_option apr_id (pa_request n) = request) \<and> (\<forall>j. j \<noteq> p \<longrightarrow> az_get s' j = az_get s j)"
proof (cases "kr_disposition (kernel_for e) = D_decide")
  case False
  then show ?thesis using assms by (auto simp: prepare_plan_def)
next
  case True
  then obtain res where a: "authorize_internal (dr_sha cfg) (auth_over cfg es (rn_eligible_now x)) True (rn_auth_now x) (rn_plan x)
      (rn_request x) (Shaped (revision_request t e x)) s = Inr (res, s')"
    and r: "plan = Some (plan_id (ares_plan res))" "request = map_option apr_id (ares_request res)"
    using assms by (auto simp: prepare_plan_def split: prod.splits)
  have d: "ar_decision_id (revision_request t e x) = ''decision-revision-'' @ rn_decision x"
    by (simp add: revision_request_def Let_def)
  from forced_authorization [OF a] obtain n where
    "az_get s (plan_id (ares_plan res)) = None" "az_get s' (plan_id (ares_plan res)) = Some n"
    "\<And>j. j \<noteq> plan_id (ares_plan res) \<Longrightarrow> az_get s' j = az_get s j" "plan_id (pa_plan n) = plan_id (ares_plan res)"
    "discardable n (js_trim (''decision-revision-'' @ rn_decision x))" "pa_request n = ares_request res"
    "plan_id (ares_plan res) = ''plan-'' @ rn_plan x"
    unfolding d by metis
  then show ?thesis using True r by auto
qed

text \<open>The plan prepared for a new decision is not found under any other decision.\<close>

lemma find_single_appended:
  assumes "map_values (az_records s') = map_values (az_records s) @ [n]" "plan_decision_id (pa_plan n) \<noteq> d"
  shows "find_single_authorization s' d = find_single_authorization s d"
  using assms by (simp add: find_single_authorization_def az_list_def filter_sort)

lemma prepare_plan_find_single:
  assumes "prepare_plan cfg t e x es s = Inr (plan, request, s')" "ids_trimmed x" "d \<noteq> ''decision-revision-'' @ rn_decision x"
  shows "find_single_authorization s' d = find_single_authorization s d"
proof (cases "kr_disposition (kernel_for e) = D_decide")
  case False
  then show ?thesis using assms(1) by (simp add: prepare_plan_def)
next
  case True
  then obtain res where a: "authorize_internal (dr_sha cfg) (auth_over cfg es (rn_eligible_now x)) True (rn_auth_now x) (rn_plan x)
      (rn_request x) (Shaped (revision_request t e x)) s = Inr (res, s')"
    using assms(1) by (auto simp: prepare_plan_def split: prod.splits)
  have dd: "js_trim (ar_decision_id (revision_request t e x)) = ''decision-revision-'' @ rn_decision x"
    using assms(2) by (simp add: revision_request_def Let_def ids_trimmed_def)
  obtain n where "discardable n (''decision-revision-'' @ rn_decision x)" "map_values (az_records s') = map_values (az_records s) @ [n]"
    using forced_authorization [OF a] unfolding dd by metis
  then show ?thesis using assms(3) by (intro find_single_appended) (auto simp: discardable_def)
qed

text \<open>Taking the plan back restores every lookup.\<close>

lemma discard_restores:
  assumes "prepare_plan cfg t e x es s = Inr (plan, request, s')" "ids_trimmed x"
  shows "az_get (discard_prepared plan (''decision-revision-'' @ rn_decision x) s') j = az_get s j"
  using prepare_plan_effect [OF assms(1)] assms(2)
  by (auto simp: discard_prepared_def discard_uncommitted_revision_plan_def az_discard_uncommitted_def ids_trimmed_def
      az_get_def map_get_delete split: option.splits)

section \<open>The effect of a reopen\<close>

lemma transaction_effect:
  assumes "revision_transaction r n s = Inr (saved, created, s')"
  shows "if created then saved = r \<and> db_revisions s' = db_revisions s @ [r] else s' = s"
proof -
  obtain ex where ex: "get_by_idempotency s (rv_idempotency r) = Inr ex"
    using assms unfolding revision_transaction_def ebind_Inr_iff by blast
  show ?thesis
  proof (cases ex)
    case (Some x)
    then show ?thesis using assms ex by (simp add: revision_transaction_def)
  next
    case None
    have "\<exists>s1. insert_revision r s = Inr s1 \<and> Inr (r, True, s1) = (Inr (saved, created, s') :: (revision \<times> bool \<times> revision_store) revision_result)"
      using assms ex None unfolding revision_transaction_def ebind_Inr_iff by auto
    then show ?thesis by (auto simp: insert_revision_def split: if_splits)
  qed
qed

lemma create_effect:
  assumes "create_resolved_or_get sha (Shaped r) s = Inr (saved, created, s')"
  shows "if created then parse_revision r = Some saved \<and> wellformed_row saved \<and> rv_status saved = R_decided \<and>
      db_revisions s' = db_revisions s @ [saved] else s' = s"
proof -
  obtain q n where q: "prepared sha (Shaped r) q" "revision_transaction q n s = Inr (saved, created, s')"
    using assms unfolding create_iff by blast
  then show ?thesis using transaction_effect [OF q(2)]
    by (auto simp: prepared_def row_sound_def)
qed

lemma decided_result:
  assumes "wellformed_row r" "rv_status r = R_decided"
  obtains n d res where "rv_new_decision r = Some n" "rv_disposition r = Some d" "result_from_record r b request = Inr res"
    "rr_created res = b" "rr_id res = rv_id r" "rr_new_plan res = rv_new_plan r" "rr_new_decision res = n" "rr_disposition res = d"
    "rr_needs_approval res = (d = D_decide)" "rr_root res = rv_root r" "rr_parent res = rv_parent r"
proof -
  have "rv_new_decision r \<noteq> None" "rv_disposition r \<noteq> None"
    using assms by (auto simp: wellformed_row_def revision_ok_def revision_status_ok_def)
  then obtain n d where nd: "rv_new_decision r = Some n" "rv_disposition r = Some d" by blast
  let ?res = "\<lparr>rr_id = rv_id r, rr_root = rv_root r, rr_parent = rv_parent r, rr_index = rv_index r, rr_trigger = rv_trigger r,
       rr_outcome_id = rv_outcome_id r, rr_digest = rv_context_digest r, rr_new_decision = n, rr_disposition = d,
       rr_new_plan = rv_new_plan r, rr_request_id = request, rr_needs_approval = (d = D_decide), rr_created = b\<rparr>"
  have "result_from_record r b request = Inr ?res" using nd by (simp add: result_from_record_def)
  then show ?thesis using that [OF nd, of ?res] by simp
qed

lemma prepare_record_cases:
  assumes "prepare_record cfg t actor x n original e w = (res, w')" "ids_trimmed x"
  obtains (refused) err where "res = Inl err" "dw_store w' = dw_store w" "dw_verification w' = dw_verification w"
      "\<And>j. az_get (dw_plans w') j = az_get (dw_plans w) j"
  | (prepared) p doc now d s where "res = Inr p" "w' = w\<lparr>dw_plans := s\<rparr>" "reopen_doc t original e = Inr doc"
      "prepare_plan cfg t e x (dw_evidence w) (dw_plans w) = Inr (pv_plan p, pv_request_id p, s)"
      "parse_revision (revision_for t actor x n doc d (kr_disposition (kernel_for e)) (pv_plan p) now) = Some (pv_record p)"
proof (cases "ebind (reopen_doc t original e) (\<lambda>doc. ebind (require (rn_now x) REVISION_PERSISTENCE_FAILURE) (\<lambda>now. Inr (doc, now)))")
  case (Inl err)
  then show ?thesis using assms(1) refused [of err] by (simp add: prepare_record_def)
next
  case (Inr dn)
  obtain doc now where dn: "dn = (doc, now)" by (cases dn)
  have doc: "reopen_doc t original e = Inr doc" using Inr dn by (auto simp: ebind_Inr_iff)
  show ?thesis
  proof (cases "prepare_plan cfg t e x (dw_evidence w) (dw_plans w)")
    case (Inl err)
    then have "w' = w" "res = settle_error (Inl err)" using assms(1) Inr dn by (simp_all add: prepare_record_def)
    then show ?thesis using refused by (cases err) (auto simp: settle_error_def)
  next
    case prep: (Inr prs)
    obtain plan request s where prs: "prs = (plan, request, s)" by (cases prs)
    let ?rec = "ebind (alien (json_digest (dr_sha cfg) (doc_json doc))) (\<lambda>d.
        zod (parse_revision (revision_for t actor x n doc d (kr_disposition (kernel_for e)) plan now)))"
    show ?thesis
    proof (cases ?rec)
      case (Inl err)
      then have "w' = w\<lparr>dw_plans := discard_prepared plan (''decision-revision-'' @ rn_decision x) s\<rparr>" "res = settle_error (Inl err)"
        using assms(1) Inr dn prep prs by (simp_all add: prepare_record_def)
      then show ?thesis using refused discard_restores [OF prep [unfolded prs] assms(2)]
        by (cases err) (auto simp: settle_error_def)
    next
      case rec: (Inr r)
      then obtain d where "parse_revision (revision_for t actor x n doc d (kr_disposition (kernel_for e)) plan now) = Some r"
        by (auto simp: ebind_Inr_iff)
      moreover have "res = Inr \<lparr>pv_record = r, pv_plan = plan, pv_request_id = request\<rparr>" "w' = w\<lparr>dw_plans := s\<rparr>"
        using assms(1) Inr dn prep prs rec by (simp_all add: prepare_record_def)
      ultimately show ?thesis using prepared [of "\<lparr>pv_record = r, pv_plan = plan, pv_request_id = request\<rparr>" s doc d now] doc prep prs by simp
    qed
  qed
qed

lemma reopen_evaluation_frame:
  assumes "reopen_evaluation cfg t w = (res, w')"
  shows "dw_store w' = dw_store w" "dw_plans w' = dw_plans w" "dw_verification w' = dw_verification w"
  using assms by (auto simp: reopen_evaluation_def Let_def split: prod.splits sum.splits)

lemma reopen_prepare_cases:
  assumes "reopen_prepare cfg raw actor x w = (res, w')" "ids_trimmed x"
  obtains (refused) err where "res = Inl err" "dw_store w' = dw_store w" "dw_verification w' = dw_verification w"
      "\<And>j. az_get (dw_plans w') j = az_get (dw_plans w) j"
  | (repeated) t r where "res = Inr (Repeated r)" "w' = w" "reopen_intent_of cfg raw actor w = Inr t"
      "get_by_idempotency (dw_store w) (rt_digest t) = Inr (Some r)"
  | (prepared) t n original e u p doc now d s where "res = Inr (Prepared p)" "w' = u\<lparr>dw_plans := s\<rparr>"
      "reopen_intent_of cfg raw actor w = Inr t" "take_original (dr_sha cfg) (rt_authorization t) (rt_source t) = Inr original"
      "reopen_evaluation cfg t w = (Inr e, u)" "reopen_doc t original e = Inr doc"
      "prepare_plan cfg t e x (dw_evidence u) (dw_plans w) = Inr (pv_plan p, pv_request_id p, s)"
      "parse_revision (revision_for t actor x n doc d (kr_disposition (kernel_for e)) (pv_plan p) now) = Some (pv_record p)"
proof (cases "reopen_intent_of cfg raw actor w")
  case (Inl err)
  then show ?thesis using assms(1) refused [of err] by (simp add: reopen_prepare_def)
next
  case t: (Inr t)
  show ?thesis
  proof (cases "get_by_idempotency (dw_store w) (rt_digest t)")
    case (Inl err)
    then show ?thesis using assms(1) t refused [of err] by (simp add: reopen_prepare_def)
  next
    case g: (Inr ex)
    show ?thesis
    proof (cases ex)
      case (Some r)
      then show ?thesis using assms(1) t g repeated [of r t] by (simp add: reopen_prepare_def)
    next
      case None
      let ?chk = "ebind (list_for_root (dw_store w) (rt_root t)) (\<lambda>ch.
          ebind (guarded (ch = [] \<or> rv_new_decision (last ch) = Some (rq_decision (rt_request t))) REVISION_FORK_BLOCKED) (\<lambda>_.
          ebind (take_original (dr_sha cfg) (rt_authorization t) (rt_source t)) (\<lambda>o1. Inr (length ch, o1))))"
      show ?thesis
      proof (cases ?chk)
        case (Inl err)
        then show ?thesis using assms(1) t g None refused [of err] by (simp add: reopen_prepare_def)
      next
        case c: (Inr no)
        obtain n original where no: "no = (n, original)" by (cases no)
        have o: "take_original (dr_sha cfg) (rt_authorization t) (rt_source t) = Inr original"
          using c no by (auto simp: ebind_Inr_iff)
        obtain ev w1 where ev: "reopen_evaluation cfg t w = (ev, w1)" by fastforce
        note F = reopen_evaluation_frame [OF ev]
        show ?thesis
        proof (cases ev)
          case (Inl err)
          then show ?thesis using assms(1) t g None c no ev F refused [of err] by (simp add: reopen_prepare_def)
        next
          case e: (Inr e)
          obtain pr w2 where pr: "prepare_record cfg t actor x n original e w1 = (pr, w2)" by fastforce
          from pr assms(2) show ?thesis
          proof (cases rule: prepare_record_cases)
            case (refused err)
            then show ?thesis using assms(1) t g None c no ev e pr F that(1) [of err] by (simp add: reopen_prepare_def)
          next
            case (prepared p doc now d s)
            then show ?thesis using assms(1) t g None c no ev e pr F o
              that(3) [where p = p and u = w1 and s = s and t = t and original = original and e = e and doc = doc and n = n and d = d and now = now]
              by (simp add: reopen_prepare_def)
          qed
        qed
      qed
    qed
  qed
qed

lemma commit_prepared_effect:
  assumes "commit_prepared cfg p w = (res, w')"
  shows "dw_verification w' = dw_verification w \<and> dw_evidence w' = dw_evidence w \<and>
    ((\<exists>saved r. res = Inr r \<and> rr_created r \<and> parse_revision (pv_record p) = Some saved \<and> wellformed_row saved \<and>
        rv_status saved = R_decided \<and> result_from_record saved True (pv_request_id p) = Inr r \<and>
        create_resolved_or_get (dr_sha cfg) (Shaped (pv_record p)) (dw_store w) = Inr (saved, True, dw_store w') \<and>
        db_revisions (dw_store w') = db_revisions (dw_store w) @ [saved] \<and> dw_plans w' = dw_plans w) \<or>
     ((case res of Inl e \<Rightarrow> True | Inr r \<Rightarrow> \<not> rr_created r) \<and> dw_store w' = dw_store w \<and>
        dw_plans w' = discard_prepared (pv_plan p) (case rv_new_decision (pv_record p) of None \<Rightarrow> [] | Some n \<Rightarrow> n) (dw_plans w)))"
proof (cases "create_resolved_or_get (dr_sha cfg) (Shaped (pv_record p)) (dw_store w)")
  case (Inl e)
  then show ?thesis using assms by (cases e) (auto simp: commit_prepared_def Let_def settle_error_def)
next
  case (Inr c)
  obtain saved created st where c: "c = (saved, created, st)" by (cases c)
  note E = create_effect [OF Inr [unfolded c]]
  show ?thesis
  proof (cases created)
    case True
    then have s: "parse_revision (pv_record p) = Some saved" "wellformed_row saved" "rv_status saved = R_decided"
      "db_revisions st = db_revisions (dw_store w) @ [saved]" using E by auto
    obtain n d r where r: "result_from_record saved True (pv_request_id p) = Inr r" "rr_created r = True"
      by (rule decided_result [OF s(2,3), of True "pv_request_id p"])
    then have "res = Inr r" "w' = w\<lparr>dw_store := st\<rparr>" using assms Inr c True by (simp_all add: commit_prepared_def Let_def)
    then show ?thesis using r s Inr c True by (intro conjI disjI1 exI [of _ saved] exI [of _ r]) simp_all
  next
    case False
    then have st: "st = dw_store w" using E by simp
    have "\<not> rr_created r" if "settle_error (result_from_record saved False None) = Inr r" for r
      using that by (auto simp: settle_error_def result_from_record_def ebind_Inr_iff split: sum.splits throws.splits)
    then show ?thesis using assms Inr c False st by (auto simp: commit_prepared_def Let_def split: sum.splits)
  qed
qed

text \<open>What a prepared record is, after a parse and after the second parse of the store.\<close>

lemma prepared_record:
  assumes "parse_revision (revision_for t actor x n doc d disp plan now) = Some q" "ids_trimmed x"
  shows "parse_revision q = Some q" "rv_new_plan q = trim_opt plan" "rv_disposition q = Some disp" "wellformed_row q"
    "rv_new_decision q = Some (''decision-revision-'' @ rn_decision x)" "rv_context q = norm_doc doc" "rv_status q = R_decided"
proof -
  have q: "q = norm_revision (revision_for t actor x n doc d disp plan now)" and w: "wellformed_row q"
    using assms(1) by (auto simp: parse_revision_iff)
  show "parse_revision q = Some q" using w by (auto simp: parse_revision_iff wellformed_row_def)
  show "rv_new_plan q = trim_opt plan" "rv_disposition q = Some disp" "wellformed_row q" "rv_context q = norm_doc doc"
    "rv_new_decision q = Some (''decision-revision-'' @ rn_decision x)"
    using q w assms(2) by (simp_all add: norm_revision_def revision_for_def ids_trimmed_def)
  show "rv_status q = R_decided" unfolding q by (simp add: norm_revision_def revision_for_def)
qed

lemma settled_not_created: "result_from_record r False request = Inr res \<Longrightarrow> \<not> rr_created res"
  by (auto simp: result_from_record_def ebind_Inr_iff)

text \<open>The reopen as a whole: nothing but what was there, or one more revision with its plan.\<close>

lemma reopen_cases:
  assumes "reopen cfg raw actor x w = (res, w')" "ids_trimmed x"
  obtains (kept) "case res of Inl e \<Rightarrow> True | Inr r \<Rightarrow> \<not> rr_created r" "dw_store w' = dw_store w" "dw_verification w' = dw_verification w"
      "\<And>j. az_get (dw_plans w') j = az_get (dw_plans w) j"
  | (created) t original e u doc n d now saved r and p :: prepared_revision where "res = Inr r" "rr_created r" "reopen_intent_of cfg raw actor w = Inr t"
      "take_original (dr_sha cfg) (rt_authorization t) (rt_source t) = Inr original"
      "reopen_evaluation cfg t w = (Inr e, u)" "reopen_doc t original e = Inr doc"
      "prepare_plan cfg t e x (dw_evidence u) (dw_plans w) = Inr (pv_plan p, pv_request_id p, dw_plans w')"
      "parse_revision (revision_for t actor x n doc d (kr_disposition (kernel_for e)) (pv_plan p) now) = Some saved"
      "result_from_record saved True (pv_request_id p) = Inr r" "dw_verification w' = dw_verification w"
      "create_resolved_or_get (dr_sha cfg) (Shaped saved) (dw_store w) = Inr (saved, True, dw_store w')"
      "db_revisions (dw_store w') = db_revisions (dw_store w) @ [saved]"
proof -
  obtain pr w1 where pr: "reopen_prepare cfg raw actor x w = (pr, w1)" by fastforce
  from pr assms(2) show ?thesis
  proof (cases rule: reopen_prepare_cases)
    case (refused err)
    then have "res = Inl err" "w' = w1" using assms(1) pr by (simp_all add: reopen_def)
    then show ?thesis using refused kept by simp
  next
    case (repeated t r)
    then have "w' = w" "res = result_from_record r False None" using assms(1) pr by (simp_all add: reopen_def reopen_commit_def)
    then show ?thesis using kept settled_not_created by (auto split: sum.splits)
  next
    case (prepared t n original e u p doc now d s)
    note F = reopen_evaluation_frame [OF prepared(5)]
    have c: "commit_prepared cfg p w1 = (res, w')" using assms(1) pr prepared(1) by (simp add: reopen_def reopen_commit_def)
    note q = prepared_record [OF prepared(8) assms(2)]
    from commit_prepared_effect [OF c] show ?thesis
    proof (elim conjE disjE exE)
      fix saved r assume a: "res = Inr r" "rr_created r" "parse_revision (pv_record p) = Some saved"
        "result_from_record saved True (pv_request_id p) = Inr r" "db_revisions (dw_store w') = db_revisions (dw_store w1) @ [saved]"
        "create_resolved_or_get (dr_sha cfg) (Shaped (pv_record p)) (dw_store w1) = Inr (saved, True, dw_store w')"
        "dw_plans w' = dw_plans w1" and v: "dw_verification w' = dw_verification w1"
      have sv: "pv_record p = saved" using a(3) q(1) by simp
      have pl: "prepare_plan cfg t e x (dw_evidence u) (dw_plans w) = Inr (pv_plan p, pv_request_id p, dw_plans w')"
        using prepared(2,7) a(7) F by simp
      have ps: "parse_revision (revision_for t actor x n doc d (kr_disposition (kernel_for e)) (pv_plan p) now) = Some saved"
        using prepared(8) sv by simp
      have st: "dw_verification w' = dw_verification w" "db_revisions (dw_store w') = db_revisions (dw_store w) @ [saved]"
        "create_resolved_or_get (dr_sha cfg) (Shaped saved) (dw_store w) = Inr (saved, True, dw_store w')"
        using prepared(2) a(5,6) sv v F by simp_all
      show ?thesis by (rule created [OF a(1,2) prepared(3,4,5,6) pl ps a(4) st(1,3,2)])
    next
      assume a: "case res of Inl e \<Rightarrow> True | Inr r \<Rightarrow> \<not> rr_created r" "dw_store w' = dw_store w1"
        "dw_plans w' = discard_prepared (pv_plan p) (case rv_new_decision (pv_record p) of None \<Rightarrow> [] | Some n \<Rightarrow> n) (dw_plans w1)"
        and v: "dw_verification w' = dw_verification w1"
      show ?thesis
        by (rule kept [OF a(1)]) (use a(2,3) v prepared(2) F q(5) discard_restores [OF prepared(7) assms(2)] in simp_all)
    qed
  qed
qed

section \<open>Properties of reopening\<close>

text \<open>C12: A reopen never changes the past. Take a reopen whose preparation and commit run with no other operation in
  between, and whose generated ids have no surrounding white space. Whatever its answer, the outcomes and receipts of the
  verification runtime are as they were, every authorized plan is still there with its record unchanged, and the
  revision store has its old revisions and at most one more, which is added exactly when the answer is a created
  revision. When no revision was created, because of an error at any point or because the intent was already
  recorded, the revision store is unchanged and the plan prepared for it, if any, has been taken back: every
  lookup of a plan gives what it gave before.\<close>

theorem reopen_preserves_history:
  assumes "reopen cfg raw actor x w = (res, w')" "ids_trimmed x"
  shows "dw_verification w' = dw_verification w \<and>
    (\<forall>j r. az_get (dw_plans w) j = Some r \<longrightarrow> az_get (dw_plans w') j = Some r) \<and>
    (if \<exists>r. res = Inr r \<and> rr_created r then \<exists>row. db_revisions (dw_store w') = db_revisions (dw_store w) @ [row]
     else dw_store w' = dw_store w \<and> (\<forall>j. az_get (dw_plans w') j = az_get (dw_plans w) j))"
  using assms
proof (cases rule: reopen_cases)
  case kept
  then have "\<not> (\<exists>r. res = Inr r \<and> rr_created r)" by auto
  then show ?thesis using kept by simp
next
  case (created t original e u doc n d now saved r p)
  have keep: "az_get (dw_plans w') j = Some y" if "az_get (dw_plans w) j = Some y" for j y
  proof (cases "pv_plan p")
    case None
    then show ?thesis using prepare_plan_effect [OF created(7)] that by simp
  next
    case (Some pl)
    then have "az_get (dw_plans w) pl = None" "\<forall>i. i \<noteq> pl \<longrightarrow> az_get (dw_plans w') i = az_get (dw_plans w) i"
      using prepare_plan_effect [OF created(7), unfolded Some option.case] by blast+
    then show ?thesis using that by (cases "j = pl") simp_all
  qed
  have "\<exists>r. res = Inr r \<and> rr_created r" using created(1,2) by blast
  then show ?thesis using keep created(10,12) by simp
qed

text \<open>C11: A reopened decision is judged on current evidence and never inherits an authorization. When a revision is
  created, its disposition is the kernel's, applied to the evaluation made for this reopen: it decides exactly when
  that evaluation ended in proceed. A deciding revision has a new plan, with an id no authorized plan had and other than
  the original plan's, which belongs to the new decision and awaits an approval that nobody has given: no approval, no
  grant, and a pending request. Any other revision has no plan, and no plan was added.\<close>

theorem reopened_decision_awaits_approval:
  assumes "reopen cfg raw actor x w = (Inr r, w')" "ids_trimmed x" "rr_created r"
  shows "\<exists>t e u. reopen_intent_of cfg raw actor w = Inr t \<and> reopen_evaluation cfg t w = (Inr e, u) \<and>
    rr_disposition r = kr_disposition (kernel_for e) \<and> (rr_disposition r = D_decide \<longleftrightarrow> run_action (sv_run e) = Proceed) \<and>
    (if run_action (sv_run e) = Proceed
     then \<exists>p n. rr_new_plan r = Some p \<and> p \<noteq> js_trim (plan_id (pa_plan (rt_authorization t))) \<and> az_get (dw_plans w) p = None \<and>
       az_get (dw_plans w') p = Some n \<and> plan_decision_id (pa_plan n) = rr_new_decision r \<and> plan_approval (pa_plan n) = None \<and>
       plan_state (pa_plan n) = Awaiting_approval \<and> pa_grant n = None \<and> map_option apr_status (pa_request n) = Some Pending
     else rr_new_plan r = None \<and> dw_plans w' = dw_plans w)"
  using assms(1,2)
proof (cases rule: reopen_cases)
  case kept
  then show ?thesis using assms(3) by simp
next
  case (created t original e u doc n d now saved r' p)
  have r': "r' = r" using created(1) by simp
  note q = prepared_record [OF created(8) assms(2)]
  have nd: "rr_new_plan r = rv_new_plan saved" "rr_disposition r = kr_disposition (kernel_for e)"
    "rr_new_decision r = ''decision-revision-'' @ rn_decision x"
    by (rule decided_result [OF q(4,7), of True "pv_request_id p"]; use created(9) q(3,5) r' in simp)+
  have k: "kr_disposition (kernel_for e) = D_decide \<longleftrightarrow> run_action (sv_run e) = Proceed"
    by (auto simp: kernel_for_def run_decision_kernel_def)
  have "op_plan_id (on_plan (dc_original (norm_doc doc))) = js_trim (plan_id (pa_plan (rt_authorization t)))"
  proof -
    have "op_plan_id (on_plan original) = plan_id (pa_plan (rt_authorization t))"
      using created(4) by (auto simp: take_original_def Let_def ebind_Inr_iff)
    moreover have "dc_original doc = norm_original original"
      using created(6) by (auto simp: reopen_doc_def parse_doc_def parse_with_Some norm_doc_def)
    ultimately show ?thesis by (simp add: norm_doc_def norm_original_def Let_def)
  qed
  moreover have "revision_status_ok saved" using q(4) by (simp add: wellformed_row_def revision_ok_def)
  ultimately have st: "kr_disposition (kernel_for e) = D_decide \<Longrightarrow> rv_new_plan saved \<noteq> Some (js_trim (plan_id (pa_plan (rt_authorization t))))"
    using q(3,6,7) by (simp add: revision_status_ok_def)
  show ?thesis
  proof (cases "run_action (sv_run e) = Proceed")
    case True
    then have dec: "kr_disposition (kernel_for e) = D_decide" using k by simp
    obtain pl where pl: "pv_plan p = Some pl" using prepare_plan_effect [OF created(7)] dec by (cases "pv_plan p") auto
    note P = prepare_plan_effect [OF created(7), unfolded pl option.case]
    have "rv_new_plan saved = Some pl" using q(2) pl P assms(2) by (simp add: ids_trimmed_def)
    moreover obtain m where "az_get (dw_plans w') pl = Some m" "discardable m (''decision-revision-'' @ rn_decision x)"
      using P assms(2) by (auto simp: ids_trimmed_def)
    ultimately show ?thesis using True created(3,5) nd k st [OF dec] P
      by (auto simp: discardable_def intro!: exI [of _ t] exI [of _ e])
  next
    case False
    then have nd': "kr_disposition (kernel_for e) \<noteq> D_decide" using k by simp
    have "pv_plan p = None" "dw_plans w' = dw_plans w" using prepare_plan_effect [OF created(7)] nd' by (auto split: option.splits)
    then show ?thesis using False created(3,5) nd k q(2) by auto
  qed
qed

lemma reopen_intent_request:
  assumes "reopen_intent_of cfg raw actor w = Inr t"
  shows "safe_parse REVISION_INPUT_INVALID parse_reopen raw = Inr (rt_request t)"
  using assms unfolding reopen_intent_of_def ebind_Inr_iff Let_def by force

lemma reopen_intent_kept:
  assumes "reopen_intent_of cfg raw actor w = Inr t"
    "\<forall>p. trusted_outcome_of p (dw_verification w') = trusted_outcome_of p (dw_verification w)"
    "find_single_authorization (dw_plans w') (rq_decision (rt_request t)) = find_single_authorization (dw_plans w) (rq_decision (rt_request t))"
    "get_for_new_decision (dw_store w') (rq_decision (rt_request t)) = get_for_new_decision (dw_store w) (rq_decision (rt_request t))"
  shows "reopen_intent_of cfg raw actor w' = Inr t"
proof -
  show ?thesis using assms reopen_intent_request [OF assms(1)] unfolding reopen_intent_of_def by simp
qed

lemma find_snoc: "find P (xs @ [x]) = (case find P xs of None \<Rightarrow> if P x then Some x else None | Some y \<Rightarrow> Some y)"
  by (induction xs) auto

text \<open>A recorded revision stays found: its decision, its idempotency digest and the lookup of its parent.\<close>

lemma created_lookups:
  assumes "revision_store_inv sha s" "create_resolved_or_get sha (Shaped saved) s = Inr (saved, True, s')"
  shows "get_by_idempotency s' (rv_idempotency saved) = Inr (Some saved)"
    "get_for_new_decision s' (rv_parent saved) = get_for_new_decision s (rv_parent saved)" "rv_new_decision saved \<noteq> Some (rv_parent saved)"
proof -
  obtain q n where q: "prepared sha (Shaped saved) q" "rv_new_decision q = Some n" "revision_transaction q n s = Inr (saved, True, s')"
    using assms(2) unfolding create_iff by blast
  then have rs: "row_sound sha q" by (simp add: prepared_def)
  note T = q(3) [unfolded transaction_created [OF assms(1) rs q(2)]]
  have m: "may_revise s saved" and nid: "\<not> list_ex (\<lambda>x. rv_idempotency x = rv_idempotency saved) (db_revisions s)"
    and s': "db_revisions s' = db_revisions s @ [saved]" using T by (auto simp: appended_def list_ex_iff)
  have wf: "rows_wellformed s" "rows_wellformed s'" using assms create_preserves inv_wellformed by blast+
  show ne: "rv_new_decision saved \<noteq> Some (rv_parent saved)"
  proof
    assume eq: "rv_new_decision saved = Some (rv_parent saved)"
    then have a: "rv_parent saved \<noteq> rv_root saved" "\<not> linked_decision s (rv_parent saved)"
      "rv_parent saved = last (rv_root saved # history_of s (rv_root saved))" using m by (auto simp: may_revise_def)
    then have "history_of s (rv_root saved) \<noteq> []" by auto
    then have "rv_parent saved \<in> set (history_of s (rv_root saved))" "chain s (rv_root saved) \<noteq> []"
      using a(3) by (auto simp: history_of_def new_decisions_def)
    then show False using a(2) by (auto simp: linked_decision_def)
  qed
  show "get_by_idempotency s' (rv_idempotency saved) = Inr (Some saved)"
    using nid unfolding get_by_idempotency_def row_where_wellformed [OF wf(2)] s' 
    by (auto simp: find_snoc list_ex_iff find_Some_iff split: option.splits)
  show "get_for_new_decision s' (rv_parent saved) = get_for_new_decision s (rv_parent saved)"
    using ne unfolding get_for_new_decision_def row_where_wellformed [OF wf(1)] row_where_wellformed [OF wf(2)] s'
    by (simp add: find_snoc split: option.splits)
qed

text \<open>The state after a created revision has the same intent and the recorded row.\<close>

lemma created_intent:
  assumes "revision_reachable (dr_sha cfg) (dw_store w)" "reopen cfg raw actor x w = (Inr r, w')" "rr_created r" "ids_trimmed x"
  obtains t saved where "reopen_intent_of cfg raw actor w' = Inr t" "rr_parent r = rq_decision (rt_request t)"
    "saved \<in> set (db_revisions (dw_store w'))" "rv_idempotency saved = rt_digest t" "rv_parent saved = rr_parent r"
    "result_from_record saved False None = Inr (r\<lparr>rr_request_id := None, rr_created := False\<rparr>)"
    "revision_reachable (dr_sha cfg) (dw_store w')"
  using assms(2,4)
proof (cases rule: reopen_cases)
  case kept
  then show ?thesis using assms(3) by simp
next
  case (created t original e u doc n d now saved r' p)
  have r': "r' = r" using created(1) by simp
  note inv = revision_reachable_inv [OF assms(1)]
  note q = prepared_record [OF created(8) assms(4)]
  note L = created_lookups [OF inv created(11)]
  have rq: "js_trim (rq_decision (rt_request t)) = rq_decision (rt_request t)"
    using reopen_intent_request [OF created(3)] by (auto simp: safe_parse_Inr parse_reopen_def parse_with_Some)
  have s: "rv_parent saved = rq_decision (rt_request t)" "rv_idempotency saved = rt_digest t"
    using created(8) rq unfolding parse_revision_iff by (simp_all add: norm_revision_def revision_for_def)
  have i: "reopen_intent_of cfg raw actor w' = Inr t"
  proof (rule reopen_intent_kept [OF created(3)])
    have "rq_decision (rt_request t) \<noteq> ''decision-revision-'' @ rn_decision x" using L(3) q(5) s(1) by metis
    then show "find_single_authorization (dw_plans w') (rq_decision (rt_request t)) =
        find_single_authorization (dw_plans w) (rq_decision (rt_request t))"
      by (rule prepare_plan_find_single [OF created(7) assms(4)])
  qed (use L(2) s(1) created(10) in metis)+
  have res: "result_from_record saved False None = Inr (r\<lparr>rr_request_id := None, rr_created := False\<rparr>)" "rr_parent r = rv_parent saved"
    using created(9) r' unfolding result_from_record_def ebind_Inr_iff require_Inr by auto
  have "revision_reachable (dr_sha cfg) (dw_store w')" by (rule revision_reachable.created [OF assms(1) created(11)])
  then show ?thesis using that [OF i _ _ s(2) _ res(1)] res(2) s(1) created(12) by simp
qed

text \<open>C26: Reopening is idempotent, and stays so. When a reopen on a reachable revision store, run with nothing in between and with
  generated ids without surrounding white space, created a revision, the same request of the same actor finds it again in any later state
  of this kind: the revision store is a reachable one that has kept the rows, as the append-only store does, also over a
  restart; the lookup of the one plan of the reopened decision gives what it gave after the reopen; and the verification
  runtime gives each plan the same trusted outcome. The answer, with whatever generated ids and clock readings, is the
  same revision, marked as not created and without an approval request of its own, and the state does not change: no evidence
  is collected again, no plan is prepared and no row is added. When a second plan for the decision or a new outcome has come in
  between, the request is another one and nothing is stated.\<close>

theorem repeated_request_returns_revision:
  assumes "revision_reachable (dr_sha cfg) (dw_store w)" "reopen cfg raw actor x w = (Inr r, w')" "rr_created r" "ids_trimmed x"
    "revision_reachable (dr_sha cfg) (dw_store u)" "set (db_revisions (dw_store w')) \<subseteq> set (db_revisions (dw_store u))"
    "find_single_authorization (dw_plans u) (rr_parent r) = find_single_authorization (dw_plans w') (rr_parent r)"
    "\<forall>p. trusted_outcome_of p (dw_verification u) = trusted_outcome_of p (dw_verification w')"
  shows "reopen cfg raw actor y u = (Inr (r\<lparr>rr_request_id := None, rr_created := False\<rparr>), u)"
proof -
  obtain t saved where t: "reopen_intent_of cfg raw actor w' = Inr t" "rr_parent r = rq_decision (rt_request t)"
    "saved \<in> set (db_revisions (dw_store w'))" "rv_idempotency saved = rt_digest t" "rv_parent saved = rr_parent r"
    "result_from_record saved False None = Inr (r\<lparr>rr_request_id := None, rr_created := False\<rparr>)"
    "revision_reachable (dr_sha cfg) (dw_store w')"
    by (rule created_intent [OF assms(1-4)])
  note inv = revision_reachable_inv [OF t(7)] revision_reachable_inv [OF assms(5)]
  have "reopen_intent_of cfg raw actor u = Inr t"
    by (rule reopen_intent_kept [OF t(1)])
      (use assms(7,8) t(2,5) get_for_new_decision_later [OF inv assms(6) t(3)] in simp_all)
  moreover have "get_by_idempotency (dw_store u) (rt_digest t) = Inr (Some saved)"
    using get_by_idempotency_later [OF inv(2), of saved] t(3,4) assms(6) by auto
  ultimately show ?thesis using t(6) by (simp add: reopen_def reopen_prepare_def reopen_commit_def)
qed

section \<open>A concrete reopen\<close>

text \<open>
  The verified outcome of the branch plan is reconsidered. The collection of evidence is aborted, so the
  reopened decision is deferred.
\<close>

definition reopen_runtime :: runtime_config where
  "reopen_runtime = (sample_runtime (\<lambda>n. 6000) (\<lambda>n. runtime_candidate))
     \<lparr>rt_call := (\<lambda>n p c subject. (sample_call runtime_candidate)\<lparr>cl_before := True\<rparr>)\<rparr>"

definition branch_authorization :: plan_authorization where
  "branch_authorization = \<lparr>pa_plan = branch_plan\<lparr>plan_coverage := [runtime_entry 900]\<rparr>, pa_guard_run_id = ''run-1'', pa_request_id = None,
     pa_request = None, pa_binding_digest = sample_digest, pa_grant = None, pa_blocked_reason = None\<rparr>"

definition reopen_config :: revision_config where
  "reopen_config = \<lparr>dr_sha = sample_sha, dr_evidence = reopen_runtime, dr_auth = sample_config\<rparr>"

definition settled_world :: decision_world where
  "settled_world = \<lparr>dw_store = empty_revision_store, dw_plans = \<lparr>az_records = [(''plan-0001'', branch_authorization)], az_max = 10\<rparr>,
     dw_evidence = sample_runtime_state, dw_verification = settled_runtime\<rparr>"

definition owner_actor :: reopen_actor where
  "owner_actor = \<lparr>ra_id = ''local-owner'', ra_kind = ''owner'', ra_scope = control_reopen_scope\<rparr>"

definition reconsider :: reopen_request where
  "reconsider = \<lparr>rq_decision = ''dec-1'', rq_reason = Some ''check again'', rq_outcome = None\<rparr>"

definition reopen_values :: reopen_inputs where
  "reopen_values = \<lparr>rn_revision = ''00000001'', rn_decision = ''00000001'', rn_plan = ''00000001'', rn_request = ''00000001'',
     rn_now = Some 7000, rn_auth_now = Some 7000, rn_eligible_now = 7000\<rparr>"

definition reconsidered_outcome :: trusted_outcome where
  "reconsidered_outcome = \<lparr>tx_outcome_id = ''out-00001'', tx_status = V_verified, tx_revisit = False, tx_receipt_id = ''rcpt-1'',
     tx_receipt_digest = sample_digest, tx_expected_digest = Some sample_digest, tx_observation_digest = Some sample_digest,
     tx_observation_id = Some ''obs-1'', tx_expected = Some (xp_assertions branch_expectation),
     tx_observed = Some (ob_payload branch_observation), tx_reasons = [''OUTCOME_VERIFIED'']\<rparr>"

definition reconsider_intent :: reopen_intent where
  "reconsider_intent = \<lparr>rt_request = reconsider, rt_authorization = branch_authorization, rt_source = reconsidered_outcome,
     rt_trigger = (T_reconsideration, ''check again''), rt_root = ''dec-1'', rt_digest = sample_digest\<rparr>"

definition reopen_evaluate :: evaluate_request where
  "reopen_evaluate = \<lparr>vq_capability_id = ''git.branch.create'', vq_capability_version = ''1.0.0'',
     vq_inputs = plan_normalized_inputs branch_plan, vq_correlation = Some (''revision-context:'' @ replicate 32 CHR ''a'')\<rparr>"

definition reopen_binding :: evaluation_binding where
  "reopen_binding = (sample_binding 6000)\<lparr>eb_request := reopen_evaluate\<rparr>"

definition aborted_run :: surface_evaluation where
  "aborted_run = (let r = closed_result reopen_binding Defer GUARD_ABORTED True in
     \<lparr>sv_run = make_run reopen_binding ''run-0'' 6000 r sample_digest [] [], sv_assessment = gr_assessment r,
      sv_requested = gr_requested r, sv_remaining = gr_remaining r\<rparr>)"

definition reconsidered_original :: original_snapshot where
  "reconsidered_original = (let p = pa_plan branch_authorization in \<lparr>on_decision_id = ''dec-1'',
     on_plan = \<lparr>op_plan_id = ''plan-0001'', op_semantics_digest = sample_digest, op_capability_id = ''git.branch.create'',
       op_capability_version = ''1.0.0'', op_adapter_id = ''git-cli'', op_inputs_digest = sample_digest, op_risk = plan_risk p,
       op_state = ''ready'', op_approval_id = map_option ref_approval_id (plan_approval p), op_request_id = None\<rparr>,
     on_evidence = \<lparr>oe_guard_run_id = ''run-1'', oe_coverage = plan_coverage p, oe_digest = sample_digest,
       oe_qualified = [sample_digest]\<rparr>,
     on_outcome = snapshot_outcome reconsidered_outcome\<rparr>)"

definition reconsidered_doc :: revision_doc where
  "reconsidered_doc = \<lparr>dc_root = ''dec-1'', dc_parent = ''dec-1'', dc_original = reconsidered_original, dc_trigger = T_reconsideration,
     dc_outcome_id = Some ''out-00001'', dc_reason = ''check again'', dc_current = take_current aborted_run,
     dc_delta = build_evidence_delta (oe_coverage (on_evidence reconsidered_original)) [], dc_kernel_id = decision_kernel_id\<rparr>"

definition reconsidered_revision :: revision where
  "reconsidered_revision = revision_for reconsider_intent owner_actor reopen_values 0 reconsidered_doc sample_digest D_defer None 7000"

lemma reconsider_intended: "reopen_intent_of reopen_config (Shaped reconsider) owner_actor settled_world = Inr reconsider_intent"
proof -
  have q: "parse_reopen reconsider = Some reconsider" by code_simp
  have t: "trusted_outcome_of ''plan-0001'' settled_runtime = Some reconsidered_outcome" by code_simp
  have d: "json_digest sample_sha (intent_json a b c d e f) = Inr sample_digest" for a b c d e f
    by (simp add: sample_json_digest intent_json_def)
  have f: "find_single_authorization (dw_plans settled_world) ''dec-1'' = Inr branch_authorization"
    by code_simp
  have g: "trigger_for reconsider reconsidered_outcome = Inr (T_reconsideration, ''check again'')" by code_simp
  have n: "get_for_new_decision (dw_store settled_world) ''dec-1'' = Inr None" by code_simp
  have p: "plan_id (pa_plan branch_authorization) = ''plan-0001''" by code_simp
  show ?thesis using q t d f g n p
    by (simp add: reopen_intent_of_def safe_parse_def reconsider_intent_def)
      (simp add: reconsider_def owner_actor_def settled_world_def reopen_config_def alien_def)
qed

lemma reconsider_original: "take_original sample_sha branch_authorization reconsidered_outcome = Inr reconsidered_original"
proof -
  have c: "coverage_digest sample_sha (plan_coverage (pa_plan branch_authorization)) = Inr sample_digest"
  proof -
    have "parse_coverage [runtime_entry 900] \<noteq> None" by code_simp
    then show ?thesis by (auto simp: coverage_digest_def sample_json_digest branch_authorization_def)
  qed
  have s: "is_json_safe (plan_semantics_json (pa_plan branch_authorization))" by code_simp
  have i: "is_json_safe (JObj (plan_normalized_inputs (pa_plan branch_authorization)))" by code_simp
  have x: "collect_coverage_ids (plan_coverage (pa_plan branch_authorization)) = [sample_digest]"
    by (simp add: branch_authorization_def runtime_ids)
  show ?thesis using c s i x
    by (simp add: take_original_def Let_def sample_json_digest reconsidered_original_def)
     (simp add: branch_authorization_def branch_plan_def sample_plan_def alien_def)
qed

lemma reconsider_doc_ok: "parse_doc reconsidered_doc = Some reconsidered_doc"
  by code_simp

lemma reconsider_doc_safe: "is_json_safe (doc_json reconsidered_doc)"
  by code_simp

lemma reconsider_revision_ok: "parse_revision reconsidered_revision = Some reconsidered_revision"
  by code_simp

lemma reopen_collection:
  "collect_classes reopen_runtime [sample_requirement] ''repo:a'' [''repo.state''] ([], sample_runtime_state\<lparr>er_reads := 1\<rparr>) =
     (Inl (Throws EVIDENCE_COLLECTION_ABORTED), [], sample_runtime_state\<lparr>er_reads := 2, er_calls := 1,
        er_last := Some ((sample_call runtime_candidate)\<lparr>cl_before := True\<rparr>)\<rparr>)"
  by code_simp

lemma aborted_run_ok: "parse_run (sv_run aborted_run) = Some (sv_run aborted_run)"
  by code_simp

lemma reopen_checks: "evaluate_checks reopen_runtime (Shaped reopen_evaluate) 6000 = Inr reopen_binding"
proof -
  have "requirements_digest sample_sha (cap_required_evidence sample_capability) = Inr sample_digest"
    using sample_eligible_run
    by (simp add: eligible_run_def sample_service_def sample_materialize_def eligible_sample_run_def sample_lookup_def rs_get_def)
  moreover have "resolve_subject [(''git.branch.create'', \<lambda>c inputs. Inr ''repo:a'')] ''git.branch.create''
      (vq_inputs reopen_evaluate) = Inr ''repo:a''" by code_simp
  moreover have "parse_evaluate reopen_evaluate = Some reopen_evaluate" by code_simp
  moreover have "normalized_inputs_digest sample_sha (vq_inputs reopen_evaluate) = Inr sample_digest"
  proof -
    have "json_object_ok (vq_inputs reopen_evaluate)" "is_json_safe (JObj (vq_inputs reopen_evaluate))" by code_simp+
    then show ?thesis by (simp add: normalized_inputs_digest_def sample_json_digest)
  qed
  ultimately show ?thesis
    by (simp add: evaluate_checks_Inr reopen_runtime_def sample_runtime_def reopen_binding_def sample_binding_def sample_lookup_def
        sample_capability_def) (simp add: reopen_evaluate_def)
qed

lemma reconsider_evaluated:
  "\<exists>u. reopen_evaluation reopen_config reconsider_intent settled_world = (Inr aborted_run, u)"
proof -
  have c: "coverage_digest sample_sha [] = Inr sample_digest"
  proof -
    have "parse_coverage [] = Some []" "is_json_safe (coverage_json [])" by code_simp+
    then show ?thesis by (simp add: coverage_digest_def sample_json_digest)
  qed
  have r: "gr_coverage (closed_result reopen_binding Defer GUARD_ABORTED True) = []" by (simp add: closed_result_def)
  have e: "eb_requirements reopen_binding = [sample_requirement]" "eb_subject reopen_binding = ''repo:a''"
    by (simp_all add: reopen_binding_def sample_binding_def)
  have cls: "map req_class [sample_requirement] = [''repo.state'']" by (simp add: sample_requirement_def)
  have cfg: "rt_sha reopen_runtime = sample_sha" "rt_clock reopen_runtime n = 6000" "rt_fresh reopen_runtime 0 = ''run-0''" for n
    by (simp_all add: reopen_runtime_def sample_runtime_def nat_str.simps) code_simp
  have p: "\<exists>runs. rs_put (sv_run aborted_run) (er_runs sample_runtime_state) = Inr runs"
    by (simp add: rs_put_def aborted_run_ok sample_runtime_state_def map_has_def)
  have run: "make_run reopen_binding ''run-0'' 6000 (closed_result reopen_binding Defer GUARD_ABORTED True) sample_digest [] [] =
      sv_run aborted_run" by (simp add: aborted_run_def Let_def)
  have ids: "collect_coverage_ids [] = []" by code_simp
  obtain u where u: "evaluate_for_capability reopen_runtime (Shaped reopen_evaluate) sample_runtime_state = (Inr aborted_run, u)"
  proof -
    have "\<exists>u. evaluate_bound reopen_runtime reopen_binding (sample_runtime_state\<lparr>er_reads := 1\<rparr>) = (Inr aborted_run, u)"
      using p unfolding evaluate_bound_def e cls reopen_collection
      by (auto simp: aborted_evaluation_def conclude_def read_clock_def cfg r c ids run Let_def sample_state_update)
        (simp_all add: aborted_run_def Let_def sample_runtime_state_def cfg)
    then show thesis using that reopen_checks
      by (auto simp: evaluate_for_capability_def read_clock_def cfg sample_runtime_state_def)
  qed
  have "reopen_evaluate = \<lparr>vq_capability_id = plan_capability_id (pa_plan (rt_authorization reconsider_intent)),
      vq_capability_version = plan_capability_version (pa_plan (rt_authorization reconsider_intent)),
      vq_inputs = plan_normalized_inputs (pa_plan (rt_authorization reconsider_intent)),
      vq_correlation = Some (''revision-context:'' @ take 32 (sha256_hex sample_sha (rq_decision (rt_request reconsider_intent))))\<rparr>"
    by (simp add: reopen_evaluate_def reconsider_intent_def branch_authorization_def branch_plan_def sample_plan_def sha256_hex_def sample_sha_def)
  then show ?thesis using u
    by (simp add: reopen_evaluation_def Let_def reopen_config_def settled_world_def)
qed

lemma reconsider_created:
  "\<exists>r w'. reopen reopen_config (Shaped reconsider) owner_actor reopen_values settled_world = (Inr r, w') \<and> rr_created r \<and>
     rr_disposition r = D_defer"
proof -
  obtain u where u: "reopen_evaluation reopen_config reconsider_intent settled_world = (Inr aborted_run, u)"
    using reconsider_evaluated by blast
  note F = reopen_evaluation_frame [OF u]
  have store: "dw_store settled_world = empty_revision_store" by (simp add: settled_world_def)
  have g: "get_by_idempotency empty_revision_store d = Inr None" "list_for_root empty_revision_store d = Inr []" for d
    by (simp_all add: get_by_idempotency_def list_for_root_def row_where_def rows_by_index_def empty_revision_store_def)
  have doc: "reopen_doc reconsider_intent reconsidered_original aborted_run = Inr reconsidered_doc"
  proof -
    have "kr_kernel_id (kernel_for aborted_run) = decision_kernel_id" "ce_coverage (take_current aborted_run) = []" by code_simp+
    then show ?thesis using reconsider_doc_ok
      by (simp add: reopen_doc_def zod_def) (simp add: reconsidered_doc_def reconsider_intent_def reconsider_def reconsidered_outcome_def)
  qed
  have k: "kr_disposition (kernel_for aborted_run) = D_defer" by code_simp
  have i: "rt_root reconsider_intent = ''dec-1''" "rt_digest reconsider_intent = sample_digest"
    "rt_authorization reconsider_intent = branch_authorization" "rt_source reconsider_intent = reconsidered_outcome"
    by (simp_all add: reconsider_intent_def)
  have cfg: "dr_sha reopen_config = sample_sha" "rn_now reopen_values = Some 7000"
    by (simp_all add: reopen_config_def reopen_values_def)
  have prep: "reopen_prepare reopen_config (Shaped reconsider) owner_actor reopen_values settled_world =
      (Inr (Prepared \<lparr>pv_record = reconsidered_revision, pv_plan = None, pv_request_id = None\<rparr>), u)"
    using reconsider_intended u doc reconsider_original reconsider_revision_ok reconsider_doc_safe
    by (simp add: reopen_prepare_def store g i cfg prepare_record_def prepare_plan_def k sample_json_digest alien_def zod_def
        reconsidered_revision_def [symmetric])
  have s: "row_sound sample_sha reconsidered_revision"
  proof -
    have "rv_context reconsidered_revision = reconsidered_doc" "rv_status reconsidered_revision = R_decided"
      "rv_context_digest reconsidered_revision = sample_digest" "rv_idempotency reconsidered_revision = sample_digest"
      by (simp_all add: reconsidered_revision_def revision_for_def i)
    moreover have "is_json_safe (intent_json r p t i x a)" for r p t i x a by (simp add: intent_json_def)
    ultimately show ?thesis using reconsider_revision_ok reconsider_doc_safe
      by (simp add: row_sound_def intent_digest_def sample_json_digest parse_revision_iff wellformed_row_def)
  qed
  have n: "rv_new_decision reconsidered_revision = Some ''decision-revision-00000001''" by code_simp
  have "may_revise empty_revision_store reconsidered_revision"
    by (simp add: may_revise_def n) (simp add: history_of_def chain_def empty_revision_store_def linked_decision_def
        reconsidered_revision_def revision_for_def reconsider_intent_def reconsider_def)
  then have "revision_transaction reconsidered_revision ''decision-revision-00000001'' empty_revision_store =
      Inr (reconsidered_revision, True, appended reconsidered_revision empty_revision_store)"
    using transaction_created [OF empty_store_inv s n] by (simp add: empty_revision_store_def)
  moreover have "prepared sample_sha (Shaped reconsidered_revision) reconsidered_revision"
    using s reconsider_revision_ok by (auto simp: prepared_def)
  ultimately have "create_resolved_or_get sample_sha (Shaped reconsidered_revision) empty_revision_store =
      Inr (reconsidered_revision, True, appended reconsidered_revision empty_revision_store)"
    unfolding create_iff using n by blast
  moreover have "rv_disposition reconsidered_revision = Some D_defer" by (simp add: reconsidered_revision_def revision_for_def)
  ultimately show ?thesis
    by (simp add: reopen_def prep reopen_commit_def commit_prepared_def Let_def cfg F store result_from_record_def n)
qed

lemma reopen_values_trimmed: "ids_trimmed reopen_values"
  by code_simp

lemma evidence_delta_exact_witness:
  "\<exists>x \<in> set (build_evidence_delta [sample_entry] []). ed_class x = ''repo.state'' \<and> ed_category x = C_missing_now"
proof -
  note exact = evidence_delta_exact [of "[sample_entry]" "[]"]
  have "ed_class ` set (build_evidence_delta [sample_entry] []) = {cov_class sample_entry}"
    using exact [THEN conjunct2, THEN conjunct2, THEN conjunct1] by simp
  then obtain x where x: "x \<in> set (build_evidence_delta [sample_entry] [])" "ed_class x = cov_class sample_entry"
    by (metis imageE insertI1)
  have "ed_category x = C_missing_now \<longleftrightarrow> (\<forall>a. last_entry [] (ed_class x) = Some a \<longrightarrow> cov_status a = Missing)"
    using exact [THEN conjunct2, THEN conjunct2, THEN conjunct2, rule_format, OF x(1)] by (elim conjE)
  moreover have "last_entry [] (ed_class x) = None" by (simp add: last_entry_def)
  ultimately have "ed_category x = C_missing_now" by simp
  moreover have "cov_class sample_entry = ''repo.state''" by (simp add: sample_entry_def)
  ultimately show ?thesis using x by auto
qed

lemma reopen_preserves_history_witness:
  "\<exists>res w' row. reopen reopen_config (Shaped reconsider) owner_actor reopen_values settled_world = (res, w') \<and>
     db_revisions (dw_store w') = [row] \<and> dw_verification w' = settled_runtime"
proof -
  obtain r w' where r: "reopen reopen_config (Shaped reconsider) owner_actor reopen_values settled_world = (Inr r, w')" "rr_created r"
    using reconsider_created by blast
  have "dw_verification settled_world = settled_runtime" "db_revisions (dw_store settled_world) = []"
    by (simp_all add: settled_world_def empty_revision_store_def)
  then show ?thesis using reopen_preserves_history [OF r(1) reopen_values_trimmed] r by auto
qed

lemma reopened_decision_awaits_approval_witness:
  "\<exists>r w'. reopen reopen_config (Shaped reconsider) owner_actor reopen_values settled_world = (Inr r, w') \<and>
     rr_disposition r = D_defer \<and> rr_new_plan r = None"
proof -
  obtain r w' where r: "reopen reopen_config (Shaped reconsider) owner_actor reopen_values settled_world = (Inr r, w')" "rr_created r"
    "rr_disposition r = D_defer" using reconsider_created by blast
  then show ?thesis using reopened_decision_awaits_approval [OF r(1) reopen_values_trimmed r(2)] by (auto split: if_splits)
qed

lemma repeated_request_returns_revision_witness:
  "\<exists>r w'. reopen reopen_config (Shaped reconsider) owner_actor reopen_values settled_world = (Inr r, w') \<and> rr_created r \<and>
     reopen reopen_config (Shaped reconsider) owner_actor reopen_values (w'\<lparr>dw_evidence := sample_runtime_state\<rparr>) =
       (Inr (r\<lparr>rr_request_id := None, rr_created := False\<rparr>), w'\<lparr>dw_evidence := sample_runtime_state\<rparr>)"
proof -
  obtain r w' where r: "reopen reopen_config (Shaped reconsider) owner_actor reopen_values settled_world = (Inr r, w')" "rr_created r"
    using reconsider_created by blast
  have s: "revision_reachable (dr_sha reopen_config) (dw_store settled_world)"
    by (simp add: settled_world_def revision_reachable.start)
  obtain t saved where "revision_reachable (dr_sha reopen_config) (dw_store w')"
    by (rule created_intent [OF s r reopen_values_trimmed])
  then show ?thesis
    using repeated_request_returns_revision [OF s r reopen_values_trimmed, of "w'\<lparr>dw_evidence := sample_runtime_state\<rparr>" reopen_values] r
    by simp
qed

end
