(* ===== verification/Api_Server.thy ===== *)
theory Api_Server
  imports Api_Router Control_Approval Revision_Service
begin

text \<open>
  The HTTP server in front of everything (\<open>createServer\<close> in \<open>src/brain-server/src/api/routes.ts\<close>): the rate limiter
  with its pruning, the boundary of the control surface, and the dispatch of a request up to the point
  where its body is read and a handler takes over. The path name of the parsed URL is part of the request;
  clock readings, random bytes, and the lookup of an authorization record are arguments.
\<close>

section \<open>The rate limiter\<close>

record rate_config =
  rl_window_ms :: int
  rl_max :: nat

definition rate_limit_max_keys :: nat where
  "rate_limit_max_keys = 5000"

type_synonym rate_buckets = "(string, attempt_bucket) jsmap"

definition prune_rate_limit_buckets :: "int \<Rightarrow> rate_buckets \<Rightarrow> rate_buckets" where
  "prune_rate_limit_buckets now m =
     (if length m \<le> rate_limit_max_keys then m
      else (let live = filter (\<lambda>(k, b). \<not> bk_reset_at b \<le> now) m in
        if length live > rate_limit_max_keys
        then (let sorted = sort_key (\<lambda>(k, b). bk_reset_at b) live;
                  doomed = map fst (take (length sorted - rate_limit_max_keys div 2) sorted) in
              filter (\<lambda>(k, b). k \<notin> set doomed) live)
        else live))"

definition is_loopback_address :: "string option \<Rightarrow> bool" where
  "is_loopback_address a \<longleftrightarrow> a \<in> set [Some ''127.0.0.1'', Some ''::1'', Some ''::ffff:127.0.0.1'']"

record http_request =
  hr_method :: string
  hr_path :: string
  hr_raw_path :: string
  hr_remote :: "string option"
  hr_host :: "string option"
  hr_origin :: "string option"
  hr_authorization :: "string option"

definition is_health_request :: "http_request \<Rightarrow> bool" where
  "is_health_request req \<longleftrightarrow> hr_method req = ''GET'' \<and> hr_raw_path req = ''/health''"

definition remote_key :: "string option \<Rightarrow> string" where
  "remote_key a = (case a of Some x \<Rightarrow> if x = [] then ''unknown'' else x | None \<Rightarrow> ''unknown'')"

definition check_rate_limit :: "rate_config \<Rightarrow> http_request \<Rightarrow> int \<Rightarrow> rate_buckets \<Rightarrow> bool \<times> rate_buckets" where
  "check_rate_limit cfg req now m =
     (if hr_method req = ''OPTIONS'' \<or> is_health_request req \<or> is_loopback_address (hr_remote req) then (True, m)
      else (let key = remote_key (hr_remote req);
                fresh = (True, prune_rate_limit_buckets now
                  (map_set key \<lparr>bk_count = 1, bk_reset_at = now + rl_window_ms cfg\<rparr> m)) in
        case map_get m key of None \<Rightarrow> fresh
        | Some b \<Rightarrow> if bk_reset_at b \<le> now then fresh
            else (Suc (bk_count b) \<le> rl_max cfg, map_set key (b\<lparr>bk_count := Suc (bk_count b)\<rparr>) m)))"

section \<open>The control boundary\<close>

text \<open>\<open>/^(localhost|127\.0\.0\.1|\[::1\])(?::\d{1,5})?$/\<close> on the host in lower case.\<close>

definition port_suffix :: "string \<Rightarrow> bool" where
  "port_suffix s \<longleftrightarrow> s = [] \<or> (hd s = CHR '':'' \<and> 1 \<le> length (tl s) \<and> length (tl s) \<le> 5 \<and> list_all is_digit (tl s))"

definition control_host_allowed :: "http_request \<Rightarrow> bool" where
  "control_host_allowed req = (let host = map to_lower (case hr_host req of None \<Rightarrow> [] | Some h \<Rightarrow> h) in
     list_ex (\<lambda>name. prefix name host \<and> port_suffix (drop (length name) host)) [''localhost'', ''127.0.0.1'', ''[::1]''])"

definition control_boundary_failure :: "http_request \<Rightarrow> string option" where
  "control_boundary_failure req =
     (if \<not> is_loopback_address (hr_remote req) then Some ''CONTROL_REMOTE_ADDRESS_REJECTED''
      else if \<not> control_host_allowed req then Some ''CONTROL_HOST_REJECTED''
      else if hr_origin req \<noteq> None \<and> hr_origin req \<noteq> Some [] then Some ''CONTROL_ORIGIN_REJECTED''
      else None)"

definition posts_to :: "string \<Rightarrow> http_request \<Rightarrow> bool" where
  "posts_to path req \<longleftrightarrow> hr_method req = ''POST'' \<and> hr_path req = path"

text \<open>\<open>/^\/internal\/control\/plan\/[^/]+$/\<close>\<close>

definition plan_lookup_segment :: "http_request \<Rightarrow> string option" where
  "plan_lookup_segment req = (let s = drop 23 (hr_path req) in
     if hr_method req = ''GET'' \<and> prefix ''/internal/control/plan/'' (hr_path req) \<and> s \<noteq> [] \<and> list_all (\<lambda>c. \<not> slash c) s
     then Some s else None)"

section \<open>Dispatch\<close>

record server_config =
  sc_auth :: auth_config
  sc_rate :: rate_config
  sc_bridge_secret :: "string option"
  sc_lookup :: "(string \<Rightarrow> plan_authorization option) option"
  sc_verification :: bool

record server_state =
  sv_auth :: auth_state
  sv_sessions :: control_sessions
  sv_buckets :: rate_buckets

record dispatch_input =
  di_session_now :: int
  di_burst_now :: int
  di_rate_now :: int
  di_auth_now1 :: int
  di_auth_now2 :: int
  di_auth_now3 :: int
  di_admin_now :: int
  di_token_random :: string
  di_id_random :: string

datatype dispatch_result =
    Error_reply nat string
  | No_content
  | Session_issued string control_session
  | Sessions_revoked
  | Plan_record plan_authorization
  | To_native_receipt
  | To_native_verification
  | To_approve control_session
  | To_verify control_session
  | To_reopen control_session
  | Health
  | To_pair_exchange
  | Administered admin_reply
  | Routed principal routed
  | Crashed

definition bridge_authorized :: "server_config \<Rightarrow> http_request \<Rightarrow> bool" where
  "bridge_authorized cfg req = (let expected = js_trim (case sc_bridge_secret cfg of None \<Rightarrow> [] | Some x \<Rightarrow> x) in
     expected \<noteq> [] \<and> read_bearer_token (hr_authorization req) = expected)"

text \<open>The guard of the internal endpoints: the boundary, then the secret of the native bridge.\<close>

definition bridge_guard :: "server_config \<Rightarrow> http_request \<Rightarrow> dispatch_result \<Rightarrow> dispatch_result" where
  "bridge_guard cfg req ok = (case control_boundary_failure req of Some e \<Rightarrow> Error_reply 403 e
     | None \<Rightarrow> if bridge_authorized cfg req then ok else Error_reply 401 ''CONTROL_AUTH_REQUIRED'')"

definition session_mint ::
  "server_config \<Rightarrow> http_request \<Rightarrow> mint_argument \<Rightarrow> dispatch_input \<Rightarrow> server_state \<Rightarrow> dispatch_result \<times> server_state" where
  "session_mint cfg req arg inp s = (case bridge_guard cfg req No_content of
     No_content \<Rightarrow> (case mint (ag_sha (sc_auth cfg)) arg (di_session_now inp) (di_token_random inp) (di_id_random inp) (sv_sessions s) of
         None \<Rightarrow> (Crashed, s)
       | Some ((token, c), m) \<Rightarrow> (Session_issued token c, s\<lparr>sv_sessions := m\<rparr>))
   | r \<Rightarrow> (r, s))"

definition authenticate_request :: "server_config \<Rightarrow> http_request \<Rightarrow> dispatch_input \<Rightarrow> server_state \<Rightarrow> principal option \<times> server_state" where
  "authenticate_request cfg req inp s =
     (case authenticate (sc_auth cfg) (hr_authorization req) (di_auth_now1 inp) (di_auth_now2 inp) (di_auth_now3 inp) (sv_auth s) of
       (p, a) \<Rightarrow> (p, s\<lparr>sv_auth := a\<rparr>))"

text \<open>
  The guard of the three control operations. Two of them require a scope of the session and name the error of a
  session with another one; the approval requires none.
\<close>

definition session_guard ::
  "server_config \<Rightarrow> http_request \<Rightarrow> (control_scope \<times> string) option \<Rightarrow> (control_session \<Rightarrow> dispatch_result) \<Rightarrow> dispatch_input \<Rightarrow>
   server_state \<Rightarrow> dispatch_result \<times> server_state" where
  "session_guard cfg req needed ok inp s = (case control_boundary_failure req of Some e \<Rightarrow> (Error_reply 403 e, s)
     | None \<Rightarrow>
       (case session_authenticate (ag_sha (sc_auth cfg)) (read_bearer_token (hr_authorization req)) (di_session_now inp) (sv_sessions s) of
          (None, m) \<Rightarrow> (case authenticate_request cfg req inp (s\<lparr>sv_sessions := m\<rparr>) of
              (None, s') \<Rightarrow> (Error_reply 401 ''CONTROL_AUTH_REQUIRED'', s')
            | (Some p, s') \<Rightarrow> (Error_reply 403 ''CONTROL_SCOPE_INSUFFICIENT'', s'))
        | (Some c, m) \<Rightarrow>
            (case needed of
               Some (sc, e) \<Rightarrow> if cs_scope c \<noteq> sc then (Error_reply 403 e, s\<lparr>sv_sessions := m\<rparr>)
                 else (case consume_burst (cs_id c) (di_burst_now inp) m of
                   (b, m') \<Rightarrow> (if b then ok c else Error_reply 429 ''CONTROL_RATE_LIMITED'', s\<lparr>sv_sessions := m'\<rparr>))
             | None \<Rightarrow> (case consume_burst (cs_id c) (di_burst_now inp) m of
                   (b, m') \<Rightarrow> (if b then ok c else Error_reply 429 ''CONTROL_RATE_LIMITED'', s\<lparr>sv_sessions := m'\<rparr>)))))"

definition options_reply :: "http_request \<Rightarrow> dispatch_result" where
  "options_reply req = (if hr_path req \<in> set [''/api/control/approve'', ''/api/control/verify'', ''/api/control/reopen'',
       ''/internal/control/native-receipt'', ''/internal/control/native-verification'']
     \<or> prefix ''/internal/control/session'' (hr_path req) then Error_reply 405 ''CONTROL_OPTIONS_REJECTED'' else No_content)"

definition plan_reply :: "server_config \<Rightarrow> string \<Rightarrow> dispatch_result" where
  "plan_reply cfg segment = (case ag_decode (sc_auth cfg) segment of None \<Rightarrow> Crashed
     | Some i \<Rightarrow> (case Option.bind (sc_lookup cfg) (\<lambda>look. look i) of
         None \<Rightarrow> Error_reply 404 ''PLAN_NOT_FOUND'' | Some r \<Rightarrow> Plan_record r))"

text \<open>The part for all other paths: rate limit, health, pairing, authentication, scope, device administration, routes.\<close>

definition dispatch_api :: "server_config \<Rightarrow> http_request \<Rightarrow> dispatch_input \<Rightarrow> server_state \<Rightarrow> dispatch_result \<times> server_state" where
  "dispatch_api cfg req inp s = (case check_rate_limit (sc_rate cfg) req (di_rate_now inp) (sv_buckets s) of (allowed, buckets) \<Rightarrow>
     let s1 = s\<lparr>sv_buckets := buckets\<rparr> in
     if \<not> allowed then (Error_reply 429 ''Too many requests'', s1)
     else if is_health_request req then (Health, s1)
     else if posts_to ''/api/auth/pair/exchange'' req then (To_pair_exchange, s1)
     else (case authenticate_request cfg req inp s1 of
         (None, s2) \<Rightarrow> (Error_reply 401 ''Unauthorized. Use Authorization: Bearer <token>'', s2)
       | (Some p, s2) \<Rightarrow>
           if \<not> authorize (hr_path req) (hr_method req) p
           then (Error_reply 403 ''Forbidden: token scope does not allow this operation'', s2)
           else (case handle_device_administration (sc_auth cfg) (hr_path req) (hr_method req) (di_admin_now inp) (sv_auth s2) of
               (Not_administration, _) \<Rightarrow> (Routed p (find_route (ag_decode (sc_auth cfg)) api_routes (hr_method req) (hr_path req)), s2)
             | (reply, a) \<Rightarrow> (Administered reply, s2\<lparr>sv_auth := a\<rparr>))))"

definition dispatch :: "server_config \<Rightarrow> http_request \<Rightarrow> dispatch_input \<Rightarrow> server_state \<Rightarrow> dispatch_result \<times> server_state" where
  "dispatch cfg req inp s =
     (if hr_method req = ''OPTIONS'' then (options_reply req, s)
      else if posts_to ''/internal/control/session'' req then session_mint cfg req Default_scope inp s
      else if posts_to ''/internal/control/session/verify'' req then session_mint cfg req (Scope_argument Control_verify) inp s
      else if posts_to ''/internal/control/session/reopen'' req then session_mint cfg req (Scope_argument Control_reopen) inp s
      else if posts_to ''/internal/control/session/revoke'' req then
        (case bridge_guard cfg req Sessions_revoked of
           Sessions_revoked \<Rightarrow> (Sessions_revoked, s\<lparr>sv_sessions := session_revoke_all (sv_sessions s)\<rparr>) | r \<Rightarrow> (r, s))
      else (case plan_lookup_segment req of
        Some segment \<Rightarrow> (bridge_guard cfg req (plan_reply cfg segment), s)
      | None \<Rightarrow>
        if posts_to ''/internal/control/native-receipt'' req \<or> posts_to ''/internal/control/native-verification'' req then
          (bridge_guard cfg req (if \<not> sc_verification cfg then Error_reply 503 ''VERIFY_RUNTIME_UNAVAILABLE''
             else if posts_to ''/internal/control/native-receipt'' req then To_native_receipt else To_native_verification), s)
        else if posts_to ''/api/control/approve'' req then session_guard cfg req None To_approve inp s
        else if posts_to ''/api/control/verify'' req then
          session_guard cfg req (Some (Control_verify, ''VERIFY_SCOPE_INSUFFICIENT'')) To_verify inp s
        else if posts_to ''/api/control/reopen'' req then
          session_guard cfg req (Some (Control_reopen, ''REOPEN_SCOPE_INSUFFICIENT'')) To_reopen inp s
        else dispatch_api cfg req inp s))"

section \<open>Reopening, and the answers to errors\<close>

text \<open>\<open>control/reopen-facade.ts\<close>\<close>

definition control_reopen ::
  "revision_config option \<Rightarrow> reopen_request raw \<Rightarrow> control_session \<Rightarrow> reopen_inputs \<Rightarrow> decision_world \<Rightarrow>
   reopen_result revision_result \<times> decision_world" where
  "control_reopen runtime raw session x w =
     (if cs_scope session \<noteq> Control_reopen then (Inl (Throws REVISION_SCOPE_INSUFFICIENT), w)
      else (case runtime of None \<Rightarrow> (Inl (Throws REVISION_RUNTIME_UNAVAILABLE), w)
        | Some cfg \<Rightarrow> reopen cfg raw \<lparr>ra_id = cs_actor_id session, ra_kind = cs_actor_kind session, ra_scope = control_reopen_scope\<rparr> x w))"

text \<open>The status and the public code for what an operation throws.\<close>

definition internal_control_error :: "nat \<times> string" where
  "internal_control_error = (500, ''INTERNAL_CONTROL_ERROR'')"

definition approve_error_reply :: "approval_error_code throws \<Rightarrow> nat \<times> string" where
  "approve_error_reply e = (case e of
     Throws APPROVAL_INPUT_INVALID \<Rightarrow> (400, ''PLAN_NOT_APPROVABLE'')
   | Throws APPROVAL_PLAN_NOT_FOUND \<Rightarrow> (404, ''PLAN_NOT_FOUND'')
   | Throws APPROVAL_REQUEST_EXPIRED \<Rightarrow> (409, ''PLAN_EXPIRED'')
   | Throws APPROVAL_STATE_CONFLICT \<Rightarrow> (409, ''PLAN_NOT_APPROVABLE'')
   | Throws APPROVAL_GRANT_INVALID \<Rightarrow> (502, ''NATIVE_APPROVAL_UNAVAILABLE'')
   | Throws APPROVAL_GRANT_EXPIRED \<Rightarrow> (409, ''PLAN_EXPIRED'')
   | Throws APPROVAL_AUTHORITY_INSUFFICIENT \<Rightarrow> (403, ''APPROVAL_AUTHORITY_INSUFFICIENT'')
   | Throws APPROVAL_STORE_CONFLICT \<Rightarrow> (409, ''PLAN_ALREADY_CONSUMED'')
   | Throws APPROVAL_AUDIT_UNAVAILABLE \<Rightarrow> (503, ''CONTROL_AUDIT_UNAVAILABLE'')
   | _ \<Rightarrow> internal_control_error)"

definition verify_error_reply :: "verification_error_code throws \<Rightarrow> nat \<times> string" where
  "verify_error_reply e = (case e of
     Throws VERIFY_INPUT_INVALID \<Rightarrow> (400, ''VERIFY_INPUT_INVALID'')
   | Throws VERIFY_PLAN_NOT_FOUND \<Rightarrow> (404, ''PLAN_NOT_FOUND'')
   | Throws VERIFY_SCOPE_INSUFFICIENT \<Rightarrow> (403, ''VERIFY_SCOPE_INSUFFICIENT'')
   | Throws VERIFY_RUNTIME_UNAVAILABLE \<Rightarrow> (503, ''VERIFY_RUNTIME_UNAVAILABLE'')
   | _ \<Rightarrow> internal_control_error)"

definition reopen_error_reply :: "revision_error_code throws \<Rightarrow> nat \<times> string" where
  "reopen_error_reply e = (case e of
     Throws REVISION_INPUT_INVALID \<Rightarrow> (400, ''REOPEN_INPUT_INVALID'')
   | Throws REVISION_REASON_REQUIRED \<Rightarrow> (400, ''REOPEN_REASON_REQUIRED'')
   | Throws REVISION_DECISION_NOT_FOUND \<Rightarrow> (404, ''DECISION_NOT_FOUND'')
   | Throws REVISION_OUTCOME_NOT_BOUND \<Rightarrow> (409, ''REOPEN_OUTCOME_NOT_BOUND'')
   | Throws REVISION_NOT_ELIGIBLE \<Rightarrow> (409, ''REOPEN_NOT_ELIGIBLE'')
   | Throws REVISION_ACTIVE_EXISTS \<Rightarrow> (409, ''REOPEN_ALREADY_ACTIVE'')
   | Throws REVISION_FORK_BLOCKED \<Rightarrow> (409, ''REOPEN_FORK_BLOCKED'')
   | Throws REVISION_CYCLE_BLOCKED \<Rightarrow> (409, ''REOPEN_CHAIN_INVALID'')
   | Throws REVISION_INDEX_INVALID \<Rightarrow> (409, ''REOPEN_CHAIN_INVALID'')
   | Throws REVISION_CONTEXT_INVALID \<Rightarrow> (409, ''REOPEN_CONTEXT_INVALID'')
   | Throws REVISION_EVIDENCE_REQUALIFICATION_FAILED \<Rightarrow> (422, ''REOPEN_EVIDENCE_REQUALIFICATION_FAILED'')
   | Throws REVISION_AUTHORITY_REQUIRED \<Rightarrow> (403, ''REOPEN_AUTHORITY_REQUIRED'')
   | Throws REVISION_SCOPE_INSUFFICIENT \<Rightarrow> (403, ''REOPEN_SCOPE_INSUFFICIENT'')
   | Throws REVISION_RUNTIME_UNAVAILABLE \<Rightarrow> (503, ''REOPEN_RUNTIME_UNAVAILABLE'')
   | Throws REVISION_PERSISTENCE_FAILURE \<Rightarrow> (503, ''REOPEN_PERSISTENCE_UNAVAILABLE'')
   | _ \<Rightarrow> internal_control_error)"

text \<open>The private endpoints of the native bridge.\<close>

definition native_error_reply :: "verification_error_code throws \<Rightarrow> nat \<times> string" where
  "native_error_reply e = (case e of
     Throws VERIFY_PLAN_NOT_FOUND \<Rightarrow> (404, ''PLAN_NOT_FOUND'')
   | Throws NATIVE_RECEIPT_INVALID \<Rightarrow> (400, ''NATIVE_RECEIPT_INVALID'')
   | Throws NATIVE_RECEIPT_IN_FLIGHT \<Rightarrow> (409, ''NATIVE_RECEIPT_IN_FLIGHT'')
   | Throws NATIVE_RECEIPT_DUPLICATE \<Rightarrow> (409, ''NATIVE_RECEIPT_DUPLICATE'')
   | Throws NATIVE_OBSERVATION_INVALID \<Rightarrow> (400, ''NATIVE_OBSERVATION_INVALID'')
   | Throws VERIFY_RUNTIME_UNAVAILABLE \<Rightarrow> (503, ''VERIFY_RUNTIME_UNAVAILABLE'')
   | Throws (Outcome_refused OUTCOME_INPUT_INVALID) \<Rightarrow> (400, ''NATIVE_OBSERVATION_INVALID'')
   | Throws (Outcome_refused OUTCOME_FRESHNESS_INVALID) \<Rightarrow> (409, ''NATIVE_OBSERVATION_INVALID'')
   | Throws (Outcome_refused OUTCOME_ATTEMPTS_EXHAUSTED) \<Rightarrow> (409, ''VERIFY_ALREADY_FINAL'')
   | Throws (Outcome_refused OUTCOME_ATTEMPT_MISMATCH) \<Rightarrow> (409, ''NATIVE_OBSERVATION_INVALID'')
   | _ \<Rightarrow> internal_control_error)"

text \<open>Every code of a reopening has an answer of its own; only other errors become an internal error.\<close>

lemma reopen_codes_public: "fst (reopen_error_reply (Throws c)) \<noteq> 500"
  by (cases c) (simp_all add: reopen_error_reply_def)

section \<open>The limiter's memory is bounded\<close>

lemma keys_distinct_filter: "keys_distinct m \<Longrightarrow> keys_distinct (filter P m)"
  by (simp add: keys_distinct_def distinct_map_filter)

lemma length_pruned_half:
  assumes "keys_distinct m"
  shows "length (filter (\<lambda>(k, b). k \<notin> set (map fst (take n (sort_key f m)))) m) \<le> length m - n"
proof -
  let ?doomed = "take n (sort_key f m)"
  have d: "distinct m" "inj_on fst (set m)" using assms by (auto simp: keys_distinct_def distinct_map)
  have sub: "set ?doomed \<subseteq> set m" using set_take_subset [of n "sort_key f m"] by simp
  have mem: "x \<in> set ?doomed" if x: "x \<in> set m" "fst x \<in> fst ` set ?doomed" for x
  proof -
    obtain y where y: "y \<in> set ?doomed" "fst x = fst y" using x(2) by auto
    then have "x = y" using inj_onD [OF d(2), of x y] x(1) sub by blast
    then show ?thesis using y(1) by simp
  qed
  have "filter (\<lambda>(k, b). k \<notin> set (map fst ?doomed)) m = filter (\<lambda>x. x \<notin> set ?doomed) m"
    using mem by (intro filter_cong) (force simp: split_beta)+
  moreover have "set (filter (\<lambda>x. x \<notin> set ?doomed) m) = set m - set ?doomed" by auto
  moreover have "distinct ?doomed" using d(1) by (simp add: distinct_take)
  ultimately have "length (filter (\<lambda>(k, b). k \<notin> set (map fst ?doomed)) m) = card (set m) - length ?doomed"
    using d(1) sub by (metis card_Diff_subset distinct_card distinct_filter List.finite_set)
  then show ?thesis using distinct_card [OF d(1)] by simp
qed

lemma prune_bounds:
  assumes "keys_distinct m"
  shows "length (prune_rate_limit_buckets now m) \<le> rate_limit_max_keys" "keys_distinct (prune_rate_limit_buckets now m)"
proof -
  let ?live = "filter (\<lambda>(k, b). \<not> bk_reset_at b \<le> now) m"
  have live: "keys_distinct ?live" using assms by (rule keys_distinct_filter)
  show "keys_distinct (prune_rate_limit_buckets now m)"
    using assms live by (simp add: prune_rate_limit_buckets_def Let_def keys_distinct_filter)
  have "length (filter (\<lambda>(k, b). k \<notin> set (map fst (take (length ?live - rate_limit_max_keys div 2)
      (sort_key (\<lambda>(k, b). bk_reset_at b) ?live)))) ?live) \<le> length ?live - (length ?live - rate_limit_max_keys div 2)"
    by (rule length_pruned_half [OF live])
  also have "\<dots> \<le> rate_limit_max_keys" by simp
  finally show "length (prune_rate_limit_buckets now m) \<le> rate_limit_max_keys"
    by (simp add: prune_rate_limit_buckets_def Let_def not_less)
qed

fun limited_run :: "rate_config \<Rightarrow> (http_request \<times> int) list \<Rightarrow> rate_buckets \<Rightarrow> rate_buckets" where
  "limited_run cfg [] m = m"
| "limited_run cfg ((req, now) # xs) m = limited_run cfg xs (snd (check_rate_limit cfg req now m))"

lemma check_rate_limit_bounds:
  assumes "keys_distinct m" "length m \<le> rate_limit_max_keys"
  shows "length (snd (check_rate_limit cfg req now m)) \<le> rate_limit_max_keys \<and> keys_distinct (snd (check_rate_limit cfg req now m))"
proof -
  have "length (map_set k b m) = length m" if "map_get m k = Some c" for k b c
    using that assms(1) by (simp add: length_map_set map_has_def)
  then show ?thesis using assms prune_bounds by (auto simp: check_rate_limit_def Let_def split: option.splits)
qed

text \<open>However many addresses send requests, the limiter keeps at most five thousand buckets after each of them.\<close>

lemma rate_limit_memory_bounded:
  "length (limited_run cfg xs []) \<le> 5000"
proof -
  have "keys_distinct m \<Longrightarrow> length m \<le> rate_limit_max_keys \<Longrightarrow> length (limited_run cfg xs m) \<le> rate_limit_max_keys" for m
    by (induction cfg xs m rule: limited_run.induct) (simp_all add: check_rate_limit_bounds)
  from this [of "[]"] show ?thesis by (simp add: rate_limit_max_keys_def)
qed

section \<open>Guards\<close>

fun bridge_effect :: "dispatch_result \<Rightarrow> bool" where
  "bridge_effect (Session_issued token c) = True"
| "bridge_effect Sessions_revoked = True"
| "bridge_effect (Plan_record r) = True"
| "bridge_effect To_native_receipt = True"
| "bridge_effect To_native_verification = True"
| "bridge_effect _ = False"

fun session_of :: "dispatch_result \<Rightarrow> control_session option" where
  "session_of (To_approve c) = Some c"
| "session_of (To_verify c) = Some c"
| "session_of (To_reopen c) = Some c"
| "session_of _ = None"

lemma boundary_None: "control_boundary_failure req = None \<longleftrightarrow>
    is_loopback_address (hr_remote req) \<and> control_host_allowed req \<and> (hr_origin req = None \<or> hr_origin req = Some [])"
  by (auto simp: control_boundary_failure_def)

text \<open>What a guard lets through: an error otherwise.\<close>

lemma bridge_guard_cases:
  obtains (passed) "bridge_guard cfg req ok = ok" "control_boundary_failure req = None" "bridge_authorized cfg req"
  | (refused) n e where "bridge_guard cfg req ok = Error_reply n e"
proof -
  have "bridge_guard cfg req ok = ok \<and> control_boundary_failure req = None \<and> bridge_authorized cfg req \<or>
    (\<exists>n e. bridge_guard cfg req ok = Error_reply n e)"
    by (simp add: bridge_guard_def split: option.split)
  then show ?thesis using that by blast
qed

lemma session_mint_effect:
  assumes "session_mint cfg req arg inp s = (res, s')"
  shows "session_of res = None \<and> (bridge_effect res \<longrightarrow> control_boundary_failure req = None \<and> bridge_authorized cfg req)"
proof (cases rule: bridge_guard_cases [of cfg req No_content])
  case passed
  then show ?thesis using assms by (auto simp: session_mint_def split: option.splits)
next
  case (refused n e)
  then have "res = Error_reply n e" using assms by (simp add: session_mint_def)
  then show ?thesis by simp
qed

lemma session_guard_effect:
  assumes "session_guard cfg req needed ok inp s = (res, s')" "\<And>c. session_of (ok c) = Some c \<and> \<not> bridge_effect (ok c)"
  shows "\<not> bridge_effect res \<and> (\<forall>c. session_of res = Some c \<longrightarrow> control_boundary_failure req = None \<and> res = ok c \<and>
    fst (session_authenticate (ag_sha (sc_auth cfg)) (read_bearer_token (hr_authorization req)) (di_session_now inp) (sv_sessions s)) = Some c \<and>
    (\<forall>sc e. needed = Some (sc, e) \<longrightarrow> cs_scope c = sc))"
  using assms by (auto simp: session_guard_def split: option.splits prod.splits if_splits)

lemma dispatch_api_effect: "dispatch_api cfg req inp s = (res, s') \<Longrightarrow> \<not> bridge_effect res \<and> session_of res = None"
  by (auto simp: dispatch_api_def Let_def split: prod.splits option.splits if_splits admin_reply.splits)

lemma options_effect: "\<not> bridge_effect (options_reply req)" "session_of (options_reply req) = None"
  by (simp_all add: options_reply_def)

lemma plan_reply_session: "session_of (plan_reply cfg seg) = None"
  by (simp add: plan_reply_def split: option.splits)

definition guarded_result :: "server_config \<Rightarrow> http_request \<Rightarrow> dispatch_input \<Rightarrow> server_state \<Rightarrow> dispatch_result \<Rightarrow> bool" where
  "guarded_result cfg req inp s res \<longleftrightarrow>
     (bridge_effect res \<longrightarrow> control_boundary_failure req = None \<and> bridge_authorized cfg req) \<and>
     (\<forall>c. session_of res = Some c \<longrightarrow> control_boundary_failure req = None \<and>
       fst (session_authenticate (ag_sha (sc_auth cfg)) (read_bearer_token (hr_authorization req)) (di_session_now inp) (sv_sessions s)) = Some c \<and>
       (res = To_verify c \<longrightarrow> cs_scope c = Control_verify) \<and> (res = To_reopen c \<longrightarrow> cs_scope c = Control_reopen))"

lemma guarded_bridge: "session_of ok = None \<Longrightarrow> guarded_result cfg req inp s (bridge_guard cfg req ok)"
  by (cases rule: bridge_guard_cases [of cfg req ok]) (auto simp: guarded_result_def)

lemma guarded_session:
  assumes "session_guard cfg req needed ok inp s = (res, s')"
    "(needed, ok) \<in> {(None, To_approve), (Some (Control_verify, e), To_verify), (Some (Control_reopen, e), To_reopen)}"
  shows "guarded_result cfg req inp s res"
proof -
  have "\<And>c. session_of (ok c) = Some c \<and> \<not> bridge_effect (ok c)" using assms(2) by auto
  from session_guard_effect [OF assms(1) this] show ?thesis using assms(2) by (auto simp: guarded_result_def)
qed

lemma guarded_none: "\<not> bridge_effect r \<Longrightarrow> session_of r = None \<Longrightarrow> guarded_result cfg req inp s r"
  by (simp add: guarded_result_def)

lemma guarded_mint: "session_mint cfg req arg inp s = (res, s') \<Longrightarrow> guarded_result cfg req inp s res"
  using session_mint_effect by (auto simp: guarded_result_def)

lemma guarded_revoke:
  "(case bridge_guard cfg req Sessions_revoked of
      Sessions_revoked \<Rightarrow> (Sessions_revoked, s\<lparr>sv_sessions := session_revoke_all (sv_sessions s)\<rparr>) | r \<Rightarrow> (r, s)) = (res, s') \<Longrightarrow>
   guarded_result cfg req inp s res"
  using guarded_bridge [of Sessions_revoked cfg req inp s] by (cases rule: bridge_guard_cases [of cfg req Sessions_revoked]) auto

lemma guarded_plan: "guarded_result cfg req inp s (bridge_guard cfg req (plan_reply cfg seg))"
  by (rule guarded_bridge [OF plan_reply_session])

lemma guarded_native: "guarded_result cfg req inp s (bridge_guard cfg req
    (if \<not> sc_verification cfg then Error_reply 503 e else if b then To_native_receipt else To_native_verification))"
  by (rule guarded_bridge) simp

lemma guarded_api: "dispatch_api cfg req inp s = (res, s') \<Longrightarrow> guarded_result cfg req inp s res"
  using dispatch_api_effect guarded_none by blast

text \<open>The branches of the dispatch.\<close>

lemma dispatch_cases:
  assumes "dispatch cfg req inp s = (res, s')"
  obtains (options) "res = options_reply req"
  | (mint) arg where "session_mint cfg req arg inp s = (res, s')"
  | (revoke) "(case bridge_guard cfg req Sessions_revoked of
      Sessions_revoked \<Rightarrow> (Sessions_revoked, s\<lparr>sv_sessions := session_revoke_all (sv_sessions s)\<rparr>) | r \<Rightarrow> (r, s)) = (res, s')"
  | (plan) seg where "res = bridge_guard cfg req (plan_reply cfg seg)"
  | (native) b e where "res = bridge_guard cfg req
      (if \<not> sc_verification cfg then Error_reply 503 e else if b then To_native_receipt else To_native_verification)"
  | (control) needed ok e where "session_guard cfg req needed ok inp s = (res, s')"
      "(needed, ok) \<in> {(None, To_approve), (Some (Control_verify, e), To_verify), (Some (Control_reopen, e), To_reopen)}"
  | (api) "dispatch_api cfg req inp s = (res, s')"
proof -
  have "res = options_reply req \<or> (\<exists>arg. session_mint cfg req arg inp s = (res, s')) \<or>
    (case bridge_guard cfg req Sessions_revoked of
      Sessions_revoked \<Rightarrow> (Sessions_revoked, s\<lparr>sv_sessions := session_revoke_all (sv_sessions s)\<rparr>) | r \<Rightarrow> (r, s)) = (res, s') \<or>
    (\<exists>seg. res = bridge_guard cfg req (plan_reply cfg seg)) \<or>
    (\<exists>b e. res = bridge_guard cfg req
      (if \<not> sc_verification cfg then Error_reply 503 e else if b then To_native_receipt else To_native_verification)) \<or>
    (\<exists>needed ok e. session_guard cfg req needed ok inp s = (res, s') \<and>
      (needed, ok) \<in> {(None, To_approve), (Some (Control_verify, e), To_verify), (Some (Control_reopen, e), To_reopen)}) \<or>
    dispatch_api cfg req inp s = (res, s')"
    using assms unfolding dispatch_def by (simp split: if_splits option.splits) (blast | metis)+
  then show ?thesis using that by (elim disjE exE conjE) assumption+
qed

lemma dispatch_guarded:
  assumes "dispatch cfg req inp s = (res, s')"
  shows "guarded_result cfg req inp s res"
  using assms
proof (cases rule: dispatch_cases)
  case options
  then show ?thesis using guarded_none [OF options_effect] by simp
next
  case (plan seg)
  then show ?thesis using guarded_plan by simp
next
  case (native b e)
  then show ?thesis using guarded_native by simp
next
  case (control needed ok e)
  then show ?thesis by (rule guarded_session)
qed (rule guarded_mint guarded_revoke guarded_api, assumption)+

text \<open>C5: The control endpoints are guarded, each by its own key. A request that mints or revokes control sessions, that is
  answered by the internal lookup of one plan, or that delivers a native receipt or a native observation comes over
  loopback, for a local host name, without an origin, and with the secret of the native bridge. A request
  that is handed to the approval, to the verification or to the reopening of a plan comes over the same boundary with
  the token of a live control session, for the last two of the right scope. The statement is about these
  effects of the dispatch only: the reads of the REST interface, such as the list of plans under
  /api/control/plans or a revision under /api/control/revisions, are ordinary routes, which a
  paired device with the scope of the route may use.
\<close>

theorem control_surface_guarded:
  assumes "dispatch cfg req inp s = (res, s')" "bridge_effect res \<or> session_of res \<noteq> None"
  shows "is_loopback_address (hr_remote req) \<and> control_host_allowed req \<and> (hr_origin req = None \<or> hr_origin req = Some []) \<and>
    (bridge_effect res \<longrightarrow> bridge_authorized cfg req) \<and>
    (\<forall>c. session_of res = Some c \<longrightarrow>
       fst (session_authenticate (ag_sha (sc_auth cfg)) (read_bearer_token (hr_authorization req)) (di_session_now inp) (sv_sessions s)) = Some c \<and>
       (res = To_verify c \<longrightarrow> cs_scope c = Control_verify) \<and> (res = To_reopen c \<longrightarrow> cs_scope c = Control_reopen))"
  using dispatch_guarded [OF assms(1)] assms(2) by (auto simp: guarded_result_def boundary_None)

lemma dispatch_routed:
  assumes "dispatch cfg req inp s = (Routed p r, s')"
  shows "\<exists>a. authenticate (sc_auth cfg) (hr_authorization req) (di_auth_now1 inp) (di_auth_now2 inp) (di_auth_now3 inp) (sv_auth s) = (Some p, a) \<and>
    authorize (hr_path req) (hr_method req) p \<and> r = find_route (ag_decode (sc_auth cfg)) api_routes (hr_method req) (hr_path req)"
proof -
  from assms have "dispatch_api cfg req inp s = (Routed p r, s')"
  proof (cases rule: dispatch_cases)
    case (mint arg)
    then show ?thesis by (cases rule: bridge_guard_cases [of cfg req No_content]) (auto simp: session_mint_def split: option.splits)
  next
    case revoke
    then show ?thesis by (cases rule: bridge_guard_cases [of cfg req Sessions_revoked]) auto
  next
    case (plan seg)
    then show ?thesis by (cases rule: bridge_guard_cases [of cfg req "plan_reply cfg seg"]) (auto simp: plan_reply_def split: option.splits)
  next
    case (native b e)
    then show ?thesis by (simp add: bridge_guard_def split: option.splits if_splits)
  next
    case (control needed ok e)
    then show ?thesis by (auto simp: session_guard_def split: option.splits prod.splits if_splits)
  qed (simp_all add: options_reply_def split: if_splits)
  then show ?thesis
    by (auto simp: dispatch_api_def authenticate_request_def Let_def split: prod.splits option.splits if_splits admin_reply.splits)
qed

text \<open>C14: No device reaches administration: whatever tokens were paired before, a request without empty path segments that
  gets to a handler of the administration, of the settings or of any deletion carries the local token of the
  desktop.
\<close>

theorem administration_is_local:
  assumes "auth_reachable (sc_auth cfg) (sv_auth s, ps)" "dispatch cfg req inp s = (Routed p (Handled r m), s')"
    and "canonical_path (hr_path req)" "administrative r"
  shows "p = local_principal \<and> read_bearer_token (hr_authorization req) = ag_local_token (sc_auth cfg) \<and> ag_local_token (sc_auth cfg) \<noteq> []"
proof -
  obtain a where a: "authenticate (sc_auth cfg) (hr_authorization req) (di_auth_now1 inp) (di_auth_now2 inp) (di_auth_now3 inp) (sv_auth s) = (Some p, a)"
    "authorize (hr_path req) (hr_method req) p" "find_route (ag_decode (sc_auth cfg)) api_routes (hr_method req) (hr_path req) = Handled r m"
    using dispatch_routed [OF assms(2)] by metis
  have n: "required_scope (hr_path req) (hr_method req) \<in> {Needs Admin_export, Needs Admin_import, Needs Admin_delete}"
    by (rule administrative_routes_need_admin_scope [OF assms(3) a(3) assms(4)])
  from assms(1) a(1) show ?thesis
  proof (cases rule: device_principal)
    case (device t)
    then show ?thesis using device(6) [OF n] a(2) by blast
  qed simp
qed

section \<open>A concrete server\<close>

definition sample_server :: server_config where
  "sample_server = \<lparr>sc_auth = sample_auth_config, sc_rate = \<lparr>rl_window_ms = 60000, rl_max = 300\<rparr>, sc_bridge_secret = Some ''bridge-secret'',
     sc_lookup = None, sc_verification = False\<rparr>"

definition owner_request :: "string \<Rightarrow> string \<Rightarrow> string \<Rightarrow> http_request" where
  "owner_request method path token = \<lparr>hr_method = method, hr_path = path, hr_raw_path = path, hr_remote = Some ''127.0.0.1'',
     hr_host = Some ''localhost:3001'', hr_origin = None, hr_authorization = Some (''Bearer '' @ token)\<rparr>"

definition sample_times :: dispatch_input where
  "sample_times = \<lparr>di_session_now = 1000, di_burst_now = 1000, di_rate_now = 1000, di_auth_now1 = 4000, di_auth_now2 = 4000, di_auth_now3 = 4000,
     di_admin_now = 1000, di_token_random = ''t'', di_id_random = ''1''\<rparr>"

definition idle_server :: server_state where
  "idle_server = \<lparr>sv_auth = paired_state, sv_sessions = [], sv_buckets = []\<rparr>"

definition verifying_server :: server_state where
  "verifying_server = idle_server\<lparr>sv_sessions := [(''cs_1'', \<lparr>ss_public = sample_session Control_verify, ss_token_digest = ''ocs_t'',
     ss_request_count = 0, ss_reset_at_ms = 61000\<rparr>)]\<rparr>"

lemma sample_mints_verify:
  "dispatch sample_server (owner_request ''POST'' ''/internal/control/session/verify'' ''bridge-secret'') sample_times idle_server =
     (Session_issued ''ocs_t'' (sample_session Control_verify), verifying_server)"
  by code_simp

lemma sample_approves:
  "fst (dispatch sample_server (owner_request ''POST'' ''/api/control/approve'' ''ocs_t'') sample_times verifying_server) =
     To_approve (sample_session Control_verify)"
  by code_simp

text \<open>
  The scope of a session does not bound the approval: the token of a session that was minted for verification
  is handed to the approval operation, and the call of that session takes a plan from waiting for approval to
  ready, recorded in the audit store under the scope of verification.
\<close>

lemma verification_session_approves_plan:
  "\<exists>token s1 w. dispatch sample_server (owner_request ''POST'' ''/internal/control/session/verify'' ''bridge-secret'') sample_times idle_server =
       (Session_issued token (sample_session Control_verify), s1) \<and>
     fst (dispatch sample_server (owner_request ''POST'' ''/api/control/approve'' token) sample_times s1) = To_approve (sample_session Control_verify) \<and>
     approve_begin (Some awaiting_store) (sample_session Control_verify) (Shaped ''plan-0001'') 2000 2000 2000 =
       Checking_sink (sample_approve_context Control_verify) \<and>
     control_reachable sample_sha sample_config w \<and> (\<exists>res. cw_calls w = [Call_answered (Approved res 302000 Control_verify)]) \<and>
     map_option (\<lambda>r. plan_state (pa_plan r)) (az_get (fst (cw_authz w)) ''plan-0001'') = Some Ready"
proof -
  obtain res where r: "control_reachable sample_sha sample_config
     \<lparr>cw_authz = (granted_store, [], [(prepared_sample, Valid_grant (Shaped sample_grant))]), cw_audit = sample_audit Control_verify,
       cw_calls = [Call_answered (Approved res 302000 Control_verify)]\<rparr>" (is "control_reachable _ _ ?w") using sample_control_run by blast
  have "plan_state (pa_plan granted_record) = Ready" by code_simp
  then have "map_option (\<lambda>r. plan_state (pa_plan r)) (az_get (fst (cw_authz ?w)) ''plan-0001'') = Some Ready"
    by (simp add: granted_get)
  then show ?thesis using sample_mints_verify sample_approves sample_begin r
    by (intro exI [of _ "''ocs_t''"] exI [of _ verifying_server] exI [of _ ?w]) simp
qed

lemma control_surface_guarded_witness:
  "is_loopback_address (Some ''127.0.0.1'') \<and>
   bridge_authorized sample_server (owner_request ''POST'' ''/internal/control/session/verify'' ''bridge-secret'')"
  using control_surface_guarded [OF sample_mints_verify] by (simp add: owner_request_def)

lemma administration_is_local_witness:
  "read_bearer_token (Some ''Bearer local-token'') = ag_local_token sample_auth_config"
proof -
  let ?req = "owner_request ''DELETE'' ''/api/entities/e-1'' ''local-token''"
  have d: "dispatch sample_server ?req sample_times idle_server =
     (Routed local_principal (Handled (''DELETE'', ''/api/entities/:id'') [(''id'', ''e-1'')]), idle_server)" by code_simp
  have c: "canonical_path ''/api/entities/e-1''"
    unfolding canonical_path_def by (rule exI [of _ "''api''"], rule exI [of _ "[''entities'', ''e-1'']"]) code_simp
  have a: "administrative (''DELETE'', ''/api/entities/:id'')" by code_simp
  have r: "auth_reachable (sc_auth sample_server) (sv_auth idle_server, [])"
    using paired_reachable by (simp add: sample_server_def idle_server_def)
  show ?thesis using administration_is_local [OF r d _ a] c by (simp add: owner_request_def sample_server_def)
qed

end
