(* ===== verification/Skill_Contracts.thy ===== *)
theory Skill_Contracts
  imports Execution
begin

text \<open>
  Skill manifests (\<open>src/brain-server/src/skills/contracts.ts\<close>): the schema of a manifest and the
  safety inheritance between a skill and the capabilities it references. A skill may only
  strengthen what its capabilities demand; the lemmas give the exact meaning of an empty list of
  issues and relate it to the coverage assessment of execution plans. A message is represented by
  its kind and the values it interpolates; the capability registry is the lookup function the
  code is given.
\<close>

section \<open>Identifiers\<close>

definition dash :: "char \<Rightarrow> bool" where
  "dash c \<longleftrightarrow> c = CHR ''-''"

definition skill_name_ok :: "string \<Rightarrow> bool" where
  "skill_name_ok s = (case split_on dash s of [] \<Rightarrow> False
     | w # ws \<Rightarrow> lower_ident lower_or_digit w \<and> list_all (\<lambda>v. v \<noteq> [] \<and> list_all lower_or_digit v) ws)"

definition step_id_ok :: "string \<Rightarrow> bool" where
  "step_id_ok s = (case s of [] \<Rightarrow> False
     | c # cs \<Rightarrow> lower_or_digit c \<and> list_all (\<lambda>d. lower_or_digit d \<or> d = CHR ''_'' \<or> d = CHR ''-'') cs)"

section \<open>Manifests\<close>

datatype adapter_preference = Prefer_any | Prefer_cli | Prefer_api | Prefer_mcp | Prefer_local

record procedure_step =
  st_id :: string
  st_description :: string
  st_capability :: "string option"
  st_note :: "string option"

definition norm_step :: "procedure_step \<Rightarrow> procedure_step" where
  "norm_step s = s\<lparr>st_description := js_trim (st_description s)\<rparr>"

definition step_ok :: "procedure_step \<Rightarrow> bool" where
  "step_ok s \<longleftrightarrow> step_id_ok (st_id s) \<and> len_ok 2000 (st_description s) \<and>
     opt_ok capability_id_ok (st_capability s) \<and> opt_ok (\<lambda>n. length n \<le> 2000) (st_note s)"

record capability_reference =
  cr_capability :: string
  cr_description :: "string option"

definition capability_reference_ok :: "capability_reference \<Rightarrow> bool" where
  "capability_reference_ok r \<longleftrightarrow> capability_id_ok (cr_capability r) \<and>
     opt_ok (\<lambda>d. length d \<le> 2000) (cr_description r)"

record skill_manifest =
  sm_name :: string
  sm_version :: string
  sm_description :: string
  sm_capabilities :: "string list"
  sm_prerequisites :: "string list option"
  sm_required_evidence :: "evidence_requirement list option"
  sm_procedure :: "procedure_step list"
  sm_risk :: risk_level
  sm_verification :: "capability_reference option"
  sm_rollback :: "capability_reference option"
  sm_adapter_preference :: adapter_preference

definition norm_manifest :: "skill_manifest \<Rightarrow> skill_manifest" where
  "norm_manifest m = m\<lparr>sm_description := js_trim (sm_description m),
     sm_prerequisites := map_option (map js_trim) (sm_prerequisites m),
     sm_procedure := map norm_step (sm_procedure m)\<rparr>"

definition manifest_ok :: "skill_manifest \<Rightarrow> bool" where
  "manifest_ok m \<longleftrightarrow>
     skill_name_ok (sm_name m) \<and> length (sm_name m) \<le> 64 \<and> semver_ok (sm_version m) \<and>
     len_ok 2000 (sm_description m) \<and>
     sm_capabilities m \<noteq> [] \<and> list_all capability_id_ok (sm_capabilities m) \<and>
     opt_ok (\<lambda>ps. length ps \<le> 100 \<and> list_all (len_ok 200) ps) (sm_prerequisites m) \<and>
     opt_ok (\<lambda>rs. length rs \<le> 100 \<and> list_all evidence_requirement_ok rs) (sm_required_evidence m) \<and>
     sm_procedure m \<noteq> [] \<and> length (sm_procedure m) \<le> 100 \<and> list_all step_ok (sm_procedure m) \<and>
     opt_ok capability_reference_ok (sm_verification m) \<and>
     opt_ok capability_reference_ok (sm_rollback m) \<and>
     distinct (sm_capabilities m) \<and>
     opt_ok (\<lambda>rs. distinct (map req_class rs)) (sm_required_evidence m) \<and>
     list_all (\<lambda>s. opt_ok (\<lambda>c. c \<in> set (sm_capabilities m)) (st_capability s)) (sm_procedure m) \<and>
     opt_ok (\<lambda>r. cr_capability r \<in> set (sm_capabilities m)) (sm_verification m) \<and>
     opt_ok (\<lambda>r. cr_capability r \<in> set (sm_capabilities m)) (sm_rollback m)"

definition parse_manifest :: "skill_manifest \<Rightarrow> skill_manifest option" where
  "parse_manifest = parse_with norm_manifest manifest_ok"

lemma norm_step_idem [simp]: "norm_step (norm_step s) = norm_step s"
  by (simp add: norm_step_def)

lemma norm_manifest_idem [simp]: "norm_manifest (norm_manifest m) = norm_manifest m"
  by (simp add: norm_manifest_def option.map_comp comp_def)

lemma parse_manifest_idem: "parse_manifest m = Some n \<Longrightarrow> parse_manifest n = Some n"
  by (auto simp: parse_manifest_def parse_with_Some)

lemma parse_manifest_caps:
  "parse_manifest m = Some n \<Longrightarrow> sm_capabilities n = sm_capabilities m \<and> sm_capabilities n \<noteq> []"
  by (auto simp: parse_manifest_def parse_with_Some norm_manifest_def manifest_ok_def)

section \<open>Orders of strictness\<close>

text \<open>\<open>RISK_RANK\<close>, \<open>CONFLICT_POLICY_RANK\<close> and \<open>VERIFICATION_RANK\<close>; the last is the order
  the capability contracts already use.\<close>

fun risk_rank :: "risk_level \<Rightarrow> nat" where
  "risk_rank Low = 0" | "risk_rank Medium = 1" | "risk_rank High = 2"

fun conflict_rank :: "conflict_policy \<Rightarrow> nat" where
  "conflict_rank Allow = 0" | "conflict_rank Warn = 1" | "conflict_rank Reject = 2"

lemma risk_rank_inj: "risk_rank a = risk_rank b \<Longrightarrow> a = b"
  by (cases a; cases b) auto

lemma conflict_rank_inj: "conflict_rank a = conflict_rank b \<Longrightarrow> a = b"
  by (cases a; cases b) auto

instantiation risk_level :: linorder
begin
definition less_eq_risk_level :: "risk_level \<Rightarrow> risk_level \<Rightarrow> bool" where
  "less_eq_risk_level a b \<longleftrightarrow> risk_rank a \<le> risk_rank b"
definition less_risk_level :: "risk_level \<Rightarrow> risk_level \<Rightarrow> bool" where
  "less_risk_level a b \<longleftrightarrow> risk_rank a < risk_rank b"
instance
  by standard (auto simp: less_eq_risk_level_def less_risk_level_def risk_rank_inj)
end

instantiation conflict_policy :: linorder
begin
definition less_eq_conflict_policy :: "conflict_policy \<Rightarrow> conflict_policy \<Rightarrow> bool" where
  "less_eq_conflict_policy a b \<longleftrightarrow> conflict_rank a \<le> conflict_rank b"
definition less_conflict_policy :: "conflict_policy \<Rightarrow> conflict_policy \<Rightarrow> bool" where
  "less_conflict_policy a b \<longleftrightarrow> conflict_rank a < conflict_rank b"
instance
  by standard (auto simp: less_eq_conflict_policy_def less_conflict_policy_def conflict_rank_inj)
end

lemmas strictness_defs = less_eq_risk_level_def less_risk_level_def
  less_eq_conflict_policy_def less_conflict_policy_def
  less_eq_verification_requirement_def less_verification_requirement_def

lemma Low_least [simp]: "Low \<le> r"
  by (simp add: less_eq_risk_level_def)

lemma Reject_greatest: "Reject \<le> p \<longleftrightarrow> p = Reject"
  by (cases p) (auto simp: less_eq_conflict_policy_def)

definition effective_verification :: "evidence_requirement \<Rightarrow> verification_requirement" where
  "effective_verification r = (case req_verification r of None \<Rightarrow> NoVerification | Some v \<Rightarrow> v)"

section \<open>Safety inheritance\<close>

datatype skill_issue =
    Capability_not_found string
  | Evidence_not_declared string string
  | Evidence_made_optional string
  | Conflict_policy_weakened string conflict_policy conflict_policy
  | Verification_weakened string verification_requirement verification_requirement
  | Freshness_dropped string
  | Freshness_weakened string
  | Risk_understated risk_level risk_level

fun issue_path :: "skill_issue \<Rightarrow> string" where
  "issue_path (Capability_not_found c) = ''capabilities''"
| "issue_path (Risk_understated r h) = ''risk''"
| "issue_path _ = ''required_evidence''"

definition declared_evidence :: "skill_manifest \<Rightarrow> evidence_requirement list" where
  "declared_evidence m = (case sm_required_evidence m of None \<Rightarrow> [] | Some rs \<Rightarrow> rs)"

text \<open>\<open>new Map(...)\<close> over the skill's requirements: a later entry of a class replaces an earlier one.\<close>

definition skill_requirement :: "skill_manifest \<Rightarrow> string \<Rightarrow> evidence_requirement option" where
  "skill_requirement m c = map_of (rev (map (\<lambda>r. (req_class r, r)) (declared_evidence m))) c"

definition weakenings :: "evidence_requirement \<Rightarrow> evidence_requirement \<Rightarrow> skill_issue list" where
  "weakenings s r = (let c = req_class r in
     (if req_mandatory s then [] else [Evidence_made_optional c]) @
     (if effective_conflict_policy s < effective_conflict_policy r
      then [Conflict_policy_weakened c (effective_conflict_policy r) (effective_conflict_policy s)] else []) @
     (if effective_verification s < effective_verification r
      then [Verification_weakened c (effective_verification r) (effective_verification s)] else []) @
     (case req_max_age r of None \<Rightarrow> []
      | Some a \<Rightarrow> (case req_max_age s of None \<Rightarrow> [Freshness_dropped c]
        | Some b \<Rightarrow> if a < b then [Freshness_weakened c] else [])))"

definition requirement_issues :: "skill_manifest \<Rightarrow> string \<Rightarrow> evidence_requirement \<Rightarrow> skill_issue list" where
  "requirement_issues m i r = (if \<not> req_mandatory r then []
     else (case skill_requirement m (req_class r) of
        None \<Rightarrow> [Evidence_not_declared i (req_class r)]
      | Some s \<Rightarrow> weakenings s r))"

definition capability_issues :: "lookup \<Rightarrow> skill_manifest \<Rightarrow> string \<Rightarrow> skill_issue list" where
  "capability_issues look m i = (case look i of
     None \<Rightarrow> [Capability_not_found i]
   | Some c \<Rightarrow> concat (map (requirement_issues m i) (cap_required_evidence c)))"

definition raise_risk :: "lookup \<Rightarrow> string \<Rightarrow> risk_level \<Rightarrow> risk_level" where
  "raise_risk look i h = (case look i of None \<Rightarrow> h
     | Some c \<Rightarrow> if h < cap_risk_level c then cap_risk_level c else h)"

definition highest_risk :: "lookup \<Rightarrow> string list \<Rightarrow> risk_level" where
  "highest_risk look is = fold (raise_risk look) is Low"

definition manifest_issues :: "skill_manifest \<Rightarrow> lookup \<Rightarrow> skill_issue list" where
  "manifest_issues m look = concat (map (capability_issues look m) (sm_capabilities m)) @
     (let h = highest_risk look (sm_capabilities m) in
      if sm_risk m < h then [Risk_understated (sm_risk m) h] else [])"

section \<open>Sample data for the witnesses\<close>

definition sample_step :: procedure_step where
  "sample_step = \<lparr>st_id = ''create'', st_description = ''create the branch'',
     st_capability = Some ''git.branch.create'', st_note = None\<rparr>"

definition sample_manifest :: skill_manifest where
  "sample_manifest = \<lparr>sm_name = ''branch-work'', sm_version = ''1.10.0'', sm_description = ''branch work'',
     sm_capabilities = [''git.branch.create'', ''git.branch.read''], sm_prerequisites = None,
     sm_required_evidence = Some [sample_requirement\<lparr>req_max_age := Some 30000\<rparr>],
     sm_procedure = [sample_step], sm_risk = Medium,
     sm_verification = Some \<lparr>cr_capability = ''git.branch.read'', cr_description = None\<rparr>,
     sm_rollback = None, sm_adapter_preference = Prefer_any\<rparr>"

lemma sample_manifest_parses: "parse_manifest sample_manifest = Some sample_manifest"
  by code_simp

lemma sample_manifest_inherits: "manifest_issues sample_manifest sample_lookup = []"
  by code_simp

text \<open>Each way of weakening is reported: dropped evidence, an understated risk, a laxer conflict
  policy and level.\<close>

lemma weakened_manifest_issues:
  "manifest_issues (sample_manifest\<lparr>sm_required_evidence := None, sm_risk := Low\<rparr>) sample_lookup =
     [Evidence_not_declared ''git.branch.create'' ''repo.state'', Risk_understated Low Medium]"
  "manifest_issues (sample_manifest\<lparr>sm_required_evidence := Some [sample_requirement\<lparr>
       req_max_age := None, req_conflict_policy := Some Allow, req_verification := None\<rparr>]\<rparr>) sample_lookup =
     [Conflict_policy_weakened ''repo.state'' Reject Allow,
      Verification_weakened ''repo.state'' Verified NoVerification, Freshness_dropped ''repo.state'']"
  by code_simp+

section \<open>What an empty list of issues means\<close>

text \<open>The specification: requirement \<open>s\<close> demands at least what \<open>r\<close> demands.\<close>

definition at_least_as_strict :: "evidence_requirement \<Rightarrow> evidence_requirement \<Rightarrow> bool" where
  "at_least_as_strict s r \<longleftrightarrow> req_mandatory s \<and>
     effective_conflict_policy r \<le> effective_conflict_policy s \<and>
     effective_verification r \<le> effective_verification s \<and>
     (\<forall>a. req_max_age r = Some a \<longrightarrow> (\<exists>b. req_max_age s = Some b \<and> b \<le> a))"

lemma at_least_as_strict_trans:
  "at_least_as_strict a b \<Longrightarrow> at_least_as_strict b c \<Longrightarrow> at_least_as_strict a c"
  unfolding at_least_as_strict_def by (meson order_trans)

lemma weakenings_Nil: "weakenings s r = [] \<longleftrightarrow> at_least_as_strict s r"
  by (auto simp: weakenings_def at_least_as_strict_def Let_def not_less split: option.splits)

lemma skill_requirement_SomeD:
  assumes "skill_requirement m c = Some s"
  shows "s \<in> set (declared_evidence m) \<and> req_class s = c"
  using assms by (auto simp: skill_requirement_def dest!: map_of_SomeD)

lemma raise_risk_max: "raise_risk look i h = max h (case look i of None \<Rightarrow> Low | Some c \<Rightarrow> cap_risk_level c)"
  by (cases "look i") (auto simp: raise_risk_def max_def not_less intro: antisym)

lemma highest_risk_le:
  "highest_risk look is \<le> r \<longleftrightarrow> (\<forall>i\<in>set is. \<forall>c. look i = Some c \<longrightarrow> cap_risk_level c \<le> r)"
proof -
  have "fold (raise_risk look) is h \<le> r \<longleftrightarrow>
      h \<le> r \<and> (\<forall>i\<in>set is. \<forall>c. look i = Some c \<longrightarrow> cap_risk_level c \<le> r)" for h
    by (induction "is" arbitrary: h) (auto simp: raise_risk_max split: option.splits)
  then show ?thesis by (simp add: highest_risk_def)
qed

lemma requirement_issues_Nil:
  "requirement_issues m i r = [] \<longleftrightarrow>
   (req_mandatory r \<longrightarrow> (\<exists>s. skill_requirement m (req_class r) = Some s \<and> at_least_as_strict s r))"
  by (auto simp: requirement_issues_def weakenings_Nil split: option.splits)

lemma capability_issues_Nil:
  "capability_issues look m i = [] \<longleftrightarrow>
   (\<exists>c. look i = Some c \<and> (\<forall>r\<in>set (cap_required_evidence c). requirement_issues m i r = []))"
  by (auto simp: capability_issues_def split: option.splits)

text \<open>A manifest passes the validation against the capability registry exactly when it inherits
  the safety of every capability it references: each referenced capability exists, none has a higher
  risk than the skill declares, and for every evidence class a capability makes mandatory the skill
  has a requirement of that class that is mandatory, at least as strict in its effective conflict
  policy and verification level, and no laxer in freshness. Optional evidence of a capability
  constrains nothing.\<close>

lemma safety_inheritance_exact:
  "manifest_issues m look = [] \<longleftrightarrow>
   (\<forall>i\<in>set (sm_capabilities m). \<exists>c. look i = Some c \<and> cap_risk_level c \<le> sm_risk m \<and>
      (\<forall>r\<in>set (cap_required_evidence c). req_mandatory r \<longrightarrow>
         (\<exists>s. skill_requirement m (req_class r) = Some s \<and> at_least_as_strict s r)))"
proof -
  have "manifest_issues m look = [] \<longleftrightarrow>
      (\<forall>i\<in>set (sm_capabilities m). capability_issues look m i = []) \<and>
      highest_risk look (sm_capabilities m) \<le> sm_risk m"
    by (auto simp: manifest_issues_def Let_def not_less)
  then show ?thesis
    unfolding capability_issues_Nil highest_risk_le requirement_issues_Nil by fastforce
qed

lemma safety_inheritance_exact_witness:
  "\<exists>c. sample_lookup ''git.branch.create'' = Some c \<and> cap_risk_level c \<le> Medium \<and>
     (\<exists>s. skill_requirement sample_manifest ''repo.state'' = Some s \<and> at_least_as_strict s sample_requirement)"
proof -
  have "''git.branch.create'' \<in> set (sm_capabilities sample_manifest)" "sm_risk sample_manifest = Medium"
    by (simp_all add: sample_manifest_def)
  moreover have "sample_requirement \<in> set (cap_required_evidence sample_capability)" "req_mandatory sample_requirement"
    "req_class sample_requirement = ''repo.state''" "sample_lookup ''git.branch.create'' = Some sample_capability"
    by (simp_all add: sample_capability_def sample_requirement_def sample_lookup_def)
  ultimately show ?thesis
    using iffD1 [OF safety_inheritance_exact sample_manifest_inherits] by fastforce
qed

text \<open>The coverage assessment is monotone in the strictness of a requirement.\<close>

lemma satisfied_by_mono:
  assumes "satisfied_by es s" "at_least_as_strict s r" "req_class s = req_class r"
  shows "satisfied_by es r"
  using assms Reject_greatest
  by (auto simp: satisfied_by_def at_least_as_strict_def level_ok_def effective_verification_def
      less_eq_verification_requirement_def split: option.splits)

lemma inherited_requirement:
  assumes "manifest_issues m look = []" "i \<in> set (sm_capabilities m)" "look i = Some c"
    "r \<in> set (cap_required_evidence c)" "req_mandatory r"
  obtains s where "s \<in> set (declared_evidence m)" "req_class s = req_class r" "at_least_as_strict s r"
proof -
  have "capability_issues look m i = []" using assms(1,2) by (auto simp: manifest_issues_def)
  then have "requirement_issues m i r = []" using assms(3,4) by (auto simp: capability_issues_Nil)
  then obtain s where s: "skill_requirement m (req_class r) = Some s" "at_least_as_strict s r"
    using assms(5) by (auto simp: requirement_issues_Nil)
  then show ?thesis using that skill_requirement_SomeD by blast
qed

text \<open>The evidence a skill asks for is enough for its capabilities. When a manifest passes the
  validation, a coverage snapshot that clears the mandatory gate of the skill's own requirements
  clears the mandatory gate of every capability the skill references, whatever the rest of the
  snapshot says.\<close>

lemma skill_evidence_suffices:
  assumes "manifest_issues m look = []" "i \<in> set (sm_capabilities m)" "look i = Some c"
    and "as_mandatory_satisfied (assess_evidence_coverage (declared_evidence m) es)"
  shows "as_mandatory_satisfied (assess_evidence_coverage (cap_required_evidence c) es)"
  unfolding assess_mandatory list_all_iff
proof
  fix r assume "r \<in> set (filter req_mandatory (cap_required_evidence c))"
  then have r: "r \<in> set (cap_required_evidence c)" "req_mandatory r" by auto
  obtain s where s: "s \<in> set (declared_evidence m)" "req_class s = req_class r" "at_least_as_strict s r"
    using inherited_requirement [OF assms(1-3) r] .
  then have "satisfied_by es s" using assms(4) by (simp add: assess_mandatory list_all_iff at_least_as_strict_def)
  then show "satisfied_by es r" using s by (blast intro: satisfied_by_mono)
qed
lemma skill_evidence_suffices_witness:
  "as_mandatory_satisfied (assess_evidence_coverage (cap_required_evidence sample_capability) [sample_entry])"
proof (rule skill_evidence_suffices [OF sample_manifest_inherits])
  show "''git.branch.create'' \<in> set (sm_capabilities sample_manifest)" by (simp add: sample_manifest_def)
  show "sample_lookup ''git.branch.create'' = Some sample_capability" by (simp add: sample_lookup_def)
  show "as_mandatory_satisfied (assess_evidence_coverage (declared_evidence sample_manifest) [sample_entry])"
    by code_simp
qed

end
