(* ===== verification/Skill_Registry.thy ===== *)
theory Skill_Registry
  imports Skill_Contracts Evidence "HOL-Library.Log_Nat"
begin

text \<open>
  The skill registry (\<open>src/brain-server/src/skills/registry-types.ts\<close> and \<open>registry.ts\<close>):
  schemas of records and registrations, registration, trust transitions, revocation, the
  eligibility gate and the choice of the latest trusted version. The clock is a parameter, its
  successive readings the ISO texts it renders; the capability lookup and the policy for built-in
  skills are the functions the code is given. The persistence of the registry is in
  \<open>Skill_Registry_Store\<close>.
\<close>

section \<open>Records\<close>

datatype skill_source = Builtin_skill | Local_skill | Imported_skill

datatype trust_status = Quarantined | Reviewed | Trusted | Withdrawn

datatype skill_error =
    SKILL_INPUT_INVALID | SKILL_VALIDATION_FAILED | SKILL_VERSION_CONFLICT | SKILL_NOT_FOUND
  | SKILL_PACKAGE_INTEGRITY_FAILURE | SKILL_TRUST_TRANSITION_INVALID | SKILL_NOT_ELIGIBLE
  | SKILL_REGISTRY_CORRUPT

type_synonym 'a skill_result = "skill_error throws + 'a"

definition trust_promotion_mechanisms :: "string list" where
  "trust_promotion_mechanisms = [''owner-decision'', ''admin-decision'', ''builtin-policy'']"

record skill_provenance =
  pn_actor :: string
  pn_mechanism :: string
  pn_reason :: "string option"
  pn_at :: string

definition norm_provenance :: "skill_provenance \<Rightarrow> skill_provenance" where
  "norm_provenance p = p\<lparr>pn_actor := js_trim (pn_actor p), pn_mechanism := js_trim (pn_mechanism p),
     pn_reason := map_option js_trim (pn_reason p)\<rparr>"

definition provenance_ok :: "skill_provenance \<Rightarrow> bool" where
  "provenance_ok p \<longleftrightarrow> len_ok 200 (pn_actor p) \<and> len_ok 100 (pn_mechanism p) \<and>
     opt_ok (len_ok 1000) (pn_reason p) \<and> len_ok 100 (pn_at p)"

definition parse_provenance :: "skill_provenance \<Rightarrow> skill_provenance option" where
  "parse_provenance = parse_with norm_provenance provenance_ok"

record skill_risk_snapshot =
  sk_risk_level :: risk_level
  sk_highest_capability_risk :: risk_level
  sk_capability_count :: nat

record skill_record =
  sr_name :: string
  sr_version :: string
  sr_manifest :: skill_manifest
  sr_package_digest :: string
  sr_manifest_digest :: string
  sr_source_type :: skill_source
  sr_source_id :: string
  sr_source_reference :: "string option"
  sr_trust :: trust_status
  sr_installed_at :: string
  sr_updated_at :: string
  sr_enabled :: bool
  sr_revoked :: bool
  sr_valid :: bool
  sr_issues :: "(string \<times> string) list"
  sr_capability_ids :: "string list"
  sr_risk :: skill_risk_snapshot
  sr_provenance :: "skill_provenance list"

definition norm_skill_record :: "skill_record \<Rightarrow> skill_record" where
  "norm_skill_record r = r\<lparr>sr_manifest := norm_manifest (sr_manifest r), sr_source_id := js_trim (sr_source_id r),
     sr_source_reference := map_option js_trim (sr_source_reference r),
     sr_provenance := map norm_provenance (sr_provenance r)\<rparr>"

definition skill_record_ok :: "skill_record \<Rightarrow> bool" where
  "skill_record_ok r \<longleftrightarrow>
     skill_name_ok (sr_name r) \<and> length (sr_name r) \<le> 64 \<and> semver_ok (sr_version r) \<and>
     manifest_ok (sr_manifest r) \<and>
     sha256_hex_ok (sr_package_digest r) \<and> sha256_hex_ok (sr_manifest_digest r) \<and>
     len_ok 500 (sr_source_id r) \<and> opt_ok (len_ok 2000) (sr_source_reference r) \<and>
     len_ok 100 (sr_installed_at r) \<and> len_ok 100 (sr_updated_at r) \<and>
     list_all (\<lambda>(p, t). p \<noteq> [] \<and> t \<noteq> []) (sr_issues r) \<and>
     list_all capability_id_ok (sr_capability_ids r) \<and> length (sr_capability_ids r) \<le> 100 \<and>
     list_all provenance_ok (sr_provenance r)"

definition parse_skill_record :: "skill_record \<Rightarrow> skill_record option" where
  "parse_skill_record = parse_with norm_skill_record skill_record_ok"

record skill_registration =
  ri_manifest :: skill_manifest
  ri_package_digest :: string
  ri_manifest_digest :: string
  ri_source_type :: skill_source
  ri_source_id :: string
  ri_source_reference :: "string option"

definition norm_registration :: "skill_registration \<Rightarrow> skill_registration" where
  "norm_registration i = i\<lparr>ri_manifest := norm_manifest (ri_manifest i), ri_source_id := js_trim (ri_source_id i),
     ri_source_reference := map_option js_trim (ri_source_reference i)\<rparr>"

definition registration_ok :: "skill_registration \<Rightarrow> bool" where
  "registration_ok i \<longleftrightarrow> manifest_ok (ri_manifest i) \<and>
     sha256_hex_ok (ri_package_digest i) \<and> sha256_hex_ok (ri_manifest_digest i) \<and>
     len_ok 500 (ri_source_id i) \<and> opt_ok (len_ok 2000) (ri_source_reference i)"

definition parse_registration :: "skill_registration \<Rightarrow> skill_registration option" where
  "parse_registration = parse_with norm_registration registration_ok"

definition skill_record_key :: "string \<Rightarrow> string \<Rightarrow> string" where
  "skill_record_key name version = name @ ''@'' @ version"

type_synonym skill_map = "(string, skill_record) jsmap"

record registry_config =
  rc_lookup :: lookup
  rc_builtin_policy :: "(string \<Rightarrow> string \<Rightarrow> skill_source \<Rightarrow> bool) option"

section \<open>Version order\<close>

text \<open>
  \<open>Number\<close> of a decimal integer text: the nearest double, ties to even. A double that is an integer
  is given by its value; \<open>Infinity\<close>, which is larger than every other, by the first value that is
  not representable, \<open>2 ^ 1024\<close>. The versions compared have passed the version pattern.
\<close>

definition digits_value :: "string \<Rightarrow> nat" where
  "digits_value s = fold (\<lambda>c n. 10 * n + (code c - 48)) s 0"

definition round_double :: "nat \<Rightarrow> nat" where
  "round_double n = (if n < 2 ^ 53 then n
     else let e = floorlog 2 n - 53; q = n div 2 ^ e; r = n mod 2 ^ e;
            up = (if 2 ^ e < 2 * r \<or> (2 * r = 2 ^ e \<and> odd q) then 1 else 0)
          in min ((q + up) * 2 ^ e) (2 ^ 1024))"

definition version_number :: "string \<Rightarrow> nat" where
  "version_number s = round_double (digits_value s)"

definition compare_semver :: "string \<Rightarrow> string \<Rightarrow> int" where
  "compare_semver a b = (case (map version_number (split_on dot a), map version_number (split_on dot b)) of
     (amajor # aminor # apatch # _, bmajor # bminor # bpatch # _) \<Rightarrow>
       if amajor \<noteq> bmajor then (if amajor < bmajor then -1 else 1)
       else if aminor \<noteq> bminor then (if aminor < bminor then -1 else 1)
       else if apatch \<noteq> bpatch then (if apatch < bpatch then -1 else 1)
       else 0
   | _ \<Rightarrow> 0)"

section \<open>Eligibility\<close>

definition eligible_for_use :: "skill_record \<Rightarrow> lookup \<Rightarrow> bool" where
  "eligible_for_use r look =
     (if sr_revoked r then False
      else if \<not> sr_enabled r then False
      else if sr_trust r \<noteq> Trusted then False
      else if \<not> sr_valid r \<or> sr_issues r \<noteq> [] then False
      else if \<not> sha256_hex_ok (sr_package_digest r) \<or> \<not> sha256_hex_ok (sr_manifest_digest r) then False
      else if sr_capability_ids r = [] then False
      else if js_join '','' (sort (sm_capabilities (sr_manifest r))) \<noteq> js_join '','' (sort (sr_capability_ids r)) then False
      else if list_ex (\<lambda>i. look i = None) (sr_capability_ids r) then False
      else manifest_issues (sr_manifest r) look = [])"

definition validate_skill_record :: "registry_config \<Rightarrow> skill_record \<Rightarrow> skill_issue list" where
  "validate_skill_record cfg r =
     map Capability_not_found (filter (\<lambda>i. rc_lookup cfg i = None) (sr_capability_ids r)) @
     manifest_issues (sr_manifest r) (rc_lookup cfg)"

section \<open>Operations\<close>

text \<open>
  An operation on the map returns the record it answers with, the map afterwards and whether a write
  of the store follows. \<open>now k\<close> is the \<open>k\<close>-th reading of the clock during the call.
\<close>

type_synonym skill_answer = "skill_record \<times> skill_map \<times> bool"

definition default_trust :: "registry_config \<Rightarrow> (nat \<Rightarrow> string) \<Rightarrow> skill_registration \<Rightarrow> trust_status \<times> skill_provenance list" where
  "default_trust cfg now i = (let p = \<lparr>pn_actor = ''registry'', pn_mechanism = ''registration'', pn_reason = None, pn_at = now 1\<rparr> in
     if ri_source_type i = Builtin_skill \<and>
        (case rc_builtin_policy cfg of None \<Rightarrow> False
         | Some allows \<Rightarrow> allows (sm_name (ri_manifest i)) (sm_version (ri_manifest i)) (ri_source_type i))
     then (Trusted, [p, \<lparr>pn_actor = ''registry'', pn_mechanism = ''builtin-policy'',
       pn_reason = Some ''allowed by the separately defined trusted built-in policy'', pn_at = now 2\<rparr>])
     else (Quarantined, [p]))"

definition new_record :: "registry_config \<Rightarrow> (nat \<Rightarrow> string) \<Rightarrow> skill_registration \<Rightarrow> skill_record" where
  "new_record cfg now i = (let m = ri_manifest i in
     \<lparr>sr_name = sm_name m, sr_version = sm_version m, sr_manifest = m,
      sr_package_digest = ri_package_digest i, sr_manifest_digest = ri_manifest_digest i,
      sr_source_type = ri_source_type i, sr_source_id = ri_source_id i,
      sr_source_reference = ri_source_reference i, sr_trust = fst (default_trust cfg now i),
      sr_installed_at = now 0, sr_updated_at = now 0, sr_enabled = True, sr_revoked = False,
      sr_valid = True, sr_issues = [], sr_capability_ids = sm_capabilities m,
      sr_risk = \<lparr>sk_risk_level = sm_risk m,
        sk_highest_capability_risk = highest_risk (rc_lookup cfg) (sm_capabilities m),
        sk_capability_count = length (sm_capabilities m)\<rparr>,
      sr_provenance = snd (default_trust cfg now i)\<rparr>)"

definition register :: "registry_config \<Rightarrow> (nat \<Rightarrow> string) \<Rightarrow> skill_registration raw \<Rightarrow> skill_map \<Rightarrow> skill_answer skill_result" where
  "register cfg now input m =
     ebind (safe_parse SKILL_INPUT_INVALID parse_registration input) (\<lambda>i.
     ebind (guarded (manifest_issues (ri_manifest i) (rc_lookup cfg) = []) SKILL_VALIDATION_FAILED) (\<lambda>_.
     let key = skill_record_key (sm_name (ri_manifest i)) (sm_version (ri_manifest i)) in
     case map_get m key of
       Some e \<Rightarrow> if sr_package_digest e = ri_package_digest i \<and> sr_manifest_digest e = ri_manifest_digest i
         then Inr (e, m, False) else Inl (Throws SKILL_VERSION_CONFLICT)
     | None \<Rightarrow>
       ebind (guarded (list_all (\<lambda>c. rc_lookup cfg c \<noteq> None) (sm_capabilities (ri_manifest i))) SKILL_VALIDATION_FAILED) (\<lambda>_.
       let r = new_record cfg now i in Inr (r, map_set key r m, True))))"

definition skill_get :: "skill_map \<Rightarrow> string \<Rightarrow> string \<Rightarrow> skill_record option" where
  "skill_get m name version = map_get m (skill_record_key name version)"

definition require_skill :: "skill_map \<Rightarrow> string \<Rightarrow> string \<Rightarrow> skill_record skill_result" where
  "require_skill m name version = require (skill_get m name version) SKILL_NOT_FOUND"

definition disable :: "(nat \<Rightarrow> string) \<Rightarrow> string \<Rightarrow> string \<Rightarrow> skill_map \<Rightarrow> skill_answer skill_result" where
  "disable now name version m =
     ebind (require_skill m name version) (\<lambda>r.
     let r' = r\<lparr>sr_enabled := False, sr_updated_at := now 0\<rparr> in
     Inr (r', map_set (skill_record_key name version) r' m, True))"

definition revoke :: "(nat \<Rightarrow> string) \<Rightarrow> string \<Rightarrow> string \<Rightarrow> skill_provenance raw \<Rightarrow> skill_map \<Rightarrow> skill_answer skill_result" where
  "revoke now name version pv m =
     ebind (require_skill m name version) (\<lambda>r.
     ebind (safe_parse SKILL_INPUT_INVALID parse_provenance pv) (\<lambda>p.
     let r' = r\<lparr>sr_trust := Withdrawn, sr_revoked := True, sr_updated_at := now 0,
       sr_provenance := sr_provenance r @ [p]\<rparr> in
     Inr (r', map_set (skill_record_key name version) r' m, True)))"

definition set_trust_status :: "(nat \<Rightarrow> string) \<Rightarrow> string \<Rightarrow> string \<Rightarrow> trust_status \<Rightarrow> skill_provenance raw \<Rightarrow>
    skill_map \<Rightarrow> skill_answer skill_result" where
  "set_trust_status now name version st pv m =
     ebind (guarded (st \<noteq> Withdrawn) SKILL_TRUST_TRANSITION_INVALID) (\<lambda>_.
     ebind (require_skill m name version) (\<lambda>r.
     ebind (guarded (\<not> sr_revoked r) SKILL_TRUST_TRANSITION_INVALID) (\<lambda>_.
     ebind (safe_parse SKILL_INPUT_INVALID parse_provenance pv) (\<lambda>p.
     ebind (guarded (\<not> (st = Trusted \<and> pn_mechanism p \<notin> set trust_promotion_mechanisms)) SKILL_TRUST_TRANSITION_INVALID) (\<lambda>_.
     let r' = r\<lparr>sr_trust := st, sr_revoked := False, sr_updated_at := now 0,
       sr_provenance := sr_provenance r @ [p]\<rparr> in
     Inr (r', map_set (skill_record_key name version) r' m, True))))))"

section \<open>Lists and the latest trusted version\<close>

definition record_le :: "skill_record \<Rightarrow> skill_record \<Rightarrow> bool" where
  "record_le a b = (if sr_name a \<noteq> sr_name b then sr_name a < sr_name b
     else compare_semver (sr_version a) (sr_version b) \<le> 0)"

definition skill_list :: "skill_map \<Rightarrow> skill_record list" where
  "skill_list m = sort_by record_le (map_values m)"

definition list_versions :: "skill_map \<Rightarrow> string \<Rightarrow> skill_record list" where
  "list_versions m name = filter (\<lambda>r. sr_name r = name) (skill_list m)"

definition resolve_latest_trusted :: "registry_config \<Rightarrow> skill_map \<Rightarrow> string \<Rightarrow> skill_record option" where
  "resolve_latest_trusted cfg m name = (let cs = filter (\<lambda>r. eligible_for_use r (rc_lookup cfg)) (list_versions m name) in
     if cs = [] then None else Some (cs ! (length cs - 1)))"

section \<open>Requests\<close>

datatype skill_request =
    Register "skill_registration raw"
  | Disable string string
  | Revoke string string "skill_provenance raw"
  | Set_trust string string trust_status "skill_provenance raw"

fun registry_call :: "registry_config \<Rightarrow> (nat \<Rightarrow> string) \<Rightarrow> skill_request \<Rightarrow> skill_map \<Rightarrow> skill_answer skill_result" where
  "registry_call cfg now (Register i) m = register cfg now i m"
| "registry_call cfg now (Disable n v) m = disable now n v m"
| "registry_call cfg now (Revoke n v p) m = revoke now n v p m"
| "registry_call cfg now (Set_trust n v st p) m = set_trust_status now n v st p m"

section \<open>What a call does to the registry\<close>

text \<open>A later state of a record: the same identity and content, a longer history, and no way back
  from revocation or from being disabled.\<close>

definition evolves :: "skill_record \<Rightarrow> skill_record \<Rightarrow> bool" where
  "evolves r q \<longleftrightarrow> sr_name q = sr_name r \<and> sr_version q = sr_version r \<and> sr_manifest q = sr_manifest r \<and>
     sr_package_digest q = sr_package_digest r \<and> sr_manifest_digest q = sr_manifest_digest r \<and>
     sr_source_type q = sr_source_type r \<and> sr_capability_ids q = sr_capability_ids r \<and>
     sr_installed_at q = sr_installed_at r \<and>
     (\<exists>ps. sr_provenance q = sr_provenance r @ ps) \<and>
     (sr_revoked r \<longrightarrow> sr_revoked q) \<and> (\<not> sr_enabled r \<longrightarrow> \<not> sr_enabled q)"

lemma evolves_refl [simp]: "evolves r r"
  by (simp add: evolves_def)

lemma evolves_trans: "evolves r q \<Longrightarrow> evolves q p \<Longrightarrow> evolves r p"
  by (auto simp: evolves_def)

text \<open>How a record can be trusted: an entry of its provenance after the registration names one of the
  three mechanisms that promote.\<close>

definition promoted :: "skill_record \<Rightarrow> bool" where
  "promoted r \<longleftrightarrow> (\<exists>p\<in>set (tl (sr_provenance r)). pn_mechanism p \<in> set trust_promotion_mechanisms)"

definition entry_ok :: "skill_record \<Rightarrow> bool" where
  "entry_ok r \<longleftrightarrow> manifest_ok (sr_manifest r) \<and> norm_skill_record r = r \<and>
     sr_name r = sm_name (sr_manifest r) \<and> sr_version r = sm_version (sr_manifest r) \<and>
     sr_capability_ids r = sm_capabilities (sr_manifest r) \<and>
     sha256_hex_ok (sr_package_digest r) \<and> sha256_hex_ok (sr_manifest_digest r) \<and>
     sr_provenance r \<noteq> [] \<and> (sr_revoked r \<longleftrightarrow> sr_trust r = Withdrawn) \<and>
     (sr_trust r = Trusted \<longrightarrow> promoted r)"

definition registry_ok :: "skill_map \<Rightarrow> bool" where
  "registry_ok m \<longleftrightarrow> keys_distinct m \<and>
     (\<forall>k r. map_get m k = Some r \<longrightarrow> k = skill_record_key (sr_name r) (sr_version r) \<and> entry_ok r)"

lemma registry_ok_Nil [simp]: "registry_ok []"
  by (simp add: registry_ok_def)

lemma registry_ok_entry:
  "registry_ok m \<Longrightarrow> map_get m k = Some r \<Longrightarrow> entry_ok r \<and> k = skill_record_key (sr_name r) (sr_version r)"
  by (simp add: registry_ok_def)

lemma registry_ok_set:
  "registry_ok m \<Longrightarrow> entry_ok r \<Longrightarrow> k = skill_record_key (sr_name r) (sr_version r) \<Longrightarrow> registry_ok (map_set k r m)"
  by (auto simp: registry_ok_def map_get_set)

lemma default_trust_cases:
  "default_trust cfg now i = (Trusted, ps) \<Longrightarrow> ri_source_type i = Builtin_skill \<and>
     (\<exists>p q. ps = [p, q] \<and> pn_mechanism q \<in> set trust_promotion_mechanisms)"
  "fst (default_trust cfg now i) \<in> {Trusted, Quarantined}" "snd (default_trust cfg now i) \<noteq> []"
  by (auto simp: default_trust_def Let_def trust_promotion_mechanisms_def split: if_splits)

lemma new_record_fields [simp]:
  "sr_name (new_record cfg now i) = sm_name (ri_manifest i)"
  "sr_version (new_record cfg now i) = sm_version (ri_manifest i)"
  "sr_manifest (new_record cfg now i) = ri_manifest i"
  "sr_package_digest (new_record cfg now i) = ri_package_digest i"
  "sr_source_type (new_record cfg now i) = ri_source_type i"
  "\<not> sr_revoked (new_record cfg now i)"
  by (simp_all add: new_record_def Let_def)

lemma norm_registration_idem [simp]: "norm_registration (norm_registration i) = norm_registration i"
  by (simp add: norm_registration_def)

lemma registry_texts_trimmed [simp]: "js_trim ''registry'' = ''registry''" "js_trim ''registration'' = ''registration''"
  "js_trim ''builtin-policy'' = ''builtin-policy''"
  "js_trim ''allowed by the separately defined trusted built-in policy'' =
     ''allowed by the separately defined trusted built-in policy''"
  by code_simp+

lemma new_record_stable:
  assumes "norm_registration i = i" shows "norm_skill_record (new_record cfg now i) = new_record cfg now i"
proof -
  have "map norm_provenance (snd (default_trust cfg now i)) = snd (default_trust cfg now i)"
    by (simp add: default_trust_def Let_def norm_provenance_def)
  moreover have "norm_manifest (ri_manifest i) = ri_manifest i" "js_trim (ri_source_id i) = ri_source_id i"
    "map_option js_trim (ri_source_reference i) = ri_source_reference i"
    using assms by (cases i; simp add: norm_registration_def)+
  ultimately show ?thesis by (simp add: norm_skill_record_def new_record_def Let_def)
qed

lemma parse_provenance_stable: "parse_provenance x = Some p \<Longrightarrow> norm_provenance p = p"
  by (auto simp: parse_provenance_def parse_with_Some norm_provenance_def)

lemma stable_update: "norm_skill_record r = r \<Longrightarrow>
    norm_skill_record (r\<lparr>sr_enabled := e, sr_updated_at := t\<rparr>) = r\<lparr>sr_enabled := e, sr_updated_at := t\<rparr>"
  "norm_skill_record r = r \<Longrightarrow> norm_provenance p = p \<Longrightarrow>
    norm_skill_record (r\<lparr>sr_trust := st, sr_revoked := b, sr_updated_at := t, sr_provenance := sr_provenance r @ [p]\<rparr>) =
    r\<lparr>sr_trust := st, sr_revoked := b, sr_updated_at := t, sr_provenance := sr_provenance r @ [p]\<rparr>"
  by (cases r; simp add: norm_skill_record_def)+

lemma new_record_entry_ok:
  assumes "parse_registration x = Some i" shows "entry_ok (new_record cfg now i)"
proof -
  have i: "norm_registration i = i" "registration_ok i"
    using assms by (auto simp: parse_registration_def parse_with_Some)
  note new_record_stable [OF i(1), of cfg now]
  moreover have "manifest_ok (ri_manifest i)" "sha256_hex_ok (ri_package_digest i)" "sha256_hex_ok (ri_manifest_digest i)"
    using i by (auto simp: registration_ok_def)
  moreover have "fst (default_trust cfg now i) \<noteq> Withdrawn" using default_trust_cases(2) [of cfg now i] by auto
  moreover have "fst (default_trust cfg now i) = Trusted \<Longrightarrow>
      \<exists>p\<in>set (tl (snd (default_trust cfg now i))). pn_mechanism p \<in> set trust_promotion_mechanisms"
    using default_trust_cases(1) [of cfg now i] by (cases "default_trust cfg now i") force
  ultimately show ?thesis
    using default_trust_cases(3) [of cfg now i] by (simp add: entry_ok_def new_record_def Let_def promoted_def)
qed

text \<open>Every successful call is one of these: an idempotent registration, a new record, or a later
  state of a registered record.\<close>

lemma registry_call_cases:
  assumes "registry_call cfg now q m = Inr (r, m', w)"
  obtains (same) x i where "q = Register (Shaped x)" "parse_registration x = Some i" "m' = m" "\<not> w"
      "skill_get m (sm_name (ri_manifest i)) (sm_version (ri_manifest i)) = Some r"
      "sr_package_digest r = ri_package_digest i" "sr_manifest_digest r = ri_manifest_digest i"
  | (new) x i where "q = Register (Shaped x)" "parse_registration x = Some i"
      "manifest_issues (ri_manifest i) (rc_lookup cfg) = []" "r = new_record cfg now i" "w"
      "skill_get m (sm_name (ri_manifest i)) (sm_version (ri_manifest i)) = None"
      "m' = map_set (skill_record_key (sm_name (ri_manifest i)) (sm_version (ri_manifest i))) r m"
  | (disabled) n v r0 where "q = Disable n v" "skill_get m n v = Some r0" "w"
      "r = r0\<lparr>sr_enabled := False, sr_updated_at := now 0\<rparr>" "m' = map_set (skill_record_key n v) r m"
  | (revoked) n v x p r0 where "q = Revoke n v (Shaped x)" "parse_provenance x = Some p"
      "skill_get m n v = Some r0" "w" "m' = map_set (skill_record_key n v) r m"
      "r = r0\<lparr>sr_trust := Withdrawn, sr_revoked := True, sr_updated_at := now 0, sr_provenance := sr_provenance r0 @ [p]\<rparr>"
  | (decided) n v st x p r0 where "q = Set_trust n v st (Shaped x)" "parse_provenance x = Some p"
      "skill_get m n v = Some r0" "\<not> sr_revoked r0" "st \<noteq> Withdrawn" "w"
      "st = Trusted \<longrightarrow> pn_mechanism p \<in> set trust_promotion_mechanisms" "m' = map_set (skill_record_key n v) r m"
      "r = r0\<lparr>sr_trust := st, sr_revoked := False, sr_updated_at := now 0, sr_provenance := sr_provenance r0 @ [p]\<rparr>"
  using assms
proof (cases q)
  case (Register raw)
  then show ?thesis using assms
    by (auto simp: register_def Let_def safe_parse_Inr split: option.splits if_splits
        intro: same [unfolded skill_get_def] new [unfolded skill_get_def])
next
  case (Disable n v)
  then show ?thesis using assms by (auto simp: disable_def require_skill_def Let_def intro: disabled)
next
  case (Revoke n v pv)
  then show ?thesis using assms
    by (auto simp: revoke_def require_skill_def safe_parse_Inr Let_def intro: revoked)
next
  case (Set_trust n v st pv)
  then show ?thesis using assms
    by (auto simp: set_trust_status_def require_skill_def safe_parse_Inr Let_def intro: decided)
qed

lemma registry_call_evolves:
  assumes "registry_call cfg now q m = Inr (r, m', w)" "map_get m k = Some a"
  shows "\<exists>b. map_get m' k = Some b \<and> evolves a b"
  using assms(1)
  by (cases rule: registry_call_cases)
    (use assms(2) in \<open>auto simp: map_get_set skill_get_def evolves_def\<close>)

lemma registry_call_ok:
  assumes "registry_call cfg now q m = Inr (r, m', w)" "registry_ok m"
  shows "registry_ok m'"
  using assms(1)
proof (cases rule: registry_call_cases)
  case new
  then show ?thesis using assms(2) by (simp add: registry_ok_set new_record_entry_ok)
next
  case (disabled n v r0)
  then have "entry_ok r0" "skill_record_key n v = skill_record_key (sr_name r0) (sr_version r0)"
    using registry_ok_entry [OF assms(2)] by (simp_all add: skill_get_def)
  then show ?thesis using disabled assms(2) by (auto intro!: registry_ok_set simp: entry_ok_def promoted_def stable_update)
next
  case (revoked n v x p r0)
  then have "entry_ok r0" "skill_record_key n v = skill_record_key (sr_name r0) (sr_version r0)"
    using registry_ok_entry [OF assms(2)] by (simp_all add: skill_get_def)
  then show ?thesis using revoked assms(2) by (auto intro!: registry_ok_set simp: entry_ok_def stable_update parse_provenance_stable)
next
  case (decided n v st x p r0)
  then have "entry_ok r0" "skill_record_key n v = skill_record_key (sr_name r0) (sr_version r0)"
    using registry_ok_entry [OF assms(2)] by (simp_all add: skill_get_def)
  then show ?thesis using decided assms(2)
    by (auto intro!: registry_ok_set simp: entry_ok_def promoted_def stable_update parse_provenance_stable)
qed (use assms(2) in simp)

lemma eligible_conditions:
  "eligible_for_use r look \<longleftrightarrow> \<not> sr_revoked r \<and> sr_enabled r \<and> sr_trust r = Trusted \<and> sr_valid r \<and>
     sr_issues r = [] \<and> sha256_hex_ok (sr_package_digest r) \<and> sha256_hex_ok (sr_manifest_digest r) \<and>
     sr_capability_ids r \<noteq> [] \<and>
     js_join '','' (sort (sm_capabilities (sr_manifest r))) = js_join '','' (sort (sr_capability_ids r)) \<and>
     list_all (\<lambda>i. look i \<noteq> None) (sr_capability_ids r) \<and> manifest_issues (sr_manifest r) look = []"
  by (auto simp: eligible_for_use_def list_ex_iff list_all_iff)

section \<open>The order of versions\<close>

definition version_numbers :: "string \<Rightarrow> nat list" where
  "version_numbers v = map version_number (split_on dot v)"

text \<open>The order the code means: major, minor and patch as integers, lexicographically.\<close>

definition version_parts :: "string \<Rightarrow> nat list" where
  "version_parts v = map digits_value (split_on dot v)"

definition exact_version :: "string \<Rightarrow> bool" where
  "exact_version v \<longleftrightarrow> list_all (\<lambda>n. n < 2 ^ 53) (version_parts v)"

lemma version_numbers_exact: "exact_version v \<Longrightarrow> version_numbers v = version_parts v"
  by (auto simp: exact_version_def version_numbers_def version_parts_def version_number_def round_double_def list_all_iff)

lemma semver_three:
  assumes "semver_ok v" obtains a b c where "split_on dot v = [a, b, c]"
proof -
  have "length (split_on dot v) = 3" using assms by (simp add: semver_ok_def Let_def)
  then show ?thesis using that by (auto simp: numeral_3_eq_3 length_Suc_conv)
qed

lemma compare_semver_le:
  assumes "semver_ok v" "semver_ok w"
  shows "compare_semver v w \<le> 0 \<longleftrightarrow> version_numbers v \<le> version_numbers w"
proof -
  obtain a b c where v: "split_on dot v = [a, b, c]" using assms(1) by (rule semver_three)
  obtain d e f where w: "split_on dot w = [d, e, f]" using assms(2) by (rule semver_three)
  show ?thesis by (auto simp: compare_semver_def version_numbers_def v w not_less)
qed

lemma record_le_lex:
  assumes "semver_ok (sr_version a)" "semver_ok (sr_version b)"
  shows "record_le a b \<longleftrightarrow> sr_name a < sr_name b \<or>
    (sr_name a = sr_name b \<and> version_numbers (sr_version a) \<le> version_numbers (sr_version b))"
  using assms by (auto simp: record_le_def compare_semver_le)

lemma sorted_wrt_insert_by:
  assumes "\<And>x y. x \<in> S \<Longrightarrow> y \<in> S \<Longrightarrow> le x y \<or> le y x"
    "\<And>x y z. x \<in> S \<Longrightarrow> y \<in> S \<Longrightarrow> z \<in> S \<Longrightarrow> le x y \<Longrightarrow> le y z \<Longrightarrow> le x z"
  shows "set ys \<subseteq> S \<Longrightarrow> x \<in> S \<Longrightarrow> sorted_wrt le ys \<Longrightarrow> sorted_wrt le (insert_by le x ys)"
proof (induction ys)
  case (Cons y ys)
  have S: "y \<in> S" "\<forall>z\<in>set ys. z \<in> S \<and> le y z" using Cons.prems by auto
  show ?case
  proof (cases "le x y")
    case True
    then have "\<forall>z\<in>set ys. le x z" using S assms(2) [OF Cons.prems(2)] by blast
    then show ?thesis using True Cons.prems(3) by simp
  next
    case False
    then have "le y x" using assms(1) S(1) Cons.prems(2) by blast
    then show ?thesis using False S Cons.IH Cons.prems by simp
  qed
qed simp

lemma sorted_wrt_sort_by:
  assumes "\<And>x y. x \<in> S \<Longrightarrow> y \<in> S \<Longrightarrow> le x y \<or> le y x"
    "\<And>x y z. x \<in> S \<Longrightarrow> y \<in> S \<Longrightarrow> z \<in> S \<Longrightarrow> le x y \<Longrightarrow> le y z \<Longrightarrow> le x z"
    "set xs \<subseteq> S"
  shows "sorted_wrt le (sort_by le xs)"
  using assms(3)
proof (induction xs)
  case (Cons x xs)
  have "set (foldr (insert_by le) xs []) \<subseteq> S" using Cons.prems set_sort_by [of le xs] by (simp add: sort_by_def)
  moreover have "sorted_wrt le (foldr (insert_by le) xs [])" "x \<in> S" using Cons by (auto simp: sort_by_def)
  ultimately show ?case using sorted_wrt_insert_by [where S = S and le = le, OF assms(1,2)] by (simp add: sort_by_def)
qed (simp add: sort_by_def)

lemma skill_list_sorted:
  assumes "registry_ok m" shows "sorted_wrt record_le (skill_list m)"
  unfolding skill_list_def
proof (rule sorted_wrt_sort_by)
  show "set (map_values m) \<subseteq> {r. semver_ok (sr_version r)}"
    using assms map_values_get [of m] by (fastforce simp: registry_ok_def entry_ok_def manifest_ok_def)
qed (auto simp: record_le_lex)

lemma list_versions_sorted:
  assumes "registry_ok m" shows "sorted_wrt (\<lambda>a b. compare_semver (sr_version a) (sr_version b) \<le> 0) (list_versions m name)"
proof -
  have "sorted_wrt record_le (list_versions m name)"
    unfolding list_versions_def using skill_list_sorted [OF assms] by (rule sorted_wrt_filter)
  then show ?thesis
    by (rule sorted_wrt_mono_rel [rotated]) (auto simp: list_versions_def record_le_def)
qed

lemma set_list_versions: "set (list_versions m name) = {r \<in> set (map_values m). sr_name r = name}"
  by (auto simp: list_versions_def skill_list_def)

text \<open>The version a name resolves to is the greatest usable one. On a registry whose records are
  the ones it created, a name resolves to nothing exactly when none of its versions is eligible;
  otherwise to a registered, eligible version of that name that no other eligible version exceeds in
  the comparison of the code, and, when the numbers of both versions are below two to the 53, in
  the order of major, minor and patch as integers.\<close>

lemma latest_trusted_greatest:
  assumes "registry_ok m"
  shows "case resolve_latest_trusted cfg m name of
      None \<Rightarrow> \<forall>r\<in>set (list_versions m name). \<not> eligible_for_use r (rc_lookup cfg)
    | Some r \<Rightarrow> r \<in> set (map_values m) \<and> sr_name r = name \<and> eligible_for_use r (rc_lookup cfg) \<and>
        (\<forall>q\<in>set (map_values m). sr_name q = name \<and> eligible_for_use q (rc_lookup cfg) \<longrightarrow>
           compare_semver (sr_version q) (sr_version r) \<le> 0 \<and>
           (exact_version (sr_version q) \<and> exact_version (sr_version r) \<longrightarrow>
              version_parts (sr_version q) \<le> version_parts (sr_version r)))"
proof -
  let ?cs = "filter (\<lambda>r. eligible_for_use r (rc_lookup cfg)) (list_versions m name)"
  have sem: "semver_ok (sr_version q)" if "q \<in> set (map_values m)" for q
    using that assms map_values_get [of m] by (fastforce simp: registry_ok_def entry_ok_def manifest_ok_def)
  show ?thesis
  proof (cases "?cs = []")
    case True
    then show ?thesis by (auto simp: resolve_latest_trusted_def Let_def filter_empty_conv)
  next
    case False
    let ?r = "last ?cs"
    have res: "resolve_latest_trusted cfg m name = Some ?r"
      using False by (simp add: resolve_latest_trusted_def Let_def last_conv_nth)
    have r: "?r \<in> set (map_values m)" "sr_name ?r = name" "eligible_for_use ?r (rc_lookup cfg)"
      using last_in_set [OF False] by (auto simp: set_list_versions)
    have sorted: "sorted_wrt (\<lambda>a b. compare_semver (sr_version a) (sr_version b) \<le> 0) ?cs"
      using list_versions_sorted [OF assms] by (rule sorted_wrt_filter)
    have max: "compare_semver (sr_version q) (sr_version ?r) \<le> 0"
      if "q \<in> set (map_values m)" "sr_name q = name" "eligible_for_use q (rc_lookup cfg)" for q
    proof -
      have "q \<in> set ?cs" using that by (simp add: set_list_versions)
      then have "q \<in> set (butlast ?cs @ [?r])" by (simp only: append_butlast_last_id [OF False])
      then have "q \<in> set (butlast ?cs) \<or> q = ?r" by auto
      moreover have "sorted_wrt (\<lambda>a b. compare_semver (sr_version a) (sr_version b) \<le> 0) (butlast ?cs @ [?r])"
        using sorted append_butlast_last_id [OF False] by simp
      ultimately show ?thesis using compare_semver_le [OF sem sem, OF r(1) r(1)] by (auto simp: sorted_wrt_append)
    qed
    have exact: "version_parts (sr_version q) \<le> version_parts (sr_version ?r)"
      if "q \<in> set (map_values m)" "sr_name q = name" "eligible_for_use q (rc_lookup cfg)"
        "exact_version (sr_version q)" "exact_version (sr_version ?r)" for q
      using max [OF that(1-3)] that(4,5) compare_semver_le [OF sem [OF that(1)] sem [OF r(1)]]
      by (simp add: version_numbers_exact)
    show ?thesis unfolding res option.case using r max exact by blast
  qed
qed

section \<open>Successful registration and promotion\<close>

text \<open>The existence check after the validation never fails: the validation has made it already.\<close>

lemma issues_Nil_known: "manifest_issues m look = [] \<Longrightarrow> list_all (\<lambda>c. look c \<noteq> None) (sm_capabilities m)"
  by (auto simp: manifest_issues_def capability_issues_Nil list_all_iff)

lemma register_new:
  assumes "parse_registration x = Some i" "manifest_issues (ri_manifest i) (rc_lookup cfg) = []"
    and "map_get m (skill_record_key (sm_name (ri_manifest i)) (sm_version (ri_manifest i))) = None"
  shows "register cfg now (Shaped x) m = Inr (new_record cfg now i,
    map_set (skill_record_key (sm_name (ri_manifest i)) (sm_version (ri_manifest i))) (new_record cfg now i) m, True)"
proof -
  have "guarded (list_all (\<lambda>c. rc_lookup cfg c \<noteq> None) (sm_capabilities (ri_manifest i))) SKILL_VALIDATION_FAILED = Inr ()"
    using issues_Nil_known [OF assms(2)] by simp
  then show ?thesis using assms by (simp add: register_def safe_parse_def Let_def)
qed

definition promote :: "(nat \<Rightarrow> string) \<Rightarrow> skill_provenance \<Rightarrow> skill_record \<Rightarrow> skill_record" where
  "promote now p r = r\<lparr>sr_trust := Trusted, sr_revoked := False, sr_updated_at := now 0,
     sr_provenance := sr_provenance r @ [p]\<rparr>"

lemma set_trust_promotes:
  assumes "map_get m (skill_record_key n v) = Some r" "\<not> sr_revoked r"
    and "parse_provenance x = Some p" "pn_mechanism p \<in> set trust_promotion_mechanisms"
  shows "set_trust_status now n v Trusted (Shaped x) m =
    Inr (promote now p r, map_set (skill_record_key n v) (promote now p r) m, True)"
  using assms
  by (simp add: set_trust_status_def require_skill_def skill_get_def safe_parse_def Let_def promote_def)

section \<open>Sample registry and observations\<close>

definition registry_after :: "registry_config \<Rightarrow> (nat \<Rightarrow> string) \<Rightarrow> skill_request list \<Rightarrow> skill_map" where
  "registry_after cfg now qs = fold (\<lambda>q m. case registry_call cfg now q m of Inl e \<Rightarrow> m | Inr (r, m', w) \<Rightarrow> m') qs []"

lemma registry_after_ok: "registry_ok (registry_after cfg now qs)"
proof -
  have "registry_ok m \<Longrightarrow> registry_ok (fold (\<lambda>q m. case registry_call cfg now q m of Inl e \<Rightarrow> m | Inr (r, m', w) \<Rightarrow> m') qs m)" for m
    by (induction qs arbitrary: m) (auto split: sum.splits dest: registry_call_ok)
  then show ?thesis by (simp add: registry_after_def)
qed

definition sample_registry_config :: registry_config where
  "sample_registry_config = \<lparr>rc_lookup = sample_lookup, rc_builtin_policy = None\<rparr>"

definition sample_clock :: "nat \<Rightarrow> string" where
  "sample_clock k = ''2026-01-01T00:00:00.000Z''"

definition sample_skill_digest :: string where
  "sample_skill_digest = replicate 64 CHR ''a''"

definition sample_registration :: "string \<Rightarrow> skill_registration" where
  "sample_registration v = \<lparr>ri_manifest = sample_manifest\<lparr>sm_version := v\<rparr>, ri_package_digest = sample_skill_digest,
     ri_manifest_digest = sample_skill_digest, ri_source_type = Imported_skill, ri_source_id = ''/skills/branch-work'',
     ri_source_reference = None\<rparr>"

definition owner_decision :: skill_provenance where
  "owner_decision = \<lparr>pn_actor = ''owner'', pn_mechanism = ''owner-decision'', pn_reason = None, pn_at = ''t''\<rparr>"

definition sample_requests :: "skill_request list" where
  "sample_requests = [Register (Shaped (sample_registration ''1.10.0'')), Register (Shaped (sample_registration ''1.9.0'')),
     Set_trust ''branch-work'' ''1.10.0'' Trusted (Shaped owner_decision),
     Set_trust ''branch-work'' ''1.9.0'' Trusted (Shaped owner_decision)]"

definition sample_registry :: skill_map where
  "sample_registry = registry_after sample_registry_config sample_clock sample_requests"

definition sample_record :: "string \<Rightarrow> skill_record" where
  "sample_record v = new_record sample_registry_config sample_clock (sample_registration v)"

lemma sample_inputs:
  "parse_registration (sample_registration ''1.9.0'') = Some (sample_registration ''1.9.0'')"
  "parse_registration (sample_registration ''1.10.0'') = Some (sample_registration ''1.10.0'')"
  "parse_provenance owner_decision = Some owner_decision"
  "parse_provenance (owner_decision\<lparr>pn_mechanism := ''builtin-policy''\<rparr>) = Some (owner_decision\<lparr>pn_mechanism := ''builtin-policy''\<rparr>)"
  by code_simp+

lemma sample_issues: "manifest_issues (ri_manifest (sample_registration v)) (rc_lookup sample_registry_config) = []"
proof -
  have "requirement_issues (m\<lparr>sm_version := v\<rparr>) = requirement_issues m" for m
    by (intro ext) (simp add: requirement_issues_def skill_requirement_def declared_evidence_def)
  then have "capability_issues look (m\<lparr>sm_version := v\<rparr>) = capability_issues look m" for look m
    by (intro ext) (simp add: capability_issues_def split: option.split)
  then have "manifest_issues (m\<lparr>sm_version := v\<rparr>) look = manifest_issues m look" for m look
    by (simp add: manifest_issues_def Let_def)
  then show ?thesis
    using sample_manifest_inherits by (simp add: sample_registration_def sample_registry_config_def)
qed

lemma sample_names [simp]: "sm_name (ri_manifest (sample_registration v)) = ''branch-work''"
  "sm_version (ri_manifest (sample_registration v)) = v"
  by (simp_all add: sample_registration_def sample_manifest_def)

lemma sample_record_fields [simp]:
  "sr_name (sample_record v) = ''branch-work''" "sr_version (sample_record v) = v"
  "sr_source_type (sample_record v) = Imported_skill" "sr_trust (sample_record v) = Quarantined"
  "\<not> sr_revoked (sample_record v)" "sr_manifest (sample_record v) = sample_manifest\<lparr>sm_version := v\<rparr>"
  by (simp_all add: sample_record_def new_record_def default_trust_def Let_def sample_registration_def)
    (simp_all add: sample_manifest_def)

lemma sample_registered:
  "registry_after sample_registry_config sample_clock (take 2 sample_requests) =
     [(''branch-work@1.10.0'', sample_record ''1.10.0''), (''branch-work@1.9.0'', sample_record ''1.9.0'')]"
  by (simp add: registry_after_def sample_requests_def register_new [OF sample_inputs(2) sample_issues]
      register_new [OF sample_inputs(1) sample_issues] skill_record_key_def sample_record_def)

text \<open>A registered skill is quarantined and not usable until it is promoted.\<close>

lemma import_starts_quarantined:
  "resolve_latest_trusted sample_registry_config
     (registry_after sample_registry_config sample_clock (take 2 sample_requests)) ''branch-work'' = None"
  by (auto simp: sample_registered resolve_latest_trusted_def Let_def filter_empty_conv set_list_versions eligible_conditions)

lemma owner_promotes: "pn_mechanism owner_decision \<in> set trust_promotion_mechanisms"
  by (simp add: owner_decision_def trust_promotion_mechanisms_def)

lemma sample_registry_records:
  "sample_registry = [(''branch-work@1.10.0'', promote sample_clock owner_decision (sample_record ''1.10.0'')),
     (''branch-work@1.9.0'', promote sample_clock owner_decision (sample_record ''1.9.0''))]"
  using sample_registered
  by (simp add: sample_registry_def registry_after_def sample_requests_def skill_record_key_def
      set_trust_promotes [OF _ _ sample_inputs(3) owner_promotes])

lemma sample_promoted_eligible:
  "eligible_for_use (promote sample_clock owner_decision (sample_record v)) sample_lookup"
proof -
  have "sha256_hex_ok sample_skill_digest" by code_simp
  moreover have "manifest_issues (sample_manifest\<lparr>sm_version := v\<rparr>) sample_lookup = []"
    using sample_issues [of v] by (simp add: sample_registration_def sample_registry_config_def)
  moreover have "list_all (\<lambda>i. sample_lookup i \<noteq> None) (sm_capabilities sample_manifest)" "sm_capabilities sample_manifest \<noteq> []"
    by (simp_all add: sample_manifest_def sample_lookup_def)
  ultimately show ?thesis
    by (simp add: eligible_conditions promote_def)
      (simp add: sample_record_def new_record_def Let_def sample_registration_def)
qed

text \<open>The mechanism of the built-in policy is accepted as a reason to trust a skill that was imported.\<close>

lemma builtin_mechanism_promotes_imports:
  "\<exists>r m. set_trust_status sample_clock ''branch-work'' ''1.9.0'' Trusted
       (Shaped (owner_decision\<lparr>pn_mechanism := ''builtin-policy''\<rparr>))
       [(''branch-work@1.9.0'', sample_record ''1.9.0'')] = Inr (r, m, True) \<and>
     sr_source_type r = Imported_skill \<and> sr_trust r = Trusted"
  by (subst set_trust_promotes [OF _ _ sample_inputs(4)])
    (auto simp: skill_record_key_def promote_def trust_promotion_mechanisms_def)

text \<open>Two versions whose numbers differ only above the precision of a double compare as equal.\<close>

lemma large_versions_compare_equal:
  "semver_ok ''9007199254740992.0.0'' \<and> semver_ok ''9007199254740993.0.0'' \<and>
   compare_semver ''9007199254740992.0.0'' ''9007199254740993.0.0'' = 0 \<and>
   version_parts ''9007199254740992.0.0'' < version_parts ''9007199254740993.0.0''"
proof -
  have split: "split_on dot ''9007199254740992.0.0'' = [''9007199254740992'', ''0'', ''0'']"
    "split_on dot ''9007199254740993.0.0'' = [''9007199254740993'', ''0'', ''0'']"
    by (simp_all add: dot_def)
  have ok: "numeric_ok ''9007199254740992''" "numeric_ok ''9007199254740993''" "numeric_ok ''0''" by code_simp+
  have dv: "digits_value ''9007199254740992'' = 9007199254740992"
    "digits_value ''9007199254740993'' = 9007199254740993" "digits_value ''0'' = 0"
    by (simp_all add: digits_value_def code_def)
  have fl: "floorlog 2 9007199254740992 = 54" "floorlog 2 9007199254740993 = 54"
    by (intro antisym floorlog_leI floorlog_geI; simp)+
  have rd: "round_double 9007199254740992 = 9007199254740992" "round_double 9007199254740993 = 9007199254740992"
    by (simp_all add: round_double_def Let_def fl)
  show ?thesis
    by (simp add: semver_ok_def compare_semver_def version_parts_def version_number_def split ok dv rd Let_def del: split_on.simps)
qed

lemma sample_latest:
  "resolve_latest_trusted sample_registry_config sample_registry ''branch-work'' =
     Some (promote sample_clock owner_decision (sample_record ''1.10.0''))"
proof -
  let ?r = "\<lambda>v. promote sample_clock owner_decision (sample_record v)"
  have "compare_semver ''1.10.0'' ''1.9.0'' = 1"
    by (simp add: compare_semver_def version_number_def digits_value_def round_double_def dot_def code_def)
  then have le: "\<not> record_le (?r ''1.10.0'') (?r ''1.9.0'')" by (simp add: record_le_def promote_def)
  then have "skill_list sample_registry = [?r ''1.9.0'', ?r ''1.10.0'']"
    by (simp add: sample_registry_records skill_list_def sort_by_def)
  then have "list_versions sample_registry ''branch-work'' = [?r ''1.9.0'', ?r ''1.10.0'']"
    by (simp add: list_versions_def) (simp add: promote_def)
  then show ?thesis
    by (simp add: resolve_latest_trusted_def sample_registry_config_def sample_promoted_eligible)
qed

lemma latest_trusted_greatest_witness:
  "\<exists>r. resolve_latest_trusted sample_registry_config sample_registry ''branch-work'' = Some r \<and>
     sr_name r = ''branch-work'' \<and> eligible_for_use r sample_lookup"
proof -
  have "registry_ok sample_registry" by (simp add: sample_registry_def registry_after_ok)
  from latest_trusted_greatest [OF this, where cfg = sample_registry_config and name = "''branch-work''"] show ?thesis
    by (simp add: sample_latest) (simp add: sample_registry_config_def)
qed

end
