(* ===== verification/Skill_Registry_Store.thy ===== *)
theory Skill_Registry_Store
  imports Skill_Registry
begin

text \<open>
  Persistence of the skill registry (\<open>src/brain-server/src/skills/registry-store.ts\<close> and the write
  queue of \<open>registry.ts\<close>): loading and validating the store file, the queue of pending writes, and
  the registry as a transition system in which requests, the two halves of a write and restarts
  interleave. The file is represented by what a reader finds in it: nothing, a text that is not a
  store file (\<open>Malformed\<close>), or its contents. A pending write refers to the live records of the
  registry, whose values are read when the file text is produced.
\<close>

section \<open>The store file\<close>

record store_data =
  sd_updated_at :: string
  sd_records :: "skill_record list"

type_synonym store_file = "store_data raw option"

definition parse_store_data :: "store_data \<Rightarrow> store_data option" where
  "parse_store_data = parse_with (\<lambda>d. d\<lparr>sd_records := map norm_skill_record (sd_records d)\<rparr>)
     (\<lambda>d. sd_updated_at d \<noteq> [] \<and> list_all skill_record_ok (sd_records d))"

definition record_key :: "skill_record \<Rightarrow> string" where
  "record_key r = skill_record_key (sr_name r) (sr_version r)"

fun unique_identities :: "skill_record list \<Rightarrow> string set \<Rightarrow> bool" where
  "unique_identities [] seen = True"
| "unique_identities (r # rs) seen =
     (if record_key r \<in> seen then False else unique_identities rs (insert (record_key r) seen))"

definition load_skill_store :: "store_file \<Rightarrow> store_data skill_result" where
  "load_skill_store file = (case file of
     None \<Rightarrow> Inr \<lparr>sd_updated_at = ''1970-01-01T00:00:00.000Z'', sd_records = []\<rparr>
   | Some contents \<Rightarrow> ebind (safe_parse SKILL_REGISTRY_CORRUPT parse_store_data contents) (\<lambda>d.
       ebind (guarded (unique_identities (sd_records d) {}) SKILL_REGISTRY_CORRUPT) (\<lambda>_. Inr d)))"

definition open_registry :: "store_file \<Rightarrow> skill_map skill_result" where
  "open_registry file = ebind (load_skill_store file) (\<lambda>d.
     Inr (fold (\<lambda>r. map_set (record_key r) r) (sd_records d) []))"

section \<open>The registry with its pending writes\<close>

text \<open>A pending write is the time of the request and the identities of the records it lists.\<close>

record registry_state =
  rs_memory :: skill_map
  rs_queue :: "(string \<times> string list) list"
  rs_writing :: "store_data option"
  rs_settled :: "bool option"
  rs_disk :: store_file

definition store_snapshot :: "string \<Rightarrow> skill_map \<Rightarrow> string \<times> string list" where
  "store_snapshot t m = (t, map record_key (skill_list m))"

definition serialised :: "skill_map \<Rightarrow> string \<times> string list \<Rightarrow> store_data" where
  "serialised m p = \<lparr>sd_updated_at = fst p, sd_records = List.map_filter (map_get m) (snd p)\<rparr>"

definition answer_call :: "(nat \<Rightarrow> string) \<Rightarrow> skill_map \<Rightarrow> bool \<Rightarrow> registry_state \<Rightarrow> registry_state" where
  "answer_call now m w s = s\<lparr>rs_memory := m,
     rs_queue := (if w then rs_queue s @ [store_snapshot (now 3) m] else rs_queue s)\<rparr>"

definition fresh_registry :: "skill_map \<Rightarrow> store_file \<Rightarrow> registry_state" where
  "fresh_registry m file = \<lparr>rs_memory = m, rs_queue = [], rs_writing = None, rs_settled = None, rs_disk = file\<rparr>"

inductive persist_step :: "registry_state \<Rightarrow> registry_state \<Rightarrow> bool" where
  serialise: "rs_writing s = None \<Longrightarrow> rs_queue s = p # ps \<Longrightarrow>
    persist_step s (s\<lparr>rs_queue := ps, rs_writing := Some (serialised (rs_memory s) p)\<rparr>)"
| renamed: "rs_writing s = Some d \<Longrightarrow>
    persist_step s (s\<lparr>rs_writing := None, rs_disk := Some (Shaped d), rs_settled := Some True\<rparr>)"

inductive registry_step :: "registry_config \<Rightarrow> registry_state \<Rightarrow> registry_state \<Rightarrow> bool" for cfg where
  call: "registry_call cfg now q (rs_memory s) = Inr (r, m, w) \<Longrightarrow> registry_step cfg s (answer_call now m w s)"
| refused: "registry_call cfg now q (rs_memory s) = Inl e \<Longrightarrow> registry_step cfg s s"
| persisted: "persist_step s s' \<Longrightarrow> registry_step cfg s s'"
| write_failed: "rs_writing s = Some d \<Longrightarrow>
    registry_step cfg s (s\<lparr>rs_writing := None, rs_settled := Some False\<rparr>)"
| restart: "open_registry (rs_disk s) = Inr m \<Longrightarrow> registry_step cfg s (fresh_registry m (rs_disk s))"

inductive_cases persist_stepE: "persist_step s s'"
inductive_cases registry_stepE: "registry_step cfg s s'"

definition registry_reachable :: "registry_config \<Rightarrow> registry_state \<Rightarrow> bool" where
  "registry_reachable cfg s \<longleftrightarrow> (registry_step cfg)\<^sup>*\<^sup>* (fresh_registry [] None) s"

section \<open>Stores whose views only move forward\<close>

text \<open>
  The contract of a store with write-behind persistence: the views of a state are the contents of
  its memory, of the writes under way and of the file, and after a step every view is a later
  version of a view before the step. What has reached every view, and is kept by later versions,
  then holds for ever, restarts included.
\<close>

locale forward_store =
  fixes step :: "'s \<Rightarrow> 's \<Rightarrow> bool"
    and good :: "'s \<Rightarrow> bool"
    and views :: "'s \<Rightarrow> ('k \<Rightarrow> 'v option) set"
    and later :: "'v \<Rightarrow> 'v \<Rightarrow> bool"
  assumes good_step: "good s \<Longrightarrow> step s s' \<Longrightarrow> good s'"
    and views_step: "good s \<Longrightarrow> step s s' \<Longrightarrow> f \<in> views s' \<Longrightarrow>
      \<exists>g\<in>views s. \<forall>k v. g k = Some v \<longrightarrow> (\<exists>w. f k = Some w \<and> later v w)"
begin

definition everywhere :: "'k \<Rightarrow> ('v \<Rightarrow> bool) \<Rightarrow> 's \<Rightarrow> bool" where
  "everywhere k P s \<longleftrightarrow> (\<forall>f\<in>views s. \<exists>v. f k = Some v \<and> P v)"

lemma run_good: "step\<^sup>*\<^sup>* s s' \<Longrightarrow> good s \<Longrightarrow> good s'"
  by (induction rule: rtranclp_induct) (auto intro: good_step)

lemma permanent:
  assumes "step\<^sup>*\<^sup>* s s'" "good s" "everywhere k P s" "\<And>v w. P v \<Longrightarrow> later v w \<Longrightarrow> P w"
  shows "everywhere k P s'"
  using assms(1)
proof (induction rule: rtranclp_induct)
  case (step s1 s2)
  have good: "good s1" using step.hyps(1) assms(2) by (rule run_good)
  show ?case unfolding everywhere_def
  proof
    fix f assume "f \<in> views s2"
    then obtain g where "g \<in> views s1" and g: "\<And>k v. g k = Some v \<Longrightarrow> \<exists>w. f k = Some w \<and> later v w"
      using views_step [OF good step.hyps(2)] by blast
    then obtain v where "g k = Some v" "P v" using step.IH by (auto simp: everywhere_def)
    then show "\<exists>v. f k = Some v \<and> P v" using g assms(4) by blast
  qed
qed (rule assms(3))

end

section \<open>Loading what was written\<close>

lemma unique_identities_iff:
  "unique_identities rs seen \<longleftrightarrow> distinct (map record_key rs) \<and> set (map record_key rs) \<inter> seen = {}"
  by (induction rs arbitrary: seen) auto

lemma fold_set_map:
  "map_get (fold (\<lambda>r. map_set (record_key r) r) rs m) = map_get m ++ map_of (rev (map (\<lambda>r. (record_key r, r)) rs))"
  by (induction rs arbitrary: m) (auto simp: map_get_set map_add_def fun_eq_iff split: option.splits)

lemma keys_distinct_fold: "keys_distinct m \<Longrightarrow> keys_distinct (fold (\<lambda>r. map_set (record_key r) r) rs m)"
  by (induction rs arbitrary: m) auto

lemma map_of_rev_distinct: "distinct (map fst xs) \<Longrightarrow> map_of (rev xs) = map_of xs"
  by (subst map_of_inject_set) (auto simp: rev_map [symmetric])

definition content_of :: "skill_record list \<Rightarrow> string \<Rightarrow> skill_record option" where
  "content_of rs = map_of (map (\<lambda>r. (record_key r, r)) rs)"

lemma open_registry_records:
  assumes "open_registry (Some (Shaped d)) = Inr m" "list_all (\<lambda>r. norm_skill_record r = r) (sd_records d)"
  shows "map_get m = content_of (sd_records d)" "keys_distinct m" "distinct (map record_key (sd_records d))"
proof -
  have id: "map norm_skill_record (sd_records d) = sd_records d"
    using assms(2) by (induction "sd_records d" arbitrary: d) (auto simp: list_all_iff intro: map_idI)
  have d: "distinct (map record_key (sd_records d))" "m = fold (\<lambda>r. map_set (record_key r) r) (sd_records d) []"
    using assms(1) id
    by (auto simp: open_registry_def load_skill_store_def safe_parse_Inr parse_store_data_def parse_with_Some
        unique_identities_iff)
  then show "map_get m = content_of (sd_records d)"
    by (simp add: fold_set_map content_of_def rev_map [symmetric] map_of_rev_distinct comp_def)
  show "keys_distinct m" "distinct (map record_key (sd_records d))" using d keys_distinct_fold [of "[]"] by auto
qed

section \<open>The invariant of the system\<close>

definition data_ok :: "store_data \<Rightarrow> bool" where
  "data_ok d \<longleftrightarrow> distinct (map record_key (sd_records d)) \<and> list_all entry_ok (sd_records d)"

definition state_ok :: "registry_state \<Rightarrow> bool" where
  "state_ok s \<longleftrightarrow> registry_ok (rs_memory s) \<and>
     (\<forall>p\<in>set (rs_queue s). distinct (snd p)) \<and>
     (\<forall>d. rs_writing s = Some d \<longrightarrow> data_ok d) \<and>
     (rs_disk s = None \<or> (\<exists>d. rs_disk s = Some (Shaped d) \<and> data_ok d))"

text \<open>What the last of the writes under way will leave in the file.\<close>

definition converging :: "registry_state \<Rightarrow> bool" where
  "converging s \<longleftrightarrow>
     (rs_queue s \<noteq> [] \<longrightarrow> snd (last (rs_queue s)) = map record_key (skill_list (rs_memory s))) \<and>
     (\<forall>d. rs_queue s = [] \<longrightarrow> rs_writing s = Some d \<longrightarrow> sd_records d = skill_list (rs_memory s)) \<and>
     (rs_queue s = [] \<longrightarrow> rs_writing s = None \<longrightarrow> rs_settled s = Some True \<longrightarrow>
        (\<exists>d. rs_disk s = Some (Shaped d) \<and> sd_records d = skill_list (rs_memory s)))"

lemma set_skill_list [simp]: "set (skill_list m) = set (map_values m)"
  by (simp add: skill_list_def)

lemma registry_ok_key:
  "registry_ok m \<Longrightarrow> r \<in> set (map_values m) \<Longrightarrow> map_get m (record_key r) = Some r \<and> entry_ok r"
  using map_values_get [of m r] by (fastforce simp: registry_ok_def record_key_def)

lemma distinct_record_keys:
  assumes "registry_ok m" shows "distinct (map record_key (skill_list m))"
proof -
  have "map record_key (map_values m) = map fst m"
    using assms by (auto simp: registry_ok_def record_key_def keys_distinct_def)
  then show ?thesis using assms by (simp only: skill_list_def distinct_sort_by registry_ok_def keys_distinct_def)
qed

definition queued_view :: "skill_map \<Rightarrow> string \<times> string list \<Rightarrow> string \<Rightarrow> skill_record option" where
  "queued_view m p k = (if k \<in> set (snd p) then map_get m k else None)"

lemma serialised_records:
  assumes "registry_ok m"
  shows "map record_key (sd_records (serialised m p)) = filter (\<lambda>k. map_get m k \<noteq> None) (snd p)"
    and "list_all entry_ok (sd_records (serialised m p))"
    and "content_of (sd_records (serialised m p)) = queued_view m p"
proof -
  have key: "map_get m k = Some r \<Longrightarrow> record_key r = k \<and> entry_ok r" for k r
    using registry_ok_entry [OF assms] by (simp add: record_key_def)
  have "map record_key (List.map_filter (map_get m) ks) = filter (\<lambda>k. map_get m k \<noteq> None) ks" for ks
    by (induction ks) (auto simp: map_filter_simps key split: option.splits)
  then show "map record_key (sd_records (serialised m p)) = filter (\<lambda>k. map_get m k \<noteq> None) (snd p)"
    by (simp add: serialised_def)
  have "list_all entry_ok (List.map_filter (map_get m) ks)" for ks
    by (induction ks) (auto simp: map_filter_simps key split: option.splits)
  then show "list_all entry_ok (sd_records (serialised m p))" by (simp add: serialised_def)
  have "content_of (List.map_filter (map_get m) ks) k = (if k \<in> set ks then map_get m k else None)" for ks k
    by (induction ks) (auto simp: map_filter_simps content_of_def key split: option.splits)
  then show "content_of (sd_records (serialised m p)) = queued_view m p"
    by (auto simp: serialised_def queued_view_def)
qed

lemma serialised_snapshot:
  assumes "registry_ok m" shows "sd_records (serialised m (t, map record_key (skill_list m))) = skill_list m"
proof -
  have "List.map_filter (map_get m) (map record_key rs) = rs" if "set rs \<subseteq> set (map_values m)" for rs
    using that
  proof (induction rs)
    case (Cons r rs)
    then have "map_get m (record_key r) = Some r" using registry_ok_key [OF assms, of r] by simp
    then show ?case using Cons by (simp add: map_filter_simps)
  qed (simp add: map_filter_simps)
  then show ?thesis by (simp add: serialised_def)
qed

lemma content_of_skill_list:
  assumes "registry_ok m" shows "content_of (skill_list m) = map_get m"
proof
  fix k
  have "map_get m k \<noteq> None \<Longrightarrow> k \<in> record_key ` set (map_values m)"
    using registry_ok_entry [OF assms, of k] by (force simp: record_key_def image_iff dest: map_of_SomeD)
  then show "content_of (skill_list m) k = map_get m k"
    using serialised_records(3) [OF assms, of "([], map record_key (skill_list m))"] serialised_snapshot [OF assms, of "[]"]
    by (cases "map_get m k") (auto simp: queued_view_def)
qed

lemma serialised_data_ok: "registry_ok m \<Longrightarrow> distinct (snd p) \<Longrightarrow> data_ok (serialised m p)"
  using serialised_records [of m p] by (simp add: data_ok_def)

lemma entry_ok_stable: "entry_ok r \<Longrightarrow> norm_skill_record r = r"
  by (simp add: entry_ok_def)

lemma open_registry_ok:
  assumes "open_registry (Some (Shaped d)) = Inr m" "data_ok d"
  shows "registry_ok m" "map_get m = content_of (sd_records d)"
proof -
  have "list_all (\<lambda>r. norm_skill_record r = r) (sd_records d)"
    using assms(2) by (auto simp: data_ok_def list_all_iff entry_ok_stable)
  note o = open_registry_records [OF assms(1) this]
  show "map_get m = content_of (sd_records d)" by (rule o)
  have "\<And>k r. map_get m k = Some r \<Longrightarrow> k = record_key r \<and> entry_ok r"
    unfolding o(1) content_of_def using assms(2) by (auto dest!: map_of_SomeD simp: data_ok_def list_all_iff)
  then show "registry_ok m" using o(2) by (simp add: registry_ok_def record_key_def)
qed

lemma open_registry_restart:
  assumes "open_registry (rs_disk s) = Inr m" "state_ok s"
  shows "registry_ok m" "map_get m = (case rs_disk s of Some (Shaped d) \<Rightarrow> content_of (sd_records d) | _ \<Rightarrow> Map.empty)"
proof -
  consider "rs_disk s = None" | d where "rs_disk s = Some (Shaped d)" "data_ok d"
    using assms(2) by (auto simp: state_ok_def)
  then have "registry_ok m \<and>
      map_get m = (case rs_disk s of Some (Shaped d) \<Rightarrow> content_of (sd_records d) | _ \<Rightarrow> Map.empty)"
  proof cases
    case 1
    then show ?thesis using assms(1) by (auto simp: open_registry_def load_skill_store_def)
  next
    case (2 d)
    then show ?thesis using assms(1) open_registry_ok [of d m] by simp
  qed
  then show "registry_ok m" "map_get m = (case rs_disk s of Some (Shaped d) \<Rightarrow> content_of (sd_records d) | _ \<Rightarrow> Map.empty)"
    by auto
qed

lemma persist_step_ok: "persist_step s s' \<Longrightarrow> state_ok s \<Longrightarrow> state_ok s'"
  by (erule persist_stepE) (auto simp: state_ok_def serialised_data_ok)

lemma registry_step_ok:
  assumes "registry_step cfg s s'" "state_ok s" shows "state_ok s'"
  using assms(1)
proof cases
  case (call now q r m w)
  then show ?thesis using assms(2) registry_call_ok [OF call(2)]
    by (auto simp: state_ok_def answer_call_def store_snapshot_def distinct_record_keys)
next
  case persisted
  then show ?thesis using assms(2) persist_step_ok by blast
next
  case (restart m)
  then show ?thesis using open_registry_restart [OF restart(2) assms(2)] assms(2)
    by (auto simp: state_ok_def fresh_registry_def)
qed (use assms(2) in \<open>auto simp: state_ok_def\<close>)

lemma persist_step_converging:
  "persist_step s s' \<Longrightarrow> state_ok s \<Longrightarrow> converging s \<Longrightarrow> converging s'"
proof (erule persist_stepE)
  fix p ps assume h: "state_ok s" "converging s" "rs_queue s = p # ps"
    "s' = s\<lparr>rs_queue := ps, rs_writing := Some (serialised (rs_memory s) p)\<rparr>"
  have "ps = [] \<Longrightarrow> sd_records (serialised (rs_memory s) p) = skill_list (rs_memory s)"
    using h serialised_snapshot [of "rs_memory s" "fst p"] by (cases p) (simp add: converging_def state_ok_def)
  then show "converging s'" using h by (auto simp: converging_def split: if_splits)
qed (auto simp: converging_def)

lemma registry_call_unwritten: "registry_call cfg now q m = Inr (r, m', False) \<Longrightarrow> m' = m"
  by (erule registry_call_cases) auto

lemma registry_step_converging:
  assumes "registry_step cfg s s'" "state_ok s" "converging s" shows "converging s'"
  using assms(1)
proof cases
  case (call now q r m w)
  then show ?thesis using assms(3) registry_call_unwritten [of cfg now q "rs_memory s" r m]
    by (cases w) (auto simp: converging_def answer_call_def store_snapshot_def)
next
  case persisted
  then show ?thesis using assms(2,3) persist_step_converging by blast
qed (use assms(3) in \<open>auto simp: converging_def fresh_registry_def\<close>)

lemma fresh_ok: "state_ok (fresh_registry [] None)" "converging (fresh_registry [] None)"
  by (simp_all add: state_ok_def converging_def fresh_registry_def)

lemma reachable_ok:
  assumes "registry_reachable cfg s" shows "state_ok s \<and> converging s"
  using assms unfolding registry_reachable_def
  by (induction rule: rtranclp_induct) (auto simp: fresh_ok intro: registry_step_ok registry_step_converging)

section \<open>Views\<close>

definition registry_views :: "registry_state \<Rightarrow> (string \<Rightarrow> skill_record option) set" where
  "registry_views s = insert (map_get (rs_memory s))
     (queued_view (rs_memory s) ` set (rs_queue s) \<union>
      (\<lambda>d. content_of (sd_records d)) ` set_option (rs_writing s) \<union>
      {case rs_disk s of Some (Shaped d) \<Rightarrow> content_of (sd_records d) | _ \<Rightarrow> Map.empty})"

lemma registry_views_step:
  assumes "state_ok s" "registry_step cfg s s'" "f \<in> registry_views s'"
  shows "\<exists>g\<in>registry_views s. \<forall>k v. g k = Some v \<longrightarrow> (\<exists>w. f k = Some w \<and> evolves v w)"
proof -
  have same: ?thesis if "f \<in> registry_views s" using that by (intro bexI [of _ f]) auto
  show ?thesis using assms(2)
  proof cases
    case (call now q r m w)
    have ev: "\<exists>v. map_get m k = Some v \<and> evolves u v" if "map_get (rs_memory s) k = Some u" for k u
      using registry_call_evolves [OF call(2) that] .
    have all: "map_get m k \<noteq> None \<Longrightarrow> k \<in> record_key ` set (map_values m)" for k
      using registry_call_ok [OF call(2)] assms(1) registry_ok_entry [of m k]
      by (force simp: state_ok_def record_key_def image_iff dest: map_of_SomeD)
    have snap: "queued_view m (store_snapshot t m) = map_get m" for t
    proof
      fix k show "queued_view m (store_snapshot t m) k = map_get m k"
        using all [of k] by (cases "map_get m k") (auto simp: queued_view_def store_snapshot_def)
    qed
    consider "f = map_get m" | p where "p \<in> set (rs_queue s)" "f = queued_view m p" | "f \<in> registry_views s"
      using assms(3) call(1) snap by (auto simp: registry_views_def answer_call_def split: if_splits)
    then show ?thesis
    proof cases
      case 1
      then show ?thesis using ev by (intro bexI [of _ "map_get (rs_memory s)"]) (auto simp: registry_views_def)
    next
      case (2 p)
      then show ?thesis using ev
        by (intro bexI [of _ "queued_view (rs_memory s) p"]) (auto simp: registry_views_def queued_view_def)
    qed (rule same)
  next
    case persisted
    have "f \<in> registry_views s"
      using persisted assms(3)
    proof cases
      case (serialise p ps)
      then show ?thesis using assms(1,3) serialised_records(3) [of "rs_memory s" p]
        by (auto simp: registry_views_def state_ok_def)
    qed (use assms(3) in \<open>auto simp: registry_views_def\<close>)
    then show ?thesis by (rule same)
  next
    case (restart m)
    then have "f \<in> registry_views s"
      using assms(3) open_registry_restart(2) [OF restart(2) assms(1)]
      by (auto simp: registry_views_def fresh_registry_def)
    then show ?thesis by (rule same)
  qed (use assms(3) same in \<open>auto simp: registry_views_def\<close>)
qed

interpretation skills: forward_store "registry_step cfg" state_ok registry_views evolves for cfg
  by unfold_locales (auto intro: registry_step_ok registry_views_step)

section \<open>Trust, revocation and convergence\<close>

text \<open>C19: No skill is trusted without a decision. Start with an empty registry and no store file, let only the
  registry write the file, and let requests, writes, failed writes and restarts come in any order. In
  every state reached, a record whose status is trusted is not revoked, and its provenance has,
  after the entry of the registration, an entry whose mechanism is an owner decision, an
  administrator decision or the built-in policy.\<close>

theorem trusted_skills_are_decided:
  assumes "registry_reachable cfg s" "skill_get (rs_memory s) n v = Some r" "sr_trust r = Trusted"
  shows "\<not> sr_revoked r \<and>
    (\<exists>p\<in>set (tl (sr_provenance r)). pn_mechanism p \<in> {''owner-decision'', ''admin-decision'', ''builtin-policy''})"
proof -
  have "registry_ok (rs_memory s)" using reachable_ok [OF assms(1)] by (simp add: state_ok_def)
  then have "entry_ok r" using assms(2) registry_ok_entry by (simp add: skill_get_def)
  then show ?thesis using assms(3) by (auto simp: entry_ok_def promoted_def trust_promotion_mechanisms_def)
qed

lemma settled_views:
  assumes "registry_reachable cfg s" "rs_queue s = []" "rs_writing s = None" "rs_settled s = Some True"
  shows "registry_views s = {map_get (rs_memory s)}"
proof -
  have ok: "state_ok s" "converging s" using reachable_ok [OF assms(1)] by auto
  then obtain d where d: "rs_disk s = Some (Shaped d)" "sd_records d = skill_list (rs_memory s)"
    using assms(2-4) by (auto simp: converging_def)
  have reg: "registry_ok (rs_memory s)" using ok by (simp add: state_ok_def)
  then show ?thesis by (simp add: registry_views_def assms d content_of_skill_list)
qed

text \<open>C18: Revocation is permanent. Take a state that the registry reaches from an empty one without a store
  file, the file being written by the registry only, in which a skill version is revoked and which
  has settled: no write is queued or under way and the last one succeeded. Then that version stays
  registered and revoked in every later state, through any requests (re-registration and trust
  transitions included), any successful or failed writes and any restarts from the store file; it
  is never eligible, whatever the capability lookup, and no name resolves to it.\<close>

theorem revocation_is_permanent:
  assumes "registry_reachable cfg s" "rs_queue s = []" "rs_writing s = None" "rs_settled s = Some True"
    and "skill_get (rs_memory s) n v = Some r" "sr_revoked r"
    and "(registry_step cfg)\<^sup>*\<^sup>* s s'"
  shows "\<exists>q. skill_get (rs_memory s') n v = Some q \<and> sr_revoked q \<and> \<not> eligible_for_use q look \<and>
    (\<forall>name. resolve_latest_trusted cfg (rs_memory s') name \<noteq> Some q)"
proof -
  have ok: "state_ok s" using reachable_ok [OF assms(1)] by simp
  have now: "skills.everywhere (skill_record_key n v) sr_revoked s"
    using assms(5,6) by (simp add: skills.everywhere_def settled_views [OF assms(1-4)] skill_get_def)
  have "sr_revoked a \<Longrightarrow> evolves a b \<Longrightarrow> sr_revoked b" for a b by (simp add: evolves_def)
  from skills.permanent [OF assms(7) ok now this]
  have "skills.everywhere (skill_record_key n v) sr_revoked s'" .
  then obtain q where q: "skill_get (rs_memory s') n v = Some q" "sr_revoked q"
    by (auto simp: skills.everywhere_def registry_views_def skill_get_def)
  have "resolve_latest_trusted cfg (rs_memory s') name \<noteq> Some q" for name
  proof
    assume "resolve_latest_trusted cfg (rs_memory s') name = Some q"
    then have "q \<in> set (filter (\<lambda>r. eligible_for_use r (rc_lookup cfg)) (list_versions (rs_memory s') name))"
      by (auto simp: resolve_latest_trusted_def Let_def simp del: set_filter split: if_splits intro!: nth_mem)
    then show False using q(2) by (simp add: eligible_conditions)
  qed
  then show ?thesis using q by (auto simp: eligible_conditions)
qed

text \<open>A write that has been requested takes two steps, the one that produces the text and the one that
  replaces the file.\<close>

definition pending_steps :: "registry_state \<Rightarrow> nat" where
  "pending_steps s = 2 * length (rs_queue s) + (if rs_writing s = None then 0 else 1)"

lemma persist_step_progress:
  "0 < pending_steps s \<Longrightarrow> \<exists>s'. persist_step s s'"
  "persist_step s s' \<Longrightarrow> pending_steps s = Suc (pending_steps s') \<and> rs_memory s' = rs_memory s \<and>
     (pending_steps s' = 0 \<longrightarrow> rs_settled s' = Some True)"
proof -
  assume "0 < pending_steps s"
  then show "\<exists>s'. persist_step s s'"
    by (cases "rs_writing s"; cases "rs_queue s") (auto simp: pending_steps_def intro: persist_step.intros)
next
  assume "persist_step s s'"
  then show "pending_steps s = Suc (pending_steps s') \<and> rs_memory s' = rs_memory s \<and>
      (pending_steps s' = 0 \<longrightarrow> rs_settled s' = Some True)"
    by (cases rule: persist_step.cases) (auto simp: pending_steps_def)
qed

lemma persist_run:
  assumes "state_ok s" "converging s"
  shows "\<exists>s'. (persist_step ^^ pending_steps s) s s'"
    and "(persist_step ^^ k) s s' \<Longrightarrow> k \<le> pending_steps s \<Longrightarrow> state_ok s' \<and> converging s' \<and>
      rs_memory s' = rs_memory s \<and> pending_steps s = k + pending_steps s' \<and>
      (0 < k \<longrightarrow> pending_steps s' = 0 \<longrightarrow> rs_settled s' = Some True)"
proof -
  show "\<exists>s'. (persist_step ^^ pending_steps s) s s'"
  proof (induction "pending_steps s" arbitrary: s)
    case (Suc m)
    then obtain s1 where s1: "persist_step s s1" using persist_step_progress(1) [of s] by auto
    then have "m = pending_steps s1" using Suc.hyps(2) persist_step_progress(2) by simp
    then show ?case using Suc.hyps s1 by (metis relpowp_Suc_I2)
  qed auto
next
  show "(persist_step ^^ k) s s' \<Longrightarrow> k \<le> pending_steps s \<Longrightarrow> state_ok s' \<and> converging s' \<and>
      rs_memory s' = rs_memory s \<and> pending_steps s = k + pending_steps s' \<and>
      (0 < k \<longrightarrow> pending_steps s' = 0 \<longrightarrow> rs_settled s' = Some True)"
  proof (induction k arbitrary: s')
    case (Suc k)
    then obtain s1 where s1: "(persist_step ^^ k) s s1" "persist_step s1 s'" by auto
    then show ?case
      using Suc.IH [OF s1(1)] Suc.prems(2) persist_step_progress(2) [OF s1(2)]
        persist_step_ok [OF s1(2)] persist_step_converging [OF s1(2)] by simp
  qed (use assms in simp)
qed

text \<open>C39: Every change reaches the store. Take any state with writes outstanding that the registry reaches
  from an empty one without a store file, however the requests, the earlier writes, their failures and restarts
  were interleaved. The steps of the outstanding writes, two for each, can be carried out; and once
  they have all been carried out, with no request in between and none of them failing, nothing is
  outstanding, the registry is unchanged and the file holds exactly its records, in the registry's
  order.\<close>

theorem changes_reach_the_store:
  assumes "registry_reachable cfg s" "0 < pending_steps s"
  shows "(\<exists>s'. (persist_step ^^ pending_steps s) s s') \<and>
    (\<forall>s'. (persist_step ^^ pending_steps s) s s' \<longrightarrow> rs_queue s' = [] \<and> rs_writing s' = None \<and>
       rs_memory s' = rs_memory s \<and>
       (\<exists>d. rs_disk s' = Some (Shaped d) \<and> sd_records d = skill_list (rs_memory s)))"
proof (intro conjI allI impI)
  have ok: "state_ok s" "converging s" using reachable_ok [OF assms(1)] by auto
  show "\<exists>s'. (persist_step ^^ pending_steps s) s s'" by (rule persist_run(1) [OF ok])
  fix s' assume "(persist_step ^^ pending_steps s) s s'"
  from persist_run(2) [OF ok this] have c: "converging s'" "rs_memory s' = rs_memory s" "pending_steps s' = 0"
    "rs_settled s' = Some True" using assms(2) by auto
  show idle: "rs_queue s' = []" "rs_writing s' = None"
    using c(3) by (auto simp: pending_steps_def split: if_splits)
  show "rs_memory s' = rs_memory s" by (rule c)
  show "\<exists>d. rs_disk s' = Some (Shaped d) \<and> sd_records d = skill_list (rs_memory s)"
    using c idle by (simp add: converging_def)
qed

text \<open>Opening the file that was written. A registry written to its store and opened again has the
  same record under every identity, provided every record passes the schema of the store; otherwise
  the file that was written is reported as corrupt when it is opened.\<close>

lemma store_round_trip:
  assumes "registry_ok m" "t \<noteq> []"
  shows "(list_all skill_record_ok (map_values m) \<longrightarrow>
      (\<exists>m'. open_registry (Some (Shaped \<lparr>sd_updated_at = t, sd_records = skill_list m\<rparr>)) = Inr m' \<and>
        map_get m' = map_get m)) \<and>
    (\<not> list_all skill_record_ok (map_values m) \<longrightarrow>
      open_registry (Some (Shaped \<lparr>sd_updated_at = t, sd_records = skill_list m\<rparr>)) =
        Inl (Throws SKILL_REGISTRY_CORRUPT))"
proof -
  let ?d = "\<lparr>sd_updated_at = t, sd_records = skill_list m\<rparr>"
  have norm: "map norm_skill_record (skill_list m) = skill_list m"
    using registry_ok_key [OF assms(1)] by (intro map_idI) (simp add: entry_ok_stable)
  have parse: "parse_store_data ?d = (if list_all skill_record_ok (map_values m) then Some ?d else None)"
    using assms(2) norm by (simp add: parse_store_data_def parse_with_def list_all_iff)
  have data: "data_ok ?d"
    using registry_ok_key [OF assms(1)] distinct_record_keys [OF assms(1)] by (simp add: data_ok_def list_all_iff)
  show ?thesis
  proof (cases "list_all skill_record_ok (map_values m)")
    case True
    have "open_registry (Some (Shaped ?d)) = Inr (fold (\<lambda>r. map_set (record_key r) r) (skill_list m) [])"
      using True parse data
      by (simp add: open_registry_def load_skill_store_def safe_parse_def unique_identities_iff data_ok_def)
    moreover from open_registry_ok(2) [OF this data] content_of_skill_list [OF assms(1)]
    have "map_get (fold (\<lambda>r. map_set (record_key r) r) (skill_list m) []) = map_get m" by simp
    ultimately show ?thesis using True by simp
  next
    case False
    then show ?thesis using parse by (simp add: open_registry_def load_skill_store_def safe_parse_def)
  qed
qed

section \<open>Sample runs\<close>

lemma persist_run_steps: "(persist_step ^^ k) s s' \<Longrightarrow> (registry_step cfg)\<^sup>*\<^sup>* s s'"
  by (induction k arbitrary: s') (auto intro: persisted rtranclp.rtrancl_into_rtrancl)

lemma reachable_step: "registry_reachable cfg s \<Longrightarrow> registry_step cfg s s' \<Longrightarrow> registry_reachable cfg s'"
  unfolding registry_reachable_def by (rule rtranclp.rtrancl_into_rtrancl)

definition sample_registered_state :: registry_state where
  "sample_registered_state = answer_call sample_clock [(''branch-work@1.9.0'', sample_record ''1.9.0'')] True (fresh_registry [] None)"

lemma sample_registered_reachable: "registry_reachable sample_registry_config sample_registered_state"
proof -
  have "registry_call sample_registry_config sample_clock (Register (Shaped (sample_registration ''1.9.0'')))
      (rs_memory (fresh_registry [] None)) = Inr (sample_record ''1.9.0'', [(''branch-work@1.9.0'', sample_record ''1.9.0'')], True)"
    using register_new [OF sample_inputs(1) sample_issues, of "[]"]
    by (simp add: sample_record_def skill_record_key_def fresh_registry_def)
  then show ?thesis
    unfolding sample_registered_state_def registry_reachable_def by (intro r_into_rtranclp) (rule call)
qed

lemma sample_registered_fields:
  "rs_memory sample_registered_state = [(''branch-work@1.9.0'', sample_record ''1.9.0'')]"
  "pending_steps sample_registered_state = 2"
  by (simp_all add: sample_registered_state_def answer_call_def fresh_registry_def pending_steps_def)

lemma sample_registered_get: "skill_get (rs_memory sample_registered_state) ''branch-work'' ''1.9.0'' = Some (sample_record ''1.9.0'')"
  by (simp add: sample_registered_fields skill_get_def skill_record_key_def)

lemma trusted_skills_are_decided_witness:
  "\<exists>s r. registry_reachable sample_registry_config s \<and> skill_get (rs_memory s) ''branch-work'' ''1.9.0'' = Some r \<and>
     sr_trust r = Trusted \<and>
     (\<exists>p\<in>set (tl (sr_provenance r)). pn_mechanism p \<in> {''owner-decision'', ''admin-decision'', ''builtin-policy''})"
proof -
  let ?r = "promote sample_clock owner_decision (sample_record ''1.9.0'')"
  let ?m = "map_set (skill_record_key ''branch-work'' ''1.9.0'') ?r (rs_memory sample_registered_state)"
  have "registry_call sample_registry_config sample_clock (Set_trust ''branch-work'' ''1.9.0'' Trusted (Shaped owner_decision))
      (rs_memory sample_registered_state) = Inr (?r, ?m, True)"
    using set_trust_promotes [OF _ _ sample_inputs(3) owner_promotes, of "rs_memory sample_registered_state"]
      sample_registered_get by (simp add: skill_get_def)
  then have s: "registry_reachable sample_registry_config (answer_call sample_clock ?m True sample_registered_state)"
    by (rule reachable_step [OF sample_registered_reachable call])
  have g: "skill_get (rs_memory (answer_call sample_clock ?m True sample_registered_state)) ''branch-work'' ''1.9.0'' = Some ?r"
    "sr_trust ?r = Trusted"
    by (simp_all add: answer_call_def skill_get_def map_get_set promote_def)
  show ?thesis using trusted_skills_are_decided [OF s g] s g by blast
qed

lemma changes_reach_the_store_witness:
  "\<exists>s d. (persist_step ^^ 2) sample_registered_state s \<and> rs_disk s = Some (Shaped d) \<and>
     sd_records d = [sample_record ''1.9.0'']"
  using changes_reach_the_store [OF sample_registered_reachable]
  by (auto simp: sample_registered_fields skill_list_def sort_by_def)

lemma revocation_is_permanent_witness:
  "\<exists>s q. registry_reachable sample_registry_config s \<and>
     skill_get (rs_memory s) ''branch-work'' ''1.9.0'' = Some q \<and> sr_revoked q \<and> \<not> eligible_for_use q sample_lookup"
proof -
  let ?r = "(sample_record ''1.9.0'')\<lparr>sr_trust := Withdrawn, sr_revoked := True, sr_updated_at := sample_clock 0,
    sr_provenance := sr_provenance (sample_record ''1.9.0'') @ [owner_decision]\<rparr>"
  let ?m = "map_set (skill_record_key ''branch-work'' ''1.9.0'') ?r (rs_memory sample_registered_state)"
  let ?s = "answer_call sample_clock ?m True sample_registered_state"
  have "registry_call sample_registry_config sample_clock (Revoke ''branch-work'' ''1.9.0'' (Shaped owner_decision))
      (rs_memory sample_registered_state) = Inr (?r, ?m, True)"
    using sample_registered_get by (simp add: revoke_def require_skill_def safe_parse_def sample_inputs(3) Let_def)
  then have reach: "registry_reachable sample_registry_config ?s"
    by (rule reachable_step [OF sample_registered_reachable call])
  then have ok: "state_ok ?s" "converging ?s" using reachable_ok by blast+
  obtain s where run: "(persist_step ^^ pending_steps ?s) ?s s" using persist_run(1) [OF ok] by blast
  have pos: "0 < pending_steps ?s" by (simp add: answer_call_def pending_steps_def)
  from persist_run(2) [OF ok run] pos have s: "rs_memory s = rs_memory ?s" "pending_steps s = 0" "rs_settled s = Some True" by auto
  have idle: "rs_queue s = []" "rs_writing s = None" using s(2) by (auto simp: pending_steps_def split: if_splits)
  have r: "registry_reachable sample_registry_config s"
    using reach persist_run_steps [OF run, of sample_registry_config] unfolding registry_reachable_def by (rule rtranclp_trans)
  have g: "skill_get (rs_memory s) ''branch-work'' ''1.9.0'' = Some ?r" "sr_revoked ?r"
    by (simp_all add: s(1) answer_call_def skill_get_def map_get_set)
  show ?thesis
    using revocation_is_permanent [OF r idle s(3) g rtranclp.rtrancl_refl, of sample_lookup] r by blast
qed

lemma sample_record_storable: "skill_record_ok (sample_record ''1.9.0'')"
proof -
  have m: "manifest_ok (sample_manifest\<lparr>sm_version := ''1.9.0''\<rparr>)" "sha256_hex_ok sample_skill_digest"
    "skill_name_ok ''branch-work''" "semver_ok ''1.9.0''" "list_all capability_id_ok (sm_capabilities sample_manifest)"
    by code_simp+
  have "length (sm_capabilities sample_manifest) \<le> 100" by (simp add: sample_manifest_def)
  then show ?thesis using m
    by (simp add: skill_record_ok_def)
      (simp add: sample_record_def new_record_def default_trust_def Let_def sample_registration_def len_ok_def
        sample_clock_def provenance_ok_def)
qed

lemma store_round_trip_witness:
  "\<exists>m'. open_registry (Some (Shaped \<lparr>sd_updated_at = ''t'', sd_records = [sample_record ''1.9.0'']\<rparr>)) = Inr m' \<and>
     map_get m' ''branch-work@1.9.0'' = Some (sample_record ''1.9.0'')"
proof -
  have "registry_ok (rs_memory sample_registered_state)"
    using reachable_ok [OF sample_registered_reachable] by (simp add: state_ok_def)
  from store_round_trip [OF this, of "''t''"] show ?thesis
    by (auto simp: sample_registered_fields sample_record_storable skill_list_def sort_by_def)
qed

section \<open>A manifest the store cannot hold\<close>

definition many_capabilities :: "nat \<Rightarrow> string list" where
  "many_capabilities n = map (\<lambda>k. ''a.b.'' @ replicate k CHR ''c'') [1..<Suc n]"

lemma many_capabilities_ok: "distinct (many_capabilities n)" "list_all capability_id_ok (many_capabilities n)"
  "length (many_capabilities n) = n"
proof -
  have "split_on dot (replicate k CHR ''c'') = [replicate k CHR ''c'']" for k
    by (induction k) (auto simp: dot_def)
  then have "split_on dot (''a.b.'' @ replicate k CHR ''c'') = [''a'', ''b'', replicate k CHR ''c'']" for k
    by (simp add: dot_def)
  moreover have "lower_ident lower_or_digit (replicate k CHR ''c'')" if "0 < k" for k
    using that by (cases k) (auto simp: lower_ident_def list_all_iff lower_or_digit_def is_lower_def code_def)
  moreover have "lower_ident lower_or_digit ''a''" "lower_ident lower_or_digit ''b''" by code_simp+
  ultimately show "list_all capability_id_ok (many_capabilities n)"
    by (auto simp: many_capabilities_def list_all_iff capability_id_ok_def Let_def simp del: append.simps)
  show "distinct (many_capabilities n)" "length (many_capabilities n) = n"
    by (auto simp: many_capabilities_def distinct_map inj_on_def)
qed

text \<open>A manifest may name any number of capabilities but a stored record at most 100: a skill with more
  is registered, and the store file written afterwards is refused by the next start.\<close>

lemma oversized_skill_corrupts_store:
  fixes wide cfg
  defines "wide \<equiv> (sample_registration ''1.9.0'')\<lparr>ri_manifest := sample_manifest\<lparr>sm_capabilities := many_capabilities 101,
      sm_required_evidence := None, sm_procedure := [sample_step\<lparr>st_capability := None\<rparr>], sm_verification := None\<rparr>\<rparr>"
    and "cfg \<equiv> \<lparr>rc_lookup = (\<lambda>i. Some sample_read_capability), rc_builtin_policy = None\<rparr>"
  shows "\<exists>r m. registry_call cfg now (Register (Shaped wide)) [] = Inr (r, m, True) \<and>
    open_registry (Some (Shaped \<lparr>sd_updated_at = ''t'', sd_records = skill_list m\<rparr>)) = Inl (Throws SKILL_REGISTRY_CORRUPT)"
proof -
  let ?m = "ri_manifest wide" and ?r = "new_record cfg now wide"
  have caps: "sm_capabilities ?m = many_capabilities 101" by (simp add: wide_def)
  have "norm_registration wide = wide"
    using sample_inputs(1) by (auto simp: wide_def parse_registration_def parse_with_Some norm_registration_def
        norm_manifest_def sample_registration_def sample_manifest_def norm_step_def sample_step_def)
  moreover have "registration_ok wide"
  proof -
    have "manifest_ok (sample_manifest\<lparr>sm_required_evidence := None,
        sm_procedure := [sample_step\<lparr>st_capability := None\<rparr>], sm_verification := None\<rparr>)" by code_simp
    moreover have "many_capabilities 101 \<noteq> []" using many_capabilities_ok(3) [of 101] by auto
    moreover have "sm_rollback sample_manifest = None" by (simp add: sample_manifest_def)
    ultimately have "manifest_ok (ri_manifest wide)"
      using many_capabilities_ok [of 101] by (simp add: wide_def manifest_ok_def)
    then show ?thesis
      using sample_inputs(1) by (auto simp: wide_def parse_registration_def parse_with_Some registration_ok_def)
  qed
  ultimately have p: "parse_registration wide = Some wide" by (simp add: parse_registration_def parse_with_def)
  have i: "manifest_issues ?m (rc_lookup cfg) = []"
    by (simp add: manifest_issues_def capability_issues_def cfg_def sample_read_capability_def Let_def not_less highest_risk_le)
  have reg: "registry_call cfg now (Register (Shaped wide)) [] =
      Inr (?r, [(skill_record_key (sm_name ?m) (sm_version ?m), ?r)], True)"
    using register_new [OF p i] by simp
  have "\<not> skill_record_ok ?r"
    using caps many_capabilities_ok(3) [of 101] by (simp add: skill_record_ok_def new_record_def Let_def)
  then have "open_registry (Some (Shaped \<lparr>sd_updated_at = ''t'', sd_records =
      skill_list [(skill_record_key (sm_name ?m) (sm_version ?m), ?r)]\<rparr>)) = Inl (Throws SKILL_REGISTRY_CORRUPT)"
    using new_record_stable [of wide cfg now] \<open>norm_registration wide = wide\<close>
    by (simp add: open_registry_def load_skill_store_def safe_parse_def parse_store_data_def parse_with_def
        skill_list_def sort_by_def)
  then show ?thesis using reg by blast
qed

end
