(* ===== verification/Skill_Frontmatter.thy ===== *)
theory Skill_Frontmatter
  imports Skill_Contracts
begin

text \<open>
  The YAML frontmatter of SKILL.md (\<open>src/brain-server/src/skills/importer/frontmatter.ts\<close>): the
  delimited block, the structural bounds on the parsed document and the fields taken from it. The
  YAML parser (\<open>js-yaml\<close> with its JSON schema) is a parameter: a function from the block to the
  document, or \<open>None\<close> when it throws. A document is a finite tree, in which a shared node is
  written out wherever it is used, as the walk visits it; a cyclic document, which the walk
  rejects, is not represented.
\<close>

section \<open>The block\<close>

datatype frontmatter_error =
    Frontmatter_missing | Second_delimiter | Yaml_malformed | Not_a_mapping
  | Too_deep | Too_many_nodes | Number_not_finite | Not_json | Polluting_key string
  | Name_missing | Name_too_long | Name_invalid
  | Description_missing | Description_empty | Description_too_long | Description_control | Description_bidi

definition check :: "bool \<Rightarrow> 'e \<Rightarrow> 'e + unit" where
  "check ok e = (if ok then Inr () else Inl e)"

lemma check_Inr [simp]: "check b e = Inr u \<longleftrightarrow> b"
  by (simp add: check_def)

lemma check_Inl [simp]: "check b e = Inl d \<longleftrightarrow> \<not> b \<and> d = e"
  by (auto simp: check_def)

definition newline :: "char \<Rightarrow> bool" where
  "newline c \<longleftrightarrow> c = CHR 0x0A"

text \<open>\<open>\r?\n\<close> at the front of a text: what follows it.\<close>

fun after_newline :: "string \<Rightarrow> string option" where
  "after_newline [] = None"
| "after_newline (c # s) = (if newline c then Some s
     else if c = CHR 0x0D then (case s of d # r \<Rightarrow> if newline d then Some r else None | [] \<Rightarrow> None)
     else None)"

text \<open>\<open>\r?\n---\<close> followed by a line end or the end of the text.\<close>

definition closes_here :: "string \<Rightarrow> bool" where
  "closes_here s = (case after_newline s of None \<Rightarrow> False
     | Some r \<Rightarrow> take 3 r = ''---'' \<and> (drop 3 r = [] \<or> after_newline (drop 3 r) \<noteq> None))"

fun block_until_close :: "string \<Rightarrow> string option" where
  "block_until_close s = (if closes_here s then Some []
     else (case s of [] \<Rightarrow> None | c # r \<Rightarrow> map_option ((#) c) (block_until_close r)))"

declare block_until_close.simps [simp del]

definition frontmatter_block :: "string \<Rightarrow> string option" where
  "frontmatter_block s = (if take 3 s = ''---''
     then Option.bind (after_newline (drop 3 s)) block_until_close else None)"

section \<open>Bounds on the document\<close>

definition frontmatter_max_depth :: nat where "frontmatter_max_depth = 32"
definition frontmatter_max_nodes :: nat where "frontmatter_max_nodes = 100000"

fun assert_bounded :: "jsval \<Rightarrow> nat \<Rightarrow> nat \<Rightarrow> frontmatter_error + nat"
  and assert_bounded_items :: "jsval list \<Rightarrow> nat \<Rightarrow> nat \<Rightarrow> frontmatter_error + nat"
  and assert_bounded_members :: "json_object \<Rightarrow> nat \<Rightarrow> nat \<Rightarrow> frontmatter_error + nat" where
  "assert_bounded v depth nodes =
     ebind (check (depth \<le> frontmatter_max_depth) Too_deep) (\<lambda>_.
     ebind (check (Suc nodes \<le> frontmatter_max_nodes) Too_many_nodes) (\<lambda>_.
     case v of
       JNull \<Rightarrow> Inr (Suc nodes)
     | JStr s \<Rightarrow> Inr (Suc nodes)
     | JBool b \<Rightarrow> Inr (Suc nodes)
     | JNum x \<Rightarrow> ebind (check (js_is_finite x) Number_not_finite) (\<lambda>_. Inr (Suc nodes))
     | JOther \<Rightarrow> Inl Not_json
     | JArr xs \<Rightarrow> assert_bounded_items xs (Suc depth) (Suc nodes)
     | JObj ms \<Rightarrow> assert_bounded_members ms (Suc depth) (Suc nodes)))"
| "assert_bounded_items [] depth nodes = Inr nodes"
| "assert_bounded_items (x # xs) depth nodes =
     ebind (assert_bounded x depth nodes) (\<lambda>n. assert_bounded_items xs depth n)"
| "assert_bounded_members [] depth nodes = Inr nodes"
| "assert_bounded_members ((k, x) # ms) depth nodes =
     ebind (check (k \<notin> {''__proto__'', ''constructor'', ''prototype''}) (Polluting_key k)) (\<lambda>_.
     ebind (assert_bounded x depth nodes) (\<lambda>n. assert_bounded_members ms depth n))"

section \<open>The fields\<close>

record skill_frontmatter =
  fm_name :: string
  fm_description :: string
  fm_vendor :: json_object
  fm_unknown :: "string list"

definition frontmatter_vendor_keys :: "string list" where
  "frontmatter_vendor_keys = [''license'', ''compatibility'', ''metadata'', ''allowed-tools'']"

definition description_control :: "char \<Rightarrow> bool" where
  "description_control c \<longleftrightarrow> code c \<le> 31 \<or> (127 \<le> code c \<and> code c \<le> 159)"

definition bidi_override :: "char \<Rightarrow> bool" where
  "bidi_override c \<longleftrightarrow> (8234 \<le> code c \<and> code c \<le> 8238) \<or> (8294 \<le> code c \<and> code c \<le> 8297)"

definition check_name :: "jsval option \<Rightarrow> frontmatter_error + string" where
  "check_name v = (case v of
     Some (JStr s) \<Rightarrow> ebind (check (length s \<le> 64) Name_too_long) (\<lambda>_.
       ebind (check (skill_name_ok s) Name_invalid) (\<lambda>_. Inr s))
   | _ \<Rightarrow> Inl Name_missing)"

definition check_description :: "jsval option \<Rightarrow> frontmatter_error + string" where
  "check_description v = (case v of
     Some (JStr s) \<Rightarrow> (let d = js_trim s in
       ebind (check (d \<noteq> []) Description_empty) (\<lambda>_.
       ebind (check (length d \<le> 2000) Description_too_long) (\<lambda>_.
       ebind (check (\<not> list_ex description_control d) Description_control) (\<lambda>_.
       ebind (check (\<not> list_ex bidi_override d) Description_bidi) (\<lambda>_. Inr d)))))
   | _ \<Rightarrow> Inl Description_missing)"

definition vendor_metadata :: "json_object \<Rightarrow> json_object" where
  "vendor_metadata doc = List.map_filter (\<lambda>k. map_option (Pair k) (map_of doc k)) frontmatter_vendor_keys"

definition unknown_keys :: "json_object \<Rightarrow> string list" where
  "unknown_keys doc = sort (filter (\<lambda>k. k \<noteq> ''name'' \<and> k \<noteq> ''description'' \<and> k \<notin> set frontmatter_vendor_keys) (map fst doc))"

definition parse_skill_frontmatter :: "(string \<Rightarrow> jsval option) \<Rightarrow> string \<Rightarrow> frontmatter_error + skill_frontmatter" where
  "parse_skill_frontmatter yaml s = (case frontmatter_block s of
     None \<Rightarrow> Inl Frontmatter_missing
   | Some block \<Rightarrow>
       ebind (check (\<not> list_ex (\<lambda>l. js_trim l = ''---'') (split_on newline block)) Second_delimiter) (\<lambda>_.
       case yaml block of
         None \<Rightarrow> Inl Yaml_malformed
       | Some (JObj doc) \<Rightarrow>
           ebind (assert_bounded (JObj doc) 0 0) (\<lambda>_.
           ebind (check_name (map_of doc ''name'')) (\<lambda>name.
           ebind (check_description (map_of doc ''description'')) (\<lambda>description.
           Inr \<lparr>fm_name = name, fm_description = description, fm_vendor = vendor_metadata doc,
             fm_unknown = unknown_keys doc\<rparr>)))
       | Some _ \<Rightarrow> Inl Not_a_mapping))"

section \<open>What an accepted document is\<close>

fun jnodes :: "jsval \<Rightarrow> nat" and jnodes_items :: "jsval list \<Rightarrow> nat" and jnodes_members :: "json_object \<Rightarrow> nat" where
  "jnodes (JArr xs) = Suc (jnodes_items xs)"
| "jnodes (JObj ms) = Suc (jnodes_members ms)"
| "jnodes _ = 1"
| "jnodes_items [] = 0"
| "jnodes_items (x # xs) = jnodes x + jnodes_items xs"
| "jnodes_members [] = 0"
| "jnodes_members ((k, x) # ms) = jnodes x + jnodes_members ms"

fun jdepth :: "jsval \<Rightarrow> nat" and jdepth_items :: "jsval list \<Rightarrow> nat" and jdepth_members :: "json_object \<Rightarrow> nat" where
  "jdepth (JArr xs) = jdepth_items xs"
| "jdepth (JObj ms) = jdepth_members ms"
| "jdepth _ = 0"
| "jdepth_items [] = 0"
| "jdepth_items (x # xs) = max (Suc (jdepth x)) (jdepth_items xs)"
| "jdepth_members [] = 0"
| "jdepth_members ((k, x) # ms) = max (Suc (jdepth x)) (jdepth_members ms)"

lemma assert_bounded_Inr:
  "assert_bounded v d n = Inr n' \<Longrightarrow> is_json_safe v \<and> n' = n + jnodes v \<and> n' \<le> frontmatter_max_nodes \<and>
     d + jdepth v \<le> frontmatter_max_depth"
  "assert_bounded_items xs d n = Inr n' \<Longrightarrow> all_json_safe xs \<and> n' = n + jnodes_items xs \<and>
     (n \<le> frontmatter_max_nodes \<longrightarrow> n' \<le> frontmatter_max_nodes) \<and> (xs \<noteq> [] \<longrightarrow> d + jdepth_items xs \<le> Suc frontmatter_max_depth)"
  "assert_bounded_members ms d n = Inr n' \<Longrightarrow> members_json_safe ms \<and> n' = n + jnodes_members ms \<and>
     (n \<le> frontmatter_max_nodes \<longrightarrow> n' \<le> frontmatter_max_nodes) \<and> (ms \<noteq> [] \<longrightarrow> d + jdepth_members ms \<le> Suc frontmatter_max_depth)"
proof (induction v d n and xs d n and ms d n arbitrary: n' and n' and n'
    rule: assert_bounded_assert_bounded_items_assert_bounded_members.induct)
  case (1 v depth nodes)
  then show ?case
    by (cases v) (force simp: ebind_Inr_iff simp del: assert_bounded_items.simps assert_bounded_members.simps)+
qed (fastforce simp: ebind_Inr_iff simp del: assert_bounded.simps)+

lemma check_name_Inr: "check_name v = Inr s \<longleftrightarrow> v = Some (JStr s) \<and> length s \<le> 64 \<and> skill_name_ok s"
  by (auto simp: check_name_def ebind_Inr_iff split: option.splits jsval.splits)

lemma check_description_Inr:
  "check_description v = Inr d \<longleftrightarrow> (\<exists>s. v = Some (JStr s) \<and> d = js_trim s \<and> len_ok 2000 d \<and>
     list_all (\<lambda>c. \<not> description_control c \<and> \<not> bidi_override c) d)"
  by (auto simp: check_description_def ebind_Inr_iff Let_def len_ok_def list_ex_iff list_all_iff Suc_le_eq
      split: option.splits jsval.splits)

lemma vendor_metadata_in: "(k, v) \<in> set (vendor_metadata doc) \<Longrightarrow> k \<in> set frontmatter_vendor_keys \<and> map_of doc k = Some v"
  by (auto simp: vendor_metadata_def List.map_filter_def)

text \<open>The frontmatter of a skill is bounded data. Whatever the YAML parser produces, a frontmatter
  is accepted only from a mapping that is JSON-safe, at most 32 levels deep and of at most 100000
  nodes; its name is the mapping's string under \<open>name\<close>, a skill name of at most 64 characters; its
  description is the trimmed string under \<open>description\<close>, of 1 to 2000 characters, none of them a
  control or bidi-override character; its vendor data come from the four display-only keys, and every
  other key is only listed, in order.\<close>

lemma frontmatter_is_bounded_data:
  assumes "parse_skill_frontmatter yaml s = Inr f"
  shows "\<exists>block doc t. frontmatter_block s = Some block \<and> yaml block = Some (JObj doc) \<and>
    is_json_safe (JObj doc) \<and> jnodes (JObj doc) \<le> 100000 \<and> jdepth (JObj doc) \<le> 32 \<and>
    map_of doc ''name'' = Some (JStr (fm_name f)) \<and> skill_name_ok (fm_name f) \<and> length (fm_name f) \<le> 64 \<and>
    map_of doc ''description'' = Some (JStr t) \<and> fm_description f = js_trim t \<and> len_ok 2000 (fm_description f) \<and>
    list_all (\<lambda>c. \<not> description_control c \<and> \<not> bidi_override c) (fm_description f) \<and>
    (\<forall>k v. (k, v) \<in> set (fm_vendor f) \<longrightarrow>
       k \<in> {''license'', ''compatibility'', ''metadata'', ''allowed-tools''} \<and> map_of doc k = Some v) \<and>
    sorted (fm_unknown f) \<and>
    set (fm_unknown f) = fst ` set doc - {''name'', ''description'', ''license'', ''compatibility'', ''metadata'', ''allowed-tools''}"
proof -
  obtain block doc n name description where d: "frontmatter_block s = Some block" "yaml block = Some (JObj doc)"
    "assert_bounded (JObj doc) 0 0 = Inr n" "check_name (map_of doc ''name'') = Inr name"
    "check_description (map_of doc ''description'') = Inr description"
    "f = \<lparr>fm_name = name, fm_description = description, fm_vendor = vendor_metadata doc, fm_unknown = unknown_keys doc\<rparr>"
    using assms by (auto simp: parse_skill_frontmatter_def ebind_Inr_iff simp del: assert_bounded.simps
        split: option.splits jsval.splits)
  have b: "is_json_safe (JObj doc)" "jnodes (JObj doc) \<le> 100000" "jdepth (JObj doc) \<le> 32"
    using assert_bounded_Inr(1) [OF d(3)] by (auto simp: frontmatter_max_nodes_def frontmatter_max_depth_def)
  have u: "sorted (fm_unknown f)" "set (fm_unknown f) =
      fst ` set doc - {''name'', ''description'', ''license'', ''compatibility'', ''metadata'', ''allowed-tools''}"
    by (auto simp: d(6) unknown_keys_def frontmatter_vendor_keys_def)
  show ?thesis
    using d(1,2) b u d(4,5) vendor_metadata_in [of _ _ doc]
    by (auto simp: d(6) check_name_Inr check_description_Inr frontmatter_vendor_keys_def)
qed

definition sample_yaml :: "string \<Rightarrow> jsval option" where
  "sample_yaml b = (if b = ''name: branch-work'' then Some (JObj [(''name'', JStr ''branch-work''),
     (''description'', JStr '' Branch work ''), (''zeta'', JBool True), (''license'', JStr ''MIT'')]) else None)"

definition sample_skill_md :: string where
  "sample_skill_md = ''---'' @ [CHR 0x0A] @ ''name: branch-work'' @ [CHR 0x0D, CHR 0x0A] @ ''---'' @ [CHR 0x0A] @ ''body''"

lemma sample_frontmatter: "parse_skill_frontmatter sample_yaml sample_skill_md =
    Inr \<lparr>fm_name = ''branch-work'', fm_description = ''Branch work'', fm_vendor = [(''license'', JStr ''MIT'')],
      fm_unknown = [''zeta'']\<rparr>"
proof -
  have b: "frontmatter_block sample_skill_md = Some ''name: branch-work''"
    "list_ex (\<lambda>l. js_trim l = ''---'') (split_on newline ''name: branch-work'') = False" by code_simp+
  have n: "check_name (Some (JStr ''branch-work'')) = Inr ''branch-work''"
    "js_trim '' Branch work '' = ''Branch work''" by code_simp+
  have d: "check_description (Some (JStr '' Branch work '')) = Inr ''Branch work''"
  proof -
    have "list_all (\<lambda>c. \<not> description_control c \<and> \<not> bidi_override c) ''Branch work''"
      by (simp add: description_control_def bidi_override_def code_def)
    then show ?thesis unfolding check_description_Inr using n(2) by (auto simp: len_ok_def)
  qed
  let ?doc = "[(''name'', JStr ''branch-work''), (''description'', JStr '' Branch work ''), (''zeta'', JBool True),
    (''license'', JStr ''MIT'')]"
  have leaf: "assert_bounded (JStr s) (Suc 0) n = Inr (Suc n)" "assert_bounded (JBool c) (Suc 0) n = Inr (Suc n)" if "n < 10" for s c n
    using that by (simp_all add: check_def frontmatter_max_nodes_def frontmatter_max_depth_def)
  have w: "assert_bounded (JObj ?doc) 0 0 = Inr 5"
    by (subst assert_bounded.simps) (simp add: leaf check_def frontmatter_max_nodes_def frontmatter_max_depth_def
        del: assert_bounded.simps)
  have v: "vendor_metadata ?doc = [(''license'', JStr ''MIT'')]" "unknown_keys ?doc = [''zeta'']" by code_simp+
  show ?thesis
    by (simp add: parse_skill_frontmatter_def b sample_yaml_def n d w v check_def del: assert_bounded.simps split_on.simps)
qed

lemma frontmatter_is_bounded_data_witness:
  "\<exists>block doc. frontmatter_block sample_skill_md = Some block \<and> sample_yaml block = Some (JObj doc) \<and>
     jdepth (JObj doc) \<le> 32 \<and> jnodes (JObj doc) \<le> 100000"
proof -
  obtain block doc where "frontmatter_block sample_skill_md = Some block" "sample_yaml block = Some (JObj doc)"
    "jdepth (JObj doc) \<le> 32" "jnodes (JObj doc) \<le> 100000"
    using frontmatter_is_bounded_data [OF sample_frontmatter] by (elim exE conjE)
  then show ?thesis by blast
qed

end
