(* ===== verification/Skill_Paths.thy ===== *)
theory Skill_Paths
  imports Evidence "HOL-Library.Sublist"
begin

text \<open>
  Paths and digests of skill packages (\<open>src/brain-server/src/skills/importer/path-policy.ts\<close> and
  \<open>package-digest.ts\<close>): limits, the normalization of relative paths, collisions on a
  case-insensitive file system, containment, and the package digest over the sorted listing of
  files. Paths are those of a system whose separator is the slash; an absolute path is its list of
  segments. SHA-256 is a parameter, a function on byte strings; a text is hashed through its UTF-8
  bytes. The lemmas show that the text under the package digest determines the listing.
\<close>

section \<open>Limits\<close>

definition ignored_directory_names :: "string list" where
  "ignored_directory_names = [''.git'', ''node_modules'', ''target'', ''dist'', ''cache'', ''__pycache__'']"

record package_limits =
  max_files :: nat
  skill_md_max_bytes :: nat
  manifest_max_bytes :: nat
  max_single_file_bytes :: nat
  max_total_bytes :: nat
  max_depth :: nat
  max_relative_path_length :: nat

definition default_package_limits :: package_limits where
  "default_package_limits = \<lparr>max_files = 256, skill_md_max_bytes = 262144, manifest_max_bytes = 131072,
     max_single_file_bytes = 4194304, max_total_bytes = 16777216, max_depth = 8, max_relative_path_length = 180\<rparr>"

section \<open>Relative paths\<close>

definition slash_char :: "char \<Rightarrow> bool" where
  "slash_char c \<longleftrightarrow> c = CHR ''/''"

definition path_control :: "char \<Rightarrow> bool" where
  "path_control c \<longleftrightarrow> code c \<le> 31 \<or> (127 \<le> code c \<and> code c \<le> 159)"

definition drive_letter :: "string \<Rightarrow> bool" where
  "drive_letter p = (case p of a # b # _ \<Rightarrow> (is_upper a \<or> is_lower a) \<and> b = CHR '':'' | _ \<Rightarrow> False)"

definition normalize_relative_path :: "string \<Rightarrow> string option" where
  "normalize_relative_path p =
     (if p = [] then None
      else if CHR 0x00 \<in> set p then None
      else if list_ex path_control p then None
      else if CHR 0x5C \<in> set p then None
      else if hd p = CHR ''/'' then None
      else if drive_letter p then None
      else let segments = split_on slash_char p in
        if list_ex (\<lambda>s. s = [] \<or> s = ''.'' \<or> s = ''..'') segments then None
        else let n = js_join ''/'' segments in
          if max_relative_path_length default_package_limits < length n then None else Some n)"

text \<open>\<open>toLowerCase\<close> on code units below 256.\<close>

definition js_lower :: "char \<Rightarrow> char" where
  "js_lower c = (if is_upper c \<or> (192 \<le> code c \<and> code c \<le> 222 \<and> code c \<noteq> 215) then char_of (code c + 32) else c)"

definition case_folded_path_key :: "string \<Rightarrow> string" where
  "case_folded_path_key p = map js_lower p"

fun path_groups :: "string list \<Rightarrow> (string, string list) jsmap \<Rightarrow> (string, string list) jsmap" where
  "path_groups [] g = g"
| "path_groups (p # ps) g = (let k = case_folded_path_key p in path_groups ps
     (map_set k (case map_get g k of None \<Rightarrow> [p] | Some qs \<Rightarrow> qs @ [p]) g))"

definition find_case_folded_path_collisions :: "string list \<Rightarrow> string list list" where
  "find_case_folded_path_collisions ps = filter (\<lambda>g. 1 < length g) (map_values (path_groups ps []))"

text \<open>\<open>path.resolve\<close> of an absolute path, and containment of resolved paths: the root of the file
  system contains nothing but itself, since its text already ends with the separator.\<close>

definition resolve_segments :: "string list \<Rightarrow> string list" where
  "resolve_segments ss = fold (\<lambda>s r. if s = [] \<or> s = ''.'' then r else if s = ''..'' then butlast r else r @ [s]) ss []"

definition is_path_inside_root :: "string list \<Rightarrow> string list \<Rightarrow> bool" where
  "is_path_inside_root root candidate = (let r = resolve_segments root; t = resolve_segments candidate in
     t = r \<or> (r \<noteq> [] \<and> prefix r t))"

section \<open>The package digest\<close>

datatype file_class = Class_skill_md | Class_omni_manifest | Class_script | Class_binary | Class_text

record skill_file =
  fe_path :: string
  fe_sha256 :: string
  fe_size :: nat
  fe_class :: file_class

text \<open>\<open>toString(16)\<close>.\<close>

fun nat_hex :: "nat \<Rightarrow> string" where
  "nat_hex n = (if n < 16 then [hexd n] else nat_hex (n div 16) @ [hexd (n mod 16)])"

declare nat_hex.simps [simp del]

definition path_le :: "skill_file \<Rightarrow> skill_file \<Rightarrow> bool" where
  "path_le a b \<longleftrightarrow> \<not> fe_path b < fe_path a"

definition listing_line :: "skill_file \<Rightarrow> string" where
  "listing_line e = nat_hex (length (utf8 (fe_path e))) @ '':'' @ fe_path e @ '':'' @
     nat_hex (fe_size e) @ '':'' @ fe_sha256 e"

definition package_listing :: "skill_file list \<Rightarrow> string" where
  "package_listing fs = js_join [CHR 0x0A] (map listing_line (sort_by path_le fs))"

definition compute_package_digest :: "(string \<Rightarrow> string) \<Rightarrow> skill_file list \<Rightarrow> string" where
  "compute_package_digest sha fs = sha256_hex sha (package_listing fs)"

definition compute_manifest_digest :: "(string \<Rightarrow> string) \<Rightarrow> string \<Rightarrow> string" where
  "compute_manifest_digest sha bytes = sha bytes"

section \<open>Normalized paths stay inside\<close>

lemma js_join_split: "js_join ''/'' (split_on slash_char p) = p"
proof -
  have "js_join ''/'' (split_on slash_char p) = p \<and> split_on slash_char p \<noteq> []"
  proof (induction p)
    case (Cons c p)
    then show ?case
      by (cases "split_on slash_char p"; cases "slash_char c") (auto simp: slash_char_def [of c])
  qed simp
  then show ?thesis by blast
qed

lemma normalize_Some:
  "normalize_relative_path p = Some q \<longleftrightarrow> q = p \<and> p \<noteq> [] \<and> \<not> list_ex path_control p \<and>
     CHR 0x5C \<notin> set p \<and> hd p \<noteq> CHR ''/'' \<and> \<not> drive_letter p \<and>
     list_all (\<lambda>s. s \<noteq> [] \<and> s \<noteq> ''.'' \<and> s \<noteq> ''..'') (split_on slash_char p) \<and> length p \<le> 180"
proof -
  have "CHR 0x00 \<in> set p \<Longrightarrow> list_ex path_control p"
    by (auto simp: list_ex_iff path_control_def code_def intro!: bexI [of _ "CHR 0x00"])
  then show ?thesis
    by (auto simp: normalize_relative_path_def Let_def js_join_split default_package_limits_def
        list_ex_iff list_all_iff)
qed

lemma resolve_segments_append:
  assumes "list_all (\<lambda>s. s \<noteq> [] \<and> s \<noteq> ''.'' \<and> s \<noteq> ''..'') ss"
  shows "resolve_segments (root @ ss) = resolve_segments root @ ss"
proof -
  have "fold (\<lambda>s r. if s = [] \<or> s = ''.'' then r else if s = ''..'' then butlast r else r @ [s]) ss r = r @ ss" for r
    using assms by (induction ss arbitrary: r) auto
  then show ?thesis by (simp add: resolve_segments_def)
qed

text \<open>A normalized path names a proper descendant of every directory it is taken under.\<close>

lemma normalized_path_inside:
  assumes "normalize_relative_path p = Some q" "resolve_segments root \<noteq> []"
  shows "is_path_inside_root root (root @ split_on slash_char q)"
    and "resolve_segments (root @ split_on slash_char q) = resolve_segments root @ split_on slash_char q"
  using assms resolve_segments_append [of "split_on slash_char q" root]
  by (auto simp: normalize_Some is_path_inside_root_def)

section \<open>Collisions\<close>

lemma path_groups_get:
  "map_get (path_groups ps g) k =
     (let qs = filter (\<lambda>p. case_folded_path_key p = k) ps in
      case map_get g k of None \<Rightarrow> if qs = [] then None else Some qs | Some rs \<Rightarrow> Some (rs @ qs))"
  by (induction ps arbitrary: g) (auto simp: Let_def map_get_set split: option.splits)

lemma path_groups_distinct: "keys_distinct g \<Longrightarrow> keys_distinct (path_groups ps g)"
  by (induction ps arbitrary: g) (auto simp: Let_def)

lemma no_collisions:
  "find_case_folded_path_collisions ps = [] \<longleftrightarrow> distinct (map case_folded_path_key ps)"
proof -
  have one: "distinct (map f ps) \<longleftrightarrow> (\<forall>k. length (filter (\<lambda>p. f p = k) ps) \<le> 1)" for f :: "string \<Rightarrow> string"
  proof (induction ps)
    case (Cons p ps)
    have "f p \<in> f ` set ps \<longleftrightarrow> filter (\<lambda>q. f q = f p) ps \<noteq> []" unfolding filter_empty_conv image_iff by metis
    then show ?case using Cons by (auto simp: le_Suc_eq split: if_splits)
  qed simp
  have "find_case_folded_path_collisions ps = [] \<longleftrightarrow>
      (\<forall>k g. map_get (path_groups ps []) k = Some g \<longrightarrow> length g \<le> 1)"
    using map_values_get [OF path_groups_distinct [OF keys_distinct_Nil, of ps]]
    unfolding find_case_folded_path_collisions_def filter_empty_conv not_less by blast
  also have "\<dots> \<longleftrightarrow> (\<forall>k. length (filter (\<lambda>p. case_folded_path_key p = k) ps) \<le> 1)"
    by (auto simp: path_groups_get Let_def split: if_splits) (metis le0 list.size(3))
  finally show ?thesis using one by simp
qed

section \<open>The listing text determines the listing\<close>

text \<open>What a listing line shows of a file.\<close>

definition listed :: "skill_file \<Rightarrow> string \<times> nat \<times> string" where
  "listed e = (fe_path e, fe_size e, fe_sha256 e)"

definition listable :: "skill_file \<Rightarrow> bool" where
  "listable e \<longleftrightarrow> normalize_relative_path (fe_path e) = Some (fe_path e) \<and> sha256_hex_ok (fe_sha256 e)"

lemma nat_hex_chars: "list_all hex_char (nat_hex n) \<and> nat_hex n \<noteq> []"
proof (induction n rule: nat_hex.induct)
  case (1 n)
  have "hex_char (hexd k)" if "k < 16" for k
    using that by (auto simp: hexd_def hex_char_def is_digit_def code_def)
  then show ?case using 1 by (subst (1 2) nat_hex.simps) simp
qed

fun hex_value :: "string \<Rightarrow> nat" where
  "hex_value [] = 0"
| "hex_value (c # cs) = unhex c + 16 * hex_value cs"

lemma hex_value_nat_hex: "hex_value (rev (nat_hex n)) = n"
proof (induction n rule: nat_hex.induct)
  case (1 n)
  then show ?case by (subst nat_hex.simps) (simp add: unhex_hexd)
qed

lemma nat_hex_inj: "nat_hex m = nat_hex n \<Longrightarrow> m = n"
  by (metis hex_value_nat_hex)

lemma split_first: "x @ c # y = x' @ c # y' \<Longrightarrow> c \<notin> set x \<Longrightarrow> c \<notin> set x' \<Longrightarrow> x = x' \<and> y = y'"
proof (induction x arbitrary: x')
  case Nil
  then show ?case by (cases x') auto
next
  case (Cons a x)
  then show ?case by (cases x') auto
qed

lemma hex_not_special: "list_all hex_char s \<Longrightarrow> c \<in> {CHR '':'', CHR 0x0A} \<Longrightarrow> c \<notin> set s"
  by (fastforce simp: list_all_iff hex_char_def is_digit_def code_def)

lemma listing_line_inj:
  assumes "listing_line a = listing_line b" "sha256_hex_ok (fe_sha256 a)" "sha256_hex_ok (fe_sha256 b)"
  shows "listed a = listed b"
proof -
  let ?h = "\<lambda>e. nat_hex (length (utf8 (fe_path e)))" and ?z = "\<lambda>e. nat_hex (fe_size e)"
  have colon: "CHR '':'' \<notin> set (nat_hex n)" for n using hex_not_special nat_hex_chars by blast
  have len: "length (fe_sha256 a) = length (fe_sha256 b)" using assms(2,3) by (simp add: sha256_hex_ok_def)
  have "(?h a @ '':'' @ fe_path a @ '':'' @ ?z a @ '':'') @ fe_sha256 a =
        (?h b @ '':'' @ fe_path b @ '':'' @ ?z b @ '':'') @ fe_sha256 b"
    using assms(1) by (simp add: listing_line_def)
  then have eq: "?h a @ '':'' @ fe_path a @ '':'' @ ?z a @ '':'' = ?h b @ '':'' @ fe_path b @ '':'' @ ?z b @ '':'' \<and>
      fe_sha256 a = fe_sha256 b"
    by (subst (asm) append_eq_append_conv) (use len in blast)+
  then have sha: "fe_sha256 a = fe_sha256 b" and front: "?h a @ CHR '':'' # (fe_path a @ '':'' @ ?z a @ '':'') =
      ?h b @ CHR '':'' # (fe_path b @ '':'' @ ?z b @ '':'')" by simp_all
  have "fe_path a @ '':'' @ ?z a @ '':'' = fe_path b @ '':'' @ ?z b @ '':''"
    using split_first [OF front colon colon] by (rule conjunct2)
  then have "rev (fe_path a @ '':'' @ ?z a @ '':'') = rev (fe_path b @ '':'' @ ?z b @ '':'')" by (rule arg_cong)
  then have "rev (?z a) @ CHR '':'' # rev (fe_path a) = rev (?z b) @ CHR '':'' # rev (fe_path b)" by simp
  then have "rev (?z a) = rev (?z b) \<and> rev (fe_path a) = rev (fe_path b)"
    using colon by (intro split_first) simp_all
  then show ?thesis using sha nat_hex_inj by (auto simp: listed_def)
qed

lemma split_join:
  "xs \<noteq> [] \<Longrightarrow> \<forall>x\<in>set xs. c \<notin> set x \<Longrightarrow> split_on (\<lambda>d. d = c) (js_join [c] xs) = xs"
proof (induction xs)
  case (Cons x xs)
  have one: "c \<notin> set y \<Longrightarrow> split_on (\<lambda>d. d = c) (y @ c # r) = y # split_on (\<lambda>d. d = c) r"
    "c \<notin> set y \<Longrightarrow> split_on (\<lambda>d. d = c) y = [y]" for y r
    by (induction y) auto
  show ?case
  proof (cases xs)
    case (Cons z zs)
    have "js_join [c] (x # xs) = x @ c # js_join [c] xs" using Cons by simp
    then show ?thesis using Cons.IH Cons.prems one Cons by simp
  qed (use Cons.prems one in simp)
qed simp

lemma listing_line_plain:
  assumes "listable e" shows "CHR 0x0A \<notin> set (listing_line e) \<and> listing_line e \<noteq> []"
proof -
  have "CHR 0x0A \<notin> set (fe_path e)"
    using assms by (auto simp: listable_def normalize_Some list_ex_iff path_control_def code_def)
  then show ?thesis
    using assms nat_hex_chars hex_not_special [of _ "CHR 0x0A"]
    by (auto simp: listing_line_def listable_def sha256_hex_ok_def)
qed

definition sample_file :: skill_file where
  "sample_file = \<lparr>fe_path = ''SKILL.md'', fe_sha256 = replicate 64 CHR ''a'', fe_size = 40, fe_class = Class_skill_md\<rparr>"

definition sample_other_file :: skill_file where
  "sample_other_file = \<lparr>fe_path = ''scripts/a: b.py'', fe_sha256 = replicate 64 CHR ''b'', fe_size = 300, fe_class = Class_script\<rparr>"

lemma sample_files_listable: "listable sample_file" "listable sample_other_file"
  by (simp_all add: listable_def normalize_Some sample_file_def sample_other_file_def sha256_hex_ok_def list_all_iff
      hex_char_def is_digit_def is_upper_def is_lower_def path_control_def drive_letter_def slash_char_def code_def)

lemma listing_text_inj:
  assumes "list_all listable xs" "list_all listable ys" "package_listing xs = package_listing ys"
  shows "map listed (sort_by path_le xs) = map listed (sort_by path_le ys)"
proof -
  let ?l = "\<lambda>fs. map listing_line (sort_by path_le fs)"
  have plain: "\<forall>x\<in>set (?l fs). CHR 0x0A \<notin> set x \<and> x \<noteq> []" if "list_all listable fs" for fs
    using that listing_line_plain by (auto simp: list_all_iff)
  have empty: "js_join [CHR 0x0A] (?l fs) = [] \<longleftrightarrow> ?l fs = []" if "list_all listable fs" for fs
    using plain [OF that] by (cases "?l fs") auto
  have split: "split_on (\<lambda>d. d = CHR 0x0A) (package_listing fs) = ?l fs" if "list_all listable fs" "?l fs \<noteq> []" for fs
    unfolding package_listing_def using split_join [OF that(2)] plain [OF that(1)] by blast
  have eq: "?l xs = ?l ys"
  proof (cases "?l xs = []")
    case True
    then show ?thesis using empty [OF assms(1)] empty [OF assms(2)] assms(3) by (simp add: package_listing_def)
  next
    case False
    then have "?l ys \<noteq> []" using empty [OF assms(1)] empty [OF assms(2)] assms(3) by (simp add: package_listing_def)
    then show ?thesis
      using split [OF assms(1) False] split [OF assms(2)] assms(3) by metis
  qed
  have inj: "map listed us = map listed vs" if "map listing_line us = map listing_line vs"
    "list_all listable us" "list_all listable vs" for us vs
    using that
  proof (induction us arbitrary: vs)
    case (Cons u us)
    obtain v ws where vs: "vs = v # ws" using Cons.prems(1) by (cases vs) auto
    have "listed u = listed v"
      using Cons.prems vs by (intro listing_line_inj) (simp_all add: listable_def)
    moreover have "map listed us = map listed ws" using Cons.prems vs by (intro Cons.IH) simp_all
    ultimately show ?case using vs by simp
  qed simp
  have "list_all listable (sort_by path_le fs)" if "list_all listable fs" for fs
    using that by (simp add: list_all_iff)
  then show ?thesis using inj [OF eq] assms(1,2) by blast
qed

text \<open>The text under the package digest determines the package. Two listings of files with
  normalized paths and SHA-256 digests that are hashed as the same text have the same files: the
  same paths with the same sizes and content digests, whatever order the files were found in and
  whatever characters the paths contain.\<close>

lemma package_listing_determines_files:
  assumes "list_all listable xs" "list_all listable ys" "package_listing xs = package_listing ys"
  shows "map listed (sort_by path_le xs) = map listed (sort_by path_le ys)"
  by (rule listing_text_inj [OF assms])

lemma package_listing_determines_files_witness:
  "map listed (sort_by path_le [sample_file, sample_other_file]) = map listed (sort_by path_le [sample_other_file, sample_file])"
proof (rule package_listing_determines_files)
  show "list_all listable [sample_file, sample_other_file]" "list_all listable [sample_other_file, sample_file]"
    using sample_files_listable by simp_all
  show "package_listing [sample_file, sample_other_file] = package_listing [sample_other_file, sample_file]"
    by (simp add: package_listing_def sort_by_def path_le_def sample_file_def sample_other_file_def)
qed

end
