(* ===== verification/Skill_Import.thy ===== *)
theory Skill_Import
  imports Skill_Frontmatter Skill_Paths
begin

text \<open>
  The importer of skill packages (\<open>src/brain-server/src/skills/importer/package-loader.ts\<close>,
  \<open>package-snapshot.ts\<close>, \<open>package-types.ts\<close>): the walk over the source directory, the
  classification of files, the managed snapshot addressed by the package digest, and the import
  that composes them.

  A directory is what the calls of one walk find in it, in the order \<open>readdir\<close> lists it: an entry
  that cannot be examined, a link, something that is neither file nor directory, a directory, or a
  file. For a directory and a file the flag says whether its real path could be resolved and lies
  inside the root; a file has the size that \<open>stat\<close> reports and the bytes that are read. Because
  another process may change the source at any time, every pass over it has its own view. Contents
  are byte strings; \<open>Buffer.toString\<close>, the YAML parser and \<open>JSON.parse\<close> followed by the shape check of
  the manifest are parameters.
\<close>

section \<open>Directories and the environment\<close>

datatype fnode = Gone | Link | Special | Dir bool "(string \<times> fnode) list" | File bool nat string

type_synonym listing = "(string \<times> fnode) list"

record import_env =
  ie_managed_root :: "string list"
  ie_sha :: "string \<Rightarrow> string"
  ie_decode :: "string \<Rightarrow> string"
  ie_yaml :: "string \<Rightarrow> jsval option"
  ie_manifest :: "string \<Rightarrow> skill_manifest raw"

datatype package_failure =
    IMPORT_REJECTED | PACKAGE_PATH_ESCAPE | PACKAGE_PATH_COLLISION | PACKAGE_LIMIT_EXCEEDED
  | PACKAGE_CHANGED_DURING_IMPORT | MANAGED_SNAPSHOT_CORRUPT

datatype snapshot_error = Changed_during_import | Snapshot_corrupt | Integrity_failure

datatype import_warning = Ignored_directory string string | Unknown_frontmatter "string list" | Bundled_code nat

section \<open>Classification\<close>

definition skill_md_path :: "string \<Rightarrow> bool" where
  "skill_md_path p \<longleftrightarrow> case_folded_path_key p = case_folded_path_key ''SKILL.md''"

definition omni_manifest_path :: "string \<Rightarrow> bool" where
  "omni_manifest_path p \<longleftrightarrow> case_folded_path_key p = case_folded_path_key ''omni-skill.json''"

definition ends_with :: "string \<Rightarrow> string \<Rightarrow> bool" where
  "ends_with s e \<longleftrightarrow> suffix e s"

definition script_extensions :: "string list" where
  "script_extensions = [''.py'', ''.js'', ''.ts'', ''.sh'', ''.ps1'', ''.cmd'', ''.bat'']"

definition binary_extensions :: "string list" where
  "binary_extensions = [''.exe'', ''.dll'']"

definition classify_file :: "string \<Rightarrow> string \<Rightarrow> file_class" where
  "classify_file p bytes =
     (if skill_md_path p then Class_skill_md
      else if omni_manifest_path p then Class_omni_manifest
      else let lower = map js_lower p in
        if list_ex (ends_with lower) script_extensions then Class_script
        else if list_ex (ends_with lower) binary_extensions then Class_binary
        else if CHR 0x00 \<in> set (take 8192 bytes) then Class_binary else Class_text)"

definition per_file_limit :: "package_limits \<Rightarrow> string \<Rightarrow> nat" where
  "per_file_limit lim p = (if skill_md_path p then skill_md_max_bytes lim
     else if omni_manifest_path p then manifest_max_bytes lim else max_single_file_bytes lim)"

section \<open>The walk over the source\<close>

type_synonym source_file = "skill_file \<times> string"

record walk_state =
  ws_stack :: "(string list \<times> nat \<times> listing) list"
  ws_files :: "source_file list"
  ws_warnings :: "import_warning list"
  ws_total :: nat

text \<open>\<open>relativeFrom\<close>: the names from the root to the entry, joined and normalized.\<close>

definition relative_from :: "string list \<Rightarrow> package_failure + string" where
  "relative_from path = (case normalize_relative_path (js_join ''/'' path) of
     None \<Rightarrow> Inl PACKAGE_PATH_ESCAPE | Some p \<Rightarrow> Inr p)"

definition scan_file :: "import_env \<Rightarrow> package_limits \<Rightarrow> string \<Rightarrow> bool \<Rightarrow> nat \<Rightarrow> string \<Rightarrow> walk_state \<Rightarrow> package_failure + walk_state" where
  "scan_file env lim p inside sz bytes st =
     ebind (check (normalize_relative_path p \<noteq> None) PACKAGE_PATH_ESCAPE) (\<lambda>_.
     ebind (check inside PACKAGE_PATH_ESCAPE) (\<lambda>_.
     ebind (check (sz \<le> per_file_limit lim p) PACKAGE_LIMIT_EXCEEDED) (\<lambda>_.
     ebind (check (ws_total st + sz \<le> max_total_bytes lim) PACKAGE_LIMIT_EXCEEDED) (\<lambda>_.
     ebind (check (length bytes = sz) PACKAGE_CHANGED_DURING_IMPORT) (\<lambda>_.
     ebind (check (length bytes \<le> per_file_limit lim p) PACKAGE_LIMIT_EXCEEDED) (\<lambda>_.
     let e = \<lparr>fe_path = p, fe_sha256 = ie_sha env bytes, fe_size = length bytes, fe_class = classify_file p bytes\<rparr>;
         fs = ws_files st @ [(e, bytes)] in
     ebind (check (length fs \<le> max_files lim) PACKAGE_LIMIT_EXCEEDED) (\<lambda>_.
     Inr (st\<lparr>ws_files := fs, ws_total := ws_total st + sz\<rparr>))))))))"

definition scan_entry :: "import_env \<Rightarrow> package_limits \<Rightarrow> string list \<Rightarrow> nat \<Rightarrow> string \<Rightarrow> fnode \<Rightarrow> walk_state \<Rightarrow> package_failure + walk_state" where
  "scan_entry env lim dir depth name node st =
     ebind (relative_from (dir @ [name])) (\<lambda>p.
     case node of
       Gone \<Rightarrow> Inl PACKAGE_PATH_ESCAPE
     | Link \<Rightarrow> Inl PACKAGE_PATH_ESCAPE
     | Special \<Rightarrow> Inl PACKAGE_PATH_ESCAPE
     | Dir inside es \<Rightarrow>
         if name \<in> set ignored_directory_names
         then Inr (st\<lparr>ws_warnings := ws_warnings st @ [Ignored_directory name p]\<rparr>)
         else ebind (check (depth + 1 \<le> max_depth lim) PACKAGE_LIMIT_EXCEEDED) (\<lambda>_.
           ebind (check inside PACKAGE_PATH_ESCAPE) (\<lambda>_.
           Inr (st\<lparr>ws_stack := (dir @ [name], depth + 1, es) # ws_stack st\<rparr>)))
     | File inside sz bytes \<Rightarrow> scan_file env lim p inside sz bytes st)"

fun scan_entries :: "import_env \<Rightarrow> package_limits \<Rightarrow> string list \<Rightarrow> nat \<Rightarrow> listing \<Rightarrow> walk_state \<Rightarrow> package_failure + walk_state" where
  "scan_entries env lim dir depth [] st = Inr st"
| "scan_entries env lim dir depth ((name, node) # es) st =
     ebind (scan_entry env lim dir depth name node st) (scan_entries env lim dir depth es)"

text \<open>The loop over the stack ends: a directory that is scanned is replaced by its subdirectories.\<close>

fun node_weight :: "fnode \<Rightarrow> nat" and listing_weight :: "listing \<Rightarrow> nat" where
  "node_weight (Dir b es) = Suc (listing_weight es)"
| "node_weight _ = 0"
| "listing_weight [] = 0"
| "listing_weight ((name, node) # es) = node_weight node + listing_weight es"

definition stack_weight :: "(string list \<times> nat \<times> listing) list \<Rightarrow> nat" where
  "stack_weight stack = (\<Sum>(dir, depth, es) \<leftarrow> stack. Suc (listing_weight es))"

lemma scan_entry_weight:
  "scan_entry env lim dir depth name node st = Inr st' \<Longrightarrow>
   stack_weight (ws_stack st') \<le> stack_weight (ws_stack st) + node_weight node"
  by (cases node) (auto simp: scan_entry_def scan_file_def stack_weight_def ebind_Inr_iff Let_def split: if_splits)

lemma scan_entries_weight:
  "scan_entries env lim dir depth es st = Inr st' \<Longrightarrow>
   stack_weight (ws_stack st') \<le> stack_weight (ws_stack st) + listing_weight es"
proof (induction es arbitrary: st)
  case (Cons e es)
  then show ?case by (cases e) (fastforce dest: scan_entry_weight simp: ebind_Inr_iff)
qed simp

function walk_source :: "import_env \<Rightarrow> package_limits \<Rightarrow> walk_state \<Rightarrow> package_failure + walk_state" where
  "walk_source env lim st = (case ws_stack st of
     [] \<Rightarrow> Inr st
   | (dir, depth, es) # rest \<Rightarrow>
       (case scan_entries env lim dir depth es (st\<lparr>ws_stack := rest\<rparr>) of
          Inl e \<Rightarrow> Inl e
        | Inr st' \<Rightarrow> walk_source env lim st'))"
  by auto
termination
proof (relation "measure (\<lambda>(env, lim, st). stack_weight (ws_stack st))")
  fix env lim st p rest q depth dir es st'
  assume "ws_stack st = p # rest" "(dir, q) = p" "(depth, es) = q"
    "scan_entries env lim dir depth es (st\<lparr>ws_stack := rest\<rparr>) = Inr st'"
  then show "((env, lim, st'), env, lim, st) \<in> measure (\<lambda>(env, lim, st). stack_weight (ws_stack st))"
    by (auto simp: stack_weight_def dest!: scan_entries_weight)
qed auto

declare walk_source.simps [simp del]

definition file_le :: "source_file \<Rightarrow> source_file \<Rightarrow> bool" where
  "file_le a b \<longleftrightarrow> path_le (fst a) (fst b)"

definition enumerate_source_files :: "import_env \<Rightarrow> package_limits \<Rightarrow> listing \<Rightarrow>
    package_failure + (source_file list \<times> import_warning list)" where
  "enumerate_source_files env lim root =
     ebind (walk_source env lim \<lparr>ws_stack = [([], 0, root)], ws_files = [], ws_warnings = [], ws_total = 0\<rparr>) (\<lambda>st.
     let files = sort_by file_le (ws_files st) in
     ebind (check (find_case_folded_path_collisions (map (fe_path \<circ> fst) files) = []) PACKAGE_PATH_COLLISION) (\<lambda>_.
     Inr (files, ws_warnings st)))"

section \<open>The managed snapshot\<close>

text \<open>The directories under the managed root, by package digest.\<close>

type_synonym managed_root = "string \<Rightarrow> listing option"

record dest_state =
  ds_stack :: "(string list \<times> listing) list"
  ds_files :: "skill_file list"

definition dest_entry :: "(string \<Rightarrow> string) \<Rightarrow> string list \<Rightarrow> string \<Rightarrow> fnode \<Rightarrow> dest_state \<Rightarrow> snapshot_error + dest_state" where
  "dest_entry sha dir name node st = (case node of
     Gone \<Rightarrow> Inl Snapshot_corrupt
   | Link \<Rightarrow> Inl Snapshot_corrupt
   | Special \<Rightarrow> Inl Snapshot_corrupt
   | Dir inside es \<Rightarrow> Inr (st\<lparr>ds_stack := (dir @ [name], es) # ds_stack st\<rparr>)
   | File inside sz bytes \<Rightarrow> (case normalize_relative_path (js_join ''/'' (dir @ [name])) of
       None \<Rightarrow> Inl Snapshot_corrupt
     | Some p \<Rightarrow> Inr (st\<lparr>ds_files := ds_files st @
         [\<lparr>fe_path = p, fe_sha256 = sha bytes, fe_size = length bytes, fe_class = Class_text\<rparr>]\<rparr>)))"

fun dest_entries :: "(string \<Rightarrow> string) \<Rightarrow> string list \<Rightarrow> listing \<Rightarrow> dest_state \<Rightarrow> snapshot_error + dest_state" where
  "dest_entries sha dir [] st = Inr st"
| "dest_entries sha dir ((name, node) # es) st = ebind (dest_entry sha dir name node st) (dest_entries sha dir es)"

definition dest_weight :: "(string list \<times> listing) list \<Rightarrow> nat" where
  "dest_weight stack = (\<Sum>(dir, es) \<leftarrow> stack. Suc (listing_weight es))"

lemma dest_entries_weight:
  "dest_entries sha dir es st = Inr st' \<Longrightarrow> dest_weight (ds_stack st') \<le> dest_weight (ds_stack st) + listing_weight es"
proof (induction es arbitrary: st)
  case (Cons e es)
  obtain name node where e: "e = (name, node)" by (cases e)
  have "dest_entry sha dir name node st = Inr s1 \<Longrightarrow> dest_weight (ds_stack s1) \<le> dest_weight (ds_stack st) + node_weight node" for s1
    by (auto simp: dest_entry_def dest_weight_def split: fnode.splits option.splits)
  then show ?case using Cons by (fastforce simp: e ebind_Inr_iff)
qed simp

function walk_destination_loop :: "(string \<Rightarrow> string) \<Rightarrow> dest_state \<Rightarrow> snapshot_error + skill_file list" where
  "walk_destination_loop sha st = (case ds_stack st of
     [] \<Rightarrow> Inr (ds_files st)
   | (dir, es) # rest \<Rightarrow> (case dest_entries sha dir es (st\<lparr>ds_stack := rest\<rparr>) of
        Inl e \<Rightarrow> Inl e | Inr st' \<Rightarrow> walk_destination_loop sha st'))"
  by auto
termination
proof (relation "measure (\<lambda>(sha, st). dest_weight (ds_stack st))")
  fix sha st p rest dir es st'
  assume "ds_stack st = p # rest" "(dir, es) = p" "dest_entries sha dir es (st\<lparr>ds_stack := rest\<rparr>) = Inr st'"
  then show "((sha, st'), sha, st) \<in> measure (\<lambda>(sha, st). dest_weight (ds_stack st))"
    by (auto simp: dest_weight_def dest!: dest_entries_weight)
qed auto

declare walk_destination_loop.simps [simp del]

definition walk_destination :: "(string \<Rightarrow> string) \<Rightarrow> listing \<Rightarrow> snapshot_error + skill_file list" where
  "walk_destination sha root = walk_destination_loop sha \<lparr>ds_stack = [([], root)], ds_files = []\<rparr>"

text \<open>\<open>new Map(files.map(...))\<close>, by path: a later entry replaces an earlier one.\<close>

definition file_index :: "skill_file list \<Rightarrow> string \<Rightarrow> (nat \<times> string) option" where
  "file_index fs = map_of (rev (map (\<lambda>e. (fe_path e, (fe_size e, fe_sha256 e))) fs))"

definition assert_destination_matches :: "(string \<Rightarrow> string) \<Rightarrow> skill_file list \<Rightarrow> listing \<Rightarrow> snapshot_error + unit" where
  "assert_destination_matches sha expected dest =
     ebind (walk_destination sha dest) (\<lambda>actual.
     ebind (check (card (set (map fe_path actual)) = card (set (map fe_path expected))) Snapshot_corrupt) (\<lambda>_.
     check (list_all (\<lambda>e. file_index actual (fe_path e) = Some (fe_size e, fe_sha256 e)) expected) Snapshot_corrupt))"

text \<open>\<open>readSourceFileChecked\<close>: \<open>None\<close> when the file is gone, resolves outside the root or is not regular.\<close>

definition read_source_checked :: "import_env \<Rightarrow> (string \<Rightarrow> string option) \<Rightarrow> skill_file \<Rightarrow> snapshot_error + string" where
  "read_source_checked env reads e = (case reads (fe_path e) of
     None \<Rightarrow> Inl Changed_during_import
   | Some bytes \<Rightarrow> if length bytes \<noteq> fe_size e \<or> ie_sha env bytes \<noteq> fe_sha256 e
       then Inl Changed_during_import else Inr bytes)"

fun read_all_checked :: "import_env \<Rightarrow> (string \<Rightarrow> string option) \<Rightarrow> skill_file list \<Rightarrow> snapshot_error + unit" where
  "read_all_checked env reads [] = Inr ()"
| "read_all_checked env reads (e # es) = ebind (read_source_checked env reads e) (\<lambda>_. read_all_checked env reads es)"

text \<open>What the passes of one import see: the source when it is inspected, \<open>None\<close> when it is not an
  existing directory, whether the managed root is available, the files as they are copied and as
  they are read again, the directory found after the copy, and the source when it is listed again.\<close>

record import_views =
  iv_source :: "listing option"
  iv_managed_ready :: bool
  iv_copy :: "string \<Rightarrow> string option"
  iv_written :: listing
  iv_again :: "string \<Rightarrow> string option"
  iv_recheck :: listing

definition snapshot_contained :: "import_env \<Rightarrow> string \<Rightarrow> bool" where
  "snapshot_contained env d = is_path_inside_root (ie_managed_root env) (ie_managed_root env @ split_on slash_char d)"

definition remove_snapshot_tree :: "import_env \<Rightarrow> string \<Rightarrow> managed_root \<Rightarrow> managed_root" where
  "remove_snapshot_tree env d managed = (if snapshot_contained env d then managed(d := None) else managed)"

definition materialize_snapshot :: "import_env \<Rightarrow> import_views \<Rightarrow> string \<Rightarrow> skill_file list \<Rightarrow> managed_root \<Rightarrow>
    (snapshot_error + unit) \<times> managed_root" where
  "materialize_snapshot env v d expected managed = (if \<not> snapshot_contained env d then (Inl Snapshot_corrupt, managed)
   else case managed d of
     Some dest \<Rightarrow> (assert_destination_matches (ie_sha env) expected dest, managed)
   | None \<Rightarrow>
       (case ebind (read_all_checked env (iv_copy v) expected) (\<lambda>_.
             ebind (assert_destination_matches (ie_sha env) expected (iv_written v)) (\<lambda>_.
             read_all_checked env (iv_again v) expected)) of
          Inl e \<Rightarrow> (Inl e, remove_snapshot_tree env d managed)
        | Inr _ \<Rightarrow> (Inr (), managed(d := Some (iv_written v)))))"

definition verify_managed_snapshot :: "import_env \<Rightarrow> managed_root \<Rightarrow> string \<Rightarrow> snapshot_error + skill_file list" where
  "verify_managed_snapshot env managed d = (if \<not> snapshot_contained env d then Inl Integrity_failure
   else case managed d of
     None \<Rightarrow> Inl Integrity_failure
   | Some dest \<Rightarrow> ebind (walk_destination (ie_sha env) dest) (\<lambda>files.
       ebind (check (compute_package_digest (ie_sha env) files = d) Integrity_failure) (\<lambda>_. Inr files)))"

section \<open>The import\<close>

datatype import_status = Ready_for_validation | Quarantined_unbound | Quarantined_invalid_manifest
  | Quarantined_name_mismatch | Import_rejected

datatype quarantine_reason = Missing_omni_manifest | Omni_manifest_invalid | Name_mismatch

record imported_package =
  ip_requested :: string
  ip_canonical :: string
  ip_snapshot :: "string option"
  ip_metadata :: "skill_frontmatter option"
  ip_manifest_present :: bool
  ip_manifest_valid :: bool
  ip_manifest :: "skill_manifest option"
  ip_manifest_digest :: "string option"
  ip_package_digest :: "string option"
  ip_files :: "skill_file list"
  ip_warnings :: "import_warning list"
  ip_bundled_code :: bool
  ip_script_files :: "string list"
  ip_status :: import_status
  ip_reasons :: "quarantine_reason list"
  ip_eligible :: bool
  ip_failure :: "package_failure option"

definition reject_failure :: "package_failure \<Rightarrow> imported_package" where
  "reject_failure c = \<lparr>ip_requested = [], ip_canonical = [], ip_snapshot = None, ip_metadata = None,
     ip_manifest_present = False, ip_manifest_valid = False, ip_manifest = None, ip_manifest_digest = None,
     ip_package_digest = None, ip_files = [], ip_warnings = [], ip_bundled_code = False, ip_script_files = [],
     ip_status = Import_rejected, ip_reasons = [], ip_eligible = False, ip_failure = Some c\<rparr>"

definition snapshot_failure :: "snapshot_error \<Rightarrow> package_failure" where
  "snapshot_failure e = (if e = Snapshot_corrupt then MANAGED_SNAPSHOT_CORRUPT else PACKAGE_CHANGED_DURING_IMPORT)"

text \<open>What is thrown instead of returned: a wrong argument, or a failure of the second listing, which
  the \<open>catch\<close> of the import passes on.\<close>

datatype import_exception = Type_error | Package_failure_thrown package_failure

definition import_status_of :: "source_file option \<Rightarrow> skill_manifest option \<Rightarrow> string \<Rightarrow> import_status \<times> quarantine_reason list" where
  "import_status_of manifest_file manifest name = (case manifest_file of
     None \<Rightarrow> (Quarantined_unbound, [Missing_omni_manifest])
   | Some _ \<Rightarrow> (case manifest of
       None \<Rightarrow> (Quarantined_invalid_manifest, [Omni_manifest_invalid])
     | Some m \<Rightarrow> if sm_name m \<noteq> name then (Quarantined_name_mismatch, [Name_mismatch])
         else (Ready_for_validation, [])))"

definition parse_manifest_file :: "import_env \<Rightarrow> string \<Rightarrow> skill_manifest option" where
  "parse_manifest_file env bytes = (case ie_manifest env bytes of Malformed \<Rightarrow> None | Shaped m \<Rightarrow> parse_manifest m)"

definition package_of :: "import_env \<Rightarrow> string \<Rightarrow> string \<Rightarrow> source_file list \<Rightarrow> import_warning list \<Rightarrow> skill_frontmatter \<Rightarrow> imported_package" where
  "package_of env requested canonical files warnings fm = (let
     entries = map fst files;
     manifest_file = List.find (\<lambda>f. omni_manifest_path (fe_path (fst f))) files;
     manifest = Option.bind manifest_file (\<lambda>f. parse_manifest_file env (snd f));
     scripts = map fe_path (filter (\<lambda>e. fe_class e = Class_script \<or> fe_class e = Class_binary) entries);
     (status, reasons) = import_status_of manifest_file manifest (fm_name fm);
     d = compute_package_digest (ie_sha env) entries in
     \<lparr>ip_requested = requested, ip_canonical = canonical, ip_snapshot = Some d, ip_metadata = Some fm,
      ip_manifest_present = (manifest_file \<noteq> None), ip_manifest_valid = (manifest \<noteq> None), ip_manifest = manifest,
      ip_manifest_digest = map_option (\<lambda>f. compute_manifest_digest (ie_sha env) (snd f)) manifest_file,
      ip_package_digest = Some d, ip_files = entries,
      ip_warnings = warnings @ (if fm_unknown fm \<noteq> [] then [Unknown_frontmatter (fm_unknown fm)] else [])
        @ (if scripts \<noteq> [] then [Bundled_code (length scripts)] else []),
      ip_bundled_code = (scripts \<noteq> []), ip_script_files = scripts, ip_status = status, ip_reasons = reasons,
      ip_eligible = (status = Ready_for_validation), ip_failure = None\<rparr>)"

definition snapshot_and_recheck :: "import_env \<Rightarrow> package_limits \<Rightarrow> import_views \<Rightarrow> imported_package \<Rightarrow> string \<Rightarrow> managed_root \<Rightarrow>
    (import_exception + imported_package) \<times> managed_root" where
  "snapshot_and_recheck env lim v p d managed =
     (case materialize_snapshot env v d (ip_files p) managed of
        (Inl e, managed') \<Rightarrow> (Inr (reject_failure (snapshot_failure e)), managed')
      | (Inr _, managed') \<Rightarrow> (case enumerate_source_files env lim (iv_recheck v) of
          Inl c \<Rightarrow> (Inl (Package_failure_thrown c), managed')
        | Inr (again, _) \<Rightarrow>
            if card (set (map fe_path (ip_files p))) \<noteq> card (set (map (fe_path \<circ> fst) again)) \<or>
               \<not> set (map fe_path (ip_files p)) \<subseteq> set (map (fe_path \<circ> fst) again)
            then (Inr (reject_failure PACKAGE_CHANGED_DURING_IMPORT), remove_snapshot_tree env d managed')
            else (Inr p, managed')))"

definition import_skill_package :: "import_env \<Rightarrow> package_limits \<Rightarrow> import_views \<Rightarrow> string \<Rightarrow> string \<Rightarrow> managed_root \<Rightarrow>
    (import_exception + imported_package) \<times> managed_root" where
  "import_skill_package env lim v requested canonical managed =
     (if requested = [] then (Inl Type_error, managed)
      else (case iv_source v of None \<Rightarrow> (Inr (reject_failure IMPORT_REJECTED), managed)
      | Some root \<Rightarrow>
        if \<not> iv_managed_ready v then (Inr (reject_failure IMPORT_REJECTED), managed)
        else (case enumerate_source_files env lim root of
          Inl c \<Rightarrow> (Inr (reject_failure c), managed)
        | Inr (files, warnings) \<Rightarrow>
          (case List.find (\<lambda>f. skill_md_path (fe_path (fst f))) files of
             None \<Rightarrow> (Inr (reject_failure IMPORT_REJECTED), managed)
           | Some md \<Rightarrow> (case parse_skill_frontmatter (ie_yaml env) (ie_decode env (snd md)) of
               Inl e \<Rightarrow> (Inr (reject_failure IMPORT_REJECTED), managed)
             | Inr fm \<Rightarrow>
                 snapshot_and_recheck env lim v (package_of env requested canonical files warnings fm)
                   (compute_package_digest (ie_sha env) (map fst files)) managed)))))"

section \<open>What the walk returns\<close>

text \<open>The specification, by recursion over the directory: the files outside the ignored directories
  with their contents, and the directories that are acceptable at a given depth.\<close>

fun collected :: "string list \<Rightarrow> listing \<Rightarrow> (string \<times> string) set" where
  "collected dir [] = {}"
| "collected dir ((name, File inside sz bytes) # es) = insert (js_join ''/'' (dir @ [name]), bytes) (collected dir es)"
| "collected dir ((name, Dir inside ds) # es) =
     (if name \<in> set ignored_directory_names then {} else collected (dir @ [name]) ds) \<union> collected dir es"
| "collected dir ((name, node) # es) = collected dir es"

fun acceptable :: "package_limits \<Rightarrow> nat \<Rightarrow> listing \<Rightarrow> bool" where
  "acceptable lim depth [] = True"
| "acceptable lim depth ((name, File inside sz bytes) # es) \<longleftrightarrow> inside \<and> length bytes = sz \<and> acceptable lim depth es"
| "acceptable lim depth ((name, Dir inside ds) # es) \<longleftrightarrow>
     (name \<in> set ignored_directory_names \<or> inside \<and> depth < max_depth lim \<and> acceptable lim (Suc depth) ds) \<and>
     acceptable lim depth es"
| "acceptable lim depth ((name, node) # es) \<longleftrightarrow> False"

definition path_and_bytes :: "source_file \<Rightarrow> string \<times> string" where
  "path_and_bytes f = (fe_path (fst f), snd f)"

definition state_content :: "walk_state \<Rightarrow> (string \<times> string) set" where
  "state_content st = path_and_bytes ` set (ws_files st) \<union> (\<Union>(dir, depth, es)\<in>set (ws_stack st). collected dir es)"

definition stack_acceptable :: "package_limits \<Rightarrow> walk_state \<Rightarrow> bool" where
  "stack_acceptable lim st \<longleftrightarrow> list_all (\<lambda>(dir, depth, es). acceptable lim depth es) (ws_stack st)"

definition source_file_ok :: "import_env \<Rightarrow> package_limits \<Rightarrow> source_file \<Rightarrow> bool" where
  "source_file_ok env lim f \<longleftrightarrow> normalize_relative_path (fe_path (fst f)) = Some (fe_path (fst f)) \<and>
     fe_size (fst f) = length (snd f) \<and> fe_sha256 (fst f) = ie_sha env (snd f) \<and>
     fe_class (fst f) = classify_file (fe_path (fst f)) (snd f) \<and>
     fe_size (fst f) \<le> per_file_limit lim (fe_path (fst f))"

definition files_ok :: "import_env \<Rightarrow> package_limits \<Rightarrow> walk_state \<Rightarrow> bool" where
  "files_ok env lim st \<longleftrightarrow> list_all (source_file_ok env lim) (ws_files st) \<and>
     ws_total st = sum_list (map (fe_size \<circ> fst) (ws_files st)) \<and>
     ws_total st \<le> max_total_bytes lim \<and> length (ws_files st) \<le> max_files lim"

lemma relative_from_Inr: "relative_from path = Inr p \<longleftrightarrow> normalize_relative_path (js_join ''/'' path) = Some p"
  by (simp add: relative_from_def split: option.splits)

lemma normalize_same: "normalize_relative_path p = Some q \<Longrightarrow> q = p"
  by (simp add: normalize_Some)

lemma scan_entry_cases:
  assumes "scan_entry env lim dir depth name node st = Inr st'"
  obtains (ignored) inside ds p where "node = Dir inside ds" "name \<in> set ignored_directory_names"
      "st' = st\<lparr>ws_warnings := ws_warnings st @ [Ignored_directory name p]\<rparr>"
  | (pushed) ds where "node = Dir True ds" "name \<notin> set ignored_directory_names" "depth < max_depth lim"
      "st' = st\<lparr>ws_stack := (dir @ [name], Suc depth, ds) # ws_stack st\<rparr>"
  | (found) bytes e where "node = File True (length bytes) bytes" "fe_path e = js_join ''/'' (dir @ [name])"
      "source_file_ok env lim (e, bytes)" "ws_total st + length bytes \<le> max_total_bytes lim"
      "length (ws_files st) < max_files lim"
      "st' = st\<lparr>ws_files := ws_files st @ [(e, bytes)], ws_total := ws_total st + length bytes\<rparr>"
  using assms
proof (cases node)
  case (Dir inside ds)
  show ?thesis
  proof (cases "name \<in> set ignored_directory_names")
    case True
    then obtain p where "st' = st\<lparr>ws_warnings := ws_warnings st @ [Ignored_directory name p]\<rparr>"
      using assms Dir by (auto simp: scan_entry_def ebind_Inr_iff)
    then show ?thesis using Dir True by (intro ignored)
  next
    case False
    then have "inside" "depth < max_depth lim" "st' = st\<lparr>ws_stack := (dir @ [name], Suc depth, ds) # ws_stack st\<rparr>"
      using assms Dir by (auto simp: scan_entry_def ebind_Inr_iff)
    then show ?thesis using Dir False by (intro pushed [of ds]) simp_all
  qed
next
  case (File inside sz bytes)
  let ?p = "js_join ''/'' (dir @ [name])"
  let ?e = "\<lparr>fe_path = ?p, fe_sha256 = ie_sha env bytes, fe_size = length bytes, fe_class = classify_file ?p bytes\<rparr>"
  obtain p where p: "normalize_relative_path ?p = Some p" "scan_file env lim p inside sz bytes st = Inr st'"
    using assms File by (auto simp: scan_entry_def ebind_Inr_iff relative_from_Inr)
  then have pp: "p = ?p" using normalize_same by blast
  have f: "inside" "sz = length bytes" "length bytes \<le> per_file_limit lim ?p" "ws_total st + length bytes \<le> max_total_bytes lim"
    "length (ws_files st) < max_files lim"
    "st' = st\<lparr>ws_files := ws_files st @ [(?e, bytes)], ws_total := ws_total st + length bytes\<rparr>"
    using p(2) unfolding pp by (auto simp: scan_file_def ebind_Inr_iff Let_def)
  show ?thesis
  proof (rule found)
    show "node = File True (length bytes) bytes" using File f by simp
    show "source_file_ok env lim (?e, bytes)" using p(1) f(3) pp by (simp add: source_file_ok_def)
  qed (use f in simp_all)
qed (simp_all add: scan_entry_def ebind_Inr_iff)

lemma scan_entry_effect:
  assumes "scan_entry env lim dir depth name node st = Inr st'"
  shows "state_content st' = state_content st \<union> collected dir [(name, node)]"
    and "stack_acceptable lim st' \<longleftrightarrow> stack_acceptable lim st \<and> acceptable lim depth [(name, node)]"
    and "files_ok env lim st \<Longrightarrow> files_ok env lim st'"
  using assms
  by (cases rule: scan_entry_cases;
      auto simp: state_content_def path_and_bytes_def stack_acceptable_def files_ok_def source_file_ok_def)+

lemma collected_Cons: "collected dir (e # es) = collected dir [e] \<union> collected dir es"
  by (cases e; cases "snd e") auto

lemma acceptable_Cons: "acceptable lim depth (e # es) \<longleftrightarrow> acceptable lim depth [e] \<and> acceptable lim depth es"
  by (cases e; cases "snd e") auto

lemma scan_entries_effect:
  assumes "scan_entries env lim dir depth es st = Inr st'"
  shows "state_content st' = state_content st \<union> collected dir es"
    and "stack_acceptable lim st' \<longleftrightarrow> stack_acceptable lim st \<and> acceptable lim depth es"
    and "files_ok env lim st \<Longrightarrow> files_ok env lim st'"
proof -
  have "state_content st' = state_content st \<union> collected dir es \<and>
      (stack_acceptable lim st' \<longleftrightarrow> stack_acceptable lim st \<and> acceptable lim depth es) \<and>
      (files_ok env lim st \<longrightarrow> files_ok env lim st')"
    using assms
  proof (induction es arbitrary: st)
    case (Cons e es)
    obtain name node where e: "e = (name, node)" by (cases e)
    then obtain s1 where s1: "scan_entry env lim dir depth name node st = Inr s1"
      "scan_entries env lim dir depth es s1 = Inr st'" using Cons.prems by (auto simp: ebind_Inr_iff)
    show ?case
      using Cons.IH [OF s1(2)] scan_entry_effect [OF s1(1)] collected_Cons [of dir e es]
        acceptable_Cons [of lim depth e es] unfolding e by blast
  qed simp
  then show "state_content st' = state_content st \<union> collected dir es"
    "stack_acceptable lim st' \<longleftrightarrow> stack_acceptable lim st \<and> acceptable lim depth es"
    "files_ok env lim st \<Longrightarrow> files_ok env lim st'" by blast+
qed

lemma walk_source_effect:
  "walk_source env lim st = Inr st' \<Longrightarrow> ws_stack st' = [] \<and> state_content st' = state_content st \<and>
     stack_acceptable lim st \<and> (files_ok env lim st \<longrightarrow> files_ok env lim st')"
proof (induction env lim st rule: walk_source.induct)
  case (1 env lim st)
  show ?case
  proof (cases "ws_stack st")
    case Nil
    then show ?thesis using 1(2) by (subst (asm) walk_source.simps) (auto simp: stack_acceptable_def)
  next
    case (Cons top rest)
    obtain dir depth es where top: "top = (dir, depth, es)" by (cases top)
    obtain s1 where s1: "scan_entries env lim dir depth es (st\<lparr>ws_stack := rest\<rparr>) = Inr s1"
      "walk_source env lim s1 = Inr st'"
      using 1(2) Cons top by (subst (asm) walk_source.simps) (auto split: sum.splits)
    have ih: "ws_stack st' = []" "state_content st' = state_content s1" "stack_acceptable lim s1"
      "files_ok env lim s1 \<longrightarrow> files_ok env lim st'"
      using 1(1) [OF Cons _ _ s1(1) s1(2)] top by auto
    note eff = scan_entries_effect [OF s1(1)]
    have "state_content (st\<lparr>ws_stack := rest\<rparr>) \<union> collected dir es = state_content st"
      by (auto simp: state_content_def Cons top)
    moreover have "stack_acceptable lim st"
      using eff(2) ih(3) by (simp add: stack_acceptable_def Cons top)
    moreover have "files_ok env lim (st\<lparr>ws_stack := rest\<rparr>) = files_ok env lim st" by (simp add: files_ok_def)
    ultimately show ?thesis using ih eff(1,3) by auto
  qed
qed

lemma enumerated_files:
  assumes "enumerate_source_files env lim root = Inr (files, warnings)"
  shows "list_all (source_file_ok env lim) files"
    and "distinct (map (case_folded_path_key \<circ> fe_path \<circ> fst) files)"
proof -
  let ?st = "\<lparr>ws_stack = [([], 0, root)], ws_files = [], ws_warnings = [], ws_total = 0\<rparr>"
  obtain st where st: "walk_source env lim ?st = Inr st" "files = sort_by file_le (ws_files st)"
    "find_case_folded_path_collisions (map (fe_path \<circ> fst) files) = []"
    using assms by (auto simp: enumerate_source_files_def ebind_Inr_iff Let_def)
  have "files_ok env lim ?st" by (simp add: files_ok_def)
  then show "list_all (source_file_ok env lim) files"
    using walk_source_effect [OF st(1)] by (simp add: files_ok_def st(2) list_all_iff)
  show "distinct (map (case_folded_path_key \<circ> fe_path \<circ> fst) files)"
    using st(3) by (simp add: no_collisions comp_assoc)
qed

text \<open>C40: The listing of a package is the content of its directory. When a walk of the source succeeds, the
  files it returns are exactly the regular files that this walk finds outside the ignored
  directories, each under the path of the names that lead to it and with the bytes that were read. Every entry the walk finds outside the ignored
  directories is a regular file or a directory, never a link; its real path is inside the root, a
  directory is no deeper than the limit, and a file has the number of bytes that was reported for it. Every file has a normalized
  relative path, the digest, size and class of its bytes, and its size within its limit; the paths
  differ even when letter case is ignored; and the number and total size of the files are within
  the limits of the package.\<close>

theorem enumeration_exact:
  assumes "enumerate_source_files env lim root = Inr (files, warnings)"
  shows "path_and_bytes ` set files = collected [] root \<and> acceptable lim 0 root \<and>
    list_all (source_file_ok env lim) files \<and>
    distinct (map (case_folded_path_key \<circ> fe_path \<circ> fst) files) \<and>
    length files \<le> max_files lim \<and> (\<Sum>f\<in>set files. fe_size (fst f)) \<le> max_total_bytes lim"
proof -
  let ?st = "\<lparr>ws_stack = [([], 0, root)], ws_files = [], ws_warnings = [], ws_total = 0\<rparr>"
  obtain st where st: "walk_source env lim ?st = Inr st" "files = sort_by file_le (ws_files st)"
    using assms by (auto simp: enumerate_source_files_def ebind_Inr_iff Let_def)
  have "files_ok env lim ?st" by (simp add: files_ok_def)
  with walk_source_effect [OF st(1)] have w: "ws_stack st = []" "state_content st = state_content ?st"
    "stack_acceptable lim ?st" "files_ok env lim st" by auto
  note d = enumerated_files(2) [OF assms]
  then have "distinct (ws_files st)"
    using distinct_sort_by [of "\<lambda>x. x" file_le "ws_files st"] by (simp add: st(2) distinct_map)
  then have "(\<Sum>f\<in>set files. fe_size (fst f)) = ws_total st"
    using w(4) by (simp add: files_ok_def st(2) sum_list_distinct_conv_sum_set comp_def)
  then show ?thesis
    using w d by (simp add: st(2) state_content_def stack_acceptable_def files_ok_def list_all_iff)
qed

section \<open>What an import leaves in the managed root\<close>

lemma file_index_dom: "file_index fs p \<noteq> None \<longleftrightarrow> p \<in> set (map fe_path fs)"
  by (simp add: file_index_def map_of_eq_None_iff image_image del: not_None_eq)

lemma file_index_distinct:
  assumes "distinct (map fe_path fs)" "e \<in> set fs" shows "file_index fs (fe_path e) = Some (fe_size e, fe_sha256 e)"
proof -
  have "distinct (map fst (rev (map (\<lambda>e. (fe_path e, fe_size e, fe_sha256 e)) fs)))"
    using assms(1) by (simp add: rev_map [symmetric] comp_def)
  then show ?thesis unfolding file_index_def using assms(2) by (intro map_of_is_SomeI) auto
qed

lemma destination_matches:
  assumes "assert_destination_matches sha expected dest = Inr u" "distinct (map fe_path expected)"
  obtains actual where "walk_destination sha dest = Inr actual" "file_index actual = file_index expected"
proof -
  obtain actual where a: "walk_destination sha dest = Inr actual"
    "card (set (map fe_path actual)) = card (set (map fe_path expected))"
    "\<forall>e\<in>set expected. file_index actual (fe_path e) = Some (fe_size e, fe_sha256 e)"
    using assms(1) by (auto simp: assert_destination_matches_def ebind_Inr_iff list_all_iff)
  have "set (map fe_path expected) \<subseteq> set (map fe_path actual)"
  proof
    fix p assume "p \<in> set (map fe_path expected)"
    then have "file_index actual p \<noteq> None" using a(3) by auto
    then show "p \<in> set (map fe_path actual)" by (rule iffD1 [OF file_index_dom])
  qed
  then have same: "set (map fe_path actual) = set (map fe_path expected)"
    using a(2) card_subset_eq [of "set (map fe_path actual)" "set (map fe_path expected)"] by auto
  have "file_index actual p = file_index expected p" for p
  proof (cases "p \<in> set (map fe_path expected)")
    case True
    then show ?thesis using a(3) file_index_distinct [OF assms(2)] by auto
  next
    case False
    then have "file_index actual p = None" "file_index expected p = None"
      using same file_index_dom [of actual p] file_index_dom [of expected p] by auto
    then show ?thesis by simp
  qed
  then show ?thesis using a(1) that by blast
qed

lemma distinct_paths: "distinct (map (case_folded_path_key \<circ> fe_path \<circ> fst) files) \<Longrightarrow> distinct (map fe_path (map fst files))"
  by (auto simp: distinct_map inj_on_def)

lemma package_of_fields:
  "ip_files (package_of env req canon files w fm) = map fst files"
  "ip_package_digest (package_of env req canon files w fm) = Some (compute_package_digest (ie_sha env) (map fst files))"
  "ip_failure (package_of env req canon files w fm) = None"
  "ip_metadata (package_of env req canon files w fm) = Some fm"
  "ip_eligible (package_of env req canon files w fm) \<longleftrightarrow> ip_status (package_of env req canon files w fm) = Ready_for_validation"
  "ip_status (package_of env req canon files w fm) = Ready_for_validation \<longleftrightarrow>
     (\<exists>m. ip_manifest (package_of env req canon files w fm) = Some m \<and> sm_name m = fm_name fm)"
  "ip_manifest (package_of env req canon files w fm) = Some m \<Longrightarrow> parse_manifest m = Some m"
  by (auto simp: package_of_def import_status_of_def parse_manifest_file_def bind_eq_Some_conv Let_def
      dest: parse_manifest_idem split: option.splits raw.splits prod.splits if_splits)

lemma reject_failure_fails [simp]: "ip_failure (reject_failure c) = Some c"
  by (simp add: reject_failure_def)

lemma materialize_effect:
  assumes "materialize_snapshot env v d expected managed = (Inr u, managed')" "distinct (map fe_path expected)"
  obtains dest actual where "managed' = managed(d := Some dest)" "walk_destination (ie_sha env) dest = Inr actual"
    "file_index actual = file_index expected" "managed d = None \<or> managed d = Some dest" "snapshot_contained env d"
proof (cases "managed d")
  case None
  then have m: "assert_destination_matches (ie_sha env) expected (iv_written v) = Inr ()"
    "managed' = managed(d := Some (iv_written v))" "snapshot_contained env d"
    using assms(1) by (auto simp: materialize_snapshot_def ebind_Inr_iff split: sum.splits if_splits)
  show ?thesis by (rule destination_matches [OF m(1) assms(2)]) (use that m None in blast)
next
  case (Some dest)
  then have m: "assert_destination_matches (ie_sha env) expected dest = Inr ()" "managed' = managed" "snapshot_contained env d"
    using assms(1) by (auto simp: materialize_snapshot_def split: if_splits)
  show ?thesis by (rule destination_matches [OF m(1) assms(2)]) (use that m Some in \<open>auto simp: fun_upd_idem\<close>)
qed

lemma import_succeeds:
  assumes "import_skill_package env lim v req canon managed = (Inr p, managed')" "ip_failure p = None"
  obtains root files w fm where "iv_source v = Some root" "enumerate_source_files env lim root = Inr (files, w)"
    "p = package_of env req canon files w fm"
    "materialize_snapshot env v (compute_package_digest (ie_sha env) (map fst files)) (map fst files) managed = (Inr (), managed')"
  using assms
  by (auto simp: import_skill_package_def snapshot_and_recheck_def package_of_fields
      split: option.splits sum.splits if_splits prod.splits)

text \<open>A successful import leaves a verified snapshot. When an import returns a package without a
  failure, the directory the managed root holds under the package digest was found to contain exactly
  the files of the listing: the same paths with the same sizes and content digests. The listing is
  the one the source was inspected with, the digest is computed from it, a snapshot that existed
  under that digest is kept as it was, and no other snapshot is touched.\<close>

lemma imported_snapshot_verified:
  assumes "import_skill_package env lim v req canon managed = (Inr p, managed')" "ip_failure p = None"
  shows "\<exists>root files w d dest actual. iv_source v = Some root \<and>
    enumerate_source_files env lim root = Inr (files, w) \<and> ip_files p = map fst files \<and>
    d = compute_package_digest (ie_sha env) (ip_files p) \<and> ip_package_digest p = Some d \<and>
    managed' = managed(d := Some dest) \<and> (managed d = None \<or> managed d = Some dest) \<and>
    walk_destination (ie_sha env) dest = Inr actual \<and> file_index actual = file_index (ip_files p)"
proof -
  obtain root files w fm where i: "iv_source v = Some root" "enumerate_source_files env lim root = Inr (files, w)"
    "p = package_of env req canon files w fm"
    "materialize_snapshot env v (compute_package_digest (ie_sha env) (map fst files)) (map fst files) managed = (Inr (), managed')"
    using assms by (rule import_succeeds)
  have st: "distinct (map (case_folded_path_key \<circ> fe_path \<circ> fst) files)" by (rule enumerated_files(2) [OF i(2)])
  show ?thesis
    by (rule materialize_effect [OF i(4) distinct_paths [OF st]]) (use i(1-3) in \<open>auto simp: package_of_fields\<close>)
qed

section \<open>Sample imports and observations\<close>

definition sample_env :: import_env where
  "sample_env = \<lparr>ie_managed_root = [''data'', ''skills''], ie_sha = (\<lambda>b. replicate 64 CHR ''a''), ie_decode = id,
     ie_yaml = sample_yaml, ie_manifest = (\<lambda>b. Shaped sample_manifest)\<rparr>"

definition sample_source :: listing where
  "sample_source = [(''omni-skill.json'', File True 2 ''{}''), (''node_modules'', Dir True [(''x'', Link)]),
     (''SKILL.md'', File True (length sample_skill_md) sample_skill_md)]"

definition sample_views :: import_views where
  "sample_views = \<lparr>iv_source = Some sample_source, iv_managed_ready = True,
     iv_copy = (\<lambda>p. if p = ''SKILL.md'' then Some sample_skill_md else Some ''{}''),
     iv_written = [(''SKILL.md'', File True (length sample_skill_md) sample_skill_md), (''omni-skill.json'', File True 2 ''{}'')],
     iv_again = (\<lambda>p. if p = ''SKILL.md'' then Some sample_skill_md else Some ''{}''),
     iv_recheck = sample_source\<rparr>"

definition sample_md_file :: skill_file where
  "sample_md_file = \<lparr>fe_path = ''SKILL.md'', fe_sha256 = replicate 64 CHR ''a'', fe_size = length sample_skill_md, fe_class = Class_skill_md\<rparr>"

definition sample_manifest_file :: skill_file where
  "sample_manifest_file = \<lparr>fe_path = ''omni-skill.json'', fe_sha256 = replicate 64 CHR ''a'', fe_size = 2, fe_class = Class_omni_manifest\<rparr>"

lemma sample_paths:
  "normalize_relative_path ''SKILL.md'' = Some ''SKILL.md''" "normalize_relative_path ''omni-skill.json'' = Some ''omni-skill.json''"
  "normalize_relative_path ''node_modules'' = Some ''node_modules''"
  by (simp_all add: normalize_Some list_all_iff is_upper_def is_lower_def path_control_def drive_letter_def slash_char_def code_def)

lemma sample_classes:
  "skill_md_path ''SKILL.md''" "\<not> skill_md_path ''omni-skill.json''" "omni_manifest_path ''omni-skill.json''"
  "\<not> omni_manifest_path ''SKILL.md''" "case_folded_path_key ''SKILL.md'' \<noteq> case_folded_path_key ''omni-skill.json''"
  by code_simp+

lemma sample_length: "length sample_skill_md = 31"
  by (simp add: sample_skill_md_def)

lemma sample_enumeration:
  "enumerate_source_files sample_env default_package_limits sample_source =
     Inr ([(sample_md_file, sample_skill_md), (sample_manifest_file, ''{}'')], [Ignored_directory ''node_modules'' ''node_modules''])"
proof -
  let ?st = "\<lparr>ws_stack = [([], 0, sample_source)], ws_files = [], ws_warnings = [], ws_total = 0\<rparr>"
  have ig: "''node_modules'' \<in> set ignored_directory_names" by (simp add: ignored_directory_names_def)
  have scan: "scan_entries sample_env default_package_limits [] 0 sample_source (?st\<lparr>ws_stack := []\<rparr>) =
      Inr \<lparr>ws_stack = [], ws_files = [(sample_manifest_file, ''{}''), (sample_md_file, sample_skill_md)],
        ws_warnings = [Ignored_directory ''node_modules'' ''node_modules''], ws_total = 33\<rparr>"
    by (simp add: sample_source_def scan_entry_def relative_from_def sample_paths ig scan_file_def check_def
        per_file_limit_def sample_classes classify_file_def default_package_limits_def sample_length Let_def
        sample_md_file_def sample_manifest_file_def sample_env_def)
  have walk: "walk_source sample_env default_package_limits ?st = Inr \<lparr>ws_stack = [],
      ws_files = [(sample_manifest_file, ''{}''), (sample_md_file, sample_skill_md)],
      ws_warnings = [Ignored_directory ''node_modules'' ''node_modules''], ws_total = 33\<rparr>"
    by (subst walk_source.simps) (use scan in \<open>simp add: walk_source.simps\<close>)
  have "sort_by file_le [(sample_manifest_file, ''{}''), (sample_md_file, sample_skill_md)] =
      [(sample_md_file, sample_skill_md), (sample_manifest_file, ''{}'')]"
    by (simp add: sort_by_def file_le_def path_le_def sample_md_file_def sample_manifest_file_def)
  moreover have "find_case_folded_path_collisions [''SKILL.md'', ''omni-skill.json''] = []"
    using sample_classes(5) by (simp add: no_collisions)
  ultimately show ?thesis
    by (simp add: enumerate_source_files_def walk Let_def check_def)
      (simp add: sample_md_file_def sample_manifest_file_def)
qed

lemma enumeration_exact_witness:
  "collected [] sample_source = {(''SKILL.md'', sample_skill_md), (''omni-skill.json'', ''{}'')} \<and>
   acceptable default_package_limits 0 sample_source"
  using enumeration_exact [OF sample_enumeration]
  by (auto simp: path_and_bytes_def sample_md_file_def sample_manifest_file_def)

definition sample_package_digest :: string where
  "sample_package_digest = replicate 64 CHR ''a''"

definition sample_package :: imported_package where
  "sample_package = package_of sample_env ''/src'' ''/src'' [(sample_md_file, sample_skill_md), (sample_manifest_file, ''{}'')]
     [Ignored_directory ''node_modules'' ''node_modules'']
     \<lparr>fm_name = ''branch-work'', fm_description = ''Branch work'', fm_vendor = [(''license'', JStr ''MIT'')], fm_unknown = [''zeta'']\<rparr>"

lemma sample_package_hex: "ie_sha sample_env b = sample_package_digest" "compute_package_digest (ie_sha sample_env) fs = sample_package_digest"
  by (simp_all add: sample_env_def compute_package_digest_def sha256_hex_def sample_package_digest_def)

lemma sample_walk: "walk_destination (ie_sha sample_env) (iv_written sample_views) =
    Inr [sample_md_file\<lparr>fe_class := Class_text\<rparr>, sample_manifest_file\<lparr>fe_class := Class_text\<rparr>]"
proof -
  have "dest_entries (ie_sha sample_env) [] (iv_written sample_views) \<lparr>ds_stack = [], ds_files = []\<rparr> = Inr \<lparr>ds_stack = [],
      ds_files = [sample_md_file\<lparr>fe_class := Class_text\<rparr>, sample_manifest_file\<lparr>fe_class := Class_text\<rparr>]\<rparr>"
    by (simp add: sample_views_def dest_entry_def sample_paths sample_md_file_def sample_manifest_file_def sample_env_def)
  then show ?thesis
    unfolding walk_destination_def by (subst walk_destination_loop.simps) (simp add: walk_destination_loop.simps)
qed

lemma sample_matches: "assert_destination_matches (ie_sha sample_env) [sample_md_file, sample_manifest_file] (iv_written sample_views) = Inr ()"
  by (simp add: assert_destination_matches_def sample_walk check_def file_index_def)
    (simp add: sample_md_file_def sample_manifest_file_def)

lemma sample_contained: "snapshot_contained sample_env sample_package_digest"
proof -
  have "split_on slash_char (replicate n CHR ''a'') = [replicate n CHR ''a'']" for n
    by (induction n) (simp_all add: slash_char_def)
  then have "split_on slash_char sample_package_digest = [sample_package_digest]" by (simp add: sample_package_digest_def)
  moreover have "sample_package_digest \<noteq> []" "sample_package_digest \<noteq> ''.''" "sample_package_digest \<noteq> ''..''" by code_simp+
  ultimately show ?thesis
    by (simp add: snapshot_contained_def is_path_inside_root_def resolve_segments_def sample_env_def)
qed

lemma sample_reads: "read_all_checked sample_env (iv_copy sample_views) [sample_md_file, sample_manifest_file] = Inr ()"
  "read_all_checked sample_env (iv_again sample_views) [sample_md_file, sample_manifest_file] = Inr ()"
  by (simp_all add: read_source_checked_def sample_views_def sample_md_file_def sample_manifest_file_def sample_env_def)

lemma sample_materialize:
  "managed sample_package_digest = None \<Longrightarrow>
   materialize_snapshot sample_env (sample_views\<lparr>iv_recheck := again\<rparr>) sample_package_digest [sample_md_file, sample_manifest_file] managed =
     (Inr (), managed(sample_package_digest := Some (iv_written sample_views)))"
  "managed sample_package_digest = Some (iv_written sample_views) \<Longrightarrow>
   materialize_snapshot sample_env (sample_views\<lparr>iv_recheck := again\<rparr>) sample_package_digest [sample_md_file, sample_manifest_file] managed =
     (Inr (), managed)"
  using sample_reads by (simp_all add: materialize_snapshot_def sample_contained sample_matches)

lemma sample_md_decoded: "parse_skill_frontmatter (ie_yaml sample_env) (ie_decode sample_env sample_skill_md) =
    Inr \<lparr>fm_name = ''branch-work'', fm_description = ''Branch work'', fm_vendor = [(''license'', JStr ''MIT'')], fm_unknown = [''zeta'']\<rparr>"
  using sample_frontmatter by (simp add: sample_env_def)

lemma sample_import_unfolds:
  "import_skill_package sample_env default_package_limits (sample_views\<lparr>iv_recheck := again\<rparr>) ''/src'' ''/src'' managed =
   snapshot_and_recheck sample_env default_package_limits (sample_views\<lparr>iv_recheck := again\<rparr>) sample_package sample_package_digest managed"
proof -
  have "skill_md_path (fe_path sample_md_file)" using sample_classes(1) by (simp add: sample_md_file_def)
  moreover have "iv_source (sample_views\<lparr>iv_recheck := again\<rparr>) = Some sample_source"
    "iv_managed_ready (sample_views\<lparr>iv_recheck := again\<rparr>)" by (simp_all add: sample_views_def)
  ultimately show ?thesis
    by (simp add: import_skill_package_def sample_enumeration sample_md_decoded sample_package_hex sample_package_def)
qed

lemma sample_package_files: "ip_files sample_package = [sample_md_file, sample_manifest_file]"
  by (simp add: sample_package_def package_of_fields)

lemma sample_import:
  "import_skill_package sample_env default_package_limits sample_views ''/src'' ''/src'' (\<lambda>d. None) =
     (Inr sample_package, (\<lambda>d. None)(sample_package_digest := Some (iv_written sample_views)))"
proof -
  have eq: "sample_views\<lparr>iv_recheck := sample_source\<rparr> = sample_views"
    by (simp add: sample_views_def)
  have "import_skill_package sample_env default_package_limits (sample_views\<lparr>iv_recheck := sample_source\<rparr>) ''/src'' ''/src'' (\<lambda>d. None) =
     (Inr sample_package, (\<lambda>d. None)(sample_package_digest := Some (iv_written sample_views)))"
    by (simp add: sample_import_unfolds snapshot_and_recheck_def sample_package_files sample_enumeration
        sample_materialize(1) [of "\<lambda>d. None"])
  then show ?thesis unfolding eq .
qed

lemma imported_snapshot_verified_witness:
  "\<exists>d dest actual. ip_package_digest sample_package = Some d \<and>
     walk_destination (ie_sha sample_env) dest = Inr actual \<and> file_index actual = file_index (ip_files sample_package)"
proof -
  have "ip_failure sample_package = None" by (simp add: sample_package_def package_of_fields)
  from imported_snapshot_verified [OF sample_import this] obtain d dest actual where
    "ip_package_digest sample_package = Some d" "walk_destination (ie_sha sample_env) dest = Inr actual"
    "file_index actual = file_index (ip_files sample_package)" by blast
  then show ?thesis by blast
qed

text \<open>A failure of the second listing leaves the import as an exception, although the import is meant to
  report every problem of a package in its result; the new snapshot stays behind.\<close>

lemma recheck_failure_is_thrown:
  "import_skill_package sample_env default_package_limits (sample_views\<lparr>iv_recheck := [(''SKILL.md'', Link)]\<rparr>) ''/src'' ''/src'' (\<lambda>d. None) =
     (Inl (Package_failure_thrown PACKAGE_PATH_ESCAPE), (\<lambda>d. None)(sample_package_digest := Some (iv_written sample_views)))"
proof -
  have "enumerate_source_files sample_env default_package_limits [(''SKILL.md'', Link)] = Inl PACKAGE_PATH_ESCAPE"
    by (simp add: enumerate_source_files_def, subst walk_source.simps)
      (simp add: scan_entry_def relative_from_def sample_paths)
  then show ?thesis
    by (simp add: sample_import_unfolds snapshot_and_recheck_def sample_package_files sample_materialize(1))
qed

text \<open>An import that notices a file added to the source removes the snapshot under its digest, also
  when that snapshot was there before and belongs to a skill registered earlier.\<close>

lemma changed_reimport_removes_snapshot:
  assumes "managed sample_package_digest = Some (iv_written sample_views)"
  shows "import_skill_package sample_env default_package_limits (sample_views\<lparr>iv_recheck := (''new.txt'', File True 0 []) # sample_source\<rparr>)
      ''/src'' ''/src'' managed = (Inr (reject_failure PACKAGE_CHANGED_DURING_IMPORT), managed(sample_package_digest := None))"
proof -
  let ?again = "(''new.txt'', File True 0 []) # sample_source"
  have "\<exists>files w. enumerate_source_files sample_env default_package_limits ?again = Inr (files, w) \<and> length files = 3 \<and>
      distinct (map (case_folded_path_key \<circ> fe_path \<circ> fst) files)"
  proof -
    let ?st = "\<lparr>ws_stack = [([], 0, ?again)], ws_files = [], ws_warnings = [], ws_total = 0\<rparr>"
    let ?new = "(\<lparr>fe_path = ''new.txt'', fe_sha256 = sample_package_digest, fe_size = 0, fe_class = Class_text\<rparr>, [])"
    let ?found = "[?new, (sample_manifest_file, ''{}''), (sample_md_file, sample_skill_md)]"
    have new: "normalize_relative_path ''new.txt'' = Some ''new.txt''"
      by (simp add: normalize_Some is_upper_def is_lower_def path_control_def drive_letter_def slash_char_def code_def)
    have cls: "\<not> skill_md_path ''new.txt''" "\<not> omni_manifest_path ''new.txt''" "classify_file ''new.txt'' [] = Class_text" by code_simp+
    have ig: "''node_modules'' \<in> set ignored_directory_names" by (simp add: ignored_directory_names_def)
    have scan: "scan_entries sample_env default_package_limits [] 0 ?again (?st\<lparr>ws_stack := []\<rparr>) =
        Inr \<lparr>ws_stack = [], ws_files = ?found, ws_warnings = [Ignored_directory ''node_modules'' ''node_modules''], ws_total = 33\<rparr>"
      by (simp add: sample_source_def scan_entry_def relative_from_def sample_paths new cls ig scan_file_def check_def
        per_file_limit_def sample_classes default_package_limits_def sample_length Let_def sample_package_hex)
        (simp add: sample_md_file_def sample_manifest_file_def classify_file_def sample_classes sample_length sample_package_digest_def)
    have walk: "walk_source sample_env default_package_limits ?st = Inr \<lparr>ws_stack = [], ws_files = ?found,
        ws_warnings = [Ignored_directory ''node_modules'' ''node_modules''], ws_total = 33\<rparr>"
      by (subst walk_source.simps) (use scan in \<open>simp add: walk_source.simps\<close>)
    have d: "distinct (map (case_folded_path_key \<circ> fe_path \<circ> fst) ?found)"
    proof -
      have "distinct (map case_folded_path_key [''new.txt'', ''omni-skill.json'', ''SKILL.md''])" by code_simp
      then show ?thesis by (simp add: sample_manifest_file_def sample_md_file_def)
    qed
    then have "distinct (map (case_folded_path_key \<circ> fe_path \<circ> fst) (sort_by file_le ?found))" by (simp only: distinct_sort_by)
    moreover from this have "find_case_folded_path_collisions (map (fe_path \<circ> fst) (sort_by file_le ?found)) = []"
      by (simp only: no_collisions map_map comp_assoc)
    ultimately show ?thesis
      by (simp add: enumerate_source_files_def walk Let_def check_def del: map_map)
  qed
  then obtain files w where e: "enumerate_source_files sample_env default_package_limits ?again = Inr (files, w)"
    "length files = 3" "distinct (map fe_path (map fst files))" using distinct_paths by blast
  have "card (set (map (fe_path \<circ> fst) files)) = 3"
    using e(2) distinct_card [OF e(3)] by simp
  moreover have "card (set (map fe_path [sample_md_file, sample_manifest_file])) \<le> 2"
    using card_length [of "map fe_path [sample_md_file, sample_manifest_file]"] by simp
  ultimately show ?thesis
    by (simp add: sample_import_unfolds snapshot_and_recheck_def sample_package_files sample_materialize(2) [of managed, OF assms] e(1)
        remove_snapshot_tree_def sample_contained)
qed

end
