(* ===== verification/Skill_Service.thy ===== *)
theory Skill_Service
  imports Skill_Registry_Store Skill_Import
begin

text \<open>
  The bridge between the importer and the registry
  (\<open>src/brain-server/src/skills/skill-package-registry-service.ts\<close>): importing a package into the
  registry and resolving a skill for use. The registry is its map of records; whether a write of
  its store follows is part of the result, as in \<open>Skill_Registry\<close>.
\<close>

section \<open>Importing\<close>

datatype bridge_status =
    Registered_quarantined | Not_registered import_status | Import_failed | Registration_rejected

datatype bridge_error = Import_error package_failure | Registry_error skill_error

record bridge_result =
  br_status :: bridge_status
  br_imported :: imported_package
  br_record :: "skill_record option"
  br_error :: "bridge_error option"

datatype service_exception = Importer_threw import_exception | Registry_threw "skill_error throws"

definition registration_of :: "imported_package \<Rightarrow> skill_manifest \<Rightarrow> string \<Rightarrow> string \<Rightarrow> skill_registration" where
  "registration_of p man d md = \<lparr>ri_manifest = man, ri_package_digest = d, ri_manifest_digest = md,
     ri_source_type = Imported_skill, ri_source_id = ip_canonical p, ri_source_reference = Some (ip_requested p)\<rparr>"

definition register_imported :: "registry_config \<Rightarrow> (nat \<Rightarrow> string) \<Rightarrow> imported_package \<Rightarrow> skill_manifest \<Rightarrow> string \<Rightarrow> string \<Rightarrow>
    skill_map \<Rightarrow> (service_exception + bridge_result) \<times> skill_map \<times> bool" where
  "register_imported cfg now p man d md m = (let pre = skill_get m (sm_name man) (sm_version man) in
     case register cfg now (Shaped (registration_of p man d md)) m of
       Inl (Throws e) \<Rightarrow> (Inr \<lparr>br_status = Registration_rejected, br_imported = p, br_record = None,
         br_error = Some (Registry_error e)\<rparr>, m, False)
     | Inl e \<Rightarrow> (Inl (Registry_threw e), m, False)
     | Inr (r, m', w) \<Rightarrow>
         if pre = None \<and> sr_trust r \<noteq> Quarantined
         then (Inr \<lparr>br_status = Registration_rejected, br_imported = p, br_record = None,
           br_error = Some (Registry_error SKILL_INPUT_INVALID)\<rparr>, m', w)
         else (Inr \<lparr>br_status = Registered_quarantined, br_imported = p, br_record = Some r, br_error = None\<rparr>, m', w))"

definition bridge_imported :: "registry_config \<Rightarrow> (nat \<Rightarrow> string) \<Rightarrow> imported_package \<Rightarrow> skill_map \<Rightarrow>
    (service_exception + bridge_result) \<times> skill_map \<times> bool" where
  "bridge_imported cfg now p m = (case ip_failure p of
     Some c \<Rightarrow> (Inr \<lparr>br_status = Import_failed, br_imported = p, br_record = None, br_error = Some (Import_error c)\<rparr>, m, False)
   | None \<Rightarrow> (case (ip_manifest p, ip_package_digest p, ip_manifest_digest p) of
       (Some man, Some d, Some md) \<Rightarrow>
         if ip_status p = Ready_for_validation \<and> d \<noteq> [] \<and> md \<noteq> [] then register_imported cfg now p man d md m
         else (Inr \<lparr>br_status = Not_registered (ip_status p), br_imported = p, br_record = None, br_error = None\<rparr>, m, False)
     | _ \<Rightarrow> (Inr \<lparr>br_status = Not_registered (ip_status p), br_imported = p, br_record = None, br_error = None\<rparr>, m, False)))"

definition service_import :: "import_env \<Rightarrow> import_views \<Rightarrow> registry_config \<Rightarrow> (nat \<Rightarrow> string) \<Rightarrow>
    string \<Rightarrow> string \<Rightarrow> skill_map \<Rightarrow> managed_root \<Rightarrow>
    ((service_exception + bridge_result) \<times> skill_map \<times> bool) \<times> managed_root" where
  "service_import env v cfg now requested canonical m managed =
     (case import_skill_package env default_package_limits v requested canonical managed of
        (Inl x, managed') \<Rightarrow> ((Inl (Importer_threw x), m, False), managed')
      | (Inr p, managed') \<Rightarrow> (bridge_imported cfg now p m, managed'))"

section \<open>Resolving\<close>

definition resolve_skill_for_use :: "registry_config \<Rightarrow> import_env \<Rightarrow> skill_map \<Rightarrow> managed_root \<Rightarrow> string \<Rightarrow> string option \<Rightarrow>
    (skill_record \<times> skill_file list) skill_result" where
  "resolve_skill_for_use cfg env m managed name version =
     (case (case version of
              Some v \<Rightarrow> if v \<noteq> [] then skill_get m name v else resolve_latest_trusted cfg m name
            | None \<Rightarrow> resolve_latest_trusted cfg m name) of
        None \<Rightarrow> Inl (Throws (if list_versions m name \<noteq> [] then SKILL_NOT_ELIGIBLE else SKILL_NOT_FOUND))
      | Some r \<Rightarrow>
          ebind (guarded (eligible_for_use r (rc_lookup cfg)) SKILL_NOT_ELIGIBLE) (\<lambda>_.
          case verify_managed_snapshot env managed (sr_package_digest r) of
            Inl e \<Rightarrow> Inl (Throws SKILL_PACKAGE_INTEGRITY_FAILURE)
          | Inr files \<Rightarrow> Inr (r, files)))"

section \<open>Imports and trust\<close>

lemma default_trust_imported:
  "ri_source_type i = Imported_skill \<Longrightarrow> fst (default_trust cfg now i) = Quarantined"
  by (simp add: default_trust_def Let_def)

lemma registration_source: "parse_registration (registration_of p man d md) = Some i \<Longrightarrow> ri_source_type i = Imported_skill"
  by (auto simp: parse_registration_def parse_with_Some norm_registration_def registration_of_def)

lemma register_imported_effect:
  assumes "register cfg now (Shaped (registration_of p man d md)) m = Inr (r, m', w)"
  shows "(m' = m \<and> skill_get m (sm_name man) (sm_version man) = Some r \<and> sr_package_digest r = d) \<or>
    (skill_get m (sm_name man) (sm_version man) = None \<and> m' = map_set (skill_record_key (sm_name man) (sm_version man)) r m \<and>
     sr_trust r = Quarantined \<and> sr_source_type r = Imported_skill \<and> sr_package_digest r = d)"
proof -
  have i: "parse_registration (registration_of p man d md) = Some i \<Longrightarrow>
      ri_manifest i = norm_manifest man \<and> ri_package_digest i = d" for i
    by (auto simp: parse_registration_def parse_with_Some norm_registration_def registration_of_def)
  have n: "sm_name (norm_manifest man) = sm_name man" "sm_version (norm_manifest man) = sm_version man"
    by (simp_all add: norm_manifest_def)
  have "registry_call cfg now (Register (Shaped (registration_of p man d md))) m = Inr (r, m', w)" using assms by simp
  then show ?thesis
  proof (cases rule: registry_call_cases)
    case (same x k)
    then show ?thesis using i [of k] n by auto
  next
    case (new x k)
    then have "sr_trust r = Quarantined" "sr_source_type r = Imported_skill"
      using registration_source [of p man d md k] default_trust_imported [of k cfg now] by (auto simp: new_record_def Let_def)
    then show ?thesis using new i [of k] n by auto
  qed auto
qed

text \<open>Importing a package never grants trust. Whatever the package contains and whatever the policy
  for built-in skills says, an import leaves every registered record as it was and adds at most one,
  quarantined, marked as imported and not eligible for use.\<close>

lemma imports_never_grant_trust:
  assumes "service_import env v cfg now requested canonical m managed = ((res, m', w), managed')"
  shows "(\<forall>k r. map_get m k = Some r \<longrightarrow> map_get m' k = Some r) \<and>
    (\<forall>k r. map_get m' k = Some r \<longrightarrow> map_get m k = Some r \<or>
       (map_get m k = None \<and> sr_trust r = Quarantined \<and> sr_source_type r = Imported_skill \<and> \<not> eligible_for_use r look))"
proof -
  consider "m' = m" | p man d md r where
      "register cfg now (Shaped (registration_of p man d md)) m = Inr (r, m', w)"
    using assms
    by (auto simp: service_import_def bridge_imported_def register_imported_def Let_def
        split: prod.splits sum.splits option.splits throws.splits if_splits)
  then show ?thesis
  proof cases
    case (2 p man d md r)
    show ?thesis
      using register_imported_effect [OF 2]
      by (auto simp: map_get_set skill_get_def eligible_conditions split: if_splits)
  qed auto
qed

section \<open>Resolving an imported skill\<close>

lemma dest_entries_listable:
  assumes "digest_like sha" "dest_entries sha dir es st = Inr st'" "list_all listable (ds_files st)"
  shows "list_all listable (ds_files st')"
  using assms(2,3)
proof (induction es arbitrary: st)
  case (Cons e es)
  obtain name node where e: "e = (name, node)" by (cases e)
  obtain s1 where s1: "dest_entry sha dir name node st = Inr s1" "dest_entries sha dir es s1 = Inr st'"
    using Cons.prems(1) by (auto simp: e ebind_Inr_iff)
  have "list_all listable (ds_files s1)"
  proof (cases node)
    case (File inside sz bytes)
    then obtain p where p: "normalize_relative_path (js_join ''/'' (dir @ [name])) = Some p"
      "s1 = st\<lparr>ds_files := ds_files st @ [\<lparr>fe_path = p, fe_sha256 = sha bytes, fe_size = length bytes, fe_class = Class_text\<rparr>]\<rparr>"
      using s1(1) by (auto simp: dest_entry_def split: option.splits)
    from p(1) normalize_same have "normalize_relative_path p = Some p" by metis
    then have "listable \<lparr>fe_path = p, fe_sha256 = sha bytes, fe_size = length bytes, fe_class = Class_text\<rparr>"
      using assms(1) by (simp add: listable_def digest_like_def)
    then show ?thesis using p(2) Cons.prems(2) by simp
  qed (use s1(1) Cons.prems(2) in \<open>auto simp: dest_entry_def\<close>)
  then show ?case by (rule Cons.IH [OF s1(2)])
qed simp

lemma walk_destination_listable:
  assumes "digest_like sha" "walk_destination sha dest = Inr files" shows "list_all listable files"
proof -
  have "walk_destination_loop sha st = Inr files \<Longrightarrow> digest_like sha \<Longrightarrow> list_all listable (ds_files st) \<Longrightarrow> list_all listable files" for sha st
  proof (induction sha st rule: walk_destination_loop.induct)
    case (1 sha st)
    show ?case
    proof (cases "ds_stack st")
      case Nil
      then show ?thesis using 1(2,4) by (subst (asm) walk_destination_loop.simps) simp
    next
      case (Cons top rest)
      obtain dir es where top: "top = (dir, es)" by (cases top)
      obtain s1 where s1: "dest_entries sha dir es (st\<lparr>ds_stack := rest\<rparr>) = Inr s1" "walk_destination_loop sha s1 = Inr files"
        using 1(2) Cons top by (subst (asm) walk_destination_loop.simps) (auto split: sum.splits)
      show ?thesis
        using 1(1) [OF Cons _ s1] dest_entries_listable [OF 1(3) s1(1)] 1(3,4) top by simp
    qed
  qed
  from this [of sha] show ?thesis using assms by (simp add: walk_destination_def)
qed

lemma imported_files_listable:
  assumes "digest_like (ie_sha env)" "import_skill_package env lims v req canon managed = (Inr p, managed')" "ip_failure p = None"
  shows "list_all listable (ip_files p)" "ip_package_digest p = Some (compute_package_digest (ie_sha env) (ip_files p))"
proof -
  obtain root files w fm where i: "enumerate_source_files env lims root = Inr (files, w)"
    "p = package_of env req canon files w fm" using import_succeeds [OF assms(2,3)] by metis
  show "list_all listable (ip_files p)"
    using enumerated_files(1) [OF i(1)] assms(1)
    by (auto simp: i(2) package_of_fields list_all_iff source_file_ok_def listable_def digest_like_def)
  show "ip_package_digest p = Some (compute_package_digest (ie_sha env) (ip_files p))" by (simp add: i(2) package_of_fields)
qed

lemma service_registered:
  assumes "service_import env v cfg now requested canonical m managed = ((Inr b, m', w), managed')"
    and "br_status b = Registered_quarantined"
  obtains r where "br_record b = Some r" "ip_failure (br_imported b) = None"
    "ip_package_digest (br_imported b) = Some (sr_package_digest r)"
    "import_skill_package env default_package_limits v requested canonical managed = (Inr (br_imported b), managed')"
proof -
  obtain p man d md r where p: "import_skill_package env default_package_limits v requested canonical managed = (Inr p, managed')"
    "ip_failure p = None" "ip_package_digest p = Some d" "b = \<lparr>br_status = Registered_quarantined, br_imported = p, br_record = Some r, br_error = None\<rparr>"
    "register cfg now (Shaped (registration_of p man d md)) m = Inr (r, m', w)"
    using assms
    by (auto simp: service_import_def bridge_imported_def register_imported_def Let_def
        split: prod.splits sum.splits option.splits throws.splits if_splits)
  then have "sr_package_digest r = d" using register_imported_effect [OF p(5)] by auto
  then show ?thesis using p that by auto
qed

lemma resolve_succeeds:
  assumes "resolve_skill_for_use cfg env m managed name version = Inr (r, files)"
  obtains dest where "eligible_for_use r (rc_lookup cfg)" "managed (sr_package_digest r) = Some dest"
    "walk_destination (ie_sha env) dest = Inr files"
    "compute_package_digest (ie_sha env) files = sr_package_digest r"
  using assms
  by (auto simp: resolve_skill_for_use_def verify_managed_snapshot_def ebind_Inr_iff
      split: option.splits sum.splits if_splits)

text \<open>C17: What is resolved for use is what was imported. Suppose an import was answered with the status registered as
  quarantined, and gave the record of the skill (a new one, or the one that was already there). Suppose that later, in
  whatever state the registry and the managed directories then are, resolving some skill returns a record and a list
  of files, and that record has the package digest of the record the import gave. Then the record is eligible for use
  under the capability lookup of that time, and the files that were returned have exactly the paths, sizes and content digests of the files that
  the import inspected. This holds for a hash function that returns hex digests, unless it maps the listing
  texts of the two different file lists to the same digest.\<close>

theorem resolved_files_are_imported:
  assumes "service_import env v cfg0 now requested canonical m0 managed0 = ((Inr b, m1, w), managed1)"
    and "br_status b = Registered_quarantined" "br_record b = Some r0"
    and "resolve_skill_for_use cfg env m managed name version = Inr (r, files)"
    and "sr_package_digest r = sr_package_digest r0"
    and "digest_like (ie_sha env)"
    and "\<not> collision (ie_sha env) (utf8 (package_listing files)) (utf8 (package_listing (ip_files (br_imported b))))"
  shows "eligible_for_use r (rc_lookup cfg) \<and>
    map listed (sort_by path_le files) = map listed (sort_by path_le (ip_files (br_imported b)))"
proof -
  have i: "ip_failure (br_imported b) = None" "ip_package_digest (br_imported b) = Some (sr_package_digest r0)"
    "import_skill_package env default_package_limits v requested canonical managed0 = (Inr (br_imported b), managed1)"
    using service_registered [OF assms(1,2)] assms(3) by (metis option.inject)+
  note imp = imported_files_listable [OF assms(6) i(3) i(1)]
  obtain dest where res: "eligible_for_use r (rc_lookup cfg)" "walk_destination (ie_sha env) dest = Inr files"
    "compute_package_digest (ie_sha env) files = sr_package_digest r"
    using resolve_succeeds [OF assms(4)] by metis
  have "compute_package_digest (ie_sha env) files = compute_package_digest (ie_sha env) (ip_files (br_imported b))"
    using res(3) imp(2) i(2) assms(5) by simp
  then have "package_listing files = package_listing (ip_files (br_imported b))"
    using assms(7) by (auto simp: compute_package_digest_def sha256_hex_def collision_def dest: utf8_inj)
  then have "map listed (sort_by path_le files) = map listed (sort_by path_le (ip_files (br_imported b)))"
    by (rule listing_text_inj [OF walk_destination_listable [OF assms(6) res(2)] imp(1)])
  then show ?thesis using res(1) by simp
qed

section \<open>A sample import\<close>

definition sample_imported_registration :: skill_registration where
  "sample_imported_registration = registration_of sample_package sample_manifest sample_package_digest sample_package_digest"

definition sample_imported_record :: skill_record where
  "sample_imported_record = new_record sample_registry_config sample_clock sample_imported_registration"

lemma sample_package_manifest:
  "ip_manifest sample_package = Some sample_manifest" "ip_package_digest sample_package = Some sample_package_digest"
  "ip_manifest_digest sample_package = Some sample_package_digest" "ip_status sample_package = Ready_for_validation"
  "ip_failure sample_package = None"
proof -
  have m: "\<not> omni_manifest_path (fe_path sample_md_file)" "omni_manifest_path (fe_path sample_manifest_file)"
    using sample_classes by (simp_all add: sample_md_file_def sample_manifest_file_def)
  have p: "parse_manifest_file sample_env b = Some sample_manifest" for b
    using sample_manifest_parses by (simp add: parse_manifest_file_def sample_env_def)
  show "ip_manifest sample_package = Some sample_manifest" "ip_manifest_digest sample_package = Some sample_package_digest"
    using m p sample_package_hex(1) by (simp_all add: sample_package_def package_of_def Let_def compute_manifest_digest_def split: prod.splits)
  then show "ip_status sample_package = Ready_for_validation"
    by (simp add: sample_package_def package_of_fields) (simp add: sample_manifest_def)
  show "ip_package_digest sample_package = Some sample_package_digest" "ip_failure sample_package = None"
    by (simp_all add: sample_package_def package_of_fields sample_package_hex)
qed

lemma sample_imported_inputs:
  "parse_registration sample_imported_registration = Some sample_imported_registration"
  "manifest_issues (ri_manifest sample_imported_registration) (rc_lookup sample_registry_config) = []"
proof -
  have m: "sample_manifest\<lparr>sm_version := ''1.10.0''\<rparr> = sample_manifest" by (simp add: sample_manifest_def)
  have i: "sample_imported_registration = (sample_registration ''1.10.0'')\<lparr>ri_source_id := ''/src'', ri_source_reference := Some ''/src''\<rparr>"
    using m by (simp add: sample_imported_registration_def registration_of_def sample_registration_def sample_package_digest_def
        sample_skill_digest_def sample_package_def package_of_def Let_def split: prod.splits)
  have "parse_registration ((sample_registration ''1.10.0'')\<lparr>ri_source_id := ''/src'', ri_source_reference := Some ''/src''\<rparr>) =
      Some ((sample_registration ''1.10.0'')\<lparr>ri_source_id := ''/src'', ri_source_reference := Some ''/src''\<rparr>)" by code_simp
  then show "parse_registration sample_imported_registration = Some sample_imported_registration" unfolding i .
  show "manifest_issues (ri_manifest sample_imported_registration) (rc_lookup sample_registry_config) = []"
    using sample_issues [of "''1.10.0''"] by (simp add: i)
qed

lemma sample_imported_key: "skill_record_key (sm_name (ri_manifest sample_imported_registration)) (sm_version (ri_manifest sample_imported_registration)) =
    ''branch-work@1.10.0''"
  by (simp add: sample_imported_registration_def registration_of_def sample_manifest_def skill_record_key_def)

definition sample_managed :: managed_root where
  "sample_managed = (\<lambda>d. None)(sample_package_digest := Some (iv_written sample_views))"

lemma sample_service_import:
  "service_import sample_env sample_views sample_registry_config sample_clock ''/src'' ''/src'' [] (\<lambda>d. None) =
     ((Inr \<lparr>br_status = Registered_quarantined, br_imported = sample_package, br_record = Some sample_imported_record, br_error = None\<rparr>,
       [(''branch-work@1.10.0'', sample_imported_record)], True), sample_managed)"
proof -
  have reg: "register sample_registry_config sample_clock (Shaped sample_imported_registration) [] =
      Inr (sample_imported_record, [(''branch-work@1.10.0'', sample_imported_record)], True)"
    using register_new [OF sample_imported_inputs, of "[]" sample_clock] by (simp add: sample_imported_key sample_imported_record_def)
  have "sr_trust sample_imported_record = Quarantined"
    by (simp add: sample_imported_record_def new_record_def default_trust_def Let_def sample_imported_registration_def registration_of_def)
  moreover have "sample_package_digest \<noteq> []" by (simp add: sample_package_digest_def)
  ultimately show ?thesis
    using reg sample_package_manifest sample_import
    by (simp add: service_import_def bridge_imported_def register_imported_def sample_imported_registration_def skill_get_def sample_managed_def)
qed

definition sample_promoted :: skill_record where
  "sample_promoted = promote sample_clock owner_decision sample_imported_record"

lemma sample_promoted_usable: "eligible_for_use sample_promoted sample_lookup" "sr_package_digest sample_promoted = sample_package_digest"
proof -
  have "sha256_hex_ok sample_package_digest" by code_simp
  moreover have "list_all (\<lambda>i. sample_lookup i \<noteq> None) (sm_capabilities sample_manifest)" "sm_capabilities sample_manifest \<noteq> []"
    by (simp_all add: sample_manifest_def sample_lookup_def)
  ultimately show "eligible_for_use sample_promoted sample_lookup"
    using sample_manifest_inherits
    by (simp add: eligible_conditions sample_promoted_def promote_def sample_imported_record_def new_record_def Let_def
        sample_imported_registration_def registration_of_def)
  show "sr_package_digest sample_promoted = sample_package_digest"
    by (simp add: sample_promoted_def promote_def sample_imported_record_def new_record_def Let_def
        sample_imported_registration_def registration_of_def)
qed

lemma sample_resolved:
  "resolve_skill_for_use sample_registry_config sample_env [(''branch-work@1.10.0'', sample_promoted)] sample_managed ''branch-work'' (Some ''1.10.0'') =
     Inr (sample_promoted, [sample_md_file\<lparr>fe_class := Class_text\<rparr>, sample_manifest_file\<lparr>fe_class := Class_text\<rparr>])"
  using sample_promoted_usable sample_contained sample_walk sample_package_hex
  by (simp add: resolve_skill_for_use_def skill_get_def skill_record_key_def verify_managed_snapshot_def sample_managed_def check_def
      sample_registry_config_def)

lemma resolved_files_are_imported_witness:
  "\<exists>files. resolve_skill_for_use sample_registry_config sample_env [(''branch-work@1.10.0'', sample_promoted)] sample_managed
       ''branch-work'' (Some ''1.10.0'') = Inr (sample_promoted, files) \<and>
     map listed (sort_by path_le files) = map listed (sort_by path_le [sample_md_file, sample_manifest_file])"
proof -
  let ?files = "[sample_md_file\<lparr>fe_class := Class_text\<rparr>, sample_manifest_file\<lparr>fe_class := Class_text\<rparr>]"
  have d: "digest_like (ie_sha sample_env)"
    unfolding digest_like_def sample_package_hex(1) by (intro allI) code_simp
  have "package_listing ?files = package_listing [sample_md_file, sample_manifest_file]"
    by (simp add: package_listing_def sort_by_def path_le_def listing_line_def sample_md_file_def sample_manifest_file_def)
  then have c: "\<not> collision (ie_sha sample_env) (utf8 (package_listing ?files))
      (utf8 (package_listing (ip_files (br_imported \<lparr>br_status = Registered_quarantined, br_imported = sample_package,
        br_record = Some sample_imported_record, br_error = None\<rparr>))))"
    by (simp add: collision_def sample_package_files)
  have p: "sr_package_digest sample_promoted = sr_package_digest sample_imported_record"
    by (simp add: sample_promoted_def promote_def)
  show ?thesis
    using resolved_files_are_imported [OF sample_service_import _ _ sample_resolved p d c] sample_resolved
    by (simp add: sample_package_files)
qed

end
