(* ===== verification/Spec2Isabelle.thy ===== *)
theory Spec2Isabelle
  imports Api_Server Skill_Service
begin

text \<open>
  Verification library of the trust boundary of the Omni-context brain server: the part of
  \<open>src/brain-server/src\<close> that decides whether an external action may be executed and whether its
  effect may be believed.

  \<^bold>\<open>The program.\<close> A capability (\<open>capabilities/contracts.ts\<close>) names the evidence its use requires.
  Evidence providers return candidates, which \<open>evidence/qualification.ts\<close> qualifies or rejects;
  \<open>evidence/coverage-builder.ts\<close> turns a collection into a coverage snapshot, one entry per required
  class; \<open>evidence/guard.ts\<close> asks for more until the mandatory classes are satisfied or its budget
  is spent. The verdict is kept in the guard-run ledger and the evidence in the qualified ledger
  (\<open>evidence/stores.ts\<close>); \<open>evidence/eligibility.ts\<close> later re-checks both before a plan may be built.
  \<open>approval/authorization-service.ts\<close> builds the execution plan (\<open>execution/contracts.ts\<close>), asks for
  a human approval, verifies the native grant, and expires, denies or revokes. After the execution,
  \<open>outcome/service.ts\<close> opens an outcome for the native receipt and verifies it by a trusted
  read-back; \<open>control/verification-runtime.ts\<close> is the only place where receipts and read-backs enter.
  When the outcome disappoints, \<open>revision/service.ts\<close> reopens the decision: it requalifies the evidence,
  applies the decision kernel again and, at most, prepares a new plan that awaits its own approval.
  All of it stands behind one HTTP server (\<open>api/routes.ts\<close>): the local owner approves, verifies and reopens
  through a control surface with sessions of its own (\<open>control/\<close>), devices are paired and authenticated by
  \<open>security/auth.ts\<close>, and tools are called over MCP (\<open>api/handlers/mcp.ts\<close>). Beside it stands the registry
  of skills (\<open>skills/\<close>): procedures that name capabilities, imported from packages, quarantined until
  somebody trusts them, and checked again against the snapshot of their package before each use.

  \<^bold>\<open>Theories, in the order of the code.\<close>
  \<^item> \<open>Prelude\<close>: exceptions (\<open>Inl (Throws code)\<close>), untrusted values (\<open>raw\<close>), schemas as a normalisation
    and a predicate, timestamps, strings, insertion-ordered maps, the bounded-store contract.
  \<^item> \<open>Json\<close>, \<open>Canonical\<close>: \<open>contracts/json-safe.ts\<close> and \<open>canonicalJson\<close> of \<open>evidence/model.ts\<close>; the
    canonical text determines the value, which is what every digest rests on.
  \<^item> \<open>Capability\<close>, \<open>Execution\<close>: \<open>capabilities/contracts.ts\<close>, \<open>execution/contracts.ts\<close> (plans,
    \<open>assessEvidenceCoverage\<close>, \<open>validateExecutionPlan\<close>).
  \<^item> \<open>Evidence\<close>, \<open>Coverage_Builder\<close>: \<open>evidence/model.ts\<close>, \<open>digests.ts\<close>, \<open>provider.ts\<close>,
    \<open>qualification.ts\<close>, \<open>coverage-builder.ts\<close>.
  \<^item> \<open>Guard_Policy\<close>, \<open>Guard\<close>: \<open>evidence/guard-policy.ts\<close>, \<open>guard-types.ts\<close>, \<open>guard.ts\<close>.
  \<^item> \<open>Evidence_Stores\<close>, \<open>Eligibility\<close>: \<open>evidence/stores.ts\<close>, \<open>subject.ts\<close>, \<open>eligibility.ts\<close>.
  \<^item> \<open>Evidence_Runtime\<close>: \<open>evidence/runtime.ts\<close>, \<open>provider-registry.ts\<close> and \<open>collectFromProvider\<close>: the
    evaluation that composes resolvers, providers, ledgers, builder and guard.
  \<^item> \<open>Approval\<close>, \<open>Authorization_Store\<close>, \<open>Authorization\<close>, \<open>Authorization_Lifecycle\<close>:
    \<open>approval/contracts.ts\<close>, \<open>policy.ts\<close>, \<open>binding.ts\<close>, \<open>authorization-store.ts\<close>,
    \<open>authorization-service.ts\<close>, and the transition system of its operations.
  \<^item> \<open>Outcome\<close>, \<open>Outcome_Store\<close>, \<open>Outcome_Evaluator\<close>, \<open>Outcome_Service\<close>, \<open>Outcome_Lifecycle\<close>:
    \<open>outcome/contracts.ts\<close>, \<open>digests.ts\<close>, \<open>lifecycle.ts\<close>, \<open>execution-state-map.ts\<close>, \<open>store.ts\<close>,
    \<open>evaluator.ts\<close> with the registry and both evaluators, \<open>service.ts\<close>, and its transition system.
  \<^item> \<open>Verification_Runtime\<close>: \<open>control/verification-runtime.ts\<close> and \<open>verification-facade.ts\<close>.
  \<^item> \<open>Revision\<close>: \<open>decision/kernel.ts\<close>, \<open>revision/contracts.ts\<close>, \<open>revision/store.ts\<close> with the two tables
    of \<open>db/sqlite.ts\<close> it writes; the abstract specification is one history of decisions per root.
  \<^item> \<open>Revision_Service\<close>: \<open>revision/service.ts\<close>, whose world is the states of the evidence runtime, the
    authorization store, the verification runtime and the revision store.
  \<^item> \<open>Rate_Window\<close>: the contract of a fixed-window limiter, a locale that the pairing endpoint and the
    control sessions interpret.
  \<^item> \<open>Auth\<close>: \<open>security/auth.ts\<close>, the token table with its invariant and the transition system of pairing,
    authentication and administration.
  \<^item> \<open>Control_Session\<close>, \<open>Control_Approval\<close>: \<open>control/session.ts\<close>, \<open>control/audit.ts\<close>,
    \<open>control/approval-facade.ts\<close>; the runs of the approval surface refine those of \<open>Authorization_Lifecycle\<close>.
  \<^item> \<open>Api_Router\<close>, \<open>Api_Server\<close>: the route table and its matching, the authorization of MCP calls, the dispatch
    of a request up to its handler, the rate limiter, \<open>control/reopen-facade.ts\<close>.
  \<^item> \<open>Skill_Contracts\<close>, \<open>Skill_Registry\<close>, \<open>Skill_Registry_Store\<close>: \<open>skills/contracts.ts\<close> with the inheritance of
    safety, \<open>registry-types.ts\<close>, \<open>registry.ts\<close>, \<open>registry-store.ts\<close>, and the transition system of requests,
    queued writes, failures and restarts.
  \<^item> \<open>Skill_Paths\<close>, \<open>Skill_Frontmatter\<close>, \<open>Skill_Import\<close>, \<open>Skill_Service\<close>: \<open>skills/importer/\<close> (path policy,
    digests, frontmatter, the walk over a package and its managed snapshot) and
    \<open>skill-package-registry-service.ts\<close>.

  A TypeScript interface or schema is a \<open>record\<close> whose fields carry the field names with a short
  prefix; \<open>norm_...\<close> is what the schema's \<open>trim()\<close> does to it, \<open>..._ok\<close> its constraints and
  refinements, \<open>parse_...\<close> the composition. An operation of a service takes the state and returns it
  updated, with \<open>Inl\<close> the exception thrown. A map of the code is an association list in insertion
  order. The guard calls back into the runtime, whose callback changes the ledgers: the guard is modelled
  over fixed answers, and \<open>guard_over_effects_refines_guard\<close> carries it over to such a callback.

  \<^bold>\<open>What the lemmas show.\<close> For each component, inversion lemmas say when an operation returns and with
  what (\<open>..._Inr\<close>), invariants are kept by every operation (\<open>..._inv\<close>), and the interface contracts are
  locales: \<open>bounded_store\<close> (both ledgers, the authorization store), \<open>record_store\<close> and its extension
  \<open>versioned_store\<close> (authorization and outcome store), \<open>sound_evaluator\<close> (both evaluators); each is
  interpreted on the model of the code and its client lemmas carry the properties; \<open>fixed_window\<close> does the same
  for both limiters, whose bound is twice the limit in any period of one window, and \<open>forward_store\<close> for the
  skill registry: what has reached memory, pending writes and file, and later versions keep, holds for ever. The
  transition systems \<open>authz_step\<close>, \<open>outcome_step\<close>, \<open>auth_step\<close>, \<open>control_step\<close> and \<open>registry_step\<close> interleave the operations at the points where the
  code awaits; the properties over all their runs are proved by rule induction.

  \<^bold>\<open>Parameters.\<close> SHA-256 is a function \<open>sha\<close> from byte strings to texts; no property assumes that it
  is injective, a property about digests has the collision as its other case. The clock readings, generated ids, the
  capability lookup, the native approval verifier, evidence collectors, receipt and observation
  resolvers, and whether a file write succeeds, are arguments. \<open>localeCompare\<close> and the conversion of
  a text to a number are parameters where the code uses them. The file system of a package import is what
  each pass of the importer finds, a new one for every pass; decoding, YAML and JSON parsing are
  functions of the bytes. Records that an operation returns are not changed by its caller.

  \<^bold>\<open>Bounds and termination.\<close> Code units are below 256 (a \<open>char\<close>), so length bounds count Latin-1 texts;
  numbers are integers where a schema says integer, and decimal otherwise (\<open>jsnum\<close>). The guard loop
  is a \<open>function\<close> with the measure rounds left, the walks over directories have the entries left on the
  stack as theirs; every other loop is structural. No fuel is used.

  \<^bold>\<open>Not modelled.\<close> The handlers behind the routes and the MCP tools, the database (\<open>db/sqlite.ts\<close>), graph
  extraction, memory, retrieval, agents, importers of documents, exporters and the user interfaces:
  SQL text, model calls and floating-point scores over data that is not in the repository. The capability
  definitions and their input schemas are data for the modelled contracts. Of HTTP, body parsing, response
  headers and the URL parser are outside: a request carries the path name of its parsed URL.
\<close>

end
